(* ===== verification/Prelude.thy ===== *)
theory Prelude
  imports Complex_Main "HOL-Library.Word" "HOL-Library.Code_Target_Numeral"
begin

text \<open>
  Shared vocabulary of the development: the error values and the \<open>Result\<close> type of
  \<^verbatim>\<open>include/predictfun/types/error.hpp\<close>, the pieces of the C++ standard library that
  the sources use on strings (\<^verbatim>\<open>std::to_string\<close>, \<^verbatim>\<open>std::from_chars\<close>,
  \<^verbatim>\<open>std::isdigit\<close>, \<^verbatim>\<open>std::isxdigit\<close>), and the generic lemmas on
  decimal digit strings that the numeric components share.

  Strings are byte lists (\<open>char\<close> is an 8-bit character, as \<^verbatim>\<open>char\<close> in C++).
  Unsigned 64-bit values whose arithmetic is guarded are natural numbers with the
  reduction \<open>mod 2 ^ 64\<close> written out; values that wrap by design are words.
\<close>

section \<open>Collections\<close>

named_theorems res_simps \<open>inversion of a chain of fallible steps\<close>
named_theorems digit_simps \<open>decimal digit strings\<close>

section \<open>Errors and results\<close>

datatype error_code =
    invalid_argument | cancelled | deadline_exceeded | dns_failure | connect_failure
  | tls_failure | write_failure | read_failure | websocket_handshake_failure
  | websocket_closed | websocket_frame_too_large | websocket_queue_overflow
  | subscription_rejected | heartbeat_timeout | timestamp_regression | body_truncated
  | body_too_large | rate_limited | authentication_required | http_redirect
  | http_client_error | http_server_error | protocol_error | malformed_json
  | missing_field | invalid_field | unsupported_precision | numeric_overflow
  | invalid_decimal | invalid_price | invalid_quantity | too_many_items
  | invalid_orderbook | venue_rejected | ambiguous_submission | remote_error
  | unsupported_chain | execution_reverted | storage_failure | journal_corrupt

record error =
  err_code :: error_code
  err_message :: string
  err_field :: string
  err_http_status :: int
  err_retry_after_ms :: nat

definition mk_error :: "error_code \<Rightarrow> string \<Rightarrow> string \<Rightarrow> error" where
  "mk_error c m f = \<lparr>err_code = c, err_message = m, err_field = f,
     err_http_status = 0, err_retry_after_ms = 0\<rparr>"

type_synonym 'a result = "error + 'a"

text \<open>
  \<open>bind_res r f\<close> is the idiom \<^verbatim>\<open>if (!r) return r.error();\<close> followed by the use of
  \<^verbatim>\<open>r.value()\<close>.
\<close>

definition bind_res :: "'a result \<Rightarrow> ('a \<Rightarrow> 'b result) \<Rightarrow> 'b result" where
  "bind_res r f = (case r of Inl e \<Rightarrow> Inl e | Inr x \<Rightarrow> f x)"

text \<open>\<open>guard_res c e r\<close> is the idiom \<^verbatim>\<open>if (c) return e;\<close> followed by \<open>r\<close>.\<close>

definition guard_res :: "bool \<Rightarrow> error \<Rightarrow> 'b result \<Rightarrow> 'b result" where
  "guard_res c e r = (if c then Inl e else r)"

definition is_ok :: "'a result \<Rightarrow> bool" where
  "is_ok r = (case r of Inl _ \<Rightarrow> False | Inr _ \<Rightarrow> True)"

lemma err_code_mk_error [simp]: "err_code (mk_error c m f) = c"
  by (simp add: mk_error_def)

lemma err_message_mk_error [simp]: "err_message (mk_error c m f) = m"
  by (simp add: mk_error_def)

lemma bind_res_Inr [simp]: "bind_res (Inr x) f = f x"
  by (simp add: bind_res_def)

lemma bind_res_Inl [simp]: "bind_res (Inl e) f = Inl e"
  by (simp add: bind_res_def)

lemma bind_res_eq_Inr [res_simps]:
  "bind_res r f = Inr y \<longleftrightarrow> (\<exists>x. r = Inr x \<and> f x = Inr y)"
  by (cases r) auto

lemma bind_res_eq_Inl [res_simps]:
  "bind_res r f = Inl e \<longleftrightarrow> r = Inl e \<or> (\<exists>x. r = Inr x \<and> f x = Inl e)"
  by (cases r) auto

lemma guard_res_True [simp]: "c \<Longrightarrow> guard_res c e r = Inl e"
  by (simp add: guard_res_def)

lemma guard_res_False [simp]: "\<not> c \<Longrightarrow> guard_res c e r = r"
  by (simp add: guard_res_def)

lemma guard_res_eq_Inr [res_simps]: "guard_res c e r = Inr y \<longleftrightarrow> \<not> c \<and> r = Inr y"
  by (simp add: guard_res_def)

lemma guard_res_eq_Inl [res_simps]:
  "guard_res c e r = Inl e' \<longleftrightarrow> c \<and> e = e' \<or> \<not> c \<and> r = Inl e'"
  by (auto simp: guard_res_def)

lemma is_ok_Inr [simp]: "is_ok (Inr x)"
  by (simp add: is_ok_def)

lemma is_ok_Inl [simp]: "\<not> is_ok (Inl e)"
  by (simp add: is_ok_def)

lemma is_ok_iff: "is_ok r \<longleftrightarrow> (\<exists>x. r = Inr x)"
  by (cases r) auto

section \<open>Characters\<close>

definition is_digit :: "char \<Rightarrow> bool" where
  "is_digit c \<longleftrightarrow> 48 \<le> (of_char c :: nat) \<and> (of_char c :: nat) \<le> 57"

definition is_xdigit :: "char \<Rightarrow> bool" where
  "is_xdigit c \<longleftrightarrow> (let n = (of_char c :: nat) in
     48 \<le> n \<and> n \<le> 57 \<or> 65 \<le> n \<and> n \<le> 70 \<or> 97 \<le> n \<and> n \<le> 102)"

definition is_alnum :: "char \<Rightarrow> bool" where
  "is_alnum c \<longleftrightarrow> (let n = (of_char c :: nat) in
     48 \<le> n \<and> n \<le> 57 \<or> 65 \<le> n \<and> n \<le> 90 \<or> 97 \<le> n \<and> n \<le> 122)"

definition to_lower :: "char \<Rightarrow> char" where
  "to_lower c = (let n = (of_char c :: nat) in
     if 65 \<le> n \<and> n \<le> 90 then char_of (n + 32) else c)"

definition digit_value :: "char \<Rightarrow> nat" where
  "digit_value c = of_char c - 48"

definition digit_char :: "nat \<Rightarrow> char" where
  "digit_char d = char_of (48 + d)"

definition starts_with :: "string \<Rightarrow> string \<Rightarrow> bool" where
  "starts_with s p \<longleftrightarrow> take (length p) s = p"

lemma of_char_digit_char [simp]: "d < 10 \<Longrightarrow> (of_char (digit_char d) :: nat) = 48 + d"
  by (simp add: digit_char_def)

lemma is_digit_digit_char [simp]: "d < 10 \<Longrightarrow> is_digit (digit_char d)"
  by (simp add: is_digit_def)

lemma digit_value_digit_char [simp]: "d < 10 \<Longrightarrow> digit_value (digit_char d) = d"
  by (simp add: digit_value_def)

lemma digit_value_less [simp]: "is_digit c \<Longrightarrow> digit_value c < 10"
  by (auto simp: is_digit_def digit_value_def)

lemma digit_char_digit_value [simp]: "is_digit c \<Longrightarrow> digit_char (digit_value c) = c"
  by (simp add: is_digit_def digit_char_def digit_value_def)

lemma is_digit_zero [simp]: "is_digit (CHR ''0'')"
  by (simp add: is_digit_def)

lemma digit_value_zero [simp]: "digit_value (CHR ''0'') = 0"
  by (simp add: digit_value_def)

lemma not_digit_punct [simp]:
  "\<not> is_digit (CHR ''.'')" "\<not> is_digit (CHR ''-'')" "\<not> is_digit (CHR ''+'')"
  "\<not> is_digit (CHR ''e'')" "\<not> is_digit (CHR ''E'')"
  by (simp_all add: is_digit_def)

lemma digit_char_0: "digit_char 0 = CHR ''0''"
  using digit_char_digit_value [of "CHR ''0''"] by simp

lemma digit_value_0_iff:
  assumes "is_digit c"
  shows "digit_value c = 0 \<longleftrightarrow> c = CHR ''0''"
proof
  assume "digit_value c = 0"
  with digit_char_digit_value [OF assms] show "c = CHR ''0''"
    by (simp add: digit_char_0)
qed simp

section \<open>Guarded arithmetic\<close>

lemma sub_wrap_mod: "b \<le> a \<Longrightarrow> a < m \<Longrightarrow> (a + m - b) mod m = a - (b :: nat)"
proof -
  assume le: "b \<le> a" and less: "a < m"
  have eq: "a + m - b = (a - b) + m"
    using le by simp
  show "(a + m - b) mod m = a - b"
    unfolding eq mod_add_self2 using less by (intro mod_less) simp
qed

section \<open>Decimal digit strings\<close>

definition digits_value :: "string \<Rightarrow> nat" where
  "digits_value s = foldl (\<lambda>a c. 10 * a + digit_value c) 0 s"

text \<open>\<^verbatim>\<open>std::to_string\<close> of an unsigned integer.\<close>

fun to_string :: "nat \<Rightarrow> string" where
  "to_string n = (if n < 10 then [digit_char n]
     else to_string (n div 10) @ [digit_char (n mod 10)])"

text \<open>A text between double quotes, as the format strings of the JSON encoders have it.\<close>

definition jq :: "string \<Rightarrow> string" where
  "jq s = CHR 0x22 # s @ [CHR 0x22]"

definition int_to_string :: "int \<Rightarrow> string" where
  "int_to_string i = (if i < 0 then CHR ''-'' # to_string (nat (- i)) else to_string (nat i))"

declare to_string.simps [simp del]

text \<open>
  \<^verbatim>\<open>std::from_chars\<close> into an unsigned type of maximum \<open>m\<close>: the longest digit prefix,
  with an error on an empty prefix or an out-of-range value. The result is the value and
  the unread rest.
\<close>

definition from_chars_uint :: "nat \<Rightarrow> string \<Rightarrow> (nat \<times> string) option" where
  "from_chars_uint m s = (let ds = takeWhile is_digit s in
     if ds = [] \<or> m < digits_value ds then None
     else Some (digits_value ds, dropWhile is_digit s))"

text \<open>\<^verbatim>\<open>std::from_chars\<close> into a signed type: one optional minus sign, then digits.\<close>

definition from_chars_int :: "int \<Rightarrow> int \<Rightarrow> string \<Rightarrow> (int \<times> string) option" where
  "from_chars_int lo hi s =
     (let neg = (s \<noteq> [] \<and> hd s = CHR ''-''); body = (if neg then tl s else s);
          ds = takeWhile is_digit body;
          v = (if neg then - int (digits_value ds) else int (digits_value ds))
      in if ds = [] \<or> v < lo \<or> hi < v then None else Some (v, dropWhile is_digit body))"

fun strip_leading_zeros :: "string \<Rightarrow> string" where
  "strip_leading_zeros (c # d # s) =
     (if c = CHR ''0'' then strip_leading_zeros (d # s) else c # d # s)"
| "strip_leading_zeros s = s"

definition u64_max :: nat where "u64_max = 2 ^ 64 - 1"

lemma digits_value_Nil [digit_simps, simp]: "digits_value [] = 0"
  by (simp add: digits_value_def)

lemma digits_value_snoc [digit_simps]:
  "digits_value (s @ [c]) = 10 * digits_value s + digit_value c"
  by (simp add: digits_value_def)

lemma digits_value_append [digit_simps]:
  "digits_value (s @ t) = digits_value s * 10 ^ length t + digits_value t"
proof (induction t rule: rev_induct)
  case (snoc c t)
  have "digits_value (s @ t @ [c]) = 10 * digits_value (s @ t) + digit_value c"
    using digits_value_snoc [of "s @ t" c] by simp
  then show ?case
    using snoc by (simp add: digits_value_snoc algebra_simps)
qed simp

lemma digits_value_Cons:
  "digits_value (c # s) = digit_value c * 10 ^ length s + digits_value s"
  using digits_value_append [of "[c]" s] by (simp add: digits_value_def)

lemma digits_value_single [simp]: "digits_value [c] = digit_value c"
  by (simp add: digits_value_def)

lemma digits_value_zeros [simp]: "digits_value (replicate n (CHR ''0'') @ s) = digits_value s"
  by (induction n) (auto simp: digits_value_Cons)

lemma digits_value_less:
  "list_all is_digit s \<Longrightarrow> digits_value s < 10 ^ length s"
proof (induction s rule: rev_induct)
  case (snoc c s)
  then have "digits_value s < 10 ^ length s" "digit_value c < 10"
    by auto
  then show ?case by (simp add: digits_value_snoc)
qed simp

lemma digits_value_strip [simp]: "digits_value (strip_leading_zeros s) = digits_value s"
  by (induction s rule: strip_leading_zeros.induct) (auto simp: digits_value_Cons)

lemma list_all_strip [simp]: "list_all p s \<Longrightarrow> list_all p (strip_leading_zeros s)"
  by (induction s rule: strip_leading_zeros.induct) auto

lemma strip_leading_zeros_Nil [simp]: "strip_leading_zeros s = [] \<longleftrightarrow> s = []"
  by (induction s rule: strip_leading_zeros.induct) auto

lemma digits_value_to_string [simp, digit_simps]: "digits_value (to_string n) = n"
proof (induction n rule: to_string.induct)
  case (1 n)
  then show ?case
    by (cases "n < 10")
      (auto simp: to_string.simps [of n] digits_value_snoc)
qed

lemma to_string_not_Nil [simp]: "to_string n \<noteq> []"
  by (subst to_string.simps) simp

lemma list_all_to_string [simp, digit_simps]: "list_all is_digit (to_string n)"
proof (induction n rule: to_string.induct)
  case (1 n)
  then show ?case
    by (cases "n < 10") (auto simp: to_string.simps [of n])
qed

lemma takeWhile_all: "list_all p s \<Longrightarrow> takeWhile p s = s"
  by (induction s) auto

lemma dropWhile_all: "list_all p s \<Longrightarrow> dropWhile p s = []"
  by (induction s) auto

lemma dropWhile_Nil_iff: "dropWhile p s = [] \<longleftrightarrow> list_all p s"
  by (induction s) auto

lemma from_chars_int_all:
  "from_chars_int lo hi s = Some (v, []) \<longleftrightarrow>
     (let neg = (s \<noteq> [] \<and> hd s = CHR ''-''); ds = (if neg then tl s else s) in
      ds \<noteq> [] \<and> list_all is_digit ds \<and> lo \<le> v \<and> v \<le> hi \<and>
      v = (if neg then - int (digits_value ds) else int (digits_value ds)))"
proof -
  define neg where "neg = (s \<noteq> [] \<and> hd s = CHR ''-'')"
  define body where "body = (if neg then tl s else s)"
  show ?thesis
  proof (cases "list_all is_digit body")
    case True
    then show ?thesis
      unfolding from_chars_int_def neg_def [symmetric] Let_def body_def [symmetric]
      by (auto simp: takeWhile_all dropWhile_all)
  next
    case False
    then have "dropWhile is_digit body \<noteq> []"
      unfolding dropWhile_Nil_iff .
    with False show ?thesis
      unfolding from_chars_int_def neg_def [symmetric] Let_def body_def [symmetric]
      by (auto simp del: dropWhile_eq_Nil_conv)
  qed
qed

lemma from_chars_uint_digits:
  assumes "list_all is_digit s" and "s \<noteq> []"
  shows "from_chars_uint m s = (if digits_value s \<le> m then Some (digits_value s, []) else None)"
  using assms by (auto simp: from_chars_uint_def takeWhile_all dropWhile_all)

section \<open>Ordering of strings\<close>

text \<open>\<^verbatim>\<open>std::string\<close> and \<^verbatim>\<open>std::string_view\<close> compare byte by byte.\<close>

fun str_less :: "string \<Rightarrow> string \<Rightarrow> bool" where
  "str_less s [] = False"
| "str_less [] (d # t) = True"
| "str_less (c # s) (d # t) =
     ((of_char c :: nat) < of_char d \<or> c = d \<and> str_less s t)"

lemma str_less_irrefl [simp]: "\<not> str_less s s"
  by (induction s) auto

lemma str_less_trans: "str_less s t \<Longrightarrow> str_less t u \<Longrightarrow> str_less s u"
proof (induction s t arbitrary: u rule: str_less.induct)
  case (3 c s d t)
  then show ?case by (cases u) auto
next
  case (2 d t)
  then show ?case by (cases u) auto
qed simp

lemma str_less_linear: "str_less s t \<or> s = t \<or> str_less t s"
proof (induction s t rule: str_less.induct)
  case (3 c s d t)
  then show ?case
    using of_char_eq_iff [of c d, where 'a = nat] by (auto simp: neq_iff)
next
  case (1 s)
  then show ?case by (cases s) auto
qed auto

lemma digit_value_less_iff:
  "is_digit c \<Longrightarrow> is_digit d \<Longrightarrow> digit_value c < digit_value d \<longleftrightarrow> (of_char c :: nat) < of_char d"
  by (auto simp: is_digit_def digit_value_def)

lemma str_less_digits:
  assumes "length s = length t" and "list_all is_digit s" and "list_all is_digit t"
  shows "str_less s t \<longleftrightarrow> digits_value s < digits_value t"
  using assms
proof (induction s t rule: list_induct2)
  case (Cons c s d t)
  then have bounds: "digits_value s < 10 ^ length s" "digits_value t < 10 ^ length s"
    using digits_value_less [of s] digits_value_less [of t] by auto
  have digits: "is_digit c" "is_digit d"
    using Cons.prems by auto
  have step: "a * m + u < b * m + v" if "a < b" "u < m" for a b m u v :: nat
  proof -
    have "a * m + u < Suc a * m"
      using that by simp
    also have "\<dots> \<le> b * m"
      using that by (intro mult_right_mono) auto
    finally show ?thesis by simp
  qed
  have len: "length t = length s"
    using Cons.hyps by simp
  show ?case
  proof (cases "digit_value c" "digit_value d" rule: linorder_cases)
    case less
    then show ?thesis
      using step [OF less bounds(1)] digits digit_value_less_iff
      by (simp add: digits_value_Cons len)
  next
    case equal
    then have "c = d"
      using digits by (metis digit_char_digit_value)
    then show ?thesis
      using Cons by (simp add: digits_value_Cons len)
  next
    case greater
    then have "\<not> (of_char c :: nat) < of_char d" "c \<noteq> d"
      using digits digit_value_less_iff [of d c] by auto
    then show ?thesis
      using step [OF greater bounds(2), of "digits_value s"] by (simp add: digits_value_Cons len)
  qed
qed simp

text \<open>A digit string without leading zeros is the one \<open>to_string\<close> prints.\<close>

lemma to_string_digits_value:
  assumes "list_all is_digit s" and "s \<noteq> []" and "hd s \<noteq> CHR ''0'' \<or> length s = 1"
  shows "to_string (digits_value s) = s"
  using assms
proof (induction s rule: rev_induct)
  case (snoc c s)
  show ?case
  proof (cases "s = []")
    case True
    then show ?thesis
      using snoc.prems by (simp add: to_string.simps)
  next
    case False
    with snoc.prems have hd: "hd s \<noteq> CHR ''0''" and dig: "is_digit c" "list_all is_digit s"
      by auto
    have "digits_value s \<noteq> 0"
    proof
      assume zero: "digits_value s = 0"
      obtain a u where s: "s = a # u" "is_digit a"
        using False dig by (cases s) auto
      with zero have "digit_value a = 0"
        by (simp add: digits_value_Cons)
      with s hd show False
        by (simp add: digit_value_0_iff)
    qed
    then show ?thesis
      using snoc.IH hd dig False
      by (simp add: digits_value_snoc to_string.simps [of "10 * digits_value s + digit_value c"])
  qed
qed simp

lemma length_to_string_le:
  "list_all is_digit s \<Longrightarrow> s \<noteq> [] \<Longrightarrow> hd s \<noteq> CHR ''0'' \<Longrightarrow> 10 ^ (length s - 1) \<le> digits_value s"
proof (cases s)
  case (Cons c t)
  assume "list_all is_digit s" "s \<noteq> []" "hd s \<noteq> CHR ''0''"
  with Cons have "digit_value c \<noteq> 0"
    using digit_value_0_iff by auto
  then have "1 * 10 ^ length t \<le> digit_value c * 10 ^ length t"
    by (intro mult_right_mono) auto
  then have "10 ^ length t \<le> digit_value c * 10 ^ length t + digits_value t"
    by (metis mult_1 trans_le_add1)
  then show ?thesis
    using Cons by (simp add: digits_value_Cons)
qed simp

lemma digits_value_dropWhile_zero:
  "digits_value (dropWhile (\<lambda>c. c = CHR ''0'') s) = digits_value s"
  by (induction s) (auto simp: digits_value_Cons)

end
