(* ===== verification/Decimal.thy ===== *)
theory Decimal
  imports Prelude
begin

text \<open>
  \<^verbatim>\<open>src/decimal.cpp\<close> and \<^verbatim>\<open>include/predictfun/types/decimal.hpp\<close>: the exact
  fixed-point decimals and the tick prices of the SDK. \<open>fixed_decimal_parse\<close> follows
  \<^verbatim>\<open>FixedDecimal::parse\<close> statement by statement; its correctness is stated against
  \<open>decimal_denotation\<close>, the rational number a decimal literal denotes, which is defined
  from the grammar alone.
\<close>

section \<open>Data\<close>

record fixed_decimal =
  fd_units :: nat
  fd_scale :: nat

record price =
  pr_ticks :: nat
  pr_precision :: nat
  pr_tick_scale :: nat

definition max_scale :: nat where "max_scale = 18"

definition powers_of_ten :: "nat list" where
  "powers_of_ten = map (\<lambda>i. 10 ^ i) [0..<19]"

section \<open>Operations\<close>

definition checked_multiply :: "nat \<Rightarrow> nat \<Rightarrow> nat result" where
  "checked_multiply v f =
     (if f \<noteq> 0 \<and> v > u64_max div f
      then Inl (mk_error numeric_overflow ''decimal exceeds uint64 capacity'' '''')
      else Inr (v * f mod 2 ^ 64))"

text \<open>
  The scan over the significand. The source records the position of the (single) point
  first and counts a digit as fractional when its index is larger; here the flag says that
  the point has been passed.
\<close>

fun scan_significand :: "bool \<Rightarrow> string \<Rightarrow> (string \<times> nat) option" where
  "scan_significand passed [] = Some ([], 0)"
| "scan_significand passed (c # s) =
     (if c = CHR ''.'' then scan_significand True s
      else if \<not> is_digit c then None
      else case scan_significand passed s of
             None \<Rightarrow> None
           | Some (ds, n) \<Rightarrow> Some (c # ds, if passed then Suc n else n))"

text \<open>The exponent: absent, or \<^verbatim>\<open>std::from_chars\<close> into a 32-bit \<^verbatim>\<open>int\<close> that must use up the text.\<close>

definition parse_exponent :: "string \<Rightarrow> int result" where
  "parse_exponent rest =
     (if rest = [] then Inr 0
      else if tl rest = [] then Inl (mk_error invalid_decimal ''decimal exponent is empty'' '''')
      else case from_chars_int (- (2 ^ 31)) (2 ^ 31 - 1) (tl rest) of
             Some (e, []) \<Rightarrow> Inr e
           | _ \<Rightarrow> Inl (mk_error invalid_decimal ''decimal exponent is invalid'' ''''))"

fun trim_scale :: "nat \<Rightarrow> nat \<Rightarrow> fixed_decimal" where
  "trim_scale u 0 = \<lparr>fd_units = u, fd_scale = 0\<rparr>"
| "trim_scale u (Suc s) =
     (if u mod 10 = 0 then trim_scale (u div 10) s else \<lparr>fd_units = u, fd_scale = Suc s\<rparr>)"

definition scale_significand :: "nat \<Rightarrow> int \<Rightarrow> fixed_decimal result" where
  "scale_significand u signed_scale =
     (if signed_scale < 0 then
        (let zeros = nat (- signed_scale) in
         if zeros > max_scale
         then Inl (mk_error numeric_overflow ''decimal exponent exceeds supported capacity'' '''')
         else bind_res (checked_multiply u (powers_of_ten ! zeros))
                (\<lambda>g. Inr \<lparr>fd_units = g, fd_scale = 0\<rparr>))
      else if signed_scale > int max_scale
      then Inl (mk_error unsupported_precision ''decimal scale exceeds 18 digits'' '''')
      else Inr (trim_scale u (nat signed_scale)))"

definition exponent_char :: "char \<Rightarrow> bool" where
  "exponent_char c \<longleftrightarrow> c = CHR ''e'' \<or> c = CHR ''E''"

definition fixed_decimal_parse :: "string \<Rightarrow> fixed_decimal result" where
  "fixed_decimal_parse text =
     (if text = [] \<or> hd text = CHR ''-'' \<or> hd text = CHR ''+''
      then Inl (mk_error invalid_decimal ''expected an unsigned decimal'' '''')
      else
        let significand = takeWhile (Not \<circ> exponent_char) text;
            rest = dropWhile (Not \<circ> exponent_char) text
        in if count_list significand (CHR ''.'') > 1
           then Inl (mk_error invalid_decimal ''decimal has more than one point'' '''')
           else case scan_significand False significand of
             None \<Rightarrow> Inl (mk_error invalid_decimal ''decimal contains an invalid character'' '''')
           | Some (digits, fractional) \<Rightarrow>
               if digits = [] \<or> significand = ''.''
               then Inl (mk_error invalid_decimal ''decimal has no digits'' '''')
               else bind_res (parse_exponent rest) (\<lambda>ex.
                 case from_chars_uint u64_max (strip_leading_zeros digits) of
                   Some (u, []) \<Rightarrow> scale_significand u (int fractional - ex)
                 | _ \<Rightarrow> Inl (mk_error numeric_overflow
                          ''decimal significand exceeds uint64 capacity'' '''')))"

definition rescale_exact :: "fixed_decimal \<Rightarrow> nat \<Rightarrow> fixed_decimal result" where
  "rescale_exact d target =
     (if target > max_scale
      then Inl (mk_error unsupported_precision ''target scale exceeds 18 digits'' '''')
      else if target = fd_scale d then Inr d
      else if target > fd_scale d then
        bind_res (checked_multiply (fd_units d) (powers_of_ten ! (target - fd_scale d)))
          (\<lambda>g. Inr \<lparr>fd_units = g, fd_scale = target\<rparr>)
      else
        let divisor = powers_of_ten ! (fd_scale d - target) in
        if fd_units d mod divisor \<noteq> 0
        then Inl (mk_error invalid_decimal ''decimal is not aligned to the requested scale'' '''')
        else Inr \<lparr>fd_units = fd_units d div divisor, fd_scale = target\<rparr>)"

definition fixed_decimal_to_string :: "fixed_decimal \<Rightarrow> string" where
  "fixed_decimal_to_string d =
     (if fd_scale d = 0 then to_string (fd_units d)
      else
        let digits = to_string (fd_units d);
            padded = (if length digits \<le> fd_scale d
                      then replicate (fd_scale d + 1 - length digits) (CHR ''0'') @ digits
                      else digits);
            cut = length padded - fd_scale d
        in take cut padded @ ''.'' @ drop cut padded)"

definition price_from_ticks :: "nat \<Rightarrow> nat \<Rightarrow> price result" where
  "price_from_ticks ticks prec =
     (if prec > max_scale
      then Inl (mk_error unsupported_precision ''price precision exceeds 18 digits''
                  ''decimalPrecision'')
      else
        let scale = powers_of_ten ! prec in
        if ticks > scale
        then Inl (mk_error invalid_price ''price must be between zero and one'' ''price'')
        else Inr \<lparr>pr_ticks = ticks, pr_precision = prec, pr_tick_scale = scale\<rparr>)"

definition as_price_error :: "'a result \<Rightarrow> 'a result" where
  "as_price_error r = (case r of Inl e \<Rightarrow> Inl (e\<lparr>err_code := invalid_price\<rparr>) | Inr x \<Rightarrow> Inr x)"

definition price_parse :: "string \<Rightarrow> nat \<Rightarrow> price result" where
  "price_parse text prec =
     bind_res (as_price_error (fixed_decimal_parse text)) (\<lambda>d.
     bind_res (as_price_error (rescale_exact d prec)) (\<lambda>aligned.
       price_from_ticks (fd_units aligned) prec))"

definition complement :: "price \<Rightarrow> price" where
  "complement p = p\<lparr>pr_ticks := (pr_tick_scale p + 2 ^ 64 - pr_ticks p) mod 2 ^ 64\<rparr>"

definition price_to_string :: "price \<Rightarrow> string" where
  "price_to_string p = fixed_decimal_to_string \<lparr>fd_units = pr_ticks p, fd_scale = pr_precision p\<rparr>"

section \<open>Specification\<close>

text \<open>The value of a decimal and the invariant of the values that \<open>fixed_decimal_parse\<close> builds.\<close>

definition fd_value :: "fixed_decimal \<Rightarrow> rat" where
  "fd_value d = of_nat (fd_units d) / 10 ^ fd_scale d"

definition fd_wf :: "fixed_decimal \<Rightarrow> bool" where
  "fd_wf d \<longleftrightarrow> fd_units d < 2 ^ 64 \<and> fd_scale d \<le> max_scale"

definition fd_canonical :: "fixed_decimal \<Rightarrow> bool" where
  "fd_canonical d \<longleftrightarrow> fd_wf d \<and> (fd_scale d = 0 \<or> fd_units d mod 10 \<noteq> 0)"

definition price_wf :: "price \<Rightarrow> bool" where
  "price_wf p \<longleftrightarrow> pr_precision p \<le> max_scale \<and> pr_tick_scale p = 10 ^ pr_precision p
     \<and> pr_ticks p \<le> pr_tick_scale p"

definition price_value :: "price \<Rightarrow> rat" where
  "price_value p = of_nat (pr_ticks p) / of_nat (pr_tick_scale p)"

text \<open>
  The rational number denoted by a decimal literal: digits, at most one point, and an
  optional exponent that is an \<^verbatim>\<open>int\<close>. \<open>None\<close> for a text that is no such literal.
\<close>

definition exponent_denotation :: "string \<Rightarrow> int option" where
  "exponent_denotation rest =
     (case rest of [] \<Rightarrow> Some 0
      | _ # t \<Rightarrow>
          (let neg = (t \<noteq> [] \<and> hd t = CHR ''-''); ds = (if neg then tl t else t);
               v = (if neg then - int (digits_value ds) else int (digits_value ds))
           in if ds \<noteq> [] \<and> list_all is_digit ds \<and> - (2 ^ 31) \<le> v \<and> v < 2 ^ 31
              then Some v else None))"

definition decimal_denotation :: "string \<Rightarrow> rat option" where
  "decimal_denotation text =
     (let significand = takeWhile (Not \<circ> exponent_char) text;
          rest = dropWhile (Not \<circ> exponent_char) text;
          whole = takeWhile (\<lambda>c. c \<noteq> CHR ''.'') significand;
          frac = drop (Suc (length whole)) significand
      in if list_all is_digit whole \<and> list_all is_digit frac \<and> whole @ frac \<noteq> []
         then map_option (\<lambda>ex. of_nat (digits_value (whole @ frac))
                * 10 powi (ex - int (length frac))) (exponent_denotation rest)
         else None)"

section \<open>Lemmas\<close>

lemma powers_of_ten_nth [simp]: "i \<le> max_scale \<Longrightarrow> powers_of_ten ! i = 10 ^ i"
  by (auto simp: powers_of_ten_def max_scale_def nth_append less_Suc_eq_le [symmetric] simp del: upt_conv_Cons_Cons)

lemma le_u64_max_iff: "n \<le> u64_max \<longleftrightarrow> n < 2 ^ 64"
  by (auto simp: u64_max_def)

lemma checked_multiply_eq:
  "0 < f \<Longrightarrow> checked_multiply v f = (if v * f < 2 ^ 64 then Inr (v * f)
     else Inl (mk_error numeric_overflow ''decimal exceeds uint64 capacity'' ''''))"
  by (auto simp: checked_multiply_def div_less_iff_less_mult u64_max_def)

lemma scan_significand_True:
  "CHR ''.'' \<notin> set s \<Longrightarrow>
     scan_significand True s = (if list_all is_digit s then Some (s, length s) else None)"
  by (induction s) auto

lemma count_list_0: "count_list s c = 0 \<longleftrightarrow> c \<notin> set s"
  by (induction s) auto

lemma scan_significand_False:
  "count_list s (CHR ''.'') \<le> 1 \<Longrightarrow>
     scan_significand False s =
       (let w = takeWhile (\<lambda>c. c \<noteq> CHR ''.'') s; f = drop (Suc (length w)) s in
        if list_all is_digit w \<and> list_all is_digit f then Some (w @ f, length f) else None)"
proof (induction s)
  case (Cons c s)
  then show ?case
    by (auto simp: Let_def scan_significand_True count_list_0 split: if_splits)
qed simp

lemma dot_in_frac:
  "count_list s (CHR ''.'') > 1 \<Longrightarrow>
     CHR ''.'' \<in> set (drop (Suc (length (takeWhile (\<lambda>c. c \<noteq> CHR ''.'') s))) s)"
proof (induction s)
  case (Cons c s)
  then show ?case
    using count_list_0 [of s "CHR ''.''"] by (cases "c = CHR ''.''") auto
qed simp

lemma list_all_digit_no_dot: "list_all is_digit s \<Longrightarrow> CHR ''.'' \<notin> set s"
  by (induction s) auto

lemma parse_exponent_denotation:
  "parse_exponent rest = Inr ex \<longleftrightarrow> exponent_denotation rest = Some ex"
proof (cases rest)
  case (Cons c t)
  have "parse_exponent (c # t) = Inr ex \<longleftrightarrow>
      t \<noteq> [] \<and> from_chars_int (- (2 ^ 31)) (2 ^ 31 - 1) t = Some (ex, [])"
    by (auto simp: parse_exponent_def split: option.splits list.splits prod.splits)
  then show ?thesis
    unfolding Cons from_chars_int_all exponent_denotation_def Let_def
    by (cases "t \<noteq> [] \<and> hd t = CHR ''-''") auto
qed (auto simp: parse_exponent_def exponent_denotation_def)

lemma parse_exponent_error:
  "parse_exponent rest = Inl e \<Longrightarrow> err_code e = invalid_decimal"
  by (auto simp: parse_exponent_def split: if_splits option.splits list.splits prod.splits)

lemma parse_exponent_None:
  "exponent_denotation rest = None \<longleftrightarrow> (\<exists>e. parse_exponent rest = Inl e)"
  by (metis Inr_not_Inl not_Some_eq obj_sumE parse_exponent_denotation)

lemma trim_scale_value: "fd_value (trim_scale u s) = of_nat u / 10 ^ s"
proof (induction u s rule: trim_scale.induct)
  case (2 u s)
  show ?case
  proof (cases "u mod 10 = 0")
    case True
    then have "(of_nat u :: rat) = 10 * of_nat (u div 10)"
      by (metis dvd_eq_mod_eq_0 dvd_mult_div_cancel of_nat_mult of_nat_numeral)
    with True 2 show ?thesis by simp
  qed (simp add: fd_value_def)
qed (simp add: fd_value_def)

lemma trim_scale_bounds:
  "fd_units (trim_scale u s) \<le> u \<and> fd_scale (trim_scale u s) \<le> s \<and>
   (fd_scale (trim_scale u s) = 0 \<or> fd_units (trim_scale u s) mod 10 \<noteq> 0)"
proof (induction u s rule: trim_scale.induct)
  case (2 u s)
  then show ?case by (auto intro: le_trans)
qed simp

lemma trim_scale_canonical:
  "s = 0 \<or> u mod 10 \<noteq> 0 \<Longrightarrow> trim_scale u s = \<lparr>fd_units = u, fd_scale = s\<rparr>"
  by (cases s) auto

lemma scale_significand_sound:
  assumes "scale_significand u ss = Inr d" and "u < 2 ^ 64"
  shows "fd_value d = of_nat u * 10 powi (- ss) \<and> fd_canonical d"
proof (cases "ss < 0")
  case True
  then show ?thesis
    using assms
    by (auto simp: scale_significand_def Let_def res_simps checked_multiply_eq fd_value_def
          fd_canonical_def fd_wf_def power_int_def split: if_splits)
next
  case False
  with assms have d: "d = trim_scale u (nat ss)" "nat ss \<le> max_scale"
    by (auto simp: scale_significand_def split: if_splits)
  then have "fd_value d = of_nat u * 10 powi (- ss)"
    using False by (cases "ss = 0")
      (simp_all only: trim_scale_value power_int_def, auto simp: field_simps)
  moreover have "fd_canonical d"
    using d assms(2) trim_scale_bounds [of u "nat ss"]
    by (auto simp: fd_canonical_def fd_wf_def)
  ultimately show ?thesis by simp
qed

lemma scale_significand_error:
  "scale_significand u ss = Inl e \<Longrightarrow> err_code e \<noteq> invalid_decimal"
  by (auto simp: scale_significand_def Let_def res_simps checked_multiply_def split: if_splits)

text \<open>
  The literal split into its whole digits, its fractional digits and its exponent, and the
  shape of \<open>fixed_decimal_parse\<close> on a literal and on any other text.
\<close>

definition literal_parts :: "string \<Rightarrow> string \<times> string \<times> string" where
  "literal_parts text =
     (let significand = takeWhile (Not \<circ> exponent_char) text;
          whole = takeWhile (\<lambda>c. c \<noteq> CHR ''.'') significand
      in (whole, drop (Suc (length whole)) significand, dropWhile (Not \<circ> exponent_char) text))"

definition literal_ok :: "string \<Rightarrow> string \<Rightarrow> bool" where
  "literal_ok w f \<longleftrightarrow> list_all is_digit w \<and> list_all is_digit f \<and> w @ f \<noteq> []"

lemma decimal_denotation_parts:
  "literal_parts text = (w, f, rest) \<Longrightarrow>
     decimal_denotation text = (if literal_ok w f
       then map_option (\<lambda>ex. of_nat (digits_value (w @ f)) * 10 powi (ex - int (length f)))
              (exponent_denotation rest)
       else None)"
  by (auto simp: literal_parts_def decimal_denotation_def literal_ok_def Let_def)

lemma signed_text_not_literal:
  assumes "literal_parts text = (w, f, rest)"
    and "text = [] \<or> hd text = CHR ''-'' \<or> hd text = CHR ''+''"
  shows "\<not> literal_ok w f"
  using assms by (cases "text") (auto simp: literal_parts_def literal_ok_def exponent_char_def Let_def)

lemma fixed_decimal_parse_not_literal:
  assumes "literal_parts text = (w, f, rest)" and "\<not> literal_ok w f"
  shows "\<exists>e. fixed_decimal_parse text = Inl e \<and> err_code e = invalid_decimal"
  using assms
  by (auto simp: fixed_decimal_parse_def literal_parts_def literal_ok_def Let_def
        scan_significand_False)

lemma fixed_decimal_parse_literal:
  assumes parts: "literal_parts text = (w, f, rest)" and ok: "literal_ok w f"
  shows "fixed_decimal_parse text = bind_res (parse_exponent rest) (\<lambda>ex.
           if digits_value (w @ f) \<le> u64_max
           then scale_significand (digits_value (w @ f)) (int (length f) - ex)
           else Inl (mk_error numeric_overflow
                       ''decimal significand exceeds uint64 capacity'' ''''))"
proof -
  define sig where "sig = takeWhile (Not \<circ> exponent_char) text"
  have w: "w = takeWhile (\<lambda>c. c \<noteq> CHR ''.'') sig" and f: "f = drop (Suc (length w)) sig"
    and rest: "rest = dropWhile (Not \<circ> exponent_char) text"
    using parts by (auto simp: literal_parts_def Let_def sig_def)
  have digits: "list_all is_digit (w @ f)" "w @ f \<noteq> []"
    using ok by (auto simp: literal_ok_def)
  have "\<not> 1 < count_list sig (CHR ''.'')"
    using dot_in_frac [of sig] list_all_digit_no_dot ok w f by (auto simp: literal_ok_def)
  moreover from this have "scan_significand False sig = Some (w @ f, length f)"
    using ok w f by (simp add: scan_significand_False literal_ok_def Let_def)
  moreover have "sig \<noteq> ''.''"
    using digits(2) w f by auto
  moreover have "from_chars_uint u64_max (strip_leading_zeros (w @ f)) =
      (if digits_value (w @ f) \<le> u64_max then Some (digits_value (w @ f), []) else None)"
    using digits by (subst from_chars_uint_digits) auto
  ultimately show ?thesis
    using signed_text_not_literal [OF parts] ok digits(2)
    unfolding fixed_decimal_parse_def Let_def sig_def [symmetric] rest [symmetric]
    by (auto intro!: arg_cong2 [where f = bind_res])
qed

lemma fixed_decimal_parse_denotes:
  assumes "fixed_decimal_parse text = Inr d"
  shows "decimal_denotation text = Some (fd_value d) \<and> fd_canonical d"
proof -
  obtain w f rest where parts: "literal_parts text = (w, f, rest)"
    by (metis prod_cases3)
  have ok: "literal_ok w f"
    using assms fixed_decimal_parse_not_literal [OF parts] by auto
  obtain ex where ex: "parse_exponent rest = Inr ex"
    and fit: "digits_value (w @ f) \<le> u64_max"
    and d: "scale_significand (digits_value (w @ f)) (int (length f) - ex) = Inr d"
    using assms unfolding fixed_decimal_parse_literal [OF parts ok]
    by (auto simp: res_simps split: if_splits)
  have "fd_value d = of_nat (digits_value (w @ f)) * 10 powi (ex - int (length f)) \<and> fd_canonical d"
    using scale_significand_sound [OF d] fit by (simp add: le_u64_max_iff)
  then show ?thesis
    using ok ex by (simp add: decimal_denotation_parts [OF parts] parse_exponent_denotation)
qed

text \<open>
  Parsing is sound and canonical: a text that \<open>FixedDecimal::parse\<close> accepts is a decimal
  literal, the parsed decimal has exactly the rational value the literal denotes (no rounding
  and no wrap-around), and it is in the range of the type with no trailing fractional zero.
\<close>

theorem fixed_decimal_parse_sound:
  assumes "fixed_decimal_parse text = Inr d"
  shows "decimal_denotation text = Some (fd_value d) \<and> fd_canonical d"
  using assms by (rule fixed_decimal_parse_denotes)

theorem fixed_decimal_parse_sound_witness:
  "decimal_denotation ''012.50e1'' = Some (fd_value \<lparr>fd_units = 125, fd_scale = 0\<rparr>) \<and>
   fd_canonical \<lparr>fd_units = 125, fd_scale = 0\<rparr>"
  by (rule fixed_decimal_parse_sound) code_simp

text \<open>
  The error classification of parsing is exact: \<open>invalid_decimal\<close> is reported for
  precisely the texts that are no decimal literal; every other failure is a capacity failure.
\<close>

theorem fixed_decimal_parse_invalid_iff:
  "(\<exists>e. fixed_decimal_parse text = Inl e \<and> err_code e = invalid_decimal) \<longleftrightarrow>
   decimal_denotation text = None"
proof -
  obtain w f rest where parts: "literal_parts text = (w, f, rest)"
    by (metis prod_cases3)
  show ?thesis
  proof (cases "literal_ok w f")
    case True
    show ?thesis
      unfolding fixed_decimal_parse_literal [OF parts True] decimal_denotation_parts [OF parts]
      using True parse_exponent_error parse_exponent_None
      by (auto simp: res_simps dest: scale_significand_error split: if_splits)
  next
    case False
    then show ?thesis
      using fixed_decimal_parse_not_literal [OF parts False] by (simp add: decimal_denotation_parts [OF parts])
  qed
qed

lemma digits_no_exponent: "list_all is_digit s \<Longrightarrow> list_all (Not \<circ> exponent_char) s"
  by (auto simp: list_all_iff exponent_char_def)

lemma digits_no_dot: "list_all is_digit s \<Longrightarrow> list_all (\<lambda>c. c \<noteq> CHR ''.'') s"
  by (auto simp: list_all_iff)

lemma literal_parts_point:
  assumes "list_all is_digit w" and "list_all is_digit f"
  shows "literal_parts (w @ ''.'' @ f) = (w, f, [])"
proof -
  have "list_all (Not \<circ> exponent_char) (w @ ''.'' @ f)"
    using assms digits_no_exponent by (simp add: exponent_char_def)
  moreover have "takeWhile (\<lambda>c. c \<noteq> CHR ''.'') (w @ ''.'' @ f) = w"
    using digits_no_dot [OF assms(1)] by (simp add: takeWhile_append list_all_iff)
  ultimately show ?thesis
    by (simp add: literal_parts_def Let_def takeWhile_all dropWhile_all del: append.simps)
qed

lemma literal_parts_whole: "list_all is_digit w \<Longrightarrow> literal_parts w = (w, [], [])"
  by (simp add: literal_parts_def Let_def takeWhile_all dropWhile_all digits_no_exponent digits_no_dot)

lemma fixed_decimal_parse_plain:
  assumes "literal_parts text = (w, f, [])" and "literal_ok w f"
    and "digits_value (w @ f) < 2 ^ 64" and "length f \<le> max_scale"
  shows "fixed_decimal_parse text = Inr (trim_scale (digits_value (w @ f)) (length f))"
  using assms
  by (simp add: fixed_decimal_parse_literal parse_exponent_def le_u64_max_iff scale_significand_def)

lemma fixed_decimal_to_string_parts:
  "\<exists>w f. literal_parts (fixed_decimal_to_string d) = (w, f, []) \<and> literal_ok w f \<and>
     digits_value (w @ f) = fd_units d \<and> length f = fd_scale d"
proof (cases "fd_scale d = 0")
  case True
  then show ?thesis
    using literal_parts_whole [of "to_string (fd_units d)"]
    by (auto simp: fixed_decimal_to_string_def literal_ok_def)
next
  case False
  define digits where "digits = to_string (fd_units d)"
  define padded where "padded = (if length digits \<le> fd_scale d
     then replicate (fd_scale d + 1 - length digits) (CHR ''0'') @ digits else digits)"
  define cut where "cut = length padded - fd_scale d"
  have len: "fd_scale d < length padded"
    by (simp add: padded_def)
  have dig: "list_all is_digit padded" and val: "digits_value padded = fd_units d"
    by (simp_all add: padded_def digits_def list_all_iff)
       (use list_all_to_string in \<open>auto simp: list_all_iff\<close>)
  have split: "list_all is_digit (take cut padded)" "list_all is_digit (drop cut padded)"
    using dig by (metis append_take_drop_id list_all_append)+
  have "fixed_decimal_to_string d = take cut padded @ ''.'' @ drop cut padded"
    using False by (simp add: fixed_decimal_to_string_def Let_def cut_def padded_def digits_def)
  then show ?thesis
    using literal_parts_point [OF split] split len val
    by (auto simp: literal_ok_def cut_def)
qed

text \<open>
  Printing and parsing round-trip: the text that \<open>to_string\<close> prints for any decimal in
  the range of the type is accepted, denotes the same value, and gives back the very same
  representation when that was the canonical one.
\<close>

theorem fixed_decimal_round_trip:
  assumes "fd_wf d"
  shows "\<exists>d'. fixed_decimal_parse (fixed_decimal_to_string d) = Inr d' \<and>
    fd_value d' = fd_value d \<and> (fd_canonical d \<longrightarrow> d' = d)"
proof -
  obtain w f where parts: "literal_parts (fixed_decimal_to_string d) = (w, f, [])"
    "literal_ok w f" and val: "digits_value (w @ f) = fd_units d" "length f = fd_scale d"
    using fixed_decimal_to_string_parts by blast
  have "fixed_decimal_parse (fixed_decimal_to_string d) = Inr (trim_scale (fd_units d) (fd_scale d))"
    using fixed_decimal_parse_plain [OF parts] val assms by (simp add: fd_wf_def)
  moreover have "fd_canonical d \<Longrightarrow> trim_scale (fd_units d) (fd_scale d) = d"
    by (auto simp: fd_canonical_def trim_scale_canonical)
  ultimately show ?thesis
    using trim_scale_value [of "fd_units d" "fd_scale d"] by (auto simp: fd_value_def [of d])
qed

theorem fixed_decimal_round_trip_witness:
  "fixed_decimal_parse (fixed_decimal_to_string \<lparr>fd_units = 7, fd_scale = 2\<rparr>)
     = Inr \<lparr>fd_units = 7, fd_scale = 2\<rparr>"
proof -
  have "fd_wf \<lparr>fd_units = 7, fd_scale = 2\<rparr>" "fd_canonical \<lparr>fd_units = 7, fd_scale = 2\<rparr>"
    by code_simp+
  then show ?thesis
    using fixed_decimal_round_trip by blast
qed

lemma rat_pow_eq: "(a :: rat) / 10 ^ (m + k) = b / 10 ^ m \<longleftrightarrow> a = b * 10 ^ k"
proof -
  have "a / 10 ^ (m + k) = b / 10 ^ m \<longleftrightarrow> (a / 10 ^ k) / 10 ^ m = b / 10 ^ m"
    by (simp only: power_add divide_divide_eq_left mult.commute)
  also have "\<dots> \<longleftrightarrow> a / 10 ^ k = b"
    by (subst divide_cancel_right) simp
  also have "\<dots> \<longleftrightarrow> a = b * 10 ^ k"
    by (rule nonzero_divide_eq_eq) simp
  finally show ?thesis .
qed

lemma fd_value_eq_iff:
  assumes "fd_scale d \<le> fd_scale r"
  shows "fd_value r = fd_value d \<longleftrightarrow> fd_units r = fd_units d * 10 ^ (fd_scale r - fd_scale d)"
proof -
  obtain k where k: "fd_scale r = fd_scale d + k"
    using assms le_Suc_ex by blast
  have "fd_value r = fd_value d \<longleftrightarrow>
      (of_nat (fd_units r) :: rat) = of_nat (fd_units d) * 10 ^ (fd_scale r - fd_scale d)"
    by (simp only: fd_value_def k rat_pow_eq add_diff_cancel_left')
  also have "\<dots> \<longleftrightarrow> fd_units r = fd_units d * 10 ^ (fd_scale r - fd_scale d)"
    by (simp only: of_nat_eq_iff [symmetric, where 'a = rat] of_nat_mult of_nat_power of_nat_numeral)
  finally show ?thesis .
qed

lemma rescale_exact_up:
  "fd_scale d < t \<Longrightarrow> t \<le> max_scale \<Longrightarrow>
     rescale_exact d t = Inr r \<longleftrightarrow>
       fd_units d * 10 ^ (t - fd_scale d) < 2 ^ 64 \<and>
       r = \<lparr>fd_units = fd_units d * 10 ^ (t - fd_scale d), fd_scale = t\<rparr>"
  by (auto simp: rescale_exact_def checked_multiply_eq)

lemma rescale_exact_down:
  assumes "t < fd_scale d" and "fd_scale d \<le> max_scale"
  shows "rescale_exact d t = Inr r \<longleftrightarrow>
    fd_units d = fd_units r * 10 ^ (fd_scale d - t) \<and> fd_scale r = t"
proof -
  have "powers_of_ten ! (fd_scale d - t) = 10 ^ (fd_scale d - t)"
    using assms by simp
  then have "rescale_exact d t = (if fd_units d mod 10 ^ (fd_scale d - t) \<noteq> 0
      then Inl (mk_error invalid_decimal ''decimal is not aligned to the requested scale'' '''')
      else Inr \<lparr>fd_units = fd_units d div 10 ^ (fd_scale d - t), fd_scale = t\<rparr>)"
    using assms by (simp add: rescale_exact_def Let_def del: powers_of_ten_nth)
  then show ?thesis
    by (cases r) auto
qed

lemma rescale_exact_spec:
  assumes "fd_wf d" and "t \<le> max_scale"
  shows "rescale_exact d t = Inr r \<longleftrightarrow>
    fd_scale r = t \<and> fd_units r < 2 ^ 64 \<and> fd_value r = fd_value d"
proof (cases "fd_scale d" t rule: linorder_cases)
  case less
  then show ?thesis
    using assms by (cases r) (auto simp: rescale_exact_up fd_value_eq_iff)
next
  case equal
  then have "rescale_exact d t = Inr r \<longleftrightarrow> d = r"
    using assms by (simp add: rescale_exact_def)
  also have "\<dots> \<longleftrightarrow> fd_scale r = t \<and> fd_units r < 2 ^ 64 \<and> fd_value r = fd_value d"
    using equal assms by (cases d; cases r) (auto simp: fd_wf_def fd_value_eq_iff)
  finally show ?thesis .
next
  case greater
  moreover have "fd_units d < 2 ^ 64" "fd_scale d \<le> max_scale"
    using assms by (auto simp: fd_wf_def)
  moreover have "fd_units r \<le> fd_units r * 10 ^ (fd_scale d - t)"
    by simp
  moreover have "fd_value r = fd_value d \<longleftrightarrow> fd_units d = fd_units r * 10 ^ (fd_scale d - t)"
    if "fd_scale r = t"
    using fd_value_eq_iff [of r d] that greater by auto
  ultimately show ?thesis
    using rescale_exact_down [of t d r] by (metis le_less_trans)
qed

text \<open>
  Exact rescaling: at a supported target scale, \<open>rescale_exact\<close> returns precisely the
  64-bit decimal of that scale with the same value, so it succeeds if and only if such a
  decimal exists and never rounds or wraps.
\<close>

theorem rescale_exact_iff:
  assumes "fd_wf d" and "t \<le> max_scale"
  shows "rescale_exact d t = Inr r \<longleftrightarrow>
    fd_scale r = t \<and> fd_units r < 2 ^ 64 \<and> fd_value r = fd_value d"
  using assms by (rule rescale_exact_spec)

theorem rescale_exact_iff_witness:
  "rescale_exact \<lparr>fd_units = 5, fd_scale = 1\<rparr> 3 = Inr \<lparr>fd_units = 500, fd_scale = 3\<rparr> \<longleftrightarrow>
     fd_scale \<lparr>fd_units = 500, fd_scale = 3\<rparr> = 3 \<and>
     fd_units \<lparr>fd_units = 500, fd_scale = 3\<rparr> < 2 ^ 64 \<and>
     fd_value \<lparr>fd_units = 500, fd_scale = 3\<rparr> = fd_value \<lparr>fd_units = 5, fd_scale = 1\<rparr>"
  by (rule rescale_exact_iff) code_simp+

lemma price_from_ticks_iff:
  "price_from_ticks k p = Inr q \<longleftrightarrow>
     p \<le> max_scale \<and> k \<le> 10 ^ p \<and>
     q = \<lparr>pr_ticks = k, pr_precision = p, pr_tick_scale = 10 ^ p\<rparr>"
  by (auto simp: price_from_ticks_def Let_def)

lemma as_price_error_Inr [simp]: "as_price_error r = Inr x \<longleftrightarrow> r = Inr x"
  by (cases r) (auto simp: as_price_error_def)

lemma price_parse_iff:
  "price_parse text p = Inr q \<longleftrightarrow>
     (\<exists>d r. fixed_decimal_parse text = Inr d \<and> rescale_exact d p = Inr r \<and>
        price_from_ticks (fd_units r) p = Inr q)"
  by (auto simp: price_parse_def res_simps)

lemma fixed_decimal_parse_wf: "fixed_decimal_parse text = Inr d \<Longrightarrow> fd_wf d"
  using fixed_decimal_parse_denotes fd_canonical_def by blast

lemma price_value_fd:
  "fd_scale r = p \<Longrightarrow>
     price_value \<lparr>pr_ticks = fd_units r, pr_precision = p, pr_tick_scale = 10 ^ p\<rparr> = fd_value r"
  by (simp add: price_value_def fd_value_def)

text \<open>
  A price that \<open>Price::parse\<close> accepts at a precision is well formed (at most 18 digits,
  scale \<open>10 ^ precision\<close>, between zero and one) and has exactly the value of its text; and a
  parsed decimal is accepted if and only if it is a whole number of ticks in that range.
\<close>

theorem price_parse_correct:
  assumes "p \<le> max_scale" and "fixed_decimal_parse text = Inr d"
  shows "((\<exists>q. price_parse text p = Inr q) \<longleftrightarrow> (\<exists>k \<le> 10 ^ p. fd_value d = of_nat k / 10 ^ p)) \<and>
    (\<forall>q. price_parse text p = Inr q \<longrightarrow>
      price_wf q \<and> pr_precision q = p \<and> decimal_denotation text = Some (price_value q))"
proof -
  have wf: "fd_wf d"
    using assms(2) by (rule fixed_decimal_parse_wf)
  have small: "k \<le> 10 ^ p \<Longrightarrow> k < 2 ^ 64" for k :: nat
  proof -
    assume "k \<le> 10 ^ p"
    also have "(10 :: nat) ^ p \<le> 10 ^ 18"
      using assms(1) by (intro power_increasing) (simp_all add: max_scale_def)
    also have "\<dots> < 2 ^ 64" by simp
    finally show "k < 2 ^ 64" .
  qed
  have iff: "price_parse text p = Inr q \<longleftrightarrow>
      (\<exists>r. fd_scale r = p \<and> fd_value r = fd_value d \<and> fd_units r \<le> 10 ^ p \<and>
        q = \<lparr>pr_ticks = fd_units r, pr_precision = p, pr_tick_scale = 10 ^ p\<rparr>)" for q
    using small assms by (auto simp: price_parse_iff rescale_exact_spec [OF wf] price_from_ticks_iff)
  have "(\<exists>q. price_parse text p = Inr q) \<longleftrightarrow> (\<exists>k \<le> 10 ^ p. fd_value d = of_nat k / 10 ^ p)"
  proof
    assume "\<exists>k \<le> 10 ^ p. fd_value d = of_nat k / 10 ^ p"
    then obtain k where "k \<le> 10 ^ p" "fd_value d = of_nat k / 10 ^ p" by blast
    then show "\<exists>q. price_parse text p = Inr q"
      by (auto simp: iff fd_value_def intro!: exI [of _ "\<lparr>fd_units = k, fd_scale = p\<rparr>"])
  qed (auto simp: iff fd_value_def)
  moreover have "price_wf q \<and> pr_precision q = p \<and> decimal_denotation text = Some (price_value q)"
    if "price_parse text p = Inr q" for q
    using that assms fixed_decimal_parse_denotes [OF assms(2)]
    by (auto simp: iff price_value_fd) (simp add: price_wf_def)
  ultimately show ?thesis by blast
qed

theorem price_parse_correct_witness:
  "price_wf \<lparr>pr_ticks = 75, pr_precision = 2, pr_tick_scale = 100\<rparr> \<and>
   decimal_denotation ''0.75'' = Some (price_value \<lparr>pr_ticks = 75, pr_precision = 2, pr_tick_scale = 100\<rparr>)"
proof -
  have "2 \<le> max_scale" "fixed_decimal_parse ''0.75'' = Inr \<lparr>fd_units = 75, fd_scale = 2\<rparr>"
    "price_parse ''0.75'' 2 = Inr \<lparr>pr_ticks = 75, pr_precision = 2, pr_tick_scale = 100\<rparr>"
    by code_simp+
  then show ?thesis
    using price_parse_correct by blast
qed

lemma complement_eq: "price_wf p \<Longrightarrow> complement p = p\<lparr>pr_ticks := pr_tick_scale p - pr_ticks p\<rparr>"
proof -
  assume p: "price_wf p"
  have "(10 :: nat) ^ pr_precision p \<le> 10 ^ 18"
    using p by (intro power_increasing) (simp_all add: price_wf_def max_scale_def)
  also have "\<dots> < 2 ^ 64" by simp
  finally have "pr_tick_scale p < 2 ^ 64" "pr_ticks p \<le> pr_tick_scale p"
    using p by (auto simp: price_wf_def)
  then show ?thesis
    unfolding complement_def by (simp only: sub_wrap_mod)
qed

text \<open>
  The complement of a well-formed price is the price of the opposite outcome: it is well
  formed at the same precision, its value is one minus the price (the unsigned subtraction
  never wraps), and taking it twice gives the price back.
\<close>

lemma price_complement:
  assumes "price_wf p"
  shows "price_wf (complement p) \<and> pr_precision (complement p) = pr_precision p \<and>
    price_value (complement p) = 1 - price_value p \<and> complement (complement p) = p"
proof -
  note c = complement_eq [OF assms]
  have wf: "price_wf (complement p)"
    using assms by (simp add: c price_wf_def)
  have "complement (complement p) = p"
    using complement_eq [OF wf] assms by (simp add: c price_wf_def)
  moreover have "price_value (complement p) = 1 - price_value p"
    using assms unfolding c price_value_def by (simp add: of_nat_diff diff_divide_distrib price_wf_def)
  ultimately show ?thesis
    using wf by (simp add: c)
qed

end
