(* ===== verification/Exact_Number.thy ===== *)
theory Exact_Number
  imports Prelude
begin

text \<open>
  \<^verbatim>\<open>src/exact_number.cpp\<close>: the lossless decimal text \<open>ExactDecimal\<close> and the canonical
  base-10 \<open>Uint256\<close> that API fields beyond the native integers use. Both keep their text, so
  the correctness statements relate the text to the number it denotes.
\<close>

section \<open>Data\<close>

record exact_decimal =
  xd_text :: string

record uint256 =
  u256_text :: string

definition exact_zero :: exact_decimal where "exact_zero = \<lparr>xd_text = ''0''\<rparr>"

definition uint256_max :: string where
  "uint256_max = ''115792089237316195423570985008687907853269984665640564039457584007913129639935''"

section \<open>Operations\<close>

definition digits_text :: "string \<Rightarrow> bool" where
  "digits_text s \<longleftrightarrow> s \<noteq> [] \<and> list_all is_digit s"

text \<open>The loop of \<open>ExactDecimal::parse\<close>: the number of digits read, unless a byte is neither a
  digit nor the first point.\<close>

fun exact_scan :: "bool \<Rightarrow> string \<Rightarrow> nat option" where
  "exact_scan dot [] = Some 0"
| "exact_scan dot (c # s) =
     (if is_digit c then map_option Suc (exact_scan dot s)
      else if c = CHR ''.'' \<and> \<not> dot then exact_scan True s
      else None)"

definition exact_parse :: "string \<Rightarrow> exact_decimal result" where
  "exact_parse text =
     (if text = [] then Inl (mk_error invalid_decimal ''decimal is empty'' '''')
      else
        let body = (if hd text = CHR ''-'' then tl text else text) in
        if body = [] then Inl (mk_error invalid_decimal ''decimal has no digits'' '''')
        else case exact_scan False body of
          None \<Rightarrow> Inl (mk_error invalid_decimal ''decimal must use plain base-10 notation'' '''')
        | Some digit_count \<Rightarrow>
            if digit_count = 0 \<or> last text = CHR ''.''
            then Inl (mk_error invalid_decimal ''decimal is incomplete'' '''')
            else Inr \<lparr>xd_text = text\<rparr>)"

definition uint256_parse :: "string \<Rightarrow> uint256 result" where
  "uint256_parse text =
     (if \<not> digits_text text
      then Inl (mk_error invalid_field ''uint256 must contain base-10 digits'' '''')
      else
        let stripped = dropWhile (\<lambda>c. c = CHR ''0'') text;
            canonical = (if stripped = [] then ''0'' else stripped)
        in if length canonical > length uint256_max
              \<or> length canonical = length uint256_max \<and> str_less uint256_max canonical
           then Inl (mk_error numeric_overflow ''value exceeds uint256'' '''')
           else Inr \<lparr>u256_text = canonical\<rparr>)"

definition uint256_zero :: uint256 where "uint256_zero = \<lparr>u256_text = ''0''\<rparr>"

definition uint256_is_zero :: "uint256 \<Rightarrow> bool" where
  "uint256_is_zero u \<longleftrightarrow> u256_text u = ''0''"

section \<open>Specification\<close>

definition uint256_value :: "uint256 \<Rightarrow> nat" where
  "uint256_value u = digits_value (u256_text u)"

definition uint256_wf :: "uint256 \<Rightarrow> bool" where
  "uint256_wf u \<longleftrightarrow> u256_text u = to_string (uint256_value u) \<and> uint256_value u < 2 ^ 256"

text \<open>Plain base-10 notation: an optional minus, digits, and a point that digits follow.\<close>

definition plain_decimal :: "string \<Rightarrow> bool" where
  "plain_decimal text \<longleftrightarrow>
     (let body = (if text \<noteq> [] \<and> hd text = CHR ''-'' then tl text else text);
          whole = takeWhile (\<lambda>c. c \<noteq> CHR ''.'') body;
          frac = drop (Suc (length whole)) body
      in list_all is_digit whole \<and> list_all is_digit frac \<and>
         (if CHR ''.'' \<in> set body then frac \<noteq> [] else whole \<noteq> []))"

definition plain_value :: "string \<Rightarrow> rat" where
  "plain_value text =
     (let neg = (text \<noteq> [] \<and> hd text = CHR ''-'');
          body = (if neg then tl text else text);
          whole = takeWhile (\<lambda>c. c \<noteq> CHR ''.'') body;
          frac = drop (Suc (length whole)) body;
          v = of_nat (digits_value (whole @ frac)) / 10 ^ length frac
      in if neg then - v else v)"

definition exact_wf :: "exact_decimal \<Rightarrow> bool" where
  "exact_wf d \<longleftrightarrow> plain_decimal (xd_text d)"

definition exact_value :: "exact_decimal \<Rightarrow> rat" where
  "exact_value d = plain_value (xd_text d)"

section \<open>Lemmas\<close>

lemma exact_scan_True:
  "exact_scan True s = (if list_all is_digit s then Some (length s) else None)"
  by (induction s) auto

lemma exact_scan_False:
  "exact_scan False s =
     (let w = takeWhile (\<lambda>c. c \<noteq> CHR ''.'') s; f = drop (Suc (length w)) s in
      if list_all is_digit w \<and> list_all is_digit f then Some (length w + length f) else None)"
  by (induction s) (auto simp: Let_def exact_scan_True)

lemma drop_after_dot_Nil:
  "CHR ''.'' \<in> set s \<Longrightarrow>
     drop (Suc (length (takeWhile (\<lambda>c. c \<noteq> CHR ''.'') s))) s = [] \<longleftrightarrow>
     last s = CHR ''.'' \<and> takeWhile (\<lambda>c. c \<noteq> CHR ''.'') s @ ''.'' = s"
  by (induction s) auto

lemma split_at_dot:
  "CHR ''.'' \<in> set s \<Longrightarrow>
     s = takeWhile (\<lambda>c. c \<noteq> CHR ''.'') s @ ''.''
         @ drop (Suc (length (takeWhile (\<lambda>c. c \<noteq> CHR ''.'') s))) s"
  by (induction s) auto

lemma no_dot_split:
  "CHR ''.'' \<notin> set s \<Longrightarrow> takeWhile (\<lambda>c. c \<noteq> CHR ''.'') s = s"
  by (induction s) auto

lemma last_digits: "list_all is_digit s \<Longrightarrow> s \<noteq> [] \<Longrightarrow> is_digit (last s)"
  by (simp add: list_all_iff)

lemma exact_body_iff:
  "(\<exists>n. exact_scan False s = Some n \<and> n \<noteq> 0 \<and> last s \<noteq> CHR ''.'') \<and> s \<noteq> [] \<longleftrightarrow>
     (let w = takeWhile (\<lambda>c. c \<noteq> CHR ''.'') s; f = drop (Suc (length w)) s in
      list_all is_digit w \<and> list_all is_digit f \<and>
      (if CHR ''.'' \<in> set s then f \<noteq> [] else w \<noteq> []))"
proof (cases "CHR ''.'' \<in> set s")
  case True
  define w where "w = takeWhile (\<lambda>c. c \<noteq> CHR ''.'') s"
  define f where "f = drop (Suc (length w)) s"
  have s: "s = w @ ''.'' @ f"
    using split_at_dot [OF True] by (simp add: w_def f_def)
  have "list_all is_digit f \<Longrightarrow> f \<noteq> [] \<Longrightarrow> last f \<noteq> CHR ''.''"
    using last_digits by force
  then show ?thesis
    using True s unfolding exact_scan_False Let_def w_def [symmetric] f_def [symmetric]
    by (auto simp: last_append)
next
  case False
  have "list_all is_digit s \<Longrightarrow> s \<noteq> [] \<Longrightarrow> last s \<noteq> CHR ''.''"
    using last_digits by force
  then show ?thesis
    using False by (auto simp: exact_scan_False no_dot_split Let_def)
qed

text \<open>\<open>ExactDecimal::parse\<close> accepts precisely plain base-10 notation and keeps the text.\<close>

lemma exact_parse_iff:
  "exact_parse text = Inr d \<longleftrightarrow> plain_decimal text \<and> d = \<lparr>xd_text = text\<rparr>"
proof (cases "text = []")
  case False
  define body where "body = (if hd text = CHR ''-'' then tl text else text)"
  have last: "body \<noteq> [] \<Longrightarrow> last text = last body"
    using False by (cases "text") (auto simp: body_def)
  have "exact_parse text = Inr d \<longleftrightarrow> ((\<exists>n. exact_scan False body = Some n \<and> n \<noteq> 0 \<and>
      last body \<noteq> CHR ''.'') \<and> body \<noteq> []) \<and> d = \<lparr>xd_text = text\<rparr>"
    using False last
    by (auto simp: exact_parse_def body_def [symmetric] Let_def split: option.splits)
  then show ?thesis
    using False unfolding exact_body_iff plain_decimal_def body_def Let_def by simp
qed (simp add: exact_parse_def plain_decimal_def)

lemma exact_parse_wf: "exact_parse text = Inr d \<Longrightarrow> exact_wf d \<and> xd_text d = text"
  by (simp add: exact_parse_iff exact_wf_def)

lemma exact_zero_wf [simp]: "exact_wf exact_zero"
  by code_simp

lemma exact_zero_value [simp]: "exact_value exact_zero = 0"
  by code_simp

lemma uint256_max_facts:
  "list_all is_digit uint256_max" "digits_value uint256_max = 2 ^ 256 - 1"
  "length uint256_max = 78" "hd uint256_max \<noteq> CHR ''0''"
  by code_simp+

lemma exceeds_uint256_max:
  assumes "list_all is_digit s" and "s \<noteq> []" and "hd s \<noteq> CHR ''0''"
  shows "length s > length uint256_max \<or> length s = length uint256_max \<and> str_less uint256_max s
    \<longleftrightarrow> 2 ^ 256 \<le> digits_value s"
proof (cases "length s" "length uint256_max" rule: linorder_cases)
  case less
  have "digits_value s < 10 ^ length s"
    using assms(1) by (rule digits_value_less)
  also have "(10 :: nat) ^ length s \<le> 10 ^ 77"
    using less by (intro power_increasing) (simp_all add: uint256_max_facts)
  also have "\<dots> < 2 ^ 256" by simp
  finally show ?thesis
    using less by simp
next
  case equal
  have "str_less uint256_max s \<longleftrightarrow> digits_value uint256_max < digits_value s"
    using equal assms(1) uint256_max_facts(1) by (intro str_less_digits) simp_all
  then show ?thesis
    using equal by (simp add: uint256_max_facts(2) less_eq_Suc_le)
next
  case greater
  have "(2 :: nat) ^ 256 \<le> 10 ^ 78" by simp
  also have "(10 :: nat) ^ 78 \<le> 10 ^ (length s - 1)"
    using greater by (intro power_increasing) (simp_all add: uint256_max_facts)
  also have "\<dots> \<le> digits_value s"
    using assms by (rule length_to_string_le)
  finally show ?thesis
    using greater by simp
qed

lemma stripped_facts:
  "list_all is_digit (dropWhile (\<lambda>c. c = CHR ''0'') s)" if "list_all is_digit s" for s
  using that by (auto simp: list_all_iff dest: set_dropWhileD)

lemma uint256_parse_spec:
  "uint256_parse text = Inr u \<longleftrightarrow>
     digits_text text \<and> digits_value text < 2 ^ 256 \<and> u = \<lparr>u256_text = to_string (digits_value text)\<rparr>"
proof (cases "digits_text text")
  case True
  define st where "st = dropWhile (\<lambda>c. c = CHR ''0'') text"
  have val: "digits_value st = digits_value text"
    by (simp add: st_def digits_value_dropWhile_zero)
  have dig: "list_all is_digit st"
    using True stripped_facts by (simp add: st_def digits_text_def)
  define can where "can = (if st = [] then ''0'' else st)"
  have parse: "uint256_parse text = (if length can > length uint256_max \<or>
      length can = length uint256_max \<and> str_less uint256_max can
      then Inl (mk_error numeric_overflow ''value exceeds uint256'' '''') else Inr \<lparr>u256_text = can\<rparr>)"
    using True unfolding uint256_parse_def Let_def st_def [symmetric] can_def [symmetric] by simp
  show ?thesis
  proof (cases "st = []")
    case True
    then have "can = ''0''" "digits_value text = 0"
      using val by (simp_all add: can_def)
    moreover have "to_string 0 = ''0''"
      by code_simp
    ultimately show ?thesis
      using \<open>digits_text text\<close> by (auto simp: parse uint256_max_facts)
  next
    case False
    then have hd: "hd st \<noteq> CHR ''0''"
      unfolding st_def by (rule hd_dropWhile [where P = "\<lambda>c. c = CHR ''0''"])
    have "to_string (digits_value text) = st" "can = st"
      using to_string_digits_value [OF dig False] hd val False by (simp_all add: can_def)
    moreover note exceeds_uint256_max [OF dig False hd]
    ultimately show ?thesis
      using \<open>digits_text text\<close> unfolding parse val by auto
  qed
qed (simp add: uint256_parse_def)

lemma uint256_parse_wf: "uint256_parse text = Inr u \<Longrightarrow> uint256_wf u"
  by (auto simp: uint256_parse_spec uint256_wf_def uint256_value_def)

lemma uint256_round_trip: "uint256_wf u \<Longrightarrow> uint256_parse (u256_text u) = Inr u"
  using list_all_to_string [of "uint256_value u"] to_string_not_Nil [of "uint256_value u"]
  by (cases u) (simp add: uint256_parse_spec uint256_wf_def uint256_value_def digits_text_def)

lemma uint256_is_zero_iff: "uint256_wf u \<Longrightarrow> uint256_is_zero u \<longleftrightarrow> uint256_value u = 0"
  by (cases "uint256_value u = 0")
    (auto simp: uint256_is_zero_def uint256_wf_def to_string.simps [of 0] digit_char_0 uint256_value_def digits_value_def)

end
