(* ===== verification/Evm.thy ===== *)
theory Evm
  imports Prelude
begin

text \<open>
  \<^verbatim>\<open>src/evm.cpp\<close>: the 20-byte account address and its hexadecimal text. Bytes are 8-bit
  words, so \<^verbatim>\<open>(high << 4) | low\<close>, \<^verbatim>\<open>>> 4\<close> and \<^verbatim>\<open>& 0x0F\<close> are the word operations of the
  same name. The lemmas on hexadecimal pairs serve the other codecs of byte strings too.
\<close>

unbundle bit_operations_syntax

section \<open>Hexadecimal digits\<close>

definition hex_value :: "char \<Rightarrow> int" where
  "hex_value c = (let n = int (of_char c) in
     if 48 \<le> n \<and> n \<le> 57 then n - 48
     else if 97 \<le> n \<and> n \<le> 102 then n - 97 + 10
     else if 65 \<le> n \<and> n \<le> 70 then n - 65 + 10
     else - 1)"

definition hex_digits :: string where "hex_digits = ''0123456789abcdef''"

definition hex_high :: "8 word \<Rightarrow> char" where
  "hex_high b = hex_digits ! unat (drop_bit 4 b)"

definition hex_low :: "8 word \<Rightarrow> char" where
  "hex_low b = hex_digits ! unat (b AND 0x0F)"

definition hex_join :: "int \<Rightarrow> int \<Rightarrow> 8 word" where
  "hex_join high low = word_of_int (push_bit 4 high OR low)"

text \<open>The loop over the pairs of digits of a text.\<close>

fun hex_pairs :: "string \<Rightarrow> 8 word list option" where
  "hex_pairs (h # l # s) =
     (if hex_value h < 0 \<or> hex_value l < 0 then None
      else map_option (\<lambda>bs. hex_join (hex_value h) (hex_value l) # bs) (hex_pairs s))"
| "hex_pairs [] = Some []"
| "hex_pairs [c] = None"

fun hex_text :: "8 word list \<Rightarrow> string" where
  "hex_text [] = []"
| "hex_text (b # bs) = hex_high b # hex_low b # hex_text bs"

section \<open>Addresses\<close>

record evm_address =
  evm_bytes :: "8 word list"

definition evm_default :: evm_address where
  "evm_default = \<lparr>evm_bytes = replicate 20 0\<rparr>"

definition evm_parse :: "string \<Rightarrow> evm_address result" where
  "evm_parse text =
     (if length text \<noteq> 42 \<or> text ! 0 \<noteq> CHR ''0'' \<or> text ! 1 \<noteq> CHR ''x''
      then Inl (mk_error invalid_argument
                  ''EVM address must be 0x followed by 40 hexadecimal digits'' ''address'')
      else case hex_pairs (drop 2 text) of
        None \<Rightarrow> Inl (mk_error invalid_argument
                  ''EVM address contains a non-hexadecimal digit'' ''address'')
      | Some bytes \<Rightarrow>
          if list_all (\<lambda>b. b = 0) bytes
          then Inl (mk_error invalid_argument ''zero EVM address is not a valid identity'' ''address'')
          else Inr \<lparr>evm_bytes = bytes\<rparr>)"

definition evm_to_string :: "evm_address \<Rightarrow> string" where
  "evm_to_string a = ''0x'' @ hex_text (evm_bytes a)"

definition evm_empty :: "evm_address \<Rightarrow> bool" where
  "evm_empty a \<longleftrightarrow> list_all (\<lambda>b. b = 0) (evm_bytes a)"

section \<open>Lemmas\<close>

definition evm_wf :: "evm_address \<Rightarrow> bool" where
  "evm_wf a \<longleftrightarrow> length (evm_bytes a) = 20"

lemma hex_value_nth: "k < 16 \<Longrightarrow> hex_value (hex_digits ! k) = int k"
proof -
  have "list_all (\<lambda>k. hex_value (hex_digits ! k) = int k) [0..<16]"
    by code_simp
  then show "k < 16 \<Longrightarrow> hex_value (hex_digits ! k) = int k"
    by (simp add: list_all_iff)
qed

lemma nibble_bounds: "unat (drop_bit 4 (b :: 8 word)) < 16" "unat (b AND 0x0F) < 16"
proof -
  have "unat b < 2 ^ 8"
    using unsigned_less [of b, where 'a = nat] by simp
  then show "unat (drop_bit 4 b) < 16"
    by (simp add: drop_bit_eq_div unat_div div_less_iff_less_mult)
  have "b AND 0x0F = take_bit 4 b"
    by (simp add: take_bit_eq_mask mask_numeral)
  then show "unat (b AND 0x0F) < 16"
    using take_bit_nat_less_exp [of 4 "unat b"] by (simp add: unsigned_take_bit_eq)
qed

lemma hex_join_nibbles: "hex_join (uint (drop_bit 4 b)) (uint (b AND 0x0F)) = b"
proof -
  have low: "b AND 0x0F = take_bit 4 b"
    by (simp add: take_bit_eq_mask mask_numeral)
  show ?thesis
    unfolding hex_join_def low by (rule bit_word_eqI) (auto simp: bit_simps)
qed

lemma hex_byte_round_trip:
  "0 \<le> hex_value (hex_high b) \<and> 0 \<le> hex_value (hex_low b) \<and>
   hex_join (hex_value (hex_high b)) (hex_value (hex_low b)) = b"
  using hex_join_nibbles [of b] nibble_bounds [of b]
  by (simp add: hex_high_def hex_low_def hex_value_nth)

lemma hex_value_range: "hex_value c < 16"
  by (simp add: hex_value_def Let_def)

lemma hex_digit_of_value:
  assumes "0 \<le> hex_value c"
  shows "hex_digits ! nat (hex_value c) = to_lower c"
proof -
  define n where "n = (of_char c :: nat)"
  have c: "c = char_of n"
    by (simp add: n_def)
  have "48 \<le> n \<and> n < 58 \<or> 65 \<le> n \<and> n < 71 \<or> 97 \<le> n \<and> n < 103"
    using assms by (auto simp: hex_value_def Let_def n_def split: if_splits)
  then have "n \<in> set ([48..<58] @ [65..<71] @ [97..<103])"
    unfolding set_append set_upt by auto
  moreover have "list_all (\<lambda>n. hex_digits ! nat (hex_value (char_of n)) = to_lower (char_of n))
      ([48..<58] @ [65..<71] @ [97..<103])"
    by code_simp
  ultimately show ?thesis
    unfolding c list_all_iff by blast
qed

lemma hex_join_parts:
  assumes "h \<in> {0..<16}" and "l \<in> {0..<16}"
  shows "unat (drop_bit 4 (hex_join h l)) = nat h \<and> unat (hex_join h l AND 0x0F) = nat l"
proof -
  have "list_all (\<lambda>h. list_all (\<lambda>l. unat (drop_bit 4 (hex_join h l)) = nat h \<and>
      unat (hex_join h l AND 0x0F) = nat l) [0..15]) [0..15]"
    by code_simp
  then show ?thesis
    using assms by (auto simp: list_all_iff)
qed

lemma hex_join_text:
  assumes "0 \<le> hex_value h" and "0 \<le> hex_value l"
  shows "hex_high (hex_join (hex_value h) (hex_value l)) = to_lower h"
    and "hex_low (hex_join (hex_value h) (hex_value l)) = to_lower l"
  using assms hex_join_parts [of "hex_value h" "hex_value l"] hex_value_range
    hex_digit_of_value [of h] hex_digit_of_value [of l]
  by (simp_all add: hex_high_def hex_low_def)

lemma hex_pairs_text [simp]: "hex_pairs (hex_text bs) = Some bs"
  using hex_byte_round_trip by (induction bs) (auto simp: not_less)

lemma length_hex_text [simp]: "length (hex_text bs) = 2 * length bs"
  by (induction bs) auto

lemma length_hex_pairs: "hex_pairs s = Some bs \<Longrightarrow> length s = 2 * length bs"
  by (induction s arbitrary: bs rule: hex_pairs.induct) (auto split: if_splits)

lemma hex_text_pairs: "hex_pairs s = Some bs \<Longrightarrow> hex_text bs = map to_lower s"
  by (induction s arbitrary: bs rule: hex_pairs.induct)
    (auto simp: hex_join_text split: if_splits)

lemma hex_value_xdigit: "0 \<le> hex_value c \<longleftrightarrow> is_xdigit c"
  by (auto simp: hex_value_def is_xdigit_def Let_def)

lemma hex_pairs_defined:
  "(\<exists>bs. hex_pairs s = Some bs) \<longleftrightarrow> even (length s) \<and> list_all is_xdigit s"
  by (induction s rule: hex_pairs.induct) (auto simp: hex_value_xdigit [symmetric] not_less)

lemma hex_high_xdigit: "is_xdigit (hex_high b) \<and> is_xdigit (hex_low b)"
  using hex_byte_round_trip hex_value_xdigit by blast

lemma list_all_hex_text [simp]: "list_all is_xdigit (hex_text bs)"
  by (induction bs) (auto simp: hex_high_xdigit)

lemma evm_parse_Inr:
  "evm_parse text = Inr a \<longleftrightarrow>
     length text = 42 \<and> take 2 text = ''0x'' \<and> hex_pairs (drop 2 text) = Some (evm_bytes a) \<and> \<not> evm_empty a"
proof -
  have "length text = 42 \<Longrightarrow> take 2 text = ''0x'' \<longleftrightarrow> text ! 0 = CHR ''0'' \<and> text ! 1 = CHR ''x''"
    by (cases "text"; cases "tl text") auto
  then show ?thesis
    by (cases a) (auto simp: evm_parse_def evm_empty_def split: option.splits if_splits)
qed

text \<open>
  Address codec: an accepted text gives a 20-byte, non-zero address whose printed form is
  the text in lower case, and every non-zero 20-byte address is read back from its printed form.
\<close>

theorem evm_address_codec:
  "(evm_parse text = Inr a \<longrightarrow> evm_wf a \<and> \<not> evm_empty a \<and> evm_to_string a = map to_lower text) \<and>
   (evm_wf a \<and> \<not> evm_empty a \<longrightarrow> evm_parse (evm_to_string a) = Inr a)"
proof -
  have "evm_wf a \<and> \<not> evm_empty a \<and> evm_to_string a = map to_lower text" if parse: "evm_parse text = Inr a"
  proof -
    have facts: "length text = 42" "take 2 text = ''0x''" "hex_pairs (drop 2 text) = Some (evm_bytes a)"
      "\<not> evm_empty a"
      using parse by (auto simp: evm_parse_Inr)
    have "map to_lower text = map to_lower (take 2 text) @ map to_lower (drop 2 text)"
      by (metis append_take_drop_id map_append)
    moreover have "map to_lower ''0x'' = ''0x''"
      by code_simp
    ultimately show ?thesis
      using facts length_hex_pairs [OF facts(3)] hex_text_pairs [OF facts(3)]
      by (simp add: evm_wf_def evm_to_string_def)
  qed
  then show ?thesis
    by (auto simp: evm_parse_Inr evm_to_string_def evm_wf_def)
qed

theorem evm_address_codec_witness:
  "evm_parse (evm_to_string \<lparr>evm_bytes = 255 # replicate 19 0\<rparr>) = Inr \<lparr>evm_bytes = 255 # replicate 19 0\<rparr> \<and>
   evm_to_string \<lparr>evm_bytes = 255 # replicate 19 0\<rparr> = map to_lower (''0xFF'' @ replicate 38 (CHR ''0''))"
proof -
  have "evm_wf \<lparr>evm_bytes = 255 # replicate 19 0\<rparr> \<and> \<not> evm_empty \<lparr>evm_bytes = 255 # replicate 19 0\<rparr>"
    by code_simp
  moreover have "evm_parse (''0xFF'' @ replicate 38 (CHR ''0'')) = Inr \<lparr>evm_bytes = 255 # replicate 19 0\<rparr>"
    by code_simp
  ultimately show ?thesis
    using evm_address_codec [of "''0xFF'' @ replicate 38 (CHR ''0'')" "\<lparr>evm_bytes = 255 # replicate 19 0\<rparr>"]
    by blast
qed

end
