(* ===== verification/Order_Types.thy ===== *)
theory Order_Types
  imports Exact_Number Evm
begin

text \<open>
  The data of orders and of the private channels: \<^verbatim>\<open>types/order.hpp\<close>, \<^verbatim>\<open>types/trading.hpp\<close>,
  \<^verbatim>\<open>types/private_rest.hpp\<close>, \<^verbatim>\<open>types/private_websocket.hpp\<close> and \<^verbatim>\<open>types/lifecycle.hpp\<close>,
  and the protocol address tables of \<^verbatim>\<open>src/order_types.cpp\<close>. Field names carry a prefix per
  struct, since record selectors share one name space.
\<close>

section \<open>Enumerations\<close>

datatype contract_side = side_buy | side_sell | side_unknown

datatype signature_type = sig_eoa | sig_poly_proxy | sig_poly_gnosis_safe | sig_unknown

datatype order_strategy = strategy_market | strategy_limit | strategy_unknown

datatype order_status =
  status_open | status_matched | status_cancelled | status_expired | status_invalidated
| status_failed | status_unknown

text \<open>
  An \<^verbatim>\<open>enum class\<close> with a fixed underlying type also holds values that name no enumerator:
  \<open>chain_value\<close>.
\<close>

datatype chain_id = bnb_mainnet | bnb_testnet | chain_value nat

datatype execution_strategy = exec_market | exec_limit

datatype self_trade_prevention = cancel_maker | cancel_taker | cancel_both

datatype reserved_balance_policy = reject_market_order

datatype mutation_disposition = acknowledged | ambiguous

datatype wallet_event_type =
  order_accepted | order_not_accepted | order_expired | order_cancelled
| order_transaction_submitted | order_transaction_success | order_transaction_failed
| wallet_event_unknown

datatype wallet_outcome = outcome_yes | outcome_no | outcome_unknown

datatype quote_type = quote_bid | quote_ask | quote_unknown

datatype settlement_kind = settlement_sale | settlement_purchase | settlement_unknown

datatype wallet_fee_type = fee_collateral | fee_shares | fee_unknown

text \<open>An enumeration value with the text it was read from.\<close>

record 'e enum_value =
  ev_value :: 'e
  ev_raw :: string

definition chain_number :: "chain_id \<Rightarrow> nat" where
  "chain_number c = (case c of bnb_mainnet \<Rightarrow> 56 | bnb_testnet \<Rightarrow> 97 | chain_value n \<Rightarrow> n)"

section \<open>Orders\<close>

record unsigned_order =
  uo_salt :: uint256
  uo_maker :: evm_address
  uo_signer :: evm_address
  uo_taker :: "evm_address option"
  uo_token_id :: uint256
  uo_maker_amount :: uint256
  uo_taker_amount :: uint256
  uo_expiration :: uint256
  uo_nonce :: uint256
  uo_fee_rate_bps :: uint256
  uo_side :: contract_side
  uo_signature_type :: signature_type

record signed_order = unsigned_order +
  so_signature :: string

record contract_order =
  co_hash :: string
  co_salt :: uint256
  co_maker :: evm_address
  co_signer :: evm_address
  co_taker :: "evm_address option"
  co_token_id :: uint256
  co_maker_amount :: uint256
  co_taker_amount :: uint256
  co_expiration :: uint256
  co_nonce :: uint256
  co_fee_rate_bps :: uint256
  co_side :: "contract_side enum_value"
  co_signature_type :: "signature_type enum_value"
  co_signature :: string

record order_record =
  or_order :: contract_order
  or_id :: string
  or_market_id :: nat
  or_currency :: string
  or_amount :: exact_decimal
  or_amount_filled :: exact_decimal
  or_is_neg_risk :: bool
  or_is_yield_bearing :: bool
  or_strategy :: "order_strategy enum_value"
  or_status :: "order_status enum_value"
  or_reward_earning_rate :: exact_decimal

record orders_page =
  op_cursor :: "string option"
  op_orders :: "order_record list"

section \<open>Trading\<close>

record create_order_request =
  cr_order :: signed_order
  cr_order_hash :: string
  cr_price_per_share_wei :: uint256
  cr_strategy :: execution_strategy
  cr_slippage_bps :: "uint256 option"
  cr_is_fill_or_kill :: "bool option"
  cr_is_post_only :: "bool option"
  cr_reserved_balance_policy :: "reserved_balance_policy option"
  cr_is_min_amount_out :: "bool option"
  cr_self_trade_prevention :: "self_trade_prevention option"

record create_order_receipt =
  rc_code :: string
  rc_order_id :: string
  rc_order_hash :: string
  rc_removal_locked_until :: "string option"

record remove_orders_receipt =
  rr_removed :: "string list"
  rr_noop :: "string list"

record 'r mutation_outcome =
  mo_disposition :: mutation_disposition
  mo_receipt :: "'r option"
  mo_ambiguity :: "error option"
  mo_reconciliation_key :: string

section \<open>Wallet events\<close>

record wallet_event_details =
  wd_market_id :: nat
  wd_outcome_index :: nat
  wd_market_question :: string
  wd_outcome :: "wallet_outcome enum_value"
  wd_quote_type :: "quote_type enum_value"
  wd_quantity :: exact_decimal
  wd_quantity_filled :: exact_decimal
  wd_price :: exact_decimal
  wd_value :: exact_decimal
  wd_value_filled :: exact_decimal
  wd_strategy_type :: "order_strategy enum_value"
  wd_category_slug :: string

record wallet_fill =
  wf_executed_price_wei :: uint256
  wf_executed_size_wei :: uint256
  wf_executed_value_wei :: uint256

record wallet_fee =
  wfee_amount_wei :: uint256
  wfee_type :: "wallet_fee_type enum_value"

record wallet_event =
  we_type :: "wallet_event_type enum_value"
  we_order_id :: string
  we_order_hash :: string
  we_wallet_address :: evm_address
  we_timestamp_ms :: int
  we_details :: wallet_event_details
  we_reason :: "string option"
  we_kind :: "settlement_kind enum_value option"
  we_settlement_id :: "string option"
  we_fill :: "wallet_fill option"
  we_is_maker :: "bool option"
  we_fee :: "wallet_fee option"

section \<open>Tracked orders\<close>

datatype order_lifecycle_state =
  submission_pending | accepted | ls_open | partially_filled | filled | book_removed
| ls_cancelled | expired | rejected | transaction_pending | transaction_failed
| ls_ambiguous | ls_unknown

record tracked_order =
  to_order_hash :: string
  to_order_id :: "string option"
  to_amount :: exact_decimal
  to_amount_filled :: exact_decimal
  to_state :: order_lifecycle_state
  to_reconciliation_required :: bool
  to_stream_generation :: nat
  to_last_event_timestamp_ms :: int
  to_reason :: string

record reconciliation_report =
  rp_tracked :: nat
  rp_observed :: nat
  rp_unresolved_hashes :: "string list"

definition report_complete :: "reconciliation_report \<Rightarrow> bool" where
  "report_complete r \<longleftrightarrow> rp_unresolved_hashes r = []"

definition terminal :: "tracked_order \<Rightarrow> bool" where
  "terminal t \<longleftrightarrow> to_state t = filled \<or> to_state t = ls_cancelled \<or> to_state t = expired
     \<or> to_state t = rejected \<or> to_state t = transaction_failed"

definition safe_to_rebuild_with_new_nonce :: "tracked_order \<Rightarrow> bool" where
  "safe_to_rebuild_with_new_nonce t \<longleftrightarrow> to_state t = ls_cancelled \<or> to_state t = expired
     \<or> to_state t = rejected \<or> to_state t = transaction_failed"

section \<open>Protocol addresses\<close>

record protocol_address_book =
  pa_yield_bearing_ctf_exchange :: evm_address
  pa_yield_bearing_neg_risk_ctf_exchange :: evm_address
  pa_yield_bearing_neg_risk_adapter :: evm_address
  pa_yield_bearing_conditional_tokens :: evm_address
  pa_yield_bearing_neg_risk_conditional_tokens :: evm_address
  pa_ctf_exchange :: evm_address
  pa_neg_risk_ctf_exchange :: evm_address
  pa_neg_risk_adapter :: evm_address
  pa_conditional_tokens :: evm_address
  pa_neg_risk_conditional_tokens :: evm_address
  pa_usdt :: evm_address
  pa_kernel :: evm_address
  pa_ecdsa_validator :: evm_address

record market_contract_kind =
  mk_is_neg_risk :: bool
  mk_is_yield_bearing :: bool

definition make_addresses :: "string list \<Rightarrow> protocol_address_book result" where
  "make_addresses texts =
     (case map evm_parse texts of
        [Inr a, Inr b, Inr c, Inr d, Inr e, Inr f, Inr g, Inr h, Inr i, Inr j, Inr k, Inr l, Inr m] \<Rightarrow>
          Inr \<lparr>pa_yield_bearing_ctf_exchange = a, pa_yield_bearing_neg_risk_ctf_exchange = b,
            pa_yield_bearing_neg_risk_adapter = c, pa_yield_bearing_conditional_tokens = d,
            pa_yield_bearing_neg_risk_conditional_tokens = e, pa_ctf_exchange = f,
            pa_neg_risk_ctf_exchange = g, pa_neg_risk_adapter = h, pa_conditional_tokens = i,
            pa_neg_risk_conditional_tokens = j, pa_usdt = k, pa_kernel = l, pa_ecdsa_validator = m\<rparr>
      | _ \<Rightarrow> Inl (mk_error protocol_error ''embedded Predict contract registry is invalid'' ''''))"

definition mainnet_texts :: "string list" where
  "mainnet_texts =
     [''0x6bEb5a40C032AFc305961162d8204CDA16DECFa5'',
      ''0x8A289d458f5a134bA40015085A8F50Ffb681B41d'',
      ''0x41dCe1A4B8FB5e6327701750aF6231B7CD0B2A40'',
      ''0x9400F8Ad57e9e0F352345935d6D3175975eb1d9F'',
      ''0xF64b0b318AAf83BD9071110af24D24445719A07F'',
      ''0x8BC070BEdAB741406F4B1Eb65A72bee27894B689'',
      ''0x365fb81bd4A24D6303cd2F19c349dE6894D8d58A'',
      ''0xc3Cf7c252f65E0d8D88537dF96569AE94a7F1A6E'',
      ''0x22DA1810B194ca018378464a58f6Ac2B10C9d244'',
      ''0x22DA1810B194ca018378464a58f6Ac2B10C9d244'',
      ''0x55d398326f99059fF775485246999027B3197955'',
      ''0xBAC849bB641841b44E965fB01A4Bf5F074f84b4D'',
      ''0x845ADb2C711129d4f3966735eD98a9F09fC4cE57'']"

definition testnet_texts :: "string list" where
  "testnet_texts =
     [''0x8a6B4Fa700A1e310b106E7a48bAFa29111f66e89'',
      ''0x95D5113bc50eD201e319101bbca3e0E250662fCC'',
      ''0xb74aea04bdeBE912Aa425bC9173F9668e6f11F99'',
      ''0x38BF1cbD66d174bb5F3037d7068E708861D68D7f'',
      ''0x26e865CbaAe99b62fbF9D18B55c25B5E079A93D5'',
      ''0x2A6413639BD3d73a20ed8C95F634Ce198ABbd2d7'',
      ''0xd690b2bd441bE36431F6F6639D7Ad351e7B29680'',
      ''0x285c1B939380B130D7EBd09467b93faD4BA623Ed'',
      ''0x2827AAef52D71910E8FBad2FfeBC1B6C2DA37743'',
      ''0x2827AAef52D71910E8FBad2FfeBC1B6C2DA37743'',
      ''0xB32171ecD878607FFc4F8FC0bCcE6852BB3149E0'',
      ''0xBAC849bB641841b44E965fB01A4Bf5F074f84b4D'',
      ''0x845ADb2C711129d4f3966735eD98a9F09fC4cE57'']"

definition protocol_addresses :: "chain_id \<Rightarrow> protocol_address_book result" where
  "protocol_addresses c =
     (case c of
        bnb_mainnet \<Rightarrow> make_addresses mainnet_texts
      | bnb_testnet \<Rightarrow> make_addresses testnet_texts
      | chain_value n \<Rightarrow> Inl (mk_error invalid_argument ''unsupported Predict chain id'' ''chain_id''))"

definition exchange_address :: "protocol_address_book \<Rightarrow> market_contract_kind \<Rightarrow> evm_address" where
  "exchange_address a k =
     (if mk_is_yield_bearing k
      then (if mk_is_neg_risk k then pa_yield_bearing_neg_risk_ctf_exchange a
            else pa_yield_bearing_ctf_exchange a)
      else (if mk_is_neg_risk k then pa_neg_risk_ctf_exchange a else pa_ctf_exchange a))"

definition four_exchanges :: "protocol_address_book \<Rightarrow> evm_address list" where
  "four_exchanges a = map (exchange_address a)
     [\<lparr>mk_is_neg_risk = False, mk_is_yield_bearing = False\<rparr>,
      \<lparr>mk_is_neg_risk = True, mk_is_yield_bearing = False\<rparr>,
      \<lparr>mk_is_neg_risk = False, mk_is_yield_bearing = True\<rparr>,
      \<lparr>mk_is_neg_risk = True, mk_is_yield_bearing = True\<rparr>]"

text \<open>The embedded registries parse, and the four kinds of market use four different exchanges.\<close>

lemma protocol_addresses_ok:
  assumes "c = bnb_mainnet \<or> c = bnb_testnet"
  shows "\<exists>a. protocol_addresses c = Inr a \<and> distinct (four_exchanges a)"
proof -
  have "case protocol_addresses bnb_mainnet of Inr a \<Rightarrow> distinct (four_exchanges a) | _ \<Rightarrow> False"
    by code_simp
  moreover have "case protocol_addresses bnb_testnet of Inr a \<Rightarrow> distinct (four_exchanges a) | _ \<Rightarrow> False"
    by code_simp
  ultimately show ?thesis
    using assms by (auto split: sum.splits)
qed

end
