(* ===== verification/Byte_Codec.thy ===== *)
theory Byte_Codec
  imports Prelude
begin

text \<open>
  The byte-level helpers of \<^verbatim>\<open>src/lifecycle_journal.cpp\<close>: \<open>append_le\<close>, \<open>read_le\<close>,
  \<open>append_string\<close>, \<open>read_string\<close> and \<open>crc32\<close>. A reader takes the unread input and returns the
  value and the rest, where the source moves an offset. The locale \<open>field_codec\<close> is the contract
  of a self-delimiting field; it is interpreted on each of the field types of a record.
\<close>

unbundle bit_operations_syntax

type_synonym bytes = "8 word list"

section \<open>Operations\<close>

text \<open>\<open>append_le\<close> writes the low byte first; the value is the unsigned reading of the integer.\<close>

primrec append_le :: "nat \<Rightarrow> nat \<Rightarrow> bytes" where
  "append_le 0 v = []"
| "append_le (Suc n) v = word_of_nat (v mod 256) # append_le n (v div 256)"

text \<open>The bytes of \<^verbatim>\<open>bits\<close> do not overlap, so the disjunction of the shifted bytes is their sum.\<close>

primrec le_value :: "bytes \<Rightarrow> nat" where
  "le_value [] = 0"
| "le_value (b # bs) = unat b + 256 * le_value bs"

definition read_le :: "nat \<Rightarrow> bytes \<Rightarrow> (nat \<times> bytes) option" where
  "read_le n input = (if length input < n then None
     else Some (le_value (take n input), drop n input))"

text \<open>The conversions between \<^verbatim>\<open>int64_t\<close> and \<^verbatim>\<open>uint64_t\<close>.\<close>

definition to_unsigned64 :: "int \<Rightarrow> nat" where
  "to_unsigned64 i = nat (i mod 2 ^ 64)"

definition to_signed64 :: "nat \<Rightarrow> int" where
  "to_signed64 n = (if n < 2 ^ 63 then int n else int n - 2 ^ 64)"

definition string_bytes :: "string \<Rightarrow> bytes" where
  "string_bytes s = map (\<lambda>c. word_of_nat (of_char c)) s"

definition bytes_string :: "bytes \<Rightarrow> string" where
  "bytes_string bs = map (\<lambda>b. char_of (unat b)) bs"

definition append_string :: "string \<Rightarrow> bytes option" where
  "append_string s = (if length s > 2 ^ 32 - 1 then None
     else Some (append_le 4 (length s) @ string_bytes s))"

definition read_string :: "bytes \<Rightarrow> (string \<times> bytes) option" where
  "read_string input = (case read_le 4 input of
      None \<Rightarrow> None
    | Some (n, rest) \<Rightarrow>
        if n > length rest then None
        else Some (bytes_string (take n rest), drop n rest))"

definition crc_bit :: "32 word \<Rightarrow> 32 word" where
  "crc_bit crc = drop_bit 1 crc XOR (0xedb88320 AND (0 - (crc AND 1)))"

definition crc_byte :: "32 word \<Rightarrow> 8 word \<Rightarrow> 32 word" where
  "crc_byte crc b = (crc_bit ^^ 8) (crc XOR ucast b)"

definition crc32 :: "bytes \<Rightarrow> 32 word" where
  "crc32 input = NOT (foldl crc_byte 0xffffffff input)"

section \<open>Fields\<close>

text \<open>
  A field codec: what \<open>wr\<close> writes, \<open>rd\<close> reads back and no more, for the values in its domain.
\<close>

locale field_codec =
  fixes dom_ok :: "'a \<Rightarrow> bool" and wr :: "'a \<Rightarrow> bytes" and rd :: "bytes \<Rightarrow> ('a \<times> bytes) option"
  assumes read_write: "dom_ok x \<Longrightarrow> rd (wr x @ rest) = Some (x, rest)"
begin

lemma write_inj: "dom_ok x \<Longrightarrow> dom_ok y \<Longrightarrow> wr x @ r = wr y @ s \<Longrightarrow> x = y \<and> r = s"
  by (metis Pair_inject option.inject read_write)

lemma read_then: "dom_ok x \<Longrightarrow> Option.bind (rd (wr x @ rest)) f = f (x, rest)"
  by (simp add: read_write)

end

lemma length_append_le [simp]: "length (append_le n v) = n"
  by (induction n arbitrary: v) auto

lemma le_value_append_le [simp]: "le_value (append_le n v) = v mod 256 ^ n"
proof (induction n arbitrary: v)
  case (Suc n)
  have "unat (word_of_nat (v mod 256) :: 8 word) = v mod 256"
    by (simp add: unsigned_of_nat take_bit_eq_mod)
  then show ?case
    using Suc by (simp add: mod_mult2_eq)
qed simp

lemma le_value_less: "le_value bs < 256 ^ length bs"
proof (induction bs)
  case (Cons b bs)
  have "unat b < 256"
    using unsigned_less [of b, where 'a = nat] by simp
  then show ?case
    using Cons by simp
qed simp

interpretation le_field: field_codec "\<lambda>v. v < 256 ^ n" "append_le n" "read_le n" for n
  by unfold_locales (simp add: read_le_def)

lemma bytes_string_inverse [simp]: "bytes_string (string_bytes s) = s"
proof -
  have "unat (word_of_nat (of_char c) :: 8 word) = of_char c" for c :: char
    by (simp add: unsigned_of_nat take_bit_eq_mod)
  then show ?thesis
    by (simp add: bytes_string_def string_bytes_def comp_def map_idI)
qed

lemma length_string_bytes [simp]: "length (string_bytes s) = length s"
  by (simp add: string_bytes_def)

definition string_field :: "string \<Rightarrow> bytes" where
  "string_field s = append_le 4 (length s) @ string_bytes s"

lemma append_string_iff: "append_string s = Some bs \<longleftrightarrow> length s < 2 ^ 32 \<and> bs = string_field s"
  by (auto simp: append_string_def string_field_def)

interpretation string_codec: field_codec "\<lambda>s. length s < 2 ^ 32" string_field read_string
proof
  fix x :: string and rest
  assume "length x < 2 ^ 32"
  then have "read_le 4 (append_le 4 (length x) @ string_bytes x @ rest) = Some (length x, string_bytes x @ rest)"
    by (intro le_field.read_write) simp
  then show "read_string (string_field x @ rest) = Some (x, rest)"
    by (simp add: read_string_def string_field_def)
qed

lemma signed64_round_trip:
  assumes "- (2 ^ 63) \<le> i" and "i < 2 ^ 63"
  shows "to_signed64 (to_unsigned64 i) = i"
proof (cases "0 \<le> i")
  case True
  then show ?thesis
    using assms by (simp add: to_signed64_def to_unsigned64_def)
next
  case False
  have "i mod 2 ^ 64 = i + 2 ^ 64"
    using assms False by (intro mod_pos_pos_trivial [THEN trans [OF mod_add_self2 [symmetric]]]) simp_all
  then show ?thesis
    using assms False by (simp add: to_signed64_def to_unsigned64_def)
qed

lemma to_unsigned64_less: "to_unsigned64 i < 2 ^ 64"
  by (simp add: to_unsigned64_def nat_less_iff)

section \<open>The checksum\<close>

text \<open>
  One step of the checksum is injective: the low bit that is shifted out comes back as the top
  bit, which the shifted word never has and the polynomial does.
\<close>

lemma crc_bit_cases: "crc_bit x = drop_bit 1 x XOR (if bit x 0 then 0xedb88320 else 0)"
proof -
  have "x AND 1 = (if bit x 0 then 1 else 0)"
    by (simp add: and_one_eq bit_0 mod_2_eq_odd)
  then show ?thesis
    by (simp add: crc_bit_def)
qed

lemma crc_bit_top: "bit (crc_bit x) 31 = bit x 0"
proof -
  have "bit (0xedb88320 :: 32 word) 31"
    by code_simp
  moreover have "\<not> bit (drop_bit 1 x) 31"
    using bit_imp_le_length [of x 32] by (auto simp: bit_drop_bit_eq)
  ultimately show ?thesis
    by (simp add: crc_bit_cases bit_xor_iff)
qed

lemma xor_cancel_right: "(b :: 32 word) XOR a = c XOR a \<longleftrightarrow> b = c"
  by (auto simp: bit_eq_iff bit_xor_iff)

lemma xor_cancel_left: "(a :: 32 word) XOR b = a XOR c \<longleftrightarrow> b = c"
  by (auto simp: bit_eq_iff bit_xor_iff)

lemma crc_bit_inj: "inj crc_bit"
proof
  fix x y :: "32 word"
  assume eq: "crc_bit x = crc_bit y"
  then have low: "bit x 0 = bit y 0"
    using crc_bit_top by metis
  then have "drop_bit 1 x = drop_bit 1 y"
    using eq unfolding crc_bit_cases xor_cancel_right by (simp add: xor_cancel_right)
  then have "bit x (Suc n) = bit y (Suc n)" for n
    using bit_drop_bit_eq [of 1 x] bit_drop_bit_eq [of 1 y] by (simp add: fun_eq_iff)
  then have "bit x n = bit y n" for n
    using low by (cases n) auto
  then show "x = y"
    by (simp add: bit_eq_iff)
qed

lemma crc_rounds_inj: "inj (crc_bit ^^ n)"
  by (induction n) (auto simp: inj_def dest: injD [OF crc_bit_inj])

lemma ucast_inj8: "(ucast (a :: 8 word) :: 32 word) = ucast b \<Longrightarrow> a = b"
proof -
  assume eq: "(ucast a :: 32 word) = ucast b"
  have "unat (ucast c :: 32 word) = unat c" for c :: "8 word"
    using unsigned_less [of c, where 'a = nat] by (simp add: unsigned_ucast_eq take_bit_nat_eq_self)
  then have "unat a = unat b"
    using eq by metis
  then show "a = b"
    by (rule unsigned_word_eqI)
qed

lemma crc_byte_inj_state: "crc_byte c b = crc_byte d b \<Longrightarrow> c = d"
  using crc_rounds_inj [of 8] by (simp add: crc_byte_def inj_eq xor_cancel_right)

lemma crc_byte_inj_data: "crc_byte c a = crc_byte c b \<Longrightarrow> a = b"
  using crc_rounds_inj [of 8] by (simp add: crc_byte_def inj_eq xor_cancel_left ucast_inj8)

lemma crc_fold_inj: "foldl crc_byte c s = foldl crc_byte d s \<Longrightarrow> c = d"
  by (induction s arbitrary: c d) (auto dest: crc_byte_inj_state)

lemma crc32_byte_change:
  assumes "crc32 (p @ a # s) = crc32 (p @ b # s)"
  shows "a = b"
proof -
  have "foldl crc_byte (crc_byte (foldl crc_byte 0xffffffff p) a) s =
      foldl crc_byte (crc_byte (foldl crc_byte 0xffffffff p) b) s"
    using assms by (simp add: crc32_def)
  then show ?thesis
    by (blast dest: crc_fold_inj crc_byte_inj_data)
qed

end
