(* ===== verification/Chain_Abi.thy ===== *)
theory Chain_Abi
  imports Order_Types Byte_Codec
begin

text \<open>
  The chain data types (\<^verbatim>\<open>include/predictfun/types/chain.hpp\<close>) and the ABI codec
  (\<^verbatim>\<open>src/chain_abi.cpp\<close>): hexadecimal bytes, RPC quantities, 32-byte words and the call data of
  contract methods. The hash \<^verbatim>\<open>keccak256\<close> comes from a library outside the repository and is the
  parameter \<open>keccak\<close> of every definition that uses it. \<^verbatim>\<open>cpp_int\<close> values are natural numbers.
\<close>

unbundle bit_operations_syntax

section \<open>Data\<close>

type_synonym bytes32 = "8 word list"

type_synonym keccak = "bytes \<Rightarrow> bytes32 result"

datatype block_tag = latest_block | safe_block | finalized_block | pending_block

record rpc_endpoint =
  re_host :: string
  re_port :: string
  re_target :: string
  re_use_tls :: bool

definition default_rpc_endpoint :: "chain_id \<Rightarrow> rpc_endpoint" where
  "default_rpc_endpoint c =
     (if c = bnb_mainnet
      then \<lparr>re_host = ''bsc-dataseed.bnbchain.org'', re_port = ''443'', re_target = ''/'', re_use_tls = True\<rparr>
      else \<lparr>re_host = ''bsc-testnet-dataseed.bnbchain.org'', re_port = ''443'', re_target = ''/'',
            re_use_tls = True\<rparr>)"

record call_request =
  cl_to :: evm_address
  cl_data :: string
  cl_from :: "evm_address option"

record unsigned_transaction =
  ut_to :: evm_address
  ut_data :: string
  ut_value :: uint256

record populated_transaction =
  px_chain_id :: chain_id
  px_from :: evm_address
  px_to :: evm_address
  px_nonce :: uint256
  px_gas_price :: uint256
  px_gas_limit :: uint256
  px_value :: uint256
  px_data :: string

record raw_transaction =
  rt_bytes :: string
  rt_transaction_hash :: string

section \<open>Hexadecimal bytes and quantities\<close>

definition nibble :: "char \<Rightarrow> int" where
  "nibble value = (let n = int (of_char value) in
     if 48 \<le> n \<and> n \<le> 57 then n - 48
     else if 97 \<le> n \<and> n \<le> 102 then 10 + n - 97
     else if 65 \<le> n \<and> n \<le> 70 then 10 + n - 65
     else - 1)"

fun uint_bytes :: "nat \<Rightarrow> bytes \<Rightarrow> nat" where
  "uint_bytes value [] = value"
| "uint_bytes value (b # bs) = uint_bytes (value * 256 + unat b) bs"

definition uint_from_bytes :: "bytes \<Rightarrow> uint256 result" where
  "uint_from_bytes bs = uint256_parse (to_string (uint_bytes 0 bs))"

fun decode_pairs :: "string \<Rightarrow> bytes option" where
  "decode_pairs (h # l # s) =
     (if nibble h < 0 \<or> nibble l < 0 then None
      else map_option (\<lambda>bs. word_of_int (push_bit 4 (nibble h) OR nibble l) # bs) (decode_pairs s))"
| "decode_pairs s = Some []"

definition decode_hex :: "string \<Rightarrow> bytes result" where
  "decode_hex hex =
     (if \<not> starts_with hex ''0x'' \<or> odd (length hex)
      then Inl (mk_error invalid_field ''hex bytes must use an even-length 0x prefix'' ''hex'')
      else case decode_pairs (drop 2 hex) of
        None \<Rightarrow> Inl (mk_error invalid_field ''hex contains a non-hex digit'' ''hex'')
      | Some bs \<Rightarrow> Inr bs)"

definition encode_hex :: "bytes \<Rightarrow> string" where
  "encode_hex bs = ''0x'' @ concat (map (\<lambda>b. [hex_digits ! unat (drop_bit 4 b), hex_digits ! unat (b AND 0x0f)]) bs)"

fun quantity_loop :: "nat \<Rightarrow> string \<Rightarrow> nat option" where
  "quantity_loop value [] = Some value"
| "quantity_loop value (c # s) =
     (if nibble c < 0 then None else quantity_loop (value * 16 + nat (nibble c)) s)"

definition decode_quantity :: "string \<Rightarrow> uint256 result" where
  "decode_quantity hex =
     (if \<not> starts_with hex ''0x'' \<or> length hex < 3
      then Inl (mk_error invalid_field ''RPC quantity must be 0x-prefixed'' ''result'')
      else if length hex > 3 \<and> hex ! 2 = CHR ''0''
      then Inl (mk_error invalid_field ''RPC quantity has a leading zero'' ''result'')
      else case quantity_loop 0 (drop 2 hex) of
        None \<Rightarrow> Inl (mk_error invalid_field ''RPC quantity contains a non-hex digit'' ''result'')
      | Some value \<Rightarrow>
          if value \<ge> 2 ^ 256
          then Inl (mk_error numeric_overflow ''RPC quantity exceeds uint256'' ''result'')
          else uint256_parse (to_string value))"

definition decode_word_uint256 :: "string \<Rightarrow> uint256 result" where
  "decode_word_uint256 hex =
     bind_res (decode_hex hex) (\<lambda>bs.
       if length bs \<noteq> 32
       then Inl (mk_error invalid_field ''ABI uint256 result must contain one word'' ''result'')
       else uint_from_bytes bs)"

definition decode_word_bool :: "string \<Rightarrow> bool result" where
  "decode_word_bool hex =
     bind_res (decode_word_uint256 hex) (\<lambda>value.
       if u256_text value = ''0'' then Inr False
       else if u256_text value = ''1'' then Inr True
       else Inl (mk_error invalid_field ''ABI bool is not 0 or 1'' ''result''))"

definition decode_bytes32 :: "string \<Rightarrow> bytes32 result" where
  "decode_bytes32 hex =
     bind_res (decode_hex hex) (\<lambda>bs.
       if length bs \<noteq> 32 then Inl (mk_error invalid_field ''bytes32 must contain 32 bytes'' ''hex'')
       else Inr bs)"

text \<open>The digits of the loop of \<open>encode_quantity\<close>, after the reversal.\<close>

fun quantity_digits :: "nat \<Rightarrow> string" where
  "quantity_digits parsed =
     (if parsed = 0 then [] else quantity_digits (parsed div 16) @ [hex_digits ! (parsed mod 16)])"

definition encode_quantity :: "uint256 \<Rightarrow> string result" where
  "encode_quantity value =
     (let parsed = digits_value (u256_text value) in
      if parsed = 0 then Inr ''0x0'' else Inr (''0x'' @ quantity_digits parsed))"

section \<open>Words\<close>

text \<open>The \<open>n\<close> low bytes of a number, most significant first.\<close>

primrec be_bytes :: "nat \<Rightarrow> nat \<Rightarrow> bytes" where
  "be_bytes 0 v = []"
| "be_bytes (Suc n) v = be_bytes n (v div 256) @ [word_of_nat (v mod 256)]"

definition word_uint :: "uint256 \<Rightarrow> bytes32 result" where
  "word_uint value =
     (let parsed = digits_value (u256_text value) in
      if parsed div 256 ^ 32 \<noteq> 0
      then Inl (mk_error numeric_overflow ''uint256 exceeds ABI word'' ''value'')
      else Inr (be_bytes 32 parsed))"

definition word_address :: "evm_address \<Rightarrow> bytes32" where
  "word_address a = replicate 12 0 @ evm_bytes a"

definition word_bool :: "bool \<Rightarrow> bytes32" where
  "word_bool v = replicate 31 0 @ [if v then 1 else 0]"

section \<open>Call data\<close>

definition encode_call :: "keccak \<Rightarrow> string \<Rightarrow> bytes32 list \<Rightarrow> string result" where
  "encode_call keccak signature words =
     bind_res (keccak (string_bytes signature)) (\<lambda>hash.
       Inr (encode_hex (take 4 hash @ concat words)))"

fun encode_values :: "uint256 list \<Rightarrow> bytes result" where
  "encode_values [] = Inr []"
| "encode_values (v # vs) =
     bind_res (word_uint v) (\<lambda>w. bind_res (encode_values vs) (\<lambda>ws. Inr (w @ ws)))"

definition encode_call_with_uint_array ::
    "keccak \<Rightarrow> string \<Rightarrow> bytes32 list \<Rightarrow> uint256 list \<Rightarrow> bytes32 list \<Rightarrow> string result" where
  "encode_call_with_uint_array keccak signature words_before values words_after =
     bind_res (keccak (string_bytes signature)) (\<lambda>hash.
       let head_words = length words_before + 1 + length words_after in
       case (word_uint \<lparr>u256_text = to_string (head_words * 32)\<rparr>,
             word_uint \<lparr>u256_text = to_string (length values)\<rparr>) of
         (Inr offset, Inr len) \<Rightarrow>
           bind_res (encode_values values) (\<lambda>vs.
             Inr (encode_hex (take 4 hash @ concat words_before @ offset @ concat words_after @ len @ vs)))
       | _ \<Rightarrow> Inl (mk_error numeric_overflow ''dynamic ABI offset/length exceeds uint256'' ''''))"

definition encode_call_with_bytes ::
    "keccak \<Rightarrow> string \<Rightarrow> bytes32 list \<Rightarrow> bytes \<Rightarrow> string result" where
  "encode_call_with_bytes keccak signature words_before value =
     bind_res (keccak (string_bytes signature)) (\<lambda>hash.
       case (word_uint \<lparr>u256_text = to_string ((length words_before + 1) * 32)\<rparr>,
             word_uint \<lparr>u256_text = to_string (length value)\<rparr>) of
         (Inr offset, Inr len) \<Rightarrow>
           let padded = (length value + 31) div 32 * 32 in
           Inr (encode_hex (take 4 hash @ concat words_before @ offset @ len @ value
                              @ replicate (padded - length value) 0))
       | _ \<Rightarrow> Inl (mk_error numeric_overflow ''dynamic ABI offset/length exceeds uint256'' ''''))"

definition erc20_balance_of :: "keccak \<Rightarrow> evm_address \<Rightarrow> string result" where
  "erc20_balance_of keccak owner = encode_call keccak ''balanceOf(address)'' [word_address owner]"

definition erc20_decimals :: "keccak \<Rightarrow> string result" where
  "erc20_decimals keccak = encode_call keccak ''decimals()'' []"

definition erc20_allowance :: "keccak \<Rightarrow> evm_address \<Rightarrow> evm_address \<Rightarrow> string result" where
  "erc20_allowance keccak owner spender =
     encode_call keccak ''allowance(address,address)'' [word_address owner, word_address spender]"

definition erc20_approve :: "keccak \<Rightarrow> evm_address \<Rightarrow> uint256 \<Rightarrow> string result" where
  "erc20_approve keccak spender amount =
     bind_res (word_uint amount) (\<lambda>w.
       encode_call keccak ''approve(address,uint256)'' [word_address spender, w])"

definition erc1155_balance_of :: "keccak \<Rightarrow> evm_address \<Rightarrow> uint256 \<Rightarrow> string result" where
  "erc1155_balance_of keccak owner token_id =
     bind_res (word_uint token_id) (\<lambda>w.
       encode_call keccak ''balanceOf(address,uint256)'' [word_address owner, w])"

definition erc1155_is_approved_for_all :: "keccak \<Rightarrow> evm_address \<Rightarrow> evm_address \<Rightarrow> string result" where
  "erc1155_is_approved_for_all keccak owner operator_address =
     encode_call keccak ''isApprovedForAll(address,address)'' [word_address owner, word_address operator_address]"

definition erc1155_set_approval_for_all :: "keccak \<Rightarrow> evm_address \<Rightarrow> bool \<Rightarrow> string result" where
  "erc1155_set_approval_for_all keccak operator_address approved =
     encode_call keccak ''setApprovalForAll(address,bool)'' [word_address operator_address, word_bool approved]"

section \<open>Lemmas on hexadecimal bytes\<close>

lemma nibble_hex_value: "nibble = hex_value"
  by (rule ext) (simp add: nibble_def hex_value_def Let_def)

lemma decode_pairs_eq: "even (length s) \<Longrightarrow> decode_pairs s = hex_pairs s"
  by (induction s rule: hex_pairs.induct) (auto simp: nibble_hex_value hex_join_def)

lemma encode_hex_eq: "encode_hex bs = ''0x'' @ hex_text bs"
  by (induction bs) (auto simp: encode_hex_def hex_high_def hex_low_def)

lemma decode_hex_iff:
  "decode_hex s = Inr bs \<longleftrightarrow> starts_with s ''0x'' \<and> hex_pairs (drop 2 s) = Some bs"
proof -
  have "length s = 2 + length (drop 2 s)" if "starts_with s ''0x''"
    using that by (auto simp: starts_with_def dest: arg_cong [of _ _ length])
  then have "even (length s) \<longleftrightarrow> even (length (drop 2 s))" if "starts_with s ''0x''"
    using that by presburger
  moreover have "hex_pairs (drop 2 s) = Some bs \<Longrightarrow> even (length (drop 2 s))"
    using length_hex_pairs [of "drop 2 s" bs] by simp
  ultimately show ?thesis
    by (auto simp: decode_hex_def decode_pairs_eq split: option.splits)
qed

lemma decode_encode_hex [simp]: "decode_hex (encode_hex bs) = Inr bs"
  by (simp add: decode_hex_iff encode_hex_eq starts_with_def)

lemma encode_hex_inj: "encode_hex a = encode_hex b \<longleftrightarrow> a = b"
  by (metis decode_encode_hex sum.inject(2))

lemma encode_decode_hex: "decode_hex s = Inr bs \<Longrightarrow> encode_hex bs = ''0x'' @ map to_lower (drop 2 s)"
  by (simp add: decode_hex_iff encode_hex_eq hex_text_pairs)

section \<open>Lemmas on big-endian bytes\<close>

lemma length_be_bytes [simp]: "length (be_bytes n v) = n"
  by (induction n arbitrary: v) auto

lemma uint_bytes_acc: "uint_bytes a bs = a * 256 ^ length bs + uint_bytes 0 bs"
proof (induction bs arbitrary: a)
  case (Cons b bs)
  show ?case
    using Cons [of "a * 256 + unat b"] Cons [of "unat b"] by (simp add: algebra_simps)
qed simp

lemma uint_bytes_snoc: "uint_bytes a (bs @ [b]) = uint_bytes a bs * 256 + unat b"
  by (induction bs arbitrary: a) auto

lemma uint_be_bytes [simp]: "uint_bytes 0 (be_bytes n v) = v mod 256 ^ n"
proof (induction n arbitrary: v)
  case (Suc n)
  have "unat (word_of_nat (v mod 256) :: 8 word) = v mod 256"
    by (simp add: unsigned_of_nat take_bit_eq_mod)
  then show ?case
    using Suc [of "v div 256"] mod_mult2_eq [of v 256 "256 ^ n"] by (simp add: uint_bytes_snoc)
qed simp

lemma uint_bytes_less: "uint_bytes 0 bs < 256 ^ length bs"
proof (induction bs rule: rev_induct)
  case (snoc b bs)
  have "unat b < 256"
    using unsigned_less [of b, where 'a = nat] by simp
  then show ?case
    using snoc by (simp add: uint_bytes_snoc)
qed simp

lemma be_bytes_uint: "be_bytes (length bs) (uint_bytes 0 bs) = bs"
proof (induction bs rule: rev_induct)
  case (snoc b bs)
  have b: "unat b < 256"
    using unsigned_less [of b, where 'a = nat] by simp
  then have "(uint_bytes 0 bs * 256 + unat b) div 256 = uint_bytes 0 bs"
    "(uint_bytes 0 bs * 256 + unat b) mod 256 = unat b"
    by simp_all
  then show ?case
    using snoc by (simp add: uint_bytes_snoc)
qed simp

lemma be_bytes_inj: "u < 256 ^ n \<Longrightarrow> v < 256 ^ n \<Longrightarrow> be_bytes n u = be_bytes n v \<longleftrightarrow> u = v"
  by (metis mod_less uint_be_bytes)

lemma pow_256_32: "(256 :: nat) ^ 32 = 2 ^ 256"
  by simp

lemma word_uint_wf: "uint256_wf u \<Longrightarrow> word_uint u = Inr (be_bytes 32 (uint256_value u))"
  by (simp add: word_uint_def Let_def uint256_wf_def uint256_value_def)

lemma word_uint_length: "word_uint u = Inr w \<Longrightarrow> length w = 32"
  by (auto simp: word_uint_def Let_def split: if_splits)

lemma uint256_eqI: "uint256_wf u \<Longrightarrow> uint256_wf v \<Longrightarrow> uint256_value u = uint256_value v \<Longrightarrow> u = v"
  by (cases u; cases v) (simp add: uint256_wf_def)

lemma uint256_parse_to_string:
  "n < 2 ^ 256 \<Longrightarrow> uint256_parse (to_string n) = Inr \<lparr>u256_text = to_string n\<rparr>"
  by (simp add: uint256_parse_spec digits_text_def)

text \<open>The one-word codec is a bijection between uint256 values and 32-byte words.\<close>

lemma word_uint_round_trip:
  assumes "uint256_wf u"
  shows "decode_word_uint256 (encode_hex (be_bytes 32 (uint256_value u))) = Inr u"
proof -
  have "u256_text u = to_string (uint256_value u)" "uint256_value u mod 256 ^ 32 = uint256_value u"
    using assms by (simp_all add: uint256_wf_def)
  then show ?thesis
    using uint256_round_trip [OF assms]
    by (simp only: decode_word_uint256_def decode_encode_hex bind_res_Inr length_be_bytes uint_from_bytes_def
        uint_be_bytes) simp
qed

section \<open>RPC quantities\<close>

lemma quantity_loop_acc:
  "quantity_loop a s = map_option (\<lambda>v. a * 16 ^ length s + v) (quantity_loop 0 s)"
proof (induction s arbitrary: a)
  case (Cons c s)
  show ?case
    using Cons [of "a * 16 + nat (nibble c)"] Cons [of "nat (nibble c)"]
    by (cases "quantity_loop 0 s") (simp_all add: algebra_simps)
qed simp

lemma quantity_loop_snoc:
  "quantity_loop a (s @ [c]) = (case quantity_loop a s of None \<Rightarrow> None
     | Some v \<Rightarrow> if nibble c < 0 then None else Some (v * 16 + nat (nibble c)))"
  by (induction s arbitrary: a) auto

declare quantity_digits.simps [simp del]

lemma quantity_digits_0 [simp]: "quantity_digits 0 = []"
  by (simp add: quantity_digits.simps)

lemma quantity_digits_pos: "0 < n \<Longrightarrow> quantity_digits n = quantity_digits (n div 16) @ [hex_digits ! (n mod 16)]"
  by (subst quantity_digits.simps) simp

lemma quantity_loop_digits [simp]: "quantity_loop 0 (quantity_digits n) = Some n"
proof (induction n rule: quantity_digits.induct)
  case (1 n)
  show ?case
  proof (cases "n = 0")
    case False
    have "nibble (hex_digits ! (n mod 16)) = int (n mod 16)"
      by (simp add: nibble_hex_value hex_value_nth)
    then show ?thesis
      using 1 [OF False] False by (simp add: quantity_digits_pos quantity_loop_snoc)
  qed simp
qed

lemma hd_quantity_digits: "0 < n \<Longrightarrow> quantity_digits n \<noteq> [] \<and> hd (quantity_digits n) \<noteq> CHR ''0''"
proof (induction n rule: quantity_digits.induct)
  case (1 n)
  show ?case
  proof (cases "n < 16")
    case True
    have "hex_value (hex_digits ! n) \<noteq> hex_value (CHR ''0'')"
      using hex_value_nth [OF True] 1(2) by (simp add: hex_value_def)
    then have "hex_digits ! n \<noteq> CHR ''0''"
      by metis
    then show ?thesis
      using True 1(2) by (simp add: quantity_digits_pos)
  next
    case False
    then show ?thesis
      using 1 by (simp add: quantity_digits_pos [of n])
  qed
qed

lemma nibble_0: "nibble c = 0 \<Longrightarrow> c = CHR ''0''"
proof -
  assume "nibble c = 0"
  then have "(of_char c :: nat) = of_char (CHR ''0'')"
    by (auto simp: nibble_def Let_def split: if_splits)
  then show ?thesis
    by (simp only: of_char_eq_iff)
qed

lemma quantity_digits_loop:
  "\<lbrakk>quantity_loop 0 s = Some v; s = [] \<or> hd s \<noteq> CHR ''0''\<rbrakk> \<Longrightarrow> quantity_digits v = map to_lower s"
proof (induction s arbitrary: v rule: rev_induct)
  case (snoc c s)
  obtain w where w: "quantity_loop 0 s = Some w" and c: "0 \<le> nibble c" and v: "v = w * 16 + nat (nibble c)"
    using snoc.prems(1) by (auto simp: quantity_loop_snoc split: option.splits if_splits)
  have low: "nat (nibble c) < 16"
    using hex_value_range [of c] by (simp add: nibble_hex_value)
  have dig: "hex_digits ! nat (nibble c) = to_lower c"
    using hex_digit_of_value c by (simp add: nibble_hex_value)
  have pre: "quantity_digits w = map to_lower s"
    using snoc.IH [OF w] snoc.prems(2) by (cases s) auto
  have "0 < v"
  proof (cases "w = 0")
    case True
    have "s = []"
      using pre True by simp
    then have "c \<noteq> CHR ''0''"
      using snoc.prems(2) by simp
    then show ?thesis
      using v c nibble_0 by auto
  qed (simp add: v)
  moreover have "v div 16 = w" "v mod 16 = nat (nibble c)"
    using v low by simp_all
  ultimately show ?case
    using pre dig by (simp add: quantity_digits_pos)
qed simp

text \<open>
  RPC quantities: encoding a uint256 and decoding it again gives it back, and a text is decoded
  exactly when it is \<^verbatim>\<open>0x\<close> followed by hexadecimal digits without a leading zero (but \<^verbatim>\<open>0x0\<close> for
  zero) of a value below \<open>2\<^sup>2\<^sup>5\<^sup>6\<close>; encoding the result gives the text back in lower case.
\<close>

theorem rpc_quantity_round_trip:
  "(uint256_wf u \<longrightarrow> (\<exists>q. encode_quantity u = Inr q \<and> decode_quantity q = Inr u)) \<and>
   (decode_quantity s = Inr u \<longrightarrow> uint256_wf u \<and> encode_quantity u = Inr (''0x'' @ map to_lower (drop 2 s)))"
proof (intro conjI impI)
  assume wf: "uint256_wf u"
  let ?v = "uint256_value u"
  have parsed: "uint256_parse (to_string ?v) = Inr u" and small: "?v < 2 ^ 256"
    using uint256_round_trip [OF wf] wf by (simp_all add: uint256_wf_def)
  show "\<exists>q. encode_quantity u = Inr q \<and> decode_quantity q = Inr u"
  proof (cases "?v = 0")
    case True
    have "decode_quantity ''0x0'' = uint256_parse (to_string 0)"
      by (simp add: decode_quantity_def starts_with_def nibble_def)
    then show ?thesis
      using True parsed by (simp add: encode_quantity_def Let_def uint256_value_def)
  next
    case False
    let ?ds = "quantity_digits ?v"
    have ds: "?ds \<noteq> []" "hd ?ds \<noteq> CHR ''0''"
      using hd_quantity_digits False by blast+
    then have "(''0x'' @ ?ds) ! 2 \<noteq> CHR ''0''" "\<not> length (''0x'' @ ?ds) < 3"
      by (cases ?ds; simp)+
    then have "decode_quantity (''0x'' @ ?ds) = uint256_parse (to_string ?v)"
      using small unfolding decode_quantity_def by (simp add: starts_with_def)
    then show ?thesis
      using False parsed by (simp add: encode_quantity_def Let_def uint256_value_def)
  qed
next
  assume dec: "decode_quantity s = Inr u"
  obtain v where v: "starts_with s ''0x''" "\<not> length s < 3" "\<not> (length s > 3 \<and> s ! 2 = CHR ''0'')"
    "quantity_loop 0 (drop 2 s) = Some v" "uint256_parse (to_string v) = Inr u"
    using dec by (auto simp: decode_quantity_def split: if_splits option.splits)
  have u: "uint256_value u = v" "uint256_wf u"
    using v(5) [unfolded uint256_parse_spec] uint256_parse_wf [OF v(5)] by (auto simp: uint256_value_def)
  then show "uint256_wf u" by simp
  show "encode_quantity u = Inr (''0x'' @ map to_lower (drop 2 s))"
  proof (cases "hd (drop 2 s) = CHR ''0''")
    case True
    then have "length s = 3"
      using v(2,3) by (metis hd_drop_conv_nth linorder_neqE_nat not_less_eq numeral_2_eq_2 numeral_3_eq_3
          less_antisym)
    then have "drop 2 s = ''0''"
      using True by (cases "drop 2 s") (auto dest: arg_cong [of _ _ length])
    then show ?thesis
      using v(4) u(1) by (simp add: nibble_def encode_quantity_def uint256_value_def to_lower_def)
  next
    case False
    then have q: "quantity_digits v = map to_lower (drop 2 s)"
      by (intro quantity_digits_loop [OF v(4)]) simp
    then have "0 < v"
      using v(2) by (cases v) (auto dest: arg_cong [of _ _ length])
    then show ?thesis
      using q u(1) by (simp add: encode_quantity_def Let_def uint256_value_def)
  qed
qed

theorem rpc_quantity_round_trip_witness:
  "\<exists>u. decode_quantity ''0x1A2b'' = Inr u \<and> encode_quantity u = Inr ''0x1a2b''"
proof -
  have "decode_quantity ''0x1A2b'' = Inr \<lparr>u256_text = ''6699''\<rparr>"
    "''0x'' @ map to_lower (drop 2 ''0x1A2b'') = ''0x1a2b''"
    by code_simp+
  then show ?thesis
    using rpc_quantity_round_trip [of "\<lparr>u256_text = ''6699''\<rparr>" "''0x1A2b''"] by auto
qed

section \<open>Call data\<close>

text \<open>Reading the word at a byte offset, the way a contract decodes its arguments.\<close>

definition abi_word_at :: "bytes \<Rightarrow> nat \<Rightarrow> nat" where
  "abi_word_at d off = uint_bytes 0 (take 32 (drop off d))"

definition words_wf :: "bytes32 list \<Rightarrow> bool" where
  "words_wf ws \<longleftrightarrow> list_all (\<lambda>w. length w = 32) ws"

definition keccak_ok :: "keccak \<Rightarrow> bool" where
  "keccak_ok k \<longleftrightarrow> (\<forall>b h. k b = Inr h \<longrightarrow> length h = 32)"

lemma length_concat_words: "words_wf ws \<Longrightarrow> length (concat ws) = 32 * length ws"
  by (induction ws) (auto simp: words_wf_def)

lemma word_uint_nat:
  assumes "word_uint \<lparr>u256_text = to_string n\<rparr> = Inr w"
  shows "uint_bytes 0 w = n" and "length w = 32"
proof -
  have w: "w = be_bytes 32 n" "n div 256 ^ 32 = 0"
    using assms by (auto simp: word_uint_def Let_def split: if_splits)
  then have "n mod 256 ^ 32 = n"
    by (simp add: div_eq_0_iff)
  then show "uint_bytes 0 w = n" "length w = 32"
    unfolding w(1) by (simp_all only: uint_be_bytes length_be_bytes)
qed

lemma abi_word_at_append:
  "off = length p \<Longrightarrow> length w = 32 \<Longrightarrow> abi_word_at (p @ w @ r) off = uint_bytes 0 w"
  by (simp add: abi_word_at_def)

lemma encode_call_layout:
  "encode_call k sig ws = Inr s \<longleftrightarrow> (\<exists>h. k (string_bytes sig) = Inr h \<and> s = encode_hex (take 4 h @ concat ws))"
  by (auto simp: encode_call_def res_simps)

lemma padded_length: "32 dvd n + ((n + 31) div 32 * 32 - (n :: nat))"
proof -
  have "n \<le> (n + 31) div 32 * 32"
    by presburger
  then show ?thesis
    by simp
qed

text \<open>
  The dynamic bytes argument can be decoded: its head word is the offset of its length word,
  which the bytes follow, and the argument block is a whole number of words.
\<close>

lemma case_sum_eq_Inr [res_simps]:
  "(case a of Inl e \<Rightarrow> Inl (err e) | Inr x \<Rightarrow> f x) = Inr z \<longleftrightarrow> (\<exists>x. a = Inr x \<and> f x = Inr z)"
  by (cases a) auto

lemma bytes_call_layout:
  assumes "encode_call_with_bytes k sig ws v = Inr s" and "words_wf ws"
  obtains h d where "k (string_bytes sig) = Inr h" "decode_hex s = Inr (take 4 h @ d)"
    "take (32 * length ws) d = concat ws" "abi_word_at d (32 * length ws) = 32 * (length ws + 1)"
    "abi_word_at d (32 * (length ws + 1)) = length v" "take (length v) (drop (32 * (length ws + 2)) d) = v"
    "32 dvd length d"
proof -
  obtain h off len where h: "k (string_bytes sig) = Inr h" and
    off: "word_uint \<lparr>u256_text = to_string ((length ws + 1) * 32)\<rparr> = Inr off" and
    len: "word_uint \<lparr>u256_text = to_string (length v)\<rparr> = Inr len" and
    s: "s = encode_hex (take 4 h @ concat ws @ off @ len @ v @
              replicate ((length v + 31) div 32 * 32 - length v) 0)"
    using assms(1) by (auto simp: encode_call_with_bytes_def res_simps Let_def)
  define d where "d = concat ws @ off @ len @ v @ replicate ((length v + 31) div 32 * 32 - length v) 0"
  note ws = length_concat_words [OF assms(2)]
  note off = word_uint_nat [OF off] and len = word_uint_nat [OF len]
  have "abi_word_at d (32 * length ws) = 32 * (length ws + 1)"
    using abi_word_at_append [of _ "concat ws" off] off ws by (simp add: d_def)
  moreover have "abi_word_at d (32 * (length ws + 1)) = length v"
    using abi_word_at_append [of "32 * (length ws + 1)" "concat ws @ off" len] off len ws by (simp add: d_def)
  moreover have "32 dvd length d"
    using padded_length [of "length v"] ws off len by (simp add: d_def)
  ultimately show ?thesis
    using that [of h d] h ws off len by (simp add: s d_def)
qed

lemma encode_values_spec:
  "\<lbrakk>encode_values vs = Inr bs; list_all uint256_wf vs\<rbrakk> \<Longrightarrow>
     length bs = 32 * length vs \<and>
     (\<forall>i < length vs. uint_bytes 0 (take 32 (drop (32 * i) bs)) = uint256_value (vs ! i))"
proof (induction vs arbitrary: bs)
  case (Cons v vs)
  obtain w ws where w: "word_uint v = Inr w" "encode_values vs = Inr ws" "bs = w @ ws"
    using Cons.prems(1) by (auto simp: res_simps)
  have v: "w = be_bytes 32 (uint256_value v)" "uint256_value v mod 256 ^ 32 = uint256_value v"
    using w(1) word_uint_wf [of v] Cons.prems(2) by (simp_all add: uint256_wf_def)
  have len: "length w = 32"
    by (simp add: v(1))
  have val: "uint_bytes 0 w = uint256_value v"
    unfolding v(1) uint_be_bytes by (rule v(2))
  have ih: "length ws = 32 * length vs \<and>
     (\<forall>i < length vs. uint_bytes 0 (take 32 (drop (32 * i) ws)) = uint256_value (vs ! i))"
    using Cons.IH [OF w(2)] Cons.prems(2) by simp
  have "uint_bytes 0 (take 32 (drop (32 * i) bs)) = uint256_value ((v # vs) ! i)" if "i < length (v # vs)" for i
  proof (cases i)
    case 0
    then show ?thesis
      using val len by (simp add: w(3))
  next
    case (Suc j)
    have "drop (32 * i) bs = drop (32 * j) ws"
      using len by (simp add: w(3) Suc)
    then show ?thesis
      using ih that Suc by simp
  qed
  then show ?case
    using ih len w(3) by simp
qed simp

lemma array_call_layout:
  assumes "encode_call_with_uint_array k sig before vs after = Inr s" and "words_wf before" and "words_wf after"
    and "list_all uint256_wf vs"
  obtains h d where "k (string_bytes sig) = Inr h" "decode_hex s = Inr (take 4 h @ d)"
    "take (32 * length before) d = concat before"
    "take (32 * length after) (drop (32 * (length before + 1)) d) = concat after"
    "abi_word_at d (32 * length before) = 32 * (length before + 1 + length after)"
    "abi_word_at d (32 * (length before + 1 + length after)) = length vs"
    "\<forall>i < length vs. abi_word_at d (32 * (length before + 2 + length after + i)) = uint256_value (vs ! i)"
    "length d = 32 * (length before + 2 + length after + length vs)"
proof -
  obtain h off len body where h: "k (string_bytes sig) = Inr h" and
    off: "word_uint \<lparr>u256_text = to_string ((length before + 1 + length after) * 32)\<rparr> = Inr off" and
    len: "word_uint \<lparr>u256_text = to_string (length vs)\<rparr> = Inr len" and
    body: "encode_values vs = Inr body" and
    s: "s = encode_hex (take 4 h @ concat before @ off @ concat after @ len @ body)"
    using assms(1) by (auto simp: encode_call_with_uint_array_def res_simps Let_def)
  define d where "d = concat before @ off @ concat after @ len @ body"
  note ws = length_concat_words [OF assms(2)] length_concat_words [OF assms(3)]
  note off = word_uint_nat [OF off] and len = word_uint_nat [OF len]
  have vals: "length body = 32 * length vs"
    "\<And>i. i < length vs \<Longrightarrow> uint_bytes 0 (take 32 (drop (32 * i) body)) = uint256_value (vs ! i)"
    using encode_values_spec [OF body assms(4)] by auto
  have "abi_word_at d (32 * length before) = 32 * (length before + 1 + length after)"
    using abi_word_at_append [of _ "concat before" off] off ws by (simp add: d_def)
  moreover have "abi_word_at d (32 * (length before + 1 + length after)) = length vs"
    using abi_word_at_append [of "32 * (length before + 1 + length after)" "concat before @ off @ concat after" len]
      off len ws by (simp add: d_def)
  moreover have "drop (32 * (length before + 2 + length after + i)) d = drop (32 * i) body" for i
    using ws off(2) len(2) by (simp add: d_def)
  then have "\<forall>i < length vs. abi_word_at d (32 * (length before + 2 + length after + i)) = uint256_value (vs ! i)"
    using vals(2) by (simp add: abi_word_at_def)
  moreover have "length d = 32 * (length before + 2 + length after + length vs)"
    using ws off len vals(1) by (simp add: d_def)
  ultimately show ?thesis
    using that [of h d] h ws off len by (simp add: s d_def)
qed

lemma words_wf_simps [simp]:
  "words_wf []" "words_wf (w # ws) \<longleftrightarrow> length w = 32 \<and> words_wf ws"
  by (simp_all add: words_wf_def)

lemma length_word_address [simp]: "evm_wf a \<Longrightarrow> length (word_address a) = 32"
  by (simp add: word_address_def evm_wf_def)

lemma length_word_bool [simp]: "length (word_bool b) = 32"
  by (simp add: word_bool_def)

end
