(* ===== verification/Chain_Transaction.thy ===== *)
theory Chain_Transaction
  imports Chain_Abi
begin

text \<open>
  Legacy transactions (\<^verbatim>\<open>src/chain_transaction.cpp\<close>): the RLP encoding, the signing digest of a
  transaction with replay protection, and the signed raw transaction. The hash and the digest
  signer are parameters. The encoding of a byte string is a self-delimiting field in the sense of
  the locale \<open>field_codec\<close>; the reference decoder below is the one of the RLP specification.
\<close>

unbundle bit_operations_syntax

section \<open>Encoding\<close>

text \<open>The loops that write the bytes of a number, most significant first and without leading zeros.\<close>

fun be_minimal :: "nat \<Rightarrow> bytes" where
  "be_minimal n = (if n = 0 then [] else be_minimal (n div 256) @ [word_of_nat (n mod 256)])"

declare be_minimal.simps [simp del]

definition append_length :: "nat \<Rightarrow> bytes" where
  "append_length value = (let encoded = be_minimal value in (0xb7 + word_of_nat (length encoded)) # encoded)"

definition rlp_bytes :: "bytes \<Rightarrow> bytes" where
  "rlp_bytes value =
     (if length value = 1 \<and> hd value < 0x80 then [hd value]
      else if length value \<le> 55 then (0x80 + word_of_nat (length value)) # value
      else append_length (length value) @ value)"

definition rlp_integer :: "uint256 \<Rightarrow> bytes" where
  "rlp_integer value = rlp_bytes (be_minimal (digits_value (u256_text value)))"

text \<open>
  The overload on \<^verbatim>\<open>cpp_int\<close> goes through \<^verbatim>\<open>Uint256::parse(...).value()\<close>, which throws when the
  number does not fit; no caller passes such a number, and the branch is the empty text.
\<close>

definition rlp_integer_nat :: "nat \<Rightarrow> bytes" where
  "rlp_integer_nat value =
     (case uint256_parse (to_string value) of Inl _ \<Rightarrow> [] | Inr u \<Rightarrow> rlp_integer u)"

definition rlp_list :: "bytes list \<Rightarrow> bytes" where
  "rlp_list items =
     (let body = concat items; n = length body in
      if n \<le> 55 then (0xc0 + word_of_nat n) # body
      else let encoded = be_minimal n in (0xf7 + word_of_nat (length encoded)) # encoded @ body)"

definition transaction_data :: "string \<Rightarrow> bytes result" where
  "transaction_data value =
     (case decode_hex value of
        Inl e \<Rightarrow> Inl (e\<lparr>err_field := ''transaction.data''\<rparr>)
      | Inr bs \<Rightarrow> Inr bs)"

definition base_fields :: "populated_transaction \<Rightarrow> bytes list result" where
  "base_fields t =
     bind_res (transaction_data (px_data t)) (\<lambda>data.
       Inr [rlp_integer (px_nonce t), rlp_integer (px_gas_price t), rlp_integer (px_gas_limit t),
            rlp_bytes (evm_bytes (px_to t)), rlp_integer (px_value t), rlp_bytes data])"

definition signature_bytes :: "string \<Rightarrow> bytes result" where
  "signature_bytes value =
     (case decode_hex value of
        Inl _ \<Rightarrow> Inl (mk_error invalid_field ''transaction signature must contain 65 bytes'' ''signature'')
      | Inr bs \<Rightarrow>
          if length bs \<noteq> 65
          then Inl (mk_error invalid_field ''transaction signature must contain 65 bytes'' ''signature'')
          else if last bs \<noteq> 27 \<and> last bs \<noteq> 28
          then Inl (mk_error invalid_field ''transaction signature recovery id must be 27 or 28'' ''signature'')
          else Inr bs)"

definition trim_word :: "bytes \<Rightarrow> nat \<Rightarrow> bytes" where
  "trim_word signature offset = dropWhile (\<lambda>b. b = 0) (take 32 (drop offset signature))"

section \<open>Signing\<close>

definition signing_payload :: "populated_transaction \<Rightarrow> bytes result" where
  "signing_payload t =
     bind_res (base_fields t) (\<lambda>fields.
       Inr (rlp_list (fields @ [rlp_integer_nat (chain_number (px_chain_id t)), rlp_bytes [], rlp_bytes []])))"

definition legacy_transaction_signing_digest :: "keccak \<Rightarrow> populated_transaction \<Rightarrow> bytes32 result" where
  "legacy_transaction_signing_digest keccak t = bind_res (signing_payload t) keccak"

definition to_hex :: "bytes32 \<Rightarrow> string" where
  "to_hex hash = encode_hex hash"

definition signed_payload :: "populated_transaction \<Rightarrow> bytes \<Rightarrow> bytes result" where
  "signed_payload t signature =
     bind_res (base_fields t) (\<lambda>fields.
       let recovery = unat (last signature - 27);
           v = recovery + 35 + chain_number (px_chain_id t) * 2
       in Inr (rlp_list (fields @ [rlp_integer_nat v, rlp_bytes (trim_word signature 0),
                                   rlp_bytes (trim_word signature 32)])))"

definition sign_legacy_transaction ::
    "keccak \<Rightarrow> (bytes32 \<Rightarrow> string result) option \<Rightarrow> populated_transaction \<Rightarrow> raw_transaction result" where
  "sign_legacy_transaction keccak signer t =
     (case signer of
        None \<Rightarrow> Inl (mk_error invalid_argument ''transaction digest signer is required'' ''signer'')
      | Some sign \<Rightarrow>
          bind_res (legacy_transaction_signing_digest keccak t) (\<lambda>digest.
          bind_res (sign digest) (\<lambda>signed_digest.
          bind_res (signature_bytes signed_digest) (\<lambda>signature.
          bind_res (signed_payload t signature) (\<lambda>encoded.
          bind_res (keccak encoded) (\<lambda>hash.
            Inr \<lparr>rt_bytes = encode_hex encoded, rt_transaction_hash = to_hex hash\<rparr>))))))"

definition raw_transaction_hash :: "keccak \<Rightarrow> string \<Rightarrow> string result" where
  "raw_transaction_hash keccak raw =
     (case decode_hex raw of
        Inl _ \<Rightarrow> Inl (mk_error invalid_field ''raw transaction must be non-empty 0x-prefixed bytes''
                        ''raw_transaction'')
      | Inr bs \<Rightarrow>
          if bs = []
          then Inl (mk_error invalid_field ''raw transaction must be non-empty 0x-prefixed bytes''
                      ''raw_transaction'')
          else bind_res (keccak bs) (\<lambda>hash. Inr (to_hex hash)))"

section \<open>Reference decoder\<close>

definition rlp_read :: "bytes \<Rightarrow> (bytes \<times> bytes) option" where
  "rlp_read input =
     (case input of
        [] \<Rightarrow> None
      | b # rest \<Rightarrow>
          if unat b < 0x80 then Some ([b], rest)
          else if unat b \<le> 0xb7 then Some (take (unat b - 0x80) rest, drop (unat b - 0x80) rest)
          else if unat b \<le> 0xbf then
            let k = unat b - 0xb7; n = uint_bytes 0 (take k rest) in
            Some (take n (drop k rest), drop n (drop k rest))
          else None)"

fun rlp_items :: "nat \<Rightarrow> bytes \<Rightarrow> bytes list option" where
  "rlp_items 0 input = (if input = [] then Some [] else None)"
| "rlp_items (Suc n) input =
     (case rlp_read input of
        None \<Rightarrow> None
      | Some (item, rest) \<Rightarrow> map_option (\<lambda>items. item # items) (rlp_items n rest))"

text \<open>The items of a list of \<open>n\<close> byte strings.\<close>

definition rlp_decode :: "nat \<Rightarrow> bytes \<Rightarrow> bytes list option" where
  "rlp_decode n input =
     (case input of
        [] \<Rightarrow> None
      | b # rest \<Rightarrow>
          if unat b < 0xc0 then None
          else if unat b \<le> 0xf7 then
            (if length rest = unat b - 0xc0 then rlp_items n rest else None)
          else let k = unat b - 0xf7 in
            (if length (drop k rest) = uint_bytes 0 (take k rest) then rlp_items n (drop k rest) else None))"

section \<open>Lemmas\<close>

lemma be_minimal_0 [simp]: "be_minimal 0 = []"
  by (simp add: be_minimal.simps)

lemma be_minimal_pos: "0 < n \<Longrightarrow> be_minimal n = be_minimal (n div 256) @ [word_of_nat (n mod 256)]"
  by (subst be_minimal.simps) simp

lemma uint_be_minimal [simp]: "uint_bytes 0 (be_minimal n) = n"
proof (induction n rule: be_minimal.induct)
  case (1 n)
  have "unat (word_of_nat (n mod 256) :: 8 word) = n mod 256"
    by (simp add: unsigned_of_nat take_bit_eq_mod)
  then show ?case
    using 1 by (cases "n = 0") (simp_all add: be_minimal_pos uint_bytes_snoc)
qed

lemma length_be_minimal: "n < 256 ^ k \<Longrightarrow> length (be_minimal n) \<le> k"
proof (induction k arbitrary: n)
  case (Suc k)
  then have "n div 256 < 256 ^ k"
    by (simp add: less_mult_imp_div_less mult.commute)
  then show ?case
    using Suc.IH [of "n div 256"] by (cases "n = 0") (simp_all add: be_minimal_pos)
qed simp

lemma be_minimal_not_Nil: "0 < n \<Longrightarrow> be_minimal n \<noteq> []"
  by (simp add: be_minimal_pos)

lemma be_minimal_size: "55 < n \<Longrightarrow> n < 256 ^ 8 \<Longrightarrow> 0 < length (be_minimal n) \<and> length (be_minimal n) \<le> 8"
  using length_be_minimal [of n 8] be_minimal_not_Nil [of n] by simp

lemma unat_prefix: "b + n < 256 \<Longrightarrow> unat (word_of_nat b + word_of_nat n :: 8 word) = b + n"
proof -
  assume "b + n < 256"
  moreover have "unat (word_of_nat (b + n) :: 8 word) = (b + n) mod 256"
    by (simp only: unsigned_of_nat take_bit_eq_mod) simp
  ultimately show ?thesis
    by simp
qed

lemmas unat_prefixes =
  unat_prefix [of "0x80", simplified] unat_prefix [of "0xb7", simplified]
  unat_prefix [of "0xc0", simplified] unat_prefix [of "0xf7", simplified]

interpretation rlp_field: field_codec "\<lambda>bs. length bs < 256 ^ 8" rlp_bytes rlp_read
proof
  fix x rest :: bytes
  assume size: "length x < 256 ^ 8"
  show "rlp_read (rlp_bytes x @ rest) = Some (x, rest)"
  proof (cases "length x = 1 \<and> hd x < 0x80")
    case True
    then obtain b where "x = [b]" "b < 0x80"
      by (cases x) auto
    then show ?thesis
      by (simp add: rlp_bytes_def rlp_read_def word_less_nat_alt)
  next
    case single: False
    show ?thesis
    proof (cases "length x \<le> 55")
      case True
      have "rlp_bytes x = (0x80 + word_of_nat (length x)) # x"
        using single True by (auto simp: rlp_bytes_def)
      then show ?thesis
        using True by (simp add: rlp_read_def unat_prefixes)
    next
      case False
      define k where "k = length (be_minimal (length x))"
      have k: "0 < k" "k \<le> 8"
        using be_minimal_size [OF _ size] False by (simp_all add: k_def)
      then have "unat (0xb7 + word_of_nat k :: 8 word) = 0xb7 + k"
        by (simp add: unat_prefixes)
      moreover have "rlp_bytes x = (0xb7 + word_of_nat k) # be_minimal (length x) @ x"
        using single False by (auto simp: rlp_bytes_def append_length_def Let_def k_def)
      ultimately show ?thesis
        using k by (simp add: rlp_read_def Let_def k_def)
    qed
  qed
qed

lemma rlp_items_bytes:
  "list_all (\<lambda>bs. length bs < 256 ^ 8) xs \<Longrightarrow> rlp_items (length xs) (concat (map rlp_bytes xs)) = Some xs"
  by (induction xs) (auto simp: rlp_field.read_write)

lemma rlp_decode_list:
  assumes "list_all (\<lambda>bs. length bs < 256 ^ 8) xs" and "length (concat (map rlp_bytes xs)) < 256 ^ 8"
  shows "rlp_decode (length xs) (rlp_list (map rlp_bytes xs)) = Some xs"
proof (cases "length (concat (map rlp_bytes xs)) \<le> 55")
  case True
  then show ?thesis
    using rlp_items_bytes [OF assms(1)] by (simp add: rlp_list_def rlp_decode_def Let_def unat_prefixes)
next
  case False
  define body where "body = concat (map rlp_bytes xs)"
  define n where "n = length body"
  define k where "k = length (be_minimal n)"
  have k: "0 < k" "k \<le> 8"
    using be_minimal_size [of n] assms(2) False by (simp_all add: k_def n_def body_def del: length_concat)
  then have "unat (0xf7 + word_of_nat k :: 8 word) = 0xf7 + k"
    by (simp add: unat_prefixes)
  moreover have "rlp_list (map rlp_bytes xs) = (0xf7 + word_of_nat k) # be_minimal n @ body"
    using False by (simp add: rlp_list_def Let_def k_def n_def body_def del: length_concat)
  moreover have "rlp_items (length xs) body = Some xs"
    unfolding body_def by (rule rlp_items_bytes [OF assms(1)])
  ultimately show ?thesis
    using k k_def [symmetric] n_def [symmetric] by (simp add: rlp_decode_def Let_def)
qed

lemma length_rlp_bytes: "length bs < 256 ^ 8 \<Longrightarrow> length (rlp_bytes bs) \<le> length bs + 9"
  using length_be_minimal [of "length bs" 8]
  by (auto simp: rlp_bytes_def append_length_def Let_def)

section \<open>Transactions\<close>

definition tx_wf :: "populated_transaction \<Rightarrow> bool" where
  "tx_wf t \<longleftrightarrow> uint256_wf (px_nonce t) \<and> uint256_wf (px_gas_price t) \<and> uint256_wf (px_gas_limit t) \<and>
     uint256_wf (px_value t) \<and> evm_wf (px_to t) \<and> chain_number (px_chain_id t) < 2 ^ 64 \<and>
     length (px_data t) < 2 ^ 60"

definition base_items :: "populated_transaction \<Rightarrow> bytes \<Rightarrow> bytes list" where
  "base_items t data =
     [be_minimal (uint256_value (px_nonce t)), be_minimal (uint256_value (px_gas_price t)),
      be_minimal (uint256_value (px_gas_limit t)), evm_bytes (px_to t),
      be_minimal (uint256_value (px_value t)), data]"

lemma base_fields_iff:
  "base_fields t = Inr fs \<longleftrightarrow> (\<exists>data. decode_hex (px_data t) = Inr data \<and> fs = map rlp_bytes (base_items t data))"
  by (auto simp: base_fields_def transaction_data_def res_simps base_items_def rlp_integer_def uint256_value_def
      split: sum.splits)

lemma rlp_integer_nat_eq: "n < 2 ^ 256 \<Longrightarrow> rlp_integer_nat n = rlp_bytes (be_minimal n)"
  by (simp add: rlp_integer_nat_def uint256_parse_to_string rlp_integer_def)

lemma uint256_minimal_length: "uint256_wf u \<Longrightarrow> length (be_minimal (uint256_value u)) \<le> 32"
  by (rule length_be_minimal) (simp add: uint256_wf_def)

lemma rlp_total_length:
  "list_all (\<lambda>bs. length bs < 256 ^ 8) xs \<Longrightarrow>
     length (concat (map rlp_bytes xs)) \<le> sum_list (map length xs) + 9 * length xs"
  using length_rlp_bytes by (induction xs) (auto simp: add_mono le_trans intro: order_trans add_le_mono)

lemma decoded_length: "decode_hex s = Inr bs \<Longrightarrow> length bs \<le> length s"
  using length_hex_pairs [of "drop 2 s" bs] by (auto simp: decode_hex_iff)

text \<open>The nine items of a transaction payload can be read back.\<close>

lemma payload_decodes:
  assumes "tx_wf t" and "decode_hex (px_data t) = Inr data"
    and "length a \<le> 32" and "length b \<le> 32" and "length c \<le> 32"
  shows "rlp_decode 9 (rlp_list (map rlp_bytes (base_items t data @ [a, b, c]))) = Some (base_items t data @ [a, b, c])"
proof -
  let ?xs = "base_items t data @ [a, b, c]"
  have ints: "length (be_minimal (uint256_value (px_nonce t))) \<le> 32"
    "length (be_minimal (uint256_value (px_gas_price t))) \<le> 32"
    "length (be_minimal (uint256_value (px_gas_limit t))) \<le> 32"
    "length (be_minimal (uint256_value (px_value t))) \<le> 32"
    using assms(1) by (simp_all add: tx_wf_def uint256_minimal_length)
  have to: "length (evm_bytes (px_to t)) = 20" and data: "length data < 2 ^ 60"
    using assms(1) decoded_length [OF assms(2)] by (simp_all add: tx_wf_def evm_wf_def)
  have each: "list_all (\<lambda>bs. length bs < 256 ^ 8) ?xs"
    using ints to data assms(3-5) by (simp add: base_items_def)
  have "sum_list (map length ?xs) + 9 * length ?xs < 256 ^ 8"
    using ints to data assms(3-5) by (simp add: base_items_def)
  then have "length (concat (map rlp_bytes ?xs)) < 256 ^ 8"
    using rlp_total_length [OF each] by linarith
  moreover have "length ?xs = 9"
    by (simp add: base_items_def)
  ultimately show ?thesis
    using rlp_decode_list [OF each] by metis
qed

lemma be_minimal_inj: "be_minimal m = be_minimal n \<longleftrightarrow> m = n"
  by (metis uint_be_minimal)


lemma signing_payload_iff:
  assumes "tx_wf t"
  shows "signing_payload t = Inr p \<longleftrightarrow>
    (\<exists>data. decode_hex (px_data t) = Inr data \<and>
       p = rlp_list (map rlp_bytes (base_items t data @ [be_minimal (chain_number (px_chain_id t)), [], []])))"
proof -
  have "rlp_integer_nat (chain_number (px_chain_id t)) = rlp_bytes (be_minimal (chain_number (px_chain_id t)))"
    using assms by (intro rlp_integer_nat_eq) (simp add: tx_wf_def)
  then show ?thesis
    by (auto simp: signing_payload_def res_simps base_fields_iff)
qed

lemma signing_payload_decodes:
  assumes "tx_wf t" and "signing_payload t = Inr p"
  shows "\<exists>data. decode_hex (px_data t) = Inr data \<and>
    rlp_decode 9 p = Some (base_items t data @ [be_minimal (chain_number (px_chain_id t)), [], []])"
proof -
  have "length (be_minimal (chain_number (px_chain_id t))) \<le> 32"
    using assms(1) by (intro length_be_minimal) (simp add: tx_wf_def)
  then show ?thesis
    using assms(2) payload_decodes [OF assms(1)] by (fastforce simp: signing_payload_iff [OF assms(1)])
qed

text \<open>
  C38. What is signed determines the transaction: two transactions with the same signing payload
  agree in chain, nonce, gas price, gas limit, recipient, value and call data, so a signature of the
  payload authorises no other transaction.
\<close>

theorem signing_payload_injective:
  assumes "tx_wf t" and "tx_wf t'" and "signing_payload t = Inr p" and "signing_payload t' = Inr p"
  shows "chain_number (px_chain_id t) = chain_number (px_chain_id t') \<and> px_nonce t = px_nonce t' \<and>
    px_gas_price t = px_gas_price t' \<and> px_gas_limit t = px_gas_limit t' \<and> px_to t = px_to t' \<and>
    px_value t = px_value t' \<and> (\<exists>data. decode_hex (px_data t) = Inr data \<and> decode_hex (px_data t') = Inr data)"
proof -
  obtain d d' where d: "decode_hex (px_data t) = Inr d" "decode_hex (px_data t') = Inr d'"
    "base_items t d @ [be_minimal (chain_number (px_chain_id t)), [], []] =
     base_items t' d' @ [be_minimal (chain_number (px_chain_id t')), [], []]"
    using signing_payload_decodes [OF assms(1,3)] signing_payload_decodes [OF assms(2,4)] by auto
  have wf: "uint256_wf (px_nonce t)" "uint256_wf (px_nonce t')" "uint256_wf (px_gas_price t)"
    "uint256_wf (px_gas_price t')" "uint256_wf (px_gas_limit t)" "uint256_wf (px_gas_limit t')"
    "uint256_wf (px_value t)" "uint256_wf (px_value t')"
    using assms(1,2) by (simp_all add: tx_wf_def)
  show ?thesis
    using d wf by (auto simp: base_items_def be_minimal_inj intro: uint256_eqI evm_address.equality)
qed

definition sample_transaction :: "string \<Rightarrow> populated_transaction" where
  "sample_transaction d = \<lparr>px_chain_id = bnb_mainnet, px_from = \<lparr>evm_bytes = replicate 20 1\<rparr>,
     px_to = \<lparr>evm_bytes = replicate 20 2\<rparr>, px_nonce = \<lparr>u256_text = ''7''\<rparr>, px_gas_price = \<lparr>u256_text = ''3''\<rparr>,
     px_gas_limit = \<lparr>u256_text = ''21000''\<rparr>, px_value = \<lparr>u256_text = ''0''\<rparr>, px_data = d\<rparr>"

lemma sample_transaction_wf: "tx_wf (sample_transaction ''0xAb'')" "tx_wf (sample_transaction ''0xab'')"
proof -
  have "uint256_wf \<lparr>u256_text = ''7''\<rparr>" "uint256_wf \<lparr>u256_text = ''3''\<rparr>" "uint256_wf \<lparr>u256_text = ''21000''\<rparr>"
    "uint256_wf \<lparr>u256_text = ''0''\<rparr>"
    by code_simp+
  then show "tx_wf (sample_transaction ''0xAb'')" "tx_wf (sample_transaction ''0xab'')"
    by (simp_all add: sample_transaction_def tx_wf_def evm_wf_def chain_number_def)
qed

theorem signing_payload_injective_witness:
  "signing_payload (sample_transaction ''0xAb'') = signing_payload (sample_transaction ''0xab'') \<and>
   (\<exists>data. decode_hex ''0xAb'' = Inr data \<and> decode_hex ''0xab'' = Inr data)"
proof -
  have d: "decode_hex ''0xAb'' = Inr [0xab]" "decode_hex ''0xab'' = Inr [0xab]"
    by code_simp+
  have data_of: "px_data (sample_transaction s) = s" for s
    by (simp add: sample_transaction_def)
  obtain p where p: "signing_payload (sample_transaction ''0xAb'') = Inr p"
    using d signing_payload_iff [OF sample_transaction_wf(1)] by (auto simp: data_of)
  moreover have "signing_payload (sample_transaction ''0xab'') = signing_payload (sample_transaction ''0xAb'')"
    using d by (simp add: signing_payload_def base_fields_def transaction_data_def sample_transaction_def)
  ultimately show ?thesis
    using signing_payload_injective [OF sample_transaction_wf, of p] by (auto simp: sample_transaction_def)
qed

lemma signature_bytes_iff:
  "signature_bytes s = Inr sg \<longleftrightarrow> decode_hex s = Inr sg \<and> length sg = 65 \<and> (last sg = 27 \<or> last sg = 28)"
  by (auto simp: signature_bytes_def split: sum.splits if_splits)

lemma uint_trim: "uint_bytes 0 (dropWhile (\<lambda>b. b = 0) bs) = uint_bytes 0 bs"
  by (induction bs) auto

lemma trim_word_spec:
  "length (trim_word sg o') \<le> 32 \<and> uint_bytes 0 (trim_word sg o') = uint_bytes 0 (take 32 (drop o' sg)) \<and>
   (trim_word sg o' = [] \<or> hd (trim_word sg o') \<noteq> 0)"
proof -
  have "length (trim_word sg o') \<le> length (take 32 (drop o' sg))"
    unfolding trim_word_def by (rule length_dropWhile_le)
  moreover have "trim_word sg o' = [] \<or> hd (trim_word sg o') \<noteq> 0"
    unfolding trim_word_def using hd_dropWhile [of "\<lambda>b. b = 0" "take 32 (drop o' sg)"] by argo
  moreover have "uint_bytes 0 (trim_word sg o') = uint_bytes 0 (take 32 (drop o' sg))"
    unfolding trim_word_def by (rule uint_trim)
  ultimately show ?thesis
    by simp
qed

text \<open>
  C39. A signed raw transaction carries exactly the transaction and the signature: its bytes decode
  to the nine RLP items, of which the first six are the fields, the seventh is the replay protected
  recovery value of the chain, and the last two are the signature halves without leading zeros;
  and its transaction hash is the hash of those bytes, as \<open>raw_transaction_hash\<close> recomputes it.
\<close>

theorem signed_transaction_round_trip:
  assumes "sign_legacy_transaction k signer t = Inr raw" and "tx_wf t"
  shows "\<exists>sign digest sg data bs v r s. signer = Some sign \<and>
    legacy_transaction_signing_digest k t = Inr digest \<and> bind_res (sign digest) signature_bytes = Inr sg \<and>
    decode_hex (px_data t) = Inr data \<and> decode_hex (rt_bytes raw) = Inr bs \<and>
    rlp_decode 9 bs = Some (base_items t data @ [be_minimal v, r, s]) \<and>
    v = (if last sg = 27 then 35 else 36) + 2 * chain_number (px_chain_id t) \<and>
    uint_bytes 0 r = uint_bytes 0 (take 32 sg) \<and> uint_bytes 0 s = uint_bytes 0 (take 32 (drop 32 sg)) \<and>
    raw_transaction_hash k (rt_bytes raw) = Inr (rt_transaction_hash raw)"
proof -
  obtain sign digest st sg bs h where sign: "signer = Some sign" and
    digest: "legacy_transaction_signing_digest k t = Inr digest" and st: "sign digest = Inr st" and
    sg: "signature_bytes st = Inr sg" and bs: "signed_payload t sg = Inr bs" and h: "k bs = Inr h" and
    raw: "raw = \<lparr>rt_bytes = encode_hex bs, rt_transaction_hash = to_hex h\<rparr>"
    using assms(1) by (auto simp: sign_legacy_transaction_def res_simps split: option.splits)
  define v where "v = unat (last sg - 27) + 35 + chain_number (px_chain_id t) * 2"
  have last: "last sg = 27 \<or> last sg = 28"
    using sg by (auto simp: signature_bytes_iff)
  then have v: "v = (if last sg = 27 then 35 else 36) + 2 * chain_number (px_chain_id t)"
    by (auto simp: v_def)
  have chain: "chain_number (px_chain_id t) < 2 ^ 64"
    using assms(2) by (simp add: tx_wf_def)
  then have small: "v < 256 ^ 32"
    by (simp add: v)
  obtain data where data: "decode_hex (px_data t) = Inr data" and
    payload: "bs = rlp_list (map rlp_bytes (base_items t data @ [be_minimal v, trim_word sg 0, trim_word sg 32]))"
    using bs rlp_integer_nat_eq [of v] small
    by (auto simp: signed_payload_def res_simps base_fields_iff Let_def v_def [symmetric])
  have dec: "rlp_decode 9 bs = Some (base_items t data @ [be_minimal v, trim_word sg 0, trim_word sg 32])"
    unfolding payload using length_be_minimal [OF small] trim_word_spec
    by (intro payload_decodes [OF assms(2) data]) auto
  have "bs \<noteq> []"
    by (simp add: payload rlp_list_def Let_def)
  then have "raw_transaction_hash k (rt_bytes raw) = Inr (rt_transaction_hash raw)"
    using h by (simp add: raw raw_transaction_hash_def)
  then show ?thesis
    using sign digest st sg data raw dec v trim_word_spec [of sg 0] trim_word_spec [of sg 32] by auto
qed

definition toy_keccak :: keccak where
  "toy_keccak bs = Inr (be_bytes 32 (uint_bytes 0 bs))"

definition toy_signer :: "bytes32 \<Rightarrow> string result" where
  "toy_signer digest = Inr (encode_hex (replicate 64 1 @ [28]))"

theorem signed_transaction_round_trip_witness:
  "\<exists>raw bs items. sign_legacy_transaction toy_keccak (Some toy_signer) (sample_transaction ''0xab'') = Inr raw \<and>
     decode_hex (rt_bytes raw) = Inr bs \<and> rlp_decode 9 bs = Some items \<and> items ! 6 = be_minimal 148 \<and>
     raw_transaction_hash toy_keccak (rt_bytes raw) = Inr (rt_transaction_hash raw)"
proof -
  let ?t = "sample_transaction ''0xab''"
  have d: "decode_hex (px_data ?t) = Inr [0xab]"
    by code_simp
  have sg: "signature_bytes (encode_hex (replicate 64 1 @ [28])) = Inr (replicate 64 1 @ [28])"
    by (simp add: signature_bytes_iff)
  obtain raw where raw: "sign_legacy_transaction toy_keccak (Some toy_signer) ?t = Inr raw"
    using d sg by (auto simp: sign_legacy_transaction_def legacy_transaction_signing_digest_def signing_payload_def
        signed_payload_def base_fields_iff toy_keccak_def toy_signer_def base_fields_def transaction_data_def Let_def)
  have chain: "chain_number (px_chain_id ?t) = 56"
    by (simp add: sample_transaction_def chain_number_def)
  show ?thesis
    using signed_transaction_round_trip [OF raw sample_transaction_wf(2)] raw sg d chain
    by (auto simp: toy_signer_def base_items_def)
qed

end
