(* ===== verification/Chain_Operations.thy ===== *)
theory Chain_Operations
  imports Chain_Abi
begin

text \<open>
  Contract operations (\<^verbatim>\<open>src/chain_operations.cpp\<close>) and approvals (\<^verbatim>\<open>src/chain_approvals.cpp\<close>): the
  calls that split, merge, redeem and convert positions and cancel orders, their routing through a
  Predict Account, and the approval steps an account needs. Where the source takes
  \<^verbatim>\<open>abi::word(x).value()\<close> the model passes an error on: a uint256 always fits a word.
\<close>

section \<open>Data\<close>

datatype transaction_route = route_eoa | route_predict_account

record route_options =
  ru_route :: transaction_route
  ru_predict_account :: "evm_address option"

record position_operation =
  po_condition_id :: bytes32
  po_amount :: uint256
  po_is_neg_risk :: bool
  po_is_yield_bearing :: bool

record redeem_operation =
  rd_condition_id :: bytes32
  rd_index_set :: nat
  rd_is_neg_risk :: bool
  rd_is_yield_bearing :: bool
  rd_amount :: "uint256 option"

record convert_operation =
  cv_neg_risk_on_chain_id :: bytes32
  cv_index_set :: uint256
  cv_amount :: uint256
  cv_is_yield_bearing :: bool

definition side_number :: "contract_side \<Rightarrow> nat" where
  "side_number s = (case s of side_buy \<Rightarrow> 0 | side_sell \<Rightarrow> 1 | side_unknown \<Rightarrow> 255)"

definition signature_number :: "signature_type \<Rightarrow> nat" where
  "signature_number s =
     (case s of sig_eoa \<Rightarrow> 0 | sig_poly_proxy \<Rightarrow> 1 | sig_poly_gnosis_safe \<Rightarrow> 2 | sig_unknown \<Rightarrow> 255)"

section \<open>Helpers\<close>

definition uint_value :: "nat \<Rightarrow> uint256 result" where
  "uint_value value = uint256_parse (to_string value)"

definition uint_word :: "nat \<Rightarrow> bytes32 result" where
  "uint_word value = bind_res (uint_value value) word_uint"

definition zero_bytes :: "bytes32 \<Rightarrow> bool" where
  "zero_bytes value \<longleftrightarrow> list_all (\<lambda>b. b = 0) value"

definition zero_word :: bytes32 where "zero_word = replicate 32 0"

definition conditional_tokens :: "protocol_address_book \<Rightarrow> bool \<Rightarrow> bool \<Rightarrow> evm_address" where
  "conditional_tokens a neg_risk yield =
     (if yield
      then (if neg_risk then pa_yield_bearing_neg_risk_conditional_tokens a
            else pa_yield_bearing_conditional_tokens a)
      else (if neg_risk then pa_neg_risk_conditional_tokens a else pa_conditional_tokens a))"

definition neg_adapter :: "protocol_address_book \<Rightarrow> bool \<Rightarrow> evm_address" where
  "neg_adapter a yield =
     (if yield then pa_yield_bearing_neg_risk_adapter a else pa_neg_risk_adapter a)"

definition call_transaction :: "evm_address \<Rightarrow> string result \<Rightarrow> unsigned_transaction result" where
  "call_transaction dest data =
     bind_res data (\<lambda>d. Inr \<lparr>ut_to = dest, ut_data = d, ut_value = uint256_zero\<rparr>)"

section \<open>Cancelling orders\<close>

definition encode_order_tuple :: "signed_order \<Rightarrow> bytes result" where
  "encode_order_tuple o' =
     (case (word_uint (uo_salt o'), word_uint (uo_token_id o'), word_uint (uo_maker_amount o'),
            word_uint (uo_taker_amount o'), word_uint (uo_expiration o'), word_uint (uo_nonce o'),
            word_uint (uo_fee_rate_bps o'), uint_word (side_number (uo_side o')),
            uint_word (signature_number (uo_signature_type o'))) of
        (Inr salt, Inr token, Inr maker_amount, Inr taker_amount, Inr expiration, Inr nonce, Inr fee,
         Inr side, Inr signature_type) \<Rightarrow>
          (case decode_hex (so_signature o') of
             Inl _ \<Rightarrow> Inl (mk_error invalid_field ''cancel order requires a non-empty hex signature''
                             ''orders[].signature'')
           | Inr signature \<Rightarrow>
               if signature = []
               then Inl (mk_error invalid_field ''cancel order requires a non-empty hex signature''
                           ''orders[].signature'')
               else
                 (case (uint_word (13 * 32), uint_word (length signature)) of
                    (Inr signature_offset, Inr signature_length) \<Rightarrow>
                      let padded = (length signature + 31) div 32 * 32 in
                      Inr (salt @ word_address (uo_maker o') @ word_address (uo_signer o')
                           @ (case uo_taker o' of Some a \<Rightarrow> word_address a | None \<Rightarrow> zero_word)
                           @ token @ maker_amount @ taker_amount @ expiration @ nonce @ fee @ side
                           @ signature_type @ signature_offset @ signature_length @ signature
                           @ replicate (padded - length signature) 0)
                  | _ \<Rightarrow> Inl (mk_error numeric_overflow ''cancel order signature length exceeds ABI limits'' '''')))
      | _ \<Rightarrow> Inl (mk_error numeric_overflow ''cancel order contains a value outside its ABI type'' ''''))"

fun encode_tuples :: "signed_order list \<Rightarrow> bytes list result" where
  "encode_tuples [] = Inr []"
| "encode_tuples (o' # os) =
     bind_res (encode_order_tuple o') (\<lambda>t. bind_res (encode_tuples os) (\<lambda>ts. Inr (t # ts)))"

fun tuple_offsets :: "nat \<Rightarrow> bytes list \<Rightarrow> bytes result" where
  "tuple_offsets offset [] = Inr []"
| "tuple_offsets offset (t # ts) =
     bind_res (uint_word offset) (\<lambda>w.
       bind_res (tuple_offsets (offset + length t) ts) (\<lambda>ws. Inr (w @ ws)))"

definition cancel_signature :: string where
  "cancel_signature = ''cancelOrders((uint256,address,address,address,uint256,uint256,uint256,uint256,uint256,uint256,uint8,uint8,bytes)[])''"

definition encode_cancel_orders :: "keccak \<Rightarrow> signed_order list \<Rightarrow> string result" where
  "encode_cancel_orders keccak orders =
     (case (keccak (string_bytes cancel_signature), uint_word 32, uint_word (length orders)) of
        (Inr selector, Inr root_offset, Inr count) \<Rightarrow>
          bind_res (encode_tuples orders) (\<lambda>tuples.
          bind_res (tuple_offsets (length orders * 32) tuples) (\<lambda>offsets.
            Inr (encode_hex (take 4 selector @ root_offset @ count @ offsets @ concat tuples))))
      | _ \<Rightarrow> Inl (mk_error numeric_overflow ''cancel order array exceeds ABI limits'' ''''))"

section \<open>Routing\<close>

definition route_transaction ::
    "keccak \<Rightarrow> unsigned_transaction \<Rightarrow> route_options \<Rightarrow> unsigned_transaction result" where
  "route_transaction keccak tx route =
     (if ru_route route = route_eoa then Inr tx
      else case ru_predict_account route of
        None \<Rightarrow> Inl (mk_error invalid_argument ''Predict Account routing requires its account address''
                       ''predict_account'')
      | Some account \<Rightarrow>
          if evm_empty account
          then Inl (mk_error invalid_argument ''Predict Account routing requires its account address''
                      ''predict_account'')
          else
            bind_res (decode_hex (ut_data tx)) (\<lambda>inner.
            bind_res (word_uint (ut_value tx)) (\<lambda>value.
              let execution_calldata = evm_bytes (ut_to tx) @ value @ inner in
              bind_res (encode_call_with_bytes keccak ''execute(bytes32,bytes)'' [zero_word] execution_calldata)
                (\<lambda>data. Inr \<lparr>ut_to = account, ut_data = data, ut_value = uint256_zero\<rparr>))))"

section \<open>Operations\<close>

definition validate_position :: "position_operation \<Rightarrow> bool result" where
  "validate_position op =
     (if zero_bytes (po_condition_id op)
      then Inl (mk_error invalid_argument ''condition id must not be zero'' ''condition_id'')
      else if uint256_is_zero (po_amount op)
      then Inl (mk_error invalid_argument ''position amount must be greater than zero'' ''amount'')
      else Inr True)"

text \<open>\<open>split_transaction\<close> and \<open>merge_transaction\<close> differ only in the two method signatures.\<close>

definition position_transaction ::
    "keccak \<Rightarrow> string \<Rightarrow> string \<Rightarrow> chain_id \<Rightarrow> position_operation \<Rightarrow> route_options \<Rightarrow> unsigned_transaction result" where
  "position_transaction keccak neg_sig plain_sig chain op route =
     bind_res (validate_position op) (\<lambda>_.
     bind_res (protocol_addresses chain) (\<lambda>a.
     bind_res (word_uint (po_amount op)) (\<lambda>amount.
     bind_res
       (if po_is_neg_risk op
        then call_transaction (neg_adapter a (po_is_yield_bearing op))
               (encode_call keccak neg_sig [po_condition_id op, amount])
        else
          bind_res (uint_value 1) (\<lambda>one. bind_res (uint_value 2) (\<lambda>two.
            call_transaction (conditional_tokens a False (po_is_yield_bearing op))
              (encode_call_with_uint_array keccak plain_sig
                 [word_address (pa_usdt a), zero_word, po_condition_id op] [one, two] [amount]))))
       (\<lambda>direct. route_transaction keccak direct route))))"

definition split_transaction ::
    "keccak \<Rightarrow> chain_id \<Rightarrow> position_operation \<Rightarrow> route_options \<Rightarrow> unsigned_transaction result" where
  "split_transaction keccak =
     position_transaction keccak ''splitPosition(bytes32,uint256)''
       ''splitPosition(address,bytes32,bytes32,uint256[],uint256)''"

definition merge_transaction ::
    "keccak \<Rightarrow> chain_id \<Rightarrow> position_operation \<Rightarrow> route_options \<Rightarrow> unsigned_transaction result" where
  "merge_transaction keccak =
     position_transaction keccak ''mergePositions(bytes32,uint256)''
       ''mergePositions(address,bytes32,bytes32,uint256[],uint256)''"

definition redeem_transaction ::
    "keccak \<Rightarrow> chain_id \<Rightarrow> redeem_operation \<Rightarrow> route_options \<Rightarrow> unsigned_transaction result" where
  "redeem_transaction keccak chain op route =
     (if zero_bytes (rd_condition_id op)
      then Inl (mk_error invalid_argument ''condition id must not be zero'' ''condition_id'')
      else if rd_index_set op \<noteq> 1 \<and> rd_index_set op \<noteq> 2
      then Inl (mk_error invalid_argument ''redeem index set must be 1 or 2'' ''index_set'')
      else
        bind_res (protocol_addresses chain) (\<lambda>a.
        bind_res
          (if rd_is_neg_risk op then
             (case rd_amount op of
                None \<Rightarrow> Inl (mk_error invalid_argument ''negative-risk redeem requires a positive amount'' ''amount'')
              | Some amount \<Rightarrow>
                  if uint256_is_zero amount
                  then Inl (mk_error invalid_argument ''negative-risk redeem requires a positive amount'' ''amount'')
                  else
                    bind_res (uint_value 0) (\<lambda>zero.
                      call_transaction (neg_adapter a (rd_is_yield_bearing op))
                        (encode_call_with_uint_array keccak ''redeemPositions(bytes32,uint256[])''
                           [rd_condition_id op]
                           [if rd_index_set op = 1 then amount else zero,
                            if rd_index_set op = 2 then amount else zero] [])))
           else
             bind_res (uint_value (rd_index_set op)) (\<lambda>index.
               call_transaction (conditional_tokens a False (rd_is_yield_bearing op))
                 (encode_call_with_uint_array keccak ''redeemPositions(address,bytes32,bytes32,uint256[])''
                    [word_address (pa_usdt a), zero_word, rd_condition_id op] [index] [])))
          (\<lambda>direct. route_transaction keccak direct route)))"

definition convert_transaction ::
    "keccak \<Rightarrow> chain_id \<Rightarrow> convert_operation \<Rightarrow> route_options \<Rightarrow> unsigned_transaction result" where
  "convert_transaction keccak chain op route =
     (if zero_bytes (cv_neg_risk_on_chain_id op)
      then Inl (mk_error invalid_argument ''negative-risk market id must not be zero'' ''neg_risk_on_chain_id'')
      else if uint256_is_zero (cv_index_set op) \<or> uint256_is_zero (cv_amount op)
      then Inl (mk_error invalid_argument ''convert index set and amount must be greater than zero''
                  (if uint256_is_zero (cv_index_set op) then ''index_set'' else ''amount''))
      else
        bind_res (protocol_addresses chain) (\<lambda>a.
          case (word_uint (cv_index_set op), word_uint (cv_amount op)) of
            (Inr index, Inr amount) \<Rightarrow>
              bind_res (call_transaction (neg_adapter a (cv_is_yield_bearing op))
                          (encode_call keccak ''convertPositions(bytes32,uint256,uint256)''
                             [cv_neg_risk_on_chain_id op, index, amount]))
                (\<lambda>direct. route_transaction keccak direct route)
          | _ \<Rightarrow> Inl (mk_error numeric_overflow ''convert values exceed their ABI types'' '''')))"

definition cancel_orders_transaction ::
    "keccak \<Rightarrow> chain_id \<Rightarrow> signed_order list \<Rightarrow> market_contract_kind \<Rightarrow> route_options
       \<Rightarrow> unsigned_transaction option result" where
  "cancel_orders_transaction keccak chain orders market route =
     (if orders = [] then Inr None
      else
        bind_res (protocol_addresses chain) (\<lambda>a.
        bind_res (encode_cancel_orders keccak orders) (\<lambda>data.
        bind_res (route_transaction keccak
                    \<lparr>ut_to = exchange_address a market, ut_data = data, ut_value = uint256_zero\<rparr> route)
          (\<lambda>routed. Inr (Some routed)))))"

section \<open>Approvals\<close>

datatype approval_operation = approve_trade | approve_split | approve_merge | approve_redeem | approve_convert

datatype approval_kind = erc1155_operator | erc20_allowance_kind

datatype approval_trade_side = approve_both | approve_buy | approve_sell

record approval_scope =
  as_operation :: approval_operation
  as_is_neg_risk :: bool
  as_is_yield_bearing :: bool
  as_side :: approval_trade_side

record approval_step =
  ap_id :: string
  ap_kind :: approval_kind
  ap_spender :: evm_address
  ap_token :: evm_address
  ap_label :: string
  ap_description :: string

definition approval_copy :: "approval_kind \<Rightarrow> bool \<Rightarrow> bool \<Rightarrow> bool \<Rightarrow> string \<times> string" where
  "approval_copy kind ne na ct =
     (if kind = erc20_allowance_kind then
        if na
        then (''Multi-Outcome Split Allowance'', ''Grants the adapter permission to use collateral to split positions.'')
        else if ct
        then (''Split Allowance'', ''Grants permission to use collateral to split positions.'')
        else if ne
        then (''Multi-Outcome Allowance'', ''Grants the multi-outcome exchange permission to use collateral.'')
        else (''Exchange Allowance'', ''Grants the exchange permission to use collateral to trade.'')
      else if na
      then (''Approve Multi-Outcome Adapter'', ''Allows the multi-outcome adapter to manage outcome tokens.'')
      else if ne
      then (''Approve Multi-Outcome'', ''Allows interaction with multi-outcome markets.'')
      else (''Approve Exchange'', ''Allows interaction with the exchange.''))"

definition make_step :: "approval_kind \<Rightarrow> evm_address \<Rightarrow> evm_address \<Rightarrow> bool \<Rightarrow> bool \<Rightarrow> bool \<Rightarrow> approval_step" where
  "make_step kind spender token ne na ct =
     (let c = approval_copy kind ne na ct;
          prefix = (if kind = erc20_allowance_kind then ''ERC20_ALLOWANCE:'' else ''ERC1155_APPROVAL:'')
      in \<lparr>ap_id = prefix @ evm_to_string spender, ap_kind = kind, ap_spender = spender, ap_token = token,
          ap_label = fst c, ap_description = snd c\<rparr>)"

definition approval_steps :: "chain_id \<Rightarrow> approval_scope \<Rightarrow> approval_step list result" where
  "approval_steps chain scope =
     bind_res (protocol_addresses chain) (\<lambda>a.
       let neg = as_is_neg_risk scope; yield = as_is_yield_bearing scope; side = as_side scope;
           exchange = exchange_address a \<lparr>mk_is_neg_risk = neg, mk_is_yield_bearing = yield\<rparr>;
           ctf = conditional_tokens a neg yield;
           adapter = neg_adapter a yield;
           erc1155 = (\<lambda>spender ne na. make_step erc1155_operator spender ctf ne na False);
           erc20 = (\<lambda>spender ne na ct. make_step erc20_allowance_kind spender (pa_usdt a) ne na ct)
       in case as_operation scope of
         approve_trade \<Rightarrow>
           Inr ((if side \<noteq> approve_buy then [erc1155 exchange neg False] else [])
                @ (if neg then [erc1155 adapter False True] else [])
                @ (if side \<noteq> approve_sell then [erc20 exchange neg False False] else []))
       | approve_split \<Rightarrow>
           Inr [if neg then erc20 adapter False True False else erc20 ctf False False True]
       | approve_merge \<Rightarrow> Inr (if neg then [erc1155 adapter False True] else [])
       | approve_redeem \<Rightarrow> Inr (if neg then [erc1155 adapter False True] else [])
       | approve_convert \<Rightarrow>
           if \<not> neg
           then Inl (mk_error invalid_argument ''convert approvals require a negative-risk market'' ''is_neg_risk'')
           else Inr [erc1155 adapter False True])"

text \<open>A candidate is kept unless a step with its id is there already.\<close>

fun add_steps :: "approval_step list \<Rightarrow> approval_step list \<Rightarrow> approval_step list" where
  "add_steps result [] = result"
| "add_steps result (c # cs) =
     add_steps (if \<not> list_ex (\<lambda>e. ap_id e = ap_id c) result then result @ [c] else result) cs"

fun collect_steps :: "chain_id \<Rightarrow> approval_scope list \<Rightarrow> approval_step list \<Rightarrow> approval_step list result" where
  "collect_steps chain [] result = Inr result"
| "collect_steps chain (s # ss) result =
     bind_res (approval_steps chain s) (\<lambda>steps. collect_steps chain ss (add_steps result steps))"

text \<open>The scopes in the order of the three nested loops.\<close>

definition all_scopes :: "bool option \<Rightarrow> approval_scope list" where
  "all_scopes is_yield_bearing =
     concat (map (\<lambda>track.
       concat (map (\<lambda>neg.
         map (\<lambda>op. \<lparr>as_operation = op, as_is_neg_risk = neg, as_is_yield_bearing = track, as_side = approve_both\<rparr>)
           [approve_trade, approve_split, approve_merge, approve_redeem])
         [False, True]))
       (filter (\<lambda>track. \<not> (is_yield_bearing \<noteq> None \<and> track \<noteq> the is_yield_bearing)) [False, True]))"

definition all_approval_steps :: "chain_id \<Rightarrow> bool option \<Rightarrow> approval_step list result" where
  "all_approval_steps chain is_yield_bearing = collect_steps chain (all_scopes is_yield_bearing) []"

definition approval_transaction ::
    "keccak \<Rightarrow> approval_step \<Rightarrow> uint256 option \<Rightarrow> bool \<Rightarrow> unsigned_transaction result" where
  "approval_transaction keccak s amount approved =
     bind_res
       (if ap_kind s = erc1155_operator then erc1155_set_approval_for_all keccak (ap_spender s) approved
        else erc20_approve keccak (ap_spender s)
               (if approved
                then (case amount of Some a \<Rightarrow> a | None \<Rightarrow> \<lparr>u256_text = uint256_max\<rparr>)
                else uint256_zero))
       (\<lambda>data. Inr \<lparr>ut_to = ap_token s, ut_data = data, ut_value = uint256_zero\<rparr>)"

section \<open>Routing keeps the call\<close>

lemma zero_word_length [simp]: "length zero_word = 32"
  by (simp add: zero_word_def)

text \<open>
  Routing through a Predict Account keeps the call: the routed transaction goes to the account
  with no value, and its \<^verbatim>\<open>execute(bytes32,bytes)\<close> argument, decoded by the ABI rules, is the zero
  mode word and the bytes of the original recipient, value word and call data, in this order; an
  EOA route changes nothing.
\<close>

theorem route_transaction_keeps_call:
  assumes "route_transaction k tx route = Inr tx'" and "evm_wf (ut_to tx)" and "uint256_wf (ut_value tx)"
  shows "(ru_route route = route_eoa \<longrightarrow> tx' = tx) \<and>
    (ru_route route = route_predict_account \<longrightarrow>
      (\<exists>account inner h d. ru_predict_account route = Some account \<and> \<not> evm_empty account \<and> ut_to tx' = account \<and>
        ut_value tx' = uint256_zero \<and> decode_hex (ut_data tx) = Inr inner \<and>
        k (string_bytes ''execute(bytes32,bytes)'') = Inr h \<and> decode_hex (ut_data tx') = Inr (take 4 h @ d) \<and>
        take 32 d = zero_word \<and> abi_word_at d 32 = 64 \<and> abi_word_at d 64 = 52 + length inner \<and>
        take 20 (drop 96 d) = evm_bytes (ut_to tx) \<and> abi_word_at d 116 = uint256_value (ut_value tx) \<and>
        take (length inner) (drop 148 d) = inner))"
proof (cases "ru_route route")
  case route_eoa
  then show ?thesis
    using assms(1) by (simp add: route_transaction_def)
next
  case route_predict_account
  let ?v = "be_bytes 32 (uint256_value (ut_value tx))"
  obtain account inner s where a: "ru_predict_account route = Some account" "\<not> evm_empty account" and
    inner: "decode_hex (ut_data tx) = Inr inner" and
    call: "encode_call_with_bytes k ''execute(bytes32,bytes)'' [zero_word] (evm_bytes (ut_to tx) @ ?v @ inner) = Inr s" and
    tx': "tx' = \<lparr>ut_to = account, ut_data = s, ut_value = uint256_zero\<rparr>"
    using assms(1,3) route_predict_account
    by (auto simp: route_transaction_def res_simps Let_def word_uint_wf split: option.splits if_splits)
  have len: "length (evm_bytes (ut_to tx)) = 20"
    using assms(2) by (simp add: evm_wf_def)
  obtain h d where h: "k (string_bytes ''execute(bytes32,bytes)'') = Inr h" "decode_hex s = Inr (take 4 h @ d)" and
    d: "take 32 d = zero_word" "abi_word_at d 32 = 64" "abi_word_at d 64 = 52 + length inner" and
    body: "take (52 + length inner) (drop 96 d) = evm_bytes (ut_to tx) @ ?v @ inner"
    by (rule bytes_call_layout [OF call]) (auto simp: len)
  have "take 20 (drop 96 d) = evm_bytes (ut_to tx)"
    using arg_cong [OF body, of "take 20"] len by (simp add: min_def)
  moreover have "take 32 (drop 116 d) = ?v"
    using arg_cong [OF body, of "\<lambda>x. take 32 (drop 20 x)"] len by (simp add: take_drop min_def add.commute)
  then have "abi_word_at d 116 = uint256_value (ut_value tx)"
    using assms(3) uint_be_bytes [of 32 "uint256_value (ut_value tx)"] by (simp add: abi_word_at_def uint256_wf_def)
  moreover have "take (length inner) (drop 148 d) = inner"
    using arg_cong [OF body, of "drop 52"] len by (simp add: drop_take)
  ultimately show ?thesis
    using a inner h d tx' route_predict_account by simp
qed

section \<open>Approvals\<close>

lemma hex_text_inj: "hex_text a = hex_text b \<longleftrightarrow> a = b"
  by (metis hex_pairs_text option.inject)

lemma make_step_id:
  "ap_id (make_step k s t ne na ct) = ap_id (make_step k' s' t' ne' na' ct') \<longleftrightarrow> k = k' \<and> s = s'"
  by (cases k; cases k'; cases s; cases s')
    (auto simp: make_step_def Let_def evm_to_string_def hex_text_inj)

text \<open>The accounts that may be approved on the two tracks.\<close>

definition spenders :: "protocol_address_book \<Rightarrow> evm_address list" where
  "spenders a = [pa_ctf_exchange a, pa_neg_risk_ctf_exchange a, pa_neg_risk_adapter a, pa_conditional_tokens a,
     pa_yield_bearing_ctf_exchange a, pa_yield_bearing_neg_risk_ctf_exchange a,
     pa_yield_bearing_neg_risk_adapter a, pa_yield_bearing_conditional_tokens a]"

lemma spenders_distinct:
  assumes "c = bnb_mainnet \<or> c = bnb_testnet"
  shows "\<exists>a. protocol_addresses c = Inr a \<and> distinct (spenders a)"
proof -
  have "case protocol_addresses bnb_mainnet of Inr a \<Rightarrow> distinct (spenders a) | _ \<Rightarrow> False"
    by code_simp
  moreover have "case protocol_addresses bnb_testnet of Inr a \<Rightarrow> distinct (spenders a) | _ \<Rightarrow> False"
    by code_simp
  ultimately show ?thesis
    using assms by (auto split: sum.splits)
qed

lemma spender_facts:
  assumes "distinct (spenders a)"
  shows "distinct (spenders a) \<and>
    distinct [pa_yield_bearing_conditional_tokens a, pa_yield_bearing_neg_risk_adapter a,
      pa_yield_bearing_neg_risk_ctf_exchange a, pa_yield_bearing_ctf_exchange a,
      pa_conditional_tokens a, pa_neg_risk_adapter a,
      pa_neg_risk_ctf_exchange a, pa_ctf_exchange a]"
  using assms by (auto simp: spenders_def)

text \<open>The steps of one track: exchange, adapter and split approvals.\<close>

definition track_steps :: "protocol_address_book \<Rightarrow> bool \<Rightarrow> approval_step list" where
  "track_steps a y =
     (let ex = exchange_address a \<lparr>mk_is_neg_risk = False, mk_is_yield_bearing = y\<rparr>;
          nex = exchange_address a \<lparr>mk_is_neg_risk = True, mk_is_yield_bearing = y\<rparr>;
          ctf = conditional_tokens a False y; nctf = conditional_tokens a True y; ad = neg_adapter a y
      in [make_step erc1155_operator ex ctf False False False,
          make_step erc20_allowance_kind ex (pa_usdt a) False False False,
          make_step erc20_allowance_kind ctf (pa_usdt a) False False True,
          make_step erc1155_operator nex nctf True False False,
          make_step erc1155_operator ad nctf False True False,
          make_step erc20_allowance_kind nex (pa_usdt a) True False False,
          make_step erc20_allowance_kind ad (pa_usdt a) False True False])"

lemma all_steps_form:
  assumes "protocol_addresses c = Inr a" and "distinct (spenders a)"
  shows "all_approval_steps c None = Inr (track_steps a False @ track_steps a True)"
  using assms(1) spender_facts [OF assms(2)]
  by (simp add: spenders_def all_approval_steps_def all_scopes_def approval_steps_def track_steps_def Let_def make_step_id
      exchange_address_def conditional_tokens_def neg_adapter_def)

lemma scope_steps:
  assumes "protocol_addresses c = Inr a" and "approval_steps c s = Inr ss"
  shows "set ss \<subseteq> set (track_steps a (as_is_yield_bearing s))"
  using assms
  by (cases "as_operation s"; cases "as_is_neg_risk s")
    (auto simp: approval_steps_def track_steps_def Let_def split: if_splits)

text \<open>
  The approvals of an account are complete and not repeated: on both supported chains the list
  of all approval steps has pairwise different ids and holds every step that any operation on any
  kind of market and either side requires.
\<close>

theorem all_approval_steps_complete:
  assumes "c = bnb_mainnet \<or> c = bnb_testnet"
  shows "\<exists>steps. all_approval_steps c None = Inr steps \<and> distinct (map ap_id steps) \<and>
    (\<forall>scope ss x. approval_steps c scope = Inr ss \<and> x \<in> set ss \<longrightarrow> x \<in> set steps)"
proof -
  obtain a where a: "protocol_addresses c = Inr a" "distinct (spenders a)"
    using spenders_distinct [OF assms] by blast
  let ?steps = "track_steps a False @ track_steps a True"
  have "distinct (map ap_id ?steps)"
    using spender_facts [OF a(2)]
    by (simp add: spenders_def track_steps_def Let_def make_step_id exchange_address_def
        conditional_tokens_def neg_adapter_def)
  moreover have "x \<in> set ?steps" if "approval_steps c scope = Inr ss" "x \<in> set ss" for scope ss x
    using scope_steps [OF a(1) that(1)] that(2) by (cases "as_is_yield_bearing scope") auto
  ultimately show ?thesis
    using all_steps_form [OF a] by blast
qed

theorem all_approval_steps_complete_witness:
  "\<exists>steps. all_approval_steps bnb_mainnet None = Inr steps \<and> distinct (map ap_id steps)"
  using all_approval_steps_complete [of bnb_mainnet] by blast

definition sample_call :: unsigned_transaction where
  "sample_call = \<lparr>ut_to = \<lparr>evm_bytes = replicate 20 2\<rparr>, ut_data = ''0xab'', ut_value = uint256_zero\<rparr>"

definition sample_route :: route_options where
  "sample_route = \<lparr>ru_route = route_predict_account, ru_predict_account = Some \<lparr>evm_bytes = replicate 20 1\<rparr>\<rparr>"

definition zero_keccak :: keccak where
  "zero_keccak bs = Inr zero_word"

theorem route_transaction_keeps_call_witness:
  "\<exists>tx' h d. route_transaction zero_keccak sample_call sample_route = Inr tx' \<and>
     decode_hex (ut_data tx') = Inr (take 4 h @ d) \<and> take 20 (drop 96 d) = replicate 20 2"
proof -
  have zero: "uint256_wf uint256_zero" and inner: "decode_hex ''0xab'' = Inr [0xab]"
    and account: "\<not> evm_empty \<lparr>evm_bytes = replicate 20 1\<rparr>"
    by code_simp+
  have "is_ok (route_transaction zero_keccak sample_call sample_route)"
    using word_uint_wf [OF zero] account inner
    by (simp add: route_transaction_def sample_call_def sample_route_def
        encode_call_with_bytes_def zero_keccak_def word_uint_def [of "\<lparr>u256_text = _\<rparr>"] Let_def)
  then obtain tx' where tx': "route_transaction zero_keccak sample_call sample_route = Inr tx'"
    by (auto simp: is_ok_iff)
  have "evm_wf (ut_to sample_call)" "uint256_wf (ut_value sample_call)"
    "ru_route sample_route = route_predict_account" "evm_bytes (ut_to sample_call) = replicate 20 2"
    using zero by (simp_all add: sample_call_def evm_wf_def sample_route_def)
  then show ?thesis
    using route_transaction_keeps_call [OF tx'] tx' by metis
qed

end
