(* ===== verification/Order_Amounts.thy ===== *)
theory Order_Amounts
  imports Order_Types
begin

text \<open>
  Order amounts (\<^verbatim>\<open>src/order_amounts.cpp\<close>): truncation to significant digits, the walk over an
  order book, and the maker and taker amounts of limit and market orders. The arbitrary precision
  \<^verbatim>\<open>cpp_int\<close> is \<open>int\<close>; every division of the code has a non-negative dividend and a positive
  divisor, where the truncating division of \<^verbatim>\<open>cpp_int\<close> and \<open>div\<close> agree.
\<close>

section \<open>Data\<close>

record order_amounts =
  oa_last_price_wei :: uint256
  oa_price_per_share_wei :: uint256
  oa_maker_amount :: uint256
  oa_taker_amount :: uint256
  oa_amount :: uint256
  oa_slippage_bps :: uint256
  oa_is_min_amount_out :: bool

record order_depth_level =
  dl_price_wei :: uint256
  dl_quantity_wei :: uint256

record order_depth =
  od_asks :: "order_depth_level list"
  od_bids :: "order_depth_level list"

record limit_amounts_input =
  la_side :: contract_side
  la_price_per_share_wei :: uint256
  la_quantity_wei :: uint256

record market_quantity_input =
  mq_side :: contract_side
  mq_quantity_wei :: uint256
  mq_slippage_bps :: uint256
  mq_is_min_amount_out :: bool

record market_value_input =
  mv_value_wei :: uint256
  mv_slippage_bps :: uint256
  mv_is_min_amount_out :: bool

record processed_book =
  pb_quantity :: int
  pb_weighted_price :: int
  pb_last_price :: int

section \<open>Operations\<close>

definition precision :: int where "precision = 1000000000 * 1000000000"

definition minimum_quantity :: int where "minimum_quantity = 10000000000000000"

definition minimum_value :: int where "minimum_value = precision"

definition basis_points :: int where "basis_points = 10000"

definition protocol_decimals :: nat where "protocol_decimals = 18"

fun integer_loop :: "int \<Rightarrow> string \<Rightarrow> int result" where
  "integer_loop acc [] = Inr acc"
| "integer_loop acc (ch # s) =
     (if \<not> is_digit ch then Inl (mk_error invalid_field ''invalid uint256'' '''')
      else integer_loop (acc * 10 + int (digit_value ch)) s)"

definition integer :: "uint256 \<Rightarrow> int result" where
  "integer value = integer_loop 0 (u256_text value)"

definition to_uint256 :: "int \<Rightarrow> uint256 result" where
  "to_uint256 value =
     (if value < 0 then Inl (mk_error numeric_overflow ''negative uint256'' '''')
      else uint256_parse (to_string (nat value)))"

definition truncate_significant :: "int \<Rightarrow> nat \<Rightarrow> int" where
  "truncate_significant value digits =
     (if value = 0 then value
      else let text = to_string (nat value) in
        if length text \<le> digits then value
        else let divisor = 10 ^ (length text - digits) in (value div divisor) * divisor)"

definition level_prices :: "order_depth_level \<Rightarrow> (int \<times> int) result" where
  "level_prices level =
     bind_res (integer (dl_price_wei level)) (\<lambda>price.
       bind_res (integer (dl_quantity_wei level)) (\<lambda>quantity. Inr (price, quantity)))"

fun process_levels :: "order_depth_level list \<Rightarrow> int \<Rightarrow> processed_book \<Rightarrow> processed_book result" where
  "process_levels [] requested b = Inr b"
| "process_levels (level # levels) requested b =
     (case level_prices level of
        Inl e \<Rightarrow> Inl e
      | Inr (price, quantity) \<Rightarrow>
          if price \<le> 0 \<or> price > precision \<or> quantity \<le> 0
          then Inl (mk_error invalid_orderbook
                 ''order book level must have price in (0,1] and positive quantity'' '''')
          else let remaining = requested - pb_quantity b in
            if remaining \<le> 0 then Inr b
            else let consumed = (if remaining < quantity then remaining else quantity) in
              process_levels levels requested
                \<lparr>pb_quantity = pb_quantity b + consumed,
                 pb_weighted_price = pb_weighted_price b + price * consumed,
                 pb_last_price = price\<rparr>)"

definition process_book :: "order_depth_level list \<Rightarrow> int \<Rightarrow> processed_book result" where
  "process_book levels requested =
     (case process_levels levels requested \<lparr>pb_quantity = 0, pb_weighted_price = 0, pb_last_price = 0\<rparr> of
        Inl e \<Rightarrow> Inl e
      | Inr b \<Rightarrow>
          if pb_quantity b < requested
          then Inl (mk_error invalid_orderbook ''order book does not contain the requested liquidity'' '''')
          else Inr b)"

text \<open>The maker and taker amounts of the three branches of \<open>market_quantity\<close>.\<close>

definition market_sides :: "contract_side \<Rightarrow> bool \<Rightarrow> int \<Rightarrow> int \<Rightarrow> processed_book \<Rightarrow> int \<times> int" where
  "market_sides side min_out slippage quantity b =
     (if side = side_buy \<and> min_out then
        let maker = pb_weighted_price b div precision;
            signed_shares = (if pb_last_price b > 0 then pb_weighted_price b div pb_last_price b else 0);
            taker = (if slippage > basis_points then 0
                     else (signed_shares * (basis_points - slippage)) div basis_points)
        in (maker, taker)
      else if side = side_buy then
        let base = (pb_last_price b * quantity) div precision;
            maker = (if slippage > 0 then
                       let inflated = (base * (basis_points + slippage)) div basis_points in
                       if inflated < quantity then inflated else quantity
                     else base)
        in (maker, quantity)
      else
        let base = (pb_last_price b * quantity) div precision;
            taker = (if slippage > basis_points then 0
                     else (base * (basis_points - slippage)) div basis_points)
        in (quantity, taker))"

definition market_quantity :: "market_quantity_input \<Rightarrow> order_depth \<Rightarrow> order_amounts result" where
  "market_quantity input book =
     bind_res (integer (mq_quantity_wei input)) (\<lambda>raw_quantity.
     bind_res (integer (mq_slippage_bps input)) (\<lambda>slippage.
       let quantity = truncate_significant raw_quantity 5 in
       if quantity < minimum_quantity
       then Inl (mk_error invalid_quantity ''order quantity is below the protocol minimum'' ''quantity'')
       else if mq_side input \<noteq> side_buy \<and> mq_side input \<noteq> side_sell
       then Inl (mk_error invalid_argument ''order side is unknown'' ''side'')
       else
         bind_res (process_book (if mq_side input = side_buy then od_asks book else od_bids book) quantity)
           (\<lambda>b.
         case market_sides (mq_side input) (mq_is_min_amount_out input) slippage quantity b of
           (maker, taker) \<Rightarrow>
             bind_res (to_uint256 (pb_last_price b)) (\<lambda>last.
             bind_res (to_uint256 (pb_weighted_price b div quantity)) (\<lambda>avg.
             bind_res (to_uint256 maker) (\<lambda>maker_u.
             bind_res (to_uint256 taker) (\<lambda>taker_u.
             bind_res (to_uint256 quantity) (\<lambda>amount.
               Inr \<lparr>oa_last_price_wei = last, oa_price_per_share_wei = avg, oa_maker_amount = maker_u,
                    oa_taker_amount = taker_u, oa_amount = amount, oa_slippage_bps = mq_slippage_bps input,
                    oa_is_min_amount_out = mq_is_min_amount_out input\<rparr>)))))))) "

definition decimal_to_wei :: "string \<Rightarrow> uint256 result" where
  "decimal_to_wei decimal =
     (if decimal = [] \<or> hd decimal = CHR ''-'' \<or> hd decimal = CHR ''+''
      then Inl (mk_error invalid_decimal ''expected an unsigned plain decimal'' '''')
      else
        let point = (CHR ''.'' \<in> set decimal);
            whole = takeWhile (\<lambda>c. c \<noteq> CHR ''.'') decimal;
            fraction = drop (Suc (length whole)) decimal
        in if point \<and> CHR ''.'' \<in> set fraction
           then Inl (mk_error invalid_decimal ''decimal contains more than one point'' '''')
           else if whole = [] \<or> length fraction > protocol_decimals \<or> point \<and> fraction = []
           then Inl (mk_error unsupported_precision ''decimal cannot be represented with 18 places'' '''')
           else if \<not> list_all is_digit whole \<or> \<not> list_all is_digit fraction
           then Inl (mk_error invalid_decimal ''decimal must use plain base-10 notation'' '''')
           else
             let digits = whole @ fraction @ replicate (protocol_decimals - length fraction) (CHR ''0'');
                 stripped = dropWhile (\<lambda>c. c = CHR ''0'') digits
             in uint256_parse (if stripped = [] then ''0'' else stripped))"

definition retain_significant_digits :: "uint256 \<Rightarrow> nat \<Rightarrow> uint256 result" where
  "retain_significant_digits value digits =
     (if digits = 0
      then Inl (mk_error invalid_argument ''significant digit count must be positive'' ''digits'')
      else bind_res (integer value) (\<lambda>parsed. to_uint256 (truncate_significant parsed digits)))"

definition limit_amounts :: "limit_amounts_input \<Rightarrow> order_amounts result" where
  "limit_amounts input =
     (if la_side input \<noteq> side_buy \<and> la_side input \<noteq> side_sell
      then Inl (mk_error invalid_argument ''order side is unknown'' ''side'')
      else
        bind_res (integer (la_price_per_share_wei input)) (\<lambda>raw_price.
        bind_res (integer (la_quantity_wei input)) (\<lambda>raw_quantity.
          let price = truncate_significant raw_price 3;
              quantity = truncate_significant raw_quantity 5
          in if quantity < minimum_quantity
             then Inl (mk_error invalid_quantity ''order quantity is below the protocol minimum'' ''quantity'')
             else if price \<le> 0
             then Inl (mk_error invalid_price ''price must be greater than zero'' ''price'')
             else
               let collateral = (price * quantity) div precision;
                   maker = (if la_side input = side_buy then collateral else quantity);
                   taker = (if la_side input = side_buy then quantity else collateral)
               in case (to_uint256 price, to_uint256 quantity, to_uint256 maker, to_uint256 taker,
                        uint256_parse ''0'') of
                 (Inr price_u, Inr quantity_u, Inr maker_u, Inr taker_u, Inr zero) \<Rightarrow>
                   Inr \<lparr>oa_last_price_wei = price_u, oa_price_per_share_wei = price_u,
                        oa_maker_amount = maker_u, oa_taker_amount = taker_u, oa_amount = quantity_u,
                        oa_slippage_bps = zero, oa_is_min_amount_out = False\<rparr>
               | _ \<Rightarrow> Inl (mk_error numeric_overflow ''order amount exceeds uint256'' ''''))))"

definition market_amounts :: "market_quantity_input \<Rightarrow> order_depth \<Rightarrow> order_amounts result" where
  "market_amounts input book = market_quantity input book"

text \<open>The loop of the by-value overload: the shares bought and the collateral spent.\<close>

fun value_levels :: "order_depth_level list \<Rightarrow> int \<Rightarrow> int \<Rightarrow> int \<Rightarrow> (int \<times> int) result" where
  "value_levels [] value shares spent = Inr (shares, spent)"
| "value_levels (level # levels) value shares spent =
     (case level_prices level of
        Inl e \<Rightarrow> Inl e
      | Inr (price, quantity) \<Rightarrow>
          if price \<le> 0 \<or> price > precision \<or> quantity \<le> 0
          then Inl (mk_error invalid_orderbook ''invalid ask level'' '''')
          else let remaining = value - spent in
            if remaining \<le> 0 then Inr (shares, spent)
            else let level_cost = (price * quantity) div precision in
              if level_cost \<le> remaining
              then value_levels levels value (shares + quantity) (spent + level_cost)
              else let partial = (remaining * precision) div price in
                value_levels levels value (shares + partial) (spent + (price * partial) div precision))"

definition market_amounts_by_value :: "market_value_input \<Rightarrow> order_depth \<Rightarrow> order_amounts result" where
  "market_amounts_by_value input book =
     bind_res (integer (mv_value_wei input)) (\<lambda>value.
       if value < minimum_value
       then Inl (mk_error invalid_quantity ''market buy value is below one collateral token'' ''value'')
       else
         bind_res (value_levels (od_asks book) value 0 0) (\<lambda>(shares, spent).
           if shares \<le> 0
           then Inl (mk_error invalid_orderbook ''order book has no buyable liquidity'' '''')
           else
             bind_res (to_uint256 (truncate_significant shares 5)) (\<lambda>quantity.
               market_quantity \<lparr>mq_side = side_buy, mq_quantity_wei = quantity,
                 mq_slippage_bps = mv_slippage_bps input,
                 mq_is_min_amount_out = mv_is_min_amount_out input\<rparr> book)))"

section \<open>Conversions\<close>

lemma integer_loop_digits:
  "list_all is_digit s \<Longrightarrow> integer_loop acc s = Inr (acc * 10 ^ length s + int (digits_value s))"
  by (induction s arbitrary: acc) (auto simp: digits_value_Cons algebra_simps)

lemma integer_wf [simp]: "uint256_wf u \<Longrightarrow> integer u = Inr (int (uint256_value u))"
  using integer_loop_digits [of "u256_text u" 0] list_all_to_string [of "uint256_value u"]
  by (auto simp: integer_def uint256_wf_def uint256_value_def)

lemma to_uint256_iff:
  "to_uint256 v = Inr u \<longleftrightarrow> 0 \<le> v \<and> v < 2 ^ 256 \<and> uint256_wf u \<and> int (uint256_value u) = v"
  by (cases u) (auto simp: to_uint256_def uint256_parse_spec digits_text_def uint256_wf_def uint256_value_def nat_less_iff)

lemma to_uint256_ok: "0 \<le> v \<Longrightarrow> v < 2 ^ 256 \<Longrightarrow> \<exists>u. to_uint256 v = Inr u"
  by (auto simp: to_uint256_def uint256_parse_spec digits_text_def nat_less_iff)

lemma uint256_value_less: "uint256_wf u \<Longrightarrow> int (uint256_value u) < 2 ^ 256"
  by (metis of_nat_less_iff of_nat_numeral of_nat_power uint256_wf_def)

section \<open>Significant digits\<close>

text \<open>A number with at most \<open>d\<close> significant digits.\<close>

definition significant :: "nat \<Rightarrow> nat \<Rightarrow> bool" where
  "significant d x \<longleftrightarrow> (\<exists>m k. m < 10 ^ d \<and> x = m * 10 ^ k)"

lemma to_string_hd: "0 < n \<Longrightarrow> hd (to_string n) \<noteq> CHR ''0''"
proof (induction n rule: to_string.induct)
  case (1 n)
  show ?case
  proof (cases "n < 10")
    case True
    then have "digit_value (digit_char n) \<noteq> digit_value (CHR ''0'')"
      using 1(2) by simp
    then have "digit_char n \<noteq> CHR ''0''"
      by metis
    then show ?thesis
      using True by (subst to_string.simps) simp
  next
    case False
    then have "hd (to_string (n div 10)) \<noteq> CHR ''0''"
      using 1(1) by simp
    then show ?thesis
      using False by (subst to_string.simps) (simp add: hd_append)
  qed
qed

lemma to_string_bounds:
  assumes "0 < n"
  shows "10 ^ (length (to_string n) - 1) \<le> n" and "n < 10 ^ length (to_string n)"
  using length_to_string_le [of "to_string n"] digits_value_less [of "to_string n"] to_string_hd [OF assms]
  by simp_all

definition truncated :: "nat \<Rightarrow> nat \<Rightarrow> nat" where
  "truncated v d = (let l = length (to_string v) in
     if l \<le> d then v else v div 10 ^ (l - d) * 10 ^ (l - d))"

lemma truncate_significant_nat: "truncate_significant (int v) d = int (truncated v d)"
  by (auto simp: truncate_significant_def truncated_def Let_def zdiv_int)

lemma truncated_le: "truncated v d \<le> v"
  by (simp add: truncated_def Let_def)

lemma truncated_significant:
  assumes "0 < v" and "0 < d"
  shows "significant d (truncated v d)"
proof -
  let ?l = "length (to_string v)"
  have "significant d v" if "?l \<le> d"
  proof -
    have "v < 10 ^ d"
      using to_string_bounds(2) [OF assms(1)] power_increasing [OF that, of "10::nat"] by linarith
    then show ?thesis
      unfolding significant_def by (intro exI [of _ v] exI [of _ 0]) simp
  qed
  moreover have "v div 10 ^ (?l - d) < 10 ^ d" if "\<not> ?l \<le> d"
  proof -
    have "v < 10 ^ d * 10 ^ (?l - d)"
      using to_string_bounds(2) [OF assms(1)] that by (simp flip: power_add)
    then show ?thesis
      by (simp add: less_mult_imp_div_less)
  qed
  ultimately show ?thesis
    by (auto simp: truncated_def Let_def significant_def)
qed

lemma truncated_greatest:
  assumes "0 < d" and "significant d x" and "x \<le> v"
  shows "x \<le> truncated v d"
proof (cases "length (to_string v) \<le> d")
  case False
  define l where "l = length (to_string v)"
  define e where "e = l - d"
  have "to_string 0 = ''0''"
    by (subst to_string.simps) (simp add: digit_char_0)
  then have v: "0 < v"
    using False assms(1) by (cases v) auto
  have le: "e \<le> l - 1" "l - 1 = d - 1 + e"
    using assms(1) False by (auto simp: e_def l_def)
  have top: "10 ^ (l - 1) \<le> v div 10 ^ e * 10 ^ e"
  proof -
    have "10 ^ (d - 1) \<le> v div 10 ^ e"
      using to_string_bounds(1) [OF v] le(2) by (simp add: l_def [symmetric] power_add less_eq_div_iff_mult_less_eq)
    then show ?thesis
      unfolding le(2) power_add by (rule mult_le_mono1)
  qed
  obtain m k where mk: "m < 10 ^ d" "x = m * 10 ^ k"
    using assms(2) by (auto simp: significant_def)
  have "x \<le> v div 10 ^ e * 10 ^ e"
  proof (cases "k < e")
    case True
    have "x \<le> 10 ^ d * 10 ^ k"
      using mk by simp
    also have "\<dots> \<le> 10 ^ (l - 1)"
      using True le(2) assms(1) by (simp flip: power_add)
    finally show ?thesis
      using top by simp
  next
    case False
    then have "x = (m * 10 ^ (k - e)) * 10 ^ e"
      using mk(2) by (simp flip: power_add)
    then show ?thesis
      using assms(3) by (metis div_le_mono div_mult_self_is_m mult_le_mono1 zero_less_numeral zero_less_power)
  qed
  then show ?thesis
    using False by (simp add: truncated_def Let_def e_def l_def)
qed (use assms in \<open>simp add: truncated_def\<close>)

lemma truncated_zero [simp]: "truncated 0 d = 0"
  by (simp add: truncated_def Let_def)

lemma truncated_idem: "0 < d \<Longrightarrow> truncated (truncated v d) d = truncated v d"
  using truncated_greatest [of d "truncated v d" "truncated v d"] truncated_significant [of v d]
    truncated_le [of "truncated v d" d] by (cases "v = 0") auto

lemma truncated_error:
  assumes "0 < v" and "0 < d"
  shows "(v - truncated v d) * 10 ^ (d - 1) < v"
proof (cases "length (to_string v) \<le> d")
  case False
  define e where "e = length (to_string v) - d"
  have "v - truncated v d = v mod 10 ^ e"
    using False by (simp add: truncated_def Let_def e_def minus_div_mult_eq_mod)
  then have "(v - truncated v d) * 10 ^ (d - 1) < 10 ^ e * 10 ^ (d - 1)"
    by simp
  also have "\<dots> = 10 ^ (length (to_string v) - 1)"
    using False assms(2) by (simp add: e_def flip: power_add)
  also have "\<dots> \<le> v"
    by (rule to_string_bounds(1) [OF assms(1)])
  finally show ?thesis .
qed (use assms in \<open>simp add: truncated_def\<close>)

text \<open>
  Keeping \<open>d\<close> significant digits of a uint256 gives the greatest number with at most \<open>d\<close>
  significant digits that does not exceed it; the relative error is below \<open>10\<^sup>1\<^sup>-\<^sup>d\<close>, and repeating
  the operation changes nothing.
\<close>

theorem retain_significant_digits_greatest:
  assumes "uint256_wf u" and "0 < d"
  shows "\<exists>w. retain_significant_digits u d = Inr w \<and> uint256_wf w \<and> uint256_value w \<le> uint256_value u \<and>
    significant d (uint256_value w) \<and>
    (\<forall>x. significant d x \<and> x \<le> uint256_value u \<longrightarrow> x \<le> uint256_value w) \<and>
    (uint256_value u - uint256_value w) * 10 ^ (d - 1) \<le> uint256_value u \<and>
    retain_significant_digits w d = Inr w"
proof -
  let ?v = "uint256_value u"
  have "int (truncated ?v d) < 2 ^ 256"
    using uint256_value_less [OF assms(1)] truncated_le [of ?v d] by linarith
  then obtain w where w: "to_uint256 (int (truncated ?v d)) = Inr w"
    using to_uint256_ok [of "int (truncated ?v d)"] by auto
  then have ww: "uint256_wf w" "uint256_value w = truncated ?v d"
    by (simp_all add: to_uint256_iff)
  have "significant d 0"
    unfolding significant_def by (intro exI [of _ 0]) simp
  then have "significant d (truncated ?v d)"
    using truncated_significant [of ?v d] assms(2) by (cases "?v = 0") auto
  moreover have "(?v - truncated ?v d) * 10 ^ (d - 1) \<le> ?v"
    using truncated_error [of ?v d] assms(2) by (cases "?v = 0") auto
  ultimately show ?thesis
    using assms w ww truncated_greatest [OF assms(2), of _ ?v] truncated_le [of ?v d] truncated_idem [OF assms(2), of ?v]
    by (intro exI [of _ w]) (simp add: retain_significant_digits_def truncate_significant_nat)
qed

theorem retain_significant_digits_greatest_witness:
  "retain_significant_digits \<lparr>u256_text = ''123456789''\<rparr> 5 = Inr \<lparr>u256_text = ''123450000''\<rparr> \<and>
   retain_significant_digits \<lparr>u256_text = ''123450000''\<rparr> 5 = Inr \<lparr>u256_text = ''123450000''\<rparr>"
proof -
  have "uint256_wf \<lparr>u256_text = ''123456789''\<rparr>" and "0 < (5::nat)"
    and e: "retain_significant_digits \<lparr>u256_text = ''123456789''\<rparr> 5 = Inr \<lparr>u256_text = ''123450000''\<rparr>"
    by code_simp+
  then show ?thesis
    using retain_significant_digits_greatest [of "\<lparr>u256_text = ''123456789''\<rparr>" 5] by auto
qed

section \<open>Walking a book\<close>

text \<open>
  The reference: filling \<open>r\<close> shares from a list of \<open>(price, quantity)\<close> pairs in their order, the
  weighted price of the fill and the price of the last level used.
\<close>

fun walk_cost :: "int \<Rightarrow> (int \<times> int) list \<Rightarrow> int" where
  "walk_cost r [] = 0"
| "walk_cost r ((p, q) # ls) = p * min r q + walk_cost (r - min r q) ls"

fun walk_last :: "int \<Rightarrow> int \<Rightarrow> (int \<times> int) list \<Rightarrow> int" where
  "walk_last r d [] = d"
| "walk_last r d ((p, q) # ls) = (if r \<le> 0 then d else walk_last (r - min r q) p ls)"

definition liquidity :: "(int \<times> int) list \<Rightarrow> int" where
  "liquidity ls = sum_list (map snd ls)"

text \<open>An allocation takes at most the offered quantity from every level.\<close>

definition allocation :: "int list \<Rightarrow> (int \<times> int) list \<Rightarrow> bool" where
  "allocation cs ls \<longleftrightarrow> list_all2 (\<lambda>c l. 0 \<le> c \<and> c \<le> snd l) cs ls"

definition allocation_cost :: "int list \<Rightarrow> (int \<times> int) list \<Rightarrow> int" where
  "allocation_cost cs ls = sum_list (map2 (\<lambda>c l. fst l * c) cs ls)"

lemma liquidity_simps [simp]: "liquidity [] = 0" "liquidity (l # ls) = snd l + liquidity ls"
  by (simp_all add: liquidity_def)

lemma liquidity_nonneg: "\<forall>l\<in>set ls. 0 \<le> snd l \<Longrightarrow> 0 \<le> liquidity ls"
  by (induction ls) auto

lemma walk_cost_zero [simp]: "\<forall>l\<in>set ls. 0 \<le> snd l \<Longrightarrow> walk_cost 0 ls = 0"
  by (induction ls) (auto simp: min_def)

lemma walk_cost_add:
  "\<lbrakk>0 \<le> a; 0 \<le> b; a + b \<le> liquidity ls; \<forall>l\<in>set ls. p \<le> fst l \<and> 0 \<le> snd l\<rbrakk>
     \<Longrightarrow> walk_cost a ls + p * b \<le> walk_cost (a + b) ls"
proof (induction ls arbitrary: a b)
  case (Cons l ls)
  obtain p1 q1 where l: "l = (p1, q1)" by (cases l)
  have tail: "\<forall>l\<in>set ls. p \<le> fst l \<and> 0 \<le> snd l" "p \<le> p1" "0 \<le> q1"
    using Cons.prems(4) l by auto
  have zero: "walk_cost 0 ls = 0"
    using tail(1) by (intro walk_cost_zero) auto
  consider "a + b \<le> q1" | "a \<le> q1" "q1 < a + b" | "q1 < a"
    by linarith
  then show ?case
  proof cases
    case 1
    have "p * b \<le> p1 * b"
      using tail(2) Cons.prems(2) by (rule mult_right_mono)
    then show ?thesis
      using 1 Cons.prems(1,2) zero l by (simp add: min_def algebra_simps)
  next
    case 2
    have "walk_cost 0 ls + p * (a + b - q1) \<le> walk_cost (0 + (a + b - q1)) ls"
      using 2 Cons.prems(3) tail(1) l by (intro Cons.IH) auto
    moreover have "p * (q1 - a) \<le> p1 * (q1 - a)"
      using tail(2) 2(1) by (intro mult_right_mono) auto
    ultimately show ?thesis
      using 2 zero l by (simp add: min_def algebra_simps)
  next
    case 3
    have "walk_cost (a - q1) ls + p * b \<le> walk_cost (a - q1 + b) ls"
      using 3 Cons.prems tail(1) l by (intro Cons.IH) auto
    then show ?thesis
      using 3 Cons.prems(2) l by (simp add: min_def algebra_simps)
  qed
next
  case Nil
  then have "b = 0" by simp
  then show ?case by simp
qed

lemma allocation_le_liquidity: "allocation cs ls \<Longrightarrow> sum_list cs \<le> liquidity ls"
  unfolding allocation_def by (induction rule: list_all2_induct) auto

lemma allocation_nonneg: "allocation cs ls \<Longrightarrow> 0 \<le> sum_list cs"
  unfolding allocation_def by (induction rule: list_all2_induct) auto

text \<open>Walking a book in the order of increasing prices is the cheapest way to fill.\<close>

lemma walk_cost_minimal:
  "\<lbrakk>allocation cs ls; sorted (map fst ls); \<forall>l\<in>set ls. 0 \<le> snd l\<rbrakk>
     \<Longrightarrow> walk_cost (sum_list cs) ls \<le> allocation_cost cs ls"
proof (induction ls arbitrary: cs)
  case (Cons l ls)
  obtain p q where l: "l = (p, q)" by (cases l)
  obtain c cs' where cs: "cs = c # cs'" "0 \<le> c" "c \<le> q" "allocation cs' ls"
    using Cons.prems(1) l by (auto simp: allocation_def list_all2_Cons2)
  define r where "r = sum_list cs"
  define g where "g = min r q"
  have bounds: "c \<le> g" "0 \<le> r - g" "r - c \<le> liquidity ls" "sum_list cs' = r - c"
    using cs allocation_le_liquidity [OF cs(4)] allocation_nonneg [OF cs(4)] by (auto simp: r_def g_def)
  have "walk_cost (r - g) ls + p * (g - c) \<le> walk_cost (r - g + (g - c)) ls"
    using bounds Cons.prems(2,3) l by (intro walk_cost_add) auto
  also have "\<dots> \<le> allocation_cost cs' ls"
    using Cons.IH [OF cs(4)] Cons.prems(2,3) bounds(4) by simp
  finally have "walk_cost (r - g) ls + p * g \<le> p * c + allocation_cost cs' ls"
    by (simp add: algebra_simps)
  moreover have "walk_cost r (l # ls) = p * g + walk_cost (r - g) ls"
    by (simp add: l g_def)
  moreover have "allocation_cost cs (l # ls) = p * c + allocation_cost cs' ls"
    by (simp add: l cs(1) allocation_cost_def)
  ultimately show ?case
    by (simp add: r_def)
qed (simp add: allocation_def allocation_cost_def)

lemma walk_cost_negate:
  "walk_cost r (map (\<lambda>(p, q). (- p, q)) ls) = - walk_cost r ls"
  by (induction ls arbitrary: r) auto

lemma allocation_cost_negate:
  "allocation_cost cs (map (\<lambda>(p, q). (- p, q)) ls) = - allocation_cost cs ls"
proof (induction ls arbitrary: cs)
  case (Cons l ls)
  then show ?case
    by (cases cs; cases l) (auto simp: allocation_cost_def)
qed (simp add: allocation_cost_def)

text \<open>Walking it in the order of decreasing prices is the dearest, by reflection of the prices.\<close>

lemma walk_cost_maximal:
  assumes "allocation cs ls" and "sorted (rev (map fst ls))" and "\<forall>l\<in>set ls. 0 \<le> snd l"
  shows "allocation_cost cs ls \<le> walk_cost (sum_list cs) ls"
proof -
  let ?neg = "map (\<lambda>(p, q). (- p, q)) ls"
  have "allocation cs ?neg"
    using assms(1) by (auto simp: allocation_def list_all2_map2 case_prod_unfold)
  moreover have "sorted (map fst ?neg)"
    using assms(2) by (simp add: sorted_wrt_rev sorted_wrt_map comp_def case_prod_unfold)
  moreover have "\<forall>l\<in>set ?neg. 0 \<le> snd l"
    using assms(3) by auto
  ultimately show ?thesis
    using walk_cost_minimal [of cs ?neg] by (simp add: walk_cost_negate allocation_cost_negate)
qed

lemma walk_cost_le_last:
  assumes "sorted (map fst ls)" and "\<forall>l\<in>set ls. 0 < snd l" and "0 \<le> r" and "r \<le> liquidity ls"
    and "\<forall>l\<in>set ls. d \<le> fst l"
  shows "walk_cost r ls \<le> walk_last r d ls * r \<and> d \<le> walk_last r d ls"
  using assms
proof (induction ls arbitrary: r d)
  case (Cons l ls)
  obtain p q where l: "l = (p, q)" by (cases l)
  show ?case
  proof (cases "r = 0")
    case False
    define g where "g = min r q"
    have g: "0 < g" "0 \<le> r - g" "r - g \<le> liquidity ls"
      using Cons.prems False l liquidity_nonneg [of ls] by (force simp: g_def min_def)+
    have ih: "walk_cost (r - g) ls \<le> walk_last (r - g) p ls * (r - g)" "p \<le> walk_last (r - g) p ls"
      using Cons.IH [of "r - g" p] Cons.prems(1,2) g l by auto
    then have "p * g \<le> walk_last (r - g) p ls * g"
      using g(1) by (intro mult_right_mono) auto
    then show ?thesis
      using ih False Cons.prems(3,5) l by (auto simp: g_def [symmetric] algebra_simps)
  next
    case True
    have "walk_cost 0 (l # ls) = 0"
      using Cons.prems(2) by (intro walk_cost_zero) force
    then show ?thesis
      using True l by simp
  qed
qed simp

lemma walk_cost_ge_last:
  assumes "sorted (rev (map fst ls))" and "\<forall>l\<in>set ls. 0 < snd l" and "0 \<le> r" and "r \<le> liquidity ls"
    and "\<forall>l\<in>set ls. fst l \<le> d"
  shows "walk_last r d ls * r \<le> walk_cost r ls"
proof -
  let ?neg = "map (\<lambda>(p, q). (- p, q)) ls"
  have "walk_last r (- d) ?neg = - walk_last r d ls" for r d
    by (induction ls arbitrary: r d) auto
  moreover have "liquidity ?neg = liquidity ls"
    by (induction ls) auto
  moreover have "sorted (map fst ?neg)"
    using assms(1) by (simp add: sorted_wrt_rev sorted_wrt_map comp_def case_prod_unfold)
  ultimately show ?thesis
    using walk_cost_le_last [of ?neg r "- d"] assms(2-5) by (fastforce simp: walk_cost_negate)
qed

lemma walk_last_member:
  "\<lbrakk>0 < r; r \<le> liquidity ls\<rbrakk> \<Longrightarrow> walk_last r d ls \<in> fst ` set ls"
proof (induction ls arbitrary: r d)
  case (Cons l ls)
  then show ?case
    by (cases l; cases "r - min r (snd l) = 0"; cases ls) (force simp: min_def split: if_splits)+
qed simp

lemma walk_last_default: "0 < r \<Longrightarrow> ls \<noteq> [] \<Longrightarrow> walk_last r d ls = walk_last r d' ls"
  by (cases ls) auto

section \<open>The loops of the code\<close>

definition level_wf :: "order_depth_level \<Rightarrow> bool" where
  "level_wf l \<longleftrightarrow> uint256_wf (dl_price_wei l) \<and> uint256_wf (dl_quantity_wei l)"

definition level_values :: "order_depth_level \<Rightarrow> int \<times> int" where
  "level_values l = (int (uint256_value (dl_price_wei l)), int (uint256_value (dl_quantity_wei l)))"

definition level_valid :: "int \<times> int \<Rightarrow> bool" where
  "level_valid l \<longleftrightarrow> 0 < fst l \<and> fst l \<le> precision \<and> 0 < snd l"

lemma level_prices_wf: "level_wf l \<Longrightarrow> level_prices l = Inr (level_values l)"
  by (simp add: level_prices_def level_wf_def level_values_def)

lemma level_values_nonneg: "0 \<le> fst (level_values l) \<and> 0 \<le> snd (level_values l)"
  by (simp add: level_values_def)

lemma liquidity_values: "0 \<le> liquidity (map level_values ls)"
  by (intro liquidity_nonneg) (auto simp: level_values_nonneg)

lemma walk_cost_values [simp]: "walk_cost 0 (map level_values ls) = 0"
  by (intro walk_cost_zero) (auto simp: level_values_nonneg)

lemma walk_last_zero [simp]: "walk_last 0 d ls = d"
  by (cases ls) auto

lemma process_levels_spec:
  assumes "process_levels ls requested b = Inr b'" and "\<forall>l\<in>set ls. level_wf l" and "pb_quantity b \<le> requested"
  shows "let r = requested - pb_quantity b; vs = map level_values ls in
    pb_quantity b' = pb_quantity b + min r (liquidity vs) \<and>
    (pb_quantity b' = requested \<longrightarrow>
       pb_weighted_price b' = pb_weighted_price b + walk_cost r vs \<and>
       pb_last_price b' = walk_last r (pb_last_price b) vs \<and>
       (0 < r \<longrightarrow> level_valid (pb_last_price b', 1)))"
  using assms
proof (induction ls arbitrary: b)
  case (Cons l ls)
  obtain p q where v: "level_values l = (p, q)"
    by fastforce
  have wf: "level_prices l = Inr (p, q)" "\<forall>l\<in>set ls. level_wf l"
    using Cons.prems(2) by (simp_all add: level_prices_wf v)
  have valid: "0 < p" "p \<le> precision" "0 < q"
    using Cons.prems(1) wf by (auto split: if_splits)
  define r where "r = requested - pb_quantity b"
  show ?case
  proof (cases "r \<le> 0")
    case True
    then have "b' = b" "r = 0"
      using Cons.prems(1,3) wf valid by (auto simp: Let_def r_def)
    then show ?thesis
      using liquidity_values [of "l # ls"] walk_cost_values [of "l # ls"] by (simp add: Let_def flip: r_def)
  next
    case False
    define g where "g = min r q"
    define b1 where "b1 = \<lparr>pb_quantity = pb_quantity b + g,
                 pb_weighted_price = pb_weighted_price b + p * g, pb_last_price = p\<rparr>"
    have step: "process_levels ls requested b1 = Inr b'"
      using Cons.prems(1) wf valid False by (auto simp: Let_def r_def g_def b1_def min_def split: if_splits)
    have rg: "pb_quantity b1 \<le> requested" "requested - pb_quantity b1 = r - g"
      by (auto simp: b1_def r_def g_def)
    define vs where "vs = map level_values ls"
    have ih: "pb_quantity b' = pb_quantity b + (g + min (r - g) (liquidity vs))"
      "pb_quantity b' = requested \<Longrightarrow> pb_weighted_price b' = pb_weighted_price b + (p * g + walk_cost (r - g) vs)"
      "pb_quantity b' = requested \<Longrightarrow> pb_last_price b' = walk_last (r - g) p vs"
      "pb_quantity b' = requested \<Longrightarrow> 0 < r - g \<Longrightarrow> level_valid (pb_last_price b', 1)"
      using Cons.IH [OF step wf(2) rg(1)] unfolding Let_def rg(2) vs_def [symmetric] by (auto simp: b1_def)
    have "level_valid (pb_last_price b', 1)" if full: "pb_quantity b' = requested"
    proof (cases "0 < r - g")
      case False
      then have "r - g = 0"
        by (simp add: g_def)
      then show ?thesis
        using ih(3) [OF full] valid by (simp add: level_valid_def)
    qed (rule ih(4) [OF full])
    moreover have "min r (q + liquidity vs) = g + min (r - g) (liquidity vs)"
      using liquidity_values [of ls] by (auto simp: g_def vs_def)
    ultimately show ?thesis
      using ih False v unfolding Let_def r_def [symmetric]
      by (simp add: g_def [symmetric] vs_def [symmetric])
  qed
qed (auto simp: Let_def)

lemma process_book_spec:
  assumes "process_book ls r = Inr b" and "\<forall>l\<in>set ls. level_wf l" and "0 < r"
  defines "vs \<equiv> map level_values ls"
  shows "pb_quantity b = r \<and> pb_weighted_price b = walk_cost r vs \<and> pb_last_price b = walk_last r 0 vs \<and>
    0 < pb_last_price b \<and> pb_last_price b \<le> precision \<and> r \<le> liquidity vs"
proof -
  let ?zero = "\<lparr>pb_quantity = 0, pb_weighted_price = 0, pb_last_price = 0 :: int\<rparr>"
  have run: "process_levels ls r ?zero = Inr b" and enough: "r \<le> pb_quantity b"
    using assms(1) by (auto simp: process_book_def split: sum.splits if_splits)
  then have "pb_quantity b = min r (liquidity vs)"
    "pb_quantity b = r \<longrightarrow> pb_weighted_price b = walk_cost r vs \<and> pb_last_price b = walk_last r 0 vs \<and>
       level_valid (pb_last_price b, 1)"
    using process_levels_spec [OF run assms(2)] assms(3) by (auto simp: Let_def vs_def)
  then show ?thesis
    using enough by (auto simp: level_valid_def)
qed

lemma process_levels_ok:
  "\<lbrakk>\<forall>l\<in>set ls. level_wf l \<and> level_valid (level_values l)\<rbrakk> \<Longrightarrow> \<exists>b'. process_levels ls r b = Inr b'"
proof (induction ls arbitrary: b)
  case (Cons l ls)
  then show ?case
    by (cases "level_values l") (auto simp: level_prices_wf level_valid_def Let_def)
qed simp

lemma process_book_ok:
  assumes "\<forall>l\<in>set ls. level_wf l \<and> level_valid (level_values l)" and "0 < r"
    and "r \<le> liquidity (map level_values ls)"
  shows "\<exists>b. process_book ls r = Inr b"
proof -
  let ?zero = "\<lparr>pb_quantity = 0, pb_weighted_price = 0, pb_last_price = 0 :: int\<rparr>"
  obtain b where b: "process_levels ls r ?zero = Inr b"
    using process_levels_ok [OF assms(1)] by blast
  then have "pb_quantity b = min r (liquidity (map level_values ls))"
    using process_levels_spec [OF b] assms by (auto simp: Let_def)
  then show ?thesis
    using b assms(3) by (simp add: process_book_def)
qed

text \<open>
  C36. The walk over a well-formed book side that holds the requested shares succeeds, fills exactly
  the request, and is optimal: on asks in increasing price order no allocation of the same
  shares to the levels costs less, and on bids in decreasing price order none earns more.
\<close>

theorem process_book_optimal:
  assumes "\<forall>l\<in>set ls. level_wf l \<and> level_valid (level_values l)" and "0 < r"
    and "r \<le> liquidity (map level_values ls)"
  shows "\<exists>b. process_book ls r = Inr b \<and> pb_quantity b = r \<and>
    (sorted (map fst (map level_values ls)) \<longrightarrow>
      (\<forall>cs. allocation cs (map level_values ls) \<and> sum_list cs = r \<longrightarrow>
         pb_weighted_price b \<le> allocation_cost cs (map level_values ls))) \<and>
    (sorted (rev (map fst (map level_values ls))) \<longrightarrow>
      (\<forall>cs. allocation cs (map level_values ls) \<and> sum_list cs = r \<longrightarrow>
         allocation_cost cs (map level_values ls) \<le> pb_weighted_price b))"
proof -
  let ?vs = "map level_values ls"
  obtain b where b: "process_book ls r = Inr b"
    using process_book_ok [OF assms] by blast
  have nonneg: "\<forall>l\<in>set ?vs. 0 \<le> snd l"
    by (auto simp: level_values_nonneg)
  have "pb_quantity b = r" "pb_weighted_price b = walk_cost r ?vs"
    using process_book_spec [OF b _ assms(2)] assms(1) by auto
  then show ?thesis
    using b walk_cost_minimal [OF _ _ nonneg] walk_cost_maximal [OF _ _ nonneg]
    by (intro exI [of _ b]) (metis (no_types))
qed

definition sample_level :: "string \<Rightarrow> string \<Rightarrow> order_depth_level" where
  "sample_level p q = \<lparr>dl_price_wei = \<lparr>u256_text = p\<rparr>, dl_quantity_wei = \<lparr>u256_text = q\<rparr>\<rparr>"

definition sample_asks :: "order_depth_level list" where
  "sample_asks = [sample_level ''400000000000000000'' ''1000000000000000000'',
                  sample_level ''500000000000000000'' ''3000000000000000000'']"

lemma uint256_wf_text:
  assumes "list_all is_digit s" and "s \<noteq> []" and "hd s \<noteq> CHR ''0''" and "length s \<le> 77"
  shows "uint256_wf \<lparr>u256_text = s\<rparr>"
proof -
  have "digits_value s < 10 ^ 77"
    using digits_value_less [OF assms(1)] power_increasing [OF assms(4), of "10 :: nat"] by simp
  then show ?thesis
    using assms to_string_digits_value [of s] by (simp add: uint256_wf_def uint256_value_def)
qed

lemma sample_level_values:
  "level_values (sample_level p q) = (int (digits_value p), int (digits_value q))"
  by (simp add: level_values_def sample_level_def uint256_value_def)

lemma sample_asks_values:
  "map level_values sample_asks = [(400000000000000000, 1000000000000000000), (500000000000000000, 3000000000000000000)]"
  by (simp add: sample_asks_def sample_level_values digits_value_def digit_value_def)

lemma sample_asks_valid:
  "list_all (\<lambda>l. level_wf l \<and> level_valid (level_values l)) sample_asks"
  "2000000000000000000 \<le> liquidity (map level_values sample_asks)"
  "sorted (map fst (map level_values sample_asks))"
proof -
  have "list_all level_wf sample_asks"
    by (simp add: sample_asks_def sample_level_def level_wf_def uint256_wf_text is_digit_def)
  moreover have "list_all level_valid (map level_values sample_asks)"
    unfolding sample_asks_values by (simp add: level_valid_def precision_def)
  ultimately show "list_all (\<lambda>l. level_wf l \<and> level_valid (level_values l)) sample_asks"
    by (simp add: list_all_iff)
qed (simp_all only: sample_asks_values, simp_all)

theorem process_book_optimal_witness:
  "\<exists>b. process_book sample_asks 2000000000000000000 = Inr b \<and> pb_quantity b = 2000000000000000000 \<and>
     pb_weighted_price b \<le> allocation_cost [0, 2000000000000000000] (map level_values sample_asks)"
proof -
  have a: "allocation [0, 2000000000000000000] (map level_values sample_asks)"
    unfolding sample_asks_values by (simp add: allocation_def)
  have s: "sum_list [0, 2000000000000000000] = (2000000000000000000 :: int)"
    and pos: "0 < (2000000000000000000 :: int)"
    by simp_all
  have "\<forall>l\<in>set sample_asks. level_wf l \<and> level_valid (level_values l)"
    using sample_asks_valid(1) by (simp add: list_all_iff)
  from process_book_optimal [OF this pos sample_asks_valid(2)] sample_asks_valid(3) a s show ?thesis
    by blast
qed

section \<open>Limit orders\<close>

abbreviation u_int :: "uint256 \<Rightarrow> int" where
  "u_int u \<equiv> int (uint256_value u)"

definition amounts_wf :: "order_amounts \<Rightarrow> bool" where
  "amounts_wf a \<longleftrightarrow> uint256_wf (oa_last_price_wei a) \<and> uint256_wf (oa_price_per_share_wei a) \<and>
     uint256_wf (oa_maker_amount a) \<and> uint256_wf (oa_taker_amount a) \<and> uint256_wf (oa_amount a)"

text \<open>The collateral amount of an order: what a buyer gives and a seller receives.\<close>

definition collateral_of :: "contract_side \<Rightarrow> order_amounts \<Rightarrow> int" where
  "collateral_of side a = u_int (if side = side_buy then oa_maker_amount a else oa_taker_amount a)"

definition shares_of :: "contract_side \<Rightarrow> order_amounts \<Rightarrow> int" where
  "shares_of side a = u_int (if side = side_buy then oa_taker_amount a else oa_maker_amount a)"

lemma precision_pos [simp]: "0 < precision"
  by (simp add: precision_def)

lemma div_bounds:
  assumes "0 < (c :: int)"
  shows "a div c * c \<le> a" and "a < (a div c + 1) * c" and "a div c < b \<longleftrightarrow> a < b * c"
proof -
  have eq: "a div c * c + a mod c = a" and range: "0 \<le> a mod c" "a mod c < c"
    using assms by simp_all
  show le: "a div c * c \<le> a" and less: "a < (a div c + 1) * c"
    using eq range by (simp_all only: distrib_right)
  show "a div c < b \<longleftrightarrow> a < b * c"
  proof
    assume "a div c < b"
    then have "(a div c + 1) * c \<le> b * c"
      using assms by (intro mult_right_mono) auto
    then show "a < b * c"
      using less by simp
  next
    assume "a < b * c"
    then have "a div c * c < b * c"
      using le by simp
    then show "a div c < b"
      using assms by simp
  qed
qed

lemma truncated_int_le: "int (truncated v d) \<le> int v"
  by (simp add: truncated_le)

lemma limit_amounts_spec:
  assumes "uint256_wf (la_price_per_share_wei i)" and "uint256_wf (la_quantity_wei i)"
    and "la_side i \<noteq> side_unknown"
  defines "p \<equiv> int (truncated (uint256_value (la_price_per_share_wei i)) 3)"
    and "q \<equiv> int (truncated (uint256_value (la_quantity_wei i)) 5)"
  shows "(\<exists>a. limit_amounts i = Inr a) = (minimum_quantity \<le> q \<and> 0 < p \<and> p * q < 2 ^ 256 * precision) \<and>
    (\<forall>a. limit_amounts i = Inr a \<longrightarrow> amounts_wf a \<and> u_int (oa_amount a) = q \<and>
       u_int (oa_price_per_share_wei a) = p \<and> shares_of (la_side i) a = q \<and>
       collateral_of (la_side i) a * precision \<le> p * q \<and>
       p * q < (collateral_of (la_side i) a + 1) * precision)"
proof -
  define c where "c = p * q div precision"
  have side: "la_side i = side_buy \<or> la_side i = side_sell"
    using assms(3) by (cases "la_side i") auto
  have small: "p < 2 ^ 256" "q < 2 ^ 256" and nonneg: "0 \<le> p" "0 \<le> q" "0 \<le> c"
    using uint256_value_less [OF assms(1)] uint256_value_less [OF assms(2)]
      truncated_int_le [of "uint256_value (la_price_per_share_wei i)" 3]
      truncated_int_le [of "uint256_value (la_quantity_wei i)" 5]
    by (auto simp: p_def q_def c_def pos_imp_zdiv_nonneg_iff)
  have zero: "uint256_parse ''0'' = Inr \<lparr>u256_text = ''0''\<rparr>"
    by code_simp
  have fits: "c < 2 ^ 256 \<longleftrightarrow> p * q < 2 ^ 256 * precision"
    unfolding c_def by (rule div_bounds(3) [OF precision_pos])
  have c: "c * precision \<le> p * q" "p * q < (c + 1) * precision"
    unfolding c_def by (rule div_bounds(1,2) [OF precision_pos])+
  obtain pu qu where pq: "to_uint256 p = Inr pu" "to_uint256 q = Inr qu"
    using to_uint256_ok small nonneg by metis
  have cu: "(\<exists>u. to_uint256 c = Inr u) \<longleftrightarrow> c < 2 ^ 256"
    using to_uint256_ok [OF nonneg(3)] by (auto simp: to_uint256_iff)
  have form: "limit_amounts i =
    (if q < minimum_quantity
     then Inl (mk_error invalid_quantity ''order quantity is below the protocol minimum'' ''quantity'')
     else if p \<le> 0 then Inl (mk_error invalid_price ''price must be greater than zero'' ''price'')
     else case to_uint256 c of
       Inl e \<Rightarrow> Inl (mk_error numeric_overflow ''order amount exceeds uint256'' '''')
     | Inr cu \<Rightarrow> Inr \<lparr>oa_last_price_wei = pu, oa_price_per_share_wei = pu,
         oa_maker_amount = (if la_side i = side_buy then cu else qu),
         oa_taker_amount = (if la_side i = side_buy then qu else cu), oa_amount = qu,
         oa_slippage_bps = \<lparr>u256_text = ''0''\<rparr>, oa_is_min_amount_out = False\<rparr>)"
    using side assms(1,2) pq zero
    by (auto simp: limit_amounts_def Let_def truncate_significant_nat p_def [symmetric] q_def [symmetric]
        c_def [symmetric] split: sum.splits)
  have vals: "uint256_wf pu" "u_int pu = p" "uint256_wf qu" "u_int qu = q"
    using pq by (simp_all add: to_uint256_iff)
  show ?thesis
  proof (cases "to_uint256 c")
    case (Inl e)
    then have "\<not> p * q < 2 ^ 256 * precision"
      using cu unfolding fits by simp
    then show ?thesis
      using form Inl by simp
  next
    case (Inr u)
    then have "p * q < 2 ^ 256 * precision" and u: "uint256_wf u" "u_int u = c"
      using cu fits by (blast, simp_all add: to_uint256_iff)
    then show ?thesis
      using form Inr vals c by (simp add: not_less amounts_wf_def shares_of_def collateral_of_def)
  qed
qed

text \<open>
  Limit order amounts: for a buy or sell side the amounts exist exactly when the quantity kept
  to five significant digits reaches the protocol minimum, the price kept to three is positive
  and the collateral fits a uint256; then the share side is that quantity and the collateral is
  their product divided by \<open>10\<^sup>1\<^sup>8\<close>, rounded down, never by a full unit.
\<close>

theorem limit_amounts_exact:
  assumes "uint256_wf (la_price_per_share_wei i)" and "uint256_wf (la_quantity_wei i)"
    and "la_side i \<noteq> side_unknown"
  defines "p \<equiv> int (truncated (uint256_value (la_price_per_share_wei i)) 3)"
    and "q \<equiv> int (truncated (uint256_value (la_quantity_wei i)) 5)"
  shows "(\<exists>a. limit_amounts i = Inr a) = (minimum_quantity \<le> q \<and> 0 < p \<and> p * q < 2 ^ 256 * precision) \<and>
    (\<forall>a. limit_amounts i = Inr a \<longrightarrow> amounts_wf a \<and> u_int (oa_amount a) = q \<and>
       u_int (oa_price_per_share_wei a) = p \<and> shares_of (la_side i) a = q \<and>
       collateral_of (la_side i) a * precision \<le> p * q \<and>
       p * q < (collateral_of (la_side i) a + 1) * precision)"
  using limit_amounts_spec [OF assms(1-3)] unfolding p_def q_def .

theorem limit_amounts_exact_witness:
  "\<exists>a. limit_amounts \<lparr>la_side = side_buy, la_price_per_share_wei = \<lparr>u256_text = ''456789000000000000''\<rparr>,
      la_quantity_wei = \<lparr>u256_text = ''1234567000000000000''\<rparr>\<rparr> = Inr a \<and>
    u_int (oa_amount a) = 1234500000000000000 \<and> u_int (oa_price_per_share_wei a) = 456000000000000000"
proof -
  let ?i = "\<lparr>la_side = side_buy, la_price_per_share_wei = \<lparr>u256_text = ''456789000000000000''\<rparr>,
      la_quantity_wei = \<lparr>u256_text = ''1234567000000000000''\<rparr>\<rparr>"
  have "uint256_wf (la_price_per_share_wei ?i)" "uint256_wf (la_quantity_wei ?i)" "la_side ?i \<noteq> side_unknown"
    by (simp_all add: uint256_wf_text is_digit_def)
  moreover have "int (truncated (uint256_value (la_price_per_share_wei ?i)) 3) = 456000000000000000"
    "int (truncated (uint256_value (la_quantity_wei ?i)) 5) = 1234500000000000000"
    by (simp_all add: truncated_def uint256_value_def digits_value_def digit_value_def Let_def
        to_string.simps)
  ultimately show ?thesis
    using limit_amounts_exact [of ?i] by (auto simp: minimum_quantity_def precision_def)
qed

section \<open>Market orders\<close>

definition side_levels :: "contract_side \<Rightarrow> order_depth \<Rightarrow> order_depth_level list" where
  "side_levels side book = (if side = side_buy then od_asks book else od_bids book)"

definition book_valid :: "order_depth_level list \<Rightarrow> bool" where
  "book_valid ls \<longleftrightarrow> (\<forall>l\<in>set ls. level_wf l \<and> level_valid (level_values l))"

lemma market_quantity_form:
  assumes "market_quantity i book = Inr a" and "uint256_wf (mq_quantity_wei i)" and "uint256_wf (mq_slippage_bps i)"
    and "book_valid (side_levels (mq_side i) book)"
  defines "q \<equiv> int (truncated (uint256_value (mq_quantity_wei i)) 5)"
    and "vs \<equiv> map level_values (side_levels (mq_side i) book)"
  obtains b where "pb_weighted_price b = walk_cost q vs" "pb_last_price b = walk_last q 0 vs"
    "0 < pb_last_price b" "pb_last_price b \<le> precision" "q \<le> liquidity vs" "minimum_quantity \<le> q"
    "mq_side i \<noteq> side_unknown" "amounts_wf a" "u_int (oa_amount a) = q"
    "u_int (oa_last_price_wei a) = pb_last_price b" "u_int (oa_price_per_share_wei a) = pb_weighted_price b div q"
    "market_sides (mq_side i) (mq_is_min_amount_out i) (u_int (mq_slippage_bps i)) q b
       = (u_int (oa_maker_amount a), u_int (oa_taker_amount a))"
proof -
  let ?levels = "if mq_side i = side_buy then od_asks book else od_bids book"
  let ?s = "u_int (mq_slippage_bps i)"
  have guards: "minimum_quantity \<le> q" "mq_side i \<noteq> side_unknown"
    using assms(1-3) by (auto simp: market_quantity_def res_simps Let_def truncate_significant_nat
        simp flip: q_def split: if_splits)
  obtain b where b: "process_book ?levels q = Inr b"
    using assms(1-3) by (auto simp: market_quantity_def res_simps Let_def truncate_significant_nat
        simp flip: q_def split: if_splits)
  obtain maker taker where sides: "market_sides (mq_side i) (mq_is_min_amount_out i) ?s q b = (maker, taker)"
    by fastforce
  have vals: "to_uint256 (pb_last_price b) = Inr (oa_last_price_wei a)"
    "to_uint256 (pb_weighted_price b div q) = Inr (oa_price_per_share_wei a)"
    "to_uint256 maker = Inr (oa_maker_amount a)" "to_uint256 taker = Inr (oa_taker_amount a)"
    "to_uint256 q = Inr (oa_amount a)"
    using assms(1-3) b sides by (auto simp: market_quantity_def res_simps Let_def truncate_significant_nat
        simp flip: q_def split: if_splits)
  have "0 < q"
    using guards(1) by (simp add: minimum_quantity_def)
  then have "pb_weighted_price b = walk_cost q vs" "pb_last_price b = walk_last q 0 vs"
    "0 < pb_last_price b" "pb_last_price b \<le> precision" "q \<le> liquidity vs"
    using process_book_spec [OF b] assms(4) by (auto simp: vs_def side_levels_def book_valid_def)
  then show ?thesis
    using that [of b] guards vals sides by (simp add: to_uint256_iff amounts_wf_def)
qed

lemma walk_cost_le:
  "\<lbrakk>\<forall>l\<in>set ls. fst l \<le> p \<and> 0 \<le> snd l; 0 \<le> r; 0 \<le> p\<rbrakk> \<Longrightarrow> walk_cost r ls \<le> p * r"
proof (induction ls arbitrary: r)
  case (Cons l ls)
  obtain p1 q1 where l: "l = (p1, q1)" by (cases l)
  have "p1 * min r q1 \<le> p * min r q1"
    using Cons.prems l by (intro mult_right_mono) auto
  moreover have "walk_cost (r - min r q1) ls \<le> p * (r - min r q1)"
    using Cons.prems by (intro Cons.IH) auto
  ultimately show ?case
    by (simp add: l algebra_simps)
qed simp

lemma div_mono_bounds:
  assumes "0 < (c :: int)" and "0 \<le> x"
  shows "k \<le> c \<Longrightarrow> x * k div c \<le> x" and "c \<le> k \<Longrightarrow> x \<le> x * k div c"
proof -
  have "x * k \<le> x * c" if "k \<le> c"
    using that assms(2) by (rule mult_left_mono)
  then show "x * k div c \<le> x" if "k \<le> c"
    using that zdiv_mono1 [of "x * k" "x * c" c] assms(1) by simp
  have "x * c \<le> x * k" if "c \<le> k"
    using that assms(2) by (rule mult_left_mono)
  then show "x \<le> x * k div c" if "c \<le> k"
    using that zdiv_mono1 [of "x * c" "x * k" c] assms(1) by simp
qed

lemma basis_points_pos [simp]: "0 < basis_points"
  by (simp add: basis_points_def)

lemma base_bounds:
  assumes "0 < l" and "l \<le> precision" and "0 \<le> (q :: int)"
  shows "0 \<le> l * q div precision" and "l * q div precision \<le> q" and "l * q < (l * q div precision + 1) * precision"
    and "l * q div precision * precision \<le> l * q"
  using assms div_mono_bounds(1) [of precision q l] div_bounds [OF precision_pos, of "l * q"]
  by (simp_all add: pos_imp_zdiv_nonneg_iff mult.commute)

lemma buy_sides:
  assumes "market_sides side_buy False s q b = (m, t)" and "0 < pb_last_price b" and "pb_last_price b \<le> precision"
    and "0 \<le> q" and "0 \<le> s"
  shows "t = q \<and> m \<le> q \<and> pb_last_price b * q < (m + 1) * precision"
proof -
  define base where "base = pb_last_price b * q div precision"
  note base = base_bounds [OF assms(2-4), folded base_def]
  have "base \<le> base * (basis_points + s) div basis_points"
    using base(1) assms(5) by (intro div_mono_bounds(2)) auto
  then have m: "t = q" "base \<le> m" "m \<le> q"
    using assms(1) base by (auto simp: market_sides_def Let_def base_def [symmetric] split: if_splits)
  have "(base + 1) * precision \<le> (m + 1) * precision"
    using m(2) by (intro mult_right_mono) (auto simp: precision_def)
  then show ?thesis
    using m base(3) by linarith
qed

lemma buy_min_out_sides:
  assumes "market_sides side_buy True s q b = (m, t)" and "0 < pb_last_price b"
    and "0 \<le> pb_weighted_price b" and "0 \<le> s"
  shows "m = pb_weighted_price b div precision \<and> (pb_weighted_price b \<le> pb_last_price b * q \<and> 0 \<le> q \<longrightarrow> t \<le> q)"
proof -
  define x where "x = pb_weighted_price b div pb_last_price b"
  have "0 \<le> x"
    using assms(2,3) by (simp add: x_def pos_imp_zdiv_nonneg_iff)
  then have "x * (basis_points - s) div basis_points \<le> x"
    using assms(4) by (intro div_mono_bounds(1)) auto
  moreover have "x \<le> q" if "pb_weighted_price b \<le> pb_last_price b * q"
    using zdiv_mono1 [OF that assms(2)] assms(2) by (simp add: x_def)
  moreover have "m = pb_weighted_price b div precision"
    "t = (if s > basis_points then 0 else x * (basis_points - s) div basis_points)"
    using assms(1,2) by (auto simp: market_sides_def Let_def x_def split: if_splits)
  ultimately show ?thesis
    by auto
qed

lemma sell_sides:
  assumes "market_sides side_sell min_out s q b = (m, t)" and "0 < pb_last_price b" and "pb_last_price b \<le> precision"
    and "0 \<le> q" and "0 \<le> s"
  shows "m = q \<and> t \<le> q \<and> t * precision \<le> pb_last_price b * q"
proof -
  define base where "base = pb_last_price b * q div precision"
  note base = base_bounds [OF assms(2-4), folded base_def]
  have "base * (basis_points - s) div basis_points \<le> base"
    using base(1) assms(5) by (intro div_mono_bounds(1)) auto
  then have m: "m = q" "t \<le> base"
    using assms(1) base(1) by (auto simp: market_sides_def Let_def base_def [symmetric] split: if_splits)
  have "t * precision \<le> base * precision"
    using m(2) by (intro mult_right_mono) (auto simp: precision_def)
  then show ?thesis
    using m base by linarith
qed

lemma book_valid_values:
  assumes "book_valid ls"
  shows "\<forall>l\<in>set (map level_values ls). 0 < fst l \<and> fst l \<le> precision \<and> 0 < snd l"
  using assms by (auto simp: book_valid_def level_valid_def)

lemma walk_cost_nonneg:
  "\<lbrakk>\<forall>l\<in>set ls. 0 \<le> fst l \<and> 0 \<le> snd l; 0 \<le> r\<rbrakk> \<Longrightarrow> 0 \<le> walk_cost r ls"
  by (induction ls arbitrary: r) auto

lemma walk_bounds:
  assumes "\<forall>l\<in>set vs. 0 < fst l \<and> fst l \<le> precision \<and> 0 < snd l" and "0 < r" and "r \<le> liquidity vs"
  shows "0 \<le> walk_cost r vs" and "walk_cost r vs \<le> precision * r"
    and "sorted (map fst vs) \<Longrightarrow> walk_cost r vs \<le> walk_last r 0 vs * r"
    and "sorted (rev (map fst vs)) \<Longrightarrow> walk_last r 0 vs * r \<le> walk_cost r vs"
proof -
  show "0 \<le> walk_cost r vs"
    using assms by (intro walk_cost_nonneg) force+
  show "walk_cost r vs \<le> precision * r"
    using assms by (intro walk_cost_le) (force simp: precision_def)+
  show "walk_cost r vs \<le> walk_last r 0 vs * r" if "sorted (map fst vs)"
    using walk_cost_le_last [OF that, of r 0] assms by force
  have "vs \<noteq> []"
    using assms(2,3) by auto
  then have "walk_last r 0 vs = walk_last r precision vs"
    using walk_last_default [OF assms(2)] by blast
  then show "walk_last r 0 vs * r \<le> walk_cost r vs" if "sorted (rev (map fst vs))"
    using walk_cost_ge_last [OF that, of r precision] assms by force
qed

text \<open>
  C37. Market order amounts protect the trader. The amount is the requested quantity kept to five
  significant digits, at least the protocol minimum and at most the liquidity of the side. A buy
  receives exactly that amount, commits at most one unit of collateral per share and, on a sorted
  book, enough for the walk over it; a buy with a minimum output commits exactly the cost of the
  walk, rounded down, and asks for no more than the amount; a sale gives exactly the amount and,
  on a sorted book, demands no more than the walk earns.
\<close>

theorem market_amounts_protected:
  assumes "market_amounts i book = Inr a"
    and "uint256_wf (mq_quantity_wei i)" and "uint256_wf (mq_slippage_bps i)"
    and "book_valid (side_levels (mq_side i) book)"
  defines "q \<equiv> u_int (oa_amount a)" and "vs \<equiv> map level_values (side_levels (mq_side i) book)"
    and "m \<equiv> u_int (oa_maker_amount a)" and "t \<equiv> u_int (oa_taker_amount a)"
  shows "amounts_wf a \<and> q = int (truncated (uint256_value (mq_quantity_wei i)) 5) \<and>
    minimum_quantity \<le> q \<and> q \<le> liquidity vs \<and> mq_side i \<noteq> side_unknown \<and>
    (mq_side i = side_buy \<and> \<not> mq_is_min_amount_out i \<longrightarrow>
       t = q \<and> m \<le> q \<and> (sorted (map fst vs) \<longrightarrow> walk_cost q vs < (m + 1) * precision)) \<and>
    (mq_side i = side_buy \<and> mq_is_min_amount_out i \<longrightarrow>
       m * precision \<le> walk_cost q vs \<and> walk_cost q vs < (m + 1) * precision \<and> m \<le> q \<and>
       (sorted (map fst vs) \<longrightarrow> t \<le> q)) \<and>
    (mq_side i = side_sell \<longrightarrow>
       m = q \<and> t \<le> q \<and> (sorted (rev (map fst vs)) \<longrightarrow> t * precision \<le> walk_cost q vs))"
proof -
  obtain b where q: "q = int (truncated (uint256_value (mq_quantity_wei i)) 5)" and
    b: "pb_weighted_price b = walk_cost q vs" "pb_last_price b = walk_last q 0 vs"
    "0 < pb_last_price b" "pb_last_price b \<le> precision" "q \<le> liquidity vs" "minimum_quantity \<le> q"
    "mq_side i \<noteq> side_unknown" "amounts_wf a" and
    sides: "market_sides (mq_side i) (mq_is_min_amount_out i) (u_int (mq_slippage_bps i)) q b = (m, t)"
    using market_quantity_form [OF assms(1) [unfolded market_amounts_def] assms(2-4)]
    unfolding q_def vs_def m_def t_def by metis
  have pos: "0 < q" "0 \<le> q"
    using b(6) by (auto simp: minimum_quantity_def)
  have slip: "0 \<le> u_int (mq_slippage_bps i)" by simp
  note walk = walk_bounds [OF book_valid_values [OF assms(4), folded vs_def] pos(1) b(5)]
  have buy: "t = q \<and> m \<le> q \<and> (sorted (map fst vs) \<longrightarrow> walk_cost q vs < (m + 1) * precision)"
    if "mq_side i = side_buy" "\<not> mq_is_min_amount_out i"
    using buy_sides [OF _ b(3,4) pos(2) slip, of m t] sides that walk(3) b(2) by fastforce
  have min_out: "m * precision \<le> walk_cost q vs \<and> walk_cost q vs < (m + 1) * precision \<and> m \<le> q \<and>
      (sorted (map fst vs) \<longrightarrow> t \<le> q)" if "mq_side i = side_buy" "mq_is_min_amount_out i"
  proof -
    have m: "m = walk_cost q vs div precision" "walk_cost q vs \<le> walk_last q 0 vs * q \<longrightarrow> t \<le> q"
      using buy_min_out_sides [OF _ b(3) _ slip, of q m t] sides that walk(1) b(1,2) pos by auto
    have "m \<le> q"
      using zdiv_mono1 [OF walk(2) precision_pos] m(1) by (simp add: precision_def)
    then show ?thesis
      using m walk(3) div_bounds(1,2) [OF precision_pos, of "walk_cost q vs"] by simp
  qed
  have sell: "m = q \<and> t \<le> q \<and> (sorted (rev (map fst vs)) \<longrightarrow> t * precision \<le> walk_cost q vs)"
    if "mq_side i = side_sell"
    using sell_sides [OF _ b(3,4) pos(2) slip, of "mq_is_min_amount_out i" m t] sides that walk(4) b(2) by fastforce
  show ?thesis
    using q b(5-8) buy min_out sell by blast
qed

lemma market_sides_nonneg:
  assumes "market_sides side min_out s q b = (m, t)" and "0 \<le> pb_last_price b" and "0 \<le> pb_weighted_price b"
    and "0 \<le> q" and "0 \<le> s"
  shows "0 \<le> m \<and> 0 \<le> t"
  using assms
  by (auto simp: market_sides_def Let_def precision_def basis_points_def pos_imp_zdiv_nonneg_iff split: if_splits)

text \<open>A sorted book with enough liquidity always gives amounts.\<close>

lemma market_quantity_ok:
  assumes "uint256_wf (mq_quantity_wei i)" and "uint256_wf (mq_slippage_bps i)"
    and "book_valid (side_levels (mq_side i) book)" and "mq_side i \<noteq> side_unknown"
    and "mq_side i = side_buy \<Longrightarrow> mq_is_min_amount_out i \<Longrightarrow>
           sorted (map fst (map level_values (side_levels (mq_side i) book)))"
  defines "q \<equiv> int (truncated (uint256_value (mq_quantity_wei i)) 5)"
    and "vs \<equiv> map level_values (side_levels (mq_side i) book)"
  assumes "minimum_quantity \<le> q" and "q \<le> liquidity vs"
  shows "\<exists>a. market_quantity i book = Inr a"
proof -
  let ?s = "u_int (mq_slippage_bps i)"
  have pos: "0 < q" "0 \<le> q" and slip: "0 \<le> ?s"
    using assms(8) by (auto simp: minimum_quantity_def)
  obtain b where b: "process_book (side_levels (mq_side i) book) q = Inr b"
    using process_book_ok [OF assms(3) [unfolded book_valid_def] pos(1)] assms(9) by (auto simp: vs_def)
  have spec: "pb_weighted_price b = walk_cost q vs" "pb_last_price b = walk_last q 0 vs"
    "0 < pb_last_price b" "pb_last_price b \<le> precision"
    using process_book_spec [OF b _ pos(1)] assms(3) by (auto simp: vs_def book_valid_def)
  note walk = walk_bounds [OF book_valid_values [OF assms(3), folded vs_def] pos(1) assms(9)]
  obtain m t where sides: "market_sides (mq_side i) (mq_is_min_amount_out i) ?s q b = (m, t)"
    by fastforce
  have q: "q < 2 ^ 256"
    using uint256_value_less [OF assms(1)] truncated_int_le [of "uint256_value (mq_quantity_wei i)" 5]
    by (simp add: q_def)
  have "m \<le> q \<and> t \<le> q"
  proof (cases "mq_side i = side_buy")
    case True
    have "m \<le> q" if "m = walk_cost q vs div precision"
      using zdiv_mono1 [OF walk(2) precision_pos] that by (simp add: precision_def)
    then show ?thesis
      using True buy_sides [OF _ spec(3,4) pos(2) slip, of m t] buy_min_out_sides [OF _ spec(3) _ slip, of q m t]
        walk(1,3) spec(1,2) assms(5) [folded vs_def] sides pos by (cases "mq_is_min_amount_out i") auto
  next
    case False
    then show ?thesis
      using sell_sides [OF _ spec(3,4) pos(2) slip, of "mq_is_min_amount_out i" m t] sides assms(4)
      by (cases "mq_side i") auto
  qed
  moreover have "0 \<le> m \<and> 0 \<le> t"
    using market_sides_nonneg [OF sides _ _ pos(2) slip] spec walk(1) by auto
  moreover have "walk_cost q vs div q \<le> precision" "0 \<le> walk_cost q vs div q"
    using zdiv_mono1 [OF walk(2) pos(1)] pos walk(1) by (auto simp: pos_imp_zdiv_nonneg_iff)
  moreover have "precision < 2 ^ 256"
    by (simp add: precision_def)
  ultimately obtain u1 u2 u3 u4 u5 where "to_uint256 (pb_last_price b) = Inr u1"
    "to_uint256 (pb_weighted_price b div q) = Inr u2" "to_uint256 m = Inr u3" "to_uint256 t = Inr u4"
    "to_uint256 q = Inr u5"
    using to_uint256_ok q pos spec by (metis (no_types) le_less_trans less_imp_le)
  then show ?thesis
    using assms(1,2,4,8) b sides
    by (cases "mq_side i") (auto simp: market_quantity_def truncate_significant_nat Let_def side_levels_def simp flip: q_def)
qed

definition sample_market_buy :: market_quantity_input where
  "sample_market_buy = \<lparr>mq_side = side_buy, mq_quantity_wei = \<lparr>u256_text = ''2000000000000000000''\<rparr>,
     mq_slippage_bps = \<lparr>u256_text = ''100''\<rparr>, mq_is_min_amount_out = False\<rparr>"

theorem market_amounts_protected_witness:
  "\<exists>a. market_amounts sample_market_buy \<lparr>od_asks = sample_asks, od_bids = []\<rparr> = Inr a \<and>
     u_int (oa_taker_amount a) = 2000000000000000000 \<and>
     walk_cost 2000000000000000000 (map level_values sample_asks) < (u_int (oa_maker_amount a) + 1) * precision"
proof -
  let ?book = "\<lparr>od_asks = sample_asks, od_bids = []\<rparr>"
  have wf: "uint256_wf (mq_quantity_wei sample_market_buy)" "uint256_wf (mq_slippage_bps sample_market_buy)"
    by (simp_all add: sample_market_buy_def uint256_wf_text is_digit_def)
  have levels: "side_levels (mq_side sample_market_buy) ?book = sample_asks"
    by (simp add: side_levels_def sample_market_buy_def)
  have valid: "book_valid (side_levels (mq_side sample_market_buy) ?book)"
    using sample_asks_valid(1) by (simp add: levels book_valid_def list_all_iff)
  have q: "int (truncated (uint256_value (mq_quantity_wei sample_market_buy)) 5) = 2000000000000000000"
    by (simp add: sample_market_buy_def truncated_def uint256_value_def digits_value_def digit_value_def Let_def
        to_string.simps)
  have min: "minimum_quantity \<le> 2000000000000000000"
    by (simp add: minimum_quantity_def)
  have kind: "mq_side sample_market_buy = side_buy" "\<not> mq_is_min_amount_out sample_market_buy"
    by (simp_all add: sample_market_buy_def)
  have "\<exists>a. market_quantity sample_market_buy ?book = Inr a"
    using kind sample_asks_valid(2) min by (intro market_quantity_ok [OF wf valid]) (simp_all add: side_levels_def q)
  then obtain a where a: "market_amounts sample_market_buy ?book = Inr a"
    by (auto simp: market_amounts_def)
  show ?thesis
    using market_amounts_protected [OF a wf valid] a q kind sample_asks_valid(3) by (auto simp: side_levels_def)
qed

section \<open>Market orders by value\<close>

text \<open>What an allocation costs when every level is rounded down to whole units of collateral.\<close>

definition rounded_cost :: "int list \<Rightarrow> (int \<times> int) list \<Rightarrow> int" where
  "rounded_cost cs ls = sum_list (map2 (\<lambda>c l. fst l * c div precision) cs ls)"

lemma rounded_cost_Cons [simp]:
  "rounded_cost (c # cs) (l # ls) = fst l * c div precision + rounded_cost cs ls"
  by (simp add: rounded_cost_def)

lemma allocation_zeros: "\<forall>l\<in>set vs. 0 \<le> snd l \<Longrightarrow> allocation (replicate (length vs) 0) vs"
  by (simp add: allocation_def list_all2_conv_all_nth)

lemma rounded_zeros: "rounded_cost (replicate (length vs) 0) vs = 0"
  by (induction vs) (simp_all add: rounded_cost_def)

lemma value_levels_spec:
  assumes "value_levels ls v sh sp = Inr (sh', sp')" and "book_valid ls" and "sp \<le> v"
  shows "\<exists>cs. allocation cs (map level_values ls) \<and> sh' = sh + sum_list cs \<and>
    sp' = sp + rounded_cost cs (map level_values ls) \<and> sp' \<le> v"
  using assms
proof (induction ls arbitrary: sh sp)
  case (Cons l ls)
  obtain p q where v: "level_values l = (p, q)"
    by fastforce
  have wf: "level_prices l = Inr (p, q)" and valid: "0 < p" "p \<le> precision" "0 < q" and tail: "book_valid ls"
    using Cons.prems(2) v by (auto simp: book_valid_def level_prices_wf level_valid_def)
  define r where "r = v - sp"
  show ?case
  proof (cases "r \<le> 0")
    case True
    let ?zeros = "replicate (length (l # ls)) 0 :: int list"
    have "allocation ?zeros (map level_values (l # ls))"
      using allocation_zeros [of "map level_values (l # ls)"] by (simp add: level_values_nonneg)
    then show ?thesis
      using True Cons.prems wf valid rounded_zeros [of "map level_values (l # ls)"]
      by (intro exI [of _ ?zeros]) (auto simp: Let_def r_def sum_list_replicate)
  next
    case False
    define c where "c = (if p * q div precision \<le> r then q else r * precision div p)"
    have partial: "r * precision div p \<le> q" if "\<not> p * q div precision \<le> r"
    proof -
      have "r * precision \<le> p * q div precision * precision"
        using that by (intro mult_right_mono) (auto simp: precision_def)
      also have "\<dots> \<le> q * p"
        using div_bounds(1) [OF precision_pos, of "p * q"] by (simp add: mult.commute)
      finally show ?thesis
        using zdiv_mono1 [of "r * precision" "q * p" p] valid(1) by simp
    qed
    have range: "0 \<le> c" "c \<le> q"
      using partial valid False by (auto simp: c_def pos_imp_zdiv_nonneg_iff precision_def)
    have cost: "p * c div precision \<le> r"
    proof (cases "p * q div precision \<le> r")
      case False
      then have "p * c \<le> r * precision"
        using div_bounds(1) [OF valid(1), of "r * precision"] by (simp add: c_def mult.commute)
      then show ?thesis
        using zdiv_mono1 [of "p * c" "r * precision" precision] by (simp add: precision_def)
    qed (simp add: c_def)
    have "value_levels ls v (sh + c) (sp + p * c div precision) = Inr (sh', sp')"
      using Cons.prems(1) wf valid False by (simp add: Let_def r_def [symmetric] c_def not_le split: if_splits)
    moreover have "sp + p * c div precision \<le> v"
      using cost by (simp add: r_def)
    ultimately obtain cs where "allocation cs (map level_values ls)" "sh' = sh + c + sum_list cs"
      "sp' = sp + p * c div precision + rounded_cost cs (map level_values ls)" "sp' \<le> v"
      using Cons.IH tail by blast
    then show ?thesis
      using range v by (intro exI [of _ "c # cs"]) (simp add: allocation_def)
  qed
qed (auto simp: allocation_def rounded_cost_def)

lemma cost_le_rounded:
  "\<lbrakk>allocation cs vs; \<forall>l\<in>set vs. 0 \<le> fst l\<rbrakk> \<Longrightarrow>
     allocation_cost cs vs + int (length vs) \<le> (rounded_cost cs vs + int (length vs)) * precision"
  unfolding allocation_def
proof (induction cs vs rule: list_all2_induct)
  case (Cons c cs l ls)
  have "fst l * c + 1 \<le> (fst l * c div precision + 1) * precision"
    using div_bounds(2) [OF precision_pos, of "fst l * c"] by simp
  then show ?case
    using Cons by (simp add: allocation_cost_def algebra_simps)
qed (simp add: allocation_cost_def rounded_cost_def)

text \<open>
  A market buy by value with a minimum output, on asks in increasing price order, commits at
  most the given value plus one wei for every level after the first: rounding each level down
  while walking can lose less than one wei per level and nothing more.
\<close>

theorem market_value_spend_bounded:
  assumes "market_amounts_by_value i book = Inr a" and "mv_is_min_amount_out i"
    and "uint256_wf (mv_value_wei i)" and "uint256_wf (mv_slippage_bps i)"
    and "book_valid (od_asks book)" and "sorted (map fst (map level_values (od_asks book)))"
  shows "u_int (oa_maker_amount a) \<le> u_int (mv_value_wei i) + int (length (od_asks book)) - 1 \<and>
    minimum_value \<le> u_int (mv_value_wei i)"
proof -
  let ?vs = "map level_values (od_asks book)" and ?n = "int (length (od_asks book))"
  let ?v = "u_int (mv_value_wei i)"
  obtain shares spent qu where loop: "value_levels (od_asks book) ?v 0 0 = Inr (shares, spent)" and
    guards: "minimum_value \<le> ?v" "0 < shares" and qu: "to_uint256 (truncate_significant shares 5) = Inr qu" and
    run: "market_quantity \<lparr>mq_side = side_buy, mq_quantity_wei = qu, mq_slippage_bps = mv_slippage_bps i,
      mq_is_min_amount_out = mv_is_min_amount_out i\<rparr> book = Inr a"
    using assms(1,3) by (auto simp: market_amounts_by_value_def res_simps not_less not_le split: if_splits prod.splits)
  have vals: "\<forall>l\<in>set ?vs. 0 < fst l \<and> fst l \<le> precision \<and> 0 < snd l"
    by (rule book_valid_values [OF assms(5)])
  have weak: "\<forall>l\<in>set ?vs. 0 \<le> fst l \<and> 0 \<le> snd l" "\<forall>l\<in>set ?vs. 0 \<le> snd l" "\<forall>l\<in>set ?vs. 0 \<le> fst l"
    by (auto simp: level_values_nonneg)
  obtain cs where cs: "allocation cs ?vs" "shares = sum_list cs" "spent = rounded_cost cs ?vs" "spent \<le> ?v"
    using value_levels_spec [OF loop assms(5)] guards(1) by (auto simp: minimum_value_def precision_def)
  have quv: "uint256_wf qu" "u_int qu = int (truncated (nat shares) 5)"
    using qu guards(2) truncate_significant_nat [of "nat shares" 5] by (auto simp: to_uint256_iff)
  define q where "q = int (truncated (uint256_value qu) 5)"
  have q: "0 \<le> q" "q \<le> shares"
    using quv(2) guards(2) truncated_le [of "nat shares" 5] truncated_le [of "uint256_value qu" 5]
    by (auto simp: q_def)
  define j where "j = \<lparr>mq_side = side_buy, mq_quantity_wei = qu, mq_slippage_bps = mv_slippage_bps i,
      mq_is_min_amount_out = mv_is_min_amount_out i\<rparr>"
  have j: "uint256_wf (mq_quantity_wei j)" "uint256_wf (mq_slippage_bps j)" "book_valid (side_levels (mq_side j) book)"
    using quv(1) assms(4,5) by (simp_all add: j_def side_levels_def)
  obtain b where b: "pb_weighted_price b = walk_cost q ?vs" "0 < pb_last_price b" "minimum_quantity \<le> q"
    "market_sides side_buy True (u_int (mv_slippage_bps i)) q b
       = (u_int (oa_maker_amount a), u_int (oa_taker_amount a))"
    by (rule market_quantity_form [OF run [folded j_def] j])
      (rule that, simp_all add: j_def side_levels_def q_def assms(2))
  have nonneg: "0 \<le> pb_weighted_price b"
    unfolding b(1) by (rule walk_cost_nonneg [OF weak(1) q(1)])
  have maker: "u_int (oa_maker_amount a) = walk_cost q ?vs div precision"
    using buy_min_out_sides [OF b(4) b(2) nonneg] b(1) by simp
  have "walk_cost q ?vs + 0 * (shares - q) \<le> walk_cost (q + (shares - q)) ?vs"
    using q allocation_le_liquidity [OF cs(1)] cs(2) by (intro walk_cost_add [OF _ _ _ weak(1)]) auto
  then have "walk_cost q ?vs \<le> walk_cost shares ?vs"
    by simp
  also have "\<dots> \<le> allocation_cost cs ?vs"
    unfolding cs(2) by (rule walk_cost_minimal [OF cs(1) assms(6) weak(2)])
  also have "\<dots> < (spent + ?n) * precision"
  proof -
    have "0 < ?n"
      using cs(1,2) guards(2) by (cases "od_asks book") (auto simp: allocation_def)
    then show ?thesis
      using cost_le_rounded [OF cs(1) weak(3)] unfolding cs(3) length_map by linarith
  qed
  finally have "walk_cost q ?vs div precision < spent + ?n"
    by (simp add: div_bounds(3) [OF precision_pos])
  then show ?thesis
    using maker cs(4) guards(1) by simp
qed

definition sample_value_buy :: market_value_input where
  "sample_value_buy = \<lparr>mv_value_wei = \<lparr>u256_text = ''1400000000000000000''\<rparr>,
     mv_slippage_bps = \<lparr>u256_text = ''100''\<rparr>, mv_is_min_amount_out = True\<rparr>"

lemma sample_value_walk:
  "value_levels sample_asks 1400000000000000000 0 0 = Inr (3000000000000000000, 1400000000000000000)"
proof -
  let ?a = "sample_level ''400000000000000000'' ''1000000000000000000''"
  let ?b = "sample_level ''500000000000000000'' ''3000000000000000000''"
  have "level_wf ?a" "level_wf ?b"
    by (simp_all add: sample_level_def level_wf_def uint256_wf_text is_digit_def)
  then have "level_prices ?a = Inr (400000000000000000, 1000000000000000000)"
    "level_prices ?b = Inr (500000000000000000, 3000000000000000000)"
    by (simp_all add: level_prices_wf sample_level_values digits_value_def digit_value_def)
  then show ?thesis
    by (simp add: sample_asks_def Let_def precision_def)
qed

theorem market_value_spend_bounded_witness:
  "\<exists>a. market_amounts_by_value sample_value_buy \<lparr>od_asks = sample_asks, od_bids = []\<rparr> = Inr a \<and>
     u_int (oa_maker_amount a) \<le> 1400000000000000001"
proof -
  let ?book = "\<lparr>od_asks = sample_asks, od_bids = []\<rparr>"
  have wf: "uint256_wf (mv_value_wei sample_value_buy)" "uint256_wf (mv_slippage_bps sample_value_buy)"
    by (simp_all add: sample_value_buy_def uint256_wf_text is_digit_def)
  have v: "u_int (mv_value_wei sample_value_buy) = 1400000000000000000"
    by (simp add: sample_value_buy_def uint256_value_def digits_value_def digit_value_def)
  have valid: "book_valid (od_asks ?book)" and sorted: "sorted (map fst (map level_values (od_asks ?book)))"
    using sample_asks_valid by (simp_all add: book_valid_def list_all_iff)
  have trunc: "truncated 3000000000000000000 5 = 3000000000000000000"
    by (simp add: truncated_def Let_def to_string.simps)
  have cut: "truncate_significant 3000000000000000000 5 = 3000000000000000000"
    using truncate_significant_nat [of 3000000000000000000 5] unfolding trunc by simp
  obtain u where u: "to_uint256 3000000000000000000 = Inr u" "uint256_wf u" "uint256_value u = 3000000000000000000"
    using to_uint256_ok [of 3000000000000000000] by (auto simp: to_uint256_iff)
  define j where "j = \<lparr>mq_side = side_buy, mq_quantity_wei = u, mq_slippage_bps = mv_slippage_bps sample_value_buy,
      mq_is_min_amount_out = mv_is_min_amount_out sample_value_buy\<rparr>"
  have "\<exists>a. market_quantity j ?book = Inr a"
    using valid sorted u wf(2) trunc sample_asks_values
    by (intro market_quantity_ok) (simp_all add: j_def side_levels_def minimum_quantity_def)
  then obtain a where a: "market_quantity j ?book = Inr a"
    by blast
  have "market_amounts_by_value sample_value_buy ?book = Inr a"
    using wf(1) v a u sample_value_walk cut
    by (simp add: market_amounts_by_value_def minimum_value_def precision_def j_def)
  moreover have "mv_is_min_amount_out sample_value_buy"
    by (simp add: sample_value_buy_def)
  ultimately show ?thesis
    using market_value_spend_bounded [of sample_value_buy ?book a] wf valid sorted v by (auto simp: sample_asks_def)
qed

section \<open>Decimals to wei\<close>

lemma uint256_parse_stripped:
  assumes "list_all is_digit ds" and "ds \<noteq> []"
  shows "uint256_parse (if dropWhile (\<lambda>c. c = CHR ''0'') ds = [] then ''0''
      else dropWhile (\<lambda>c. c = CHR ''0'') ds) = Inr u \<longleftrightarrow>
    digits_value ds < 2 ^ 256 \<and> u = \<lparr>u256_text = to_string (digits_value ds)\<rparr>"
proof -
  let ?t = "if dropWhile (\<lambda>c. c = CHR ''0'') ds = [] then ''0'' else dropWhile (\<lambda>c. c = CHR ''0'') ds"
  have "digits_text ?t"
    using stripped_facts [OF assms(1)] by (simp add: digits_text_def del: dropWhile_eq_Nil_conv)
  moreover have "digits_value ?t = digits_value ds"
    using digits_value_dropWhile_zero [of ds]
    by (cases "dropWhile (\<lambda>c. c = CHR ''0'') ds = []") (simp_all del: dropWhile_eq_Nil_conv)
  ultimately show ?thesis
    unfolding uint256_parse_spec by simp
qed

text \<open>
  A decimal text is converted to wei exactly when it is plain unsigned notation with a whole
  part and at most eighteen fractional digits whose scaled value fits a uint256; the result is then
  exactly \<open>10\<^sup>1\<^sup>8\<close> times the decimal.
\<close>

theorem decimal_to_wei_exact:
  "(\<exists>u. decimal_to_wei s = Inr u) =
     (plain_decimal s \<and> hd s \<noteq> CHR ''-'' \<and> hd s \<noteq> CHR ''.'' \<and>
      length s - Suc (length (takeWhile (\<lambda>c. c \<noteq> CHR ''.'') s)) \<le> protocol_decimals \<and>
      plain_value s * 10 ^ 18 < 2 ^ 256) \<and>
   (\<forall>u. decimal_to_wei s = Inr u \<longrightarrow> uint256_wf u \<and> of_nat (uint256_value u) = plain_value s * 10 ^ 18)"
proof -
  define w where "w = takeWhile (\<lambda>c. c \<noteq> CHR ''.'') s"
  define f where "f = drop (Suc (length w)) s"
  define ds where "ds = w @ f @ replicate (protocol_decimals - length f) (CHR ''0'')"
  define ok where "ok \<longleftrightarrow> list_all is_digit w \<and> w \<noteq> [] \<and> list_all is_digit f \<and>
    length f \<le> protocol_decimals \<and> (CHR ''.'' \<in> set s \<longrightarrow> f \<noteq> [])"
  have ends: "s = [] \<Longrightarrow> w = []" "hd s = CHR ''-'' \<Longrightarrow> s \<noteq> [] \<Longrightarrow> \<not> list_all is_digit w"
    "hd s = CHR ''+'' \<Longrightarrow> s \<noteq> [] \<Longrightarrow> \<not> list_all is_digit w" "w = [] \<longleftrightarrow> s = [] \<or> hd s = CHR ''.''"
    by (cases s; simp add: w_def)+
  have nodot: "list_all is_digit f \<Longrightarrow> CHR ''.'' \<notin> set f"
    by (auto simp: list_all_iff)
  have lenf: "length s - Suc (length w) = length f"
    by (simp add: f_def)
  have parse: "decimal_to_wei s = Inr u \<longleftrightarrow>
      ok \<and> uint256_parse (if dropWhile (\<lambda>c. c = CHR ''0'') ds = [] then ''0''
                                   else dropWhile (\<lambda>c. c = CHR ''0'') ds) = Inr u" for u
    unfolding decimal_to_wei_def Let_def w_def [symmetric] f_def [symmetric] ds_def [symmetric] ok_def
    using ends nodot by (auto simp del: dropWhile_eq_Nil_conv)
  have digits: "list_all is_digit ds" "ds \<noteq> []" if ok
    using that by (auto simp: ok_def ds_def list_all_iff)
  note canon = uint256_parse_stripped [OF digits]
  have val: "of_nat (digits_value ds) = plain_value s * 10 ^ 18" if ok
  proof -
    have s: "hd s \<noteq> CHR ''-''"
      using that ends by (auto simp: ok_def)
    have scaled: "digits_value ds = digits_value (w @ f) * 10 ^ (18 - length f)"
      using digits_value_zeros [of "18 - length f" "[]"]
      by (simp add: ds_def digits_value_append protocol_decimals_def flip: append_assoc)
    have split: "(10 :: rat) ^ 18 = 10 ^ (18 - length f) * 10 ^ length f"
      using that by (simp add: ok_def protocol_decimals_def flip: power_add)
    have plain: "plain_value s = of_nat (digits_value (w @ f)) / 10 ^ length f"
      using s by (simp add: plain_value_def Let_def w_def [symmetric] f_def [symmetric])
    show ?thesis
      unfolding scaled split plain by simp
  qed
  have plain: "ok \<longleftrightarrow> plain_decimal s \<and> hd s \<noteq> CHR ''-'' \<and> hd s \<noteq> CHR ''.'' \<and> length f \<le> protocol_decimals"
    unfolding plain_decimal_def ok_def Let_def using ends
    by (cases "s = []") (auto simp: w_def [symmetric] f_def [symmetric] simp del: drop_eq_Nil drop_eq_Nil2)
  have bound: "digits_value ds < 2 ^ 256 \<longleftrightarrow> plain_value s * 10 ^ 18 < 2 ^ 256" if ok
    unfolding val [OF that, symmetric] by (metis of_nat_less_iff of_nat_numeral of_nat_power)
  show ?thesis
    unfolding w_def [symmetric] lenf
  proof (cases ok)
    case True
    have form: "decimal_to_wei s = Inr u \<longleftrightarrow>
      digits_value ds < 2 ^ 256 \<and> u = \<lparr>u256_text = to_string (digits_value ds)\<rparr>" for u
      unfolding parse canon [OF True True] using True by blast
    show "(\<exists>u. decimal_to_wei s = Inr u) =
        (plain_decimal s \<and> hd s \<noteq> CHR ''-'' \<and> hd s \<noteq> CHR ''.'' \<and> length f \<le> protocol_decimals \<and>
         plain_value s * 10 ^ 18 < 2 ^ 256) \<and>
      (\<forall>u. decimal_to_wei s = Inr u \<longrightarrow> uint256_wf u \<and> of_nat (uint256_value u) = plain_value s * 10 ^ 18)"
      unfolding form using True [unfolded plain] val [OF True] bound [OF True]
      by (auto simp: uint256_wf_def uint256_value_def)
  next
    case False
    then show "(\<exists>u. decimal_to_wei s = Inr u) =
        (plain_decimal s \<and> hd s \<noteq> CHR ''-'' \<and> hd s \<noteq> CHR ''.'' \<and> length f \<le> protocol_decimals \<and>
         plain_value s * 10 ^ 18 < 2 ^ 256) \<and>
      (\<forall>u. decimal_to_wei s = Inr u \<longrightarrow> uint256_wf u \<and> of_nat (uint256_value u) = plain_value s * 10 ^ 18)"
      using False [unfolded plain] unfolding parse by blast
  qed
qed

theorem decimal_to_wei_exact_witness:
  "\<exists>u. decimal_to_wei ''1.5'' = Inr u \<and> of_nat (uint256_value u) = plain_value ''1.5'' * 10 ^ 18"
proof -
  have "decimal_to_wei ''1.5'' = Inr \<lparr>u256_text = ''1500000000000000000''\<rparr>"
    by code_simp
  then show ?thesis
    using decimal_to_wei_exact [of "''1.5''"] by auto
qed

end
