(* ===== verification/Exact_Compare.thy ===== *)
theory Exact_Compare
  imports Exact_Number
begin

text \<open>
  The comparison of exact decimals in \<^verbatim>\<open>src/lifecycle.cpp\<close>: \<open>normalize\<close>,
  \<open>magnitude_compare\<close>, \<open>compare\<close> and \<open>zero\<close>. The tracker decides with it whether an order is
  filled. It works on the text alone, at any number of digits; the main lemma says that it is
  the comparison of the rational numbers.
\<close>

section \<open>Operations\<close>

record normal_decimal =
  nd_negative :: bool
  nd_integer :: string
  nd_fraction :: string

definition trim_integer :: "string \<Rightarrow> string" where
  "trim_integer s = (let t = dropWhile (\<lambda>c. c = CHR ''0'') s in if t = [] then ''0'' else t)"

definition trim_fraction :: "string \<Rightarrow> string" where
  "trim_fraction s = rev (dropWhile (\<lambda>c. c = CHR ''0'') (rev s))"

definition normalize :: "string \<Rightarrow> normal_decimal" where
  "normalize text =
     (let negative = (text \<noteq> [] \<and> hd text = CHR ''-'');
          body = (if negative then tl text else text);
          whole = takeWhile (\<lambda>c. c \<noteq> CHR ''.'') body;
          integer = trim_integer whole;
          fraction = trim_fraction (drop (Suc (length whole)) body)
      in \<lparr>nd_negative = (if integer = ''0'' \<and> fraction = [] then False else negative),
          nd_integer = integer, nd_fraction = fraction\<rparr>)"

text \<open>The loop over the fraction digits; the shorter fraction reads as zeros past its end.\<close>

fun fraction_compare :: "string \<Rightarrow> string \<Rightarrow> int" where
  "fraction_compare [] [] = 0"
| "fraction_compare (l # ls) [] =
     (if l \<noteq> CHR ''0'' then (if (of_char l :: nat) < 48 then - 1 else 1)
      else fraction_compare ls [])"
| "fraction_compare [] (r # rs) =
     (if CHR ''0'' \<noteq> r then (if (48 :: nat) < of_char r then - 1 else 1)
      else fraction_compare [] rs)"
| "fraction_compare (l # ls) (r # rs) =
     (if l \<noteq> r then (if (of_char l :: nat) < of_char r then - 1 else 1)
      else fraction_compare ls rs)"

definition magnitude_compare :: "normal_decimal \<Rightarrow> normal_decimal \<Rightarrow> int" where
  "magnitude_compare l r =
     (if length (nd_integer l) \<noteq> length (nd_integer r)
      then (if length (nd_integer l) < length (nd_integer r) then - 1 else 1)
      else if nd_integer l \<noteq> nd_integer r
      then (if str_less (nd_integer l) (nd_integer r) then - 1 else 1)
      else fraction_compare (nd_fraction l) (nd_fraction r))"

definition compare_decimal :: "exact_decimal \<Rightarrow> exact_decimal \<Rightarrow> int" where
  "compare_decimal left right =
     (let l = normalize (xd_text left); r = normalize (xd_text right) in
      if nd_negative l \<noteq> nd_negative r then (if nd_negative l then - 1 else 1)
      else if nd_negative l then - magnitude_compare l r else magnitude_compare l r)"

definition zero_decimal :: "exact_decimal \<Rightarrow> bool" where
  "zero_decimal v \<longleftrightarrow> compare_decimal v exact_zero = 0"

section \<open>Lemmas\<close>

text \<open>The value of a fraction, and of a normal decimal.\<close>

definition frac_value :: "string \<Rightarrow> rat" where
  "frac_value f = of_nat (digits_value f) / 10 ^ length f"

definition nd_magnitude :: "normal_decimal \<Rightarrow> rat" where
  "nd_magnitude d = of_nat (digits_value (nd_integer d)) + frac_value (nd_fraction d)"

definition nd_value :: "normal_decimal \<Rightarrow> rat" where
  "nd_value d = (if nd_negative d then - nd_magnitude d else nd_magnitude d)"

definition nd_wf :: "normal_decimal \<Rightarrow> bool" where
  "nd_wf d \<longleftrightarrow> list_all is_digit (nd_integer d) \<and> list_all is_digit (nd_fraction d) \<and>
     (nd_integer d = ''0'' \<or> nd_integer d \<noteq> [] \<and> hd (nd_integer d) \<noteq> CHR ''0'') \<and>
     (nd_fraction d \<noteq> [] \<longrightarrow> last (nd_fraction d) \<noteq> CHR ''0'') \<and>
     (nd_negative d \<longrightarrow> nd_integer d \<noteq> ''0'' \<or> nd_fraction d \<noteq> [])"

lemma frac_value_Nil [simp]: "frac_value [] = 0"
  by (simp add: frac_value_def)

lemma frac_value_Cons: "frac_value (c # f) = (of_nat (digit_value c) + frac_value f) / 10"
  by (simp add: frac_value_def digits_value_Cons field_simps)

lemma frac_value_nonneg: "0 \<le> frac_value f"
  by (simp add: frac_value_def)

lemma frac_value_less_1: "list_all is_digit f \<Longrightarrow> frac_value f < 1"
proof (induction f)
  case (Cons c f)
  have "is_digit c"
    using Cons.prems by simp
  then have "digit_value c < 10"
    by (rule digit_value_less)
  then have "digit_value c \<le> 9"
    by linarith
  then have "(of_nat (digit_value c) :: rat) \<le> 9"
    by (metis of_nat_le_iff of_nat_numeral)
  moreover have "frac_value f < 1"
    using Cons by simp
  ultimately show ?case
    by (simp add: frac_value_Cons)
qed simp

lemma frac_value_snoc_zero: "frac_value (f @ [CHR ''0'']) = frac_value f"
  by (simp add: frac_value_def digits_value_snoc)

lemma frac_value_trim: "frac_value (trim_fraction f) = frac_value f"
  by (induction f rule: rev_induct) (auto simp: trim_fraction_def frac_value_snoc_zero)

lemma digits_value_trim_integer: "digits_value (trim_integer s) = digits_value s"
proof -
  define t where "t = dropWhile (\<lambda>c. c = CHR ''0'') s"
  have "digits_value t = digits_value s"
    by (simp add: t_def digits_value_dropWhile_zero)
  moreover have "trim_integer s = (if t = [] then ''0'' else t)"
    by (simp only: trim_integer_def Let_def t_def)
  ultimately show ?thesis
    by (cases "t = []") simp_all
qed

lemma trim_integer_shape:
  assumes "list_all is_digit s"
  shows "list_all is_digit (trim_integer s) \<and>
    (trim_integer s = ''0'' \<or> trim_integer s \<noteq> [] \<and> hd (trim_integer s) \<noteq> CHR ''0'')"
proof -
  have "list_all is_digit (dropWhile (\<lambda>c. c = CHR ''0'') s)"
    using assms by (auto simp: list_all_iff dest: set_dropWhileD)
  then show ?thesis
    using hd_dropWhile [of "\<lambda>c. c = CHR ''0''" s] by (auto simp: trim_integer_def Let_def)
qed

lemma trim_fraction_shape:
  assumes "list_all is_digit s"
  shows "list_all is_digit (trim_fraction s) \<and>
    (trim_fraction s \<noteq> [] \<longrightarrow> last (trim_fraction s) \<noteq> CHR ''0'')"
proof
  show "list_all is_digit (trim_fraction s)"
    using assms by (auto simp: trim_fraction_def list_all_iff dest: set_dropWhileD)
  show "trim_fraction s \<noteq> [] \<longrightarrow> last (trim_fraction s) \<noteq> CHR ''0''"
    using hd_dropWhile [of "\<lambda>c. c = CHR ''0''" "rev s"]
    by (auto simp: trim_fraction_def last_rev simp del: dropWhile_eq_Nil_conv)
qed

lemma frac_value_pos:
  "list_all is_digit f \<Longrightarrow> f \<noteq> [] \<Longrightarrow> last f \<noteq> CHR ''0'' \<Longrightarrow> 0 < frac_value f"
proof (induction f rule: rev_induct)
  case (snoc c f)
  then have "digit_value c \<noteq> 0"
    by (simp add: digit_value_0_iff)
  then show ?case
    by (simp add: frac_value_def digits_value_snoc)
qed simp

lemma plain_value_split:
  "list_all is_digit w \<Longrightarrow>
     (of_nat (digits_value (w @ f)) :: rat) / 10 ^ length f = of_nat (digits_value w) + frac_value f"
  by (simp add: digits_value_append frac_value_def add_divide_distrib)

lemma normalize_correct:
  assumes "plain_decimal text"
  shows "nd_wf (normalize text) \<and> nd_value (normalize text) = plain_value text"
proof -
  define neg where "neg = (text \<noteq> [] \<and> hd text = CHR ''-'')"
  define body where "body = (if neg then tl text else text)"
  define w where "w = takeWhile (\<lambda>c. c \<noteq> CHR ''.'') body"
  define f where "f = drop (Suc (length w)) body"
  have digits: "list_all is_digit w" "list_all is_digit f"
    using assms unfolding plain_decimal_def Let_def neg_def [symmetric] body_def [symmetric]
      w_def [symmetric] f_def [symmetric] by auto
  have norm: "normalize text = \<lparr>nd_negative =
      (if trim_integer w = ''0'' \<and> trim_fraction f = [] then False else neg),
      nd_integer = trim_integer w, nd_fraction = trim_fraction f\<rparr>"
    unfolding normalize_def Let_def neg_def [symmetric] body_def [symmetric]
      w_def [symmetric] f_def [symmetric] ..
  have plain: "plain_value text = (if neg then - (of_nat (digits_value w) + frac_value f)
      else of_nat (digits_value w) + frac_value f)"
    unfolding plain_value_def Let_def neg_def [symmetric] body_def [symmetric]
      w_def [symmetric] f_def [symmetric] plain_value_split [OF digits(1)] ..
  have zero: "of_nat (digits_value w) + frac_value f = 0"
    if "trim_integer w = ''0''" "trim_fraction f = []"
    using that digits_value_trim_integer [of w] frac_value_trim [of f] by simp
  show ?thesis
    using trim_integer_shape [OF digits(1)] trim_fraction_shape [OF digits(2)] zero
    by (auto simp: norm plain nd_wf_def nd_value_def nd_magnitude_def
        digits_value_trim_integer frac_value_trim)
qed

text \<open>\<open>sgn\<close> of the difference is the sign convention of the comparison functions.\<close>

lemma fraction_compare_right_Nil:
  "list_all is_digit l \<Longrightarrow> fraction_compare l [] = (if 0 < frac_value l then 1 else 0)"
proof (induction l)
  case (Cons c l)
  have "digit_value c = 0 \<longleftrightarrow> c = CHR ''0''" "\<not> (of_char c :: nat) < 48"
    using Cons.prems by (auto simp: digit_value_0_iff is_digit_def)
  then show ?case
    using Cons frac_value_nonneg [of l] by (auto simp: frac_value_Cons zero_less_divide_iff add_pos_nonneg)
qed simp

lemma fraction_compare_left_Nil:
  "list_all is_digit r \<Longrightarrow> fraction_compare [] r = (if 0 < frac_value r then - 1 else 0)"
proof (induction r)
  case (Cons c r)
  have zero: "digit_value c = 0 \<longleftrightarrow> c = CHR ''0''"
    using Cons.prems by (simp add: digit_value_0_iff)
  then have "c \<noteq> CHR ''0'' \<Longrightarrow> (48 :: nat) < of_char c"
    by (simp add: digit_value_def)
  with zero show ?case
    using Cons frac_value_nonneg [of r] by (auto simp: frac_value_Cons zero_less_divide_iff add_pos_nonneg)
qed simp

lemma digit_frac_less:
  assumes "a < b" and "u < 1" and "0 \<le> v"
  shows "(of_nat a + u) / 10 < (of_nat b + v) / (10 :: rat)"
proof -
  have "(of_nat (Suc a) :: rat) \<le> of_nat b"
    using assms(1) by (subst of_nat_le_iff) simp
  then show ?thesis
    using assms(2,3) by simp
qed

lemma fraction_compare_correct:
  assumes "list_all is_digit l" and "list_all is_digit r"
  shows "of_int (fraction_compare l r) = sgn (frac_value l - frac_value r)"
  using assms
proof (induction l r rule: fraction_compare.induct)
  case (4 a l b r)
  then have u: "frac_value l < 1" "0 \<le> frac_value l" "frac_value r < 1" "0 \<le> frac_value r"
    and dig: "is_digit a" "is_digit b"
    using frac_value_less_1 frac_value_nonneg by auto
  show ?case
  proof (cases "digit_value a" "digit_value b" rule: linorder_cases)
    case less
    then show ?thesis
      using digit_frac_less [OF less u(1) u(4)] dig digit_value_less_iff [of a b]
      by (auto simp: frac_value_Cons)
  next
    case equal
    then have "a = b"
      using dig by (metis digit_char_digit_value)
    then show ?thesis
      using 4 by (simp add: frac_value_Cons diff_divide_distrib [symmetric] sgn_divide)
  next
    case greater
    then show ?thesis
      using digit_frac_less [OF greater u(3) u(2)] dig digit_value_less_iff [of b a]
      by (auto simp: frac_value_Cons)
  qed
next
  case (2 a l)
  then show ?case
    using fraction_compare_right_Nil [of "a # l"] frac_value_nonneg [of "a # l"] by auto
next
  case (3 b r)
  then show ?case
    using fraction_compare_left_Nil [of "b # r"] frac_value_nonneg [of "b # r"] by auto
qed simp

lemma integer_less_magnitude:
  assumes "nd_wf l" and "nd_wf r" and "digits_value (nd_integer l) < digits_value (nd_integer r)"
  shows "nd_magnitude l < nd_magnitude r"
proof -
  have "(of_nat (Suc (digits_value (nd_integer l))) :: rat) \<le> of_nat (digits_value (nd_integer r))"
    using assms(3) by (subst of_nat_le_iff) simp
  then show ?thesis
    using assms frac_value_less_1 [of "nd_fraction l"] frac_value_nonneg [of "nd_fraction r"]
    by (simp add: nd_magnitude_def nd_wf_def)
qed

lemma shorter_integer_less:
  assumes "nd_wf l" and "nd_wf r" and "length (nd_integer l) < length (nd_integer r)"
  shows "digits_value (nd_integer l) < digits_value (nd_integer r)"
proof -
  have r: "list_all is_digit (nd_integer r)" "nd_integer r \<noteq> []" "hd (nd_integer r) \<noteq> CHR ''0''"
    and l: "list_all is_digit (nd_integer l)"
    using assms by (auto simp: nd_wf_def)
  have "digits_value (nd_integer l) < 10 ^ length (nd_integer l)"
    using l by (rule digits_value_less)
  also have "\<dots> \<le> 10 ^ (length (nd_integer r) - 1)"
    using assms(3) by (intro power_increasing) auto
  also have "\<dots> \<le> digits_value (nd_integer r)"
    using r by (rule length_to_string_le)
  finally show ?thesis .
qed

lemma magnitude_compare_correct:
  assumes "nd_wf l" and "nd_wf r"
  shows "of_int (magnitude_compare l r) = sgn (nd_magnitude l - nd_magnitude r)"
proof (cases "length (nd_integer l)" "length (nd_integer r)" rule: linorder_cases)
  case less
  then show ?thesis
    using integer_less_magnitude [OF assms shorter_integer_less [OF assms less]]
    by (simp add: magnitude_compare_def)
next
  case greater
  then show ?thesis
    using integer_less_magnitude [OF assms(2,1) shorter_integer_less [OF assms(2,1) greater]]
    by (simp add: magnitude_compare_def)
next
  case equal
  have lt: "str_less (nd_integer l) (nd_integer r) \<Longrightarrow> nd_magnitude l < nd_magnitude r"
    using equal assms integer_less_magnitude [OF assms]
    by (simp add: str_less_digits nd_wf_def)
  have gt: "str_less (nd_integer r) (nd_integer l) \<Longrightarrow> nd_magnitude r < nd_magnitude l"
    using equal assms integer_less_magnitude [OF assms(2,1)]
    by (simp add: str_less_digits nd_wf_def)
  have eq: "of_int (fraction_compare (nd_fraction l) (nd_fraction r)) =
      sgn (nd_magnitude l - nd_magnitude r)" if "nd_integer l = nd_integer r"
    using that assms by (simp add: fraction_compare_correct nd_magnitude_def nd_wf_def)
  consider "str_less (nd_integer l) (nd_integer r)" | "nd_integer l = nd_integer r"
    | "str_less (nd_integer r) (nd_integer l)"
    using str_less_linear by blast
  then show ?thesis
  proof cases
    case 1
    then have "nd_integer l \<noteq> nd_integer r" by auto
    with 1 equal lt show ?thesis by (simp add: magnitude_compare_def)
  next
    case 2
    with equal eq show ?thesis by (simp add: magnitude_compare_def)
  next
    case 3
    then have "nd_integer l \<noteq> nd_integer r" "\<not> str_less (nd_integer l) (nd_integer r)"
      using str_less_trans str_less_irrefl by fastforce+
    with 3 equal gt show ?thesis by (simp add: magnitude_compare_def)
  qed
qed

lemma negative_magnitude_pos: "nd_wf d \<Longrightarrow> nd_negative d \<Longrightarrow> 0 < nd_magnitude d"
proof -
  assume wf: "nd_wf d" and neg: "nd_negative d"
  show ?thesis
  proof (cases "nd_fraction d = []")
    case True
    then have "list_all is_digit (nd_integer d)" "nd_integer d \<noteq> []" "hd (nd_integer d) \<noteq> CHR ''0''"
      using wf neg by (auto simp: nd_wf_def)
    then have "10 ^ (length (nd_integer d) - 1) \<le> digits_value (nd_integer d)"
      by (rule length_to_string_le)
    then have "0 < digits_value (nd_integer d)"
      by (metis gr0I not_le zero_less_numeral zero_less_power)
    with True show ?thesis by (simp add: nd_magnitude_def)
  next
    case False
    then show ?thesis
      using wf frac_value_pos [of "nd_fraction d"] by (simp add: nd_magnitude_def nd_wf_def add_nonneg_pos)
  qed
qed

lemma nd_magnitude_nonneg: "0 \<le> nd_magnitude d"
  by (simp add: nd_magnitude_def frac_value_nonneg)

lemma compare_decimal_spec:
  assumes "exact_wf a" and "exact_wf b"
  shows "of_int (compare_decimal a b) = sgn (exact_value a - exact_value b)"
proof -
  define l where "l = normalize (xd_text a)"
  define r where "r = normalize (xd_text b)"
  have l: "nd_wf l" "nd_value l = exact_value a" and r: "nd_wf r" "nd_value r = exact_value b"
    using assms normalize_correct by (auto simp: exact_wf_def exact_value_def l_def r_def)
  have sym: "of_int (- magnitude_compare l r) = sgn (nd_magnitude r - nd_magnitude l)"
    unfolding of_int_minus magnitude_compare_correct [OF l(1) r(1)] by (simp add: sgn_if)
  have mixed: "sgn (- x - y) = - 1" "sgn (y - (- x)) = 1" if "0 < x" "0 \<le> y" for x y :: rat
    using that by (simp_all add: sgn_if)
  show ?thesis
    unfolding compare_decimal_def Let_def l_def [symmetric] r_def [symmetric] l(2) [symmetric] r(2) [symmetric]
    using mixed [OF negative_magnitude_pos [OF l(1)] nd_magnitude_nonneg [of r]]
      mixed [OF negative_magnitude_pos [OF r(1)] nd_magnitude_nonneg [of l]]
      sym magnitude_compare_correct [OF l(1) r(1)]
    by (cases "nd_negative l"; cases "nd_negative r") (simp_all add: nd_value_def)
qed

lemma zero_decimal_iff: "exact_wf a \<Longrightarrow> zero_decimal a \<longleftrightarrow> exact_value a = 0"
  using compare_decimal_spec [of a exact_zero]
  by (auto simp: zero_decimal_def sgn_eq_0_iff)

lemma negative_iff: "exact_wf a \<Longrightarrow> nd_negative (normalize (xd_text a)) \<longleftrightarrow> exact_value a < 0"
  using normalize_correct [of "xd_text a"] negative_magnitude_pos [of "normalize (xd_text a)"]
    nd_magnitude_nonneg [of "normalize (xd_text a)"]
  by (auto simp: exact_wf_def exact_value_def nd_value_def split: if_splits)

lemma compare_ge_iff:
  "exact_wf a \<Longrightarrow> exact_wf b \<Longrightarrow> 0 \<le> compare_decimal a b \<longleftrightarrow> exact_value b \<le> exact_value a"
  using compare_decimal_spec [of a b]
  by (auto simp: sgn_if split: if_splits)

text \<open>
  C35. Exact decimals are compared exactly: the sign that \<open>compare\<close> computes from the texts, by
  length, by bytes and by zero-padded fraction digits, is the sign of the difference of the
  rational numbers, for texts of any length.
\<close>

theorem compare_decimal_correct:
  assumes "exact_parse s = Inr a" and "exact_parse t = Inr b"
  shows "of_int (compare_decimal a b) = sgn (plain_value s - plain_value t)"
  using assms compare_decimal_spec exact_parse_wf by (metis exact_value_def)

theorem compare_decimal_correct_witness:
  "of_int (compare_decimal \<lparr>xd_text = ''-00.50''\<rparr> \<lparr>xd_text = ''-.5''\<rparr>)
     = sgn (plain_value ''-00.50'' - plain_value ''-.5'')"
  by (rule compare_decimal_correct) code_simp+

end
