(* ===== verification/Lifecycle.thy ===== *)
theory Lifecycle
  imports Order_Types Exact_Compare "HOL-Library.List_Lexorder" "HOL-Library.Char_ord"
    "HOL-Library.Multiset"
begin

text \<open>
  \<^verbatim>\<open>src/lifecycle.cpp\<close>: the \<open>OrderTracker\<close>. Its \<^verbatim>\<open>unordered_map\<close> is an association list
  whose order stands for the (unspecified) iteration order; every operation returns its
  \<^verbatim>\<open>Result\<close> and the tracker after the call. \<open>tracker_op\<close> collects the mutating operations, so
  that invariants are proved once for every history of calls.
\<close>

section \<open>State and operations\<close>

record order_tracker =
  tk_orders :: "(string \<times> tracked_order) list"

definition empty_tracker :: order_tracker where
  "empty_tracker = \<lparr>tk_orders = []\<rparr>"

definition valid_hash :: "string \<Rightarrow> bool" where
  "valid_hash h \<longleftrightarrow> length h = 66 \<and> starts_with h ''0x'' \<and> list_all is_xdigit (drop 2 h)"

definition find_order :: "order_tracker \<Rightarrow> string \<Rightarrow> tracked_order option" where
  "find_order tk h = map_of (tk_orders tk) h"

definition tracker_size :: "order_tracker \<Rightarrow> nat" where
  "tracker_size tk = length (tk_orders tk)"

text \<open>A write through the pointer that \<open>find\<close> returns.\<close>

definition write_order :: "order_tracker \<Rightarrow> string \<Rightarrow> tracked_order \<Rightarrow> order_tracker" where
  "write_order tk h t =
     tk\<lparr>tk_orders := map (\<lambda>(k, v). (k, if k = h then t else v)) (tk_orders tk)\<rparr>"

definition derive_fill_state :: "tracked_order \<Rightarrow> tracked_order" where
  "derive_fill_state t =
     (if zero_decimal (to_amount_filled t) then t
      else t\<lparr>to_state := if compare_decimal (to_amount_filled t) (to_amount t) \<ge> 0
                         then filled else partially_filled\<rparr>)"

definition unknown_order :: "string \<Rightarrow> error" where
  "unknown_order h = mk_error invalid_argument ''order is not tracked'' h"

definition begin_submission ::
    "order_tracker \<Rightarrow> string \<Rightarrow> exact_decimal \<Rightarrow> tracked_order result \<times> order_tracker" where
  "begin_submission tk h amount =
     (if \<not> valid_hash h
      then (Inl (mk_error invalid_argument
                   ''order hash must be 0x followed by 64 hex characters'' ''hash''), tk)
      else if nd_negative (normalize (xd_text amount)) \<or> zero_decimal amount
      then (Inl (mk_error invalid_quantity ''tracked order amount must be positive'' ''amount''), tk)
      else if find_order tk h \<noteq> None
      then (Inl (mk_error invalid_argument ''order hash is already tracked'' ''hash''), tk)
      else
        let t = \<lparr>to_order_hash = h, to_order_id = None, to_amount = amount,
                 to_amount_filled = exact_zero, to_state = submission_pending,
                 to_reconciliation_required = False, to_stream_generation = 0,
                 to_last_event_timestamp_ms = 0, to_reason = ''''\<rparr>
        in (Inr t, tk\<lparr>tk_orders := tk_orders tk @ [(h, t)]\<rparr>))"

definition apply_create_outcome ::
    "order_tracker \<Rightarrow> string \<Rightarrow> create_order_receipt mutation_outcome
       \<Rightarrow> bool result \<times> order_tracker" where
  "apply_create_outcome tk h outcome =
     (case find_order tk h of
        None \<Rightarrow> (Inl (unknown_order h), tk)
      | Some t \<Rightarrow>
          if mo_disposition outcome = ambiguous
          then (Inr True, write_order tk h
                  (t\<lparr>to_state := ls_ambiguous, to_reconciliation_required := True,
                     to_reason := (case mo_ambiguity outcome of Some e \<Rightarrow> err_message e
                                   | None \<Rightarrow> ''mutation result is ambiguous'')\<rparr>))
          else case mo_receipt outcome of
            None \<Rightarrow> (Inl (mk_error protocol_error
                      ''acknowledged create outcome has no receipt'' ''receipt''), tk)
          | Some receipt \<Rightarrow>
              if rc_order_hash receipt \<noteq> to_order_hash t
              then (Inl (mk_error protocol_error
                      ''create receipt hash does not match tracked order'' ''hash''), tk)
              else (Inr True, write_order tk h
                      (t\<lparr>to_order_id := Some (rc_order_id receipt), to_state := accepted,
                         to_reason := rc_code receipt\<rparr>)))"

definition mark_submission_rejected ::
    "order_tracker \<Rightarrow> string \<Rightarrow> error \<Rightarrow> bool result \<times> order_tracker" where
  "mark_submission_rejected tk h e =
     (case find_order tk h of
        None \<Rightarrow> (Inl (unknown_order h), tk)
      | Some t \<Rightarrow>
          if to_state t = rejected then (Inr False, tk)
          else if to_state t \<noteq> submission_pending
          then (Inl (mk_error protocol_error
                  ''submission rejection conflicts with a later order state'' ''state''), tk)
          else (Inr True, write_order tk h
                  (t\<lparr>to_state := rejected, to_reconciliation_required := False,
                     to_reason := if err_message e = [] then ''order submission rejected''
                                  else err_message e\<rparr>)))"

definition rest_order_update :: "tracked_order \<Rightarrow> order_record \<Rightarrow> tracked_order" where
  "rest_order_update t order =
     (let t1 = t\<lparr>to_order_id := Some (or_id order), to_amount := or_amount order,
                 to_amount_filled := or_amount_filled order, to_reason := ev_raw (or_status order)\<rparr>
      in case ev_value (or_status order) of
           status_open \<Rightarrow> (derive_fill_state (t1\<lparr>to_state := ls_open\<rparr>))\<lparr>to_reconciliation_required := False\<rparr>
         | status_matched \<Rightarrow> t1\<lparr>to_state := filled, to_reconciliation_required := False\<rparr>
         | status_cancelled \<Rightarrow> t1\<lparr>to_state := ls_cancelled, to_reconciliation_required := False\<rparr>
         | status_expired \<Rightarrow> t1\<lparr>to_state := expired, to_reconciliation_required := False\<rparr>
         | status_invalidated \<Rightarrow> t1\<lparr>to_state := rejected, to_reconciliation_required := False\<rparr>
         | status_failed \<Rightarrow> t1\<lparr>to_state := rejected, to_reconciliation_required := False\<rparr>
         | status_unknown \<Rightarrow> t1\<lparr>to_state := ls_unknown, to_reconciliation_required := True\<rparr>)"

definition apply_rest_order :: "order_tracker \<Rightarrow> order_record \<Rightarrow> bool result \<times> order_tracker" where
  "apply_rest_order tk order =
     (let h = co_hash (or_order order) in
      case find_order tk h of
        None \<Rightarrow> (Inl (unknown_order h), tk)
      | Some t \<Rightarrow> (Inr True, write_order tk h (rest_order_update t order)))"

definition wallet_event_update :: "tracked_order \<Rightarrow> wallet_event \<Rightarrow> tracked_order" where
  "wallet_event_update t event =
     (let t1 = t\<lparr>to_order_id := (if we_order_id event = [] then to_order_id t else Some (we_order_id event)),
                 to_last_event_timestamp_ms := we_timestamp_ms event,
                 to_amount := wd_quantity (we_details event),
                 to_amount_filled := wd_quantity_filled (we_details event),
                 to_reason := (case we_reason event of Some r \<Rightarrow> r | None \<Rightarrow> ev_raw (we_type event))\<rparr>
      in case ev_value (we_type event) of
           order_accepted \<Rightarrow> (derive_fill_state (t1\<lparr>to_state := ls_open\<rparr>))\<lparr>to_reconciliation_required := False\<rparr>
         | order_not_accepted \<Rightarrow> t1\<lparr>to_state := rejected, to_reconciliation_required := False\<rparr>
         | order_expired \<Rightarrow> t1\<lparr>to_state := expired, to_reconciliation_required := False\<rparr>
         | order_cancelled \<Rightarrow> t1\<lparr>to_state := ls_cancelled, to_reconciliation_required := False\<rparr>
         | order_transaction_submitted \<Rightarrow>
             t1\<lparr>to_state := transaction_pending, to_reconciliation_required := False\<rparr>
         | order_transaction_success \<Rightarrow>
             (derive_fill_state (t1\<lparr>to_state := accepted\<rparr>))\<lparr>to_reconciliation_required := False\<rparr>
         | order_transaction_failed \<Rightarrow>
             t1\<lparr>to_state := transaction_failed, to_reconciliation_required := False\<rparr>
         | wallet_event_unknown \<Rightarrow> t1\<lparr>to_state := ls_unknown, to_reconciliation_required := True\<rparr>)"

definition apply_wallet_event :: "order_tracker \<Rightarrow> wallet_event \<Rightarrow> bool result \<times> order_tracker" where
  "apply_wallet_event tk event =
     (let h = we_order_hash event in
      case find_order tk h of
        None \<Rightarrow> (Inl (unknown_order h), tk)
      | Some t \<Rightarrow> (Inr True, write_order tk h (wallet_event_update t event)))"

definition mark_book_removed :: "order_tracker \<Rightarrow> string \<Rightarrow> bool result \<times> order_tracker" where
  "mark_book_removed tk h =
     (case find_order tk h of
        None \<Rightarrow> (Inl (unknown_order h), tk)
      | Some t \<Rightarrow> (Inr True, write_order tk h
          (t\<lparr>to_state := book_removed,
             to_reason := ''removed from off-chain orderbook; on-chain order remains valid'',
             to_reconciliation_required := True\<rparr>)))"

definition quarantine :: "nat \<Rightarrow> tracked_order \<Rightarrow> tracked_order" where
  "quarantine g t = t\<lparr>to_reconciliation_required := True, to_stream_generation := g\<rparr>"

definition require_reconciliation :: "order_tracker \<Rightarrow> nat \<Rightarrow> order_tracker" where
  "require_reconciliation tk g =
     tk\<lparr>tk_orders := map (\<lambda>(k, t). (k, if terminal t then t else quarantine g t)) (tk_orders tk)\<rparr>"

text \<open>
  The first loop of \<open>reconcile\<close> carries the set of observed hashes, the count and the tracker.
  The set of the source is only tested for membership.
\<close>

fun reconcile_loop ::
    "nat \<Rightarrow> order_record list \<Rightarrow> string list \<times> nat \<times> order_tracker \<Rightarrow> string list \<times> nat \<times> order_tracker" where
  "reconcile_loop g [] acc = acc"
| "reconcile_loop g (order # rest) (seen, n, tk) =
     (let h = co_hash (or_order order) in
      if find_order tk h = None then reconcile_loop g rest (seen, n, tk)
      else
        let tk1 = snd (apply_rest_order tk order);
            tk2 = (case find_order tk1 h of
                     None \<Rightarrow> tk1
                   | Some t \<Rightarrow> write_order tk1 h (t\<lparr>to_stream_generation := g\<rparr>))
        in reconcile_loop g rest (h # seen, Suc n, tk2))"

definition unresolved :: "string list \<Rightarrow> string \<times> tracked_order \<Rightarrow> bool" where
  "unresolved seen kt \<longleftrightarrow> \<not> terminal (snd kt) \<and> fst kt \<notin> set seen"

definition reconcile ::
    "order_tracker \<Rightarrow> nat \<Rightarrow> order_record list \<Rightarrow> reconciliation_report \<times> order_tracker" where
  "reconcile tk g snapshot =
     (let (seen, n, tk1) = reconcile_loop g snapshot ([], 0, tk) in
      (\<lparr>rp_tracked = tracker_size tk, rp_observed = n,
        rp_unresolved_hashes = map fst (List.filter (unresolved seen) (tk_orders tk1))\<rparr>,
       tk1\<lparr>tk_orders := map (\<lambda>(k, t). (k, if unresolved seen (k, t) then quarantine g t else t))
              (tk_orders tk1)\<rparr>))"

definition tracker_snapshot :: "order_tracker \<Rightarrow> tracked_order list" where
  "tracker_snapshot tk = sort_key to_order_hash (map snd (tk_orders tk))"

fun restore_loop ::
    "tracked_order list \<Rightarrow> (string \<times> tracked_order) list \<Rightarrow> (string \<times> tracked_order) list result" where
  "restore_loop [] recovered = Inr recovered"
| "restore_loop (t # ts) recovered =
     (if \<not> valid_hash (to_order_hash t)
      then Inl (mk_error journal_corrupt ''journal contains an invalid order hash'' ''order_hash'')
      else if nd_negative (normalize (xd_text (to_amount t))) \<or> zero_decimal (to_amount t)
      then Inl (mk_error journal_corrupt ''journal contains a non-positive order amount'' ''amount'')
      else if nd_negative (normalize (xd_text (to_amount_filled t)))
      then Inl (mk_error journal_corrupt ''journal contains a negative filled amount'' ''amount_filled'')
      else if map_of recovered (to_order_hash t) \<noteq> None
      then Inl (mk_error journal_corrupt ''journal recovery produced duplicate order hashes'' ''order_hash'')
      else restore_loop ts (recovered @ [(to_order_hash t, t)]))"

definition restore :: "order_tracker \<Rightarrow> tracked_order list \<Rightarrow> bool result \<times> order_tracker" where
  "restore tk orders =
     (case restore_loop orders [] of
        Inl e \<Rightarrow> (Inl e, tk)
      | Inr recovered \<Rightarrow> (Inr True, tk\<lparr>tk_orders := recovered\<rparr>))"

text \<open>The mutating operations as one type, and a history of calls.\<close>

datatype tracker_op =
  Begin_Submission string exact_decimal
| Apply_Create_Outcome string "create_order_receipt mutation_outcome"
| Mark_Submission_Rejected string error
| Apply_Rest_Order order_record
| Apply_Wallet_Event wallet_event
| Mark_Book_Removed string
| Require_Reconciliation nat
| Reconcile nat "order_record list"

fun run_op :: "tracker_op \<Rightarrow> order_tracker \<Rightarrow> order_tracker" where
  "run_op (Begin_Submission h a) tk = snd (begin_submission tk h a)"
| "run_op (Apply_Create_Outcome h out) tk = snd (apply_create_outcome tk h out)"
| "run_op (Mark_Submission_Rejected h e) tk = snd (mark_submission_rejected tk h e)"
| "run_op (Apply_Rest_Order r) tk = snd (apply_rest_order tk r)"
| "run_op (Apply_Wallet_Event e) tk = snd (apply_wallet_event tk e)"
| "run_op (Mark_Book_Removed h) tk = snd (mark_book_removed tk h)"
| "run_op (Require_Reconciliation g) tk = require_reconciliation tk g"
| "run_op (Reconcile g s) tk = snd (reconcile tk g s)"

section \<open>The invariant\<close>

definition uncertain :: "order_lifecycle_state \<Rightarrow> bool" where
  "uncertain s \<longleftrightarrow> s = ls_ambiguous \<or> s = ls_unknown \<or> s = book_removed"

text \<open>
  An entry is filed under its own valid hash, holds two decimal texts and integers in the range
  of their types, and is quarantined
  (\<open>reconciliation_required\<close>) whenever its venue status is uncertain and never when its
  state is terminal.
\<close>

definition int64_ok :: "int \<Rightarrow> bool" where
  "int64_ok i \<longleftrightarrow> - (2 ^ 63) \<le> i \<and> i < 2 ^ 63"

definition entry_wf :: "string \<times> tracked_order \<Rightarrow> bool" where
  "entry_wf e \<longleftrightarrow> fst e = to_order_hash (snd e) \<and> valid_hash (fst e)
     \<and> exact_wf (to_amount (snd e)) \<and> exact_wf (to_amount_filled (snd e))
     \<and> (uncertain (to_state (snd e)) \<longrightarrow> to_reconciliation_required (snd e))
     \<and> (terminal (snd e) \<longrightarrow> \<not> to_reconciliation_required (snd e))
     \<and> to_stream_generation (snd e) < 2 ^ 64 \<and> int64_ok (to_last_event_timestamp_ms (snd e))"

definition tracker_wf :: "order_tracker \<Rightarrow> bool" where
  "tracker_wf tk \<longleftrightarrow> distinct (map fst (tk_orders tk)) \<and> list_all entry_wf (tk_orders tk)"

text \<open>The invariants of the argument types: decimals are parsed decimals, integers are in range.\<close>

definition record_wf :: "order_record \<Rightarrow> bool" where
  "record_wf r \<longleftrightarrow> exact_wf (or_amount r) \<and> exact_wf (or_amount_filled r)"

definition event_wf :: "wallet_event \<Rightarrow> bool" where
  "event_wf e \<longleftrightarrow> exact_wf (wd_quantity (we_details e)) \<and> exact_wf (wd_quantity_filled (we_details e))
     \<and> int64_ok (we_timestamp_ms e)"

fun op_wf :: "tracker_op \<Rightarrow> bool" where
  "op_wf (Begin_Submission h a) = exact_wf a"
| "op_wf (Apply_Rest_Order r) = record_wf r"
| "op_wf (Apply_Wallet_Event e) = event_wf e"
| "op_wf (Require_Reconciliation g) = (g < 2 ^ 64)"
| "op_wf (Reconcile g s) = (g < 2 ^ 64 \<and> list_all record_wf s)"
| "op_wf _ = True"

lemma map_of_map_values:
  "map_of (map (\<lambda>(k, v). (k, f k v)) xs) k = map_option (f k) (map_of xs k)"
  by (induction xs) auto

lemma keys_map_values [simp]: "map fst (map (\<lambda>(k, v). (k, f k v)) xs) = map fst xs"
  by (induction xs) auto

lemma keys_write_order [simp]: "map fst (tk_orders (write_order tk h t)) = map fst (tk_orders tk)"
  by (simp add: write_order_def del: map_map)

lemma find_write_order:
  "find_order (write_order tk h t) k =
     (if k = h then map_option (\<lambda>_. t) (find_order tk h) else find_order tk k)"
  by (auto simp: find_order_def write_order_def map_of_map_values option.map_ident_strong)

lemma find_order_entry: "tracker_wf tk \<Longrightarrow> find_order tk h = Some t \<Longrightarrow> entry_wf (h, t)"
  by (auto simp: tracker_wf_def find_order_def list_all_iff dest: map_of_SomeD)

lemma tracker_wf_write:
  "tracker_wf tk \<Longrightarrow> entry_wf (h, t) \<Longrightarrow> tracker_wf (write_order tk h t)"
  by (auto simp: tracker_wf_def) (auto simp: write_order_def list_all_iff)


lemma derive_fill_not_uncertain:
  "\<not> uncertain (to_state t) \<Longrightarrow> \<not> uncertain (to_state (derive_fill_state t))"
  by (auto simp: derive_fill_state_def uncertain_def)

lemma derive_fill_simps [simp]:
  "to_order_hash (derive_fill_state t) = to_order_hash t"
  "to_amount (derive_fill_state t) = to_amount t"
  "to_amount_filled (derive_fill_state t) = to_amount_filled t"
  "to_stream_generation (derive_fill_state t) = to_stream_generation t"
  "to_last_event_timestamp_ms (derive_fill_state t) = to_last_event_timestamp_ms t"
  by (auto simp: derive_fill_state_def)

lemma uncertain_simps [simp]:
  "uncertain ls_ambiguous" "uncertain ls_unknown" "uncertain book_removed"
  "\<not> uncertain submission_pending" "\<not> uncertain accepted" "\<not> uncertain ls_open"
  "\<not> uncertain filled" "\<not> uncertain ls_cancelled" "\<not> uncertain expired" "\<not> uncertain rejected"
  "\<not> uncertain transaction_pending" "\<not> uncertain transaction_failed" "\<not> uncertain partially_filled"
  by (simp_all add: uncertain_def)

lemma entry_wf_rest:
  "entry_wf (h, t) \<Longrightarrow> record_wf r \<Longrightarrow> entry_wf (h, rest_order_update t r)"
  by (cases "ev_value (or_status r)")
    (auto simp: rest_order_update_def entry_wf_def record_wf_def derive_fill_not_uncertain
      terminal_def Let_def)

lemma entry_wf_wallet:
  "entry_wf (h, t) \<Longrightarrow> event_wf e \<Longrightarrow> entry_wf (h, wallet_event_update t e)"
  by (cases "ev_value (we_type e)")
    (auto simp: wallet_event_update_def entry_wf_def event_wf_def derive_fill_not_uncertain
      terminal_def Let_def)

lemma entry_wf_quarantine [simp]:
  "entry_wf (h, t) \<Longrightarrow> \<not> terminal t \<Longrightarrow> g < 2 ^ 64 \<Longrightarrow> entry_wf (h, quarantine g t)"
  by (auto simp: entry_wf_def quarantine_def terminal_def)

lemma tracker_wf_begin:
  assumes "tracker_wf tk" and "exact_wf a"
  shows "tracker_wf (snd (begin_submission tk h a))"
proof -
  have "find_order tk h = None \<Longrightarrow> h \<notin> fst ` set (tk_orders tk)"
    by (simp add: find_order_def map_of_eq_None_iff)
  then show ?thesis
    using assms
    by (auto simp: begin_submission_def tracker_wf_def entry_wf_def terminal_def int64_ok_def Let_def)
qed

lemma tracker_wf_create:
  "tracker_wf tk \<Longrightarrow> tracker_wf (snd (apply_create_outcome tk h out))"
  by (auto simp: apply_create_outcome_def split: option.splits intro!: tracker_wf_write)
    (auto simp: entry_wf_def terminal_def dest: find_order_entry)

lemma tracker_wf_rejected:
  "tracker_wf tk \<Longrightarrow> tracker_wf (snd (mark_submission_rejected tk h e))"
  by (auto simp: mark_submission_rejected_def split: option.splits intro!: tracker_wf_write)
    (auto simp: entry_wf_def dest: find_order_entry)

lemma tracker_wf_removed: "tracker_wf tk \<Longrightarrow> tracker_wf (snd (mark_book_removed tk h))"
  by (auto simp: mark_book_removed_def split: option.splits intro!: tracker_wf_write)
    (auto simp: entry_wf_def terminal_def dest: find_order_entry)

lemma tracker_wf_rest:
  "tracker_wf tk \<Longrightarrow> record_wf r \<Longrightarrow> tracker_wf (snd (apply_rest_order tk r))"
  by (auto simp: apply_rest_order_def Let_def split: option.splits
      intro!: tracker_wf_write entry_wf_rest dest: find_order_entry)

lemma tracker_wf_event:
  "tracker_wf tk \<Longrightarrow> event_wf e \<Longrightarrow> tracker_wf (snd (apply_wallet_event tk e))"
  by (auto simp: apply_wallet_event_def Let_def split: option.splits
      intro!: tracker_wf_write entry_wf_wallet dest: find_order_entry)

lemma tracker_wf_map:
  assumes "tracker_wf tk" and "\<And>k t. entry_wf (k, t) \<Longrightarrow> entry_wf (k, f k t)"
  shows "tracker_wf (tk\<lparr>tk_orders := map (\<lambda>(k, t). (k, f k t)) (tk_orders tk)\<rparr>)"
  using assms by (auto simp: tracker_wf_def list_all_iff simp del: map_map)

lemma tracker_wf_require: "tracker_wf tk \<Longrightarrow> g < 2 ^ 64 \<Longrightarrow> tracker_wf (require_reconciliation tk g)"
  unfolding require_reconciliation_def by (rule tracker_wf_map) auto

lemma tracker_wf_generation:
  "tracker_wf tk \<Longrightarrow> find_order tk h = Some t \<Longrightarrow> g < 2 ^ 64 \<Longrightarrow>
     tracker_wf (write_order tk h (t\<lparr>to_stream_generation := g\<rparr>))"
  by (rule tracker_wf_write) (auto simp: entry_wf_def terminal_def dest: find_order_entry)

lemma tracker_wf_reconcile_loop:
  "reconcile_loop g s (seen, n, tk) = (seen', n', tk') \<Longrightarrow> list_all record_wf s \<Longrightarrow>
     g < 2 ^ 64 \<Longrightarrow> tracker_wf tk \<Longrightarrow> tracker_wf tk'"
proof (induction s arbitrary: seen n tk)
  case (Cons r s)
  then show ?case
    by (auto simp: Let_def tracker_wf_rest tracker_wf_generation split: if_splits option.splits)
qed simp

lemma tracker_wf_reconcile:
  assumes "tracker_wf tk" and "list_all record_wf s" and "g < 2 ^ 64"
  shows "tracker_wf (snd (reconcile tk g s))"
proof -
  obtain seen n tk' where loop: "reconcile_loop g s ([], 0, tk) = (seen, n, tk')"
    by (metis prod_cases3)
  then have "tracker_wf tk'"
    using tracker_wf_reconcile_loop assms by blast
  then have "tracker_wf (tk'\<lparr>tk_orders := map (\<lambda>(k, t). (k, if unresolved seen (k, t) then quarantine g t else t))
      (tk_orders tk')\<rparr>)"
    using assms(3) by (intro tracker_wf_map) (auto simp: unresolved_def)
  then show ?thesis
    by (simp add: reconcile_def loop)
qed

lemma tracker_wf_op: "tracker_wf tk \<Longrightarrow> op_wf p \<Longrightarrow> tracker_wf (run_op p tk)"
  by (cases p)
    (simp_all add: tracker_wf_begin tracker_wf_create tracker_wf_rejected tracker_wf_rest
      tracker_wf_event tracker_wf_removed tracker_wf_require tracker_wf_reconcile)

lemma tracker_wf_empty [simp]: "tracker_wf empty_tracker"
  by (simp add: tracker_wf_def empty_tracker_def)

lemma tracker_wf_history: "list_all op_wf ops \<Longrightarrow> tracker_wf tk \<Longrightarrow> tracker_wf (fold run_op ops tk)"
  by (induction ops arbitrary: tk) (auto simp: tracker_wf_op)

section \<open>Properties\<close>

text \<open>
  C13. Quarantine invariant of the order tracker: after any history of calls, every order is filed
  under its own valid hash; an order whose venue status is uncertain (an ambiguous submission,
  an unknown status, a removal from the off-chain book) requires reconciliation; and an order
  that may be rebuilt with a new nonce is terminal and requires none.
\<close>

theorem tracker_quarantine_invariant:
  assumes "list_all op_wf ops" and "find_order (fold run_op ops empty_tracker) h = Some t"
  shows "to_order_hash t = h \<and> valid_hash h \<and>
    (uncertain (to_state t) \<longrightarrow> to_reconciliation_required t) \<and>
    (safe_to_rebuild_with_new_nonce t \<longrightarrow> terminal t \<and> \<not> to_reconciliation_required t)"
proof -
  have "entry_wf (h, t)"
    using assms tracker_wf_history tracker_wf_empty find_order_entry by blast
  then show ?thesis
    by (auto simp: entry_wf_def safe_to_rebuild_with_new_nonce_def terminal_def)
qed

definition sample_hash :: string where
  "sample_hash = ''0x'' @ replicate 64 (CHR ''a'')"

theorem tracker_quarantine_invariant_witness:
  "\<exists>t. find_order (fold run_op [Begin_Submission sample_hash \<lparr>xd_text = ''5''\<rparr>, Mark_Book_Removed sample_hash]
          empty_tracker) sample_hash = Some t \<and> uncertain (to_state t) \<and> to_reconciliation_required t"
proof -
  define ops where "ops = [Begin_Submission sample_hash \<lparr>xd_text = ''5''\<rparr>, Mark_Book_Removed sample_hash]"
  have "map_option (\<lambda>t. uncertain (to_state t)) (find_order (fold run_op ops empty_tracker) sample_hash) = Some True"
    unfolding ops_def by code_simp
  then obtain t where t: "find_order (fold run_op ops empty_tracker) sample_hash = Some t" "uncertain (to_state t)"
    by auto
  have "list_all op_wf ops"
    unfolding ops_def by code_simp
  then show ?thesis
    using tracker_quarantine_invariant [OF _ t(1)] t unfolding ops_def by blast
qed

text \<open>The last record of a snapshot for a hash decides what reconciliation stores.\<close>

definition last_record :: "order_record list \<Rightarrow> string \<Rightarrow> order_record option" where
  "last_record s h = List.find (\<lambda>r. co_hash (or_order r) = h) (rev s)"

lemma rest_order_update_twice:
  "rest_order_update ((rest_order_update t r1)\<lparr>to_stream_generation := g\<rparr>) r2 =
   (rest_order_update t r2)\<lparr>to_stream_generation := g\<rparr>"
  by (cases t; cases "ev_value (or_status r1)"; cases "ev_value (or_status r2)")
    (auto simp: rest_order_update_def derive_fill_state_def Let_def)

lemma find_snoc: "List.find P (xs @ ys) = (case List.find P xs of None \<Rightarrow> List.find P ys | Some x \<Rightarrow> Some x)"
  by (induction xs) auto

lemma last_record_Cons:
  "last_record (r # s) h =
     (case last_record s h of Some r' \<Rightarrow> Some r' | None \<Rightarrow> if co_hash (or_order r) = h then Some r else None)"
  by (simp add: last_record_def find_snoc split: option.split)

lemma last_record_None: "last_record s h = None \<longleftrightarrow> h \<notin> (co_hash \<circ> or_order) ` set s"
  by (auto simp: last_record_def find_None_iff)

definition observe :: "nat \<Rightarrow> order_record list \<Rightarrow> string \<Rightarrow> tracked_order \<Rightarrow> tracked_order" where
  "observe g s h t = (case last_record s h of
      None \<Rightarrow> t | Some r \<Rightarrow> (rest_order_update t r)\<lparr>to_stream_generation := g\<rparr>)"

lemma find_after_rest:
  "find_order tk (co_hash (or_order r)) = Some t \<Longrightarrow>
     find_order (snd (apply_rest_order tk r)) h =
       (if h = co_hash (or_order r) then Some (rest_order_update t r) else find_order tk h)"
  by (simp add: apply_rest_order_def find_write_order Let_def)

lemma keys_rest [simp]: "map fst (tk_orders (snd (apply_rest_order tk r))) = map fst (tk_orders tk)"
  by (simp add: apply_rest_order_def Let_def split: option.split)

lemma reconcile_loop_spec:
  assumes "reconcile_loop g s (seen, n, tk) = (seen', n', tk')"
  shows "find_order tk' h = map_option (observe g s h) (find_order tk h) \<and>
    map fst (tk_orders tk') = map fst (tk_orders tk) \<and>
    n' = n + length (List.filter (\<lambda>r. find_order tk (co_hash (or_order r)) \<noteq> None) s) \<and>
    (find_order tk h \<noteq> None \<longrightarrow> (h \<in> set seen' \<longleftrightarrow> h \<in> set seen \<or> last_record s h \<noteq> None))"
  using assms
proof (induction s arbitrary: seen n tk)
  case Nil
  then show ?case
    by (auto simp: observe_def last_record_def option.map_ident)
next
  case (Cons r s)
  define k where "k = co_hash (or_order r)"
  show ?case
  proof (cases "find_order tk k")
    case None
    have rec: "reconcile_loop g s (seen, n, tk) = (seen', n', tk')"
      using Cons.prems None by (simp add: Let_def k_def)
    have obs: "find_order tk h \<noteq> None \<Longrightarrow> last_record (r # s) h = last_record s h"
      using None by (auto simp: last_record_Cons k_def split: option.split)
    show ?thesis
      using Cons.IH [OF rec] None obs
      by (cases "find_order tk h") (auto simp: observe_def k_def)
  next
    case (Some t)
    define tk2 where "tk2 = write_order (snd (apply_rest_order tk r)) k
      ((rest_order_update t r)\<lparr>to_stream_generation := g\<rparr>)"
    have found: "find_order (snd (apply_rest_order tk r)) k = Some (rest_order_update t r)"
      using Some find_after_rest [of tk r t k] by (simp add: k_def)
    have rec: "reconcile_loop g s (k # seen, Suc n, tk2) = (seen', n', tk')"
      using Cons.prems Some found by (simp add: Let_def k_def [symmetric] tk2_def)
    have find2: "find_order tk2 h' =
        (if h' = k then Some ((rest_order_update t r)\<lparr>to_stream_generation := g\<rparr>) else find_order tk h')" for h'
      using found find_after_rest [of tk r t h'] Some by (auto simp: tk2_def find_write_order k_def)
    then have dom: "find_order tk2 h' = None \<longleftrightarrow> find_order tk h' = None" for h'
      using Some by auto
    have obs: "map_option (observe g s h) (find_order tk2 h) = map_option (observe g (r # s) h) (find_order tk h)"
      using Some by (auto simp: find2 observe_def last_record_Cons rest_order_update_twice k_def
          split: option.split intro!: option.map_cong)
    have seen: "h \<in> set (k # seen) \<or> last_record s h \<noteq> None \<longleftrightarrow> h \<in> set seen \<or> last_record (r # s) h \<noteq> None"
      by (auto simp: last_record_Cons k_def split: option.split)
    have keys: "map fst (tk_orders tk2) = map fst (tk_orders tk)"
      by (simp add: tk2_def)
    show ?thesis
      using Cons.IH [OF rec] Some seen unfolding obs keys dom by (simp add: k_def [symmetric])
  qed
qed

definition reconciled_order :: "nat \<Rightarrow> order_record list \<Rightarrow> string \<Rightarrow> tracked_order \<Rightarrow> tracked_order" where
  "reconciled_order g s h t =
     (case last_record s h of
        Some r \<Rightarrow> (rest_order_update t r)\<lparr>to_stream_generation := g\<rparr>
      | None \<Rightarrow> if terminal t then t else quarantine g t)"

lemma reconcile_spec:
  assumes "tracker_wf tk" and "reconcile tk g s = (rep, tk')"
  shows "find_order tk' h = map_option (reconciled_order g s h) (find_order tk h) \<and>
    (h \<in> set (rp_unresolved_hashes rep) \<longleftrightarrow>
       (\<exists>t. find_order tk h = Some t \<and> \<not> terminal t \<and> h \<notin> (co_hash \<circ> or_order) ` set s)) \<and>
    rp_tracked rep = tracker_size tk \<and>
    rp_observed rep = length (List.filter (\<lambda>r. find_order tk (co_hash (or_order r)) \<noteq> None) s)"
proof -
  obtain seen n tk1 where loop: "reconcile_loop g s ([], 0, tk) = (seen, n, tk1)"
    by (metis prod_cases3)
  note spec = reconcile_loop_spec [OF loop]
  have rep: "rep = \<lparr>rp_tracked = tracker_size tk, rp_observed = n,
      rp_unresolved_hashes = map fst (List.filter (unresolved seen) (tk_orders tk1))\<rparr>"
    and tk': "find_order tk' h = map_option (\<lambda>t. if unresolved seen (h, t) then quarantine g t else t)
      (find_order tk1 h)"
    using assms(2)
    by (auto simp: reconcile_def loop find_order_def
        map_of_map_values [where f = "\<lambda>k t. if unresolved seen (k, t) then quarantine g t else t"])
  have dist: "distinct (map fst (tk_orders tk1))"
    using spec assms(1) by (simp add: tracker_wf_def)
  have mem: "h \<in> set (rp_unresolved_hashes rep) \<longleftrightarrow>
      (\<exists>t. find_order tk1 h = Some t \<and> unresolved seen (h, t))"
    using dist by (force simp: rep find_order_def)
  have seen: "find_order tk h = Some t \<Longrightarrow> h \<in> set seen \<longleftrightarrow> last_record s h \<noteq> None" for t
    using spec by simp
  have "h \<in> set (rp_unresolved_hashes rep) \<longleftrightarrow>
       (\<exists>t. find_order tk h = Some t \<and> \<not> terminal t \<and> last_record s h = None)"
    using spec seen by (auto simp: mem unresolved_def observe_def split: option.splits)
  moreover have "find_order tk' h = map_option (reconciled_order g s h) (find_order tk h)"
    using spec seen unfolding tk'
    by (cases "find_order tk h") (auto simp: reconciled_order_def unresolved_def observe_def split: option.split)
  ultimately show ?thesis
    using spec by (simp add: rep last_record_None)
qed

text \<open>
  C14. Reconciliation is exact. Against a complete snapshot, every tracked order that appears in it
  takes the state of its last record and the new generation; every other order keeps its state
  if terminal and is quarantined under the new generation otherwise; the report lists exactly
  the quarantined hashes and counts exactly the snapshot records of tracked orders.
\<close>

theorem reconcile_exact:
  assumes "tracker_wf tk" and "reconcile tk g s = (rep, tk')"
  shows "find_order tk' h = map_option (reconciled_order g s h) (find_order tk h) \<and>
    (h \<in> set (rp_unresolved_hashes rep) \<longleftrightarrow>
       (\<exists>t. find_order tk h = Some t \<and> \<not> terminal t \<and> h \<notin> (co_hash \<circ> or_order) ` set s)) \<and>
    rp_tracked rep = tracker_size tk \<and>
    rp_observed rep = length (List.filter (\<lambda>r. find_order tk (co_hash (or_order r)) \<noteq> None) s)"
  using assms by (rule reconcile_spec)

theorem reconcile_exact_witness:
  "sample_hash \<in> set (rp_unresolved_hashes
     (fst (reconcile (run_op (Begin_Submission sample_hash \<lparr>xd_text = ''5''\<rparr>) empty_tracker) 3 [])))"
proof -
  define tk where "tk = run_op (Begin_Submission sample_hash \<lparr>xd_text = ''5''\<rparr>) empty_tracker"
  have "tracker_wf tk"
    unfolding tk_def by (rule tracker_wf_op) code_simp+
  moreover have "reconcile tk 3 [] = (fst (reconcile tk 3 []), snd (reconcile tk 3 []))"
    by simp
  moreover have "\<exists>t. find_order tk sample_hash = Some t \<and> \<not> terminal t"
  proof -
    have "map_option terminal (find_order tk sample_hash) = Some False"
      unfolding tk_def by code_simp
    then show ?thesis by auto
  qed
  ultimately show ?thesis
    using reconcile_exact [of tk 3 "[]" "fst (reconcile tk 3 [])" "snd (reconcile tk 3 [])" sample_hash]
    unfolding tk_def by auto
qed

text \<open>
  Fill states are exact: an order that the venue reports as open is stored as open, partially
  filled or filled according to the exact filled and total amounts, for amounts of any size.
\<close>

theorem open_order_fill_state:
  assumes "record_wf r" and "ev_value (or_status r) = status_open"
  shows "to_state (rest_order_update t r) =
    (if exact_value (or_amount_filled r) = 0 then ls_open
     else if exact_value (or_amount_filled r) \<ge> exact_value (or_amount r) then filled
     else partially_filled)"
  using assms
  by (simp add: rest_order_update_def derive_fill_state_def zero_decimal_iff compare_ge_iff record_wf_def)

definition sample_uint :: uint256 where "sample_uint = \<lparr>u256_text = ''1''\<rparr>"

definition sample_contract_order :: contract_order where
  "sample_contract_order = \<lparr>co_hash = sample_hash, co_salt = sample_uint, co_maker = evm_default,
     co_signer = evm_default, co_taker = None, co_token_id = sample_uint,
     co_maker_amount = sample_uint, co_taker_amount = sample_uint, co_expiration = sample_uint,
     co_nonce = sample_uint, co_fee_rate_bps = sample_uint,
     co_side = \<lparr>ev_value = side_buy, ev_raw = ''0''\<rparr>,
     co_signature_type = \<lparr>ev_value = sig_eoa, ev_raw = ''0''\<rparr>, co_signature = ''''\<rparr>"

definition sample_record :: "order_status \<Rightarrow> string \<Rightarrow> string \<Rightarrow> order_record" where
  "sample_record st amount done = \<lparr>or_order = sample_contract_order, or_id = ''7'', or_market_id = 1,
     or_currency = ''USDT'', or_amount = \<lparr>xd_text = amount\<rparr>, or_amount_filled = \<lparr>xd_text = done\<rparr>,
     or_is_neg_risk = False, or_is_yield_bearing = False,
     or_strategy = \<lparr>ev_value = strategy_limit, ev_raw = ''LIMIT''\<rparr>,
     or_status = \<lparr>ev_value = st, ev_raw = ''''\<rparr>, or_reward_earning_rate = exact_zero\<rparr>"

theorem open_order_fill_state_witness:
  "\<forall>t. to_state (rest_order_update t (sample_record status_open ''10'' ''9.99'')) = partially_filled"
proof
  fix t
  have "record_wf (sample_record status_open ''10'' ''9.99'')"
    "ev_value (or_status (sample_record status_open ''10'' ''9.99'')) = status_open"
    "exact_value (or_amount_filled (sample_record status_open ''10'' ''9.99'')) \<noteq> 0"
    "\<not> exact_value (or_amount_filled (sample_record status_open ''10'' ''9.99''))
       \<ge> exact_value (or_amount (sample_record status_open ''10'' ''9.99''))"
    by code_simp+
  then show "to_state (rest_order_update t (sample_record status_open ''10'' ''9.99'')) = partially_filled"
    by (simp add: open_order_fill_state)
qed

section \<open>Snapshot and restore\<close>

definition restorable :: "tracked_order \<Rightarrow> bool" where
  "restorable t \<longleftrightarrow> valid_hash (to_order_hash t) \<and> 0 < exact_value (to_amount t)
     \<and> 0 \<le> exact_value (to_amount_filled t)"

definition decimals_wf :: "tracked_order \<Rightarrow> bool" where
  "decimals_wf t \<longleftrightarrow> exact_wf (to_amount t) \<and> exact_wf (to_amount_filled t)"

lemma restore_guard:
  "exact_wf a \<Longrightarrow> (nd_negative (normalize (xd_text a)) \<or> zero_decimal a) \<longleftrightarrow> \<not> 0 < exact_value a"
  by (auto simp: negative_iff zero_decimal_iff)

lemma restore_loop_ok:
  assumes "list_all decimals_wf ts"
  shows "restore_loop ts rec = Inr r \<longleftrightarrow>
    list_all restorable ts \<and> distinct (map to_order_hash ts) \<and>
    (\<forall>t\<in>set ts. to_order_hash t \<notin> fst ` set rec) \<and>
    r = rec @ map (\<lambda>t. (to_order_hash t, t)) ts"
  using assms
proof (induction ts arbitrary: rec)
  case (Cons t ts)
  have "exact_wf (to_amount t)" "exact_wf (to_amount_filled t)"
    using Cons.prems by (auto simp: decimals_wf_def)
  then have "restore_loop (t # ts) rec = Inr r \<longleftrightarrow>
      restorable t \<and> to_order_hash t \<notin> fst ` set rec \<and>
      restore_loop ts (rec @ [(to_order_hash t, t)]) = Inr r"
    using restore_guard [of "to_amount t"] negative_iff [of "to_amount_filled t"]
    by (auto simp: restorable_def map_of_eq_None_iff)
  then show ?case
    using Cons by (auto simp: image_iff)
qed auto

lemma option_eqI: "(\<And>x. a = Some x \<longleftrightarrow> b = Some x) \<Longrightarrow> a = b"
  by (cases a; cases b) auto

lemma map_of_hash_list:
  assumes "distinct (map to_order_hash ts)"
  shows "map_of (map (\<lambda>t. (to_order_hash t, t)) ts) h = Some t \<longleftrightarrow> t \<in> set ts \<and> to_order_hash t = h"
  using assms by (subst map_of_eq_Some_iff) (auto simp: comp_def)

lemma find_order_iff:
  assumes "tracker_wf tk"
  shows "find_order tk h = Some t \<longleftrightarrow> t \<in> snd ` set (tk_orders tk) \<and> to_order_hash t = h"
proof -
  have "find_order tk h = Some t \<longleftrightarrow> (h, t) \<in> set (tk_orders tk)"
    using assms by (simp add: find_order_def tracker_wf_def)
  also have "\<dots> \<longleftrightarrow> t \<in> snd ` set (tk_orders tk) \<and> to_order_hash t = h"
    using assms by (force simp: tracker_wf_def list_all_iff entry_wf_def)
  finally show ?thesis .
qed

lemma snapshot_hashes:
  assumes "tracker_wf tk"
  shows "distinct (map to_order_hash (tracker_snapshot tk))"
proof -
  have "map to_order_hash (map snd (tk_orders tk)) = map fst (tk_orders tk)"
    using assms by (induction "tk_orders tk") (auto simp: tracker_wf_def entry_wf_def list_all_iff)
  then have "distinct (map to_order_hash (map snd (tk_orders tk)))"
    using assms by (simp only: tracker_wf_def)
  moreover have "mset (map to_order_hash (tracker_snapshot tk)) = mset (map to_order_hash (map snd (tk_orders tk)))"
    by (simp only: tracker_snapshot_def mset_map mset_sort)
  ultimately show ?thesis
    using mset_eq_imp_distinct_iff by blast
qed

lemma restore_snapshot:
  assumes "tracker_wf tk"
  shows "restore tk0 (tracker_snapshot tk) = (Inr True, tk') \<longleftrightarrow>
    (\<forall>h t. find_order tk h = Some t \<longrightarrow> restorable t) \<and>
    tk' = tk0\<lparr>tk_orders := map (\<lambda>t. (to_order_hash t, t)) (tracker_snapshot tk)\<rparr>"
proof -
  have set: "set (tracker_snapshot tk) = snd ` set (tk_orders tk)"
    by (simp add: tracker_snapshot_def)
  have wf: "list_all decimals_wf (tracker_snapshot tk)"
    using assms by (auto simp: list_all_iff set tracker_wf_def entry_wf_def decimals_wf_def)
  have "list_all restorable (tracker_snapshot tk) \<longleftrightarrow> (\<forall>h t. find_order tk h = Some t \<longrightarrow> restorable t)"
    by (auto simp: find_order_iff [OF assms] list_all_iff set)
  moreover have "restore_loop (tracker_snapshot tk) [] = Inr r \<longleftrightarrow>
      list_all restorable (tracker_snapshot tk) \<and> r = map (\<lambda>t. (to_order_hash t, t)) (tracker_snapshot tk)" for r
    using restore_loop_ok [OF wf, of "[]" r] snapshot_hashes [OF assms] by simp
  ultimately show ?thesis
    by (cases "restore_loop (tracker_snapshot tk) []") (auto simp: restore_def)
qed

lemma find_after_restore:
  assumes "distinct (map to_order_hash ts)"
  shows "find_order (tk0\<lparr>tk_orders := map (\<lambda>t. (to_order_hash t, t)) ts\<rparr>) h = Some t
    \<longleftrightarrow> t \<in> set ts \<and> to_order_hash t = h"
  using map_of_hash_list [OF assms] by (simp add: find_order_def)

text \<open>
  Snapshots restore: restoring the snapshot of a well-formed tracker succeeds exactly when
  every order has a positive amount and a non-negative filled amount, and the restored tracker
  then holds precisely the same orders.
\<close>

theorem snapshot_restore:
  assumes "tracker_wf tk"
  shows "(fst (restore tk0 (tracker_snapshot tk)) = Inr True \<longleftrightarrow>
      (\<forall>h t. find_order tk h = Some t \<longrightarrow> 0 < exact_value (to_amount t) \<and> 0 \<le> exact_value (to_amount_filled t))) \<and>
    (fst (restore tk0 (tracker_snapshot tk)) = Inr True \<longrightarrow>
      (\<forall>h. find_order (snd (restore tk0 (tracker_snapshot tk))) h = find_order tk h))"
proof -
  have valid: "find_order tk h = Some t \<Longrightarrow> valid_hash (to_order_hash t)" for h t
    using find_order_entry [OF assms] by (auto simp: entry_wf_def)
  have set: "set (tracker_snapshot tk) = snd ` set (tk_orders tk)"
    by (simp add: tracker_snapshot_def)
  have "find_order (tk0\<lparr>tk_orders := map (\<lambda>t. (to_order_hash t, t)) (tracker_snapshot tk)\<rparr>) h = find_order tk h" for h
    using find_after_restore [OF snapshot_hashes [OF assms]] find_order_iff [OF assms]
    by (intro option_eqI) (simp add: set)
  moreover have "fst (restore tk0 (tracker_snapshot tk)) = Inr True \<longleftrightarrow>
      (\<forall>h t. find_order tk h = Some t \<longrightarrow> restorable t)"
    using restore_snapshot [OF assms, of tk0 "snd (restore tk0 (tracker_snapshot tk))"]
      restore_snapshot [OF assms, of tk0
        "tk0\<lparr>tk_orders := map (\<lambda>t. (to_order_hash t, t)) (tracker_snapshot tk)\<rparr>"]
    by (cases "restore tk0 (tracker_snapshot tk)") auto
  moreover have "snd (restore tk0 (tracker_snapshot tk)) =
      tk0\<lparr>tk_orders := map (\<lambda>t. (to_order_hash t, t)) (tracker_snapshot tk)\<rparr>"
    if "fst (restore tk0 (tracker_snapshot tk)) = Inr True"
    using restore_snapshot [OF assms, of tk0 "snd (restore tk0 (tracker_snapshot tk))"] that
    by (cases "restore tk0 (tracker_snapshot tk)") auto
  ultimately show ?thesis
    using valid by (auto simp: restorable_def)
qed

theorem snapshot_restore_witness:
  "\<forall>h. find_order (snd (restore empty_tracker (tracker_snapshot
        (run_op (Begin_Submission sample_hash \<lparr>xd_text = ''5''\<rparr>) empty_tracker)))) h
     = find_order (run_op (Begin_Submission sample_hash \<lparr>xd_text = ''5''\<rparr>) empty_tracker) h"
proof -
  define tk where "tk = run_op (Begin_Submission sample_hash \<lparr>xd_text = ''5''\<rparr>) empty_tracker"
  have "tracker_wf tk"
    unfolding tk_def by (rule tracker_wf_op) code_simp+
  moreover have "fst (restore empty_tracker (tracker_snapshot tk)) = Inr True"
    unfolding tk_def by code_simp
  ultimately show ?thesis
    using snapshot_restore [of tk empty_tracker] unfolding tk_def by blast
qed

section \<open>Two defects\<close>

text \<open>
  \<open>mark_submission_rejected\<close> refuses to overwrite a later state, \<open>apply_create_outcome\<close> does not:
  an acknowledgement that is processed after the wallet event of the fill moves a filled order
  back to \<open>accepted\<close>.
\<close>

lemma late_acknowledgement_regresses:
  assumes "find_order tk h = Some t" and "to_state t = filled" and "mo_disposition out = acknowledged"
    and "mo_receipt out = Some receipt" and "rc_order_hash receipt = to_order_hash t"
  shows "\<exists>t'. find_order (snd (apply_create_outcome tk h out)) h = Some t' \<and> to_state t' = accepted \<and> \<not> terminal t'"
  using assms by (simp add: apply_create_outcome_def find_write_order terminal_def)

text \<open>
  \<open>apply_rest_order\<close> stores the amounts of the venue unchecked, \<open>restore\<close> rejects a non-positive
  amount: one order reported with amount zero makes the snapshot, and so the journal, unrestorable.
\<close>

lemma zero_amount_not_restorable:
  "fst (restore empty_tracker (tracker_snapshot
     (fold run_op [Begin_Submission sample_hash \<lparr>xd_text = ''5''\<rparr>,
        Apply_Rest_Order (sample_record status_cancelled ''0'' ''0'')] empty_tracker)))
   = Inl (mk_error journal_corrupt ''journal contains a non-positive order amount'' ''amount'')"
  by code_simp

end
