(* ===== verification/Journal.thy ===== *)
theory Journal
  imports Lifecycle Byte_Codec
begin

text \<open>
  \<^verbatim>\<open>src/lifecycle_journal.cpp\<close>, \<open>OrderJournal\<close>: the append-only checksummed journal of
  tracked orders. The file is a byte list, absent or present. What the operating system decides
  (whether a call succeeds, how many bytes reach the file when a stream fails) is the argument
  \<open>io\<close>, a record of the outcomes of one call, so every theorem holds for every such outcome.
\<close>

section \<open>Records\<close>

definition state_code :: "order_lifecycle_state \<Rightarrow> nat" where
  "state_code s = (case s of submission_pending \<Rightarrow> 0 | accepted \<Rightarrow> 1 | ls_open \<Rightarrow> 2
     | partially_filled \<Rightarrow> 3 | filled \<Rightarrow> 4 | book_removed \<Rightarrow> 5 | ls_cancelled \<Rightarrow> 6 | expired \<Rightarrow> 7
     | rejected \<Rightarrow> 8 | transaction_pending \<Rightarrow> 9 | transaction_failed \<Rightarrow> 10 | ls_ambiguous \<Rightarrow> 11
     | ls_unknown \<Rightarrow> 12)"

definition lifecycle_states :: "order_lifecycle_state list" where
  "lifecycle_states = [submission_pending, accepted, ls_open, partially_filled, filled, book_removed,
     ls_cancelled, expired, rejected, transaction_pending, transaction_failed, ls_ambiguous, ls_unknown]"

definition record_version :: "8 word" where "record_version = 1"

definition file_magic :: bytes where
  "file_magic = string_bytes (''PFJRNL1'' @ [CHR 0x0A])"

definition flag_byte :: "bool \<Rightarrow> 8 word" where
  "flag_byte b = (if b then 1 else 0)"

definition encode :: "tracked_order \<Rightarrow> nat \<Rightarrow> bytes result" where
  "encode t maximum =
     (let fixed = [record_version, word_of_nat (state_code (to_state t)),
                   flag_byte (to_reconciliation_required t), flag_byte (to_order_id t \<noteq> None)]
                  @ append_le 8 (to_stream_generation t)
                  @ append_le 8 (to_unsigned64 (to_last_event_timestamp_ms t))
      in case (append_string (to_order_hash t),
               append_string (case to_order_id t of Some i \<Rightarrow> i | None \<Rightarrow> ''''),
               append_string (xd_text (to_amount t)),
               append_string (xd_text (to_amount_filled t)),
               append_string (to_reason t)) of
           (Some h, Some i, Some a, Some f, Some r) \<Rightarrow>
             let payload = fixed @ h @ i @ a @ f @ r in
             if length payload > maximum
             then Inl (mk_error body_too_large ''lifecycle journal record exceeds configured bound'' '''')
             else Inr payload
         | _ \<Rightarrow> Inl (mk_error numeric_overflow ''lifecycle journal field exceeds uint32 length'' ''''))"

definition read_fields ::
    "bytes \<Rightarrow> (nat \<times> nat \<times> string \<times> string \<times> string \<times> string \<times> string) option" where
  "read_fields input =
     Option.bind (read_le 8 input) (\<lambda>(generation, r1).
     Option.bind (read_le 8 r1) (\<lambda>(timestamp, r2).
     Option.bind (read_string r2) (\<lambda>(hash, r3).
     Option.bind (read_string r3) (\<lambda>(order_id, r4).
     Option.bind (read_string r4) (\<lambda>(amount, r5).
     Option.bind (read_string r5) (\<lambda>(amount_filled, r6).
     Option.bind (read_string r6) (\<lambda>(reason, r7).
       if r7 \<noteq> [] then None
       else Some (generation, timestamp, hash, order_id, amount, amount_filled, reason))))))))"

definition decode :: "bytes \<Rightarrow> tracked_order result" where
  "decode payload =
     (if length payload < 4 \<or> payload ! 0 \<noteq> record_version
      then Inl (mk_error journal_corrupt ''unsupported lifecycle journal record version'' '''')
      else if unat (payload ! 1) > state_code ls_unknown
      then Inl (mk_error journal_corrupt ''invalid lifecycle state in journal'' '''')
      else case read_fields (drop 4 payload) of
        None \<Rightarrow> Inl (mk_error journal_corrupt ''malformed lifecycle journal record'' '''')
      | Some (generation, timestamp, hash, order_id, amount, amount_filled, reason) \<Rightarrow>
          (case (exact_parse amount, exact_parse amount_filled) of
             (Inr a, Inr f) \<Rightarrow>
               Inr \<lparr>to_order_hash = hash,
                    to_order_id = (if payload ! 3 \<noteq> 0 then Some order_id else None),
                    to_amount = a, to_amount_filled = f,
                    to_state = lifecycle_states ! unat (payload ! 1),
                    to_reconciliation_required = (payload ! 2 \<noteq> 0),
                    to_stream_generation = generation,
                    to_last_event_timestamp_ms = to_signed64 timestamp,
                    to_reason = reason\<rparr>
           | _ \<Rightarrow> Inl (mk_error journal_corrupt ''invalid decimal in lifecycle journal'' '''')))"

text \<open>The ranges that the C++ types of the fields give.\<close>

definition journal_wf :: "tracked_order \<Rightarrow> bool" where
  "journal_wf t \<longleftrightarrow> exact_wf (to_amount t) \<and> exact_wf (to_amount_filled t)
     \<and> to_stream_generation t < 2 ^ 64 \<and> int64_ok (to_last_event_timestamp_ms t)"

lemma state_code_facts:
  "state_code s < 13" "lifecycle_states ! state_code s = s" "state_code s \<le> state_code ls_unknown"
  by (cases s; simp add: state_code_def lifecycle_states_def)+

lemma unat_state_byte [simp]: "unat (word_of_nat (state_code s) :: 8 word) = state_code s"
proof -
  have "state_code s < 256"
    using state_code_facts(1) [of s] by simp
  then show ?thesis
    by (simp add: unsigned_of_nat take_bit_nat_eq_self)
qed

lemma encode_Inr:
  "encode t maximum = Inr p \<longleftrightarrow>
     (let i = (case to_order_id t of Some i \<Rightarrow> i | None \<Rightarrow> '''') in
      length (to_order_hash t) < 2 ^ 32 \<and> length i < 2 ^ 32 \<and> length (xd_text (to_amount t)) < 2 ^ 32 \<and>
      length (xd_text (to_amount_filled t)) < 2 ^ 32 \<and> length (to_reason t) < 2 ^ 32 \<and>
      length p \<le> maximum \<and>
      p = [record_version, word_of_nat (state_code (to_state t)),
           flag_byte (to_reconciliation_required t), flag_byte (to_order_id t \<noteq> None)]
          @ append_le 8 (to_stream_generation t)
          @ append_le 8 (to_unsigned64 (to_last_event_timestamp_ms t))
          @ string_field (to_order_hash t) @ string_field i @ string_field (xd_text (to_amount t))
          @ string_field (xd_text (to_amount_filled t)) @ string_field (to_reason t))"
  unfolding encode_def Let_def
  by (auto simp: append_string_def string_field_def split: if_splits)

lemma read_fields_written:
  assumes "g < 2 ^ 64" and "ts < 2 ^ 64" and "length h < 2 ^ 32" and "length i < 2 ^ 32"
    and "length a < 2 ^ 32" and "length f < 2 ^ 32" and "length r < 2 ^ 32"
  shows "read_fields (append_le 8 g @ append_le 8 ts @ string_field h @ string_field i @
    string_field a @ string_field f @ string_field r) = Some (g, ts, h, i, a, f, r)"
proof -
  have nums: "g < 256 ^ 8" "ts < 256 ^ 8"
    using assms by simp_all
  have last: "read_string (string_field r) = Some (r, [])"
    using string_codec.read_write [OF assms(7), of "[]"] by simp
  show ?thesis
    unfolding read_fields_def
    by (simp add: nums [THEN le_field.read_write] assms(3-7) [THEN string_codec.read_write] last)
qed

lemma decode_encode:
  assumes "journal_wf t" and "encode t maximum = Inr p"
  shows "decode p = Inr t"
proof -
  define i where "i = (case to_order_id t of Some i \<Rightarrow> i | None \<Rightarrow> '''')"
  define body where "body = append_le 8 (to_stream_generation t)
     @ append_le 8 (to_unsigned64 (to_last_event_timestamp_ms t))
     @ string_field (to_order_hash t) @ string_field i @ string_field (xd_text (to_amount t))
     @ string_field (xd_text (to_amount_filled t)) @ string_field (to_reason t)"
  have p: "p = [record_version, word_of_nat (state_code (to_state t)),
      flag_byte (to_reconciliation_required t), flag_byte (to_order_id t \<noteq> None)] @ body"
    and lens: "length (to_order_hash t) < 2 ^ 32" "length i < 2 ^ 32" "length (xd_text (to_amount t)) < 2 ^ 32"
      "length (xd_text (to_amount_filled t)) < 2 ^ 32" "length (to_reason t) < 2 ^ 32"
    using assms(2) unfolding encode_Inr Let_def i_def [symmetric] body_def by auto
  have fields: "read_fields body = Some (to_stream_generation t,
      to_unsigned64 (to_last_event_timestamp_ms t), to_order_hash t, i, xd_text (to_amount t),
      xd_text (to_amount_filled t), to_reason t)"
    unfolding body_def using assms(1) lens
    by (intro read_fields_written to_unsigned64_less) (auto simp: journal_wf_def)
  have parse: "exact_parse (xd_text (to_amount t)) = Inr (to_amount t)"
    "exact_parse (xd_text (to_amount_filled t)) = Inr (to_amount_filled t)"
    using assms(1) by (auto simp: exact_parse_iff journal_wf_def exact_wf_def)
  have signed: "to_signed64 (to_unsigned64 (to_last_event_timestamp_ms t)) = to_last_event_timestamp_ms t"
    using assms(1) by (intro signed64_round_trip) (auto simp: journal_wf_def int64_ok_def)
  have nth: "p ! 0 = record_version" "p ! 1 = word_of_nat (state_code (to_state t))"
    "p ! 2 = flag_byte (to_reconciliation_required t)" "p ! 3 = flag_byte (to_order_id t \<noteq> None)"
    "drop 4 p = body" "\<not> length p < 4"
    by (simp_all add: p)
  have "decode p = Inr \<lparr>to_order_hash = to_order_hash t,
      to_order_id = (if to_order_id t \<noteq> None then Some i else None), to_amount = to_amount t,
      to_amount_filled = to_amount_filled t, to_state = to_state t,
      to_reconciliation_required = to_reconciliation_required t,
      to_stream_generation = to_stream_generation t,
      to_last_event_timestamp_ms = to_last_event_timestamp_ms t, to_reason = to_reason t\<rparr>"
    using state_code_facts [of "to_state t"]
    unfolding decode_def nth fields using nth(6) by (simp add: parse signed flag_byte_def)
  also have "(if to_order_id t \<noteq> None then Some i else None) = to_order_id t"
    by (auto simp: i_def split: option.split)
  finally show ?thesis
    by simp
qed

text \<open>
  C12. Journal records round-trip: whatever \<open>encode\<close> accepts, \<open>decode\<close> reads back as the very same
  tracked order, with every field (state, flags, 64-bit generation, signed timestamp, optional
  identifier and texts) intact.
\<close>

theorem journal_record_round_trip:
  assumes "journal_wf t" and "encode t maximum = Inr p"
  shows "decode p = Inr t \<and> length p \<le> maximum"
  using assms decode_encode [OF assms] by (auto simp: encode_Inr Let_def)

definition sample_tracked :: tracked_order where
  "sample_tracked = \<lparr>to_order_hash = sample_hash, to_order_id = Some ''42'',
     to_amount = \<lparr>xd_text = ''1.5''\<rparr>, to_amount_filled = exact_zero, to_state = ls_open,
     to_reconciliation_required = False, to_stream_generation = 3,
     to_last_event_timestamp_ms = - 1, to_reason = ''OPEN''\<rparr>"

theorem journal_record_round_trip_witness:
  "\<exists>p. encode sample_tracked 65536 = Inr p \<and> decode p = Inr sample_tracked"
proof -
  have "journal_wf sample_tracked" "is_ok (encode sample_tracked 65536)"
    by code_simp+
  then show ?thesis
    using journal_record_round_trip by (auto simp: is_ok_iff)
qed

section \<open>The journal file\<close>

record order_journal =
  jr_path :: string
  jr_maximum_record_bytes :: nat
  jr_flush_after_append :: bool

record journal_replay =
  rl_orders :: "tracked_order list"
  rl_records_applied :: nat
  rl_valid_bytes :: nat
  rl_ignored_truncated_tail :: bool

type_synonym journal_file = "bytes option"

text \<open>
  The outcomes of the system calls of one operation: creating directories, \<^verbatim>\<open>exists\<close> (which
  returns false when it fails), creating the file, the state of the stream after the magic,
  opening for append, each pair of writes, flushing, closing and syncing; and the number of
  bytes that reach the file when a stream is abandoned or not flushed.
\<close>

record io_outcome =
  io_mkdir_ok :: bool
  io_stat_ok :: bool
  io_create_ok :: bool
  io_magic_ok :: bool
  io_magic_landed :: nat
  io_open_ok :: bool
  io_write_ok :: "nat \<Rightarrow> bool"
  io_flush_ok :: bool
  io_close_ok :: bool
  io_sync_ok :: bool
  io_landed :: nat
  io_read_ok :: bool
  io_resize_ok :: bool

definition storage_error :: "string \<Rightarrow> string \<Rightarrow> error" where
  "storage_error m path = mk_error storage_failure m path"

definition corrupt :: "string \<Rightarrow> string \<Rightarrow> error" where
  "corrupt m path = mk_error journal_corrupt m path"

text \<open>The parent of a path is what precedes its last separator.\<close>

definition has_parent :: "string \<Rightarrow> bool" where
  "has_parent path \<longleftrightarrow> CHR ''/'' \<in> set path"

definition sync_file_to_stable_storage :: "io_outcome \<Rightarrow> string \<Rightarrow> bool result" where
  "sync_file_to_stable_storage io path =
     (if \<not> io_sync_ok io then Inl (storage_error ''cannot durably sync lifecycle journal'' path)
      else Inr True)"

definition journal_initialize ::
    "io_outcome \<Rightarrow> order_journal \<Rightarrow> journal_file \<Rightarrow> bool result \<times> journal_file" where
  "journal_initialize io j file =
     (if jr_path j = [] then
        (Inl (mk_error invalid_argument ''lifecycle journal path must not be empty'' ''path''), file)
      else if jr_maximum_record_bytes j < 128 then
        (Inl (mk_error invalid_argument ''maximum journal record size is too small''
               ''maximum_record_bytes''), file)
      else if has_parent (jr_path j) \<and> \<not> io_mkdir_ok io then
        (Inl (storage_error ''cannot create journal directory'' (jr_path j)), file)
      else if file \<noteq> None \<and> io_stat_ok io then (Inr True, file)
      else if \<not> io_create_ok io then
        (Inl (storage_error ''cannot create lifecycle journal'' (jr_path j)), file)
      else if \<not> io_magic_ok io then
        (Inl (storage_error ''cannot initialize lifecycle journal'' (jr_path j)),
         Some (take (io_magic_landed io) file_magic))
      else if jr_flush_after_append j then
        (case sync_file_to_stable_storage io (jr_path j) of
           Inl e \<Rightarrow> (Inl e, Some file_magic)
         | Inr _ \<Rightarrow> (Inr True, Some file_magic))
      else (Inr True, Some file_magic))"

definition frame :: "bytes \<Rightarrow> bytes" where
  "frame payload = append_le 4 (length payload) @ append_le 4 (unat (crc32 payload)) @ payload"

text \<open>The write loop: the bytes given to the stream so far, with the error that ended it.\<close>

fun append_loop ::
    "io_outcome \<Rightarrow> order_journal \<Rightarrow> nat \<Rightarrow> tracked_order list \<Rightarrow> bytes \<Rightarrow> error option \<times> bytes" where
  "append_loop io j k [] written = (None, written)"
| "append_loop io j k (t # ts) written =
     (case encode t (jr_maximum_record_bytes j) of
        Inl e \<Rightarrow> (Some e, written)
      | Inr payload \<Rightarrow>
          if \<not> io_write_ok io k
          then (Some (storage_error ''cannot append lifecycle journal record'' (jr_path j)),
                written @ frame payload)
          else append_loop io j (Suc k) ts (written @ frame payload))"

definition land :: "io_outcome \<Rightarrow> journal_file \<Rightarrow> bytes \<Rightarrow> journal_file" where
  "land io file bs = map_option (\<lambda>old. old @ take (io_landed io) bs) file"

definition journal_append ::
    "io_outcome \<Rightarrow> order_journal \<Rightarrow> tracked_order list \<Rightarrow> journal_file \<Rightarrow> bool result \<times> journal_file" where
  "journal_append io j ts file =
     (case journal_initialize io j file of
        (Inl e, file1) \<Rightarrow> (Inl e, file1)
      | (Inr _, file1) \<Rightarrow>
          if \<not> io_open_ok io
          then (Inl (storage_error ''cannot open lifecycle journal'' (jr_path j)), file1)
          else case append_loop io j 0 ts [] of
            (Some e, bs) \<Rightarrow> (Inl e, land io file1 bs)
          | (None, bs) \<Rightarrow>
              if \<not> jr_flush_after_append j then (Inr True, land io file1 bs)
              else if \<not> io_flush_ok io
              then (Inl (storage_error ''cannot flush lifecycle journal'' (jr_path j)), land io file1 bs)
              else if \<not> io_close_ok io
              then (Inl (storage_error ''cannot close lifecycle journal'' (jr_path j)),
                    map_option (\<lambda>old. old @ bs) file1)
              else (sync_file_to_stable_storage io (jr_path j), map_option (\<lambda>old. old @ bs) file1))"

text \<open>\<^verbatim>\<open>insert_or_assign\<close> on the map of latest records.\<close>

definition put_order :: "tracked_order \<Rightarrow> (string \<times> tracked_order) list \<Rightarrow> (string \<times> tracked_order) list" where
  "put_order t m =
     (if to_order_hash t \<in> fst ` set m
      then map (\<lambda>(k, v). (k, if k = to_order_hash t then t else v)) m
      else m @ [(to_order_hash t, t)])"

function replay_loop ::
    "nat \<Rightarrow> string \<Rightarrow> bytes \<Rightarrow> (string \<times> tracked_order) list \<Rightarrow> nat \<Rightarrow> nat
       \<Rightarrow> ((string \<times> tracked_order) list \<times> nat \<times> nat \<times> bool) result" where
  "replay_loop maximum path bs latest applied valid =
     (if bs = [] then Inr (latest, applied, valid, False)
      else if length bs < 8 then Inr (latest, applied, valid, True)
      else
        let size = le_value (take 4 bs);
            expected = le_value (take 4 (drop 4 bs));
            payload = take size (drop 8 bs)
        in if size > maximum
           then Inl (corrupt ''lifecycle journal frame exceeds configured bound'' path)
           else if length payload \<noteq> size then Inr (latest, applied, valid, True)
           else if unat (crc32 payload) \<noteq> expected
           then Inl (corrupt ''lifecycle journal checksum mismatch'' path)
           else case decode payload of
             Inl e \<Rightarrow> Inl (corrupt (err_message e) path)
           | Inr t \<Rightarrow> replay_loop maximum path (drop (8 + size) bs) (put_order t latest)
                        (Suc applied) (valid + (8 + length payload)))"
  by pat_completeness auto
termination
  by (relation "measure (\<lambda>(_, _, bs, _). length bs)") auto

declare replay_loop.simps [simp del]

definition replay :: "io_outcome \<Rightarrow> order_journal \<Rightarrow> journal_file \<Rightarrow> journal_replay result" where
  "replay io j file =
     (case file of
        None \<Rightarrow> Inl (storage_error ''cannot open lifecycle journal'' (jr_path j))
      | Some bs \<Rightarrow>
          if \<not> io_read_ok io then Inl (storage_error ''cannot open lifecycle journal'' (jr_path j))
          else if take 8 bs \<noteq> file_magic then Inl (corrupt ''invalid lifecycle journal header'' (jr_path j))
          else bind_res (replay_loop (jr_maximum_record_bytes j) (jr_path j) (drop 8 bs) [] 0 8)
            (\<lambda>(latest, applied, valid, torn).
               Inr \<lparr>rl_orders = sort_key to_order_hash (map snd latest), rl_records_applied = applied,
                    rl_valid_bytes = valid, rl_ignored_truncated_tail = torn\<rparr>))"

section \<open>Replay\<close>

text \<open>What a list of records says about each hash: the last record wins.\<close>

definition record_all :: "tracked_order list \<Rightarrow> (string \<rightharpoonup> tracked_order) \<Rightarrow> (string \<rightharpoonup> tracked_order)" where
  "record_all ts m = fold (\<lambda>t f. f(to_order_hash t \<mapsto> t)) ts m"

definition encodable :: "nat \<Rightarrow> tracked_order \<Rightarrow> bool" where
  "encodable maximum t \<longleftrightarrow> journal_wf t \<and> is_ok (encode t maximum)"

definition order_frame :: "nat \<Rightarrow> tracked_order \<Rightarrow> bytes" where
  "order_frame maximum t = (case encode t maximum of Inr p \<Rightarrow> frame p | Inl _ \<Rightarrow> [])"

definition frames :: "nat \<Rightarrow> tracked_order list \<Rightarrow> bytes" where
  "frames maximum ts = concat (map (order_frame maximum) ts)"

lemma frames_simps [simp]:
  "frames m [] = []" "frames m (t # ts) = order_frame m t @ frames m ts"
  "frames m (ts @ us) = frames m ts @ frames m us"
  by (simp_all add: frames_def)

lemma record_all_simps [simp]:
  "record_all [] m = m" "record_all (t # ts) m = record_all ts (m(to_order_hash t \<mapsto> t))"
  "record_all (ts @ us) m = record_all us (record_all ts m)"
  by (simp_all add: record_all_def)

lemma map_of_put_order: "map_of (put_order t m) = (map_of m)(to_order_hash t \<mapsto> t)"
proof
  fix h
  have dom: "to_order_hash t \<in> fst ` set m \<longleftrightarrow> (\<exists>v. map_of m (to_order_hash t) = Some v)"
    by (metis map_of_eq_None_iff not_None_eq)
  show "map_of (put_order t m) h = ((map_of m)(to_order_hash t \<mapsto> t)) h"
  proof (cases "to_order_hash t \<in> fst ` set m")
    case True
    then show ?thesis
      using dom by (auto simp: put_order_def map_of_map_values option.map_ident)
  next
    case False
    then show ?thesis
      using map_of_eq_None_iff [of m "to_order_hash t"]
      by (auto simp: put_order_def map_add_def split: option.split)
  qed
qed

lemma map_of_fold_put: "map_of (fold put_order ts m) = record_all ts (map_of m)"
  by (induction ts arbitrary: m) (auto simp: map_of_put_order)

definition keyed :: "(string \<times> tracked_order) list \<Rightarrow> bool" where
  "keyed m \<longleftrightarrow> distinct (map fst m) \<and> (\<forall>(k, t)\<in>set m. k = to_order_hash t)"

lemma keyed_put: "keyed m \<Longrightarrow> keyed (put_order t m)"
  by (auto simp: keyed_def put_order_def simp del: map_map)

lemma keyed_fold_put: "keyed m \<Longrightarrow> keyed (fold put_order ts m)"
  by (induction ts arbitrary: m) (auto simp: keyed_put)

lemma keyed_lookup: "keyed m \<Longrightarrow> t \<in> snd ` set m \<longleftrightarrow> map_of m (to_order_hash t) = Some t"
  by (force simp: keyed_def)

lemma keyed_hashes: "keyed m \<Longrightarrow> distinct (map to_order_hash (sort_key to_order_hash (map snd m)))"
proof -
  assume keyed: "keyed m"
  have "map to_order_hash (map snd m) = map fst m"
    using keyed by (auto simp: keyed_def)
  then have "distinct (map to_order_hash (map snd m))"
    using keyed by (simp only: keyed_def)
  moreover have "mset (map to_order_hash (sort_key to_order_hash (map snd m))) = mset (map to_order_hash (map snd m))"
    by (simp only: mset_map mset_sort)
  ultimately show ?thesis
    using mset_eq_imp_distinct_iff by blast
qed

lemma length_frame [simp]: "length (frame p) = 8 + length p"
  by (simp add: frame_def)

lemma frame_not_Nil [simp]: "frame p \<noteq> []"
  by (metis add_is_0 length_frame list.size(3) zero_neq_numeral)

lemma append_le_Nil [simp]: "append_le n v = [] \<longleftrightarrow> n = 0"
  by (metis length_0_conv length_append_le)

lemma unat_crc_bound: "unat (crc32 p) < 256 ^ 4"
  using unsigned_less [of "crc32 p", where 'a = nat] by simp

lemma replay_loop_frame:
  assumes "length p \<le> maximum" and "maximum < 2 ^ 32" and "decode p = Inr t"
  shows "replay_loop maximum path (frame p @ rest) latest n v =
    replay_loop maximum path rest (put_order t latest) (Suc n) (v + (8 + length p))"
proof -
  have "length p mod 256 ^ 4 = length p" "unat (crc32 p) mod 256 ^ 4 = unat (crc32 p)"
    using assms unat_crc_bound [of p] by (intro mod_less; simp)+
  then show ?thesis
    using assms by (subst replay_loop.simps) (simp add: frame_def Let_def)
qed

lemma encodable_frame:
  assumes "encodable maximum t"
  obtains p where "encode t maximum = Inr p" and "order_frame maximum t = frame p"
    and "decode p = Inr t" and "length p \<le> maximum"
proof -
  obtain p where p: "encode t maximum = Inr p"
    using assms by (auto simp: encodable_def is_ok_iff)
  then have "decode p = Inr t" "length p \<le> maximum"
    using assms decode_encode by (auto simp: encodable_def encode_Inr Let_def)
  with p that show ?thesis
    by (simp add: order_frame_def)
qed

lemma replay_loop_frames:
  assumes "list_all (encodable maximum) ts" and "maximum < 2 ^ 32"
  shows "replay_loop maximum path (frames maximum ts @ rest) latest n v =
    replay_loop maximum path rest (fold put_order ts latest) (n + length ts) (v + length (frames maximum ts))"
  using assms
proof (induction ts arbitrary: latest n v)
  case (Cons t ts)
  then obtain p where p: "order_frame maximum t = frame p" "decode p = Inr t" "length p \<le> maximum"
    by (auto elim: encodable_frame)
  show ?case
    using Cons p by (simp add: replay_loop_frame ac_simps)
qed simp

lemma replay_loop_torn:
  assumes "k < length (frame p)" and "length p \<le> maximum" and "maximum < 2 ^ 32"
  shows "replay_loop maximum path (take k (frame p)) latest n v = Inr (latest, n, v, 0 < k)"
proof -
  have "length p mod 256 ^ 4 = length p"
    using assms by simp
  then have size: "8 \<le> k \<Longrightarrow> le_value (take 4 (take k (frame p))) = length p"
    by (simp add: frame_def min_def)
  show ?thesis
    using assms size by (subst replay_loop.simps) (auto simp: Let_def min_def)
qed

lemma replay_loop_Nil [simp]: "replay_loop maximum path [] latest n v = Inr (latest, n, v, False)"
  by (subst replay_loop.simps) simp

lemma length_file_magic [simp]: "length file_magic = 8"
  by (simp add: file_magic_def)

lemma replay_spec:
  assumes "io_read_ok io" and "jr_maximum_record_bytes j < 2 ^ 32"
    and "list_all (encodable (jr_maximum_record_bytes j)) ts"
    and "length p \<le> jr_maximum_record_bytes j" and "k < length (frame p)"
  shows "\<exists>rl. replay io j (Some (file_magic @ frames (jr_maximum_record_bytes j) ts @ take k (frame p))) = Inr rl \<and>
    distinct (map to_order_hash (rl_orders rl)) \<and>
    (\<forall>t. t \<in> set (rl_orders rl) \<longleftrightarrow> record_all ts Map.empty (to_order_hash t) = Some t) \<and>
    rl_records_applied rl = length ts \<and>
    rl_valid_bytes rl = length (file_magic @ frames (jr_maximum_record_bytes j) ts) \<and>
    rl_ignored_truncated_tail rl = (0 < k)"
proof -
  define latest where "latest = fold put_order ts []"
  have keyed: "keyed latest"
    unfolding latest_def by (rule keyed_fold_put) (simp add: keyed_def)
  have "map_of latest = record_all ts Map.empty"
    by (simp add: latest_def map_of_fold_put)
  then show ?thesis
    using assms keyed_hashes [OF keyed] keyed_lookup [OF keyed]
    by (simp add: replay_def replay_loop_frames replay_loop_torn latest_def)
qed

text \<open>
  C10. Crash recovery: a journal that ends in any torn prefix of a further record, as a crash during
  an append leaves it, replays to the last complete record of every order, counts exactly the
  complete records, reports the tail as torn exactly when it is not empty, and names the byte
  length of the complete part, at which the file is cut.
\<close>

theorem replay_torn_tail:
  assumes "io_read_ok io" and "jr_maximum_record_bytes j < 2 ^ 32"
    and "list_all (encodable (jr_maximum_record_bytes j)) ts"
    and "length p \<le> jr_maximum_record_bytes j" and "k < length (frame p)"
  shows "\<exists>rl. replay io j (Some (file_magic @ frames (jr_maximum_record_bytes j) ts @ take k (frame p))) = Inr rl \<and>
    distinct (map to_order_hash (rl_orders rl)) \<and>
    (\<forall>t. t \<in> set (rl_orders rl) \<longleftrightarrow> record_all ts Map.empty (to_order_hash t) = Some t) \<and>
    rl_records_applied rl = length ts \<and>
    rl_valid_bytes rl = length (file_magic @ frames (jr_maximum_record_bytes j) ts) \<and>
    rl_ignored_truncated_tail rl = (0 < k)"
  using assms by (rule replay_spec)

definition good_io :: io_outcome where
  "good_io = \<lparr>io_mkdir_ok = True, io_stat_ok = True, io_create_ok = True, io_magic_ok = True,
     io_magic_landed = 8, io_open_ok = True, io_write_ok = (\<lambda>_. True), io_flush_ok = True,
     io_close_ok = True, io_sync_ok = True, io_landed = 0, io_read_ok = True, io_resize_ok = True\<rparr>"

definition sample_journal :: order_journal where
  "sample_journal = \<lparr>jr_path = ''orders.journal'', jr_maximum_record_bytes = 65536,
     jr_flush_after_append = True\<rparr>"

theorem replay_torn_tail_witness:
  "\<exists>rl. replay good_io sample_journal
      (Some (file_magic @ frames 65536 [sample_tracked] @ take 9 (frame [1, 2, 3]))) = Inr rl \<and>
    rl_records_applied rl = 1 \<and> rl_ignored_truncated_tail rl \<and> sample_tracked \<in> set (rl_orders rl)"
proof -
  have "io_read_ok good_io" "jr_maximum_record_bytes sample_journal < 2 ^ 32"
    "list_all (encodable (jr_maximum_record_bytes sample_journal)) [sample_tracked]"
    "length [1, 2, 3 :: 8 word] \<le> jr_maximum_record_bytes sample_journal"
    by code_simp+
  moreover have "9 < length (frame [1, 2, 3])"
    by simp
  ultimately show ?thesis
    using replay_torn_tail [of good_io sample_journal "[sample_tracked]" "[1, 2, 3]" 9]
    by (auto simp: sample_journal_def)
qed

lemma le_value_size:
  "length p < 2 ^ 32 \<Longrightarrow> le_value (append_le 4 (length p)) = length p"
  "le_value (append_le 4 (unat (crc32 p))) = unat (crc32 p)"
  using unat_crc_bound [of p] by simp_all

lemma le_value_byte_change: "le_value (u @ a # w) = le_value (u @ b # w) \<longleftrightarrow> a = b"
  by (induction u) (auto dest: unsigned_word_eqI)

text \<open>One changed byte in the checksum and payload of a record makes the two disagree.\<close>

lemma stored_byte_change:
  assumes "append_le 4 (unat (crc32 p)) @ p = u @ a # w" and "a \<noteq> b"
  shows "le_value (take 4 (u @ b # w)) \<noteq> unat (crc32 (drop 4 (u @ b # w)))"
proof (cases "length u < 4")
  case True
  define v where "v = take (3 - length u) w"
  have "append_le 4 (unat (crc32 p)) = take 4 (u @ a # w)" "p = drop 4 (u @ a # w)"
    using assms(1) by (metis append_eq_conv_conj length_append_le)+
  then have "append_le 4 (unat (crc32 p)) = u @ a # v" "take 4 (u @ b # w) = u @ b # v" "drop 4 (u @ b # w) = p"
    using True by (auto simp: v_def take_Cons' drop_Cons')
  then show ?thesis
    using le_value_byte_change [of u a v b] le_value_size(2) [of p] assms(2) by auto
next
  case False
  define v where "v = drop 4 u"
  have u: "append_le 4 (unat (crc32 p)) = take 4 u" "p = v @ a # w"
    using assms(1) False by (auto simp: v_def append_eq_append_conv_if)
  then have "drop 4 (u @ b # w) = v @ b # w" "take 4 (u @ b # w) = append_le 4 (unat (crc32 p))"
    using False by (auto simp: v_def)
  moreover have "unat (crc32 (v @ b # w)) \<noteq> unat (crc32 (v @ a # w))"
    using crc32_byte_change assms(2) by (metis unsigned_word_eqI)
  ultimately show ?thesis
    using le_value_size(2) [of p] u(2) by simp
qed

text \<open>
  C11. Corruption is detected: if one byte of the checksum or of the payload of a stored record is
  changed in any way, wherever the record stands, replay stops with \<open>journal_corrupt\<close> and never
  returns an order built from the damaged bytes. A byte of the length is not covered: it can make
  the rest of the file read as a torn tail.
\<close>

theorem replay_detects_byte_corruption:
  assumes "io_read_ok io" and "jr_maximum_record_bytes j < 2 ^ 32"
    and "list_all (encodable (jr_maximum_record_bytes j)) ts"
    and "length p \<le> jr_maximum_record_bytes j"
    and "append_le 4 (unat (crc32 p)) @ p = u @ a # w" and "a \<noteq> b"
  shows "replay io j (Some (file_magic @ frames (jr_maximum_record_bytes j) ts @
      (append_le 4 (length p) @ u @ b # w) @ rest)) = Inl (corrupt ''lifecycle journal checksum mismatch'' (jr_path j))"
proof -
  define x where "x = u @ b # w"
  define d where "d = append_le 4 (length p) @ x"
  have n: "length p < 2 ^ 32"
    using assms(2,4) by simp
  have len: "length x = 4 + length p"
    using arg_cong [OF assms(5), of length] by (simp add: x_def)
  then have "take 4 (d @ rest) = append_le 4 (length p)" "take 4 (drop 4 (d @ rest)) = take 4 x"
    "take (length p) (drop 8 (d @ rest)) = drop 4 x" "\<not> length (d @ rest) < 8" "d @ rest \<noteq> []" "length (drop 4 x) = length p"
    by (simp_all add: d_def)
  moreover note stored_byte_change [OF assms(5,6), folded x_def] le_value_size(1) [OF n]
  ultimately have "replay_loop (jr_maximum_record_bytes j) (jr_path j) (d @ rest) l m v =
      Inl (corrupt ''lifecycle journal checksum mismatch'' (jr_path j))" for l m v
    using assms(4) by (subst replay_loop.simps) (simp add: Let_def)
  then show ?thesis
    unfolding x_def [symmetric] d_def [symmetric] using assms(1-3) by (simp add: replay_def replay_loop_frames)
qed

theorem replay_detects_byte_corruption_witness:
  "replay good_io sample_journal (Some (file_magic @ frames (jr_maximum_record_bytes sample_journal) [] @
      (append_le 4 (length [7, 9 :: 8 word]) @ (append_le 4 (unat (crc32 [7, 9])) @ [7]) @ 8 # []) @ [])) =
    Inl (corrupt ''lifecycle journal checksum mismatch'' (jr_path sample_journal))"
  by (rule replay_detects_byte_corruption [where a = 9]) (simp_all, code_simp+)

end
