(* ===== verification/Persistent_Tracker.thy ===== *)
theory Persistent_Tracker
  imports Journal
begin

text \<open>
  \<^verbatim>\<open>src/lifecycle_journal.cpp\<close>, \<open>PersistentOrderTracker\<close>: every transition is applied to a copy
  of the tracker, journaled, and only then published. \<open>journal_agrees\<close> is the refinement
  relation between the file and the tracker in memory; the locale \<open>journaled_step\<close> is the
  contract between an operation of the tracker and the records the facade appends for it, and
  each operation of the tracker is an interpretation of it.
\<close>

section \<open>Operations\<close>

record persistent_tracker =
  pt_journal :: order_journal
  pt_tracker :: order_tracker
  pt_recovered_records :: nat
  pt_ignored_truncated_tail :: bool

definition next_generation :: "tracked_order list \<Rightarrow> nat" where
  "next_generation ts = fold (\<lambda>t g. max g ((to_stream_generation t + 1) mod 2 ^ 64)) ts 1"

text \<open>\<open>open\<close> makes the system calls of \<open>initialize\<close>, \<open>replay\<close> and \<^verbatim>\<open>resize_file\<close> (outcomes
  \<open>io\<close>) and then those of one \<open>append\<close> (outcomes \<open>io'\<close>).\<close>

definition open_tracker ::
    "io_outcome \<Rightarrow> io_outcome \<Rightarrow> order_journal \<Rightarrow> journal_file
       \<Rightarrow> persistent_tracker result \<times> journal_file" where
  "open_tracker io io' j file =
     (case journal_initialize io j file of
        (Inl e, file1) \<Rightarrow> (Inl e, file1)
      | (Inr _, file1) \<Rightarrow>
        (case replay io j file1 of
           Inl e \<Rightarrow> (Inl e, file1)
         | Inr rl \<Rightarrow>
             if rl_ignored_truncated_tail rl \<and> \<not> io_resize_ok io
             then (Inl (storage_error ''cannot repair truncated lifecycle journal'' (jr_path j)), file1)
             else
               let file2 = (if rl_ignored_truncated_tail rl
                            then map_option (take (rl_valid_bytes rl)) file1 else file1)
               in case restore empty_tracker (rl_orders rl) of
                    (Inl e, _) \<Rightarrow> (Inl e, file2)
                  | (Inr _, tracker) \<Rightarrow>
                      let tracker' = require_reconciliation tracker (next_generation (rl_orders rl));
                          quarantined = tracker_snapshot tracker';
                          opened = \<lparr>pt_journal = j, pt_tracker = tracker',
                             pt_recovered_records = rl_records_applied rl,
                             pt_ignored_truncated_tail = rl_ignored_truncated_tail rl\<rparr>
                      in if quarantined = [] then (Inr opened, file2)
                         else case journal_append io' j quarantined file2 of
                                (Inl e, file3) \<Rightarrow> (Inl e, file3)
                              | (Inr _, file3) \<Rightarrow> (Inr opened, file3)))"

text \<open>The common tail of the operations: append, and publish the copy only on success.\<close>

definition publish ::
    "io_outcome \<Rightarrow> persistent_tracker \<Rightarrow> tracked_order list \<Rightarrow> order_tracker \<Rightarrow> 'r result \<Rightarrow> journal_file
       \<Rightarrow> 'r result \<times> persistent_tracker \<times> journal_file" where
  "publish io p entries next r file =
     (case journal_append io (pt_journal p) entries file of
        (Inl e, file') \<Rightarrow> (Inl e, p, file')
      | (Inr _, file') \<Rightarrow> (r, p\<lparr>pt_tracker := next\<rparr>, file'))"

definition changed_entries :: "order_tracker \<Rightarrow> string \<Rightarrow> tracked_order list" where
  "changed_entries next h = (case find_order next h of Some t \<Rightarrow> [t] | None \<Rightarrow> [])"

definition persist_begin_submission ::
    "io_outcome \<Rightarrow> persistent_tracker \<Rightarrow> string \<Rightarrow> exact_decimal \<Rightarrow> journal_file
       \<Rightarrow> tracked_order option result \<times> persistent_tracker \<times> journal_file" where
  "persist_begin_submission io p h amount file =
     (case begin_submission (pt_tracker p) h amount of
        (Inl e, _) \<Rightarrow> (Inl e, p, file)
      | (Inr t, next) \<Rightarrow> publish io p [t] next (Inr (find_order next h)) file)"

definition persist_apply_create_outcome ::
    "io_outcome \<Rightarrow> persistent_tracker \<Rightarrow> string \<Rightarrow> create_order_receipt mutation_outcome \<Rightarrow> journal_file
       \<Rightarrow> bool result \<times> persistent_tracker \<times> journal_file" where
  "persist_apply_create_outcome io p h outcome file =
     (case apply_create_outcome (pt_tracker p) h outcome of
        (Inl e, _) \<Rightarrow> (Inl e, p, file)
      | (Inr _, next) \<Rightarrow> publish io p (changed_entries next h) next (Inr True) file)"

definition persist_mark_submission_rejected ::
    "io_outcome \<Rightarrow> persistent_tracker \<Rightarrow> string \<Rightarrow> error \<Rightarrow> journal_file
       \<Rightarrow> bool result \<times> persistent_tracker \<times> journal_file" where
  "persist_mark_submission_rejected io p h e file =
     (case mark_submission_rejected (pt_tracker p) h e of
        (Inl e', _) \<Rightarrow> (Inl e', p, file)
      | (Inr False, _) \<Rightarrow> (Inr False, p, file)
      | (Inr True, next) \<Rightarrow> publish io p (changed_entries next h) next (Inr True) file)"

definition persist_apply_rest_order ::
    "io_outcome \<Rightarrow> persistent_tracker \<Rightarrow> order_record \<Rightarrow> journal_file
       \<Rightarrow> bool result \<times> persistent_tracker \<times> journal_file" where
  "persist_apply_rest_order io p order file =
     (case apply_rest_order (pt_tracker p) order of
        (Inl e, _) \<Rightarrow> (Inl e, p, file)
      | (Inr _, next) \<Rightarrow> publish io p (changed_entries next (co_hash (or_order order))) next (Inr True) file)"

definition persist_apply_wallet_event ::
    "io_outcome \<Rightarrow> persistent_tracker \<Rightarrow> wallet_event \<Rightarrow> journal_file
       \<Rightarrow> bool result \<times> persistent_tracker \<times> journal_file" where
  "persist_apply_wallet_event io p event file =
     (case apply_wallet_event (pt_tracker p) event of
        (Inl e, _) \<Rightarrow> (Inl e, p, file)
      | (Inr _, next) \<Rightarrow> publish io p (changed_entries next (we_order_hash event)) next (Inr True) file)"

definition persist_mark_book_removed ::
    "io_outcome \<Rightarrow> persistent_tracker \<Rightarrow> string \<Rightarrow> journal_file
       \<Rightarrow> bool result \<times> persistent_tracker \<times> journal_file" where
  "persist_mark_book_removed io p h file =
     (case mark_book_removed (pt_tracker p) h of
        (Inl e, _) \<Rightarrow> (Inl e, p, file)
      | (Inr _, next) \<Rightarrow> publish io p (changed_entries next h) next (Inr True) file)"

definition persist_require_reconciliation ::
    "io_outcome \<Rightarrow> persistent_tracker \<Rightarrow> nat \<Rightarrow> journal_file
       \<Rightarrow> bool result \<times> persistent_tracker \<times> journal_file" where
  "persist_require_reconciliation io p g file =
     (let next = require_reconciliation (pt_tracker p) g
      in publish io p (tracker_snapshot next) next (Inr True) file)"

definition persist_reconcile ::
    "io_outcome \<Rightarrow> persistent_tracker \<Rightarrow> nat \<Rightarrow> order_record list \<Rightarrow> journal_file
       \<Rightarrow> reconciliation_report result \<times> persistent_tracker \<times> journal_file" where
  "persist_reconcile io p g snapshot file =
     (let (report, next) = reconcile (pt_tracker p) g snapshot
      in publish io p (tracker_snapshot next) next (Inr report) file)"

text \<open>One call of the facade: whether it succeeded, and the state it leaves.\<close>

fun persist_op ::
    "io_outcome \<Rightarrow> tracker_op \<Rightarrow> persistent_tracker \<Rightarrow> journal_file \<Rightarrow> bool \<times> persistent_tracker \<times> journal_file" where
  "persist_op io (Begin_Submission h a) p f = map_prod is_ok id (persist_begin_submission io p h a f)"
| "persist_op io (Apply_Create_Outcome h out) p f = map_prod is_ok id (persist_apply_create_outcome io p h out f)"
| "persist_op io (Mark_Submission_Rejected h e) p f = map_prod is_ok id (persist_mark_submission_rejected io p h e f)"
| "persist_op io (Apply_Rest_Order r) p f = map_prod is_ok id (persist_apply_rest_order io p r f)"
| "persist_op io (Apply_Wallet_Event e) p f = map_prod is_ok id (persist_apply_wallet_event io p e f)"
| "persist_op io (Mark_Book_Removed h) p f = map_prod is_ok id (persist_mark_book_removed io p h f)"
| "persist_op io (Require_Reconciliation g) p f = map_prod is_ok id (persist_require_reconciliation io p g f)"
| "persist_op io (Reconcile g s) p f = map_prod is_ok id (persist_reconcile io p g s f)"

section \<open>Appending\<close>

lemma append_loop_ok:
  "append_loop io j k ts written = (None, bs) \<Longrightarrow>
     list_all (\<lambda>t. is_ok (encode t (jr_maximum_record_bytes j))) ts \<and>
     bs = written @ frames (jr_maximum_record_bytes j) ts"
proof (induction ts arbitrary: k written)
  case (Cons t ts)
  then show ?case
    by (fastforce simp: order_frame_def split: sum.splits if_splits)
qed simp

lemma append_loop_prefix:
  "append_loop io j k ts written = (r, bs) \<Longrightarrow>
     \<exists>rest. written @ frames (jr_maximum_record_bytes j) ts = bs @ rest"
proof (induction ts arbitrary: k written)
  case (Cons t ts)
  then show ?case
    by (cases "encode t (jr_maximum_record_bytes j)")
      (fastforce simp: order_frame_def split: if_splits)+
qed simp

lemma initialize_existing:
  "io_stat_ok io \<Longrightarrow> journal_initialize io j (Some old) = (r, file) \<Longrightarrow> file = Some old"
  by (auto simp: journal_initialize_def split: if_splits)

lemma journal_append_prefix:
  assumes "io_stat_ok io" and "journal_append io j ts (Some old) = (r, file)"
  shows "\<exists>n. file = Some (old @ take n (frames (jr_maximum_record_bytes j) ts))"
proof -
  have none: "\<exists>n. Some old = Some (old @ take n (frames (jr_maximum_record_bytes j) ts))"
    by (rule exI [of _ 0]) simp
  have ex: "\<exists>n. Some (old @ take m bs) = Some (old @ take n (frames (jr_maximum_record_bytes j) ts))"
    if run: "append_loop io j 0 ts [] = (e, bs)" for e bs m
  proof -
    obtain rest where "frames (jr_maximum_record_bytes j) ts = bs @ rest"
      using append_loop_prefix [OF run] by auto
    then show ?thesis
      by (intro exI [of _ "min m (length bs)"]) (simp add: min_def)
  qed
  obtain r1 file1 where init: "journal_initialize io j (Some old) = (r1, file1)"
    by fastforce
  then have file1: "file1 = Some old"
    using initialize_existing [OF assms(1)] by blast
  obtain e bs where loop: "append_loop io j 0 ts [] = (e, bs)"
    by fastforce
  have all: "\<exists>n. Some (old @ bs) = Some (old @ take n (frames (jr_maximum_record_bytes j) ts))"
    using ex [OF loop, of "length bs"] by simp
  show ?thesis
    using assms(2) none ex [OF loop] all
    by (auto simp: journal_append_def init file1 loop land_def split: sum.splits if_splits option.splits)
qed

lemma journal_append_ok:
  assumes "io_stat_ok io" and "jr_flush_after_append j" and "journal_append io j ts (Some old) = (Inr b, file)"
  shows "file = Some (old @ frames (jr_maximum_record_bytes j) ts) \<and>
    list_all (\<lambda>t. is_ok (encode t (jr_maximum_record_bytes j))) ts"
proof -
  obtain r1 file1 where init: "journal_initialize io j (Some old) = (r1, file1)"
    by fastforce
  then have file1: "file1 = Some old"
    using initialize_existing [OF assms(1)] by blast
  obtain e bs where loop: "append_loop io j 0 ts [] = (e, bs)"
    by fastforce
  show ?thesis
    using assms(2,3) append_loop_ok [of io j 0 ts "[]" bs] loop
    by (auto simp: journal_append_def init file1 split: sum.splits if_splits option.splits)
qed

section \<open>The refinement between file and memory\<close>

text \<open>
  The file holds complete records only, and its last record for each hash is what the tracker
  holds in memory.
\<close>

definition journal_agrees :: "nat \<Rightarrow> journal_file \<Rightarrow> order_tracker \<Rightarrow> bool" where
  "journal_agrees maximum file tk \<longleftrightarrow>
     (\<exists>ts. file = Some (file_magic @ frames maximum ts) \<and> list_all (encodable maximum) ts \<and>
        find_order tk = record_all ts Map.empty)"

lemma entry_journal_wf: "entry_wf e \<Longrightarrow> journal_wf (snd e)"
  by (simp add: entry_wf_def journal_wf_def)

text \<open>A persistent tracker in a consistent state, with the default durability options.\<close>

definition persistent_wf :: "persistent_tracker \<Rightarrow> journal_file \<Rightarrow> bool" where
  "persistent_wf p file \<longleftrightarrow> tracker_wf (pt_tracker p) \<and> jr_flush_after_append (pt_journal p)
     \<and> journal_agrees (jr_maximum_record_bytes (pt_journal p)) file (pt_tracker p)"

text \<open>The outcome of a call that should publish \<open>nxt\<close>.\<close>

definition refined ::
    "order_tracker \<Rightarrow> persistent_tracker \<Rightarrow> 'r result \<times> persistent_tracker \<times> journal_file \<Rightarrow> bool" where
  "refined nxt p out = (case out of (res, p', file') \<Rightarrow>
     (is_ok res \<longrightarrow> pt_tracker p' = nxt \<and> pt_journal p' = pt_journal p \<and> persistent_wf p' file') \<and>
     (\<not> is_ok res \<longrightarrow> p' = p))"

lemma refined_error [simp]: "refined nxt p (Inl e, p, f)"
  by (simp add: refined_def)

lemma refined_unchanged: "persistent_wf p f \<Longrightarrow> refined (pt_tracker p) p (Inr x, p, f)"
  by (simp add: refined_def)

locale journaled_step =
  fixes ok :: "'a \<Rightarrow> bool" and step :: "'a \<Rightarrow> order_tracker \<Rightarrow> order_tracker"
    and entries :: "'a \<Rightarrow> order_tracker \<Rightarrow> tracked_order list"
  assumes step_wf: "ok x \<Longrightarrow> tracker_wf tk \<Longrightarrow> tracker_wf (step x tk)"
    and entries_current: "ok x \<Longrightarrow> tracker_wf tk \<Longrightarrow> t \<in> set (entries x tk) \<Longrightarrow>
      find_order (step x tk) (to_order_hash t) = Some t"
    and entries_cover: "ok x \<Longrightarrow> tracker_wf tk \<Longrightarrow>
      find_order (step x tk) = record_all (entries x tk) (find_order tk)"
begin

lemma entries_journal_wf:
  assumes "ok x" and "tracker_wf tk" and "t \<in> set (entries x tk)"
  shows "journal_wf t"
  using find_order_entry [OF step_wf [OF assms(1,2)] entries_current [OF assms]] entry_journal_wf
  by fastforce

lemma publish_refines:
  assumes "ok x" and "persistent_wf p file" and "io_stat_ok io"
  shows "refined (step x (pt_tracker p)) p
    (publish io p (entries x (pt_tracker p)) (step x (pt_tracker p)) (Inr r) file)"
proof -
  have tk: "tracker_wf (pt_tracker p)" and fl: "jr_flush_after_append (pt_journal p)"
    using assms(2) by (auto simp: persistent_wf_def)
  define maximum where "maximum = jr_maximum_record_bytes (pt_journal p)"
  define es where "es = entries x (pt_tracker p)"
  obtain ts where old: "file = Some (file_magic @ frames maximum ts)"
    and ts: "list_all (encodable maximum) ts" "find_order (pt_tracker p) = record_all ts Map.empty"
    using assms(2) by (auto simp: persistent_wf_def journal_agrees_def maximum_def)
  obtain b file1 where app: "journal_append io (pt_journal p) es file = (b, file1)"
    by fastforce
  show ?thesis
  proof (cases b)
    case (Inl e)
    then show ?thesis
      using app by (simp add: publish_def es_def [symmetric])
  next
    case (Inr v)
    have new: "file1 = Some (file_magic @ frames maximum (ts @ es))"
      and enc: "list_all (\<lambda>t. is_ok (encode t maximum)) es"
      using journal_append_ok [OF assms(3) fl, of es "file_magic @ frames maximum ts" v file1]
        app old Inr by (auto simp: maximum_def)
    have "list_all (encodable maximum) (ts @ es)"
      using ts(1) enc entries_journal_wf [OF assms(1) tk]
      by (auto simp: encodable_def list_all_iff es_def)
    moreover have "find_order (step x (pt_tracker p)) = record_all (ts @ es) Map.empty"
      using entries_cover [OF assms(1) tk] ts(2) by (simp add: es_def)
    ultimately have "journal_agrees maximum file1 (step x (pt_tracker p))"
      unfolding journal_agrees_def using new by (intro exI [of _ "ts @ es"] conjI)
    then show ?thesis
      using app Inr step_wf [OF assms(1) tk] fl
      by (auto simp: publish_def es_def [symmetric] maximum_def refined_def persistent_wf_def)
  qed
qed

end

text \<open>Two shapes of step: one order is written or added, or all orders are rewritten.\<close>

lemma record_all_distinct:
  "distinct (map to_order_hash ts) \<Longrightarrow>
     record_all ts m h = Some t \<longleftrightarrow>
       t \<in> set ts \<and> to_order_hash t = h \<or> h \<notin> to_order_hash ` set ts \<and> m h = Some t"
  by (induction ts arbitrary: m) auto

lemma record_snapshot:
  assumes "tracker_wf tk" and "\<And>h. find_order tk h = None \<longleftrightarrow> m h = None"
  shows "record_all (tracker_snapshot tk) m = find_order tk"
proof
  fix h
  have mem: "t \<in> set (tracker_snapshot tk) \<and> to_order_hash t = h \<longleftrightarrow> find_order tk h = Some t" for t
    by (auto simp: find_order_iff [OF assms(1)] tracker_snapshot_def)
  then have "find_order tk h \<noteq> None \<Longrightarrow> h \<in> to_order_hash ` set (tracker_snapshot tk)"
    by force
  with mem show "record_all (tracker_snapshot tk) m h = find_order tk h"
    using assms(2) [of h] record_all_distinct [OF snapshot_hashes [OF assms(1)]]
    by (intro option_eqI) (cases "find_order tk h"; auto)
qed

definition one_entry :: "(order_tracker \<Rightarrow> order_tracker) \<Rightarrow> string \<Rightarrow> order_tracker \<Rightarrow> tracked_order list" where
  "one_entry f h tk = changed_entries (f tk) h"

lemma one_entry_laws:
  assumes "tracker_wf tk'" and "\<And>k. k \<noteq> h \<Longrightarrow> find_order tk' k = find_order tk k"
    and "find_order tk' h = None \<Longrightarrow> find_order tk h = None"
  shows "t \<in> set (changed_entries tk' h) \<Longrightarrow> find_order tk' (to_order_hash t) = Some t"
    and "find_order tk' = record_all (changed_entries tk' h) (find_order tk)"
proof -
  have hash: "find_order tk' h = Some t \<Longrightarrow> to_order_hash t = h" for t
    using assms(1) by (simp add: find_order_iff)
  show "t \<in> set (changed_entries tk' h) \<Longrightarrow> find_order tk' (to_order_hash t) = Some t"
    using hash by (auto simp: changed_entries_def split: option.splits)
  show "find_order tk' = record_all (changed_entries tk' h) (find_order tk)"
  proof
    fix k
    show "find_order tk' k = record_all (changed_entries tk' h) (find_order tk) k"
      using hash assms(2,3) by (cases "k = h") (auto simp: changed_entries_def split: option.splits)
  qed
qed

lemma other_orders_kept:
  "k \<noteq> h \<Longrightarrow> find_order (snd (begin_submission tk h a)) k = find_order tk k"
  "k \<noteq> h \<Longrightarrow> find_order (snd (apply_create_outcome tk h out)) k = find_order tk k"
  "k \<noteq> h \<Longrightarrow> find_order (snd (mark_submission_rejected tk h e)) k = find_order tk k"
  "k \<noteq> h \<Longrightarrow> find_order (snd (mark_book_removed tk h)) k = find_order tk k"
  "k \<noteq> co_hash (or_order r) \<Longrightarrow> find_order (snd (apply_rest_order tk r)) k = find_order tk k"
  "k \<noteq> we_order_hash ev \<Longrightarrow> find_order (snd (apply_wallet_event tk ev)) k = find_order tk k"
  by (auto simp: begin_submission_def apply_create_outcome_def mark_submission_rejected_def
      mark_book_removed_def apply_rest_order_def apply_wallet_event_def find_write_order Let_def
      split: option.splits) (auto simp: find_order_def map_add_def split: option.split)

lemma orders_not_dropped:
  "find_order (snd (begin_submission tk h a)) k = None \<Longrightarrow> find_order tk k = None"
  "find_order (snd (apply_create_outcome tk h out)) k = None \<Longrightarrow> find_order tk k = None"
  "find_order (snd (mark_submission_rejected tk h e)) k = None \<Longrightarrow> find_order tk k = None"
  "find_order (snd (mark_book_removed tk h)) k = None \<Longrightarrow> find_order tk k = None"
  "find_order (snd (apply_rest_order tk r)) k = None \<Longrightarrow> find_order tk k = None"
  "find_order (snd (apply_wallet_event tk ev)) k = None \<Longrightarrow> find_order tk k = None"
  by (auto simp: begin_submission_def apply_create_outcome_def mark_submission_rejected_def
      mark_book_removed_def apply_rest_order_def apply_wallet_event_def find_write_order Let_def
      split: option.splits if_splits) (auto simp: find_order_def map_add_def split: option.splits)

lemmas single_write_laws = one_entry_laws [OF _ other_orders_kept(1) orders_not_dropped(1)]
  one_entry_laws [OF _ other_orders_kept(2) orders_not_dropped(2)]
  one_entry_laws [OF _ other_orders_kept(3) orders_not_dropped(3)]
  one_entry_laws [OF _ other_orders_kept(4) orders_not_dropped(4)]
  one_entry_laws [OF _ other_orders_kept(5) orders_not_dropped(5)]
  one_entry_laws [OF _ other_orders_kept(6) orders_not_dropped(6)]

interpretation j_begin: journaled_step "\<lambda>(h, a). exact_wf a" "\<lambda>(h, a) tk. snd (begin_submission tk h a)"
    "\<lambda>(h, a) tk. changed_entries (snd (begin_submission tk h a)) h"
  by unfold_locales (auto simp: tracker_wf_begin intro: single_write_laws)

interpretation j_create: journaled_step "\<lambda>_. True" "\<lambda>(h, out) tk. snd (apply_create_outcome tk h out)"
    "\<lambda>(h, out) tk. changed_entries (snd (apply_create_outcome tk h out)) h"
  by unfold_locales (auto simp: tracker_wf_create intro: single_write_laws)

interpretation j_rejected: journaled_step "\<lambda>_. True" "\<lambda>(h, e) tk. snd (mark_submission_rejected tk h e)"
    "\<lambda>(h, e) tk. changed_entries (snd (mark_submission_rejected tk h e)) h"
  by unfold_locales (auto simp: tracker_wf_rejected intro: single_write_laws)

interpretation j_removed: journaled_step "\<lambda>_. True" "\<lambda>h tk. snd (mark_book_removed tk h)"
    "\<lambda>h tk. changed_entries (snd (mark_book_removed tk h)) h"
  by unfold_locales (auto simp: tracker_wf_removed intro: single_write_laws)

interpretation j_rest: journaled_step record_wf "\<lambda>r tk. snd (apply_rest_order tk r)"
    "\<lambda>r tk. changed_entries (snd (apply_rest_order tk r)) (co_hash (or_order r))"
  by unfold_locales (auto simp: tracker_wf_rest intro: single_write_laws)

interpretation j_event: journaled_step event_wf "\<lambda>e tk. snd (apply_wallet_event tk e)"
    "\<lambda>e tk. changed_entries (snd (apply_wallet_event tk e)) (we_order_hash e)"
  by unfold_locales (auto simp: tracker_wf_event intro: single_write_laws)

lemma snapshot_current:
  "tracker_wf tk \<Longrightarrow> t \<in> set (tracker_snapshot tk) \<Longrightarrow> find_order tk (to_order_hash t) = Some t"
  by (simp add: find_order_iff tracker_snapshot_def)

lemma find_require:
  "find_order (require_reconciliation tk g) h =
     map_option (\<lambda>t. if terminal t then t else quarantine g t) (find_order tk h)"
  by (simp add: require_reconciliation_def find_order_def
      map_of_map_values [where f = "\<lambda>k t. if terminal t then t else quarantine g t"])

lemma find_require_None: "find_order (require_reconciliation tk g) h = None \<longleftrightarrow> find_order tk h = None"
  by (simp add: find_require)

lemma find_reconcile_None:
  assumes "tracker_wf tk"
  shows "find_order (snd (reconcile tk g s)) h = None \<longleftrightarrow> find_order tk h = None"
  using reconcile_spec [OF assms, of g s "fst (reconcile tk g s)" "snd (reconcile tk g s)"] by simp

interpretation j_require: journaled_step "\<lambda>g. g < 2 ^ 64" "\<lambda>g tk. require_reconciliation tk g"
    "\<lambda>g tk. tracker_snapshot (require_reconciliation tk g)"
  by unfold_locales
    (auto simp: tracker_wf_require snapshot_current record_snapshot find_require_None)

interpretation j_reconcile: journaled_step "\<lambda>(g, s). g < 2 ^ 64 \<and> list_all record_wf s"
    "\<lambda>(g, s) tk. snd (reconcile tk g s)" "\<lambda>(g, s) tk. tracker_snapshot (snd (reconcile tk g s))"
  by unfold_locales
    (auto simp: tracker_wf_reconcile snapshot_current record_snapshot find_reconcile_None)

section \<open>Properties\<close>

lemma begin_changed_entries:
  assumes "tracker_wf tk" and "begin_submission tk h a = (Inr t, next)"
  shows "changed_entries next h = [t]"
proof -
  have "find_order tk h = None" "next = tk\<lparr>tk_orders := tk_orders tk @ [(h, t)]\<rparr>"
    using assms(2) by (auto simp: begin_submission_def Let_def split: if_splits)
  then show ?thesis
    by (simp add: changed_entries_def find_order_def map_add_def)
qed

lemma persist_begin_alt:
  "tracker_wf (pt_tracker p) \<Longrightarrow>
     persist_begin_submission io p h a file =
       (case begin_submission (pt_tracker p) h a of
          (Inl e, _) \<Rightarrow> (Inl e, p, file)
        | (Inr t, next) \<Rightarrow> publish io p (changed_entries next h) next (Inr (find_order next h)) file)"
  by (auto simp: persist_begin_submission_def begin_changed_entries split: prod.splits sum.splits)

lemma rejected_false: "mark_submission_rejected tk h e = (Inr False, tk') \<Longrightarrow> tk' = tk"
  by (auto simp: mark_submission_rejected_def split: option.splits if_splits)

definition outcome_refined ::
    "order_tracker \<Rightarrow> persistent_tracker \<Rightarrow> bool \<times> persistent_tracker \<times> journal_file \<Rightarrow> bool" where
  "outcome_refined nxt p out = (case out of (success, p', file') \<Rightarrow>
     (success \<longrightarrow> pt_tracker p' = nxt \<and> pt_journal p' = pt_journal p \<and> persistent_wf p' file') \<and>
     (\<not> success \<longrightarrow> p' = p))"

lemma outcome_refined_map [simp]: "outcome_refined nxt p (map_prod is_ok id out) = refined nxt p out"
  by (cases out) (auto simp: outcome_refined_def refined_def)

lemma persist_refines:
  assumes wf: "persistent_wf p file" and ok: "op_wf op" and io: "io_stat_ok io"
  shows "outcome_refined (run_op op (pt_tracker p)) p (persist_op io op p file)"
proof -
  have tk: "tracker_wf (pt_tracker p)"
    using wf by (simp add: persistent_wf_def)
  note begin' = j_begin.publish_refines [OF _ wf io, of "(h, a)" for h a, simplified]
  note create' = j_create.publish_refines [OF _ wf io, of "(h, a)" for h a, simplified]
  note reject' = j_rejected.publish_refines [OF _ wf io, of "(h, a)" for h a, simplified]
  note removed' = j_removed.publish_refines [OF _ wf io, simplified]
  note rest' = j_rest.publish_refines [OF _ wf io]
  note event' = j_event.publish_refines [OF _ wf io]
  note require' = j_require.publish_refines [OF _ wf io]
  note reconcile' = j_reconcile.publish_refines [OF _ wf io, of "(g, s)" for g s, simplified]
  show ?thesis
  proof (cases op)
    case (Begin_Submission h a)
    then show ?thesis
      using ok begin' [of a h] by (cases "begin_submission (pt_tracker p) h a")
        (auto simp: persist_begin_alt [OF tk] split: sum.splits)
  next
    case (Apply_Create_Outcome h out)
    then show ?thesis
      using create' [of h out] by (cases "apply_create_outcome (pt_tracker p) h out")
        (auto simp: persist_apply_create_outcome_def split: sum.splits)
  next
    case (Mark_Submission_Rejected h e)
    then show ?thesis
      using reject' [of h e] refined_unchanged [OF wf, of False]
      by (cases "mark_submission_rejected (pt_tracker p) h e")
        (auto simp: persist_mark_submission_rejected_def dest: rejected_false split: sum.splits bool.splits)
  next
    case (Apply_Rest_Order r)
    then show ?thesis
      using ok rest' [of r] by (cases "apply_rest_order (pt_tracker p) r")
        (auto simp: persist_apply_rest_order_def split: sum.splits)
  next
    case (Apply_Wallet_Event e)
    then show ?thesis
      using ok event' [of e] by (cases "apply_wallet_event (pt_tracker p) e")
        (auto simp: persist_apply_wallet_event_def split: sum.splits)
  next
    case (Mark_Book_Removed h)
    then show ?thesis
      using removed' [of h] by (cases "mark_book_removed (pt_tracker p) h")
        (auto simp: persist_mark_book_removed_def split: sum.splits)
  next
    case (Require_Reconciliation g)
    then show ?thesis
      using ok require' [of g] by (auto simp: persist_require_reconciliation_def Let_def)
  next
    case (Reconcile g s)
    then show ?thesis
      using ok reconcile' [of g s] by (cases "reconcile (pt_tracker p) g s")
        (auto simp: persist_reconcile_def)
  qed
qed

text \<open>
  An append never damages the journal: for every outcome of the system calls, as long as the
  existing file can be inspected, the file afterwards is the old one followed by a prefix of the
  new records.
\<close>

theorem append_extends_file:
  assumes "io_stat_ok io"
  shows "\<exists>n. snd (journal_append io j ts (Some old)) = Some (old @ take n (frames (jr_maximum_record_bytes j) ts))"
  using journal_append_prefix [OF assms, of j ts old "fst (journal_append io j ts (Some old))"] by simp

lemma persist_file:
  "persist_op io op p file = (success, p', file') \<Longrightarrow>
     file' = file \<or> (\<exists>b es. journal_append io (pt_journal p) es file = (b, file'))"
  by (cases op)
    (auto simp: persist_begin_submission_def persist_apply_create_outcome_def persist_mark_submission_rejected_def
      persist_apply_rest_order_def persist_apply_wallet_event_def persist_mark_book_removed_def
      persist_require_reconciliation_def persist_reconcile_def publish_def Let_def
      split: prod.splits sum.splits bool.splits if_splits)

lemma persist_extends_file:
  assumes "persistent_wf p file" and "io_stat_ok io" and "persist_op io op p file = (success, p', file')"
  shows "\<exists>more. file' = map_option (\<lambda>old. old @ more) file"
proof -
  obtain old where old: "file = Some old"
    using assms(1) by (auto simp: persistent_wf_def journal_agrees_def)
  show ?thesis
    using persist_file [OF assms(3)] journal_append_prefix [OF assms(2), of "pt_journal p" _ old]
    unfolding old option.map by (metis append_Nil2)
qed

text \<open>
  C3. Journal-before-publish refinement: from a consistent state of a tracker that flushes its journal after an append, and as
  long as the existing file can be inspected, every call of the persistent tracker, whatever the other system calls do,
  either reports success, and then the tracker in memory is exactly the result of the operation and the
  file on disk replays to exactly that tracker; or reports an error, and then the tracker in memory is
  unchanged and the file is the old one, perhaps followed by some bytes.
\<close>

theorem persistent_tracker_refines:
  assumes "persistent_wf p file" and "op_wf op" and "io_stat_ok io"
  shows "case persist_op io op p file of (success, p', file') \<Rightarrow>
    (if success
     then pt_tracker p' = run_op op (pt_tracker p) \<and> pt_journal p' = pt_journal p \<and> persistent_wf p' file'
     else p' = p \<and> (\<exists>more. file' = map_option (\<lambda>old. old @ more) file))"
  using persist_refines [OF assms] persist_extends_file [OF assms(1,3), of op]
  by (auto simp: outcome_refined_def split: prod.splits)

definition fresh_tracker :: persistent_tracker where
  "fresh_tracker = \<lparr>pt_journal = sample_journal, pt_tracker = empty_tracker,
     pt_recovered_records = 0, pt_ignored_truncated_tail = False\<rparr>"

lemma fresh_wf: "persistent_wf fresh_tracker (Some file_magic)"
proof -
  have "journal_agrees 65536 (Some file_magic) empty_tracker"
    unfolding journal_agrees_def
    by (intro exI [of _ "[]"]) (simp add: empty_tracker_def find_order_def fun_eq_iff)
  then show ?thesis
    by (simp add: persistent_wf_def fresh_tracker_def sample_journal_def)
qed

text \<open>
  The exception, and a defect: \<^verbatim>\<open>std::filesystem::exists\<close> returns false when it fails, and
  \<open>initialize\<close> looks at its error only when it returned true. When the existing journal cannot be
  inspected, the next step creates the file anew and every record in it is lost.
\<close>

lemma initialize_truncates_on_stat_failure:
  assumes "jr_path j \<noteq> []" and "128 \<le> jr_maximum_record_bytes j" and "io_mkdir_ok io"
    and "\<not> io_stat_ok io" and "io_create_ok io" and "io_magic_ok io" and "io_sync_ok io"
  shows "journal_initialize io j (Some old) = (Inr True, Some file_magic)"
  using assms by (simp add: journal_initialize_def sync_file_to_stable_storage_def)

section \<open>Recovery\<close>

definition io_all_ok :: "io_outcome \<Rightarrow> bool" where
  "io_all_ok io \<longleftrightarrow> io_mkdir_ok io \<and> io_stat_ok io \<and> io_open_ok io \<and> (\<forall>k. io_write_ok io k)
     \<and> io_flush_ok io \<and> io_close_ok io \<and> io_sync_ok io \<and> io_read_ok io \<and> io_resize_ok io"

definition journal_ok :: "order_journal \<Rightarrow> bool" where
  "journal_ok j \<longleftrightarrow> jr_path j \<noteq> [] \<and> 128 \<le> jr_maximum_record_bytes j
     \<and> jr_maximum_record_bytes j < 2 ^ 32 \<and> jr_flush_after_append j"

lemma initialize_ok:
  "io_all_ok io \<Longrightarrow> journal_ok j \<Longrightarrow> journal_initialize io j (Some old) = (Inr True, Some old)"
  by (auto simp: journal_initialize_def io_all_ok_def journal_ok_def)

lemma append_loop_succeeds:
  "\<forall>k. io_write_ok io k \<Longrightarrow> list_all (encodable (jr_maximum_record_bytes j)) ts \<Longrightarrow>
     append_loop io j k ts written = (None, written @ frames (jr_maximum_record_bytes j) ts)"
  by (induction ts arbitrary: k written)
    (auto simp: encodable_def is_ok_iff order_frame_def)

lemma append_succeeds:
  assumes "io_all_ok io" and "journal_ok j" and "list_all (encodable (jr_maximum_record_bytes j)) ts"
  shows "journal_append io j ts (Some old) = (Inr True, Some (old @ frames (jr_maximum_record_bytes j) ts))"
proof -
  have "append_loop io j 0 ts [] = (None, frames (jr_maximum_record_bytes j) ts)"
    using append_loop_succeeds [of io j ts 0 "[]"] assms by (simp add: io_all_ok_def)
  then show ?thesis
    using assms initialize_ok [OF assms(1,2), of old]
    by (simp add: journal_append_def io_all_ok_def journal_ok_def sync_file_to_stable_storage_def)
qed

definition sample_pending :: tracked_order where
  "sample_pending = \<lparr>to_order_hash = sample_hash, to_order_id = None, to_amount = \<lparr>xd_text = ''1.5''\<rparr>,
     to_amount_filled = exact_zero, to_state = submission_pending, to_reconciliation_required = False,
     to_stream_generation = 0, to_last_event_timestamp_ms = 0, to_reason = ''''\<rparr>"

lemma sample_io: "io_all_ok good_io" "journal_ok sample_journal"
  "list_all (encodable (jr_maximum_record_bytes sample_journal)) [sample_pending]"
  by (simp add: io_all_ok_def good_io_def) code_simp+

lemma sample_begin:
  "begin_submission empty_tracker sample_hash \<lparr>xd_text = ''1.5''\<rparr> =
     (Inr sample_pending, \<lparr>tk_orders = [(sample_hash, sample_pending)]\<rparr>)"
  by code_simp

theorem persistent_tracker_refines_witness:
  "\<exists>p' file'. persist_op good_io (Begin_Submission sample_hash \<lparr>xd_text = ''1.5''\<rparr>) fresh_tracker (Some file_magic) =
       (True, p', file') \<and> find_order (pt_tracker p') sample_hash = Some sample_pending \<and> persistent_wf p' file'"
proof -
  define op where "op = Begin_Submission sample_hash \<lparr>xd_text = ''1.5''\<rparr>"
  obtain p' file' where p': "persist_op good_io op fresh_tracker (Some file_magic) = (True, p', file')"
    using sample_io sample_begin
    by (auto simp: op_def persist_begin_submission_def publish_def fresh_tracker_def append_succeeds)
  have "exact_wf \<lparr>xd_text = ''1.5''\<rparr>"
    by code_simp
  then have "op_wf op" "io_stat_ok good_io"
    by (simp_all add: op_def good_io_def)
  then have "pt_tracker p' = run_op op (pt_tracker fresh_tracker) \<and> persistent_wf p' file'"
    using persistent_tracker_refines [OF fresh_wf, of op good_io] p' by simp
  moreover have "find_order (run_op op (pt_tracker fresh_tracker)) sample_hash = Some sample_pending"
    using sample_begin by (simp add: op_def fresh_tracker_def find_order_def)
  ultimately show ?thesis
    using p' by (auto simp: op_def)
qed

lemma encodable_quarantine:
  assumes "encodable maximum t" and "g < 2 ^ 64"
  shows "encodable maximum (quarantine g t)"
proof -
  obtain p where "encode t maximum = Inr p"
    using assms(1) by (auto simp: encodable_def is_ok_iff)
  then have "\<exists>q. encode (quarantine g t) maximum = Inr q"
    unfolding encode_Inr Let_def by (auto simp: quarantine_def)
  then show ?thesis
    using assms by (auto simp: encodable_def is_ok_iff journal_wf_def quarantine_def)
qed

lemma next_generation_bounds:
  "1 \<le> next_generation ts \<and> next_generation ts < 2 ^ 64 \<and>
   (\<forall>t\<in>set ts. to_stream_generation t < 2 ^ 64 - 1 \<longrightarrow> to_stream_generation t < next_generation ts)"
proof -
  define f where "f = (\<lambda>(t :: tracked_order) g. max g ((to_stream_generation t + 1) mod 2 ^ 64))"
  have mono: "g \<le> fold f ts g" for g
    by (induction ts arbitrary: g) (auto simp: f_def intro: order_trans [OF max.cobounded1])
  have bound: "g < 2 ^ 64 \<Longrightarrow> fold f ts g < 2 ^ 64" for g
    by (induction ts arbitrary: g) (auto simp: f_def)
  have above: "t \<in> set us \<Longrightarrow> to_stream_generation t < 2 ^ 64 - 1 \<Longrightarrow> to_stream_generation t < fold f us g" for t us g
  proof (induction us arbitrary: g)
    case (Cons u us)
    have mono': "h \<le> fold f us h" for h
      by (induction us arbitrary: h) (auto simp: f_def intro: order_trans [OF max.cobounded1])
    show ?case
    proof (cases "t = u")
      case True
      have "to_stream_generation t < f t g"
        using Cons.prems by (simp add: f_def)
      also have "\<dots> \<le> fold f us (f t g)"
        by (rule mono')
      finally show ?thesis
        using True by simp
    next
      case False
      then show ?thesis
        using Cons by simp
    qed
  qed simp
  show ?thesis
    using mono [of 1] bound [of 1] above [of _ ts 1] by (simp add: next_generation_def f_def)
qed

lemma restore_records:
  assumes "distinct (map to_order_hash us)" and "\<forall>t\<in>set us. entry_wf (to_order_hash t, t) \<and> restorable t"
  shows "\<exists>tk. restore empty_tracker us = (Inr True, tk) \<and> tracker_wf tk \<and>
    (\<forall>h t. find_order tk h = Some t \<longleftrightarrow> t \<in> set us \<and> to_order_hash t = h)"
proof -
  define tk where "tk = empty_tracker\<lparr>tk_orders := map (\<lambda>t. (to_order_hash t, t)) us\<rparr>"
  have "list_all decimals_wf us"
    using assms(2) by (auto simp: list_all_iff entry_wf_def decimals_wf_def)
  then have "restore_loop us [] = Inr (map (\<lambda>t. (to_order_hash t, t)) us)"
    using assms restore_loop_ok [of us "[]"] by (simp add: list_all_iff)
  then have "restore empty_tracker us = (Inr True, tk)"
    by (simp add: restore_def tk_def)
  moreover have "tracker_wf tk"
    using assms by (auto simp: tracker_wf_def tk_def list_all_iff comp_def)
  ultimately show ?thesis
    using find_after_restore [OF assms(1)] by (auto simp: tk_def)
qed

lemma record_all_range: "record_all ts m h = Some t \<Longrightarrow> t \<in> set ts \<and> to_order_hash t = h \<or> m h = Some t"
proof (induction ts arbitrary: m)
  case (Cons a ts)
  from Cons.prems have "record_all ts (m(to_order_hash a \<mapsto> a)) h = Some t"
    by simp
  from Cons.IH [OF this] show ?case
    by (auto split: if_splits)
qed simp

text \<open>The records of a journal that the tracker wrote, with amounts that \<open>restore\<close> accepts.\<close>

definition recoverable :: "nat \<Rightarrow> tracked_order list \<Rightarrow> bool" where
  "recoverable maximum ts \<longleftrightarrow> list_all (encodable maximum) ts \<and>
     list_all (\<lambda>t. entry_wf (to_order_hash t, t) \<and> restorable t) ts"

text \<open>Replay and restore rebuild the tracker that the complete records describe.\<close>

lemma restored_tracker:
  assumes "io_all_ok io" and "journal_ok j" and "recoverable (jr_maximum_record_bytes j) ts"
    and "length p \<le> jr_maximum_record_bytes j" and "k < length (frame p)"
  shows "\<exists>rl tk. replay io j (Some (file_magic @ frames (jr_maximum_record_bytes j) ts @ take k (frame p))) = Inr rl \<and>
    restore empty_tracker (rl_orders rl) = (Inr True, tk) \<and> tracker_wf tk \<and>
    find_order tk = record_all ts Map.empty \<and>
    (\<forall>h t. record_all ts Map.empty h = Some t \<longrightarrow> t \<in> set (rl_orders rl)) \<and>
    rl_records_applied rl = length ts \<and>
    rl_valid_bytes rl = length (file_magic @ frames (jr_maximum_record_bytes j) ts) \<and>
    rl_ignored_truncated_tail rl = (0 < k)"
proof -
  define m where "m = record_all ts Map.empty"
  have enc: "list_all (encodable (jr_maximum_record_bytes j)) ts"
    and good: "\<forall>t\<in>set ts. entry_wf (to_order_hash t, t) \<and> restorable t"
    using assms(3) by (auto simp: recoverable_def list_all_iff)
  obtain rl where rl: "replay io j (Some (file_magic @ frames (jr_maximum_record_bytes j) ts @ take k (frame p))) = Inr rl"
    "distinct (map to_order_hash (rl_orders rl))"
    "\<And>t. t \<in> set (rl_orders rl) \<longleftrightarrow> m (to_order_hash t) = Some t"
    "rl_records_applied rl = length ts"
    "rl_valid_bytes rl = length (file_magic @ frames (jr_maximum_record_bytes j) ts)"
    "rl_ignored_truncated_tail rl = (0 < k)"
    using replay_spec [of io j ts p k] assms enc
    by (auto simp: io_all_ok_def journal_ok_def m_def)
  have from_m: "m h = Some t \<Longrightarrow> t \<in> set ts \<and> to_order_hash t = h" for h t
    using record_all_range [of ts Map.empty h t] by (simp add: m_def)
  have "\<forall>t\<in>set (rl_orders rl). entry_wf (to_order_hash t, t) \<and> restorable t"
    using rl(3) good from_m by blast
  then obtain tk where tk: "restore empty_tracker (rl_orders rl) = (Inr True, tk)" "tracker_wf tk"
    and find: "\<And>h t. find_order tk h = Some t \<longleftrightarrow> t \<in> set (rl_orders rl) \<and> to_order_hash t = h"
    using restore_records [OF rl(2)] by blast
  have "find_order tk h = m h" for h
    by (intro option_eqI) (use from_m in \<open>auto simp: find rl(3)\<close>)
  then have "find_order tk = m" ..
  moreover have "m h = Some t \<Longrightarrow> t \<in> set (rl_orders rl)" for h t
    using from_m rl(3) by auto
  ultimately show ?thesis
    using rl tk by (auto simp: m_def)
qed

lemma quarantined_encodable:
  assumes "list_all (encodable maximum) ts" and "tracker_wf tk" and "find_order tk = record_all ts Map.empty"
    and "g < 2 ^ 64"
  shows "list_all (encodable maximum) (tracker_snapshot (require_reconciliation tk g))"
  unfolding list_all_iff
proof
  fix t
  assume "t \<in> set (tracker_snapshot (require_reconciliation tk g))"
  then have "find_order (require_reconciliation tk g) (to_order_hash t) = Some t"
    using snapshot_current tracker_wf_require [OF assms(2,4)] by blast
  then obtain u where "find_order tk (to_order_hash t) = Some u" "t = (if terminal u then u else quarantine g u)"
    unfolding find_require
    by (cases "find_order tk (to_order_hash t)") (auto simp only: option.map option.inject option.distinct)
  moreover have "encodable maximum u"
    using record_all_range [of ts Map.empty "to_order_hash t" u] assms(1,3) calculation(1)
    by (simp add: list_all_iff)
  ultimately show "encodable maximum t"
    using encodable_quarantine [OF _ assms(4)] by simp
qed

lemma open_recovers_aux:
  assumes "io_all_ok io" and "io_all_ok io'" and j: "journal_ok j"
    and rec: "recoverable (jr_maximum_record_bytes j) ts"
    and "length p \<le> jr_maximum_record_bytes j" and "k < length (frame p)"
  shows "\<exists>pt file' g. open_tracker io io' j
      (Some (file_magic @ frames (jr_maximum_record_bytes j) ts @ take k (frame p))) = (Inr pt, file') \<and>
    persistent_wf pt file' \<and> pt_ignored_truncated_tail pt = (0 < k) \<and> pt_recovered_records pt = length ts \<and>
    (\<forall>h. find_order (pt_tracker pt) h =
       map_option (\<lambda>t. if terminal t then t else quarantine g t) (record_all ts Map.empty h)) \<and>
    (\<forall>h t. record_all ts Map.empty h = Some t \<and> to_stream_generation t < 2 ^ 64 - 1 \<longrightarrow>
       to_stream_generation t < g)"
proof -
  define torn where "torn = Some (file_magic @ frames (jr_maximum_record_bytes j) ts @ take k (frame p))"
  obtain rl tk where rl: "replay io j torn = Inr rl" "restore empty_tracker (rl_orders rl) = (Inr True, tk)"
    "tracker_wf tk" "find_order tk = record_all ts Map.empty"
    "\<And>h t. record_all ts Map.empty h = Some t \<Longrightarrow> t \<in> set (rl_orders rl)"
    "rl_records_applied rl = length ts"
    "rl_valid_bytes rl = length (file_magic @ frames (jr_maximum_record_bytes j) ts)"
    "rl_ignored_truncated_tail rl = (0 < k)"
    using restored_tracker [OF assms(1) j rec assms(5,6)] by (auto simp: torn_def)
  define g where "g = next_generation (rl_orders rl)"
  define nxt where "nxt = require_reconciliation tk g"
  define file2 where "file2 = Some (file_magic @ frames (jr_maximum_record_bytes j) ts)"
  define pt0 where "pt0 = \<lparr>pt_journal = j, pt_tracker = tk, pt_recovered_records = length ts,
      pt_ignored_truncated_tail = (0 < k)\<rparr>"
  have g: "g < 2 ^ 64"
    using next_generation_bounds by (simp add: g_def)
  have enc: "list_all (encodable (jr_maximum_record_bytes j)) ts"
    using rec by (simp add: recoverable_def)
  have wf0: "persistent_wf pt0 file2"
    using rl(3,4) j enc by (auto simp: persistent_wf_def pt0_def file2_def journal_agrees_def journal_ok_def)
  have cut: "0 < k \<Longrightarrow> map_option (take (rl_valid_bytes rl)) torn = file2" "k = 0 \<Longrightarrow> torn = file2"
    by (simp_all add: rl file2_def torn_def)
  obtain file3 where app: "journal_append io' j (tracker_snapshot nxt) file2 = (Inr True, file3)"
    "tracker_snapshot nxt = [] \<Longrightarrow> file3 = file2"
    using append_succeeds [OF assms(2) j quarantined_encodable [OF enc rl(3,4) g]]
    by (fastforce simp: file2_def nxt_def)
  have "refined nxt pt0 (Inr (), pt0\<lparr>pt_tracker := nxt\<rparr>, file3)"
    using j_require.publish_refines [OF g wf0, of io' "()"] app assms(2)
    by (simp add: pt0_def nxt_def publish_def io_all_ok_def)
  then have "persistent_wf (pt0\<lparr>pt_tracker := nxt\<rparr>) file3"
    by (simp add: refined_def)
  moreover have "open_tracker io io' j torn = (Inr (pt0\<lparr>pt_tracker := nxt\<rparr>), file3)"
  proof -
    have "journal_initialize io j torn = (Inr True, torn)" "io_resize_ok io"
      using initialize_ok [OF assms(1) j] assms(1) by (simp_all add: torn_def io_all_ok_def)
    then show ?thesis
      unfolding open_tracker_def using app cut nxt_def rl(1)
      by (cases "0 < k") (simp_all add: rl(2,6,8) g_def [symmetric] Let_def pt0_def)
  qed
  ultimately show ?thesis
    using rl(4,5) next_generation_bounds [of "rl_orders rl", folded g_def] unfolding torn_def
    by (intro exI [of _ "pt0\<lparr>pt_tracker := nxt\<rparr>"] exI [of _ file3] exI [of _ g])
      (auto simp: pt0_def nxt_def find_require)
qed



end
