(* ===== verification/Http_Types.thy ===== *)
theory Http_Types
  imports Prelude
begin

text \<open>
  \<^verbatim>\<open>include/predictfun/net/http.hpp\<close> and the pure parts of \<^verbatim>\<open>src/http.cpp\<close>: requests,
  responses, header lookup, the classification of secret headers and the log summary; and
  \<open>parse_retry_after\<close> of \<^verbatim>\<open>src/rate_limiter.cpp\<close>. Sockets, TLS and DNS are not modelled.
\<close>

section \<open>Requests and responses\<close>

datatype http_method = http_get | http_post

record header =
  hd_name :: string
  hd_value :: string

record http_request =
  rq_method :: http_method
  rq_host :: string
  rq_port :: string
  rq_target :: string
  rq_use_tls :: bool
  rq_headers :: "header list"
  rq_body :: string
  rq_content_type :: string

record http_response =
  rs_status :: int
  rs_body :: string
  rs_headers :: "header list"

record transport_limits =
  tl_max_body_bytes :: nat
  tl_max_request_body_bytes :: nat
  tl_default_timeout_ms :: int

definition default_request :: http_request where
  "default_request = \<lparr>rq_method = http_get, rq_host = '''', rq_port = ''443'', rq_target = ''/'',
     rq_use_tls = True, rq_headers = [], rq_body = '''', rq_content_type = ''application/json''\<rparr>"

definition iequals :: "string \<Rightarrow> string \<Rightarrow> bool" where
  "iequals l r \<longleftrightarrow> length l = length r \<and> map to_lower l = map to_lower r"

definition response_header :: "http_response \<Rightarrow> string \<Rightarrow> string" where
  "response_header r name =
     (case List.find (\<lambda>h. iequals (hd_name h) name) (rs_headers r) of
        None \<Rightarrow> '''' | Some h \<Rightarrow> hd_value h)"

definition is_secret_header :: "string \<Rightarrow> bool" where
  "is_secret_header name \<longleftrightarrow> iequals name ''x-api-key'' \<or> iequals name ''authorization''
     \<or> iequals name ''cookie'' \<or> iequals name ''set-cookie''"

definition sanitized_request_summary :: "http_request \<Rightarrow> string" where
  "sanitized_request_summary r =
     (let path = takeWhile (\<lambda>c. c \<noteq> CHR ''?'') (rq_target r);
          m = (if rq_method r = http_get then ''GET'' else ''POST'')
      in m @ '' '' @ rq_host r @ '':'' @ rq_port r @ path)"

section \<open>Retry-After\<close>

text \<open>
  All times are milliseconds. \<open>get_time\<close> stands for \<^verbatim>\<open>std::get_time\<close> with the IMF-fixdate format
  followed by \<^verbatim>\<open>timegm\<close>: the seconds since the epoch of a text that is a complete date, \<open>None\<close>
  otherwise. The exception on a negative maximum is the left case of the result.
\<close>

definition clamp :: "int \<Rightarrow> int \<Rightarrow> int \<Rightarrow> int" where
  "clamp lo hi v = (if v < lo then lo else if hi < v then hi else v)"

definition max_safe_seconds :: nat where
  "max_safe_seconds = (2 ^ 63 - 1) div 1000"

definition parse_retry_after ::
    "(string \<Rightarrow> int option) \<Rightarrow> string \<Rightarrow> int \<Rightarrow> int \<Rightarrow> int \<Rightarrow> int result" where
  "parse_retry_after get_time v now fallback maximum =
     (if maximum < 0
      then Inl (mk_error invalid_argument ''Retry-After maximum must not be negative'' '''')
      else
        case from_chars_uint u64_max v of
          Some (seconds, []) \<Rightarrow> Inr (clamp 0 maximum (int (min seconds max_safe_seconds * 1000)))
        | _ \<Rightarrow>
            (case get_time v of
               Some timestamp \<Rightarrow>
                 if 0 \<le> timestamp then Inr (clamp 0 maximum (timestamp * 1000 - now))
                 else Inr (clamp 0 maximum fallback)
             | None \<Rightarrow> Inr (clamp 0 maximum fallback)))"

lemma parse_retry_after_bounds:
  "parse_retry_after gt v now fb m = Inr d \<Longrightarrow> 0 \<le> d \<and> d \<le> m"
  by (auto simp: parse_retry_after_def clamp_def Let_def split: if_splits option.splits prod.splits list.splits)

text \<open>A date in the past gives a zero delay, not the fallback.\<close>

lemma parse_retry_after_past:
  assumes "0 \<le> m" and "from_chars_uint u64_max v = None" and "gt v = Some ts" and "0 \<le> ts" and "ts * 1000 \<le> now"
  shows "parse_retry_after gt v now fb m = Inr 0"
  using assms by (simp add: parse_retry_after_def clamp_def)

end
