(* ===== verification/Trading.thy ===== *)
theory Trading
  imports Order_Types Http_Types
begin

text \<open>
  \<^verbatim>\<open>src/trading.cpp\<close>: validation of mutations, and the asynchronous \<open>Operation\<close> that sends one.
  The operation is a state machine: each member function is a function on its state, the
  completion handler is the list of results it has been called with, and the callbacks the
  runtime still owes (start, timer, response, cancellation) are flags. \<open>trading_step\<close> lets them fire in any
  order the runtime allows, with cancellation at any moment.
\<close>

section \<open>Validation\<close>

definition hash32 :: "string \<Rightarrow> bool" where
  "hash32 v \<longleftrightarrow> length v = 66 \<and> starts_with v ''0x'' \<and> list_all is_xdigit (drop 2 v)"

definition safe_id :: "string \<Rightarrow> bool" where
  "safe_id v \<longleftrightarrow> v \<noteq> [] \<and> length v \<le> 256 \<and>
     list_all (\<lambda>c. 0x21 \<le> (of_char c :: nat) \<and> (of_char c :: nat) \<le> 0x7e) v"

definition validate_create_order :: "create_order_request \<Rightarrow> string result" where
  "validate_create_order r =
     guard_res (\<not> hash32 (cr_order_hash r))
       (mk_error invalid_argument ''order hash must be 0x followed by 64 hex characters'' ''order_hash'')
     (guard_res (so_signature (cr_order r) = [] \<or> length (so_signature (cr_order r)) > 200)
       (mk_error invalid_argument ''signature must contain at most 200 characters'' ''order.signature'')
     (guard_res (uo_side (cr_order r) \<noteq> side_buy \<and> uo_side (cr_order r) \<noteq> side_sell)
       (mk_error invalid_argument ''unsupported order side'' ''order.side'')
     (guard_res (uo_signature_type (cr_order r) \<noteq> sig_eoa \<and> uo_signature_type (cr_order r) \<noteq> sig_poly_proxy
                 \<and> uo_signature_type (cr_order r) \<noteq> sig_poly_gnosis_safe)
       (mk_error invalid_argument ''unsupported signature type'' ''order.signature_type'')
     (guard_res (uint256_is_zero (cr_price_per_share_wei r))
       (mk_error invalid_price ''price per share must be positive'' ''price_per_share_wei'')
     (guard_res (uint256_is_zero (uo_maker_amount (cr_order r)) \<or> uint256_is_zero (uo_taker_amount (cr_order r)))
       (mk_error invalid_quantity ''maker and taker amounts must be positive'' ''order'')
     (guard_res (cr_strategy r = exec_market \<and> cr_is_post_only r = Some True)
       (mk_error invalid_argument ''market orders cannot be post-only'' ''is_post_only'')
     (Inr (cr_order_hash r))))))))"

definition validate_order_ids :: "string list \<Rightarrow> string result" where
  "validate_order_ids ids =
     (if ids = [] \<or> length ids > 100
      then Inl (mk_error (if ids = [] then invalid_argument else too_many_items)
                 ''order id list must contain between 1 and 100 entries'' ''ids'')
      else if \<not> list_all safe_id ids then Inl (mk_error invalid_argument ''invalid order id'' ''ids'')
      else Inr (''ids:'' @ hd ids @ '':'' @ to_string (length ids)))"

definition validate_order_hashes :: "string list \<Rightarrow> string result" where
  "validate_order_hashes hashes =
     (if hashes = [] \<or> length hashes > 100
      then Inl (mk_error (if hashes = [] then invalid_argument else too_many_items)
                 ''order hash list must contain between 1 and 100 entries'' ''hashes'')
      else if \<not> list_all hash32 hashes
      then Inl (mk_error invalid_argument ''every order hash must be 0x followed by 64 hex characters'' ''hashes'')
      else Inr (''hashes:'' @ hd hashes @ '':'' @ to_string (length hashes)))"

section \<open>The mutation operation\<close>

datatype environment = env_mainnet | env_testnet

text \<open>What the credential providers return: they may throw.\<close>

datatype credentials = credentials_failed | credentials string string

record 'r trading_operation =
  tq_environment :: environment
  tq_endpoint :: string
  tq_target :: string
  tq_body :: string
  tq_reconciliation_key :: string
  tq_deadline :: "int option"
  tq_stop_requested :: bool
  tq_handler :: bool
  tq_dispatched :: bool
  tq_start_pending :: bool
  tq_timer_pending :: bool
  tq_response_pending :: bool
  tq_cancel_pending :: bool
  tq_delivered :: "'r mutation_outcome result list"
  tq_posts :: "http_request list"
  tq_penalties :: "int list"
  tq_responses :: "http_response result list"

definition http_error :: "error_code \<Rightarrow> int \<Rightarrow> string \<Rightarrow> int \<Rightarrow> error" where
  "http_error c status m retry = \<lparr>err_code = c, err_message = m, err_field = '''',
     err_http_status = status, err_retry_after_ms = nat (max 0 retry)\<rparr>"

definition ambiguous_outcome :: "error \<Rightarrow> string \<Rightarrow> 'r mutation_outcome" where
  "ambiguous_outcome e key = \<lparr>mo_disposition = ambiguous, mo_receipt = None,
     mo_ambiguity = Some (e\<lparr>err_code := ambiguous_submission\<rparr>), mo_reconciliation_key = key\<rparr>"

definition op_finish :: "'r mutation_outcome result \<Rightarrow> 'r trading_operation \<Rightarrow> 'r trading_operation" where
  "op_finish r q = (if \<not> tq_handler q then q
     else q\<lparr>tq_handler := False, tq_delivered := tq_delivered q @ [r]\<rparr>)"

definition op_send :: "credentials \<Rightarrow> 'r trading_operation \<Rightarrow> 'r trading_operation" where
  "op_send creds q =
     (if \<not> tq_handler q then q
      else if tq_stop_requested q
      then op_finish (Inl (mk_error cancelled ''request cancelled'' '''')) q
      else case creds of
        credentials_failed \<Rightarrow>
          op_finish (Inl (mk_error authentication_required ''credential provider failed'' '''')) q
      | credentials key jwt \<Rightarrow>
          if tq_environment q = env_mainnet \<and> key = []
          then op_finish (Inl (mk_error authentication_required
                 ''Predict.fun mainnet requires an API key'' '''')) q
          else if jwt = []
          then op_finish (Inl (mk_error authentication_required
                 ''Predict.fun trading endpoint requires a JWT'' '''')) q
          else
            let request = default_request\<lparr>rq_method := http_post,
                  rq_host := (if tq_environment q = env_mainnet then ''api.predict.fun''
                              else ''api-testnet.predict.fun''),
                  rq_target := tq_target q, rq_use_tls := True, rq_body := tq_body q,
                  rq_headers := (if key \<noteq> [] then [\<lparr>hd_name = ''x-api-key'', hd_value = key\<rparr>] else [])
                    @ [\<lparr>hd_name = ''Authorization'', hd_value = ''Bearer '' @ jwt\<rparr>]\<rparr>
            in q\<lparr>tq_dispatched := True, tq_posts := tq_posts q @ [request], tq_response_pending := True\<rparr>)"

text \<open>\<open>wait\<close> is what the rate limiter's \<open>reserve\<close> returned.\<close>

definition op_start :: "int \<Rightarrow> int \<Rightarrow> credentials \<Rightarrow> 'r trading_operation \<Rightarrow> 'r trading_operation" where
  "op_start now wait creds q =
     (if \<not> tq_handler q then q
      else if tq_stop_requested q
      then op_finish (Inl (mk_error cancelled ''request cancelled'' '''')) q
      else if (case tq_deadline q of Some d \<Rightarrow> d \<le> now | None \<Rightarrow> False)
      then op_finish (Inl (mk_error deadline_exceeded ''request deadline exceeded'' '''')) q
      else if wait = 0 then op_send creds q
      else if (case tq_deadline q of Some d \<Rightarrow> now + wait \<ge> d | None \<Rightarrow> False)
      then op_finish (Inl (mk_error deadline_exceeded ''rate limit wait exceeds request deadline'' '''')) q
      else q\<lparr>tq_timer_pending := True\<rparr>)"

definition op_timer :: "bool \<Rightarrow> credentials \<Rightarrow> 'r trading_operation \<Rightarrow> 'r trading_operation" where
  "op_timer failed creds q =
     (if failed then op_finish (Inl (mk_error cancelled ''request wait cancelled'' '''')) q
      else op_send creds q)"

text \<open>\<open>retry\<close> is the value \<open>parse_retry_after\<close> gave for the header of a 429 response.\<close>

definition op_handle ::
    "(string \<Rightarrow> 'r result) \<Rightarrow> int \<Rightarrow> http_response result \<Rightarrow> 'r trading_operation \<Rightarrow> 'r trading_operation" where
  "op_handle decode retry result q =
     (case result of
        Inl e \<Rightarrow> op_finish (Inr (ambiguous_outcome e (tq_reconciliation_key q))) q
      | Inr response \<Rightarrow>
          let status = rs_status response in
          if 200 \<le> status \<and> status < 300 then
            (case decode (rs_body response) of
               Inl e \<Rightarrow> op_finish (Inr (ambiguous_outcome e (tq_reconciliation_key q))) q
             | Inr receipt \<Rightarrow> op_finish (Inr \<lparr>mo_disposition = acknowledged, mo_receipt = Some receipt,
                 mo_ambiguity = None, mo_reconciliation_key = tq_reconciliation_key q\<rparr>) q)
          else if 300 \<le> status \<and> status < 400
          then op_finish (Inl (http_error http_redirect status ''HTTP redirect rejected'' 0)) q
          else if status = 401 \<or> status = 403
          then op_finish (Inl (http_error authentication_required status
                 ''Predict.fun authentication rejected'' 0)) q
          else if status = 429 \<or> status \<ge> 500 then
            (let q1 = (if status = 429 then q\<lparr>tq_penalties := tq_penalties q @ [retry]\<rparr> else q);
                 e = (if status = 429
                      then http_error rate_limited status ''Predict.fun rate limit exceeded'' retry
                      else http_error http_server_error status ''Predict.fun server error'' 0)
             in op_finish (Inr (ambiguous_outcome e (tq_reconciliation_key q))) q1)
          else op_finish (Inl (http_error (if status = 410 then venue_rejected else http_client_error)
                 status ''Predict.fun mutation rejected'' 0)) q)"

text \<open>The stop callback: it cancels the timer and finishes according to \<open>dispatched\<close>.\<close>

definition op_cancel :: "'r trading_operation \<Rightarrow> 'r trading_operation" where
  "op_cancel q =
     (if tq_dispatched q
      then op_finish (Inr (ambiguous_outcome
             (mk_error cancelled ''request cancelled after mutation dispatch'' '''')
             (tq_reconciliation_key q))) q
      else op_finish (Inl (mk_error cancelled ''request cancelled'' '''')) q)"

definition new_operation ::
    "environment \<Rightarrow> string \<Rightarrow> string \<Rightarrow> string \<Rightarrow> string \<Rightarrow> int option \<Rightarrow> 'r trading_operation" where
  "new_operation env endpoint target body key deadline =
     \<lparr>tq_environment = env, tq_endpoint = endpoint, tq_target = target, tq_body = body,
      tq_reconciliation_key = key, tq_deadline = deadline, tq_stop_requested = False,
      tq_handler = True, tq_dispatched = False, tq_start_pending = True, tq_timer_pending = False,
      tq_response_pending = False, tq_cancel_pending = False, tq_delivered = [], tq_posts = [], tq_penalties = [],
      tq_responses = []\<rparr>"

text \<open>
  \<open>post\<close>: a failed validation or encoding is delivered at once, and nothing is created.
\<close>

definition post_operation ::
    "environment \<Rightarrow> string \<Rightarrow> string \<Rightarrow> string result \<Rightarrow> string result \<Rightarrow> int option
       \<Rightarrow> error + 'r trading_operation" where
  "post_operation env endpoint target body key deadline =
     (case (key, body) of
        (Inl e, _) \<Rightarrow> Inl e
      | (Inr k, Inl e) \<Rightarrow> Inl e
      | (Inr k, Inr b) \<Rightarrow> Inr (new_operation env endpoint target b k deadline))"

text \<open>The three mutations; the JSON encoders are parameters.\<close>

definition async_create_order ::
    "(create_order_request \<Rightarrow> string result) \<Rightarrow> environment \<Rightarrow> create_order_request \<Rightarrow> int option
       \<Rightarrow> error + create_order_receipt trading_operation" where
  "async_create_order encode env request deadline =
     (let validation = validate_create_order request;
          body = (case validation of Inr _ \<Rightarrow> encode request | Inl e \<Rightarrow> Inl e)
      in post_operation env ''create_order'' ''/v1/orders'' body validation deadline)"

definition async_remove_order_ids ::
    "(string list \<Rightarrow> string result) \<Rightarrow> environment \<Rightarrow> string list \<Rightarrow> int option
       \<Rightarrow> error + remove_orders_receipt trading_operation" where
  "async_remove_order_ids encode env ids deadline =
     (let validation = validate_order_ids ids;
          body = (case validation of Inr _ \<Rightarrow> encode ids | Inl e \<Rightarrow> Inl e)
      in post_operation env ''remove_order_ids'' ''/v1/orders/remove'' body validation deadline)"

definition async_remove_order_hashes ::
    "(string list \<Rightarrow> string result) \<Rightarrow> environment \<Rightarrow> string list \<Rightarrow> int option
       \<Rightarrow> error + remove_orders_receipt trading_operation" where
  "async_remove_order_hashes encode env hashes deadline =
     (let validation = validate_order_hashes hashes;
          body = (case validation of Inr _ \<Rightarrow> encode hashes | Inl e \<Rightarrow> Inl e)
      in post_operation env ''remove_order_hashes'' ''/orders/remove-by-hash'' body validation deadline)"

text \<open>
  The runtime: each owed callback fires once; a stop request may come at any time, and the
  cancellation it dispatches runs at any later moment. What the transport reports is recorded in
  \<open>tq_responses\<close>, which no operation looks at.
\<close>

inductive trading_step ::
    "(string \<Rightarrow> 'r result) \<Rightarrow> 'r trading_operation \<Rightarrow> 'r trading_operation \<Rightarrow> bool" for decode where
  start: "tq_start_pending q \<Longrightarrow>
    trading_step decode q (op_start now wait creds (q\<lparr>tq_start_pending := False\<rparr>))"
| timer: "tq_timer_pending q \<Longrightarrow>
    trading_step decode q (op_timer failed creds (q\<lparr>tq_timer_pending := False\<rparr>))"
| response: "tq_response_pending q \<Longrightarrow>
    trading_step decode q (op_handle decode retry result
      (q\<lparr>tq_response_pending := False, tq_responses := tq_responses q @ [result]\<rparr>))"
| stop: "trading_step decode q (q\<lparr>tq_stop_requested := True, tq_cancel_pending := True\<rparr>)"
| cancel: "tq_cancel_pending q \<Longrightarrow>
    trading_step decode q (op_cancel (q\<lparr>tq_cancel_pending := False\<rparr>))"

inductive_cases trading_stepE: "trading_step decode q q'"

section \<open>Invariant\<close>

text \<open>The statuses that say the venue did not accept the mutation.\<close>

definition definitive_status :: "int \<Rightarrow> bool" where
  "definitive_status s \<longleftrightarrow> s < 200 \<or> 300 \<le> s \<and> s < 500 \<and> s \<noteq> 429"

definition outcome_ok :: "(string \<Rightarrow> 'r result) \<Rightarrow> 'r trading_operation \<Rightarrow> 'r mutation_outcome result \<Rightarrow> bool" where
  "outcome_ok decode q r = (case r of
      Inl e \<Rightarrow> tq_posts q = [] \<or> (\<exists>response. Inr response \<in> set (tq_responses q) \<and>
        definitive_status (rs_status response) \<and> err_http_status e = rs_status response)
    | Inr out \<Rightarrow> tq_posts q \<noteq> [] \<and> mo_reconciliation_key out = tq_reconciliation_key q \<and>
        (case mo_disposition out of
           acknowledged \<Rightarrow> (\<exists>response receipt. Inr response \<in> set (tq_responses q) \<and> 200 \<le> rs_status response \<and>
             rs_status response < 300 \<and> decode (rs_body response) = Inr receipt \<and> mo_receipt out = Some receipt)
         | ambiguous \<Rightarrow> mo_receipt out = None \<and>
             (\<exists>e. mo_ambiguity out = Some e \<and> err_code e = ambiguous_submission)))"

definition op_inv :: "(string \<Rightarrow> 'r result) \<Rightarrow> 'r trading_operation \<Rightarrow> bool" where
  "op_inv decode q \<longleftrightarrow>
     tq_delivered q = [] \<and> tq_handler q \<and> (tq_start_pending q \<or> tq_timer_pending q \<or> tq_response_pending q)
       \<and> (tq_posts q = [] \<or> length (tq_posts q) = 1 \<and> \<not> tq_start_pending q \<and> \<not> tq_timer_pending q)
       \<and> tq_dispatched q = (tq_posts q \<noteq> []) \<and> (tq_response_pending q \<longrightarrow> tq_dispatched q)
       \<and> \<not> (tq_start_pending q \<and> tq_timer_pending q)
     \<or> (\<exists>r. tq_delivered q = [r] \<and> outcome_ok decode q r) \<and> \<not> tq_handler q
       \<and> length (tq_posts q) \<le> 1 \<and> tq_dispatched q = (tq_posts q \<noteq> [])"

lemma outcome_ok_update [simp]:
  "outcome_ok decode (q\<lparr>tq_start_pending := b\<rparr>) r = outcome_ok decode q r"
  "outcome_ok decode (q\<lparr>tq_timer_pending := b\<rparr>) r = outcome_ok decode q r"
  "outcome_ok decode (q\<lparr>tq_response_pending := b\<rparr>) r = outcome_ok decode q r"
  "outcome_ok decode (q\<lparr>tq_cancel_pending := b\<rparr>) r = outcome_ok decode q r"
  "outcome_ok decode (q\<lparr>tq_stop_requested := b\<rparr>) r = outcome_ok decode q r"
  "outcome_ok decode (q\<lparr>tq_penalties := ps\<rparr>) r = outcome_ok decode q r"
  "outcome_ok decode (q\<lparr>tq_handler := b\<rparr>) r = outcome_ok decode q r"
  "outcome_ok decode (q\<lparr>tq_delivered := rs\<rparr>) r = outcome_ok decode q r"
  by (simp_all add: outcome_ok_def split: sum.split mutation_disposition.split)

lemma outcome_ok_ambiguous:
  "tq_posts q \<noteq> [] \<Longrightarrow> outcome_ok decode q (Inr (ambiguous_outcome e (tq_reconciliation_key q)))"
  by (simp add: outcome_ok_def ambiguous_outcome_def)

lemma outcome_ok_logged:
  "outcome_ok decode q r \<Longrightarrow> outcome_ok decode (q\<lparr>tq_responses := tq_responses q @ rs\<rparr>) r"
  by (cases r; cases "\<exists>out. r = Inr out \<and> mo_disposition out = acknowledged")
    (auto simp: outcome_ok_def split: mutation_disposition.splits)

lemma op_inv_finish:
  assumes "tq_handler q \<longrightarrow> tq_delivered q = [] \<and> outcome_ok decode q r"
    and "\<not> tq_handler q \<longrightarrow> (\<exists>r. tq_delivered q = [r] \<and> outcome_ok decode q r)"
    and "length (tq_posts q) \<le> 1" and "tq_dispatched q = (tq_posts q \<noteq> [])"
  shows "op_inv decode (op_finish r q)"
  using assms by (auto simp: op_finish_def op_inv_def)

lemma op_inv_new: "op_inv decode (new_operation env ep tg b k d)"
  by (simp add: op_inv_def new_operation_def)

text \<open>A state just before a callback body: the callback's own flag is already cleared.\<close>

definition running :: "(string \<Rightarrow> 'r result) \<Rightarrow> 'r trading_operation \<Rightarrow> bool" where
  "running decode q \<longleftrightarrow>
     (tq_handler q \<longrightarrow> tq_delivered q = []) \<and>
     (\<not> tq_handler q \<longrightarrow> (\<exists>r. tq_delivered q = [r] \<and> outcome_ok decode q r)) \<and>
     length (tq_posts q) \<le> 1 \<and> tq_dispatched q = (tq_posts q \<noteq> [])"

lemma op_inv_finish_running:
  "running decode q \<Longrightarrow> outcome_ok decode q r \<Longrightarrow> op_inv decode (op_finish r q)"
  by (rule op_inv_finish) (auto simp: running_def)

lemma op_inv_idle: "running decode q \<Longrightarrow> \<not> tq_handler q \<Longrightarrow> op_inv decode q"
  by (auto simp: running_def op_inv_def)

lemma op_inv_send:
  assumes "running decode q"
    and "tq_handler q \<longrightarrow> tq_posts q = [] \<and> \<not> tq_start_pending q \<and> \<not> tq_timer_pending q"
  shows "op_inv decode (op_send creds q)"
proof (cases "tq_handler q")
  case True
  then have posts: "tq_posts q = []"
    using assms(2) by simp
  then have fin: "op_inv decode (op_finish (Inl e) q)" for e
    using assms(1) by (intro op_inv_finish_running) (auto simp: outcome_ok_def)
  show ?thesis
    using fin True assms posts
    by (auto simp: op_send_def Let_def op_inv_def running_def split: credentials.split)
qed (use assms op_inv_idle in \<open>simp add: op_send_def\<close>)

lemma op_inv_start:
  assumes "running decode q" and "tq_handler q \<longrightarrow> tq_posts q = [] \<and> \<not> tq_response_pending q
      \<and> \<not> tq_start_pending q \<and> \<not> tq_timer_pending q"
  shows "op_inv decode (op_start now wait creds q)"
proof (cases "tq_handler q")
  case True
  have fin: "op_inv decode (op_finish (Inl e) q)" for e
    using assms True by (intro op_inv_finish_running) (auto simp: outcome_ok_def)
  have "op_inv decode (q\<lparr>tq_timer_pending := True\<rparr>)"
    using assms True by (auto simp: op_inv_def running_def)
  then show ?thesis
    using fin True assms op_inv_send by (auto simp: op_start_def split: option.split)
qed (use assms op_inv_idle in \<open>simp add: op_start_def\<close>)

lemma op_inv_timer:
  assumes "running decode q"
    and "tq_handler q \<longrightarrow> tq_posts q = [] \<and> \<not> tq_start_pending q \<and> \<not> tq_timer_pending q"
  shows "op_inv decode (op_timer failed creds q)"
proof (cases "tq_handler q")
  case True
  then show ?thesis
    using assms op_inv_send [OF assms] op_inv_finish_running [OF assms(1)]
    by (auto simp: op_timer_def outcome_ok_def)
next
  case False
  then show ?thesis
    using op_inv_send [OF assms] op_inv_idle [OF assms(1)] by (auto simp: op_timer_def op_finish_def)
qed

lemma op_inv_handle:
  assumes "running decode q" and "tq_posts q \<noteq> []" and "result \<in> set (tq_responses q)"
  shows "op_inv decode (op_handle decode retry result q)"
proof -
  have amb: "op_inv decode (op_finish (Inr (ambiguous_outcome e (tq_reconciliation_key q))) q)" for e
    using assms by (intro op_inv_finish_running outcome_ok_ambiguous)
  have err: "result = Inr response \<Longrightarrow> rs_status response = n \<Longrightarrow> definitive_status n \<Longrightarrow>
      op_inv decode (op_finish (Inl (http_error c n m r)) q)" for response n c m r
    using assms by (intro op_inv_finish_running) (auto simp: outcome_ok_def http_error_def)
  have pen: "op_inv decode (op_finish (Inr (ambiguous_outcome e (tq_reconciliation_key q))) (q\<lparr>tq_penalties := ps\<rparr>))" for e ps
    using assms by (intro op_inv_finish_running)
      (auto simp: running_def intro!: outcome_ok_ambiguous)
  have ack: "result = Inr response \<Longrightarrow> 200 \<le> rs_status response \<Longrightarrow> rs_status response < 300 \<Longrightarrow>
      decode (rs_body response) = Inr rc \<Longrightarrow> op_inv decode (op_finish (Inr \<lparr>mo_disposition = acknowledged,
      mo_receipt = Some rc, mo_ambiguity = None, mo_reconciliation_key = tq_reconciliation_key q\<rparr>) q)" for response rc
    using assms by (intro op_inv_finish_running) (auto simp: outcome_ok_def)
  show ?thesis
    unfolding op_handle_def Let_def
    by (auto simp: amb pen ack definitive_status_def intro!: err split: sum.split)
qed

lemma op_inv_cancel: "running decode q \<Longrightarrow> op_inv decode (op_cancel q)"
  by (auto simp: op_cancel_def running_def outcome_ok_def ambiguous_outcome_def
      intro!: op_inv_finish)

lemma running_of_inv:
  assumes "op_inv decode q"
  shows "running decode q"
  using assms by (auto simp: op_inv_def running_def)

lemma running_logged:
  "running decode q \<Longrightarrow> running decode (q\<lparr>tq_response_pending := b, tq_responses := tq_responses q @ rs\<rparr>)"
  using outcome_ok_logged [of decode "q\<lparr>tq_response_pending := b\<rparr>"] by (auto simp: running_def)

lemma running_update [simp]:
  "running decode (q\<lparr>tq_start_pending := b\<rparr>) = running decode q"
  "running decode (q\<lparr>tq_timer_pending := b\<rparr>) = running decode q"
  "running decode (q\<lparr>tq_response_pending := b\<rparr>) = running decode q"
  "running decode (q\<lparr>tq_cancel_pending := b\<rparr>) = running decode q"
  by (simp_all add: running_def)

lemma op_inv_flags:
  "op_inv decode q \<Longrightarrow> tq_handler q \<Longrightarrow> tq_start_pending q \<Longrightarrow>
     tq_posts q = [] \<and> \<not> tq_timer_pending q \<and> \<not> tq_response_pending q"
  "op_inv decode q \<Longrightarrow> tq_handler q \<Longrightarrow> tq_timer_pending q \<Longrightarrow> tq_posts q = [] \<and> \<not> tq_start_pending q"
  "op_inv decode q \<Longrightarrow> tq_handler q \<Longrightarrow> tq_response_pending q \<Longrightarrow> tq_posts q \<noteq> []"
  by (auto simp: op_inv_def)

lemma op_handle_idle: "\<not> tq_handler q \<Longrightarrow> running decode q \<Longrightarrow> op_inv decode (op_handle decode retry result q)"
  by (auto simp: op_handle_def op_finish_def Let_def running_def op_inv_def split: sum.split)

lemma op_inv_step: "trading_step decode q q' \<Longrightarrow> op_inv decode q \<Longrightarrow> op_inv decode q'"
proof (erule trading_stepE)
  fix now wait creds
  assume "op_inv decode q" "tq_start_pending q" "q' = op_start now wait creds (q\<lparr>tq_start_pending := False\<rparr>)"
  then show "op_inv decode q'"
    using running_of_inv [of decode q] op_inv_flags [of decode q] by (simp add: op_inv_start)
next
  fix failed creds
  assume "op_inv decode q" "tq_timer_pending q" "q' = op_timer failed creds (q\<lparr>tq_timer_pending := False\<rparr>)"
  then show "op_inv decode q'"
    using running_of_inv [of decode q] op_inv_flags [of decode q] by (simp add: op_inv_timer)
next
  fix retry result
  assume asm: "op_inv decode q" "tq_response_pending q"
    and q': "q' = op_handle decode retry result
      (q\<lparr>tq_response_pending := False, tq_responses := tq_responses q @ [result]\<rparr>)"
  have "running decode (q\<lparr>tq_response_pending := False, tq_responses := tq_responses q @ [result]\<rparr>)"
    using running_of_inv [OF asm(1)] by (rule running_logged)
  then show "op_inv decode q'"
    unfolding q' using op_inv_flags(3) [OF asm(1) _ asm(2)]
    by (cases "tq_handler q") (simp_all add: op_inv_handle op_handle_idle)
next
  assume "op_inv decode q" "q' = q\<lparr>tq_stop_requested := True, tq_cancel_pending := True\<rparr>"
  then show "op_inv decode q'"
    by (auto simp: op_inv_def)
next
  assume "op_inv decode q" "tq_cancel_pending q" "q' = op_cancel (q\<lparr>tq_cancel_pending := False\<rparr>)"
  then show "op_inv decode q'"
    using running_of_inv [of decode q] by (simp add: op_inv_cancel)
qed

text \<open>Reachable states of one operation.\<close>

definition trading_reachable :: "(string \<Rightarrow> 'r result) \<Rightarrow> 'r trading_operation \<Rightarrow> 'r trading_operation \<Rightarrow> bool" where
  "trading_reachable decode q0 q \<longleftrightarrow> (trading_step decode)\<^sup>*\<^sup>* q0 q"

lemma op_inv_reachable: "trading_reachable decode q0 q \<Longrightarrow> op_inv decode q0 \<Longrightarrow> op_inv decode q"
  unfolding trading_reachable_def by (induction rule: rtranclp_induct) (auto dest: op_inv_step)

lemma op_key [simp]:
  "tq_reconciliation_key (op_finish r q) = tq_reconciliation_key q"
  "tq_reconciliation_key (op_send creds q) = tq_reconciliation_key q"
  by (simp_all add: op_finish_def op_send_def Let_def split: credentials.split)

lemma key_step: "trading_step decode q q' \<Longrightarrow> tq_reconciliation_key q' = tq_reconciliation_key q"
  by (erule trading_stepE)
    (auto simp: op_start_def op_timer_def op_handle_def op_cancel_def Let_def
      split: option.split sum.split)

lemma key_reachable: "trading_reachable decode q0 q \<Longrightarrow> tq_reconciliation_key q = tq_reconciliation_key q0"
  unfolding trading_reachable_def by (induction rule: rtranclp_induct) (auto dest: key_step)

section \<open>Properties\<close>

text \<open>
  C5. A mutation is sent at most once and reported exactly once: in every reachable state of an
  operation, whatever the order of callbacks and cancellations, at most one request has been
  posted and at most one result delivered, and once no callback is outstanding exactly one
  result has been delivered.
\<close>

theorem mutation_exactly_once:
  assumes "trading_reachable decode (new_operation env endpoint target body key deadline) q"
  shows "length (tq_posts q) \<le> 1 \<and> length (tq_delivered q) \<le> 1 \<and>
    (\<not> tq_start_pending q \<and> \<not> tq_timer_pending q \<and> \<not> tq_response_pending q \<longrightarrow> length (tq_delivered q) = 1)"
  using op_inv_reachable [OF assms op_inv_new] by (auto simp: op_inv_def)

text \<open>
  C6. No false rejection: once a mutation has been posted, the caller receives a plain error only
  when the transport delivered a response of the venue, with a definitive status (below 200, or 3xx
  and 4xx other than 429), which is the status of the error. A transport failure, a server error, a
  rate limit, an undecodable answer or a cancellation after the post is reported as ambiguous, with
  the key to reconcile by; and an acknowledgement carries the receipt that the decoder produced from
  the body of a 2xx response of the venue.
\<close>

theorem posted_mutation_never_falsely_rejected:
  assumes "trading_reachable decode (new_operation env endpoint target body key deadline) q"
    and "r \<in> set (tq_delivered q)"
  shows "case r of
      Inl e \<Rightarrow> tq_posts q = [] \<or> (\<exists>response. Inr response \<in> set (tq_responses q) \<and>
        definitive_status (rs_status response) \<and> err_http_status e = rs_status response)
    | Inr out \<Rightarrow> tq_posts q \<noteq> [] \<and> mo_reconciliation_key out = key \<and>
        (case mo_disposition out of
           acknowledged \<Rightarrow> (\<exists>response receipt. Inr response \<in> set (tq_responses q) \<and> 200 \<le> rs_status response \<and>
             rs_status response < 300 \<and> decode (rs_body response) = Inr receipt \<and> mo_receipt out = Some receipt)
         | ambiguous \<Rightarrow> mo_receipt out = None \<and>
             (\<exists>e. mo_ambiguity out = Some e \<and> err_code e = ambiguous_submission))"
proof -
  have key: "tq_reconciliation_key q = key"
    using key_reachable [OF assms(1)] by (simp add: new_operation_def)
  have "outcome_ok decode q r"
    using op_inv_reachable [OF assms(1) op_inv_new] assms(2) by (auto simp: op_inv_def)
  then show ?thesis
    unfolding outcome_ok_def key .
qed

text \<open>A run: the request is posted, and the connection is lost before the answer.\<close>

definition sample_operation :: "create_order_receipt trading_operation" where
  "sample_operation = new_operation env_testnet ''create_order'' ''/v1/orders'' ''{}'' ''0xabc'' None"

definition sample_posted :: "create_order_receipt trading_operation" where
  "sample_posted = op_start 0 0 (credentials '''' ''jwt'') (sample_operation\<lparr>tq_start_pending := False\<rparr>)"

definition sample_lost :: "create_order_receipt trading_operation" where
  "sample_lost = op_handle (\<lambda>_. Inl (mk_error malformed_json '''' '''')) 0
     (Inl (mk_error read_failure ''read failed'' ''''))
     (sample_posted\<lparr>tq_response_pending := False,
        tq_responses := tq_responses sample_posted @ [Inl (mk_error read_failure ''read failed'' '''')]\<rparr>)"

lemma sample_run: "trading_reachable (\<lambda>_. Inl (mk_error malformed_json '''' '''')) sample_operation sample_lost"
proof -
  have "tq_start_pending sample_operation" "tq_response_pending sample_posted"
    by code_simp+
  then have "trading_step (\<lambda>_. Inl (mk_error malformed_json '''' '''')) sample_operation sample_posted"
    "trading_step (\<lambda>_. Inl (mk_error malformed_json '''' '''')) sample_posted sample_lost"
    unfolding sample_posted_def sample_lost_def by (blast intro: trading_step.start trading_step.response)+
  then show ?thesis
    unfolding trading_reachable_def by (meson converse_rtranclp_into_rtranclp rtranclp.rtrancl_refl)
qed

theorem mutation_exactly_once_witness:
  "length (tq_posts sample_lost) \<le> 1 \<and> length (tq_delivered sample_lost) = 1"
proof -
  have "\<not> tq_start_pending sample_lost \<and> \<not> tq_timer_pending sample_lost \<and> \<not> tq_response_pending sample_lost"
    by code_simp
  then show ?thesis
    using mutation_exactly_once [OF sample_run [unfolded sample_operation_def]] by blast
qed

theorem posted_mutation_never_falsely_rejected_witness:
  "\<exists>out. Inr out \<in> set (tq_delivered sample_lost) \<and> mo_reconciliation_key out = ''0xabc''"
proof -
  have "map is_ok (tq_delivered sample_lost) = [True]"
    by code_simp
  then obtain out where "Inr out \<in> set (tq_delivered sample_lost)"
    by (auto simp: is_ok_iff)
  then show ?thesis
    using posted_mutation_never_falsely_rejected [OF sample_run [unfolded sample_operation_def]] by fastforce
qed

end
