(* ===== verification/Session.thy ===== *)
theory Session
  imports Persistent_Tracker Trading
begin

text \<open>
  \<^verbatim>\<open>src/execution_session.cpp\<close>: the \<open>DurableOrderSession\<close>, which ties the trading client, the
  private REST client and the persistent tracker together. All its handlers run on one strand,
  so each is a function on the session; the trading client and the REST client are reached by
  the requests the handlers issue (\<open>ss_dispatched\<close>, \<open>ro_requests\<close>) and answer by later calls of
  \<open>submit_result\<close> and \<open>on_page\<close>.
\<close>

section \<open>Share amounts\<close>

text \<open>\<open>protocol_decimal\<close> prints an amount of 18 protocol decimals.\<close>

definition strip_trailing_zeros :: "string \<Rightarrow> string" where
  "strip_trailing_zeros s = rev (dropWhile (\<lambda>c. c = CHR ''0'') (rev s))"

definition protocol_decimal :: "string \<Rightarrow> string" where
  "protocol_decimal digits =
     (let padded = (if length digits \<le> 18
                    then replicate (19 - length digits) (CHR ''0'') @ digits else digits);
          cut = length padded - 18;
          dotted = strip_trailing_zeros (take cut padded @ ''.'' @ drop cut padded)
      in if dotted \<noteq> [] \<and> last dotted = CHR ''.'' then butlast dotted else dotted)"

definition tracked_share_amount :: "create_order_request \<Rightarrow> exact_decimal result" where
  "tracked_share_amount r =
     (if uo_side (cr_order r) \<noteq> side_buy \<and> uo_side (cr_order r) \<noteq> side_sell
      then Inl (mk_error invalid_argument ''unsupported order side'' ''order.side'')
      else
        let raw = (if uo_side (cr_order r) = side_buy then uo_taker_amount (cr_order r)
                   else uo_maker_amount (cr_order r))
        in if uint256_is_zero raw
           then Inl (mk_error invalid_quantity ''tracked share amount must be positive'' ''order'')
           else exact_parse (protocol_decimal (u256_text raw)))"

section \<open>The session\<close>

record session =
  ss_tracker :: persistent_tracker
  ss_file :: journal_file
  ss_page_size :: nat
  ss_maximum_pages :: nat
  ss_reconciliation_active :: bool
  ss_dispatched :: "string list"

record submission_result =
  sr_tracked_order :: tracked_order
  sr_mutation :: "create_order_receipt mutation_outcome option"
  sr_rejection :: "error option"

record reconciliation_result =
  rr_report :: reconciliation_report
  rr_pages :: nat
  rr_records :: nat

definition invalid_session :: "string \<Rightarrow> string \<Rightarrow> error" where
  "invalid_session m f = mk_error invalid_argument m f"

text \<open>\<open>open\<close>: the two clients are given or not.\<close>

definition open_session ::
    "io_outcome \<Rightarrow> io_outcome \<Rightarrow> bool \<Rightarrow> bool \<Rightarrow> order_journal \<Rightarrow> nat \<Rightarrow> nat \<Rightarrow> journal_file
       \<Rightarrow> session result \<times> journal_file" where
  "open_session io io' has_trading has_rest j page_size maximum_pages file =
     (if \<not> has_trading then (Inl (invalid_session ''trading client is required'' ''trading_client''), file)
      else if \<not> has_rest
      then (Inl (invalid_session ''private REST client is required'' ''private_rest_client''), file)
      else if page_size = 0 \<or> page_size > 1000
      then (Inl (invalid_session ''reconciliation page size must be 1..1000'' ''reconciliation_page_size''), file)
      else if maximum_pages = 0
      then (Inl (invalid_session ''maximum reconciliation pages must be positive''
                   ''maximum_reconciliation_pages''), file)
      else case open_tracker io io' j file of
        (Inl e, file') \<Rightarrow> (Inl e, file')
      | (Inr tracker, file') \<Rightarrow>
          (Inr \<lparr>ss_tracker = tracker, ss_file = file', ss_page_size = page_size,
                ss_maximum_pages = maximum_pages, ss_reconciliation_active = False,
                ss_dispatched = []\<rparr>, file'))"

definition with_tracker :: "session \<Rightarrow> persistent_tracker \<times> journal_file \<Rightarrow> session" where
  "with_tracker s pf = s\<lparr>ss_tracker := fst pf, ss_file := snd pf\<rparr>"

text \<open>
  \<open>SubmitOperation::start\<close>: either the handler is finished with an error (\<open>Some\<close>), or the create
  request has been handed to the trading client.
\<close>

definition submit_start :: "io_outcome \<Rightarrow> create_order_request \<Rightarrow> session \<Rightarrow> error option \<times> session" where
  "submit_start io request s =
     (case validate_create_order request of
        Inl e \<Rightarrow> (Some e, s)
      | Inr _ \<Rightarrow>
        (case tracked_share_amount request of
           Inl e \<Rightarrow> (Some e, s)
         | Inr amount \<Rightarrow>
             let h = cr_order_hash request in
             case persist_begin_submission io (ss_tracker s) h amount (ss_file s) of
               (Inl e, pf) \<Rightarrow> (Some e, with_tracker s pf)
             | (Inr _, pf) \<Rightarrow>
                 (None, (with_tracker s pf)\<lparr>ss_dispatched := ss_dispatched s @ [h]\<rparr>)))"

text \<open>\<open>SubmitOperation::on_result\<close>.\<close>

definition submit_result ::
    "io_outcome \<Rightarrow> string \<Rightarrow> create_order_receipt mutation_outcome result \<Rightarrow> session
       \<Rightarrow> submission_result result \<times> session" where
  "submit_result io h result s =
     (let disappeared = mk_error protocol_error ''journaled order disappeared'' ''hash'' in
      case result of
        Inl rejection \<Rightarrow>
          (case persist_mark_submission_rejected io (ss_tracker s) h rejection (ss_file s) of
             (Inl e, pf) \<Rightarrow> (Inl e, with_tracker s pf)
           | (Inr _, pf) \<Rightarrow>
               (case find_order (pt_tracker (fst pf)) h of
                  None \<Rightarrow> (Inl disappeared, with_tracker s pf)
                | Some t \<Rightarrow> (Inr \<lparr>sr_tracked_order = t, sr_mutation = None, sr_rejection = Some rejection\<rparr>,
                            with_tracker s pf)))
      | Inr outcome \<Rightarrow>
          (case persist_apply_create_outcome io (ss_tracker s) h outcome (ss_file s) of
             (Inl e, pf) \<Rightarrow> (Inl e, with_tracker s pf)
           | (Inr _, pf) \<Rightarrow>
               (case find_order (pt_tracker (fst pf)) h of
                  None \<Rightarrow> (Inl disappeared, with_tracker s pf)
                | Some t \<Rightarrow> (Inr \<lparr>sr_tracked_order = t, sr_mutation = Some outcome, sr_rejection = None\<rparr>,
                            with_tracker s pf))))"

definition session_apply_wallet_event ::
    "io_outcome \<Rightarrow> wallet_event \<Rightarrow> session \<Rightarrow> tracked_order result \<times> session" where
  "session_apply_wallet_event io event s =
     (case persist_apply_wallet_event io (ss_tracker s) event (ss_file s) of
        (Inl e, pf) \<Rightarrow> (Inl e, with_tracker s pf)
      | (Inr _, pf) \<Rightarrow>
          (case find_order (pt_tracker (fst pf)) (we_order_hash event) of
             None \<Rightarrow> (Inl (mk_error protocol_error ''wallet order disappeared'' ''order_hash''), with_tracker s pf)
           | Some t \<Rightarrow> (Inr t, with_tracker s pf)))"

definition session_mark_book_removed ::
    "io_outcome \<Rightarrow> string \<Rightarrow> session \<Rightarrow> tracked_order result \<times> session" where
  "session_mark_book_removed io h s =
     (case persist_mark_book_removed io (ss_tracker s) h (ss_file s) of
        (Inl e, pf) \<Rightarrow> (Inl e, with_tracker s pf)
      | (Inr _, pf) \<Rightarrow>
          (case find_order (pt_tracker (fst pf)) h of
             None \<Rightarrow> (Inl (mk_error protocol_error ''book order disappeared'' ''hash''), with_tracker s pf)
           | Some t \<Rightarrow> (Inr t, with_tracker s pf)))"

definition session_snapshot :: "session \<Rightarrow> tracked_order list" where
  "session_snapshot s = tracker_snapshot (pt_tracker (ss_tracker s))"

section \<open>Reconciliation\<close>

record reconcile_operation =
  ro_generation :: nat
  ro_orders :: "order_record list"
  ro_cursors :: "string list"
  ro_pages :: nat
  ro_owns_active :: bool
  ro_requests :: "string option list"
  ro_finished :: "reconciliation_result result list"

definition new_reconcile :: "nat \<Rightarrow> reconcile_operation" where
  "new_reconcile g = \<lparr>ro_generation = g, ro_orders = [], ro_cursors = [], ro_pages = 0,
     ro_owns_active = False, ro_requests = [], ro_finished = []\<rparr>"

definition reconcile_finish ::
    "reconciliation_result result \<Rightarrow> reconcile_operation \<times> session \<Rightarrow> reconcile_operation \<times> session" where
  "reconcile_finish r ps = (case ps of (p, s) \<Rightarrow>
     (p\<lparr>ro_finished := ro_finished p @ [r]\<rparr>,
      if ro_owns_active p then s\<lparr>ss_reconciliation_active := False\<rparr> else s))"

definition request_page :: "string option \<Rightarrow> reconcile_operation \<Rightarrow> reconcile_operation" where
  "request_page after p = p\<lparr>ro_requests := ro_requests p @ [after]\<rparr>"

definition reconcile_start ::
    "io_outcome \<Rightarrow> reconcile_operation \<times> session \<Rightarrow> reconcile_operation \<times> session" where
  "reconcile_start io ps = (case ps of (p, s) \<Rightarrow>
     if ss_reconciliation_active s
     then reconcile_finish (Inl (invalid_session ''reconciliation is already active'' '''')) (p, s)
     else
       let s1 = s\<lparr>ss_reconciliation_active := True\<rparr>; p1 = p\<lparr>ro_owns_active := True\<rparr> in
       case persist_require_reconciliation io (ss_tracker s1) (ro_generation p) (ss_file s1) of
         (Inl e, pf) \<Rightarrow> reconcile_finish (Inl e) (p1, with_tracker s1 pf)
       | (Inr _, pf) \<Rightarrow> (request_page None p1, with_tracker s1 pf))"

text \<open>The last page: the complete snapshot is reconciled.\<close>

definition reconcile_pages ::
    "io_outcome \<Rightarrow> reconcile_operation \<Rightarrow> session \<Rightarrow> reconcile_operation \<times> session" where
  "reconcile_pages io p s =
     (case persist_reconcile io (ss_tracker s) (ro_generation p) (ro_orders p) (ss_file s) of
        (Inl e, pf) \<Rightarrow> reconcile_finish (Inl e) (p, with_tracker s pf)
      | (Inr report, pf) \<Rightarrow>
          reconcile_finish (Inr \<lparr>rr_report = report, rr_pages = ro_pages p,
            rr_records = length (ro_orders p)\<rparr>) (p, with_tracker s pf))"

definition on_page ::
    "io_outcome \<Rightarrow> orders_page result \<Rightarrow> reconcile_operation \<times> session \<Rightarrow> reconcile_operation \<times> session" where
  "on_page io result ps = (case ps of (p, s) \<Rightarrow>
     case result of
       Inl e \<Rightarrow> reconcile_finish (Inl e) (p, s)
     | Inr page \<Rightarrow>
         let p1 = p\<lparr>ro_pages := Suc (ro_pages p), ro_orders := ro_orders p @ op_orders page\<rparr> in
         case op_cursor page of
           Some c \<Rightarrow>
             if c \<noteq> [] then
               if c \<in> set (ro_cursors p1)
               then reconcile_finish (Inl (mk_error protocol_error
                      ''orders pagination cursor repeated'' ''cursor'')) (p1, s)
               else
                 let p2 = p1\<lparr>ro_cursors := c # ro_cursors p1\<rparr> in
                 if ro_pages p2 \<ge> ss_maximum_pages s
                 then reconcile_finish (Inl (mk_error too_many_items
                        ''orders reconciliation exceeded page bound'' ''maximum_reconciliation_pages'')) (p2, s)
                 else (request_page (Some c) p2, s)
             else reconcile_pages io p1 s
         | None \<Rightarrow> reconcile_pages io p1 s)"

section \<open>Share amounts are exact\<close>

lemma strip_dotted: "strip_trailing_zeros (w @ ''.'' @ f) = w @ ''.'' @ trim_fraction f"
proof -
  have "dropWhile (\<lambda>c. c = CHR ''0'') (xs @ CHR ''.'' # ys) = dropWhile (\<lambda>c. c = CHR ''0'') xs @ CHR ''.'' # ys"
    for xs ys
    by (induction xs) auto
  from this [of "rev f" "rev w"] show ?thesis
    by (simp add: strip_trailing_zeros_def trim_fraction_def)
qed

lemma plain_whole:
  assumes "list_all is_digit w" and "w \<noteq> []"
  shows "plain_decimal w" and "plain_value w = of_nat (digits_value w)"
proof -
  have no_dot: "CHR ''.'' \<notin> set w" and no_sign: "hd w \<noteq> CHR ''-''"
    using assms by (cases w; auto simp: list_all_iff)+
  have all: "takeWhile (\<lambda>c. c \<noteq> CHR ''.'') w = w"
    using no_dot by (rule no_dot_split)
  show "plain_decimal w"
    unfolding plain_decimal_def Let_def using assms no_dot no_sign by (simp add: all)
  show "plain_value w = of_nat (digits_value w)"
    unfolding plain_value_def Let_def using assms no_sign by (simp add: all)
qed

lemma plain_dotted:
  assumes "list_all is_digit w" and "w \<noteq> []" and "list_all is_digit f" and "f \<noteq> []"
  shows "plain_decimal (w @ ''.'' @ f)"
    and "plain_value (w @ ''.'' @ f) = of_nat (digits_value w) + frac_value f"
proof -
  have "hd (w @ ''.'' @ f) \<noteq> CHR ''-''"
    using assms by (cases w) auto
  moreover have "takeWhile (\<lambda>c. c \<noteq> CHR ''.'') (w @ ''.'' @ f) = w"
    using assms(1) by (auto simp: takeWhile_append list_all_iff)
  ultimately show "plain_decimal (w @ ''.'' @ f)"
    "plain_value (w @ ''.'' @ f) = of_nat (digits_value w) + frac_value f"
    using assms plain_value_split [OF assms(1), of f]
    by (auto simp: plain_decimal_def plain_value_def Let_def)
qed

lemma protocol_decimal_correct:
  assumes "list_all is_digit ds" and "ds \<noteq> []"
  shows "plain_decimal (protocol_decimal ds) \<and>
    plain_value (protocol_decimal ds) = of_nat (digits_value ds) / 10 ^ 18"
proof -
  define padded where "padded = (if length ds \<le> 18 then replicate (19 - length ds) (CHR ''0'') @ ds else ds)"
  define cut where "cut = length padded - 18"
  define w where "w = take cut padded"
  define f where "f = drop cut padded"
  have len: "18 < length padded"
    by (simp add: padded_def)
  have dig: "list_all is_digit padded" and val: "digits_value padded = digits_value ds"
    using assms(1) by (simp_all add: padded_def list_all_iff)
  have parts: "list_all is_digit w" "list_all is_digit f" "w \<noteq> []" "length f = 18"
    using dig append_take_drop_id [of cut padded] len
    by (metis f_def w_def list_all_append, metis f_def w_def list_all_append,
        auto simp: w_def f_def cut_def)
  have total: "of_nat (digits_value w) + frac_value f = (of_nat (digits_value ds) :: rat) / 10 ^ 18"
    using plain_value_split [OF parts(1), of f] parts(4) val by (simp add: w_def f_def)
  define g where "g = trim_fraction f"
  have g: "list_all is_digit g" "frac_value g = frac_value f" "g \<noteq> [] \<longrightarrow> last g \<noteq> CHR ''.''"
    using trim_fraction_shape [OF parts(2)] frac_value_trim [of f] last_digits [of g] by (auto simp: g_def)
  have "protocol_decimal ds = (if g = [] then w else w @ ''.'' @ g)"
    unfolding protocol_decimal_def Let_def padded_def [symmetric] cut_def [symmetric]
      w_def [symmetric] f_def [symmetric] strip_dotted g_def [symmetric]
    using g(3) by (auto simp: last_append butlast_append)
  then show ?thesis
    using plain_whole [OF parts(1,3)] plain_dotted [OF parts(1,3) g(1)] total g(2)
    by (cases "g = []") (auto simp: frac_value_def)
qed

definition share_units :: "create_order_request \<Rightarrow> uint256" where
  "share_units r = (if uo_side (cr_order r) = side_buy then uo_taker_amount (cr_order r)
     else uo_maker_amount (cr_order r))"

lemma tracked_share_amount_spec:
  assumes "uo_side (cr_order r) = side_buy \<or> uo_side (cr_order r) = side_sell"
    and "uint256_wf (share_units r)" and "uint256_value (share_units r) \<noteq> 0"
  shows "\<exists>d. tracked_share_amount r = Inr d \<and> exact_wf d \<and>
    exact_value d = of_nat (uint256_value (share_units r)) / 10 ^ 18"
proof -
  have "u256_text (share_units r) = to_string (uint256_value (share_units r))"
    using assms(2) by (simp add: uint256_wf_def)
  moreover from this have "\<not> uint256_is_zero (share_units r)"
    using assms(3) by (auto simp: uint256_is_zero_def uint256_value_def)
  moreover have "plain_decimal (protocol_decimal (to_string (uint256_value (share_units r)))) \<and>
      plain_value (protocol_decimal (to_string (uint256_value (share_units r)))) =
        of_nat (uint256_value (share_units r)) / 10 ^ 18"
    using protocol_decimal_correct [of "to_string (uint256_value (share_units r))"] by simp
  ultimately show ?thesis
    using assms(1)
    by (auto simp: tracked_share_amount_def share_units_def Let_def exact_parse_iff exact_wf_def exact_value_def)
qed

section \<open>Dispatch\<close>

lemma publish_cases:
  "publish io p es nxt r f = (res, p', f') \<Longrightarrow>
     pt_tracker p' = pt_tracker p \<and> \<not> is_ok res \<or> pt_tracker p' = nxt \<and> res = r"
  by (auto simp: publish_def split: prod.splits sum.splits)

lemma publish_outcome_cases:
  "map_prod is_ok id (publish io p es nxt r f) = (ok, p', f') \<Longrightarrow>
     pt_tracker p' = pt_tracker p \<or> pt_tracker p' = nxt"
  by (auto simp: publish_def split: prod.splits sum.splits)

lemma persist_op_tracker:
  "persist_op io op p f = (ok, p', f') \<Longrightarrow>
     pt_tracker p' = pt_tracker p \<or> pt_tracker p' = run_op op (pt_tracker p)"
  by (cases op)
    (auto simp: persist_begin_submission_def persist_apply_create_outcome_def
      persist_mark_submission_rejected_def persist_apply_rest_order_def persist_apply_wallet_event_def
      persist_mark_book_removed_def persist_require_reconciliation_def persist_reconcile_def Let_def
      dest!: publish_outcome_cases split: prod.splits sum.splits bool.splits)

lemma run_op_keeps_orders:
  assumes "tracker_wf tk"
  shows "dom (find_order tk) \<subseteq> dom (find_order (run_op op tk))"
proof
  fix h
  assume tracked: "h \<in> dom (find_order tk)"
  show "h \<in> dom (find_order (run_op op tk))"
  proof (rule ccontr)
    assume "h \<notin> dom (find_order (run_op op tk))"
    then have "find_order (run_op op tk) h = None"
      by (simp add: domIff)
    then have "find_order tk h = None"
      by (cases op) (auto simp: find_require_None find_reconcile_None [OF assms] dest: orders_not_dropped)
    with tracked show False by (simp add: domIff)
  qed
qed

text \<open>What a call of the session does to its tracker and its dispatch log.\<close>

inductive session_step :: "session \<Rightarrow> session \<Rightarrow> bool" where
  submit: "(\<And>a. tracked_share_amount r = Inr a \<Longrightarrow> exact_wf a) \<Longrightarrow>
    session_step s (snd (submit_start io r s))"
| result: "session_step s (snd (submit_result io h res s))"
| event: "event_wf e \<Longrightarrow> session_step s (snd (session_apply_wallet_event io e s))"
| removed: "session_step s (snd (session_mark_book_removed io h s))"
| reconcile_start: "ro_generation p < 2 ^ 64 \<Longrightarrow> session_step s (snd (reconcile_start io (p, s)))"
| page: "ro_generation p < 2 ^ 64 \<Longrightarrow> list_all record_wf (ro_orders p) \<Longrightarrow>
    (\<And>pg. result = Inr pg \<Longrightarrow> list_all record_wf (op_orders pg)) \<Longrightarrow>
    session_step s (snd (on_page io result (p, s)))"

inductive_cases session_stepE: "session_step s s'"

definition session_inv :: "session \<Rightarrow> bool" where
  "session_inv s \<longleftrightarrow> tracker_wf (pt_tracker (ss_tracker s)) \<and> distinct (ss_dispatched s) \<and>
     set (ss_dispatched s) \<subseteq> dom (find_order (pt_tracker (ss_tracker s)))"

text \<open>A call that runs one operation of the persistent tracker and dispatches nothing.\<close>

definition tracker_call :: "tracker_op \<Rightarrow> session \<Rightarrow> session \<Rightarrow> bool" where
  "tracker_call op s s' \<longleftrightarrow> ss_dispatched s' = ss_dispatched s \<and>
     (pt_tracker (ss_tracker s') = pt_tracker (ss_tracker s) \<or>
      pt_tracker (ss_tracker s') = run_op op (pt_tracker (ss_tracker s)))"

lemma session_inv_call: "tracker_call op s s' \<Longrightarrow> op_wf op \<Longrightarrow> session_inv s \<Longrightarrow> session_inv s'"
  using tracker_wf_op [of "pt_tracker (ss_tracker s)" op] run_op_keeps_orders [of "pt_tracker (ss_tracker s)" op]
  unfolding tracker_call_def session_inv_def by (metis order_trans)

lemma persist_trackers:
  "persist_apply_create_outcome io p h out f = (r, p', f') \<Longrightarrow>
     pt_tracker p' = pt_tracker p \<or> pt_tracker p' = run_op (Apply_Create_Outcome h out) (pt_tracker p)"
  "persist_mark_submission_rejected io p h e f = (r, p', f') \<Longrightarrow>
     pt_tracker p' = pt_tracker p \<or> pt_tracker p' = run_op (Mark_Submission_Rejected h e) (pt_tracker p)"
  "persist_apply_wallet_event io p ev f = (r, p', f') \<Longrightarrow>
     pt_tracker p' = pt_tracker p \<or> pt_tracker p' = run_op (Apply_Wallet_Event ev) (pt_tracker p)"
  "persist_mark_book_removed io p h f = (r, p', f') \<Longrightarrow>
     pt_tracker p' = pt_tracker p \<or> pt_tracker p' = run_op (Mark_Book_Removed h) (pt_tracker p)"
  "persist_require_reconciliation io p g f = (r, p', f') \<Longrightarrow>
     pt_tracker p' = pt_tracker p \<or> pt_tracker p' = run_op (Require_Reconciliation g) (pt_tracker p)"
  "persist_reconcile io p g s f = (rr, p', f') \<Longrightarrow>
     pt_tracker p' = pt_tracker p \<or> pt_tracker p' = run_op (Reconcile g s) (pt_tracker p)"
  using persist_op_tracker [of io "Apply_Create_Outcome h out" p f "is_ok r" p' f']
    persist_op_tracker [of io "Mark_Submission_Rejected h e" p f "is_ok r" p' f']
    persist_op_tracker [of io "Apply_Wallet_Event ev" p f "is_ok r" p' f']
    persist_op_tracker [of io "Mark_Book_Removed h" p f "is_ok r" p' f']
    persist_op_tracker [of io "Require_Reconciliation g" p f "is_ok r" p' f']
    persist_op_tracker [of io "Reconcile g s" p f "is_ok rr" p' f']
  by simp_all

lemma result_call:
  "tracker_call (case res of Inl e \<Rightarrow> Mark_Submission_Rejected h e | Inr out \<Rightarrow> Apply_Create_Outcome h out)
     s (snd (submit_result io h res s))"
  by (auto simp: submit_result_def tracker_call_def with_tracker_def Let_def
      dest!: persist_trackers split: sum.splits prod.splits option.splits)

lemma event_call: "tracker_call (Apply_Wallet_Event e) s (snd (session_apply_wallet_event io e s))"
  by (auto simp: session_apply_wallet_event_def tracker_call_def with_tracker_def
      dest!: persist_trackers split: sum.splits prod.splits option.splits)

lemma removed_call: "tracker_call (Mark_Book_Removed h) s (snd (session_mark_book_removed io h s))"
  by (auto simp: session_mark_book_removed_def tracker_call_def with_tracker_def
      dest!: persist_trackers split: sum.splits prod.splits option.splits)

lemma reconcile_start_call:
  "tracker_call (Require_Reconciliation (ro_generation p)) s (snd (reconcile_start io (p, s)))"
  by (auto simp: reconcile_start_def reconcile_finish_def tracker_call_def with_tracker_def Let_def
      dest!: persist_trackers split: sum.splits prod.splits option.splits)

lemma page_call:
  "tracker_call (Reconcile (ro_generation p) (ro_orders p @ (case result of Inr pg \<Rightarrow> op_orders pg | Inl _ \<Rightarrow> [])))
     s (snd (on_page io result (p, s)))"
  by (auto simp: on_page_def reconcile_pages_def reconcile_finish_def request_page_def tracker_call_def
      with_tracker_def Let_def dest!: persist_trackers split: sum.splits prod.splits option.splits)

lemma submit_start_dispatch:
  assumes "submit_start io r s = (None, s')"
  shows "\<exists>a t. validate_create_order r = Inr (cr_order_hash r) \<and> tracked_share_amount r = Inr a \<and>
    find_order (pt_tracker (ss_tracker s)) (cr_order_hash r) = None \<and>
    begin_submission (pt_tracker (ss_tracker s)) (cr_order_hash r) a = (Inr t, pt_tracker (ss_tracker s')) \<and>
    to_state t = submission_pending \<and> to_amount t = a \<and>
    fst (journal_append io (pt_journal (ss_tracker s)) [t] (ss_file s)) \<in> range Inr \<and>
    ss_file s' = snd (journal_append io (pt_journal (ss_tracker s)) [t] (ss_file s)) \<and>
    ss_dispatched s' = ss_dispatched s @ [cr_order_hash r]"
proof -
  define h where "h = cr_order_hash r"
  have valid: "validate_create_order r = Inr x \<Longrightarrow> x = h" for x
    by (auto simp: validate_create_order_def h_def res_simps)
  obtain x a p' f' v where steps: "validate_create_order r = Inr x" "tracked_share_amount r = Inr a"
    "persist_begin_submission io (ss_tracker s) h a (ss_file s) = (Inr v, p', f')"
    "s' = (with_tracker s (p', f'))\<lparr>ss_dispatched := ss_dispatched s @ [h]\<rparr>"
    using assms unfolding submit_start_def Let_def h_def [symmetric]
    by (auto split: sum.splits prod.splits)
  obtain t nxt where begin': "begin_submission (pt_tracker (ss_tracker s)) h a = (Inr t, nxt)"
    and pub: "publish io (ss_tracker s) [t] nxt (Inr (find_order nxt h)) (ss_file s) = (Inr v, p', f')"
    using steps(3) by (auto simp: persist_begin_submission_def split: sum.splits prod.splits)
  have "find_order (pt_tracker (ss_tracker s)) h = None" "to_state t = submission_pending" "to_amount t = a"
    using begin' by (auto simp: begin_submission_def Let_def split: if_splits)
  moreover have "pt_tracker p' = nxt" "fst (journal_append io (pt_journal (ss_tracker s)) [t] (ss_file s)) \<in> range Inr"
    "f' = snd (journal_append io (pt_journal (ss_tracker s)) [t] (ss_file s))"
    using pub by (auto simp: publish_def split: sum.splits prod.splits)
  ultimately show ?thesis
    using steps begin' valid by (auto simp: h_def with_tracker_def)
qed

lemma submit_call:
  "submit_start io r s = (Some e, s') \<Longrightarrow> \<exists>op. op_wf op \<and> tracker_call op s s'"
  by (auto simp: submit_start_def tracker_call_def with_tracker_def Let_def persist_begin_submission_def publish_def
      intro!: exI [of _ "Mark_Book_Removed ''''"] split: sum.splits prod.splits)

lemma session_inv_submit:
  assumes "session_inv s" and "\<And>a. tracked_share_amount r = Inr a \<Longrightarrow> exact_wf a"
  shows "session_inv (snd (submit_start io r s))"
proof (cases "fst (submit_start io r s)")
  case (Some e)
  then show ?thesis
    using submit_call [of io r s e] session_inv_call assms(1) by (metis prod.collapse)
next
  case None
  then obtain s' where start: "submit_start io r s = (None, s')"
    by (metis prod.collapse)
  from submit_start_dispatch [OF start] obtain a t where d:
    "tracked_share_amount r = Inr a" "find_order (pt_tracker (ss_tracker s)) (cr_order_hash r) = None"
    "begin_submission (pt_tracker (ss_tracker s)) (cr_order_hash r) a = (Inr t, pt_tracker (ss_tracker s'))"
    "ss_dispatched s' = ss_dispatched s @ [cr_order_hash r]"
    by blast
  have nxt: "pt_tracker (ss_tracker s') = run_op (Begin_Submission (cr_order_hash r) a) (pt_tracker (ss_tracker s))"
    using d(3) by simp
  have wf: "tracker_wf (pt_tracker (ss_tracker s))"
    using assms(1) by (simp add: session_inv_def)
  have "find_order (pt_tracker (ss_tracker s')) (cr_order_hash r) \<noteq> None"
    using begin_changed_entries [OF wf d(3)] by (auto simp: changed_entries_def split: option.splits)
  then have "cr_order_hash r \<in> dom (find_order (pt_tracker (ss_tracker s')))"
    by (simp add: domIff)
  moreover have "dom (find_order (pt_tracker (ss_tracker s))) \<subseteq> dom (find_order (pt_tracker (ss_tracker s')))"
    unfolding nxt using run_op_keeps_orders [OF wf] .
  moreover have "tracker_wf (pt_tracker (ss_tracker s'))"
    unfolding nxt using wf assms(2) [OF d(1)] by (intro tracker_wf_op) simp_all
  moreover have "cr_order_hash r \<notin> set (ss_dispatched s)"
    using assms(1) d(2) by (auto simp: session_inv_def)
  ultimately show ?thesis
    using assms(1) d(4) start by (simp add: session_inv_def) blast
qed

lemma session_inv_step: "session_step s s' \<Longrightarrow> session_inv s \<Longrightarrow> session_inv s'"
proof (induction rule: session_step.induct)
  case (submit r s io)
  then show ?case by (rule session_inv_submit [rotated])
next
  case (result s io h res)
  then show ?case by (cases res) (auto intro: session_inv_call [OF result_call])
next
  case (event e s io)
  then show ?case by (auto intro: session_inv_call [OF event_call])
next
  case (removed s io h)
  then show ?case by (auto intro: session_inv_call [OF removed_call])
next
  case (reconcile_start p s io)
  then show ?case by (auto intro: session_inv_call [OF reconcile_start_call])
next
  case (page p result s io)
  then show ?case by (intro session_inv_call [OF page_call]) (auto split: sum.split)
qed

definition session_reachable :: "session \<Rightarrow> session \<Rightarrow> bool" where
  "session_reachable s0 s \<longleftrightarrow> session_step\<^sup>*\<^sup>* s0 s"

lemma session_inv_reachable: "session_reachable s0 s \<Longrightarrow> session_inv s0 \<Longrightarrow> session_inv s"
  unfolding session_reachable_def by (induction rule: rtranclp_induct) (auto dest: session_inv_step)

definition sample_request :: create_order_request where
  "sample_request = \<lparr>cr_order = \<lparr>uo_salt = sample_uint, uo_maker = evm_default, uo_signer = evm_default,
       uo_taker = None, uo_token_id = sample_uint, uo_maker_amount = sample_uint,
       uo_taker_amount = \<lparr>u256_text = ''1500000000000000000''\<rparr>, uo_expiration = sample_uint,
       uo_nonce = sample_uint, uo_fee_rate_bps = sample_uint, uo_side = side_buy,
       uo_signature_type = sig_eoa, so_signature = ''0x''\<rparr>,
     cr_order_hash = sample_hash, cr_price_per_share_wei = sample_uint, cr_strategy = exec_limit,
     cr_slippage_bps = None, cr_is_fill_or_kill = None, cr_is_post_only = None,
     cr_reserved_balance_policy = None, cr_is_min_amount_out = None, cr_self_trade_prevention = None\<rparr>"

definition fresh_session :: session where
  "fresh_session = \<lparr>ss_tracker = fresh_tracker, ss_file = Some file_magic, ss_page_size = 1000,
     ss_maximum_pages = 100, ss_reconciliation_active = False, ss_dispatched = []\<rparr>"

lemma sample_submit: "\<exists>s'. submit_start good_io sample_request fresh_session = (None, s')"
proof -
  have "is_ok (validate_create_order sample_request)"
    "tracked_share_amount sample_request = Inr \<lparr>xd_text = ''1.5''\<rparr>" "cr_order_hash sample_request = sample_hash"
    by code_simp+
  moreover note sample_begin sample_io
  ultimately show ?thesis
    by (auto simp: submit_start_def is_ok_iff fresh_session_def fresh_tracker_def persist_begin_submission_def
        publish_def append_succeeds)
qed

text \<open>
  C1. Journal before dispatch: with a journal that can be inspected and is flushed after an append, a
  submission that starts without an error had a valid request and a hash that was not tracked before,
  and the file on disk has been extended by the pending record of exactly that order with its exact
  share amount before the one create request is handed to the trading client; a submission that
  fails to start hands nothing to the trading client.
\<close>

theorem submission_journaled_before_dispatch:
  assumes "submit_start io r s = (issue, s')" and "io_stat_ok io"
    and "jr_flush_after_append (pt_journal (ss_tracker s))" and "ss_file s = Some old"
  shows "case issue of
      Some e \<Rightarrow> ss_dispatched s' = ss_dispatched s
    | None \<Rightarrow> \<exists>a t. validate_create_order r = Inr (cr_order_hash r) \<and> tracked_share_amount r = Inr a \<and>
        find_order (pt_tracker (ss_tracker s)) (cr_order_hash r) = None \<and>
        to_order_hash t = cr_order_hash r \<and> to_state t = submission_pending \<and> to_amount t = a \<and>
        ss_file s' = Some (old @ frames (jr_maximum_record_bytes (pt_journal (ss_tracker s))) [t]) \<and>
        ss_dispatched s' = ss_dispatched s @ [cr_order_hash r]"
proof (cases issue)
  case None
  then have start: "submit_start io r s = (None, s')"
    using assms(1) by simp
  obtain a t where d: "validate_create_order r = Inr (cr_order_hash r)" "tracked_share_amount r = Inr a"
    "find_order (pt_tracker (ss_tracker s)) (cr_order_hash r) = None"
    "begin_submission (pt_tracker (ss_tracker s)) (cr_order_hash r) a = (Inr t, pt_tracker (ss_tracker s'))"
    "to_state t = submission_pending" "to_amount t = a"
    "fst (journal_append io (pt_journal (ss_tracker s)) [t] (ss_file s)) \<in> range Inr"
    "ss_file s' = snd (journal_append io (pt_journal (ss_tracker s)) [t] (ss_file s))"
    "ss_dispatched s' = ss_dispatched s @ [cr_order_hash r]"
    using submit_start_dispatch [OF start] by blast
  then obtain b where "journal_append io (pt_journal (ss_tracker s)) [t] (Some old) = (Inr b, ss_file s')"
    using assms(4) by (metis image_iff prod.collapse)
  moreover have "to_order_hash t = cr_order_hash r"
    using d(4) by (auto simp: begin_submission_def Let_def split: if_splits)
  ultimately show ?thesis
    unfolding None option.case using d journal_append_ok [OF assms(2,3)] by blast
next
  case (Some e)
  then show ?thesis
    using assms(1) by (auto simp: submit_start_def with_tracker_def Let_def split: sum.splits prod.splits)
qed

theorem submission_journaled_before_dispatch_witness:
  "\<exists>s' t. submit_start good_io sample_request fresh_session = (None, s') \<and>
     ss_file s' = Some (file_magic @ frames 65536 [t]) \<and> ss_dispatched s' = [sample_hash]"
proof -
  obtain s' where s': "submit_start good_io sample_request fresh_session = (None, s')"
    using sample_submit by blast
  have facts: "io_stat_ok good_io" "jr_flush_after_append (pt_journal (ss_tracker fresh_session))"
    "ss_file fresh_session = Some file_magic"
    "jr_maximum_record_bytes (pt_journal (ss_tracker fresh_session)) = 65536"
    "cr_order_hash sample_request = sample_hash" "ss_dispatched fresh_session = []"
    by (simp_all add: good_io_def fresh_session_def fresh_tracker_def sample_journal_def sample_request_def)
  show ?thesis
    using submission_journaled_before_dispatch [OF s' facts(1-3)] s' facts(4-6) by auto
qed

text \<open>
  C2. No double submission: in every reachable state of a session, whatever the interleaving of
  submissions, results, wallet events, removals and reconciliations and whatever the file system
  does, the hashes handed to the trading client are pairwise different and all still tracked.
\<close>

theorem session_submits_at_most_once:
  assumes "session_reachable s0 s" and "tracker_wf (pt_tracker (ss_tracker s0))" and "ss_dispatched s0 = []"
  shows "distinct (ss_dispatched s) \<and> (\<forall>h. h \<in> set (ss_dispatched s) \<longrightarrow>
    (\<exists>t. find_order (pt_tracker (ss_tracker s)) h = Some t))"
  using session_inv_reachable [OF assms(1)] assms(2,3) by (auto simp: session_inv_def)

theorem session_submits_at_most_once_witness:
  "\<exists>t. find_order (pt_tracker (ss_tracker (snd (submit_start good_io sample_request fresh_session)))) sample_hash = Some t"
proof -
  obtain s' where s': "submit_start good_io sample_request fresh_session = (None, s')"
    using sample_submit by blast
  have "tracked_share_amount sample_request = Inr \<lparr>xd_text = ''1.5''\<rparr>" "exact_wf \<lparr>xd_text = ''1.5''\<rparr>"
    by code_simp+
  then have "session_step fresh_session s'"
    using session_step.submit [of sample_request fresh_session good_io] s' by simp
  then have "session_reachable fresh_session s'"
    unfolding session_reachable_def by blast
  moreover have "tracker_wf (pt_tracker (ss_tracker fresh_session))" "ss_dispatched fresh_session = []"
    by (simp_all add: fresh_session_def fresh_tracker_def)
  moreover have "sample_hash \<in> set (ss_dispatched s')"
    using submit_start_dispatch [OF s'] by (auto simp: sample_request_def)
  ultimately show ?thesis
    using session_submits_at_most_once [of fresh_session s'] s' by auto
qed

section \<open>Reconciliation is bounded\<close>

text \<open>Answers arrive one at a time until the operation has finished.\<close>

fun reconcile_run ::
    "nat \<Rightarrow> (nat \<Rightarrow> io_outcome) \<Rightarrow> (nat \<Rightarrow> orders_page result) \<Rightarrow> reconcile_operation \<times> session
       \<Rightarrow> reconcile_operation \<times> session" where
  "reconcile_run 0 ios answers ps = ps"
| "reconcile_run (Suc n) ios answers ps =
     (if ro_finished (fst ps) \<noteq> [] then ps
      else reconcile_run n ios answers
             (on_page (ios (ro_pages (fst ps))) (answers (ro_pages (fst ps))) ps))"

definition reconcile_ready :: "reconcile_operation \<times> session \<Rightarrow> bool" where
  "reconcile_ready ps \<longleftrightarrow> ro_finished (fst ps) = [] \<and> ro_owns_active (fst ps) \<and>
     ro_pages (fst ps) < ss_maximum_pages (snd ps) \<and> length (ro_requests (fst ps)) = Suc (ro_pages (fst ps))"

definition reconcile_done :: "reconcile_operation \<times> session \<Rightarrow> bool" where
  "reconcile_done ps \<longleftrightarrow> length (ro_finished (fst ps)) = 1 \<and> \<not> ss_reconciliation_active (snd ps) \<and>
     ro_pages (fst ps) \<le> ss_maximum_pages (snd ps) \<and> length (ro_requests (fst ps)) \<le> ss_maximum_pages (snd ps)"

lemma finish_done:
  "ro_finished p = [] \<Longrightarrow> ro_owns_active p \<Longrightarrow> ro_pages p \<le> ss_maximum_pages s \<Longrightarrow>
     length (ro_requests p) \<le> ss_maximum_pages s \<Longrightarrow> reconcile_done (reconcile_finish r (p, s))"
  by (simp add: reconcile_done_def reconcile_finish_def)

lemma pages_done:
  "ro_finished p = [] \<Longrightarrow> ro_owns_active p \<Longrightarrow> ro_pages p \<le> ss_maximum_pages s \<Longrightarrow>
     length (ro_requests p) \<le> ss_maximum_pages s \<Longrightarrow> reconcile_done (reconcile_pages io p s)"
  by (auto simp: reconcile_pages_def with_tracker_def intro!: finish_done split: prod.split sum.split)

lemma on_page_progress:
  assumes "reconcile_ready ps"
  shows "reconcile_done (on_page io result ps) \<or>
    reconcile_ready (on_page io result ps) \<and> ro_pages (fst (on_page io result ps)) = Suc (ro_pages (fst ps))
      \<and> ss_maximum_pages (snd (on_page io result ps)) = ss_maximum_pages (snd ps)"
proof (cases ps)
  case (Pair p s)
  then have ready: "ro_finished p = []" "ro_owns_active p" "ro_pages p < ss_maximum_pages s"
    "length (ro_requests p) = Suc (ro_pages p)"
    using assms by (auto simp: reconcile_ready_def)
  then show ?thesis
    using Pair
    by (auto simp: on_page_def Let_def reconcile_ready_def request_page_def
        intro!: finish_done pages_done split: sum.splits option.splits)
qed

lemma reconcile_run_done: "reconcile_done ps \<Longrightarrow> reconcile_run n ios answers ps = ps"
  by (cases n) (auto simp: reconcile_done_def)

lemma reconcile_run_finishes:
  "reconcile_ready ps \<Longrightarrow> ss_maximum_pages (snd ps) \<le> n + ro_pages (fst ps) \<Longrightarrow>
     reconcile_done (reconcile_run n ios answers ps)"
proof (induction n arbitrary: ps)
  case (Suc n)
  define ps' where "ps' = on_page (ios (ro_pages (fst ps))) (answers (ro_pages (fst ps))) ps"
  have run: "reconcile_run (Suc n) ios answers ps = reconcile_run n ios answers ps'"
    using Suc.prems(1) by (simp add: reconcile_ready_def ps'_def)
  from on_page_progress [OF Suc.prems(1), of "ios (ro_pages (fst ps))" "answers (ro_pages (fst ps))"]
  show ?case
    using Suc.IH [of ps'] Suc.prems(2) unfolding run ps'_def [symmetric] by (auto simp: reconcile_run_done)
qed (simp add: reconcile_ready_def)

lemma reconcile_start_cases:
  assumes "0 < ss_maximum_pages s"
  shows "ss_reconciliation_active s \<and> length (ro_finished (fst (reconcile_start io (new_reconcile g, s)))) = 1 \<or>
    reconcile_done (reconcile_start io (new_reconcile g, s)) \<or>
    reconcile_ready (reconcile_start io (new_reconcile g, s)) \<and>
      ro_pages (fst (reconcile_start io (new_reconcile g, s))) = 0 \<and>
      ss_maximum_pages (snd (reconcile_start io (new_reconcile g, s))) = ss_maximum_pages s"
  using assms
  by (auto simp: reconcile_start_def new_reconcile_def Let_def reconcile_ready_def request_page_def with_tracker_def
      reconcile_finish_def reconcile_done_def split: prod.split sum.split)

text \<open>
  C15. Reconciliation is bounded: against any sequence of answers, even a venue that pages forever or
  repeats cursors, a reconciliation that was started ends after at most the configured number
  of pages, having requested at most that many, with exactly one result and with the session
  free for the next reconciliation.
\<close>

theorem reconciliation_bounded:
  assumes "0 < ss_maximum_pages s" and "\<not> ss_reconciliation_active s"
    and "reconcile_run (ss_maximum_pages s) ios answers (reconcile_start io (new_reconcile g, s)) = (p', s')"
  shows "length (ro_finished p') = 1 \<and> \<not> ss_reconciliation_active s' \<and>
    ro_pages p' \<le> ss_maximum_pages s' \<and> length (ro_requests p') \<le> ss_maximum_pages s'"
proof -
  have "reconcile_done (reconcile_run (ss_maximum_pages s) ios answers (reconcile_start io (new_reconcile g, s)))"
    using reconcile_start_cases [OF assms(1), of io g] assms(2)
    by (auto simp: reconcile_run_done intro: reconcile_run_finishes)
  then show ?thesis
    using assms(3) by (simp add: reconcile_done_def)
qed

theorem reconciliation_bounded_witness:
  "length (ro_finished (fst (reconcile_run (ss_maximum_pages fresh_session) (\<lambda>_. good_io)
     (\<lambda>n. Inr \<lparr>op_cursor = Some (to_string n), op_orders = []\<rparr>)
     (reconcile_start good_io (new_reconcile 7, fresh_session))))) = 1"
proof -
  have "0 < ss_maximum_pages fresh_session" "\<not> ss_reconciliation_active fresh_session"
    by (simp_all add: fresh_session_def)
  then show ?thesis
    using reconciliation_bounded by (metis prod.collapse)
qed

text \<open>
  The tracked amount of an order is exact: for every valid side and every non-zero amount of up
  to 256 bits, the decimal that the session journals is the number of shares, that is the
  protocol units divided by \<open>10 ^ 18\<close>, with no rounding.
\<close>

theorem tracked_share_amount_exact:
  assumes "uo_side (cr_order r) = side_buy \<or> uo_side (cr_order r) = side_sell"
    and "uint256_wf (share_units r)" and "uint256_value (share_units r) \<noteq> 0"
  shows "\<exists>d. tracked_share_amount r = Inr d \<and> exact_wf d \<and>
    exact_value d = of_nat (uint256_value (share_units r)) / 10 ^ 18"
  using assms by (rule tracked_share_amount_spec)

theorem tracked_share_amount_exact_witness:
  "\<exists>d. tracked_share_amount sample_request = Inr d \<and> exact_wf d \<and>
    exact_value d = of_nat (uint256_value (share_units sample_request)) / 10 ^ 18"
  by (rule tracked_share_amount_exact) code_simp+

end
