(* ===== verification/Order_Signing.thy ===== *)
theory Order_Signing
  imports Chain_Transaction Chain_Operations Order_Amounts Session
begin

text \<open>
  Building and signing an order: \<^verbatim>\<open>src/order_builder.cpp\<close>, \<^verbatim>\<open>src/order_eip712.cpp\<close> and
  \<^verbatim>\<open>src/order_signature.cpp\<close>. The primitives of the \<^verbatim>\<open>core/crypto\<close> submodule (the hash, the
  conversion of a decimal text to a big-endian word, the EIP-712 domain separator and typed digest)
  are the fields of the parameter \<open>crypto\<close>; salt, clock and digest signer are the values their
  providers return. The last section composes the pipeline from limit amounts to the request
  that the trading client validates.
\<close>

section \<open>Data\<close>

record crypto =
  cy_keccak :: keccak
  cy_from_dec :: "string \<Rightarrow> bytes32 option"
  cy_domain :: "string \<Rightarrow> string \<Rightarrow> nat \<Rightarrow> bytes \<Rightarrow> bytes32"
  cy_digest :: "bytes32 \<Rightarrow> bytes32 \<Rightarrow> bytes32"

record build_order_input =
  bi_strategy :: execution_strategy
  bi_side :: contract_side
  bi_token_id :: uint256
  bi_maker_amount :: uint256
  bi_taker_amount :: uint256
  bi_fee_rate_bps :: uint256
  bi_signer :: evm_address
  bi_maker :: "evm_address option"
  bi_taker :: "evm_address option"
  bi_nonce :: uint256
  bi_salt :: "uint256 option"
  bi_signature_type :: signature_type
  bi_expires_at_unix_seconds :: "nat option"

text \<open>The options hold what the salt and clock providers answer to the call that is modelled.\<close>

record builder_options =
  bo_chain_id :: chain_id
  bo_salt :: "uint256 result"
  bo_clock :: nat
  bo_predict_account :: "evm_address option"

section \<open>EIP-712\<close>

definition order_type :: string where
  "order_type = ''Order(uint256 salt,address maker,address signer,address taker,uint256 tokenId,uint256 makerAmount,uint256 takerAmount,uint256 expiration,uint256 nonce,uint256 feeRateBps,uint8 side,uint8 signatureType)''"

definition protocol_name :: string where "protocol_name = ''predict.fun CTF Exchange''"

definition protocol_version :: string where "protocol_version = ''1''"

definition eip_word :: "crypto \<Rightarrow> uint256 \<Rightarrow> bytes32 result" where
  "eip_word cy value =
     (case cy_from_dec cy (u256_text value) of
        None \<Rightarrow> Inl (mk_error numeric_overflow ''uint256 exceeds 32 bytes'' '''')
      | Some w \<Rightarrow> Inr w)"

text \<open>A 64-bit value in the last eight bytes of a word.\<close>

definition word_u64 :: "nat \<Rightarrow> bytes32" where
  "word_u64 value = replicate 24 0 @ be_bytes 8 value"

definition hash_words :: "crypto \<Rightarrow> bytes32 list \<Rightarrow> bytes32 result" where
  "hash_words cy words = cy_keccak cy (concat words)"

text \<open>The words of the struct hash after the type hash.\<close>

definition order_words :: "crypto \<Rightarrow> 'a unsigned_order_scheme \<Rightarrow> bytes32 list result" where
  "order_words cy o' =
     (case (eip_word cy (uo_salt o'), eip_word cy (uo_token_id o'), eip_word cy (uo_maker_amount o'),
            eip_word cy (uo_taker_amount o'), eip_word cy (uo_expiration o'), eip_word cy (uo_nonce o'),
            eip_word cy (uo_fee_rate_bps o')) of
        (Inr salt, Inr token, Inr maker_amount, Inr taker_amount, Inr expiration, Inr nonce, Inr fee) \<Rightarrow>
          Inr [salt, word_address (uo_maker o'), word_address (uo_signer o'),
               (case uo_taker o' of Some a \<Rightarrow> word_address a | None \<Rightarrow> zero_word),
               token, maker_amount, taker_amount, expiration, nonce, fee,
               word_u64 (side_number (uo_side o')), word_u64 (signature_number (uo_signature_type o'))]
      | _ \<Rightarrow> Inl (mk_error numeric_overflow ''order contains an invalid uint256'' ''''))"

definition order_struct_hash :: "crypto \<Rightarrow> 'a unsigned_order_scheme \<Rightarrow> bytes32 result" where
  "order_struct_hash cy o' =
     (case (cy_keccak cy (string_bytes order_type), order_words cy o') of
        (Inr type_hash, Inr words) \<Rightarrow> hash_words cy (type_hash # words)
      | _ \<Rightarrow> Inl (mk_error numeric_overflow ''order contains an invalid uint256'' ''''))"

definition domain_separator :: "crypto \<Rightarrow> chain_id \<Rightarrow> evm_address \<Rightarrow> bytes32 result" where
  "domain_separator cy chain verifying_contract =
     Inr (cy_domain cy protocol_name protocol_version (chain_number chain) (evm_bytes verifying_contract))"

definition typed_data_digest ::
    "crypto \<Rightarrow> 'a unsigned_order_scheme \<Rightarrow> chain_id \<Rightarrow> evm_address \<Rightarrow> bytes32 result" where
  "typed_data_digest cy o' chain verifying_contract =
     bind_res (domain_separator cy chain verifying_contract) (\<lambda>domain.
     bind_res (order_struct_hash cy o') (\<lambda>structure. Inr (cy_digest cy domain structure)))"

section \<open>The builder\<close>

definition empty_addresses :: protocol_address_book where
  "empty_addresses = \<lparr>pa_yield_bearing_ctf_exchange = evm_default,
     pa_yield_bearing_neg_risk_ctf_exchange = evm_default, pa_yield_bearing_neg_risk_adapter = evm_default,
     pa_yield_bearing_conditional_tokens = evm_default,
     pa_yield_bearing_neg_risk_conditional_tokens = evm_default, pa_ctf_exchange = evm_default,
     pa_neg_risk_ctf_exchange = evm_default, pa_neg_risk_adapter = evm_default,
     pa_conditional_tokens = evm_default, pa_neg_risk_conditional_tokens = evm_default, pa_usdt = evm_default,
     pa_kernel = evm_default, pa_ecdsa_validator = evm_default\<rparr>"

definition builder_addresses :: "builder_options \<Rightarrow> protocol_address_book" where
  "builder_addresses opts =
     (case protocol_addresses (bo_chain_id opts) of Inl _ \<Rightarrow> empty_addresses | Inr a \<Rightarrow> a)"

definition build :: "builder_options \<Rightarrow> build_order_input \<Rightarrow> unsigned_order result" where
  "build opts i =
     (let account = bo_predict_account opts in
      if evm_empty (bi_signer i) \<and> account = None
      then Inl (mk_error invalid_argument ''order signer is required'' ''signer'')
      else
        let signer = (case account of Some a \<Rightarrow> a | None \<Rightarrow> bi_signer i);
            maker = (case account of Some a \<Rightarrow> a
                     | None \<Rightarrow> (case bi_maker i of Some m \<Rightarrow> m | None \<Rightarrow> bi_signer i))
        in if account = None \<and> maker \<noteq> signer
           then Inl (mk_error invalid_argument ''maker and signer must match for an EOA order'' ''maker'')
           else if bi_side i \<noteq> side_buy \<and> bi_side i \<noteq> side_sell
           then Inl (mk_error invalid_argument ''order side is unknown'' ''side'')
           else if uint256_is_zero (bi_token_id i) \<or> uint256_is_zero (bi_maker_amount i)
                   \<or> uint256_is_zero (bi_taker_amount i)
           then Inl (mk_error invalid_quantity ''token and order amounts must be positive'' ''amount'')
           else
             bind_res (case bi_salt i of Some s \<Rightarrow> Inr s | None \<Rightarrow> bo_salt opts) (\<lambda>salt.
               let now = bo_clock opts;
                   expiration = (if bi_strategy i = exec_market then (now + 300) mod 2 ^ 64
                                 else case bi_expires_at_unix_seconds i of Some e \<Rightarrow> e | None \<Rightarrow> 4102444800)
               in if bi_strategy i \<noteq> exec_market \<and> expiration \<le> now
                  then Inl (mk_error invalid_argument ''limit order expiration must be in the future'' ''expiration'')
                  else
                    bind_res (uint256_parse (to_string expiration)) (\<lambda>expiration_u.
                      Inr \<lparr>uo_salt = salt, uo_maker = maker, uo_signer = signer, uo_taker = bi_taker i,
                           uo_token_id = bi_token_id i, uo_maker_amount = bi_maker_amount i,
                           uo_taker_amount = bi_taker_amount i, uo_expiration = expiration_u,
                           uo_nonce = bi_nonce i, uo_fee_rate_bps = bi_fee_rate_bps i, uo_side = bi_side i,
                           uo_signature_type = bi_signature_type i\<rparr>)))"

definition builder_digest ::
    "crypto \<Rightarrow> builder_options \<Rightarrow> 'a unsigned_order_scheme \<Rightarrow> market_contract_kind \<Rightarrow> bytes32 result" where
  "builder_digest cy opts o' kind =
     (let addresses = builder_addresses opts in
      if evm_empty (pa_ctf_exchange addresses)
      then Inl (mk_error invalid_argument ''unsupported Predict chain id'' ''chain_id'')
      else typed_data_digest cy o' (bo_chain_id opts) (exchange_address addresses kind))"

section \<open>Signatures\<close>

definition kernel_name :: string where "kernel_name = ''Kernel''"

definition kernel_version :: string where "kernel_version = ''0.3.1''"

definition kernel_message_type :: string where "kernel_message_type = ''Kernel(bytes32 hash)''"

definition domain_type :: string where
  "domain_type = ''EIP712Domain(string name,string version,uint256 chainId,address verifyingContract)''"

definition validate_evm_signature :: "string \<Rightarrow> string result" where
  "validate_evm_signature s =
     (if length s \<noteq> 132 \<or> s ! 0 \<noteq> CHR ''0'' \<or> s ! 1 \<noteq> CHR ''x'' \<or> \<not> list_all is_xdigit (drop 2 s)
      then Inl (mk_error invalid_field ''signature must be a 65-byte 0x-prefixed hex value'' ''signature'')
      else Inr (take 2 s @ map to_lower (drop 2 s)))"

definition predict_account_signing_digest ::
    "crypto \<Rightarrow> bytes32 \<Rightarrow> chain_id \<Rightarrow> evm_address \<Rightarrow> bytes32 result" where
  "predict_account_signing_digest cy message_hash chain predict_account =
     (case (cy_keccak cy (string_bytes domain_type), cy_keccak cy (string_bytes kernel_name),
            cy_keccak cy (string_bytes kernel_version), cy_keccak cy (string_bytes kernel_message_type)) of
        (Inr domain_type_hash, Inr name_hash, Inr version_hash, Inr message_type_hash) \<Rightarrow>
          bind_res (hash_words cy [domain_type_hash, name_hash, version_hash,
                                   word_u64 (chain_number chain), word_address predict_account]) (\<lambda>domain.
          bind_res (hash_words cy [message_type_hash, message_hash]) (\<lambda>wrapped_message.
            cy_keccak cy ([0x19, 0x01] @ domain @ wrapped_message)))
      | _ \<Rightarrow> Inl (mk_error protocol_error ''cannot hash Predict Account signature domain'' ''''))"

definition predict_account_signature_envelope :: "evm_address \<Rightarrow> string \<Rightarrow> string result" where
  "predict_account_signature_envelope validator owner_signature =
     bind_res (validate_evm_signature owner_signature) (\<lambda>validated.
       Inr (''0x01'' @ hex_text (evm_bytes validator) @ drop 2 validated))"

definition with_signature :: "unsigned_order \<Rightarrow> string \<Rightarrow> signed_order" where
  "with_signature o' s = unsigned_order.extend o' \<lparr>so_signature = s\<rparr>"

definition sign_eoa_order ::
    "crypto \<Rightarrow> builder_options \<Rightarrow> unsigned_order \<Rightarrow> market_contract_kind \<Rightarrow> (bytes32 \<Rightarrow> string result) option
       \<Rightarrow> signed_order result" where
  "sign_eoa_order cy opts o' kind signer =
     (case signer of
        None \<Rightarrow> Inl (mk_error invalid_argument ''order signer is missing'' ''signer'')
      | Some sign \<Rightarrow>
          bind_res (builder_digest cy opts o' kind) (\<lambda>digest.
          bind_res (sign digest) (\<lambda>signature.
          bind_res (validate_evm_signature signature) (\<lambda>validated.
            Inr (with_signature o' validated)))))"

definition sign_predict_account_order ::
    "crypto \<Rightarrow> builder_options \<Rightarrow> unsigned_order \<Rightarrow> market_contract_kind \<Rightarrow> evm_address \<Rightarrow> evm_address
       \<Rightarrow> (bytes32 \<Rightarrow> string result) option \<Rightarrow> signed_order result" where
  "sign_predict_account_order cy opts o' kind predict_account validator signer =
     (case signer of
        None \<Rightarrow> Inl (mk_error invalid_argument ''Predict Account signer is missing'' ''signer'')
      | Some sign_personal_digest \<Rightarrow>
          if uo_maker o' \<noteq> predict_account \<or> uo_signer o' \<noteq> predict_account
          then Inl (mk_error invalid_argument ''Predict Account must be both order maker and signer''
                      ''predict_account'')
          else
            bind_res (builder_digest cy opts o' kind) (\<lambda>order_digest.
            bind_res (predict_account_signing_digest cy order_digest (bo_chain_id opts) predict_account)
              (\<lambda>kernel_digest.
            bind_res (sign_personal_digest kernel_digest) (\<lambda>owner_signature.
            bind_res (predict_account_signature_envelope validator owner_signature) (\<lambda>envelope.
              Inr (with_signature o' envelope))))))"

section \<open>Built orders\<close>

lemma build_cases:
  assumes "build opts i = Inr o'"
  obtains e salt where
    "uo_signer o' = (case bo_predict_account opts of Some a \<Rightarrow> a | None \<Rightarrow> bi_signer i)"
    "uo_maker o' = uo_signer o'" "bo_predict_account opts = None \<Longrightarrow> \<not> evm_empty (bi_signer i)"
    "bi_side i = side_buy \<or> bi_side i = side_sell" "uo_side o' = bi_side i"
    "\<not> uint256_is_zero (bi_token_id i)" "\<not> uint256_is_zero (bi_maker_amount i)"
    "\<not> uint256_is_zero (bi_taker_amount i)" "uo_token_id o' = bi_token_id i"
    "uo_maker_amount o' = bi_maker_amount i" "uo_taker_amount o' = bi_taker_amount i"
    "uo_signature_type o' = bi_signature_type i" "uo_salt o' = salt" "bi_salt i = Some salt \<or> bo_salt opts = Inr salt"
    "uint256_parse (to_string e) = Inr (uo_expiration o')"
    "e = (if bi_strategy i = exec_market then (bo_clock opts + 300) mod 2 ^ 64
          else case bi_expires_at_unix_seconds i of Some e \<Rightarrow> e | None \<Rightarrow> 4102444800)"
    "bi_strategy i \<noteq> exec_market \<Longrightarrow> bo_clock opts < e"
proof -
  define signer where "signer = (case bo_predict_account opts of Some a \<Rightarrow> a | None \<Rightarrow> bi_signer i)"
  define maker where "maker = (case bo_predict_account opts of Some a \<Rightarrow> a
                     | None \<Rightarrow> (case bi_maker i of Some m \<Rightarrow> m | None \<Rightarrow> bi_signer i))"
  define saltr where "saltr = (case bi_salt i of Some s \<Rightarrow> Inr s | None \<Rightarrow> bo_salt opts)"
  define e where "e = (if bi_strategy i = exec_market then (bo_clock opts + 300) mod 2 ^ 64
          else case bi_expires_at_unix_seconds i of Some e \<Rightarrow> e | None \<Rightarrow> 4102444800)"
  note run = assms [unfolded build_def Let_def, folded signer_def maker_def saltr_def e_def]
  have guards: "bo_predict_account opts = None \<Longrightarrow> \<not> evm_empty (bi_signer i)"
    "bo_predict_account opts = None \<Longrightarrow> maker = signer" "bi_side i = side_buy \<or> bi_side i = side_sell"
    "\<not> uint256_is_zero (bi_token_id i)" "\<not> uint256_is_zero (bi_maker_amount i)" "\<not> uint256_is_zero (bi_taker_amount i)"
    "bi_strategy i \<noteq> exec_market \<Longrightarrow> bo_clock opts < e"
    using run by (simp_all add: res_simps split: if_splits)
  have maker: "maker = signer"
    using guards(2) by (cases "bo_predict_account opts") (simp_all add: maker_def signer_def)
  obtain salt eu where salt: "saltr = Inr salt" and eu: "uint256_parse (to_string e) = Inr eu" and
    o': "uo_salt o' = salt" "uo_maker o' = maker" "uo_signer o' = signer" "uo_token_id o' = bi_token_id i"
      "uo_maker_amount o' = bi_maker_amount i" "uo_taker_amount o' = bi_taker_amount i" "uo_expiration o' = eu"
      "uo_side o' = bi_side i" "uo_signature_type o' = bi_signature_type i"
    using run by (auto simp: res_simps split: if_splits)
  have "bi_salt i = Some salt \<or> bo_salt opts = Inr salt"
    using salt by (cases "bi_salt i") (simp_all add: saltr_def)
  then show ?thesis
    using that [of salt e] guards maker eu o' by (simp add: signer_def e_def)
qed

text \<open>
  Every order the builder returns is well formed: one account is both maker and signer (the
  Predict Account when one is configured), the side is known, token and amounts are positive and
  are those of the input, and the order expires in the future: a limit order by the check, a market
  order 300 seconds from now unless the 64-bit clock is about to wrap.
\<close>

theorem build_order_sound:
  assumes "build opts i = Inr o'"
  shows "uo_maker o' = uo_signer o' \<and>
    uo_signer o' = (case bo_predict_account opts of Some a \<Rightarrow> a | None \<Rightarrow> bi_signer i) \<and>
    uo_side o' \<noteq> side_unknown \<and> \<not> uint256_is_zero (uo_token_id o') \<and>
    \<not> uint256_is_zero (uo_maker_amount o') \<and> \<not> uint256_is_zero (uo_taker_amount o') \<and>
    uo_maker_amount o' = bi_maker_amount i \<and> uo_taker_amount o' = bi_taker_amount i \<and>
    uint256_wf (uo_expiration o') \<and>
    (bi_strategy i = exec_limit \<longrightarrow> bo_clock opts < uint256_value (uo_expiration o')) \<and>
    (bi_strategy i = exec_market \<and> bo_clock opts + 300 < 2 ^ 64 \<longrightarrow>
       uint256_value (uo_expiration o') = bo_clock opts + 300)"
proof -
  obtain e salt where b: "uo_signer o' = (case bo_predict_account opts of Some a \<Rightarrow> a | None \<Rightarrow> bi_signer i)"
    "uo_maker o' = uo_signer o'" "bi_side i = side_buy \<or> bi_side i = side_sell" "uo_side o' = bi_side i"
    "\<not> uint256_is_zero (bi_token_id i)" "\<not> uint256_is_zero (bi_maker_amount i)"
    "\<not> uint256_is_zero (bi_taker_amount i)" "uo_token_id o' = bi_token_id i"
    "uo_maker_amount o' = bi_maker_amount i" "uo_taker_amount o' = bi_taker_amount i"
    "uint256_parse (to_string e) = Inr (uo_expiration o')"
    "e = (if bi_strategy i = exec_market then (bo_clock opts + 300) mod 2 ^ 64
          else case bi_expires_at_unix_seconds i of Some e \<Rightarrow> e | None \<Rightarrow> 4102444800)"
    "bi_strategy i \<noteq> exec_market \<Longrightarrow> bo_clock opts < e"
    by (rule build_cases [OF assms]) blast
  have "uint256_value (uo_expiration o') = e" "uint256_wf (uo_expiration o')"
    using b(11) [unfolded uint256_parse_spec] uint256_parse_wf [OF b(11)] by (auto simp: uint256_value_def)
  then show ?thesis
    using b by (cases "bi_strategy i") auto
qed

section \<open>Signed orders\<close>

lemma validate_signature_iff:
  "validate_evm_signature s = Inr v \<longleftrightarrow>
     (\<exists>bs. length bs = 65 \<and> decode_hex s = Inr bs \<and> v = encode_hex bs)"
proof
  assume val: "validate_evm_signature s = Inr v"
  then have s: "length s = 132" "s ! 0 = CHR ''0''" "s ! 1 = CHR ''x''" "list_all is_xdigit (drop 2 s)"
    and v: "v = take 2 s @ map to_lower (drop 2 s)"
    by (auto simp: validate_evm_signature_def split: if_splits)
  have two: "take 2 s = ''0x''"
    using s(1-3) by (cases s; cases "tl s") auto
  obtain bs where bs: "hex_pairs (drop 2 s) = Some bs"
    using hex_pairs_defined [of "drop 2 s"] s(1,4) by auto
  then have "length bs = 65"
    using length_hex_pairs [OF bs] s(1) by simp
  then show "\<exists>bs. length bs = 65 \<and> decode_hex s = Inr bs \<and> v = encode_hex bs"
    using bs two v by (auto simp: decode_hex_iff starts_with_def encode_hex_eq hex_text_pairs numeral_2_eq_2)
next
  assume "\<exists>bs. length bs = 65 \<and> decode_hex s = Inr bs \<and> v = encode_hex bs"
  then obtain bs where bs: "length bs = 65" "hex_pairs (drop 2 s) = Some bs" "take 2 s = ''0x''" "v = encode_hex bs"
    by (auto simp: decode_hex_iff starts_with_def numeral_2_eq_2)
  have len: "length s = 132"
    using length_hex_pairs [OF bs(2)] bs(1) by simp
  moreover have "s ! 0 = CHR ''0''" "s ! 1 = CHR ''x''"
    using bs(3) len by (cases s; cases "tl s"; simp)+
  moreover have "list_all is_xdigit (drop 2 s)"
    using hex_pairs_defined [of "drop 2 s"] bs(2) by blast
  ultimately show "validate_evm_signature s = Inr v"
    using bs by (simp add: validate_evm_signature_def encode_hex_eq hex_text_pairs)
qed

lemma envelope_iff:
  "predict_account_signature_envelope a s = Inr e \<longleftrightarrow>
     (\<exists>bs. length bs = 65 \<and> decode_hex s = Inr bs \<and> e = encode_hex (1 # evm_bytes a @ bs))"
proof -
  have app: "hex_text (x @ y) = hex_text x @ hex_text y" for x y
    by (induction x) auto
  have one: "hex_high 1 = CHR ''0''" "hex_low 1 = CHR ''1''"
    by code_simp+
  show ?thesis
    by (auto simp: predict_account_signature_envelope_def res_simps validate_signature_iff encode_hex_eq app one)
qed

lemma with_signature_simps [simp]:
  "so_signature (with_signature o' s) = s" "uo_side (with_signature o' s) = uo_side o'"
  "uo_signature_type (with_signature o' s) = uo_signature_type o'"
  "uo_maker_amount (with_signature o' s) = uo_maker_amount o'"
  "uo_taker_amount (with_signature o' s) = uo_taker_amount o'"
  "unsigned_order.truncate (with_signature o' s) = o'"
  by (simp_all add: with_signature_def unsigned_order.defs)

definition sign_order ::
    "crypto \<Rightarrow> builder_options \<Rightarrow> unsigned_order \<Rightarrow> market_contract_kind \<Rightarrow> (evm_address \<times> evm_address) option
       \<Rightarrow> (bytes32 \<Rightarrow> string result) option \<Rightarrow> signed_order result" where
  "sign_order cy opts o' kind account signer =
     (case account of
        None \<Rightarrow> sign_eoa_order cy opts o' kind signer
      | Some (a, validator) \<Rightarrow> sign_predict_account_order cy opts o' kind a validator signer)"

lemma sign_order_spec:
  assumes "sign_order cy opts o' kind account signer = Inr so"
  shows "\<exists>bs. so = with_signature o' (encode_hex bs) \<and>
    (case account of None \<Rightarrow> length bs = 65
     | Some (a, validator) \<Rightarrow> uo_maker o' = a \<and> uo_signer o' = a \<and>
         (\<exists>sg. length sg = 65 \<and> bs = 1 # evm_bytes validator @ sg))"
proof (cases account)
  case None
  then show ?thesis
    using assms by (auto simp: sign_order_def sign_eoa_order_def res_simps validate_signature_iff split: option.splits)
next
  case (Some av)
  then show ?thesis
    using assms
    by (cases av) (auto simp: sign_order_def sign_predict_account_order_def res_simps envelope_iff
        split: option.splits if_splits)
qed

lemma hash32_to_hex: "length h = 32 \<Longrightarrow> hash32 (to_hex h)"
  by (simp add: hash32_def to_hex_def encode_hex_eq starts_with_def)

text \<open>
  C33. The order pipeline composes: take the amounts of a limit order, build an order from them,
  sign it as an EOA or through a Predict Account with a 20-byte validator, and request it with its
  typed digest as the hash. The trading client accepts the request, and the share amount the
  tracker will journal is exactly the quantity of the amounts, in shares.
\<close>

theorem order_pipeline_accepted:
  assumes "limit_amounts li = Inr amounts" and "uint256_wf (la_price_per_share_wei li)"
    and "uint256_wf (la_quantity_wei li)"
    and "build opts i = Inr o'" and "bi_side i = la_side li" and "bi_signature_type i \<noteq> sig_unknown"
    and "bi_maker_amount i = oa_maker_amount amounts" and "bi_taker_amount i = oa_taker_amount amounts"
    and "sign_order cy opts o' kind account signer = Inr so"
    and "\<forall>a v. account = Some (a, v) \<longrightarrow> evm_wf v"
    and "builder_digest cy opts o' kind = Inr digest" and "length digest = 32"
    and "cr_order r = so" and "cr_order_hash r = to_hex digest"
    and "cr_price_per_share_wei r = oa_price_per_share_wei amounts" and "cr_strategy r = exec_limit"
  shows "validate_create_order r = Inr (to_hex digest) \<and>
    (\<exists>d. tracked_share_amount r = Inr d \<and>
       exact_value d = of_nat (uint256_value (oa_amount amounts)) / 10 ^ 18)"
proof -
  obtain e salt where b: "bi_side i = side_buy \<or> bi_side i = side_sell" "uo_side o' = bi_side i"
    "\<not> uint256_is_zero (bi_maker_amount i)" "\<not> uint256_is_zero (bi_taker_amount i)"
    "uo_maker_amount o' = bi_maker_amount i" "uo_taker_amount o' = bi_taker_amount i"
    "uo_signature_type o' = bi_signature_type i"
    by (rule build_cases [OF assms(4)]) blast
  have side: "la_side li \<noteq> side_unknown"
    using b(1) assms(5) by auto
  have amounts: "amounts_wf amounts" "shares_of (la_side li) amounts = u_int (oa_amount amounts)"
    "0 < u_int (oa_price_per_share_wei amounts)" "minimum_quantity \<le> u_int (oa_amount amounts)"
    using limit_amounts_spec [OF assms(2,3) side] assms(1) by metis+
  obtain bs where so: "so = with_signature o' (encode_hex bs)" and len: "length bs \<le> 86"
    using sign_order_spec [OF assms(9)] assms(10) by (cases account) (auto simp: evm_wf_def)
  have price: "\<not> uint256_is_zero (oa_price_per_share_wei amounts)"
    using amounts(1,3) by (simp add: amounts_wf_def uint256_is_zero_iff)
  have sig: "uo_signature_type so = sig_eoa \<or> uo_signature_type so = sig_poly_proxy \<or>
    uo_signature_type so = sig_poly_gnosis_safe"
    using assms(6) b(7) by (cases "bi_signature_type i") (simp_all add: so)
  have valid: "validate_create_order r = Inr (to_hex digest)"
    using b assms(5-8) hash32_to_hex [OF assms(12)] price sig len
    by (auto simp: validate_create_order_def assms(13-16) so encode_hex_eq)
  have units: "share_units r = (if la_side li = side_buy then oa_taker_amount amounts else oa_maker_amount amounts)"
    using b assms(5,7,8) by (auto simp: share_units_def assms(13) so)
  have val: "uint256_value (share_units r) = uint256_value (oa_amount amounts)"
    using amounts(2) units by (auto simp: shares_of_def)
  have "uint256_wf (share_units r)" "uint256_value (share_units r) \<noteq> 0"
    using amounts(1,4) units val by (auto simp: amounts_wf_def minimum_quantity_def)
  moreover have "uo_side (cr_order r) = side_buy \<or> uo_side (cr_order r) = side_sell"
    using b by (simp add: assms(13) so)
  ultimately show ?thesis
    using tracked_share_amount_spec [of r] valid val by auto
qed

definition toy_crypto :: crypto where
  "toy_crypto = \<lparr>cy_keccak = toy_keccak, cy_from_dec = (\<lambda>s. Some (be_bytes 32 (digits_value s))),
     cy_domain = (\<lambda>_ _ _ _. replicate 32 0), cy_digest = (\<lambda>d s. s)\<rparr>"

definition sample_limit :: limit_amounts_input where
  "sample_limit = \<lparr>la_side = side_buy, la_price_per_share_wei = \<lparr>u256_text = ''456789000000000000''\<rparr>,
      la_quantity_wei = \<lparr>u256_text = ''1234567000000000000''\<rparr>\<rparr>"

definition sample_build :: "order_amounts \<Rightarrow> build_order_input" where
  "sample_build a = \<lparr>bi_strategy = exec_limit, bi_side = side_buy, bi_token_id = \<lparr>u256_text = ''5''\<rparr>,
     bi_maker_amount = oa_maker_amount a, bi_taker_amount = oa_taker_amount a,
     bi_fee_rate_bps = \<lparr>u256_text = ''0''\<rparr>, bi_signer = \<lparr>evm_bytes = replicate 20 1\<rparr>, bi_maker = None,
     bi_taker = None, bi_nonce = \<lparr>u256_text = ''0''\<rparr>, bi_salt = Some \<lparr>u256_text = ''9''\<rparr>,
     bi_signature_type = sig_eoa, bi_expires_at_unix_seconds = None\<rparr>"

definition sample_options :: builder_options where
  "sample_options = \<lparr>bo_chain_id = bnb_testnet, bo_salt = Inr \<lparr>u256_text = ''9''\<rparr>, bo_clock = 1700000000,
     bo_predict_account = None\<rparr>"

lemma sample_limit_facts:
  "uint256_wf (la_price_per_share_wei sample_limit)" "uint256_wf (la_quantity_wei sample_limit)"
  "int (truncated (uint256_value (la_price_per_share_wei sample_limit)) 3) = 456000000000000000"
  "int (truncated (uint256_value (la_quantity_wei sample_limit)) 5) = 1234500000000000000"
  by (simp_all add: sample_limit_def uint256_wf_text is_digit_def truncated_def uint256_value_def digits_value_def
      digit_value_def Let_def to_string.simps)

lemma sample_amounts:
  "\<exists>a. limit_amounts sample_limit = Inr a \<and> \<not> uint256_is_zero (oa_maker_amount a) \<and> \<not> uint256_is_zero (oa_taker_amount a)"
proof -
  have side: "la_side sample_limit \<noteq> side_unknown" "la_side sample_limit = side_buy"
    by (simp_all add: sample_limit_def)
  note spec = limit_amounts_spec [OF sample_limit_facts(1,2) side(1), unfolded sample_limit_facts(3,4) side(2)]
  obtain a where a: "limit_amounts sample_limit = Inr a"
    using spec by (auto simp: minimum_quantity_def precision_def)
  have wf: "amounts_wf a" and taker: "u_int (oa_taker_amount a) = 1234500000000000000"
    and maker: "562932000000000000000000000000000000 < (u_int (oa_maker_amount a) + 1) * precision"
    using spec a by (auto simp: shares_of_def collateral_of_def)
  have "uint256_value (oa_maker_amount a) \<noteq> 0"
    using maker by (auto simp: precision_def)
  then show ?thesis
    using a wf taker by (auto simp: amounts_wf_def uint256_is_zero_iff)
qed

lemma sample_build_ok:
  assumes "\<not> uint256_is_zero (oa_maker_amount a)" and "\<not> uint256_is_zero (oa_taker_amount a)"
  shows "\<exists>o'. build sample_options (sample_build a) = Inr o'"
proof -
  have "\<not> uint256_is_zero \<lparr>u256_text = ''5''\<rparr>" "\<not> evm_empty \<lparr>evm_bytes = replicate 20 1\<rparr>"
    by code_simp+
  then show ?thesis
    using assms by (simp add: build_def sample_options_def sample_build_def Let_def uint256_parse_to_string)
qed

lemma toy_digest:
  assumes "uint256_wf (uo_expiration o')"
  shows "\<exists>digest. builder_digest toy_crypto sample_options o' kind = Inr digest \<and> length digest = 32"
proof -
  have "case protocol_addresses bnb_testnet of Inl _ \<Rightarrow> False | Inr a \<Rightarrow> \<not> evm_empty (pa_ctf_exchange a)"
    by code_simp
  then show ?thesis
    by (auto simp: builder_digest_def Let_def builder_addresses_def sample_options_def typed_data_digest_def
        domain_separator_def order_struct_hash_def order_words_def eip_word_def hash_words_def toy_crypto_def
        toy_keccak_def split: sum.splits)
qed

theorem order_pipeline_accepted_witness:
  "\<exists>a o' so digest r d. limit_amounts sample_limit = Inr a \<and> build sample_options (sample_build a) = Inr o' \<and>
     sign_order toy_crypto sample_options o' \<lparr>mk_is_neg_risk = False, mk_is_yield_bearing = False\<rparr> None
       (Some toy_signer) = Inr so \<and> cr_order r = so \<and>
     validate_create_order r = Inr (to_hex digest) \<and> tracked_share_amount r = Inr d"
proof -
  let ?kind = "\<lparr>mk_is_neg_risk = False, mk_is_yield_bearing = False\<rparr>"
  obtain a where a: "limit_amounts sample_limit = Inr a" "\<not> uint256_is_zero (oa_maker_amount a)"
    "\<not> uint256_is_zero (oa_taker_amount a)"
    using sample_amounts by blast
  then obtain o' where o': "build sample_options (sample_build a) = Inr o'"
    using sample_build_ok by blast
  obtain e salt where e: "uint256_parse (to_string e) = Inr (uo_expiration o')"
    by (rule build_cases [OF o']) blast
  obtain digest where digest: "builder_digest toy_crypto sample_options o' ?kind = Inr digest" "length digest = 32"
    using toy_digest [OF uint256_parse_wf [OF e]] by blast
  have "validate_evm_signature (encode_hex (replicate 64 1 @ [28])) = Inr (encode_hex (replicate 64 1 @ [28]))"
    by (simp add: validate_signature_iff)
  then obtain so where so: "sign_order toy_crypto sample_options o' ?kind None (Some toy_signer) = Inr so"
    using digest(1) by (auto simp: sign_order_def sign_eoa_order_def toy_signer_def)
  define r where "r = \<lparr>cr_order = so, cr_order_hash = to_hex digest,
    cr_price_per_share_wei = oa_price_per_share_wei a, cr_strategy = exec_limit,
     cr_slippage_bps = None, cr_is_fill_or_kill = None, cr_is_post_only = None,
     cr_reserved_balance_policy = None, cr_is_min_amount_out = None, cr_self_trade_prevention = None\<rparr>"
  have "validate_create_order r = Inr (to_hex digest) \<and> (\<exists>d. tracked_share_amount r = Inr d \<and>
       exact_value d = of_nat (uint256_value (oa_amount a)) / 10 ^ 18)"
    by (rule order_pipeline_accepted [OF a(1) sample_limit_facts(1,2) o' _ _ _ _ so _ digest])
      (simp_all add: sample_build_def sample_limit_def r_def)
  moreover have "cr_order r = so"
    by (simp add: r_def)
  ultimately show ?thesis
    using a(1) o' so by blast
qed

theorem build_order_sound_witness:
  "\<exists>a o'. build sample_options (sample_build a) = Inr o' \<and> 1700000000 < uint256_value (uo_expiration o')"
proof -
  obtain a o' where o': "build sample_options (sample_build a) = Inr o'"
    using sample_amounts sample_build_ok by metis
  then show ?thesis
    using build_order_sound [OF o'] by (auto simp: sample_build_def sample_options_def)
qed

end
