(* ===== verification/Liquidity.thy ===== *)
theory Liquidity
  imports Decimal Order_Amounts
begin

text \<open>
  Order books (\<^verbatim>\<open>types/orderbook.hpp\<close>, \<^verbatim>\<open>src/orderbook.cpp\<close>) and the exact execution
  estimates on them (\<^verbatim>\<open>src/liquidity.cpp\<close>): spending a fixed collateral against the asks, selling
  a fixed number of shares into the bids, and the immediate round trip. \<^verbatim>\<open>cpp_int\<close> is \<open>int\<close>; the
  helpers \<open>integer\<close> and \<open>uint256\<close> of the file are those of the order amounts. All divisions have
  non-negative operands, so \<open>div\<close> is the truncating division of the source. A \<^verbatim>\<open>Price\<close> has a
  positive tick scale by construction.
\<close>

section \<open>Order books\<close>

datatype book_side = side_bid | side_ask | book_side_unknown

datatype order_kind = kind_limit | kind_market | kind_unknown

datatype contract_outcome = contract_yes | contract_no | contract_outcome_unknown

record price_level =
  pl_price :: price
  pl_quantity :: fixed_decimal

record pending_settlement_levels =
  ps_yes_bids :: "price_level list"
  ps_yes_asks :: "price_level list"

record last_order_settled =
  lo_id :: string
  lo_kind :: "order_kind enum_value"
  lo_market_id :: nat
  lo_outcome :: "contract_outcome enum_value"
  lo_price :: price
  lo_side :: "book_side enum_value"

record orderbook =
  ob_market_id :: nat
  ob_update_timestamp_ms :: int
  ob_decimal_precision :: nat
  ob_yes_bids :: "price_level list"
  ob_yes_asks :: "price_level list"
  ob_order_count :: "nat option"
  ob_last_order_settled :: "last_order_settled option"
  ob_settlements_pending :: "fixed_decimal option"
  ob_settlement_levels_pending :: "pending_settlement_levels option"

record no_orderbook_view =
  no_market_id :: nat
  no_update_timestamp_ms :: int
  no_bids :: "price_level list"
  no_asks :: "price_level list"

definition derive_no_book :: "orderbook \<Rightarrow> no_orderbook_view" where
  "derive_no_book yes_book =
     \<lparr>no_market_id = ob_market_id yes_book,
      no_update_timestamp_ms = ob_update_timestamp_ms yes_book,
      no_bids = map (\<lambda>ask. \<lparr>pl_price = complement (pl_price ask), pl_quantity = pl_quantity ask\<rparr>) (ob_yes_asks yes_book),
      no_asks = map (\<lambda>bid. \<lparr>pl_price = complement (pl_price bid), pl_quantity = pl_quantity bid\<rparr>) (ob_yes_bids yes_book)\<rparr>"

section \<open>Quotes\<close>

record market_buy_quote =
  mb_requested_value_wei :: uint256
  mb_spent_value_wei :: uint256
  mb_unspent_value_wei :: uint256
  mb_shares_wei :: uint256
  mb_vwap_price_wei :: uint256
  mb_worst_price_wei :: uint256
  mb_levels_consumed :: nat
  mb_complete :: bool

record market_sell_quote =
  ms_requested_shares_wei :: uint256
  ms_sold_shares_wei :: uint256
  ms_unsold_shares_wei :: uint256
  ms_returned_value_wei :: uint256
  ms_vwap_price_wei :: uint256
  ms_worst_price_wei :: uint256
  ms_levels_consumed :: nat
  ms_complete :: bool

record immediate_round_trip_quote =
  rt_buy :: market_buy_quote
  rt_sell :: market_sell_quote
  rt_recovered_value_wei :: uint256
  rt_book_loss_value_wei :: uint256
  rt_complete :: bool

definition protocol_scale :: int where "protocol_scale = 1000000000 * 1000000000"

definition price_wei :: "price \<Rightarrow> int" where
  "price_wei p = (int (pr_ticks p) * protocol_scale) div int (pr_tick_scale p)"

definition quantity_wei :: "fixed_decimal \<Rightarrow> int" where
  "quantity_wei q = int (fd_units q) * 10 ^ nat ((int max_scale - int (fd_scale q)) mod 256)"

text \<open>The local variables of the two walks: \<open>lw_shares\<close> is \<^verbatim>\<open>shares\<close> or \<^verbatim>\<open>sold\<close>, \<open>lw_value\<close> is
  \<^verbatim>\<open>spent\<close> or \<^verbatim>\<open>returned\<close>.\<close>

record ladder_walk =
  lw_value :: int
  lw_shares :: int
  lw_weighted_price :: int
  lw_worst_price :: int
  lw_previous_price :: int
  lw_consumed_levels :: nat

definition consume :: "int \<Rightarrow> int \<Rightarrow> int \<Rightarrow> ladder_walk \<Rightarrow> ladder_walk" where
  "consume price quantity cost w =
     w\<lparr>lw_value := lw_value w + cost, lw_shares := lw_shares w + quantity,
       lw_weighted_price := lw_weighted_price w + price * quantity, lw_worst_price := price,
       lw_consumed_levels := lw_consumed_levels w + 1\<rparr>"

fun buy_levels :: "int \<Rightarrow> price_level list \<Rightarrow> ladder_walk \<Rightarrow> ladder_walk result" where
  "buy_levels requested [] w = Inr w"
| "buy_levels requested (level # asks) w =
     (let price = price_wei (pl_price level); quantity = quantity_wei (pl_quantity level) in
      if price \<le> 0 \<or> price > protocol_scale \<or> quantity \<le> 0
      then Inl (mk_error invalid_orderbook ''ask level must have price in (0,1] and positive quantity'' '''')
      else if lw_previous_price w > price
      then Inl (mk_error invalid_orderbook ''ask levels must be sorted best-to-worst'' '''')
      else
        let w0 = w\<lparr>lw_previous_price := price\<rparr>; remaining = requested - lw_value w in
        if remaining \<le> 1 then Inr w0
        else
          let level_cost = price * quantity div protocol_scale;
              partial = level_cost > remaining;
              consumed_quantity = (if partial then remaining * protocol_scale div price else quantity)
          in if partial \<and> consumed_quantity \<le> 0 then Inr w0
             else
               let consumed_cost = (if partial then price * consumed_quantity div protocol_scale else level_cost)
               in if consumed_quantity \<le> 0 \<or> consumed_cost \<le> 0 then buy_levels requested asks w0
                  else buy_levels requested asks (consume price consumed_quantity consumed_cost w0))"

fun sell_levels :: "int \<Rightarrow> price_level list \<Rightarrow> ladder_walk \<Rightarrow> ladder_walk result" where
  "sell_levels requested [] w = Inr w"
| "sell_levels requested (level # bids) w =
     (let price = price_wei (pl_price level); quantity = quantity_wei (pl_quantity level) in
      if price \<le> 0 \<or> price > protocol_scale \<or> quantity \<le> 0
      then Inl (mk_error invalid_orderbook ''bid level must have price in (0,1] and positive quantity'' '''')
      else if lw_previous_price w < price
      then Inl (mk_error invalid_orderbook ''bid levels must be sorted best-to-worst'' '''')
      else
        let w0 = w\<lparr>lw_previous_price := price\<rparr>; remaining = requested - lw_shares w in
        if remaining \<le> 1 then Inr w0
        else
          let consumed_quantity = (if quantity < remaining then quantity else remaining)
          in if consumed_quantity \<le> 0 then sell_levels requested bids w0
             else sell_levels requested bids
                    (consume price consumed_quantity (price * consumed_quantity div protocol_scale) w0))"

definition empty_walk :: "int \<Rightarrow> ladder_walk" where
  "empty_walk previous = \<lparr>lw_value = 0, lw_shares = 0, lw_weighted_price = 0, lw_worst_price = 0,
     lw_previous_price = previous, lw_consumed_levels = 0\<rparr>"

definition walk_vwap :: "ladder_walk \<Rightarrow> int" where
  "walk_vwap w = (if lw_shares w > 0 then lw_weighted_price w div lw_shares w else 0)"

definition quote_market_buy_value :: "uint256 \<Rightarrow> price_level list \<Rightarrow> market_buy_quote result" where
  "quote_market_buy_value value_wei asks =
     bind_res (integer value_wei) (\<lambda>requested.
     guard_res (requested \<le> 0) (mk_error invalid_quantity ''market buy value must be greater than zero'' ''value'') (
     bind_res (buy_levels requested asks (empty_walk 0)) (\<lambda>w.
       let unspent = requested - lw_value w in
       case (to_uint256 (lw_value w), to_uint256 unspent, to_uint256 (lw_shares w), to_uint256 (walk_vwap w),
             to_uint256 (lw_worst_price w)) of
         (Inr spent_u, Inr unspent_u, Inr shares_u, Inr vwap_u, Inr worst_u) \<Rightarrow>
           Inr \<lparr>mb_requested_value_wei = value_wei, mb_spent_value_wei = spent_u,
                mb_unspent_value_wei = unspent_u, mb_shares_wei = shares_u, mb_vwap_price_wei = vwap_u,
                mb_worst_price_wei = worst_u, mb_levels_consumed = lw_consumed_levels w,
                mb_complete = (unspent \<le> 1)\<rparr>
       | _ \<Rightarrow> Inl (mk_error numeric_overflow ''liquidity quote exceeds uint256'' ''''))))"

definition quote_market_sell_shares :: "uint256 \<Rightarrow> price_level list \<Rightarrow> market_sell_quote result" where
  "quote_market_sell_shares shares_wei bids =
     bind_res (integer shares_wei) (\<lambda>requested.
     guard_res (requested \<le> 0) (mk_error invalid_quantity ''market sell shares must be greater than zero'' ''shares'') (
     bind_res (sell_levels requested bids (empty_walk (protocol_scale + 1))) (\<lambda>w.
       let unsold = requested - lw_shares w in
       case (to_uint256 (lw_shares w), to_uint256 unsold, to_uint256 (lw_value w), to_uint256 (walk_vwap w),
             to_uint256 (lw_worst_price w)) of
         (Inr sold_u, Inr unsold_u, Inr returned_u, Inr vwap_u, Inr worst_u) \<Rightarrow>
           Inr \<lparr>ms_requested_shares_wei = shares_wei, ms_sold_shares_wei = sold_u,
                ms_unsold_shares_wei = unsold_u, ms_returned_value_wei = returned_u, ms_vwap_price_wei = vwap_u,
                ms_worst_price_wei = worst_u, ms_levels_consumed = lw_consumed_levels w,
                ms_complete = (unsold \<le> 1)\<rparr>
       | _ \<Rightarrow> Inl (mk_error numeric_overflow ''liquidity quote exceeds uint256'' ''''))))"

definition empty_sell_quote :: market_sell_quote where
  "empty_sell_quote = \<lparr>ms_requested_shares_wei = uint256_zero, ms_sold_shares_wei = uint256_zero,
     ms_unsold_shares_wei = uint256_zero, ms_returned_value_wei = uint256_zero, ms_vwap_price_wei = uint256_zero,
     ms_worst_price_wei = uint256_zero, ms_levels_consumed = 0, ms_complete = False\<rparr>"

definition quote_immediate_round_trip ::
  "uint256 \<Rightarrow> price_level list \<Rightarrow> price_level list \<Rightarrow> immediate_round_trip_quote result" where
  "quote_immediate_round_trip value_wei asks bids =
     bind_res (quote_market_buy_value value_wei asks) (\<lambda>buy.
     if uint256_is_zero (mb_shares_wei buy)
     then Inr \<lparr>rt_buy = buy, rt_sell = empty_sell_quote, rt_recovered_value_wei = uint256_zero,
               rt_book_loss_value_wei = uint256_zero, rt_complete = False\<rparr>
     else bind_res (quote_market_sell_shares (mb_shares_wei buy) bids) (\<lambda>sell.
       case (integer (mb_spent_value_wei buy), integer (ms_returned_value_wei sell)) of
         (Inr spent, Inr recovered) \<Rightarrow>
           let raw_loss = spent - recovered; loss = (if raw_loss > 0 then raw_loss else 0) in
           bind_res (to_uint256 loss) (\<lambda>loss_u.
             Inr \<lparr>rt_buy = buy, rt_sell = sell, rt_recovered_value_wei = ms_returned_value_wei sell,
                  rt_book_loss_value_wei = loss_u, rt_complete = (mb_complete buy \<and> ms_complete sell)\<rparr>)
       | _ \<Rightarrow> Inl (mk_error numeric_overflow ''round-trip value exceeds uint256'' '''')))"

section \<open>Ladders\<close>

definition rung :: "price_level \<Rightarrow> int \<times> int" where
  "rung l = (price_wei (pl_price l), quantity_wei (pl_quantity l))"

definition rung_ok :: "int \<times> int \<Rightarrow> bool" where
  "rung_ok l \<longleftrightarrow> 0 < fst l \<and> fst l \<le> protocol_scale \<and> 0 < snd l"

definition asks_valid :: "price_level list \<Rightarrow> bool" where
  "asks_valid asks \<longleftrightarrow> list_all rung_ok (map rung asks) \<and> sorted_wrt (\<le>) (map fst (map rung asks))"

definition bids_valid :: "price_level list \<Rightarrow> bool" where
  "bids_valid bids \<longleftrightarrow> list_all rung_ok (map rung bids) \<and> sorted_wrt (\<ge>) (map fst (map rung bids))"

text \<open>What buying out a ladder costs, every level rounded down as the code does.\<close>

definition ladder_cost :: "(int \<times> int) list \<Rightarrow> int" where
  "ladder_cost ls = sum_list (map (\<lambda>l. fst l * snd l div protocol_scale) ls)"

text \<open>
  The invariant both walks share: the collateral is the weighted price rounded down once per
  consumed level, and the average price lies between \<open>lo\<close> and \<open>hi\<close>.
\<close>

definition fill_inv :: "int \<Rightarrow> int \<Rightarrow> ladder_walk \<Rightarrow> bool" where
  "fill_inv lo hi w \<longleftrightarrow> 0 \<le> lw_value w \<and> 0 \<le> lw_shares w \<and>
     protocol_scale * lw_value w \<le> lw_weighted_price w \<and>
     lw_weighted_price w \<le> protocol_scale * lw_value w + int (lw_consumed_levels w) * (protocol_scale - 1) \<and>
     lo * lw_shares w \<le> lw_weighted_price w \<and> lw_weighted_price w \<le> hi * lw_shares w \<and>
     (lw_consumed_levels w = 0 \<longleftrightarrow> lw_shares w = 0)"

lemma protocol_scale_pos [simp]: "0 < protocol_scale"
  by (simp add: protocol_scale_def)

lemma protocol_scale_nonzero [simp]: "protocol_scale \<noteq> 0" "0 \<le> protocol_scale"
  by (simp_all add: protocol_scale_def)

lemma empty_walk_sel [simp]: "lw_value (empty_walk p) = 0" "lw_shares (empty_walk p) = 0"
  "lw_worst_price (empty_walk p) = 0" "lw_previous_price (empty_walk p) = p" "lw_consumed_levels (empty_walk p) = 0"
  by (simp_all add: empty_walk_def)

lemma scale_div_bounds: "protocol_scale * (x div protocol_scale) \<le> x"
  "x \<le> protocol_scale * (x div protocol_scale) + (protocol_scale - 1)"
  using pos_mod_bound [OF protocol_scale_pos, of x] pos_mod_sign [OF protocol_scale_pos, of x]
    mult_div_mod_eq [of protocol_scale x] by linarith+

lemma fill_inv_mono: "fill_inv lo hi w \<Longrightarrow> lo' \<le> lo \<Longrightarrow> hi \<le> hi' \<Longrightarrow> fill_inv lo' hi' w"
  unfolding fill_inv_def by (meson mult_right_mono order_trans)

lemma fill_inv_previous [simp]: "fill_inv lo hi (w\<lparr>lw_previous_price := p\<rparr>) = fill_inv lo hi w"
  by (simp add: fill_inv_def)

lemma fill_inv_empty [simp]: "fill_inv lo hi (empty_walk p)"
  by (simp add: fill_inv_def empty_walk_def)

lemma fill_inv_none: "fill_inv lo hi w \<Longrightarrow> lw_consumed_levels w = 0 \<Longrightarrow> fill_inv lo' hi' w"
  by (auto simp: fill_inv_def)

lemma fill_inv_consume:
  assumes "fill_inv lo hi w" and "lo \<le> p" and "p \<le> hi" and "0 < p" and "0 < q"
  shows "fill_inv lo hi (consume p q (p * q div protocol_scale) w)"
proof -
  have "0 \<le> p * q div protocol_scale"
    using assms by (simp add: pos_imp_zdiv_nonneg_iff)
  moreover have "lo * (lw_shares w + q) \<le> lw_weighted_price w + p * q"
    "lw_weighted_price w + p * q \<le> hi * (lw_shares w + q)"
    using assms unfolding distrib_left fill_inv_def by (intro add_mono mult_right_mono; simp)+
  moreover note scale_div_bounds [of "p * q"]
  ultimately show ?thesis
    using assms(1,5) unfolding fill_inv_def consume_def by (auto simp: distrib_left [of protocol_scale] distrib_right)
qed

lemma consume_sel [simp]:
  "lw_value (consume p q c w) = lw_value w + c" "lw_shares (consume p q c w) = lw_shares w + q"
  "lw_worst_price (consume p q c w) = p" "lw_previous_price (consume p q c w) = lw_previous_price w"
  "lw_consumed_levels (consume p q c w) = Suc (lw_consumed_levels w)"
  by (simp_all add: consume_def)

lemma ladder_cost_simps [simp]: "ladder_cost [] = 0"
  "ladder_cost (l # ls) = fst l * snd l div protocol_scale + ladder_cost ls"
  by (simp_all add: ladder_cost_def)

lemma ladder_cost_nonneg: "list_all rung_ok ls \<Longrightarrow> 0 \<le> ladder_cost ls"
  by (induction ls) (auto simp: rung_ok_def pos_imp_zdiv_nonneg_iff)

lemma liquidity_rungs_nonneg: "list_all rung_ok ls \<Longrightarrow> 0 \<le> liquidity ls"
  by (induction ls) (auto simp: rung_ok_def)

text \<open>A partly consumed level leaves at most one unit of the requested value.\<close>

lemma partial_level:
  assumes "0 < p" and "p \<le> protocol_scale" and "2 \<le> r" and "r < p * q div protocol_scale"
    and "c = r * protocol_scale div p"
  shows "0 < c" and "c \<le> q" and "p * c div protocol_scale \<le> r" and "r - 1 \<le> p * c div protocol_scale"
proof -
  have c: "p * c \<le> r * protocol_scale" "r * protocol_scale < p * c + p"
    using assms(1) mult_div_mod_eq [of p "r * protocol_scale"] pos_mod_bound [of p "r * protocol_scale"]
      pos_mod_sign [of p "r * protocol_scale"] unfolding assms(5) by linarith+
  show "p * c div protocol_scale \<le> r"
    using zdiv_mono1 [OF c(1) protocol_scale_pos] by simp
  have "(r - 1) * protocol_scale \<le> p * c"
    using c(2) assms(2) by (simp add: left_diff_distrib)
  from zdiv_mono1 [OF this protocol_scale_pos] show "r - 1 \<le> p * c div protocol_scale"
    by simp
  have "r * protocol_scale < p * q"
    using assms(4) scale_div_bounds(1) [of "p * q"]
    by (smt (verit) mult.commute mult_strict_right_mono protocol_scale_pos)
  then have "p * c < p * q"
    using c(1) by linarith
  then show "c \<le> q"
    using assms(1) by (simp add: mult_less_cancel_left_pos)
  have "2 * protocol_scale \<le> r * protocol_scale"
    using assms(3) by simp
  then have "p < r * protocol_scale"
    using assms(2) protocol_scale_pos by linarith
  then have "0 < p * c"
    using c(2) by linarith
  then show "0 < c"
    using assms(1) by (simp add: zero_less_mult_iff)
qed

section \<open>The walks\<close>

lemma buy_level_step:
  assumes "rung_ok (rung level)" and "lw_previous_price w \<le> fst (rung level)" and "lo \<le> fst (rung level)"
    and "lw_worst_price w \<le> fst (rung level)" and "0 \<le> lw_worst_price w"
    and "fill_inv lo (lw_worst_price w) w" and "1 < requested - lw_value w"
  obtains w1 where "buy_levels requested (level # asks) w = buy_levels requested asks w1"
    "fill_inv lo (lw_worst_price w1) w1" "lw_previous_price w1 = fst (rung level)" "0 \<le> lw_worst_price w1"
    "lw_worst_price w1 \<le> fst (rung level)" "lw_value w \<le> lw_value w1" "lw_value w1 \<le> requested"
    "lw_value w1 \<le> lw_value w + ladder_cost [rung level]"
    "requested - 1 \<le> lw_value w1 \<or> lw_value w1 = lw_value w + ladder_cost [rung level]"
    "lw_shares w1 \<le> lw_shares w + snd (rung level)"
proof -
  define p where "p = price_wei (pl_price level)"
  define q where "q = quantity_wei (pl_quantity level)"
  define w0 where "w0 = w\<lparr>lw_previous_price := p\<rparr>"
  define r where "r = requested - lw_value w"
  define cost where "cost = p * q div protocol_scale"
  define cq where "cq = (if cost > r then r * protocol_scale div p else q)"
  define cc where "cc = p * cq div protocol_scale"
  define w1 where "w1 = (if cc \<le> 0 then w0 else consume p cq cc w0)"
  have rung: "rung level = (p, q)"
    by (simp add: rung_def p_def q_def)
  have ok: "0 < p" "p \<le> protocol_scale" "0 < q" "\<not> lw_previous_price w > p" "lo \<le> p" "lw_worst_price w \<le> p" "\<not> r \<le> 1"
    using assms by (auto simp: rung rung_ok_def r_def)
  have cq: "0 < cq" "cq \<le> q" "cc \<le> r" "cost > r \<Longrightarrow> r - 1 \<le> cc" "\<not> cost > r \<Longrightarrow> cc = cost"
    using partial_level [OF ok(1,2), of r q cq] ok(3,7) by (auto simp: cq_def cost_def cc_def)
  have cc: "0 \<le> cc"
    using ok(1) cq(1) by (simp add: cc_def pos_imp_zdiv_nonneg_iff)
  show ?thesis
  proof
    show "buy_levels requested (level # asks) w = buy_levels requested asks w1"
      using ok cq(1) unfolding buy_levels.simps Let_def p_def [symmetric] q_def [symmetric] r_def [symmetric]
        w0_def [symmetric] cost_def [symmetric]
      by (auto simp: w1_def cc_def cq_def cost_def [symmetric])
    have "fill_inv lo p w0"
      using fill_inv_mono [OF assms(6) order_refl ok(6)] by (simp add: w0_def)
    from fill_inv_consume [OF this ok(5) order_refl ok(1) cq(1)] show "fill_inv lo (lw_worst_price w1) w1"
      using assms(6) by (auto simp: w1_def w0_def cc_def)
    show "requested - 1 \<le> lw_value w1 \<or> lw_value w1 = lw_value w + ladder_cost [rung level]"
      using cq(4,5) cc by (cases "cost > r") (auto simp: w1_def w0_def r_def rung cost_def [symmetric])
    show "lw_value w1 \<le> lw_value w + ladder_cost [rung level]"
      using cq(3,5) cc by (cases "cost > r") (auto simp: w1_def w0_def r_def rung cost_def [symmetric])
  qed (use ok cq cc assms(5) in \<open>auto simp: w1_def w0_def rung r_def\<close>)
qed

lemma buy_levels_spec:
  assumes "list_all rung_ok (map rung asks)" and "sorted_wrt (\<le>) (map fst (map rung asks))"
    and "\<forall>l\<in>set (map rung asks). lw_previous_price w \<le> fst l \<and> lo \<le> fst l \<and> lw_worst_price w \<le> fst l"
    and "fill_inv lo (lw_worst_price w) w" and "lw_value w \<le> requested"
    and "0 \<le> lw_worst_price w" and "lw_worst_price w \<le> protocol_scale"
  shows "\<exists>w'. buy_levels requested asks w = Inr w' \<and> fill_inv lo (lw_worst_price w') w' \<and>
    lw_value w \<le> lw_value w' \<and> lw_value w' \<le> requested \<and>
    lw_value w' \<le> lw_value w + ladder_cost (map rung asks) \<and>
    (requested - 1 \<le> lw_value w' \<or> lw_value w' = lw_value w + ladder_cost (map rung asks)) \<and>
    lw_shares w' \<le> lw_shares w + liquidity (map rung asks) \<and>
    0 \<le> lw_worst_price w' \<and> lw_worst_price w' \<le> protocol_scale"
  using assms
proof (induction asks arbitrary: w)
  case Nil
  then show ?case by simp
next
  case (Cons level asks)
  let ?p = "fst (rung level)"
  have ok: "rung_ok (rung level)" "lw_previous_price w \<le> ?p" "lo \<le> ?p" "lw_worst_price w \<le> ?p" "?p \<le> protocol_scale"
    using Cons.prems(1,3) by (auto simp: rung_ok_def)
  have rest: "0 \<le> ladder_cost (map rung (level # asks))" "0 \<le> liquidity (map rung (level # asks))"
    using Cons.prems(1) ladder_cost_nonneg liquidity_rungs_nonneg by blast+
  show ?case
  proof (cases "requested - lw_value w \<le> 1")
    case True
    then have "buy_levels requested (level # asks) w = Inr (w\<lparr>lw_previous_price := ?p\<rparr>)"
      using ok by (simp add: rung_def rung_ok_def)
    then show ?thesis
      using True Cons.prems(4-7) rest by simp
  next
    case False
    then have "1 < requested - lw_value w"
      by simp
    from buy_level_step [OF ok(1-4) Cons.prems(6,4) this] obtain w1 where
      step: "buy_levels requested (level # asks) w = buy_levels requested asks w1" and
      w1: "fill_inv lo (lw_worst_price w1) w1" "lw_previous_price w1 = ?p" "0 \<le> lw_worst_price w1"
      "lw_worst_price w1 \<le> ?p" "lw_value w \<le> lw_value w1" "lw_value w1 \<le> requested"
      "lw_value w1 \<le> lw_value w + ladder_cost [rung level]"
      "requested - 1 \<le> lw_value w1 \<or> lw_value w1 = lw_value w + ladder_cost [rung level]"
      "lw_shares w1 \<le> lw_shares w + snd (rung level)"
      by metis
    have "\<forall>l\<in>set (map rung asks). ?p \<le> fst l"
      using Cons.prems(2) by auto
    then have "\<forall>l\<in>set (map rung asks). lw_previous_price w1 \<le> fst l \<and> lo \<le> fst l \<and> lw_worst_price w1 \<le> fst l"
      using w1(2) order_trans [OF w1(4)] Cons.prems(3) by simp
    from Cons.IH [OF _ _ this w1(1) w1(6) w1(3) order_trans [OF w1(4) ok(5)]] Cons.prems(1,2) obtain w' where
      "buy_levels requested asks w1 = Inr w'" "fill_inv lo (lw_worst_price w') w'"
      "lw_value w1 \<le> lw_value w'" "lw_value w' \<le> requested"
      "lw_value w' \<le> lw_value w1 + ladder_cost (map rung asks)"
      "requested - 1 \<le> lw_value w' \<or> lw_value w' = lw_value w1 + ladder_cost (map rung asks)"
      "lw_shares w' \<le> lw_shares w1 + liquidity (map rung asks)"
      "0 \<le> lw_worst_price w'" "lw_worst_price w' \<le> protocol_scale"
      by auto
    moreover have "ladder_cost (map rung (level # asks)) = ladder_cost [rung level] + ladder_cost (map rung asks)"
      "liquidity (map rung (level # asks)) = snd (rung level) + liquidity (map rung asks)"
      by simp_all
    ultimately show ?thesis
      using w1(5,7-9) unfolding step by (intro exI [of _ w'] conjI; linarith?)
  qed
qed

lemma sell_levels_spec:
  assumes "list_all rung_ok (map rung bids)" and "sorted_wrt (\<ge>) (map fst (map rung bids))"
    and "\<forall>l\<in>set (map rung bids). fst l \<le> lw_previous_price w \<and> fst l \<le> hi \<and>
      (lw_consumed_levels w = 0 \<or> fst l \<le> lw_worst_price w)"
    and "fill_inv (lw_worst_price w) hi w" and "lw_shares w \<le> requested"
    and "0 \<le> lw_worst_price w" and "lw_worst_price w \<le> protocol_scale"
  shows "\<exists>w'. sell_levels requested bids w = Inr w' \<and> fill_inv (lw_worst_price w') hi w' \<and>
    lw_shares w \<le> lw_shares w' \<and> lw_shares w' \<le> requested \<and>
    lw_shares w' \<le> lw_shares w + liquidity (map rung bids) \<and>
    (requested - 1 \<le> lw_shares w' \<or> lw_shares w' = lw_shares w + liquidity (map rung bids)) \<and>
    0 \<le> lw_worst_price w' \<and> lw_worst_price w' \<le> protocol_scale"
  using assms
proof (induction bids arbitrary: w)
  case Nil
  then show ?case by simp
next
  case (Cons level bids)
  define p where "p = price_wei (pl_price level)"
  define q where "q = quantity_wei (pl_quantity level)"
  define w0 where "w0 = w\<lparr>lw_previous_price := p\<rparr>"
  define r where "r = requested - lw_shares w"
  have ok: "0 < p" "p \<le> protocol_scale" "0 < q" "\<not> lw_previous_price w < p" "p \<le> hi"
    "lw_consumed_levels w = 0 \<or> p \<le> lw_worst_price w"
    using Cons.prems(1,3) by (auto simp: rung_def rung_ok_def p_def q_def)
  have rest: "0 \<le> liquidity (map rung bids)"
    using Cons.prems(1) by (auto intro: liquidity_rungs_nonneg)
  have sums: "liquidity (map rung (level # bids)) = q + liquidity (map rung bids)"
    by (simp add: rung_def q_def)
  show ?case
  proof (cases "r \<le> 1")
    case True
    then have "sell_levels requested (level # bids) w = Inr w0"
      using ok by (simp add: p_def [symmetric] q_def [symmetric] w0_def r_def)
    then show ?thesis
      using True Cons.prems(4-7) rest ok(3) unfolding sums by (simp add: w0_def r_def)
  next
    case False
    define c where "c = (if q < r then q else r)"
    define w1 where "w1 = consume p c (p * c div protocol_scale) w0"
    have step: "sell_levels requested (level # bids) w = sell_levels requested bids w1"
      using ok False unfolding sell_levels.simps Let_def p_def [symmetric] q_def [symmetric] r_def [symmetric]
        w0_def [symmetric] c_def [symmetric] w1_def by (auto simp: c_def)
    have "fill_inv p hi w0"
      using ok(6) Cons.prems(4) fill_inv_none [of "lw_worst_price w" hi w p hi]
        fill_inv_mono [of "lw_worst_price w" hi w p hi] by (auto simp: w0_def)
    then have w1: "fill_inv (lw_worst_price w1) hi w1"
      using fill_inv_consume [of p hi w0 p c] ok False by (auto simp: w1_def c_def)
    have "\<forall>l\<in>set (map rung bids). fst l \<le> p"
      using Cons.prems(2) by (auto simp: rung_def p_def)
    then have "\<forall>l\<in>set (map rung bids). fst l \<le> lw_previous_price w1 \<and> fst l \<le> hi \<and>
      (lw_consumed_levels w1 = 0 \<or> fst l \<le> lw_worst_price w1)"
      using Cons.prems(3) by (auto simp: w1_def w0_def)
    from Cons.IH [OF _ _ this w1] show ?thesis
      using Cons.prems(1,2) ok(1-3) False unfolding step sums by (auto simp: w1_def w0_def c_def r_def)
  qed
qed

section \<open>Quotes\<close>

lemma walk_vwap_bounds:
  assumes "fill_inv lo hi w" and "0 < lw_shares w"
  shows "lo \<le> walk_vwap w" and "walk_vwap w \<le> hi"
proof -
  have "lo * lw_shares w div lw_shares w \<le> walk_vwap w" "walk_vwap w \<le> hi * lw_shares w div lw_shares w"
    using assms unfolding walk_vwap_def fill_inv_def by (simp_all only: if_True zdiv_mono1)
  then show "lo \<le> walk_vwap w" "walk_vwap w \<le> hi"
    using assms(2) by simp_all
qed

lemma walk_vwap_range:
  assumes "fill_inv lo hi w" and "0 \<le> lo" and "hi \<le> protocol_scale"
  shows "0 \<le> walk_vwap w" and "walk_vwap w < 2 ^ 256"
proof -
  have "0 \<le> walk_vwap w \<and> walk_vwap w \<le> protocol_scale"
    using walk_vwap_bounds [OF assms(1)] assms by (cases "0 < lw_shares w") (auto simp: walk_vwap_def)
  then show "0 \<le> walk_vwap w" "walk_vwap w < 2 ^ 256"
    by (auto simp: protocol_scale_def)
qed

lemma buy_quote_walk:
  assumes "uint256_wf v" and "0 < uint256_value v" and "asks_valid asks" and "liquidity (map rung asks) < 2 ^ 256"
    and "\<forall>l\<in>set (map rung asks). lo \<le> fst l" and "0 \<le> lo"
  obtains q w where "quote_market_buy_value v asks = Inr q"
    "fill_inv lo (lw_worst_price w) w" "lw_value w \<le> u_int v" "lw_value w \<le> ladder_cost (map rung asks)"
    "u_int v - 1 \<le> lw_value w \<or> lw_value w = ladder_cost (map rung asks)"
    "mb_requested_value_wei q = v" "u_int (mb_spent_value_wei q) = lw_value w"
    "u_int (mb_unspent_value_wei q) = u_int v - lw_value w" "u_int (mb_shares_wei q) = lw_shares w"
    "u_int (mb_vwap_price_wei q) = walk_vwap w" "u_int (mb_worst_price_wei q) = lw_worst_price w"
    "mb_levels_consumed q = lw_consumed_levels w" "mb_complete q \<longleftrightarrow> u_int v - lw_value w \<le> 1"
    "uint256_wf (mb_shares_wei q)" "uint256_wf (mb_spent_value_wei q)"
proof -
  let ?req = "u_int v"
  have rungs: "list_all rung_ok (map rung asks)" "sorted_wrt (\<le>) (map fst (map rung asks))"
    using assms(3) by (auto simp: asks_valid_def)
  have start: "\<forall>l\<in>set (map rung asks). lw_previous_price (empty_walk 0) \<le> fst l \<and> lo \<le> fst l \<and>
      lw_worst_price (empty_walk 0) \<le> fst l"
    using rungs(1) assms(5) by (auto simp: empty_walk_def list_all_iff rung_ok_def)
  from buy_levels_spec [OF rungs start, of ?req] obtain w where
    w: "buy_levels ?req asks (empty_walk 0) = Inr w" "fill_inv lo (lw_worst_price w) w" "lw_value w \<le> ?req"
    "lw_value w \<le> ladder_cost (map rung asks)" "?req - 1 \<le> lw_value w \<or> lw_value w = ladder_cost (map rung asks)"
    "lw_shares w \<le> liquidity (map rung asks)" "0 \<le> lw_worst_price w" "lw_worst_price w \<le> protocol_scale"
    by auto
  have range: "0 \<le> lw_value w" "0 \<le> lw_shares w"
    using w(2) by (auto simp: fill_inv_def)
  have small: "lw_value w < 2 ^ 256" "?req - lw_value w < 2 ^ 256" "lw_shares w < 2 ^ 256" "lw_worst_price w < 2 ^ 256"
    using range w(3,6,8) assms(4) uint256_value_less [OF assms(1)] by (auto simp: protocol_scale_def)
  obtain u1 u2 u3 u4 u5 where u: "to_uint256 (lw_value w) = Inr u1" "to_uint256 (?req - lw_value w) = Inr u2"
    "to_uint256 (lw_shares w) = Inr u3" "to_uint256 (walk_vwap w) = Inr u4" "to_uint256 (lw_worst_price w) = Inr u5"
    using to_uint256_ok range small w(3,7) walk_vwap_range [OF w(2) assms(6) w(8)] by (metis diff_ge_0_iff_ge)
  show ?thesis
    by (rule that [of "\<lparr>mb_requested_value_wei = v, mb_spent_value_wei = u1, mb_unspent_value_wei = u2,
        mb_shares_wei = u3, mb_vwap_price_wei = u4, mb_worst_price_wei = u5,
        mb_levels_consumed = lw_consumed_levels w, mb_complete = (?req - lw_value w \<le> 1)\<rparr>" w])
      (use w u u [unfolded to_uint256_iff] assms(1,2) in \<open>simp_all add: quote_market_buy_value_def Let_def\<close>)
qed

lemma sell_quote_walk:
  assumes "uint256_wf s" and "0 < uint256_value s" and "bids_valid bids"
    and "\<forall>l\<in>set (map rung bids). fst l \<le> hi" and "hi \<le> protocol_scale"
  obtains q w where "quote_market_sell_shares s bids = Inr q"
    "fill_inv (lw_worst_price w) hi w" "lw_shares w \<le> u_int s" "lw_shares w \<le> liquidity (map rung bids)"
    "u_int s - 1 \<le> lw_shares w \<or> lw_shares w = liquidity (map rung bids)"
    "ms_requested_shares_wei q = s" "u_int (ms_sold_shares_wei q) = lw_shares w"
    "u_int (ms_unsold_shares_wei q) = u_int s - lw_shares w" "u_int (ms_returned_value_wei q) = lw_value w"
    "u_int (ms_vwap_price_wei q) = walk_vwap w" "u_int (ms_worst_price_wei q) = lw_worst_price w"
    "ms_levels_consumed q = lw_consumed_levels w" "ms_complete q \<longleftrightarrow> u_int s - lw_shares w \<le> 1"
    "uint256_wf (ms_returned_value_wei q)"
proof -
  let ?req = "u_int s" and ?e = "empty_walk (protocol_scale + 1)"
  have rungs: "list_all rung_ok (map rung bids)" "sorted_wrt (\<ge>) (map fst (map rung bids))"
    using assms(3) by (auto simp: bids_valid_def)
  have start: "\<forall>l\<in>set (map rung bids). fst l \<le> lw_previous_price ?e \<and> fst l \<le> hi \<and>
      (lw_consumed_levels ?e = 0 \<or> fst l \<le> lw_worst_price ?e)"
    using rungs(1) assms(4) by (auto simp: empty_walk_def list_all_iff rung_ok_def)
  from sell_levels_spec [OF rungs start, of ?req] obtain w where
    w: "sell_levels ?req bids ?e = Inr w" "fill_inv (lw_worst_price w) hi w" "lw_shares w \<le> ?req"
    "lw_shares w \<le> liquidity (map rung bids)" "?req - 1 \<le> lw_shares w \<or> lw_shares w = liquidity (map rung bids)"
    "0 \<le> lw_worst_price w" "lw_worst_price w \<le> protocol_scale"
    by auto
  have range: "0 \<le> lw_value w" "0 \<le> lw_shares w"
    using w(2) by (auto simp: fill_inv_def)
  have "protocol_scale * lw_value w \<le> hi * lw_shares w" "hi * lw_shares w \<le> protocol_scale * lw_shares w"
    using w(2) range assms(5) by (auto simp: fill_inv_def mult_right_mono)
  then have "lw_value w \<le> lw_shares w"
    by (meson mult_le_cancel_left_pos order_trans protocol_scale_pos)
  then have small: "lw_value w < 2 ^ 256" "?req - lw_shares w < 2 ^ 256" "lw_shares w < 2 ^ 256" "lw_worst_price w < 2 ^ 256"
    using range w(3,7) uint256_value_less [OF assms(1)] by (auto simp: protocol_scale_def)
  obtain u1 u2 u3 u4 u5 where u: "to_uint256 (lw_shares w) = Inr u1" "to_uint256 (?req - lw_shares w) = Inr u2"
    "to_uint256 (lw_value w) = Inr u3" "to_uint256 (walk_vwap w) = Inr u4" "to_uint256 (lw_worst_price w) = Inr u5"
    using to_uint256_ok range small w(3,6) walk_vwap_range [OF w(2,6) assms(5)] by (metis diff_ge_0_iff_ge)
  show ?thesis
    by (rule that [of "\<lparr>ms_requested_shares_wei = s, ms_sold_shares_wei = u1, ms_unsold_shares_wei = u2,
        ms_returned_value_wei = u3, ms_vwap_price_wei = u4, ms_worst_price_wei = u5,
        ms_levels_consumed = lw_consumed_levels w, ms_complete = (?req - lw_shares w \<le> 1)\<rparr>" w])
      (use w u u [unfolded to_uint256_iff] assms(1,2) in \<open>simp_all add: quote_market_sell_shares_def Let_def\<close>)
qed

definition best_price :: "price_level list \<Rightarrow> int" where
  "best_price ls = (case ls of [] \<Rightarrow> 0 | l # _ \<Rightarrow> price_wei (pl_price l))"

lemma best_ask_le:
  "asks_valid asks \<Longrightarrow> (\<forall>l\<in>set (map rung asks). best_price asks \<le> fst l) \<and> 0 \<le> best_price asks"
  by (cases asks) (auto simp: asks_valid_def best_price_def rung_def rung_ok_def)

lemma best_bid_ge:
  "bids_valid bids \<Longrightarrow> (\<forall>l\<in>set (map rung bids). fst l \<le> best_price bids) \<and> best_price bids \<le> protocol_scale"
  by (cases bids) (auto simp: bids_valid_def best_price_def rung_def rung_ok_def)

text \<open>
  Spending a positive value against a valid ask ladder always gives a quote. What is spent and
  what is left add up to the request; the quote is complete exactly when the ladder can absorb all but
  one unit of the request, and an incomplete quote has bought out the ladder; the average price lies
  between the best ask and the worst price paid; and the shares are worth what is spent at the average
  price, up to one unit of rounding for every level consumed.
\<close>

theorem market_buy_quote_exact:
  assumes "uint256_wf v" and "0 < uint256_value v" and "asks_valid asks" and "liquidity (map rung asks) < 2 ^ 256"
  shows "\<exists>q. quote_market_buy_value v asks = Inr q \<and>
    uint256_value (mb_spent_value_wei q) + uint256_value (mb_unspent_value_wei q) = uint256_value v \<and>
    (mb_complete q \<longleftrightarrow> uint256_value (mb_unspent_value_wei q) \<le> 1) \<and>
    (mb_complete q \<longleftrightarrow> u_int v - 1 \<le> ladder_cost (map rung asks)) \<and>
    (mb_complete q \<or> u_int (mb_spent_value_wei q) = ladder_cost (map rung asks)) \<and>
    (uint256_value (mb_shares_wei q) = 0 \<or>
      best_price asks \<le> u_int (mb_vwap_price_wei q) \<and>
      uint256_value (mb_vwap_price_wei q) \<le> uint256_value (mb_worst_price_wei q)) \<and>
    best_price asks * u_int (mb_shares_wei q) \<le>
      protocol_scale * u_int (mb_spent_value_wei q) + int (mb_levels_consumed q) * (protocol_scale - 1) \<and>
    protocol_scale * u_int (mb_spent_value_wei q) \<le> u_int (mb_worst_price_wei q) * u_int (mb_shares_wei q)"
proof -
  note best = best_ask_le [OF assms(3)]
  from buy_quote_walk [OF assms best [THEN conjunct1] best [THEN conjunct2]] obtain q w where
    q: "quote_market_buy_value v asks = Inr q" and inv: "fill_inv (best_price asks) (lw_worst_price w) w" and
    le: "lw_value w \<le> u_int v" "lw_value w \<le> ladder_cost (map rung asks)"
      "u_int v - 1 \<le> lw_value w \<or> lw_value w = ladder_cost (map rung asks)" and
    eqs: "u_int (mb_spent_value_wei q) = lw_value w"
      "u_int (mb_unspent_value_wei q) = u_int v - lw_value w" "u_int (mb_shares_wei q) = lw_shares w"
      "u_int (mb_vwap_price_wei q) = walk_vwap w" "u_int (mb_worst_price_wei q) = lw_worst_price w"
      "mb_levels_consumed q = lw_consumed_levels w" "mb_complete q \<longleftrightarrow> u_int v - lw_value w \<le> 1"
    by metis
  have vwap: "lw_shares w = 0 \<or> best_price asks \<le> walk_vwap w \<and> walk_vwap w \<le> lw_worst_price w"
    using walk_vwap_bounds [OF inv] inv by (auto simp: fill_inv_def)
  note inv' = inv [unfolded fill_inv_def]
  show ?thesis
  proof (intro exI [of _ q] conjI)
    show "quote_market_buy_value v asks = Inr q"
      by (rule q)
    show "uint256_value (mb_shares_wei q) = 0 \<or> best_price asks \<le> u_int (mb_vwap_price_wei q) \<and>
        uint256_value (mb_vwap_price_wei q) \<le> uint256_value (mb_worst_price_wei q)"
      using vwap eqs by (simp only: flip: of_nat_le_iff [where 'a = int] of_nat_eq_0_iff [where 'a = int])
    show "best_price asks * u_int (mb_shares_wei q) \<le>
        protocol_scale * u_int (mb_spent_value_wei q) + int (mb_levels_consumed q) * (protocol_scale - 1)"
      "protocol_scale * u_int (mb_spent_value_wei q) \<le> u_int (mb_worst_price_wei q) * u_int (mb_shares_wei q)"
      using inv' unfolding eqs by linarith+
  qed (use le eqs in \<open>linarith+\<close>)
qed

text \<open>The same contract for selling shares into a valid bid ladder.\<close>

lemma market_sell_quote_exact:
  assumes "uint256_wf s" and "0 < uint256_value s" and "bids_valid bids"
  shows "\<exists>q. quote_market_sell_shares s bids = Inr q \<and>
    uint256_value (ms_sold_shares_wei q) + uint256_value (ms_unsold_shares_wei q) = uint256_value s \<and>
    (ms_complete q \<longleftrightarrow> u_int s - 1 \<le> liquidity (map rung bids)) \<and>
    (ms_complete q \<or> u_int (ms_sold_shares_wei q) = liquidity (map rung bids)) \<and>
    (uint256_value (ms_sold_shares_wei q) = 0 \<or> u_int (ms_vwap_price_wei q) \<le> best_price bids \<and>
      uint256_value (ms_worst_price_wei q) \<le> uint256_value (ms_vwap_price_wei q)) \<and>
    protocol_scale * u_int (ms_returned_value_wei q) \<le> best_price bids * u_int (ms_sold_shares_wei q)"
proof -
  note best = best_bid_ge [OF assms(3)]
  from sell_quote_walk [OF assms best [THEN conjunct1] best [THEN conjunct2]] obtain q w where
    q: "quote_market_sell_shares s bids = Inr q" and inv: "fill_inv (lw_worst_price w) (best_price bids) w" and
    le: "lw_shares w \<le> u_int s" "lw_shares w \<le> liquidity (map rung bids)"
      "u_int s - 1 \<le> lw_shares w \<or> lw_shares w = liquidity (map rung bids)" and
    eqs: "u_int (ms_sold_shares_wei q) = lw_shares w" "u_int (ms_unsold_shares_wei q) = u_int s - lw_shares w"
      "u_int (ms_returned_value_wei q) = lw_value w" "u_int (ms_vwap_price_wei q) = walk_vwap w"
      "u_int (ms_worst_price_wei q) = lw_worst_price w" "ms_complete q \<longleftrightarrow> u_int s - lw_shares w \<le> 1"
    by metis
  have vwap: "lw_shares w = 0 \<or> walk_vwap w \<le> best_price bids \<and> lw_worst_price w \<le> walk_vwap w"
    using walk_vwap_bounds [OF inv] inv by (auto simp: fill_inv_def)
  note inv' = inv [unfolded fill_inv_def]
  show ?thesis
  proof (intro exI [of _ q] conjI)
    show "quote_market_sell_shares s bids = Inr q"
      by (rule q)
    show "uint256_value (ms_sold_shares_wei q) = 0 \<or> u_int (ms_vwap_price_wei q) \<le> best_price bids \<and>
        uint256_value (ms_worst_price_wei q) \<le> uint256_value (ms_vwap_price_wei q)"
      using vwap eqs by (simp only: flip: of_nat_le_iff [where 'a = int] of_nat_eq_0_iff [where 'a = int])
    show "protocol_scale * u_int (ms_returned_value_wei q) \<le> best_price bids * u_int (ms_sold_shares_wei q)"
      using inv' unfolding eqs by linarith
  qed (use le eqs in \<open>linarith+\<close>)
qed

definition uncrossed :: "price_level list \<Rightarrow> price_level list \<Rightarrow> bool" where
  "uncrossed bids asks \<longleftrightarrow> (\<forall>b\<in>set bids. \<forall>a\<in>set asks. price_wei (pl_price b) \<le> price_wei (pl_price a))"

lemma round_trip_rounding:
  assumes "fill_inv mid h w" and "fill_inv l mid w'" and "lw_shares w' \<le> lw_shares w" and "0 \<le> mid" and "0 < lw_shares w"
  shows "lw_value w' < lw_value w + int (lw_consumed_levels w)"
proof -
  have "protocol_scale * lw_value w' \<le> mid * lw_shares w'" "mid * lw_shares w' \<le> mid * lw_shares w"
    using assms by (auto simp: fill_inv_def mult_left_mono)
  moreover have "mid * lw_shares w \<le> protocol_scale * lw_value w + int (lw_consumed_levels w) * (protocol_scale - 1)"
    and "0 < lw_consumed_levels w"
    using assms by (auto simp: fill_inv_def)
  ultimately have "protocol_scale * lw_value w' < protocol_scale * (lw_value w + int (lw_consumed_levels w))"
    by (simp add: algebra_simps)
  then show ?thesis
    by (simp add: mult_less_cancel_left_pos)
qed

lemma round_trip_spec:
  assumes "uint256_wf v" and "0 < uint256_value v" and "asks_valid asks" and "bids_valid bids"
    and "uncrossed bids asks" and "liquidity (map rung asks) < 2 ^ 256"
  shows "\<exists>t. quote_immediate_round_trip v asks bids = Inr t \<and> quote_market_buy_value v asks = Inr (rt_buy t) \<and>
    uint256_value (mb_spent_value_wei (rt_buy t)) \<le>
      uint256_value (rt_recovered_value_wei t) + uint256_value (rt_book_loss_value_wei t) \<and>
    uint256_value (rt_recovered_value_wei t) + uint256_value (rt_book_loss_value_wei t) \<le>
      uint256_value (mb_spent_value_wei (rt_buy t)) + (mb_levels_consumed (rt_buy t) - 1) \<and>
    uint256_value (rt_book_loss_value_wei t) \<le> uint256_value (mb_spent_value_wei (rt_buy t))"
proof -
  define mid where "mid = (if asks = [] then protocol_scale else best_price asks)"
  have mid: "\<forall>l\<in>set (map rung bids). fst l \<le> mid" "mid \<le> protocol_scale"
    "\<forall>l\<in>set (map rung asks). mid \<le> fst l" "0 \<le> mid"
    using assms(3-5) by (cases asks; auto simp: mid_def uncrossed_def best_price_def rung_def bids_valid_def
        asks_valid_def list_all_iff rung_ok_def)+
  from buy_quote_walk [OF assms(1-3,6) mid(3,4)] obtain q w where
    q: "quote_market_buy_value v asks = Inr q" and inv: "fill_inv mid (lw_worst_price w) w" and
    eqs: "u_int (mb_spent_value_wei q) = lw_value w" "u_int (mb_shares_wei q) = lw_shares w"
      "mb_levels_consumed q = lw_consumed_levels w" and
    wf: "uint256_wf (mb_shares_wei q)" "uint256_wf (mb_spent_value_wei q)"
    by metis
  show ?thesis
  proof (cases "uint256_value (mb_shares_wei q) = 0")
    case True
    then have "lw_value w = 0"
      using inv eqs(2) by (auto simp: fill_inv_def mult_le_0_iff order_antisym_conv)
    then show ?thesis
      using True q wf(1) eqs(1)
      by (simp add: quote_immediate_round_trip_def uint256_is_zero_iff uint256_value_def digits_value_def uint256_zero_def)
  next
    case False
    then have pos: "0 < uint256_value (mb_shares_wei q)" "0 < lw_shares w"
      using eqs(2) by simp_all
    from sell_quote_walk [OF wf(1) pos(1) assms(4) mid(1,2)] obtain s w' where
      s: "quote_market_sell_shares (mb_shares_wei q) bids = Inr s" and inv': "fill_inv (lw_worst_price w') mid w'" and
      sold: "lw_shares w' \<le> u_int (mb_shares_wei q)" and ret: "u_int (ms_returned_value_wei s) = lw_value w'"
        "uint256_wf (ms_returned_value_wei s)"
      by metis
    have range: "0 \<le> lw_value w'" "0 \<le> lw_value w" "lw_value w < 2 ^ 256"
      using inv inv' uint256_value_less [OF wf(2)] eqs(1) by (auto simp: fill_inv_def)
    define loss where "loss = (if lw_value w - lw_value w' > 0 then lw_value w - lw_value w' else 0)"
    have "0 \<le> loss" "loss < 2 ^ 256"
      using range by (auto simp: loss_def)
    then obtain u where u: "to_uint256 loss = Inr u"
      using to_uint256_ok by blast
    have "quote_immediate_round_trip v asks bids = Inr \<lparr>rt_buy = q, rt_sell = s,
        rt_recovered_value_wei = ms_returned_value_wei s, rt_book_loss_value_wei = u,
        rt_complete = (mb_complete q \<and> ms_complete s)\<rparr>"
      using False q s wf ret eqs(1) u
      by (simp add: quote_immediate_round_trip_def uint256_is_zero_iff Let_def loss_def del: diff_gt_0_iff_gt)
    moreover have "lw_value w' < lw_value w + int (lw_consumed_levels w)"
      by (rule round_trip_rounding [OF inv inv' _ mid(4) pos(2)]) (use sold eqs(2) in simp)
    moreover have "u_int u = loss"
      using u by (simp add: to_uint256_iff)
    ultimately show ?thesis
      using q eqs(1,3) ret(1) range by (simp add: loss_def split: if_splits)
  qed
qed

text \<open>
  On a valid book whose bids do not cross its asks, the immediate round trip always gives a quote
  that never reports a profit beyond rounding: what is recovered plus the reported loss is at least
  what was spent, and exceeds it by less than one unit per ask level consumed. So the clamp of a
  negative loss to zero hides at most the rounding of the buy.
\<close>

theorem round_trip_loss_exact:
  assumes "uint256_wf v" and "0 < uint256_value v" and "asks_valid asks" and "bids_valid bids"
    and "uncrossed bids asks" and "liquidity (map rung asks) < 2 ^ 256"
  shows "\<exists>t. quote_immediate_round_trip v asks bids = Inr t \<and> quote_market_buy_value v asks = Inr (rt_buy t) \<and>
    uint256_value (mb_spent_value_wei (rt_buy t)) \<le>
      uint256_value (rt_recovered_value_wei t) + uint256_value (rt_book_loss_value_wei t) \<and>
    uint256_value (rt_recovered_value_wei t) + uint256_value (rt_book_loss_value_wei t) \<le>
      uint256_value (mb_spent_value_wei (rt_buy t)) + (mb_levels_consumed (rt_buy t) - 1) \<and>
    uint256_value (rt_book_loss_value_wei t) \<le> uint256_value (mb_spent_value_wei (rt_buy t))"
  using assms by (rule round_trip_spec)

section \<open>The book of the opposite outcome\<close>

lemma price_wei_scaled:
  assumes "price_wf p"
  shows "protocol_scale = int (pr_tick_scale p) * 10 ^ (18 - pr_precision p)"
    and "price_wei p = int (pr_ticks p) * 10 ^ (18 - pr_precision p)"
proof -
  have "(10 :: int) ^ pr_precision p * 10 ^ (18 - pr_precision p) = 10 ^ 18"
    using assms by (simp add: price_wf_def max_scale_def flip: power_add)
  then show k: "protocol_scale = int (pr_tick_scale p) * 10 ^ (18 - pr_precision p)"
    using assms by (simp add: price_wf_def protocol_scale_def)
  show "price_wei p = int (pr_ticks p) * 10 ^ (18 - pr_precision p)"
    using assms unfolding price_wei_def k by (simp add: price_wf_def mult.left_commute)
qed

lemma complement_wei:
  assumes "price_wf p"
  shows "price_wei (complement p) = protocol_scale - price_wei p"
proof -
  have "price_wf (complement p)" "pr_precision (complement p) = pr_precision p" "pr_ticks p \<le> pr_tick_scale p"
    using price_complement [OF assms] assms by (auto simp: price_wf_def)
  then show ?thesis
    using price_wei_scaled [OF assms] price_wei_scaled [of "complement p"]
    by (simp add: complement_eq [OF assms] of_nat_diff left_diff_distrib)
qed

text \<open>Every level of the book has a well-formed price strictly inside (0, 1) and a positive quantity.\<close>

definition book_levels_ok :: "price_level list \<Rightarrow> bool" where
  "book_levels_ok ls \<longleftrightarrow> list_all (\<lambda>l. price_wf (pl_price l) \<and> 0 < pr_ticks (pl_price l) \<and>
     pr_ticks (pl_price l) < pr_tick_scale (pl_price l) \<and> 0 < quantity_wei (pl_quantity l)) ls"

definition opposite :: "price_level \<Rightarrow> price_level" where
  "opposite l = \<lparr>pl_price = complement (pl_price l), pl_quantity = pl_quantity l\<rparr>"

lemma derive_no_book_opposite:
  "no_bids (derive_no_book b) = map opposite (ob_yes_asks b)" "no_asks (derive_no_book b) = map opposite (ob_yes_bids b)"
  by (simp_all add: derive_no_book_def opposite_def [abs_def])

lemma opposite_level:
  assumes "book_levels_ok ls" and "l \<in> set ls"
  shows "price_wei (pl_price (opposite l)) = protocol_scale - price_wei (pl_price l)"
    and "fst (rung (opposite l)) = protocol_scale - fst (rung l)" and "rung_ok (rung (opposite l))"
proof -
  have l: "price_wf (pl_price l)" "pr_ticks (pl_price l) < pr_tick_scale (pl_price l)" "0 < quantity_wei (pl_quantity l)"
    using assms by (auto simp: book_levels_ok_def list_all_iff)
  show wei: "price_wei (pl_price (opposite l)) = protocol_scale - price_wei (pl_price l)"
    using complement_wei [OF l(1)] by (simp add: opposite_def)
  then show "fst (rung (opposite l)) = protocol_scale - fst (rung l)"
    by (simp add: rung_def)
  have "price_wei (pl_price l) < protocol_scale" "0 \<le> price_wei (pl_price l)"
    using l(2) unfolding price_wei_scaled [OF l(1)] by simp_all
  then show "rung_ok (rung (opposite l))"
    using l(3) wei by (simp add: rung_ok_def rung_def opposite_def)
qed

lemma sorted_opposite:
  assumes "book_levels_ok ls"
  shows "sorted_wrt (\<le>) (map fst (map rung ls)) \<Longrightarrow> sorted_wrt (\<ge>) (map fst (map rung (map opposite ls)))"
    and "sorted_wrt (\<ge>) (map fst (map rung ls)) \<Longrightarrow> sorted_wrt (\<le>) (map fst (map rung (map opposite ls)))"
  using opposite_level(2) [OF assms] by (auto simp: sorted_wrt_map elim: sorted_wrt_mono_rel [rotated])

lemma derive_no_book_spec:
  assumes "book_levels_ok (ob_yes_bids b)" and "book_levels_ok (ob_yes_asks b)"
    and "bids_valid (ob_yes_bids b)" and "asks_valid (ob_yes_asks b)" and "uncrossed (ob_yes_bids b) (ob_yes_asks b)"
  shows "bids_valid (no_bids (derive_no_book b)) \<and> asks_valid (no_asks (derive_no_book b)) \<and>
    uncrossed (no_bids (derive_no_book b)) (no_asks (derive_no_book b)) \<and>
    (ob_yes_bids b = [] \<or> best_price (no_asks (derive_no_book b)) = protocol_scale - best_price (ob_yes_bids b)) \<and>
    (ob_yes_asks b = [] \<or> best_price (no_bids (derive_no_book b)) = protocol_scale - best_price (ob_yes_asks b)) \<and>
    map pl_quantity (no_asks (derive_no_book b)) = map pl_quantity (ob_yes_bids b) \<and>
    map pl_quantity (no_bids (derive_no_book b)) = map pl_quantity (ob_yes_asks b)"
proof -
  have "bids_valid (map opposite (ob_yes_asks b))"
    using assms(4) opposite_level(3) [OF assms(2)] sorted_opposite(1) [OF assms(2)]
    by (auto simp: bids_valid_def asks_valid_def list_all_iff simp del: map_map)
  moreover have "asks_valid (map opposite (ob_yes_bids b))"
    using assms(3) opposite_level(3) [OF assms(1)] sorted_opposite(2) [OF assms(1)]
    by (auto simp: bids_valid_def asks_valid_def list_all_iff simp del: map_map)
  moreover have "uncrossed (map opposite (ob_yes_asks b)) (map opposite (ob_yes_bids b))"
    using assms(5) opposite_level(1) [OF assms(1)] opposite_level(1) [OF assms(2)] by (auto simp: uncrossed_def)
  moreover have "ls = [] \<or> best_price (map opposite ls) = protocol_scale - best_price ls" if "book_levels_ok ls" for ls
    using opposite_level(1) [OF that] by (cases ls) (auto simp: best_price_def)
  ultimately show ?thesis
    using assms(1,2) by (simp add: derive_no_book_opposite opposite_def comp_def)
qed

text \<open>
  The derived book of the NO outcome mirrors the YES book: from a YES book with prices strictly
  between zero and one, bids and asks sorted best to worst and not crossing, it has bids and asks that
  are again valid ladders and do not cross, with the best NO ask one minus the best YES bid and the
  best NO bid one minus the best YES ask, and with the same quantities. So every quote is defined on it.
\<close>

theorem derive_no_book_mirror:
  assumes "book_levels_ok (ob_yes_bids b)" and "book_levels_ok (ob_yes_asks b)"
    and "bids_valid (ob_yes_bids b)" and "asks_valid (ob_yes_asks b)" and "uncrossed (ob_yes_bids b) (ob_yes_asks b)"
  shows "bids_valid (no_bids (derive_no_book b)) \<and> asks_valid (no_asks (derive_no_book b)) \<and>
    uncrossed (no_bids (derive_no_book b)) (no_asks (derive_no_book b)) \<and>
    (ob_yes_bids b = [] \<or> best_price (no_asks (derive_no_book b)) = protocol_scale - best_price (ob_yes_bids b)) \<and>
    (ob_yes_asks b = [] \<or> best_price (no_bids (derive_no_book b)) = protocol_scale - best_price (ob_yes_asks b)) \<and>
    map pl_quantity (no_asks (derive_no_book b)) = map pl_quantity (ob_yes_bids b) \<and>
    map pl_quantity (no_bids (derive_no_book b)) = map pl_quantity (ob_yes_asks b)"
  using assms by (rule derive_no_book_spec)

section \<open>A sample book\<close>

definition sample_price :: "nat \<Rightarrow> price" where
  "sample_price t = \<lparr>pr_ticks = t, pr_precision = 2, pr_tick_scale = 100\<rparr>"

definition sample_book_level :: "nat \<Rightarrow> price_level" where
  "sample_book_level t = \<lparr>pl_price = sample_price t, pl_quantity = \<lparr>fd_units = 10, fd_scale = 0\<rparr>\<rparr>"

definition sample_book :: orderbook where
  "sample_book = \<lparr>ob_market_id = 1, ob_update_timestamp_ms = 0, ob_decimal_precision = 2,
     ob_yes_bids = [sample_book_level 39, sample_book_level 38], ob_yes_asks = [sample_book_level 40, sample_book_level 42],
     ob_order_count = None, ob_last_order_settled = None, ob_settlements_pending = None,
     ob_settlement_levels_pending = None\<rparr>"

lemma sample_rung: "rung (sample_book_level t) = (int t * 10 ^ 16, 10 ^ 19)"
  by (simp add: rung_def sample_book_level_def sample_price_def price_wei_def quantity_wei_def protocol_scale_def
      max_scale_def)

lemma sample_book_ok:
  "book_levels_ok (ob_yes_bids sample_book)" "book_levels_ok (ob_yes_asks sample_book)"
  "bids_valid (ob_yes_bids sample_book)" "asks_valid (ob_yes_asks sample_book)"
  "uncrossed (ob_yes_bids sample_book) (ob_yes_asks sample_book)"
  "liquidity (map rung (ob_yes_asks sample_book)) < 2 ^ 256"
proof -
  have level: "price_wei (pl_price (sample_book_level t)) = int t * 10 ^ 16"
    "quantity_wei (pl_quantity (sample_book_level t)) = 10 ^ 19" for t
    using sample_rung [of t] by (simp_all add: rung_def)
  show "book_levels_ok (ob_yes_bids sample_book)" "book_levels_ok (ob_yes_asks sample_book)"
    by (simp_all add: book_levels_ok_def sample_book_def level) (simp_all add: sample_book_level_def sample_price_def price_wf_def max_scale_def)
  show "bids_valid (ob_yes_bids sample_book)" "asks_valid (ob_yes_asks sample_book)"
    "uncrossed (ob_yes_bids sample_book) (ob_yes_asks sample_book)"
    "liquidity (map rung (ob_yes_asks sample_book)) < 2 ^ 256"
    by (simp_all add: bids_valid_def asks_valid_def uncrossed_def sample_book_def sample_rung rung_ok_def protocol_scale_def level)
qed

theorem derive_no_book_mirror_witness:
  "bids_valid (no_bids (derive_no_book sample_book)) \<and> best_price (no_asks (derive_no_book sample_book)) = 61 * 10 ^ 16"
  using derive_no_book_mirror [OF sample_book_ok(1-5)] sample_rung [of 39]
  by (simp add: sample_book_def best_price_def rung_def protocol_scale_def)

lemma sample_value: "uint256_wf \<lparr>u256_text = ''10''\<rparr>" "uint256_value \<lparr>u256_text = ''10''\<rparr> = 10"
  by (simp_all add: uint256_wf_text is_digit_def uint256_value_def digits_value_def digit_value_def)

theorem market_buy_quote_exact_witness:
  "\<exists>q. quote_market_buy_value \<lparr>u256_text = ''10''\<rparr> (ob_yes_asks sample_book) = Inr q \<and> mb_complete q"
proof -
  have "9 \<le> ladder_cost (map rung (ob_yes_asks sample_book))"
    by (simp add: sample_book_def sample_rung protocol_scale_def)
  with market_buy_quote_exact [OF sample_value(1) _ sample_book_ok(4,6)] show ?thesis
    by (auto simp: sample_value(2))
qed

theorem round_trip_loss_exact_witness:
  "\<exists>t. quote_immediate_round_trip \<lparr>u256_text = ''10''\<rparr> (ob_yes_asks sample_book) (ob_yes_bids sample_book) = Inr t \<and>
     uint256_value (rt_book_loss_value_wei t) \<le> uint256_value (mb_spent_value_wei (rt_buy t))"
  using round_trip_loss_exact [OF sample_value(1) _ sample_book_ok(4,3,5,6)] sample_value(2) by auto

end
