(* ===== verification/Book_Codec.thy ===== *)
theory Book_Codec
  imports Liquidity "HOL-Library.Multiset"
begin

text \<open>
  The order-book part of \<^verbatim>\<open>src/codec.cpp\<close>: the conversion of the parsed JSON of an order book into
  an \<open>orderbook\<close>, with its limits, sorting, aggregation of duplicate prices and cross check. The JSON
  reader is the third-party package glaze: \<open>book_reader\<close> holds the reads the file makes of it, each
  a function of the text alone. \<^verbatim>\<open>glz::raw_json\<close> is the text of a JSON value. A \<^verbatim>\<open>std::optional\<close> field
  of a wire structure is an option.

  \<^verbatim>\<open>std::ranges::sort\<close> leaves the order of levels of equal price open; the model uses the stable
  sort, and the theorems speak of what every order gives: the total quantity at each price.
\<close>

section \<open>Limits and wire structures\<close>

record decode_limits =
  dl_max_body_bytes :: nat
  dl_max_markets :: nat
  dl_max_categories :: nat
  dl_max_tags :: nat
  dl_max_search_results_per_type :: nat
  dl_max_outcomes_per_market :: nat
  dl_max_reward_periods :: nat
  dl_max_polymarket_condition_ids :: nat
  dl_max_book_levels_per_side :: nat
  dl_max_timeseries_points :: nat
  dl_max_matches :: nat
  dl_max_makers_per_match :: nat
  dl_max_string_bytes :: nat
  dl_max_embedded_json_bytes :: nat

definition default_limits :: decode_limits where
  "default_limits = \<lparr>dl_max_body_bytes = 2 * 1024 * 1024, dl_max_markets = 1000, dl_max_categories = 1000,
     dl_max_tags = 10000, dl_max_search_results_per_type = 25, dl_max_outcomes_per_market = 256,
     dl_max_reward_periods = 10000, dl_max_polymarket_condition_ids = 10000,
     dl_max_book_levels_per_side = 20000, dl_max_timeseries_points = 100000, dl_max_matches = 10000,
     dl_max_makers_per_match = 10000, dl_max_string_bytes = 256 * 1024, dl_max_embedded_json_bytes = 512 * 1024\<rparr>"

type_synonym raw_json = string

record wire_last_order_settled =
  wl_id :: "string option"
  wl_kind :: "string option"
  wl_market_id :: "nat option"
  wl_outcome :: "string option"
  wl_price :: "raw_json option"
  wl_side :: "string option"

record wire_orderbook =
  wo_asks :: "(raw_json \<times> raw_json) list option"
  wo_bids :: "(raw_json \<times> raw_json) list option"
  wo_last_order_settled :: "wire_last_order_settled option"
  wo_market_id :: "nat option"
  wo_order_count :: "nat option"
  wo_settlements_pending :: "raw_json option"
  wo_update_timestamp_ms :: "int option"

record wire_pending_settlement_levels =
  wp_asks :: "(raw_json \<times> raw_json) list option"
  wp_bids :: "(raw_json \<times> raw_json) list option"

record wire_orderbook_response =
  wr_data :: "wire_orderbook option"
  wr_success :: "bool option"

text \<open>The reads of glaze: a parsed structure, or the formatted error.\<close>

record book_reader =
  br_string :: "string \<Rightarrow> string option"
  br_orderbook :: "string \<Rightarrow> string + wire_orderbook"
  br_orderbook_response :: "string \<Rightarrow> string + wire_orderbook_response"
  br_pending_levels :: "string \<Rightarrow> string + wire_pending_settlement_levels"

section \<open>Operations\<close>

definition missing :: "string \<Rightarrow> error" where
  "missing field = mk_error missing_field ''required field is missing'' field"

definition invalid :: "string \<Rightarrow> string \<Rightarrow> error" where
  "invalid message field = mk_error invalid_field message field"

text \<open>\<open>require x e f\<close> is the idiom \<^verbatim>\<open>if (!x) return e;\<close> followed by the use of \<^verbatim>\<open>*x\<close>.\<close>

definition require :: "'a option \<Rightarrow> error \<Rightarrow> ('a \<Rightarrow> 'b result) \<Rightarrow> 'b result" where
  "require x e f = (case x of None \<Rightarrow> Inl e | Some v \<Rightarrow> f v)"

text \<open>\<open>optional_part x f\<close> is the idiom \<^verbatim>\<open>if (x) { auto v = f(*x); if (!v) return v.error(); field = v.value(); }\<close>.\<close>

definition optional_part :: "'a option \<Rightarrow> ('a \<Rightarrow> 'b result) \<Rightarrow> 'b option result" where
  "optional_part x f = (case x of None \<Rightarrow> Inr None | Some v \<Rightarrow> bind_res (f v) (\<lambda>y. Inr (Some y)))"

definition string_within_limit :: "string \<Rightarrow> decode_limits \<Rightarrow> bool" where
  "string_within_limit s limits \<longleftrightarrow> length s \<le> dl_max_string_bytes limits"

definition parse_order_kind :: "string \<Rightarrow> order_kind enum_value" where
  "parse_order_kind raw =
     (if raw = ''LIMIT'' then \<lparr>ev_value = kind_limit, ev_raw = raw\<rparr>
      else if raw = ''MARKET'' then \<lparr>ev_value = kind_market, ev_raw = raw\<rparr>
      else \<lparr>ev_value = kind_unknown, ev_raw = raw\<rparr>)"

definition parse_contract_outcome :: "string \<Rightarrow> contract_outcome enum_value" where
  "parse_contract_outcome raw =
     (if raw = ''Yes'' \<or> raw = ''YES'' then \<lparr>ev_value = contract_yes, ev_raw = raw\<rparr>
      else if raw = ''No'' \<or> raw = ''NO'' then \<lparr>ev_value = contract_no, ev_raw = raw\<rparr>
      else \<lparr>ev_value = contract_outcome_unknown, ev_raw = raw\<rparr>)"

definition parse_book_side :: "string \<Rightarrow> book_side enum_value" where
  "parse_book_side raw =
     (if raw = ''Bid'' \<or> raw = ''BID'' then \<lparr>ev_value = side_bid, ev_raw = raw\<rparr>
      else if raw = ''Ask'' \<or> raw = ''ASK'' then \<lparr>ev_value = side_ask, ev_raw = raw\<rparr>
      else \<lparr>ev_value = book_side_unknown, ev_raw = raw\<rparr>)"

definition quoted :: "string \<Rightarrow> bool" where
  "quoted s \<longleftrightarrow> length s \<ge> 2 \<and> hd s = CHR 0x22 \<and> last s = CHR 0x22"

definition unquote_raw :: "(string \<Rightarrow> string option) \<Rightarrow> raw_json \<Rightarrow> string" where
  "unquote_raw read raw =
     (if quoted raw then (case read raw of Some s \<Rightarrow> s | None \<Rightarrow> raw) else raw)"

definition with_field :: "string \<Rightarrow> 'a result \<Rightarrow> 'a result" where
  "with_field field r = (case r of Inl e \<Rightarrow> Inl (e\<lparr>err_field := field\<rparr>) | Inr x \<Rightarrow> Inr x)"

definition parse_decimal_raw :: "(string \<Rightarrow> string option) \<Rightarrow> raw_json \<Rightarrow> string \<Rightarrow> fixed_decimal result" where
  "parse_decimal_raw read raw field = with_field field (fixed_decimal_parse (unquote_raw read raw))"

definition parse_price_raw :: "(string \<Rightarrow> string option) \<Rightarrow> raw_json \<Rightarrow> nat \<Rightarrow> string \<Rightarrow> price result" where
  "parse_price_raw read raw prec field = with_field field (price_parse (unquote_raw read raw) prec)"

definition convert_level ::
  "(string \<Rightarrow> string option) \<Rightarrow> raw_json \<times> raw_json \<Rightarrow> nat \<Rightarrow> string \<Rightarrow> price_level result" where
  "convert_level read wire prec field =
     bind_res (parse_price_raw read (fst wire) prec (field @ ''[0]'')) (\<lambda>price.
     bind_res (parse_decimal_raw read (snd wire) (field @ ''[1]'')) (\<lambda>quantity.
     guard_res (fd_units quantity = 0)
       (mk_error invalid_quantity ''book quantity must be positive'' (field @ ''[1]''))
       (Inr \<lparr>pl_price = price, pl_quantity = quantity\<rparr>)))"

fun convert_level_list ::
  "(string \<Rightarrow> string option) \<Rightarrow> nat \<Rightarrow> string \<Rightarrow> nat \<Rightarrow> (raw_json \<times> raw_json) list \<Rightarrow> price_level list result" where
  "convert_level_list read prec field i [] = Inr []"
| "convert_level_list read prec field i (w # wire) =
     bind_res (convert_level read w prec (field @ ''['' @ to_string i @ '']'')) (\<lambda>level.
     bind_res (convert_level_list read prec field (Suc i) wire) (\<lambda>levels. Inr (level # levels)))"

text \<open>The aggregation loop; the normalized levels are kept with the last one in front.\<close>

fun normalize_levels :: "string \<Rightarrow> price_level list \<Rightarrow> price_level list \<Rightarrow> price_level list result" where
  "normalize_levels field normalized [] = Inr (rev normalized)"
| "normalize_levels field [] (level # levels) = normalize_levels field [level] levels"
| "normalize_levels field (back # normalized) (level # levels) =
     (if pr_ticks (pl_price back) \<noteq> pr_ticks (pl_price level)
      then normalize_levels field (level # back # normalized) levels
      else
        let scale = max (fd_scale (pl_quantity back)) (fd_scale (pl_quantity level)) in
        case (rescale_exact (pl_quantity back) scale, rescale_exact (pl_quantity level) scale) of
          (Inr left, Inr right) \<Rightarrow>
            if fd_units right > u64_max - fd_units left
            then Inl (mk_error invalid_quantity ''duplicate book quantity aggregation overflowed'' field)
            else normalize_levels field
                   (back\<lparr>pl_quantity := \<lparr>fd_units = fd_units left + fd_units right, fd_scale = scale\<rparr>\<rparr> # normalized) levels
        | _ \<Rightarrow> Inl (mk_error invalid_quantity ''duplicate book quantity aggregation overflowed'' field))"

definition sort_levels :: "bool \<Rightarrow> price_level list \<Rightarrow> price_level list" where
  "sort_levels ascending levels =
     sort_key (\<lambda>l. if ascending then int (pr_ticks (pl_price l)) else - int (pr_ticks (pl_price l))) levels"

definition convert_levels ::
  "(string \<Rightarrow> string option) \<Rightarrow> (raw_json \<times> raw_json) list \<Rightarrow> nat \<Rightarrow> decode_limits \<Rightarrow> bool \<Rightarrow> string \<Rightarrow> price_level list result" where
  "convert_levels read wire prec limits ascending field =
     guard_res (length wire > dl_max_book_levels_per_side limits)
       (mk_error too_many_items ''order-book side exceeds configured level limit'' field) (
     bind_res (convert_level_list read prec field 0 wire) (\<lambda>levels.
       normalize_levels field [] (sort_levels ascending levels)))"

definition convert_last_order ::
  "(string \<Rightarrow> string option) \<Rightarrow> wire_last_order_settled \<Rightarrow> nat \<Rightarrow> decode_limits \<Rightarrow> last_order_settled result" where
  "convert_last_order read wire prec limits =
     require (wl_id wire) (missing ''data.lastOrderSettled.id'') (\<lambda>i.
     require (wl_kind wire) (missing ''data.lastOrderSettled.kind'') (\<lambda>kind.
     require (wl_market_id wire) (missing ''data.lastOrderSettled.marketId'') (\<lambda>market.
     require (wl_outcome wire) (missing ''data.lastOrderSettled.outcome'') (\<lambda>outcome.
     require (wl_price wire) (missing ''data.lastOrderSettled.price'') (\<lambda>raw.
     require (wl_side wire) (missing ''data.lastOrderSettled.side'') (\<lambda>side.
     guard_res (\<not> string_within_limit i limits \<or> \<not> string_within_limit kind limits \<or>
                \<not> string_within_limit outcome limits \<or> \<not> string_within_limit side limits)
       (invalid ''last settled order string exceeds configured limit'' ''data.lastOrderSettled'') (
     bind_res (parse_price_raw read raw prec ''data.lastOrderSettled.price'') (\<lambda>price.
       Inr \<lparr>lo_id = i, lo_kind = parse_order_kind kind, lo_market_id = market,
            lo_outcome = parse_contract_outcome outcome, lo_price = price, lo_side = parse_book_side side\<rparr>))))))))"

text \<open>The two optional parts of a book: the last settled order and the pending settlements.\<close>

definition convert_last_settled ::
  "(string \<Rightarrow> string option) \<Rightarrow> wire_orderbook \<Rightarrow> nat \<Rightarrow> decode_limits \<Rightarrow> orderbook \<Rightarrow> orderbook result" where
  "convert_last_settled read wire prec limits book =
     (case wo_last_order_settled wire of
        None \<Rightarrow> Inr book
      | Some l \<Rightarrow>
          bind_res (convert_last_order read l prec limits) (\<lambda>settled.
          guard_res (lo_market_id settled \<noteq> ob_market_id book)
            (mk_error invalid_orderbook ''last settled order belongs to another market''
               ''data.lastOrderSettled.marketId'')
            (Inr (book\<lparr>ob_last_order_settled := Some settled\<rparr>))))"

definition convert_pending ::
  "book_reader \<Rightarrow> wire_orderbook \<Rightarrow> nat \<Rightarrow> decode_limits \<Rightarrow> orderbook \<Rightarrow> orderbook result" where
  "convert_pending rd wire prec limits book =
     (case wo_settlements_pending wire of
        None \<Rightarrow> Inr book
      | Some raw \<Rightarrow>
          (case parse_decimal_raw (br_string rd) raw ''data.settlementsPending'' of
             Inr pending \<Rightarrow> Inr (book\<lparr>ob_settlements_pending := Some pending\<rparr>)
           | Inl _ \<Rightarrow>
               (case br_pending_levels rd raw of
                  Inr levels \<Rightarrow>
                    require (wp_asks levels) (invalid ''pending settlements must be a decimal or level object'' ''data.settlementsPending'') (\<lambda>asks.
                    require (wp_bids levels) (invalid ''pending settlements must be a decimal or level object'' ''data.settlementsPending'') (\<lambda>bids.
                    bind_res (convert_levels (br_string rd) asks prec limits True ''data.settlementsPending.asks'') (\<lambda>pending_asks.
                    bind_res (convert_levels (br_string rd) bids prec limits False ''data.settlementsPending.bids'') (\<lambda>pending_bids.
                      Inr (book\<lparr>ob_settlement_levels_pending := Some \<lparr>ps_yes_bids = pending_bids, ps_yes_asks = pending_asks\<rparr>\<rparr>)))))
                | Inl _ \<Rightarrow> Inl (invalid ''pending settlements must be a decimal or level object'' ''data.settlementsPending''))))"

definition crossed :: "price_level list \<Rightarrow> price_level list \<Rightarrow> bool" where
  "crossed bids asks \<longleftrightarrow> asks \<noteq> [] \<and> bids \<noteq> [] \<and> pr_ticks (pl_price (hd bids)) \<ge> pr_ticks (pl_price (hd asks))"

definition convert_orderbook ::
  "book_reader \<Rightarrow> wire_orderbook \<Rightarrow> nat \<Rightarrow> decode_limits \<Rightarrow> orderbook result" where
  "convert_orderbook rd wire prec limits =
     require (wo_market_id wire) (missing ''data.marketId'') (\<lambda>market.
     require (wo_update_timestamp_ms wire) (missing ''data.updateTimestampMs'') (\<lambda>ts.
     require (wo_asks wire) (missing ''data.asks'') (\<lambda>wire_asks.
     require (wo_bids wire) (missing ''data.bids'') (\<lambda>wire_bids.
     guard_res (ts \<le> 0) (invalid ''book timestamp must be positive'' ''data.updateTimestampMs'') (
     bind_res (convert_levels (br_string rd) wire_asks prec limits True ''data.asks'') (\<lambda>asks.
     bind_res (convert_levels (br_string rd) wire_bids prec limits False ''data.bids'') (\<lambda>bids.
     guard_res (crossed bids asks) (mk_error invalid_orderbook ''best bid must be below best ask'' ''data'') (
     bind_res (convert_last_settled (br_string rd) wire prec limits
         \<lparr>ob_market_id = market, ob_update_timestamp_ms = ts, ob_decimal_precision = prec,
          ob_yes_bids = bids, ob_yes_asks = asks, ob_order_count = wo_order_count wire,
          ob_last_order_settled = None, ob_settlements_pending = None, ob_settlement_levels_pending = None\<rparr>)
       (convert_pending rd wire prec limits)))))))))"

definition parse_wire ::
  "(string \<Rightarrow> string + 'w) \<Rightarrow> error \<Rightarrow> string \<Rightarrow> decode_limits \<Rightarrow> 'w result" where
  "parse_wire read too_large json limits =
     (if length json > dl_max_body_bytes limits then Inl too_large
      else case read json of
             Inl message \<Rightarrow> Inl (mk_error malformed_json message '''')
           | Inr wire \<Rightarrow> Inr wire)"

definition body_error :: error where
  "body_error = mk_error body_too_large ''JSON body exceeds configured limit'' ''''"

definition decode_orderbook_response :: "book_reader \<Rightarrow> string \<Rightarrow> nat \<Rightarrow> decode_limits \<Rightarrow> orderbook result" where
  "decode_orderbook_response rd json prec limits =
     guard_res (prec > max_scale)
       (mk_error unsupported_precision ''book precision exceeds 18 digits'' ''decimalPrecision'') (
     bind_res (parse_wire (br_orderbook_response rd) body_error json limits) (\<lambda>response.
     require (wr_success response) (missing ''success'') (\<lambda>success.
     guard_res (\<not> success) (mk_error venue_rejected ''Predict.fun returned success=false'' ''success'') (
     require (wr_data response) (missing ''data'') (\<lambda>data.
       convert_orderbook rd data prec limits)))))"

definition decode_orderbook_payload :: "book_reader \<Rightarrow> string \<Rightarrow> nat \<Rightarrow> decode_limits \<Rightarrow> orderbook result" where
  "decode_orderbook_payload rd json prec limits =
     guard_res (prec > max_scale)
       (mk_error unsupported_precision ''book precision exceeds 18 digits'' ''decimalPrecision'') (
     bind_res (parse_wire (br_orderbook rd) body_error json limits) (\<lambda>wire.
       convert_orderbook rd wire prec limits))"

section \<open>Decoded levels\<close>

lemma require_eq_Inr [res_simps]: "require x e f = Inr y \<longleftrightarrow> (\<exists>v. x = Some v \<and> f v = Inr y)"
  by (cases x) (auto simp: require_def)

lemma require_Some [simp]: "require (Some v) e f = f v"
  by (simp add: require_def)

lemma optional_part_eq_Inr [res_simps]:
  "optional_part x f = Inr y \<longleftrightarrow> (x = None \<and> y = None) \<or> (\<exists>v w. x = Some v \<and> f v = Inr w \<and> y = Some w)"
  by (cases x) (auto simp: optional_part_def res_simps)

lemma with_field_Inr [simp]: "with_field f r = Inr x \<longleftrightarrow> r = Inr x"
  by (cases r) (auto simp: with_field_def)

lemma parse_wire_eq_Inr [res_simps]:
  "parse_wire read e json limits = Inr w \<longleftrightarrow> length json \<le> dl_max_body_bytes limits \<and> read json = Inr w"
  by (cases "read json") (auto simp: parse_wire_def)

abbreviation level_ticks :: "price_level \<Rightarrow> nat" where
  "level_ticks l \<equiv> pr_ticks (pl_price l)"

definition level_good :: "nat \<Rightarrow> price_level \<Rightarrow> bool" where
  "level_good prec l \<longleftrightarrow> price_wf (pl_price l) \<and> pr_precision (pl_price l) = prec \<and>
     fd_wf (pl_quantity l) \<and> 0 < fd_units (pl_quantity l)"

text \<open>The level that a pair of the wire denotes.\<close>

definition denotes_level :: "(string \<Rightarrow> string option) \<Rightarrow> nat \<Rightarrow> raw_json \<times> raw_json \<Rightarrow> price_level \<Rightarrow> bool" where
  "denotes_level read prec w l \<longleftrightarrow> price_parse (unquote_raw read (fst w)) prec = Inr (pl_price l) \<and>
     fixed_decimal_parse (unquote_raw read (snd w)) = Inr (pl_quantity l)"

text \<open>The total quantity offered at a price.\<close>

definition depth_at :: "nat \<Rightarrow> price_level list \<Rightarrow> rat" where
  "depth_at t ls = sum_list (map (\<lambda>l. if level_ticks l = t then fd_value (pl_quantity l) else 0) ls)"

lemma depth_at_simps [simp]: "depth_at t [] = 0"
  "depth_at t (l # ls) = (if level_ticks l = t then fd_value (pl_quantity l) else 0) + depth_at t ls"
  "depth_at t (ls @ ms) = depth_at t ls + depth_at t ms"
  by (simp_all add: depth_at_def)

lemma depth_at_rev [simp]: "depth_at t (rev ls) = depth_at t ls"
  by (induction ls) simp_all

lemma depth_at_mset: "mset ls = mset ms \<Longrightarrow> depth_at t ls = depth_at t ms"
  unfolding depth_at_def by (simp add: mset_map flip: sum_mset_sum_list)

lemma price_parse_wf: "price_parse s prec = Inr p \<Longrightarrow> price_wf p \<and> pr_precision p = prec"
  by (auto simp: price_parse_iff price_from_ticks_iff price_wf_def)

lemma convert_level_spec:
  "convert_level read w prec field = Inr l \<Longrightarrow> level_good prec l \<and> denotes_level read prec w l"
  by (auto simp: convert_level_def parse_price_raw_def parse_decimal_raw_def res_simps level_good_def
      denotes_level_def dest: price_parse_wf fixed_decimal_parse_wf)

lemma convert_level_list_spec:
  "convert_level_list read prec field i wire = Inr ls \<Longrightarrow>
   list_all (level_good prec) ls \<and> list_all2 (denotes_level read prec) wire ls"
  by (induction wire arbitrary: i ls) (auto simp: res_simps dest: convert_level_spec)

section \<open>Aggregation\<close>

definition side_key :: "bool \<Rightarrow> price_level \<Rightarrow> int" where
  "side_key ascending l = (if ascending then int (level_ticks l) else - int (level_ticks l))"

lemma side_key_eq: "side_key a l = side_key a m \<longleftrightarrow> level_ticks l = level_ticks m"
  by (simp add: side_key_def)

lemma merged_level:
  assumes "level_good prec l" and "level_good prec m"
    and "rescale_exact (pl_quantity l) s = Inr x" and "rescale_exact (pl_quantity m) s = Inr y"
    and "\<not> fd_units y > u64_max - fd_units x" and "s \<le> max_scale"
  defines "lm \<equiv> l\<lparr>pl_quantity := \<lparr>fd_units = fd_units x + fd_units y, fd_scale = s\<rparr>\<rparr>"
  shows "level_good prec lm" and "fd_value (pl_quantity lm) = fd_value (pl_quantity l) + fd_value (pl_quantity m)"
proof -
  have x: "fd_scale x = s" "fd_units x < 2 ^ 64" "fd_value x = fd_value (pl_quantity l)"
    and y: "fd_scale y = s" "fd_value y = fd_value (pl_quantity m)"
    using assms by (auto simp: level_good_def rescale_exact_spec)
  show "fd_value (pl_quantity lm) = fd_value (pl_quantity l) + fd_value (pl_quantity m)"
    using x y unfolding lm_def by (simp add: fd_value_def add_divide_distrib flip: x(3) y(2))
  have "fd_value x \<noteq> 0"
    using assms(1) unfolding x(3) by (simp add: fd_value_def level_good_def)
  then have "0 < fd_units x"
    by (simp add: fd_value_def)
  then show "level_good prec lm"
    using assms(1,5,6) x(2) by (simp add: level_good_def lm_def fd_wf_def u64_max_def)
qed

lemma normalize_levels_spec:
  assumes "normalize_levels field acc ls = Inr out" and "list_all (level_good prec) (acc @ ls)"
    and "sorted (map (side_key a) (rev acc @ ls))" and "sorted_wrt (<) (map (side_key a) (rev acc))"
  shows "list_all (level_good prec) out \<and> sorted_wrt (<) (map (side_key a) out) \<and>
    length out \<le> length acc + length ls \<and> (\<forall>t. depth_at t out = depth_at t (acc @ ls))"
  using assms
proof (induction field acc ls rule: normalize_levels.induct)
  case (1 field acc)
  then show ?case
    by (auto simp: list_all_iff)
next
  case (2 field level levels)
  then show ?case
    by auto
next
  case (3 field prev acc level levels)
  show ?case
  proof (cases "level_ticks prev = level_ticks level")
    case False
    have "\<forall>x\<in>set (rev acc). side_key a x \<le> side_key a level" "side_key a prev \<le> side_key a level"
      using "3.prems"(3) by (auto simp: sorted_append)
    moreover have "\<forall>x\<in>set (rev acc). side_key a x < side_key a prev"
      using "3.prems"(4) by (auto simp: sorted_wrt_append)
    ultimately have "sorted_wrt (<) (map (side_key a) (rev (level # prev # acc)))"
      using "3.prems"(4) side_key_eq [of a prev level] False by (fastforce simp: sorted_wrt_append)
    then show ?thesis
      using "3.IH"(1) "3.prems" False by (auto simp: algebra_simps)
  next
    case True
    define s where "s = max (fd_scale (pl_quantity prev)) (fd_scale (pl_quantity level))"
    obtain x y where xy: "rescale_exact (pl_quantity prev) s = Inr x" "rescale_exact (pl_quantity level) s = Inr y"
      and small: "\<not> fd_units y > u64_max - fd_units x"
      using "3.prems"(1) True by (auto simp: s_def [symmetric] Let_def split: sum.splits if_splits)
    define m where "m = prev\<lparr>pl_quantity := \<lparr>fd_units = fd_units x + fd_units y, fd_scale = s\<rparr>\<rparr>"
    have good: "level_good prec prev" "level_good prec level" and "s \<le> max_scale"
      using "3.prems"(2) by (auto simp: s_def level_good_def fd_wf_def)
    note merged = merged_level [OF good xy small this(3), folded m_def]
    have key: "side_key a m = side_key a prev" "level_ticks m = level_ticks prev"
      by (simp_all add: m_def side_key_def)
    have "normalize_levels field (m # acc) levels = Inr out"
      using "3.prems"(1) True xy small by (simp add: s_def [symmetric] Let_def m_def)
    moreover have "sorted (map (side_key a) (rev (m # acc) @ levels))" "sorted_wrt (<) (map (side_key a) (rev (m # acc)))"
      using "3.prems"(3,4) by (auto simp: key sorted_append sorted_wrt_append)
    moreover have "list_all (level_good prec) ((m # acc) @ levels)"
      using "3.prems"(2) merged(1) by simp
    ultimately have "list_all (level_good prec) out \<and> sorted_wrt (<) (map (side_key a) out) \<and>
      length out \<le> length (m # acc) + length levels \<and> (\<forall>t. depth_at t out = depth_at t ((m # acc) @ levels))"
      using "3.IH"(2) [OF _ s_def] True xy small unfolding m_def by simp
    then show ?thesis
      using merged(2) True by (simp add: key algebra_simps)
  qed
qed

section \<open>Decoded books\<close>

text \<open>
  A side of a decoded book against the pairs it was read from: the levels are well formed, strictly
  sorted best to worst (so no price occurs twice), at most as many as allowed, and every price has
  exactly the total quantity of its pairs.
\<close>

definition side_exact ::
  "(string \<Rightarrow> string option) \<Rightarrow> nat \<Rightarrow> decode_limits \<Rightarrow> bool \<Rightarrow> (raw_json \<times> raw_json) list \<Rightarrow> price_level list \<Rightarrow> bool" where
  "side_exact read prec limits ascending wire out \<longleftrightarrow>
     list_all (level_good prec) out \<and> sorted_wrt (<) (map (side_key ascending) out) \<and>
     length out \<le> dl_max_book_levels_per_side limits \<and>
     (\<exists>ls. list_all2 (denotes_level read prec) wire ls \<and> (\<forall>t. depth_at t out = depth_at t ls))"

lemma convert_levels_exact:
  assumes "convert_levels read wire prec limits a field = Inr out"
  shows "side_exact read prec limits a wire out"
proof -
  obtain ls where ls: "convert_level_list read prec field 0 wire = Inr ls"
    and norm: "normalize_levels field [] (sort_levels a ls) = Inr out" and len: "length wire \<le> dl_max_book_levels_per_side limits"
    using assms by (auto simp: convert_levels_def res_simps)
  note good = convert_level_list_spec [OF ls]
  have key: "side_key a = (\<lambda>l. if a then int (level_ticks l) else - int (level_ticks l))"
    by (simp add: fun_eq_iff side_key_def)
  have "list_all (level_good prec) (sort_levels a ls)" "sorted (map (side_key a) (sort_levels a ls))"
    using good by (auto simp: sort_levels_def key list_all_iff)
  from normalize_levels_spec [OF norm, of prec a] this have
    "list_all (level_good prec) out \<and> sorted_wrt (<) (map (side_key a) out) \<and>
     length out \<le> length (sort_levels a ls) \<and> (\<forall>t. depth_at t out = depth_at t (sort_levels a ls))"
    by simp
  moreover have "depth_at t (sort_levels a ls) = depth_at t ls" for t
    by (rule depth_at_mset) (simp add: sort_levels_def)
  moreover have "length ls = length wire"
    using good by (metis list_all2_lengthD)
  ultimately show ?thesis
    using good len by (auto simp: side_exact_def sort_levels_def)
qed

lemma convert_last_settled_book:
  "convert_last_settled read wire prec limits b = Inr b' \<Longrightarrow>
   ob_yes_bids b' = ob_yes_bids b \<and> ob_yes_asks b' = ob_yes_asks b \<and> ob_market_id b' = ob_market_id b \<and>
   ob_update_timestamp_ms b' = ob_update_timestamp_ms b \<and> ob_decimal_precision b' = ob_decimal_precision b \<and>
   (\<forall>s. ob_last_order_settled b' = Some s \<longrightarrow> ob_last_order_settled b = Some s \<or> lo_market_id s = ob_market_id b)"
  by (auto simp: convert_last_settled_def res_simps split: option.splits)

lemma convert_pending_book:
  "convert_pending rd wire prec limits b = Inr b' \<Longrightarrow>
   ob_yes_bids b' = ob_yes_bids b \<and> ob_yes_asks b' = ob_yes_asks b \<and> ob_market_id b' = ob_market_id b \<and>
   ob_update_timestamp_ms b' = ob_update_timestamp_ms b \<and> ob_decimal_precision b' = ob_decimal_precision b \<and>
   ob_last_order_settled b' = ob_last_order_settled b"
  by (auto simp: convert_pending_def res_simps split: option.splits sum.splits)

lemma convert_orderbook_spec:
  assumes "convert_orderbook rd wire prec limits = Inr b"
  obtains asks bids where "wo_asks wire = Some asks" "wo_bids wire = Some bids"
    "side_exact (br_string rd) prec limits True asks (ob_yes_asks b)"
    "side_exact (br_string rd) prec limits False bids (ob_yes_bids b)"
    "wo_market_id wire = Some (ob_market_id b)" "wo_update_timestamp_ms wire = Some (ob_update_timestamp_ms b)"
    "0 < ob_update_timestamp_ms b" "ob_decimal_precision b = prec" "\<not> crossed (ob_yes_bids b) (ob_yes_asks b)"
    "\<forall>s. ob_last_order_settled b = Some s \<longrightarrow> lo_market_id s = ob_market_id b"
proof -
  obtain market ts wa wb asks bids b1 where
    w: "wo_market_id wire = Some market" "wo_update_timestamp_ms wire = Some ts" "wo_asks wire = Some wa" "wo_bids wire = Some wb"
    and ts: "0 < ts" and nc: "\<not> crossed bids asks"
    and lv: "convert_levels (br_string rd) wa prec limits True ''data.asks'' = Inr asks"
      "convert_levels (br_string rd) wb prec limits False ''data.bids'' = Inr bids"
    and b1: "convert_last_settled (br_string rd) wire prec limits
         \<lparr>ob_market_id = market, ob_update_timestamp_ms = ts, ob_decimal_precision = prec,
          ob_yes_bids = bids, ob_yes_asks = asks, ob_order_count = wo_order_count wire,
          ob_last_order_settled = None, ob_settlements_pending = None, ob_settlement_levels_pending = None\<rparr> = Inr b1"
    and b: "convert_pending rd wire prec limits b1 = Inr b"
    using assms unfolding convert_orderbook_def res_simps by auto
  note same = convert_last_settled_book [OF b1] convert_pending_book [OF b]
  show ?thesis
    by (rule that [OF w(3,4)]) (use same w ts nc lv [THEN convert_levels_exact] in simp_all)
qed

lemma side_exact_mono:
  assumes "side_exact read prec limits a wire (l # ls)" and "m \<in> set ls"
  shows "side_key a l < side_key a m"
  using assms by (auto simp: side_exact_def)

lemma not_crossed_all:
  assumes "side_exact r p li True wa asks" and "side_exact r' p' li' False wb bids" and "\<not> crossed bids asks"
    and "b \<in> set bids" and "a \<in> set asks"
  shows "level_ticks b < level_ticks a"
proof -
  obtain b0 bs a0 as where l: "bids = b0 # bs" "asks = a0 # as"
    using assms(4,5) by (cases bids; cases asks) auto
  have "level_ticks b \<le> level_ticks b0" "level_ticks a0 \<le> level_ticks a"
    using assms(1,2,4,5) side_exact_mono [of r p li True wa a0 as a] side_exact_mono [of r' p' li' False wb b0 bs b]
    by (auto simp: l side_key_def)
  then show ?thesis
    using assms(3) by (simp add: crossed_def l)
qed

text \<open>
  C32. Every order book that the decoder accepts is well formed: it has the market and the positive
  timestamp of the message, its sides are strictly sorted best to worst with well-formed prices at the
  requested precision and positive quantities, every price carries exactly the total quantity the
  message gives it (duplicates are added without rounding), no bid reaches an ask, the level limit
  holds, and the last settled order is one of the same market.
\<close>

theorem decoded_orderbook_exact:
  assumes "decode_orderbook_payload rd json prec limits = Inr b"
  shows "\<exists>wire asks bids. br_orderbook rd json = Inr wire \<and> wo_asks wire = Some asks \<and> wo_bids wire = Some bids \<and>
    side_exact (br_string rd) prec limits True asks (ob_yes_asks b) \<and>
    side_exact (br_string rd) prec limits False bids (ob_yes_bids b) \<and>
    (\<forall>x\<in>set (ob_yes_bids b). \<forall>y\<in>set (ob_yes_asks b). level_ticks x < level_ticks y) \<and>
    wo_market_id wire = Some (ob_market_id b) \<and> wo_update_timestamp_ms wire = Some (ob_update_timestamp_ms b) \<and>
    0 < ob_update_timestamp_ms b \<and> prec \<le> max_scale \<and>
    (\<forall>s. ob_last_order_settled b = Some s \<longrightarrow> lo_market_id s = ob_market_id b)"
proof -
  obtain wire where w: "br_orderbook rd json = Inr wire" "prec \<le> max_scale" "convert_orderbook rd wire prec limits = Inr b"
    using assms by (auto simp: decode_orderbook_payload_def res_simps)
  from convert_orderbook_spec [OF w(3)] obtain asks bids where s: "wo_asks wire = Some asks" "wo_bids wire = Some bids"
    "side_exact (br_string rd) prec limits True asks (ob_yes_asks b)"
    "side_exact (br_string rd) prec limits False bids (ob_yes_bids b)"
    "wo_market_id wire = Some (ob_market_id b)" "wo_update_timestamp_ms wire = Some (ob_update_timestamp_ms b)"
    "0 < ob_update_timestamp_ms b" "\<not> crossed (ob_yes_bids b) (ob_yes_asks b)"
    "\<forall>s. ob_last_order_settled b = Some s \<longrightarrow> lo_market_id s = ob_market_id b"
    by metis
  with w not_crossed_all [OF s(3,4,8)] show ?thesis
    by blast
qed

definition sample_wire :: wire_orderbook where
  "sample_wire = \<lparr>wo_asks = Some [(''0.42'', ''3''), (''0.4'', ''1.5''), (''0.40'', ''2'')], wo_bids = Some [(''0.39'', ''10'')],
     wo_last_order_settled = None, wo_market_id = Some 7, wo_order_count = None, wo_settlements_pending = None,
     wo_update_timestamp_ms = Some 1700\<rparr>"

definition sample_reader :: book_reader where
  "sample_reader = \<lparr>br_string = (\<lambda>s. None), br_orderbook = (\<lambda>s. Inr sample_wire),
     br_orderbook_response = (\<lambda>s. Inr \<lparr>wr_data = Some sample_wire, wr_success = Some True\<rparr>),
     br_pending_levels = (\<lambda>s. Inl ''no levels'')\<rparr>"

definition cents_level :: "nat \<Rightarrow> nat \<Rightarrow> nat \<Rightarrow> price_level" where
  "cents_level t u s = \<lparr>pl_price = sample_price t, pl_quantity = \<lparr>fd_units = u, fd_scale = s\<rparr>\<rparr>"

definition sample_decoded :: orderbook where
  "sample_decoded = \<lparr>ob_market_id = 7, ob_update_timestamp_ms = 1700, ob_decimal_precision = 2,
     ob_yes_bids = [cents_level 39 10 0], ob_yes_asks = [cents_level 40 35 1, cents_level 42 3 0], ob_order_count = None,
     ob_last_order_settled = None, ob_settlements_pending = None, ob_settlement_levels_pending = None\<rparr>"

lemma sample_decodes: "decode_orderbook_payload sample_reader ''{}'' 2 default_limits = Inr sample_decoded"
  by code_simp

theorem decoded_orderbook_exact_witness:
  "decode_orderbook_payload sample_reader ''{}'' 2 default_limits = Inr sample_decoded \<and>
   (\<exists>wire asks. br_orderbook sample_reader ''{}'' = Inr wire \<and> wo_asks wire = Some asks \<and>
     side_exact (br_string sample_reader) 2 default_limits True asks (ob_yes_asks sample_decoded))"
  using decoded_orderbook_exact [OF sample_decodes] sample_decodes by blast

section \<open>Quotes on decoded books\<close>

lemma quantity_wei_wf:
  assumes "fd_wf q"
  shows "quantity_wei q = int (fd_units q) * 10 ^ (18 - fd_scale q)" and "quantity_wei q \<le> 2 ^ 64 * 10 ^ 18"
proof -
  have s: "fd_scale q \<le> 18" "fd_units q < 2 ^ 64"
    using assms by (auto simp: fd_wf_def max_scale_def)
  then have "(int max_scale - int (fd_scale q)) mod 256 = int (18 - fd_scale q)"
    by (simp add: max_scale_def of_nat_diff)
  then show eq: "quantity_wei q = int (fd_units q) * 10 ^ (18 - fd_scale q)"
    by (simp add: quantity_wei_def)
  have "int (fd_units q) \<le> 2 ^ 64" "(10 :: int) ^ (18 - fd_scale q) \<le> 10 ^ 18"
    using s by (simp, intro power_increasing) simp_all
  then show "quantity_wei q \<le> 2 ^ 64 * 10 ^ 18"
    unfolding eq by (intro mult_mono) simp_all
qed

lemma price_wei_le_iff:
  assumes "price_wf p" and "price_wf q" and "pr_precision p = pr_precision q"
  shows "price_wei p \<le> price_wei q \<longleftrightarrow> pr_ticks p \<le> pr_ticks q"
  using assms by (simp add: price_wei_scaled)

lemma good_levels_ok:
  assumes "list_all (level_good prec) ls" and "\<forall>l\<in>set ls. 0 < level_ticks l \<and> level_ticks l < 10 ^ prec"
  shows "book_levels_ok ls" and "list_all rung_ok (map rung ls)"
    and "liquidity (map rung ls) \<le> int (length ls) * (2 ^ 64 * 10 ^ 18)"
proof -
  have l: "price_wf (pl_price l) \<and> 0 < level_ticks l \<and> level_ticks l < pr_tick_scale (pl_price l) \<and>
      0 < quantity_wei (pl_quantity l) \<and> quantity_wei (pl_quantity l) \<le> 2 ^ 64 * 10 ^ 18" if "l \<in> set ls" for l
    using that assms quantity_wei_wf [of "pl_quantity l"] by (auto simp: list_all_iff level_good_def price_wf_def)
  then show "book_levels_ok ls"
    by (simp add: book_levels_ok_def list_all_iff)
  have "rung_ok (rung l)" if "l \<in> set ls" for l
  proof -
    have "0 < price_wei (pl_price l)" "price_wei (pl_price l) \<le> protocol_scale"
      using l [OF that] unfolding price_wei_scaled [OF l [OF that, THEN conjunct1]] by simp_all
    then show ?thesis
      using l [OF that] by (simp add: rung_ok_def rung_def)
  qed
  then show "list_all rung_ok (map rung ls)"
    by (simp add: list_all_iff)
  show "liquidity (map rung ls) \<le> int (length ls) * (2 ^ 64 * 10 ^ 18)"
  proof -
    have "\<forall>l\<in>set ls. quantity_wei (pl_quantity l) \<le> 2 ^ 64 * 10 ^ 18"
      using l by blast
    then show ?thesis
      by (induction ls) (auto simp: rung_def distrib_right)
  qed
qed

lemma sorted_rungs:
  assumes "list_all (level_good prec) ls" and "sorted_wrt (<) (map (side_key a) ls)"
  shows "sorted_wrt (if a then (\<le>) else (\<ge>)) (map fst (map rung ls))"
proof -
  have "sorted_wrt (\<lambda>x y. side_key a x < side_key a y) ls"
    using assms(2) by (simp add: sorted_wrt_map)
  then have "sorted_wrt (\<lambda>x y. if a then price_wei (pl_price x) \<le> price_wei (pl_price y)
      else price_wei (pl_price x) \<ge> price_wei (pl_price y)) ls"
  proof (rule sorted_wrt_mono_rel [rotated])
    fix x y
    assume "x \<in> set ls" "y \<in> set ls" "side_key a x < side_key a y"
    then show "if a then price_wei (pl_price x) \<le> price_wei (pl_price y) else price_wei (pl_price x) \<ge> price_wei (pl_price y)"
      using assms(1) price_wei_le_iff [of "pl_price x" "pl_price y"] price_wei_le_iff [of "pl_price y" "pl_price x"]
      by (auto simp: side_key_def list_all_iff level_good_def)
  qed
  then show ?thesis
    by (cases a) (simp_all add: sorted_wrt_map rung_def)
qed

text \<open>
  What the quotes need of a decoded book whose prices are strictly between zero and one, as the sizes of
  its ladders fit a \<^verbatim>\<open>std::size_t\<close>.
\<close>

lemma decoded_book_quotable:
  assumes "decode_orderbook_payload rd json prec limits = Inr b" and "dl_max_book_levels_per_side limits < 2 ^ 64"
    and "\<forall>l\<in>set (ob_yes_bids b) \<union> set (ob_yes_asks b). 0 < level_ticks l \<and> level_ticks l < 10 ^ prec"
  shows "book_levels_ok (ob_yes_bids b)" and "book_levels_ok (ob_yes_asks b)"
    and "bids_valid (ob_yes_bids b)" and "asks_valid (ob_yes_asks b)" and "uncrossed (ob_yes_bids b) (ob_yes_asks b)"
    and "liquidity (map rung (ob_yes_asks b)) < 2 ^ 256" and "liquidity (map rung (ob_yes_bids b)) < 2 ^ 256"
proof -
  obtain wire where c: "convert_orderbook rd wire prec limits = Inr b"
    using assms(1) by (auto simp: decode_orderbook_payload_def res_simps)
  from convert_orderbook_spec [OF c] obtain asks bids where
    s: "side_exact (br_string rd) prec limits True asks (ob_yes_asks b)"
      "side_exact (br_string rd) prec limits False bids (ob_yes_bids b)" and
    nc: "\<not> crossed (ob_yes_bids b) (ob_yes_asks b)"
    by metis
  have good: "list_all (level_good prec) (ob_yes_asks b)" "list_all (level_good prec) (ob_yes_bids b)"
    and len: "length (ob_yes_asks b) < 2 ^ 64" "length (ob_yes_bids b) < 2 ^ 64"
    using s assms(2) by (auto simp: side_exact_def)
  note asks = good_levels_ok [OF good(1)] and bids = good_levels_ok [OF good(2)]
  show "book_levels_ok (ob_yes_bids b)" "book_levels_ok (ob_yes_asks b)"
    using asks(1) bids(1) assms(3) by auto
  show "bids_valid (ob_yes_bids b)" "asks_valid (ob_yes_asks b)"
    using asks(2) bids(2) assms(3) sorted_rungs [OF good(1), of True] sorted_rungs [OF good(2), of False] s
    by (auto simp: bids_valid_def asks_valid_def side_exact_def)
  have "price_wei (pl_price x) \<le> price_wei (pl_price y)" if "x \<in> set (ob_yes_bids b)" "y \<in> set (ob_yes_asks b)" for x y
    using not_crossed_all [OF s nc that] good that price_wei_le_iff [of "pl_price x" "pl_price y"]
    by (auto simp: list_all_iff level_good_def)
  then show "uncrossed (ob_yes_bids b) (ob_yes_asks b)"
    by (simp add: uncrossed_def)
  have "int n * (2 ^ 64 * 10 ^ 18) < 2 ^ 256" if "n < 2 ^ 64" for n :: nat
  proof -
    have "int n * (2 ^ 64 * 10 ^ 18) \<le> 2 ^ 64 * (2 ^ 64 * 10 ^ 18)"
      using that by (intro mult_right_mono) simp_all
    then show ?thesis by simp
  qed
  then show "liquidity (map rung (ob_yes_asks b)) < 2 ^ 256" "liquidity (map rung (ob_yes_bids b)) < 2 ^ 256"
    using asks(3) bids(3) len assms(3) by (auto intro: le_less_trans)
qed

end
