(* ===== verification/Ws_Codec.thy ===== *)
theory Ws_Codec
  imports Book_Codec
begin

text \<open>
  The public WebSocket codec (\<^verbatim>\<open>src/websocket_codec.cpp\<close>, \<^verbatim>\<open>types/websocket.hpp\<close>): topic names, the
  encoding of requests, and the decoding of frames. The reads of the JSON package are the fields of
  \<open>ws_reader\<close>, on top of the order-book reads; everything after them is the code of the file.
\<close>

section \<open>Data\<close>

datatype public_topic_kind = topic_orderbook | topic_trading_status | topic_market_status | topic_market_changed
  | topic_category_changed

record public_topic =
  pt_kind :: public_topic_kind
  pt_parameter :: nat
  pt_decimal_precision :: "nat option"

datatype trading_status = trading_open | trading_matching_not_enabled | trading_cancel_only | trading_closed | trading_unknown

datatype market_status = market_registered | market_price_proposed | market_price_disputed | market_paused
  | market_unpaused | market_open | market_resolving | market_resolved | market_removed | market_unknown

record subscription_error =
  se_code :: string
  se_message :: string

record subscription_response =
  sr_request_id :: int
  sr_success :: bool
  sr_error :: "subscription_error option"

record market_status_outcome =
  mo_label :: string
  mo_price :: price
  mo_index_set :: nat
  mo_on_chain_id :: string

record market_status_message =
  mm_timestamp_ms :: int
  mm_market_id :: nat
  mm_status :: "market_status enum_value"
  mm_outcomes :: "market_status_outcome list"

text \<open>The variant \<^verbatim>\<open>PublicWsMessage\<close>; short structures are constructor arguments in field order.\<close>

datatype public_ws_message =
    Ws_Response subscription_response
  | Ws_Heartbeat int
  | Ws_Orderbook nat orderbook
  | Ws_Trading_Status int nat "trading_status enum_value"
  | Ws_Market_Status market_status_message
  | Ws_Market_Changed int nat "string option"
  | Ws_Category_Changed int nat string "string option"
  | Ws_Unknown string

record wire_response_error =
  we_code :: "string option"
  we_message :: "string option"

record wire_envelope =
  wv_type :: "string option"
  wv_request_id :: "int option"
  wv_success :: "bool option"
  wv_error :: "wire_response_error option"
  wv_topic :: "string option"
  wv_data :: "raw_json option"

record wire_trading_status =
  wt_kind :: "string option"
  wt_ts_ms :: "raw_json option"
  wt_market_id :: "nat option"
  wt_trading_status :: "string option"

record wire_status_outcome =
  wso_label :: "string option"
  wso_price :: "raw_json option"
  wso_index_set :: "nat option"
  wso_on_chain_id :: "string option"

record wire_market_status =
  wm_kind :: "string option"
  wm_ts_ms :: "raw_json option"
  wm_market_id :: "nat option"
  wm_status :: "string option"
  wm_outcomes :: "wire_status_outcome list option"

record wire_market_changed =
  wmc_kind :: "string option"
  wmc_patch_kind :: "string option"
  wmc_ts_ms :: "raw_json option"
  wmc_market_id :: "nat option"

record wire_category_changed =
  wcc_kind :: "string option"
  wcc_patch_kind :: "string option"
  wcc_ts_ms :: "raw_json option"
  wcc_category_id :: "nat option"
  wcc_slug :: "string option"

record ws_reader =
  wsr_book :: book_reader
  wsr_envelope :: "string \<Rightarrow> string + wire_envelope"
  wsr_int64 :: "string \<Rightarrow> int option"
  wsr_version :: "string \<Rightarrow> string + nat option"
  wsr_trading_status :: "string \<Rightarrow> string + wire_trading_status"
  wsr_market_status :: "string \<Rightarrow> string + wire_market_status"
  wsr_market_changed :: "string \<Rightarrow> string + wire_market_changed"
  wsr_category_changed :: "string \<Rightarrow> string + wire_category_changed"

section \<open>Topics and requests\<close>

definition topic_prefix :: "public_topic_kind \<Rightarrow> string" where
  "topic_prefix k = (case k of topic_orderbook \<Rightarrow> ''predictOrderbook/'' | topic_trading_status \<Rightarrow> ''predictTradingStatus/''
     | topic_market_status \<Rightarrow> ''predictMarketStatus/'' | topic_market_changed \<Rightarrow> ''predictMarketChanged/''
     | topic_category_changed \<Rightarrow> ''predictCategoryChanged/'')"

definition public_topic_name :: "public_topic \<Rightarrow> string result" where
  "public_topic_name topic =
     (if pt_parameter topic = 0 then Inl (invalid ''topic parameter must be positive'' ''topic.parameter'')
      else if pt_kind topic = topic_orderbook \<and>
          (case pt_decimal_precision topic of None \<Rightarrow> True | Some p \<Rightarrow> p > max_scale)
      then Inl (mk_error unsupported_precision ''orderbook topic requires a supported decimal precision''
                  ''topic.decimal_precision'')
      else Inr (topic_prefix (pt_kind topic) @ to_string (pt_parameter topic)))"

definition encode_topic_request :: "string \<Rightarrow> nat \<Rightarrow> public_topic \<Rightarrow> string result" where
  "encode_topic_request method request_id topic =
     bind_res (public_topic_name topic) (\<lambda>name.
     guard_res (request_id > 2 ^ 63 - 1) (invalid ''request id exceeds signed 64-bit range'' ''requestId'')
       (Inr (''{'' @ jq ''method'' @ '':'' @ jq method @ '','' @ jq ''requestId'' @ '':'' @ to_string request_id @ '','' @
             jq ''params'' @ '':['' @ jq name @ '']}'')))"

definition encode_subscribe_request :: "nat \<Rightarrow> public_topic \<Rightarrow> string result" where
  "encode_subscribe_request request_id topic = encode_topic_request ''subscribe'' request_id topic"

definition encode_unsubscribe_request :: "nat \<Rightarrow> public_topic \<Rightarrow> string result" where
  "encode_unsubscribe_request request_id topic = encode_topic_request ''unsubscribe'' request_id topic"

definition encode_heartbeat_response :: "int \<Rightarrow> string result" where
  "encode_heartbeat_response timestamp_ms =
     guard_res (timestamp_ms \<le> 0) (invalid ''heartbeat timestamp must be positive'' ''data'')
       (Inr (''{'' @ jq ''method'' @ '':'' @ jq ''heartbeat'' @ '','' @ jq ''data'' @ '':'' @ int_to_string timestamp_ms @ ''}''))"

section \<open>Decoding\<close>

definition frame_error :: error where
  "frame_error = mk_error websocket_frame_too_large ''WebSocket frame exceeds configured limit'' ''''"

definition decimal_lexeme :: "raw_json \<Rightarrow> string" where
  "decimal_lexeme raw = (if quoted raw then butlast (tl raw) else raw)"

definition exact_int64 :: "raw_json \<Rightarrow> string \<Rightarrow> int result" where
  "exact_int64 raw field =
     (let lexeme = decimal_lexeme raw;
          whole = takeWhile (\<lambda>c. c \<noteq> CHR ''.'') lexeme;
          fraction = drop (Suc (length whole)) lexeme;
          parse = (\<lambda>s. case from_chars_int (- (2 ^ 63)) (2 ^ 63 - 1) s of
             Some (v, []) \<Rightarrow> Inr v
           | _ \<Rightarrow> Inl (invalid ''timestamp is outside the signed 64-bit integer range'' field))
      in if CHR ''.'' \<in> set lexeme
         then if CHR ''e'' \<in> set fraction \<or> CHR ''E'' \<in> set fraction
              then Inl (invalid ''integer timestamp exponent is not supported'' field)
              else if fraction = [] \<or> \<not> list_all (\<lambda>c. c = CHR ''0'') fraction
              then Inl (invalid ''timestamp must be numerically integral'' field)
              else parse whole
         else parse lexeme)"

definition ws_trading_status :: "string \<Rightarrow> trading_status enum_value" where
  "ws_trading_status raw = \<lparr>ev_value =
     (if raw = ''OPEN'' then trading_open
      else if raw = ''MATCHING_NOT_ENABLED'' then trading_matching_not_enabled
      else if raw = ''CANCEL_ONLY'' then trading_cancel_only
      else if raw = ''CLOSED'' then trading_closed else trading_unknown), ev_raw = raw\<rparr>"

definition ws_market_status :: "string \<Rightarrow> market_status enum_value" where
  "ws_market_status raw = \<lparr>ev_value =
     (if raw = ''REGISTERED'' then market_registered else if raw = ''OPEN'' then market_open
      else if raw = ''RESOLVING'' then market_resolving else if raw = ''RESOLVED'' then market_resolved
      else if raw = ''REMOVED'' then market_removed else market_unknown), ev_raw = raw\<rparr>"

definition topic_parameter :: "string \<Rightarrow> string \<Rightarrow> nat result" where
  "topic_parameter topic prefix =
     (if \<not> starts_with topic prefix then Inl (invalid ''topic prefix does not match payload'' ''topic'')
      else case from_chars_uint u64_max (drop (length prefix) topic) of
             Some (v, []) \<Rightarrow> if v = 0 then Inl (invalid ''topic parameter must be a positive integer'' ''topic'') else Inr v
           | _ \<Rightarrow> Inl (invalid ''topic parameter must be a positive integer'' ''topic''))"

definition decode_heartbeat :: "ws_reader \<Rightarrow> raw_json \<Rightarrow> public_ws_message result" where
  "decode_heartbeat rd raw =
     (case wsr_int64 rd raw of
        Some ts \<Rightarrow> if ts \<le> 0 then Inl (invalid ''heartbeat timestamp must be a positive integer'' ''data'')
                   else Inr (Ws_Heartbeat ts)
      | None \<Rightarrow> Inl (invalid ''heartbeat timestamp must be a positive integer'' ''data''))"

type_synonym precision_resolver = "nat \<Rightarrow> nat option"

definition decode_orderbook :: "ws_reader \<Rightarrow> string \<Rightarrow> raw_json \<Rightarrow> precision_resolver \<Rightarrow> decode_limits \<Rightarrow> public_ws_message result" where
  "decode_orderbook rd topic raw precision_for limits =
     bind_res (topic_parameter topic (topic_prefix topic_orderbook)) (\<lambda>market.
     require (precision_for market)
       (mk_error unsupported_precision ''orderbook decimal precision is unavailable'' ''topic'') (\<lambda>prec.
     bind_res (decode_orderbook_payload (wsr_book rd) raw prec limits) (\<lambda>book.
     guard_res (ob_market_id book \<noteq> market) (invalid ''orderbook marketId does not match topic'' ''data.marketId'') (
     bind_res (parse_wire (wsr_version rd) frame_error raw limits) (\<lambda>version.
     require version (missing ''data.version'') (\<lambda>v. Inr (Ws_Orderbook v book)))))))"

definition decode_trading_status :: "ws_reader \<Rightarrow> string \<Rightarrow> raw_json \<Rightarrow> decode_limits \<Rightarrow> public_ws_message result" where
  "decode_trading_status rd topic raw limits =
     bind_res (topic_parameter topic (topic_prefix topic_trading_status)) (\<lambda>param.
     bind_res (parse_wire (wsr_trading_status rd) frame_error raw limits) (\<lambda>wire.
     require (wt_kind wire) (missing ''data.kind'') (\<lambda>kind.
     guard_res (kind \<noteq> ''tradingStatusUpdate'') (invalid ''unexpected trading status kind'' ''data.kind'') (
     require (wt_ts_ms wire) (missing ''data.tsMs'') (\<lambda>ts.
     require (wt_market_id wire) (missing ''data.marketId'') (\<lambda>market.
     require (wt_trading_status wire) (missing ''data.tradingStatus'') (\<lambda>status.
     bind_res (exact_int64 ts ''data.tsMs'') (\<lambda>timestamp.
     guard_res (timestamp \<le> 0 \<or> market \<noteq> param) (invalid ''trading status identity or timestamp is invalid'' ''data'')
       (Inr (Ws_Trading_Status timestamp market (ws_trading_status status)))))))))))"

definition decode_status_outcome ::
  "decode_limits \<Rightarrow> nat \<Rightarrow> wire_status_outcome \<Rightarrow> market_status_outcome result" where
  "decode_status_outcome limits prec wire =
     require (wso_label wire) (missing ''data.marketOutcomes[].label'') (\<lambda>label.
     require (wso_price wire) (missing ''data.marketOutcomes[].price'') (\<lambda>raw.
     require (wso_index_set wire) (missing ''data.marketOutcomes[].indexSet'') (\<lambda>index.
     require (wso_on_chain_id wire) (missing ''data.marketOutcomes[].onChainId'') (\<lambda>chain.
     guard_res (length label > dl_max_string_bytes limits \<or> length chain > dl_max_string_bytes limits)
       (invalid ''market outcome string exceeds configured limit'' ''data.marketOutcomes[]'') (
     bind_res (price_parse (decimal_lexeme raw) prec) (\<lambda>price.
       Inr \<lparr>mo_label = label, mo_price = price, mo_index_set = index, mo_on_chain_id = chain\<rparr>))))))"

fun decode_status_outcomes ::
  "decode_limits \<Rightarrow> nat \<Rightarrow> wire_status_outcome list \<Rightarrow> market_status_outcome list result" where
  "decode_status_outcomes limits prec [] = Inr []"
| "decode_status_outcomes limits prec (w # ws) =
     bind_res (decode_status_outcome limits prec w) (\<lambda>o1.
     bind_res (decode_status_outcomes limits prec ws) (\<lambda>os. Inr (o1 # os)))"

definition decode_market_status ::
  "ws_reader \<Rightarrow> string \<Rightarrow> raw_json \<Rightarrow> precision_resolver \<Rightarrow> decode_limits \<Rightarrow> public_ws_message result" where
  "decode_market_status rd topic raw precision_for limits =
     bind_res (topic_parameter topic (topic_prefix topic_market_status)) (\<lambda>param.
     bind_res (parse_wire (wsr_market_status rd) frame_error raw limits) (\<lambda>wire.
     require (wm_kind wire) (missing ''data.kind'') (\<lambda>kind.
     guard_res (kind \<noteq> ''marketStatusUpdate'') (invalid ''unexpected market status kind'' ''data.kind'') (
     require (wm_ts_ms wire) (missing ''data.tsMs'') (\<lambda>ts.
     require (wm_market_id wire) (missing ''data.marketId'') (\<lambda>market.
     require (wm_status wire) (missing ''data.status'') (\<lambda>status.
     bind_res (exact_int64 ts ''data.tsMs'') (\<lambda>timestamp.
     guard_res (timestamp \<le> 0 \<or> market \<noteq> param) (invalid ''market status identity or timestamp is invalid'' ''data'') (
     let message = \<lparr>mm_timestamp_ms = timestamp, mm_market_id = market, mm_status = ws_market_status status, mm_outcomes = []\<rparr> in
     case wm_outcomes wire of
       None \<Rightarrow> Inr (Ws_Market_Status message)
     | Some outcomes \<Rightarrow>
         guard_res (length outcomes > dl_max_outcomes_per_market limits)
           (mk_error too_many_items ''market status contains too many outcomes'' ''data.marketOutcomes'') (
         require (precision_for market)
           (mk_error unsupported_precision ''market status decimal precision is unavailable'' ''topic'') (\<lambda>prec.
         bind_res (decode_status_outcomes limits prec outcomes) (\<lambda>os.
           Inr (Ws_Market_Status (message\<lparr>mm_outcomes := os\<rparr>))))))))))))))"

definition decode_market_changed :: "ws_reader \<Rightarrow> string \<Rightarrow> raw_json \<Rightarrow> decode_limits \<Rightarrow> public_ws_message result" where
  "decode_market_changed rd topic raw limits =
     bind_res (topic_parameter topic (topic_prefix topic_market_changed)) (\<lambda>param.
     bind_res (parse_wire (wsr_market_changed rd) frame_error raw limits) (\<lambda>wire.
     guard_res (wmc_kind wire \<noteq> Some ''marketChanged'') (invalid ''unexpected market changed kind'' ''data.kind'') (
     require (wmc_ts_ms wire) (missing ''data.tsMs'') (\<lambda>ts.
     require (wmc_market_id wire) (missing ''data.marketId'') (\<lambda>market.
     bind_res (exact_int64 ts ''data.tsMs'') (\<lambda>timestamp.
     guard_res (timestamp \<le> 0 \<or> market \<noteq> param) (invalid ''market change identity or timestamp is invalid'' ''data'')
       (Inr (Ws_Market_Changed timestamp market (wmc_patch_kind wire)))))))))"

definition decode_category_changed :: "ws_reader \<Rightarrow> string \<Rightarrow> raw_json \<Rightarrow> decode_limits \<Rightarrow> public_ws_message result" where
  "decode_category_changed rd topic raw limits =
     bind_res (topic_parameter topic (topic_prefix topic_category_changed)) (\<lambda>param.
     bind_res (parse_wire (wsr_category_changed rd) frame_error raw limits) (\<lambda>wire.
     guard_res (wcc_kind wire \<noteq> Some ''categoryChanged'') (invalid ''unexpected category changed kind'' ''data.kind'') (
     require (wcc_ts_ms wire) (missing ''data.tsMs'') (\<lambda>ts.
     require (wcc_category_id wire) (missing ''data.categoryId'') (\<lambda>category.
     require (wcc_slug wire) (missing ''data.slug'') (\<lambda>slug.
     bind_res (exact_int64 ts ''data.tsMs'') (\<lambda>timestamp.
     guard_res (timestamp \<le> 0 \<or> category \<noteq> param) (invalid ''category change identity or timestamp is invalid'' ''data'') (
     guard_res (length slug > dl_max_string_bytes limits) (invalid ''category slug exceeds configured limit'' ''data.slug'')
       (Inr (Ws_Category_Changed timestamp category slug (wcc_patch_kind wire)))))))))))"

definition decode_subscription_response :: "wire_envelope \<Rightarrow> decode_limits \<Rightarrow> subscription_response result" where
  "decode_subscription_response wire limits =
     require (wv_request_id wire) (missing ''requestId'') (\<lambda>request_id.
     require (wv_success wire) (missing ''success'') (\<lambda>success.
     if success then Inr \<lparr>sr_request_id = request_id, sr_success = True, sr_error = None\<rparr>
     else
       require (wv_error wire) (missing ''error.code'') (\<lambda>err.
       require (we_code err) (missing ''error.code'') (\<lambda>code.
       guard_res (length code > dl_max_string_bytes limits \<or>
           (case we_message err of None \<Rightarrow> False | Some m \<Rightarrow> length m > dl_max_string_bytes limits))
         (invalid ''subscription error exceeds configured limit'' ''error'')
         (Inr \<lparr>sr_request_id = request_id, sr_success = False,
               sr_error = Some \<lparr>se_code = code, se_message = (case we_message err of None \<Rightarrow> [] | Some m \<Rightarrow> m)\<rparr>\<rparr>)))))"

text \<open>The part of \<^verbatim>\<open>decode_public_ws_frame\<close> that selects the decoder by the topic.\<close>

definition decode_topic_data ::
  "ws_reader \<Rightarrow> string \<Rightarrow> raw_json \<Rightarrow> precision_resolver \<Rightarrow> decode_limits \<Rightarrow> public_ws_message result" where
  "decode_topic_data rd topic raw precision_for limits =
     (if topic = ''heartbeat'' then decode_heartbeat rd raw
      else if starts_with topic (topic_prefix topic_orderbook) then decode_orderbook rd topic raw precision_for limits
      else if starts_with topic (topic_prefix topic_trading_status) then decode_trading_status rd topic raw limits
      else if starts_with topic (topic_prefix topic_market_status) then decode_market_status rd topic raw precision_for limits
      else if starts_with topic (topic_prefix topic_market_changed) then decode_market_changed rd topic raw limits
      else if starts_with topic (topic_prefix topic_category_changed) then decode_category_changed rd topic raw limits
      else Inr (Ws_Unknown topic))"

definition decode_public_ws_frame ::
  "ws_reader \<Rightarrow> string \<Rightarrow> precision_resolver \<Rightarrow> decode_limits \<Rightarrow> public_ws_message result" where
  "decode_public_ws_frame rd json precision_for limits =
     bind_res (parse_wire (wsr_envelope rd) frame_error json limits) (\<lambda>wire.
     require (wv_type wire) (missing ''type'') (\<lambda>ty.
     if ty = ''R'' then bind_res (decode_subscription_response wire limits) (\<lambda>r. Inr (Ws_Response r))
     else
       guard_res (ty \<noteq> ''M'') (invalid ''unknown WebSocket envelope type'' ''type'') (
       require (wv_topic wire) (missing ''topic'') (\<lambda>topic.
       require (wv_data wire) (missing ''data'') (\<lambda>raw.
       guard_res (length topic > dl_max_string_bytes limits) (invalid ''topic exceeds configured limit'' ''topic'')
         (decode_topic_data rd topic raw precision_for limits))))))"

section \<open>Topic names\<close>

lemma prefix_disjoint: "starts_with (topic_prefix k @ s) (topic_prefix k') \<longleftrightarrow> k' = k"
  by (cases k; cases k') (simp_all add: starts_with_def topic_prefix_def)

lemma topic_parameter_prefix:
  "topic_parameter (topic_prefix k @ s) (topic_prefix k) = Inr v \<longleftrightarrow>
     s \<noteq> [] \<and> list_all is_digit s \<and> v = digits_value s \<and> 0 < v \<and> v \<le> u64_max"
proof (cases "list_all is_digit s")
  case True
  then show ?thesis
    by (cases "s = []")
      (auto simp: topic_parameter_def prefix_disjoint from_chars_uint_digits from_chars_uint_def [of _ "[]"] split: if_splits)
next
  case False
  then have "dropWhile is_digit s \<noteq> []"
    by (simp add: dropWhile_Nil_iff del: dropWhile_eq_Nil_conv)
  with False show ?thesis
    by (auto simp: topic_parameter_def prefix_disjoint from_chars_uint_def Let_def simp del: dropWhile_eq_Nil_conv
        split: list.splits option.splits prod.splits if_splits)
qed

lemma topic_parameter_split:
  "topic_parameter t (topic_prefix k) = Inr v \<Longrightarrow> \<exists>s. t = topic_prefix k @ s"
  by (auto simp: topic_parameter_def starts_with_def split: if_splits) (metis append_take_drop_id)

text \<open>
  Topic names identify topics: the name of a topic is a valid topic of its own kind only, reading
  its parameter back gives the topic's parameter, and so two topics with one name have the same kind
  and parameter.
\<close>

theorem topic_name_round_trip:
  assumes "public_topic_name t = Inr n" and "pt_parameter t \<le> u64_max"
  shows "(\<forall>k v. topic_parameter n (topic_prefix k) = Inr v \<longleftrightarrow> k = pt_kind t \<and> v = pt_parameter t) \<and>
    (\<forall>t'. public_topic_name t' = Inr n \<longrightarrow> pt_kind t' = pt_kind t \<and> pt_parameter t' = pt_parameter t)"
proof -
  have name: "n = topic_prefix (pt_kind t) @ to_string (pt_parameter t)" "pt_parameter t \<noteq> 0"
    using assms(1) by (auto simp: public_topic_name_def split: if_splits)
  have "topic_parameter n (topic_prefix k) = Inr v \<longleftrightarrow> k = pt_kind t \<and> v = pt_parameter t" for k v
  proof (cases "k = pt_kind t")
    case True
    then show ?thesis
      using name assms(2) by (auto simp: topic_parameter_prefix)
  next
    case False
    then show ?thesis
      using name(1) by (simp add: topic_parameter_def prefix_disjoint)
  qed
  moreover have "pt_kind t' = pt_kind t \<and> pt_parameter t' = pt_parameter t" if "public_topic_name t' = Inr n" for t'
  proof -
    have n': "n = topic_prefix (pt_kind t') @ to_string (pt_parameter t')"
      using that by (auto simp: public_topic_name_def split: if_splits)
    then have "pt_kind t' = pt_kind t"
      using name(1) prefix_disjoint [of "pt_kind t" _ "pt_kind t'"] by (metis append_eq_conv_conj starts_with_def)
    then have "to_string (pt_parameter t') = to_string (pt_parameter t)"
      using name(1) n' by simp
    then show ?thesis
      using \<open>pt_kind t' = pt_kind t\<close> digits_value_to_string by metis
  qed
  ultimately show ?thesis
    by blast
qed

definition sample_topic :: public_topic where
  "sample_topic = \<lparr>pt_kind = topic_orderbook, pt_parameter = 7, pt_decimal_precision = Some 2\<rparr>"

lemma sample_topic_name: "public_topic_name sample_topic = Inr ''predictOrderbook/7''"
  by code_simp

theorem topic_name_round_trip_witness:
  "topic_parameter ''predictOrderbook/7'' (topic_prefix topic_orderbook) = Inr 7 \<and>
   topic_parameter ''predictOrderbook/7'' (topic_prefix topic_market_status) \<noteq> Inr 7"
  using topic_name_round_trip [OF sample_topic_name] by (auto simp: sample_topic_def u64_max_def)

section \<open>Decoded messages\<close>

definition message_identity :: "public_ws_message \<Rightarrow> (public_topic_kind \<times> nat \<times> int) option" where
  "message_identity m = (case m of
     Ws_Orderbook v b \<Rightarrow> Some (topic_orderbook, ob_market_id b, ob_update_timestamp_ms b)
   | Ws_Trading_Status ts i s \<Rightarrow> Some (topic_trading_status, i, ts)
   | Ws_Market_Status mm \<Rightarrow> Some (topic_market_status, mm_market_id mm, mm_timestamp_ms mm)
   | Ws_Market_Changed ts i p \<Rightarrow> Some (topic_market_changed, i, ts)
   | Ws_Category_Changed ts i s p \<Rightarrow> Some (topic_category_changed, i, ts)
   | _ \<Rightarrow> None)"

lemma decode_identity:
  "decode_orderbook rd t raw pf li = Inr m \<Longrightarrow>
     \<exists>i ts. message_identity m = Some (topic_orderbook, i, ts) \<and> 0 < ts \<and> topic_parameter t (topic_prefix topic_orderbook) = Inr i"
  "decode_trading_status rd t raw li = Inr m \<Longrightarrow>
     \<exists>i ts. message_identity m = Some (topic_trading_status, i, ts) \<and> 0 < ts \<and> topic_parameter t (topic_prefix topic_trading_status) = Inr i"
  "decode_market_status rd t raw pf li = Inr m \<Longrightarrow>
     \<exists>i ts. message_identity m = Some (topic_market_status, i, ts) \<and> 0 < ts \<and> topic_parameter t (topic_prefix topic_market_status) = Inr i"
  "decode_market_changed rd t raw li = Inr m \<Longrightarrow>
     \<exists>i ts. message_identity m = Some (topic_market_changed, i, ts) \<and> 0 < ts \<and> topic_parameter t (topic_prefix topic_market_changed) = Inr i"
  "decode_category_changed rd t raw li = Inr m \<Longrightarrow>
     \<exists>i ts. message_identity m = Some (topic_category_changed, i, ts) \<and> 0 < ts \<and> topic_parameter t (topic_prefix topic_category_changed) = Inr i"
proof -
  show "decode_orderbook rd t raw pf li = Inr m \<Longrightarrow>
     \<exists>i ts. message_identity m = Some (topic_orderbook, i, ts) \<and> 0 < ts \<and> topic_parameter t (topic_prefix topic_orderbook) = Inr i"
    by (auto simp: decode_orderbook_def res_simps message_identity_def decode_orderbook_payload_def
        elim!: convert_orderbook_spec)
qed (auto simp: decode_trading_status_def decode_market_status_def decode_market_changed_def decode_category_changed_def
    res_simps message_identity_def Let_def split: option.splits)

lemma decode_topic_data_identity:
  assumes "decode_topic_data rd topic raw pf limits = Inr m"
  shows "topic = ''heartbeat'' \<and> (\<exists>ts. m = Ws_Heartbeat ts \<and> 0 < ts) \<or>
    m = Ws_Unknown topic \<and> (\<forall>k. \<not> starts_with topic (topic_prefix k)) \<or>
    (\<exists>k i ts. message_identity m = Some (k, i, ts) \<and> 0 < ts \<and> topic_parameter topic (topic_prefix k) = Inr i)"
proof -
  have "\<forall>k. \<not> starts_with topic (topic_prefix k)" if "m = Ws_Unknown topic"
    "\<not> starts_with topic (topic_prefix topic_orderbook)" "\<not> starts_with topic (topic_prefix topic_trading_status)"
    "\<not> starts_with topic (topic_prefix topic_market_status)" "\<not> starts_with topic (topic_prefix topic_market_changed)"
    "\<not> starts_with topic (topic_prefix topic_category_changed)"
    using that by (metis public_topic_kind.exhaust)
  moreover have "decode_heartbeat rd raw = Inr m \<Longrightarrow> \<exists>ts. m = Ws_Heartbeat ts \<and> 0 < ts"
    by (auto simp: decode_heartbeat_def split: option.splits if_splits)
  ultimately show ?thesis
    using assms unfolding decode_topic_data_def by (auto split: if_splits dest!: decode_identity)
qed

text \<open>
  A decoded data message belongs to the topic its envelope names: its kind is the kind of the topic
  and its market or category is the topic's parameter, and it has a positive timestamp. Subscription
  responses and heartbeats carry no topic, and an unknown topic is reported as such.
\<close>

theorem ws_frame_identity:
  assumes "decode_public_ws_frame rd json pf limits = Inr m"
  shows "\<exists>wire. wsr_envelope rd json = Inr wire \<and>
    (case m of
       Ws_Response r \<Rightarrow> wv_type wire = Some ''R'' \<and> wv_request_id wire = Some (sr_request_id r) \<and>
         wv_success wire = Some (sr_success r) \<and> (sr_success r \<longleftrightarrow> sr_error r = None)
     | Ws_Heartbeat ts \<Rightarrow> wv_type wire = Some ''M'' \<and> wv_topic wire = Some ''heartbeat'' \<and> 0 < ts
     | Ws_Unknown t \<Rightarrow> wv_topic wire = Some t \<and> (\<forall>k. \<not> starts_with t (topic_prefix k))
     | _ \<Rightarrow> \<exists>k i ts t. message_identity m = Some (k, i, ts) \<and> 0 < ts \<and> wv_topic wire = Some t \<and>
         topic_parameter t (topic_prefix k) = Inr i)"
proof -
  obtain wire ty where w: "wsr_envelope rd json = Inr wire" "wv_type wire = Some ty" and rest:
    "(if ty = ''R'' then bind_res (decode_subscription_response wire limits) (\<lambda>r. Inr (Ws_Response r))
     else
       guard_res (ty \<noteq> ''M'') (invalid ''unknown WebSocket envelope type'' ''type'') (
       require (wv_topic wire) (missing ''topic'') (\<lambda>topic.
       require (wv_data wire) (missing ''data'') (\<lambda>raw.
       guard_res (length topic > dl_max_string_bytes limits) (invalid ''topic exceeds configured limit'' ''topic'')
         (decode_topic_data rd topic raw pf limits))))) = Inr m"
    using assms by (auto simp: decode_public_ws_frame_def res_simps)
  show ?thesis
  proof (cases "ty = ''R''")
    case True
    then show ?thesis
      using w rest by (auto simp: decode_subscription_response_def res_simps split: if_splits)
  next
    case False
    then obtain topic raw where t: "ty = ''M''" "wv_topic wire = Some topic" "decode_topic_data rd topic raw pf limits = Inr m"
      using rest by (auto simp: res_simps)
    from decode_topic_data_identity [OF t(3)] show ?thesis
      using w t(1,2) by (cases m) (auto simp: message_identity_def)
  qed
qed

definition sample_ws_reader :: ws_reader where
  "sample_ws_reader = \<lparr>wsr_book = sample_reader,
     wsr_envelope = (\<lambda>s. Inr \<lparr>wv_type = Some ''M'', wv_request_id = None, wv_success = None, wv_error = None,
       wv_topic = Some ''predictOrderbook/7'', wv_data = Some ''{}''\<rparr>),
     wsr_int64 = (\<lambda>s. None), wsr_version = (\<lambda>s. Inr (Some 1)), wsr_trading_status = (\<lambda>s. Inl s),
     wsr_market_status = (\<lambda>s. Inl s), wsr_market_changed = (\<lambda>s. Inl s), wsr_category_changed = (\<lambda>s. Inl s)\<rparr>"

lemma sample_frame_decodes:
  "decode_public_ws_frame sample_ws_reader ''{}'' (\<lambda>i. Some 2) default_limits = Inr (Ws_Orderbook 1 sample_decoded)"
  by code_simp

theorem ws_frame_identity_witness:
  "\<exists>t. topic_parameter t (topic_prefix topic_orderbook) = Inr 7 \<and>
     message_identity (Ws_Orderbook 1 sample_decoded) = Some (topic_orderbook, 7, 1700)"
  using ws_frame_identity [OF sample_frame_decodes] by (auto simp: message_identity_def sample_decoded_def)

end
