(* ===== verification/Wallet_Codec.thy ===== *)
theory Wallet_Codec
  imports Ws_Codec Lifecycle
begin

text \<open>
  The private WebSocket codec (\<^verbatim>\<open>src/private_websocket_codec.cpp\<close>): the wallet subscription request and
  the decoding of private frames into heartbeats, subscription responses and wallet events. The reads
  of the JSON package are the fields of \<open>wallet_reader\<close>; a failed read carries no text, as the code
  drops it.
\<close>

section \<open>Data\<close>

datatype private_ws_message = Pw_Response subscription_response | Pw_Heartbeat int | Pw_Event wallet_event

record wire_details =
  wdt_market_id :: "nat option"
  wdt_outcome_index :: "nat option"
  wdt_market_question :: "string option"
  wdt_outcome :: "string option"
  wdt_quote_type :: "string option"
  wdt_quantity :: "raw_json option"
  wdt_quantity_filled :: "raw_json option"
  wdt_price :: "raw_json option"
  wdt_value :: "raw_json option"
  wdt_value_filled :: "raw_json option"
  wdt_strategy_type :: "string option"
  wdt_category_slug :: "string option"

record wire_fill =
  wfl_price :: "raw_json option"
  wfl_size :: "raw_json option"
  wfl_value :: "raw_json option"

record wire_fee =
  wfe_amount :: "raw_json option"
  wfe_type :: "string option"

record wire_wallet_event =
  wwe_type :: "string option"
  wwe_order_id :: "raw_json option"
  wwe_order_hash :: "string option"
  wwe_wallet_address :: "string option"
  wwe_timestamp :: "raw_json option"
  wwe_details :: "wire_details option"
  wwe_reason :: "string option"
  wwe_kind :: "string option"
  wwe_settlement_id :: "raw_json option"
  wwe_fill :: "wire_fill option"
  wwe_is_maker :: "bool option"
  wwe_fee :: "wire_fee option"

record wallet_reader =
  war_envelope :: "string \<Rightarrow> wire_envelope option"
  war_int64 :: "string \<Rightarrow> int option"
  war_event :: "string \<Rightarrow> wire_wallet_event option"

section \<open>Scalars\<close>

definition parse_private_wire :: "(string \<Rightarrow> 'w option) \<Rightarrow> string \<Rightarrow> decode_limits \<Rightarrow> 'w result" where
  "parse_private_wire read json limits =
     (if length json > dl_max_body_bytes limits then Inl frame_error
      else case read json of
             None \<Rightarrow> Inl (mk_error malformed_json ''malformed private WebSocket frame'' '''')
           | Some wire \<Rightarrow> Inr wire)"

definition scalar_lexeme :: "raw_json \<Rightarrow> string" where
  "scalar_lexeme raw = (if quoted raw then butlast (tl raw) else raw)"

definition scalar_string :: "raw_json \<Rightarrow> string \<Rightarrow> decode_limits \<Rightarrow> string result" where
  "scalar_string raw field limits =
     (let value = scalar_lexeme raw in
      guard_res (value = [] \<or> length value > dl_max_string_bytes limits)
        (invalid ''scalar string is empty or exceeds configured limit'' field) (Inr value))"

definition positive_int64 :: "raw_json \<Rightarrow> string \<Rightarrow> int result" where
  "positive_int64 raw field =
     (case from_chars_int (- (2 ^ 63)) (2 ^ 63 - 1) (scalar_lexeme raw) of
        Some (v, []) \<Rightarrow> guard_res (v \<le> 0) (invalid ''timestamp must be a positive signed 64-bit integer'' field) (Inr v)
      | _ \<Rightarrow> Inl (invalid ''timestamp must be a positive signed 64-bit integer'' field))"

definition wire_decimal :: "raw_json option \<Rightarrow> string \<Rightarrow> exact_decimal result" where
  "wire_decimal raw field = require raw (missing field) (\<lambda>r. with_field field (exact_parse (scalar_lexeme r)))"

definition wire_uint256 :: "raw_json option \<Rightarrow> string \<Rightarrow> uint256 result" where
  "wire_uint256 raw field = require raw (missing field) (\<lambda>r. with_field field (uint256_parse (scalar_lexeme r)))"

section \<open>Enumerations\<close>

definition event_type :: "string \<Rightarrow> wallet_event_type enum_value" where
  "event_type raw = \<lparr>ev_value =
     (if raw = ''orderAccepted'' then order_accepted
      else if raw = ''orderNotAccepted'' then order_not_accepted
      else if raw = ''orderExpired'' then order_expired
      else if raw = ''orderCancelled'' then order_cancelled
      else if raw = ''orderTransactionSubmitted'' then order_transaction_submitted
      else if raw = ''orderTransactionSuccess'' then order_transaction_success
      else if raw = ''orderTransactionFailed'' then order_transaction_failed
      else wallet_event_unknown), ev_raw = raw\<rparr>"

definition event_outcome :: "string \<Rightarrow> wallet_outcome enum_value" where
  "event_outcome raw = \<lparr>ev_value = (if raw = ''YES'' then outcome_yes else if raw = ''NO'' then outcome_no
     else outcome_unknown), ev_raw = raw\<rparr>"

definition event_quote_type :: "string \<Rightarrow> quote_type enum_value" where
  "event_quote_type raw = \<lparr>ev_value = (if raw = ''BID'' then quote_bid else if raw = ''ASK'' then quote_ask
     else quote_unknown), ev_raw = raw\<rparr>"

definition event_strategy :: "string \<Rightarrow> order_strategy enum_value" where
  "event_strategy raw = \<lparr>ev_value = (if raw = ''MARKET'' then strategy_market else if raw = ''LIMIT'' then strategy_limit
     else strategy_unknown), ev_raw = raw\<rparr>"

definition event_settlement_kind :: "string \<Rightarrow> settlement_kind enum_value" where
  "event_settlement_kind raw = \<lparr>ev_value = (if raw = ''SALE'' then settlement_sale
     else if raw = ''PURCHASE'' then settlement_purchase else settlement_unknown), ev_raw = raw\<rparr>"

definition event_fee_type :: "string \<Rightarrow> wallet_fee_type enum_value" where
  "event_fee_type raw = \<lparr>ev_value = (if raw = ''COLLATERAL'' then fee_collateral
     else if raw = ''SHARES'' then fee_shares else fee_unknown), ev_raw = raw\<rparr>"

section \<open>Events\<close>

definition event_details :: "wire_details \<Rightarrow> decode_limits \<Rightarrow> wallet_event_details result" where
  "event_details wire limits =
     require (wdt_market_id wire) (missing ''data.details.marketId'') (\<lambda>market.
     require (wdt_outcome_index wire) (missing ''data.details.outcomeIndex'') (\<lambda>index.
     require (wdt_market_question wire) (missing ''data.details.marketQuestion'') (\<lambda>question.
     require (wdt_outcome wire) (missing ''data.details.outcome'') (\<lambda>outcome.
     require (wdt_quote_type wire) (missing ''data.details.quoteType'') (\<lambda>quote.
     require (wdt_strategy_type wire) (missing ''data.details.strategyType'') (\<lambda>strat.
     require (wdt_category_slug wire) (missing ''data.details.categorySlug'') (\<lambda>slug.
     guard_res (length question > dl_max_string_bytes limits \<or> length slug > dl_max_string_bytes limits)
       (invalid ''wallet event detail string exceeds configured limit'' ''data.details'') (
     bind_res (wire_decimal (wdt_quantity wire) ''data.details.quantity'') (\<lambda>quantity.
     bind_res (wire_decimal (wdt_quantity_filled wire) ''data.details.quantityFilled'') (\<lambda>quantity_filled.
     bind_res (wire_decimal (wdt_price wire) ''data.details.price'') (\<lambda>price.
     bind_res (wire_decimal (wdt_value wire) ''data.details.value'') (\<lambda>val.
     bind_res (wire_decimal (wdt_value_filled wire) ''data.details.valueFilled'') (\<lambda>value_filled.
       Inr \<lparr>wd_market_id = market, wd_outcome_index = index, wd_market_question = question,
            wd_outcome = event_outcome outcome, wd_quote_type = event_quote_type quote, wd_quantity = quantity,
            wd_quantity_filled = quantity_filled, wd_price = price, wd_value = val, wd_value_filled = value_filled,
            wd_strategy_type = event_strategy strat, wd_category_slug = slug\<rparr>)))))))))))))"

definition event_fill :: "wire_fill \<Rightarrow> wallet_fill result" where
  "event_fill wire =
     bind_res (wire_uint256 (wfl_price wire) ''data.fill.executedPriceWei'') (\<lambda>price.
     bind_res (wire_uint256 (wfl_size wire) ''data.fill.executedSizeWei'') (\<lambda>size.
     bind_res (wire_uint256 (wfl_value wire) ''data.fill.executedValueWei'') (\<lambda>val.
       Inr \<lparr>wf_executed_price_wei = price, wf_executed_size_wei = size, wf_executed_value_wei = val\<rparr>)))"

definition event_fee :: "wire_fee \<Rightarrow> wallet_fee result" where
  "event_fee wire =
     require (wfe_type wire) (missing ''data.fee.type'') (\<lambda>ty.
     bind_res (wire_uint256 (wfe_amount wire) ''data.fee.amountWei'') (\<lambda>amount.
       Inr \<lparr>wfee_amount_wei = amount, wfee_type = event_fee_type ty\<rparr>))"

definition is_transaction :: "wallet_event_type \<Rightarrow> bool" where
  "is_transaction t \<longleftrightarrow> t = order_transaction_submitted \<or> t = order_transaction_success \<or> t = order_transaction_failed"

text \<open>The checks on the completed event that depend on its type.\<close>

definition event_complete :: "wallet_event \<Rightarrow> wallet_event result" where
  "event_complete event =
     (let ty = ev_value (we_type event) in
      guard_res (ty = order_not_accepted \<and> we_reason event = None) (missing ''data.reason'') (
      guard_res (is_transaction ty \<and> (we_settlement_id event = None \<or> we_fill event = None))
        (missing ''data.settlementId/fill'') (
      guard_res (ty = order_transaction_submitted \<and> we_kind event = None) (missing ''data.kind'') (Inr event))))"

definition decode_event :: "wallet_reader \<Rightarrow> raw_json \<Rightarrow> decode_limits \<Rightarrow> wallet_event result" where
  "decode_event rd raw limits =
     bind_res (parse_private_wire (war_event rd) raw limits) (\<lambda>wire.
     require (wwe_type wire) (missing ''data.type'') (\<lambda>ty.
     require (wwe_order_id wire) (missing ''data.orderId'') (\<lambda>raw_id.
     require (wwe_order_hash wire) (missing ''data.orderHash'') (\<lambda>hash.
     require (wwe_wallet_address wire) (missing ''data.walletAddress'') (\<lambda>raw_address.
     require (wwe_timestamp wire) (missing ''data.timestamp'') (\<lambda>raw_ts.
     require (wwe_details wire) (missing ''data.details'') (\<lambda>raw_details.
     guard_res (length ty > dl_max_string_bytes limits \<or> length hash > dl_max_string_bytes limits)
       (invalid ''wallet event string exceeds configured limit'' ''data'') (
     bind_res (scalar_string raw_id ''data.orderId'' limits) (\<lambda>i.
     bind_res (evm_parse raw_address) (\<lambda>address.
     bind_res (positive_int64 raw_ts ''data.timestamp'') (\<lambda>timestamp.
     bind_res (event_details raw_details limits) (\<lambda>details.
     bind_res (optional_part (wwe_settlement_id wire) (\<lambda>r. scalar_string r ''data.settlementId'' limits)) (\<lambda>settlement.
     bind_res (optional_part (wwe_fill wire) event_fill) (\<lambda>fill.
     bind_res (optional_part (wwe_fee wire) event_fee) (\<lambda>fee.
       event_complete \<lparr>we_type = event_type ty, we_order_id = i, we_order_hash = hash, we_wallet_address = address,
         we_timestamp_ms = timestamp, we_details = details, we_reason = wwe_reason wire,
         we_kind = map_option event_settlement_kind (wwe_kind wire), we_settlement_id = settlement, we_fill = fill,
         we_is_maker = wwe_is_maker wire, we_fee = fee\<rparr>)))))))))))))))"

section \<open>Frames\<close>

definition wallet_prefix :: string where "wallet_prefix = ''predictWalletEvents/''"

definition jwt_char :: "char \<Rightarrow> bool" where
  "jwt_char c \<longleftrightarrow> is_alnum c \<or> c = CHR ''-'' \<or> c = CHR ''_'' \<or> c = CHR ''.''"

definition encode_wallet_subscribe_request :: "nat \<Rightarrow> string \<Rightarrow> string result" where
  "encode_wallet_subscribe_request request_id jwt =
     guard_res (request_id = 0 \<or> request_id > 2 ^ 63 - 1)
       (invalid ''request id must fit a positive signed 64-bit integer'' ''requestId'') (
     guard_res (jwt = [] \<or> length jwt > 16 * 1024) (invalid ''JWT is empty or exceeds configured limit'' ''jwt'') (
     guard_res (\<not> list_all jwt_char jwt) (invalid ''JWT contains a character unsafe for a topic'' ''jwt'')
       (Inr (''{'' @ jq ''method'' @ '':'' @ jq ''subscribe'' @ '','' @ jq ''requestId'' @ '':'' @ to_string request_id @ '','' @
             jq ''params'' @ '':['' @ jq (wallet_prefix @ jwt) @ '']}''))))"

definition decode_private_response :: "wire_envelope \<Rightarrow> subscription_response result" where
  "decode_private_response wire =
     require (wv_request_id wire) (missing ''requestId'') (\<lambda>request_id.
     require (wv_success wire) (missing ''success'') (\<lambda>success.
     if success then Inr \<lparr>sr_request_id = request_id, sr_success = True, sr_error = None\<rparr>
     else
       require (wv_error wire) (missing ''error.code'') (\<lambda>err.
       require (we_code err) (missing ''error.code'') (\<lambda>code.
         Inr \<lparr>sr_request_id = request_id, sr_success = False, sr_error = Some \<lparr>se_code = code, se_message = []\<rparr>\<rparr>))))"

definition decode_private_ws_frame :: "wallet_reader \<Rightarrow> string \<Rightarrow> decode_limits \<Rightarrow> private_ws_message result" where
  "decode_private_ws_frame rd json limits =
     bind_res (parse_private_wire (war_envelope rd) json limits) (\<lambda>wire.
     require (wv_type wire) (missing ''type'') (\<lambda>ty.
     if ty = ''R'' then bind_res (decode_private_response wire) (\<lambda>r. Inr (Pw_Response r))
     else
       guard_res (ty \<noteq> ''M'') (invalid ''unknown WebSocket envelope type'' ''type'') (
       require (wv_topic wire) (missing ''topic'') (\<lambda>topic.
       require (wv_data wire) (missing ''data'') (\<lambda>raw.
       if topic = ''heartbeat''
       then case war_int64 rd raw of
              Some ts \<Rightarrow> guard_res (ts \<le> 0) (invalid ''heartbeat timestamp must be positive'' ''data'') (Inr (Pw_Heartbeat ts))
            | None \<Rightarrow> Inl (invalid ''heartbeat timestamp must be positive'' ''data'')
       else
         guard_res (\<not> starts_with topic wallet_prefix) (invalid ''unexpected private WebSocket topic'' ''topic'') (
         bind_res (decode_event rd raw limits) (\<lambda>event. Inr (Pw_Event event))))))))"

section \<open>Decoded events\<close>

lemma parse_private_wire_eq_Inr [res_simps]:
  "parse_private_wire read json limits = Inr w \<longleftrightarrow> length json \<le> dl_max_body_bytes limits \<and> read json = Some w"
  by (cases "read json") (auto simp: parse_private_wire_def)

lemma wire_decimal_wf: "wire_decimal raw f = Inr d \<Longrightarrow> exact_wf d"
  by (auto simp: wire_decimal_def res_simps dest: exact_parse_wf)

lemma wire_uint256_wf: "wire_uint256 raw f = Inr d \<Longrightarrow> uint256_wf d"
  by (auto simp: wire_uint256_def res_simps dest: uint256_parse_wf)

lemma positive_int64_range: "positive_int64 raw f = Inr v \<Longrightarrow> 0 < v \<and> v < 2 ^ 63"
  unfolding positive_int64_def
  by (auto simp: res_simps from_chars_int_def Let_def split: option.splits prod.splits list.splits if_splits)

definition details_wf :: "wallet_event_details \<Rightarrow> bool" where
  "details_wf d \<longleftrightarrow> exact_wf (wd_quantity d) \<and> exact_wf (wd_quantity_filled d) \<and> exact_wf (wd_price d) \<and>
     exact_wf (wd_value d) \<and> exact_wf (wd_value_filled d)"

definition fill_wf :: "wallet_fill \<Rightarrow> bool" where
  "fill_wf f \<longleftrightarrow> uint256_wf (wf_executed_price_wei f) \<and> uint256_wf (wf_executed_size_wei f) \<and> uint256_wf (wf_executed_value_wei f)"

lemma event_details_wf: "event_details w l = Inr d \<Longrightarrow> details_wf d"
  by (auto simp: event_details_def res_simps details_wf_def dest: wire_decimal_wf)

lemma event_fill_wf: "event_fill w = Inr f \<Longrightarrow> fill_wf f"
  by (auto simp: event_fill_def res_simps fill_wf_def dest: wire_uint256_wf)

lemma event_fee_wf: "event_fee w = Inr f \<Longrightarrow> uint256_wf (wfee_amount_wei f)"
  by (auto simp: event_fee_def res_simps dest: wire_uint256_wf)

lemma event_complete_eq_Inr [res_simps]:
  "event_complete e = Inr e' \<longleftrightarrow> e' = e \<and>
     (ev_value (we_type e) = order_not_accepted \<longrightarrow> we_reason e \<noteq> None) \<and>
     (is_transaction (ev_value (we_type e)) \<longrightarrow> we_settlement_id e \<noteq> None \<and> we_fill e \<noteq> None) \<and>
     (ev_value (we_type e) = order_transaction_submitted \<longrightarrow> we_kind e \<noteq> None)"
  by (auto simp: event_complete_def res_simps Let_def)

text \<open>What the tracker, the journal and the session rely on of a wallet event.\<close>

definition wallet_event_valid :: "wallet_event \<Rightarrow> bool" where
  "wallet_event_valid e \<longleftrightarrow> event_wf e \<and> details_wf (we_details e) \<and> evm_wf (we_wallet_address e) \<and>
     \<not> evm_empty (we_wallet_address e) \<and> we_order_id e \<noteq> [] \<and> 0 < we_timestamp_ms e \<and>
     (case we_fill e of None \<Rightarrow> True | Some f \<Rightarrow> fill_wf f) \<and>
     (case we_fee e of None \<Rightarrow> True | Some f \<Rightarrow> uint256_wf (wfee_amount_wei f)) \<and>
     (ev_value (we_type e) = order_not_accepted \<longrightarrow> we_reason e \<noteq> None) \<and>
     (is_transaction (ev_value (we_type e)) \<longrightarrow> we_settlement_id e \<noteq> None \<and> we_fill e \<noteq> None) \<and>
     (ev_value (we_type e) = order_transaction_submitted \<longrightarrow> we_kind e \<noteq> None)"

lemma decode_event_valid:
  assumes "decode_event rd raw limits = Inr e"
  shows "wallet_event_valid e"
proof -
  obtain ty i hash address timestamp details settlement fill fee reason kind maker where
    e: "event_complete \<lparr>we_type = event_type ty, we_order_id = i, we_order_hash = hash, we_wallet_address = address,
         we_timestamp_ms = timestamp, we_details = details, we_reason = reason,
         we_kind = kind, we_settlement_id = settlement, we_fill = fill, we_is_maker = maker, we_fee = fee\<rparr> = Inr e"
    and i: "\<exists>r f. scalar_string r f limits = Inr i" and a: "\<exists>r. evm_parse r = Inr address"
    and t: "\<exists>r f. positive_int64 r f = Inr timestamp" and d: "\<exists>w. event_details w limits = Inr details"
    and f: "\<exists>w. optional_part w event_fill = Inr fill" and g: "\<exists>w. optional_part w event_fee = Inr fee"
    using assms unfolding decode_event_def res_simps by blast
  have "0 < timestamp" "timestamp < 2 ^ 63"
    using t positive_int64_range by blast+
  moreover have "i \<noteq> []"
    using i by (auto simp: scalar_string_def res_simps Let_def)
  moreover have "evm_wf address" "\<not> evm_empty address"
    using a by (auto simp: evm_parse_def evm_wf_def evm_empty_def split: if_splits option.splits dest!: length_hex_pairs)
  moreover have "details_wf details"
    using d event_details_wf by blast
  moreover have "case fill of None \<Rightarrow> True | Some f \<Rightarrow> fill_wf f"
    "case fee of None \<Rightarrow> True | Some f \<Rightarrow> uint256_wf (wfee_amount_wei f)"
    using f g by (auto simp: res_simps dest: event_fill_wf event_fee_wf)
  ultimately show ?thesis
    using e unfolding wallet_event_valid_def by (auto simp: res_simps event_wf_def details_wf_def int64_ok_def)
qed

text \<open>
  Every wallet event that the private decoder delivers is valid: its decimals and integers are well
  formed, its address is a non-zero 20-byte address, its order id is not empty, its timestamp is
  positive and fits 64 bits, and the fields that its type calls for are there. In particular it meets
  what the order tracker requires of its events.
\<close>

theorem wallet_event_decoded_valid:
  assumes "decode_private_ws_frame rd json limits = Inr (Pw_Event e)"
  shows "wallet_event_valid e \<and> op_wf (Apply_Wallet_Event e) \<and>
    (\<exists>wire topic. war_envelope rd json = Some wire \<and> wv_topic wire = Some topic \<and> starts_with topic wallet_prefix)"
proof -
  obtain wire topic raw where "war_envelope rd json = Some wire" "wv_topic wire = Some topic" "starts_with topic wallet_prefix"
    "decode_event rd raw limits = Inr e"
    using assms by (auto simp: decode_private_ws_frame_def res_simps split: if_splits option.splits)
  then show ?thesis
    using decode_event_valid by (auto simp: wallet_event_valid_def)
qed

definition sample_wire_event :: wire_wallet_event where
  "sample_wire_event = \<lparr>wwe_type = Some ''orderAccepted'', wwe_order_id = Some ''17'', wwe_order_hash = Some ''0xab'',
     wwe_wallet_address = Some ''0x00000000000000000000000000000000000000ff'', wwe_timestamp = Some ''1700'',
     wwe_details = Some \<lparr>wdt_market_id = Some 7, wdt_outcome_index = Some 0, wdt_market_question = Some ''q'',
       wdt_outcome = Some ''YES'', wdt_quote_type = Some ''BID'', wdt_quantity = Some ''10'', wdt_quantity_filled = Some ''0'',
       wdt_price = Some ''0.4'', wdt_value = Some ''4'', wdt_value_filled = Some ''0'', wdt_strategy_type = Some ''LIMIT'',
       wdt_category_slug = Some ''c''\<rparr>,
     wwe_reason = None, wwe_kind = None, wwe_settlement_id = None, wwe_fill = None, wwe_is_maker = None, wwe_fee = None\<rparr>"

definition sample_wallet_reader :: wallet_reader where
  "sample_wallet_reader = \<lparr>war_envelope = (\<lambda>s. Some \<lparr>wv_type = Some ''M'', wv_request_id = None, wv_success = None,
       wv_error = None, wv_topic = Some ''predictWalletEvents/t'', wv_data = Some ''{}''\<rparr>),
     war_int64 = (\<lambda>s. None), war_event = (\<lambda>s. Some sample_wire_event)\<rparr>"

lemma sample_wallet_decodes:
  "(case decode_private_ws_frame sample_wallet_reader ''{}'' default_limits of
      Inr (Pw_Event e) \<Rightarrow> we_timestamp_ms e = 1700 \<and> we_order_id e = ''17'' | _ \<Rightarrow> False)"
  by code_simp

theorem wallet_event_decoded_valid_witness:
  "\<exists>e. decode_private_ws_frame sample_wallet_reader ''{}'' default_limits = Inr (Pw_Event e) \<and> wallet_event_valid e \<and>
     we_timestamp_ms e = 1700"
  using sample_wallet_decodes wallet_event_decoded_valid [of sample_wallet_reader "''{}''" default_limits]
  by (auto split: sum.splits private_ws_message.splits)

section \<open>Redaction\<close>

text \<open>
  Private frames hold the JWT in their topic. \<open>private_texts\<close> lists every message and field name that an
  error of the decoder can have; none of them depends on the frame.
\<close>

definition private_texts :: "string list" where
  "private_texts = ['''', ''required field is missing'', ''WebSocket frame exceeds configured limit'',
     ''malformed private WebSocket frame'', ''scalar string is empty or exceeds configured limit'',
     ''timestamp must be a positive signed 64-bit integer'', ''wallet event detail string exceeds configured limit'',
     ''wallet event string exceeds configured limit'', ''unknown WebSocket envelope type'',
     ''heartbeat timestamp must be positive'', ''unexpected private WebSocket topic'',
     ''decimal is empty'', ''decimal has no digits'', ''decimal must use plain base-10 notation'', ''decimal is incomplete'',
     ''uint256 must contain base-10 digits'', ''value exceeds uint256'',
     ''EVM address must be 0x followed by 40 hexadecimal digits'', ''EVM address contains a non-hexadecimal digit'',
     ''zero EVM address is not a valid identity'',
     ''address'', ''type'', ''requestId'', ''success'', ''error.code'', ''topic'', ''data'', ''data.type'', ''data.orderId'',
     ''data.orderHash'', ''data.walletAddress'', ''data.timestamp'', ''data.details'', ''data.reason'',
     ''data.settlementId/fill'', ''data.kind'', ''data.settlementId'', ''data.fee.type'', ''data.fee.amountWei'',
     ''data.fill.executedPriceWei'', ''data.fill.executedSizeWei'', ''data.fill.executedValueWei'',
     ''data.details.marketId'', ''data.details.outcomeIndex'', ''data.details.marketQuestion'', ''data.details.outcome'',
     ''data.details.quoteType'', ''data.details.strategyType'', ''data.details.categorySlug'', ''data.details.quantity'',
     ''data.details.quantityFilled'', ''data.details.price'', ''data.details.value'', ''data.details.valueFilled'']"

definition plain_error :: "error \<Rightarrow> bool" where
  "plain_error e \<longleftrightarrow> err_message e \<in> set private_texts \<and> err_field e \<in> set private_texts"

definition redacted :: "'a result \<Rightarrow> bool" where
  "redacted r \<longleftrightarrow> (\<forall>e. r = Inl e \<longrightarrow> plain_error e)"

named_theorems redact \<open>results whose errors do not depend on the frame\<close>

lemma redacted_Inr [redact]: "redacted (Inr x)"
  by (simp add: redacted_def)

lemma redacted_Inl [redact]: "plain_error e \<Longrightarrow> redacted (Inl e)"
  by (simp add: redacted_def)

lemma redacted_bind [redact]: "redacted r \<Longrightarrow> (\<And>x. redacted (f x)) \<Longrightarrow> redacted (bind_res r f)"
  by (cases r) (auto simp: redacted_def)

lemma redacted_guard [redact]: "plain_error e \<Longrightarrow> redacted r \<Longrightarrow> redacted (guard_res c e r)"
  by (auto simp: redacted_def guard_res_def)

lemma redacted_require [redact]: "plain_error e \<Longrightarrow> (\<And>v. redacted (f v)) \<Longrightarrow> redacted (require x e f)"
  by (cases x) (auto simp: redacted_def require_def)

lemma redacted_field [redact]: "redacted r \<Longrightarrow> f \<in> set private_texts \<Longrightarrow> redacted (with_field f r)"
  by (cases r) (auto simp: redacted_def with_field_def plain_error_def)

lemma redacted_optional [redact]: "(\<And>v. redacted (f v)) \<Longrightarrow> redacted (optional_part x f)"
  by (cases x) (auto simp: optional_part_def intro!: redact)

lemma redacted_if [redact]: "redacted r \<Longrightarrow> redacted s \<Longrightarrow> redacted (if c then r else s)"
  by simp

lemma plain_error_mk [redact]: "m \<in> set private_texts \<Longrightarrow> f \<in> set private_texts \<Longrightarrow> plain_error (mk_error c m f)"
  by (simp add: plain_error_def mk_error_def)

lemma plain_missing [redact]: "f \<in> set private_texts \<Longrightarrow> plain_error (missing f)"
  unfolding missing_def by (rule plain_error_mk) (simp_all add: private_texts_def)

lemma plain_invalid [redact]: "m \<in> set private_texts \<Longrightarrow> f \<in> set private_texts \<Longrightarrow> plain_error (invalid m f)"
  unfolding invalid_def by (rule plain_error_mk)

lemma redacted_parsers [redact]: "redacted (exact_parse s)" "redacted (uint256_parse s)" "redacted (evm_parse s)"
  "redacted (parse_private_wire read s limits)"
  by (auto simp: redacted_def plain_error_def exact_parse_def uint256_parse_def evm_parse_def parse_private_wire_def
      frame_error_def mk_error_def private_texts_def Let_def split: if_splits option.splits)

lemma redacted_scalars [redact]:
  "f \<in> set private_texts \<Longrightarrow> redacted (scalar_string r f l)" "f \<in> set private_texts \<Longrightarrow> redacted (positive_int64 r f)"
  "f \<in> set private_texts \<Longrightarrow> redacted (wire_decimal o1 f)" "f \<in> set private_texts \<Longrightarrow> redacted (wire_uint256 o1 f)"
proof -
  assume f: "f \<in> set private_texts"
  show "redacted (scalar_string r f l)"
    unfolding scalar_string_def Let_def using f by (intro redact) (simp_all add: private_texts_def)
  have "plain_error (invalid ''timestamp must be a positive signed 64-bit integer'' f)"
    by (rule plain_invalid [OF _ f]) (simp add: private_texts_def)
  then show "redacted (positive_int64 r f)"
    by (auto simp: positive_int64_def intro!: redacted_Inl redacted_guard redacted_Inr split: option.splits prod.splits list.splits)
  show "redacted (wire_decimal o1 f)" "redacted (wire_uint256 o1 f)"
    unfolding wire_decimal_def wire_uint256_def using f by (intro redact; simp)+
qed

lemma redacted_parts [redact]: "redacted (event_details w l)" "redacted (event_fill w1)" "redacted (event_fee w2)"
  "redacted (event_complete ev)" "redacted (decode_private_response env)"
  unfolding event_details_def event_fill_def event_fee_def event_complete_def decode_private_response_def Let_def
  by (intro redact; simp add: private_texts_def)+

text \<open>
  No error of the private decoder repeats any of the frame: whatever the frame holds, the message and
  the field of the error are among a fixed list of texts, so that a JWT in the topic cannot reach a log
  through them; and of a rejected subscription only the code is kept, never the server's message.
\<close>

theorem private_frame_errors_redacted:
  "(case decode_private_ws_frame rd json limits of
      Inl e \<Rightarrow> err_message e \<in> set private_texts \<and> err_field e \<in> set private_texts
    | Inr (Pw_Response r) \<Rightarrow> (case sr_error r of None \<Rightarrow> True | Some e \<Rightarrow> se_message e = [])
    | Inr _ \<Rightarrow> True)"
proof -
  have "redacted (decode_event rd raw limits)" for raw
    unfolding decode_event_def by (intro redact; simp add: private_texts_def)
  then have "redacted (decode_private_ws_frame rd json limits)"
    unfolding decode_private_ws_frame_def
    by (intro redact; (simp add: private_texts_def)?) (auto intro!: redact simp: private_texts_def split: option.splits)
  moreover have "decode_private_ws_frame rd json limits = Inr (Pw_Response r) \<Longrightarrow>
      (case sr_error r of None \<Rightarrow> True | Some e \<Rightarrow> se_message e = [])" for r
    by (auto simp: decode_private_ws_frame_def decode_private_response_def res_simps split: if_splits option.splits)
  ultimately show ?thesis
    by (auto simp: redacted_def plain_error_def split: sum.splits private_ws_message.splits)
qed

end
