(* ===== verification/Reconnect.thy ===== *)
theory Reconnect
  imports Prelude
begin

text \<open>
  The reconnect controller (\<^verbatim>\<open>src/reconnect.cpp\<close>): exponential backoff with jitter from a 64-bit
  xorshift generator, and a cooldown when attempts come in a storm. Delays are milliseconds;
  time points are nanoseconds of the steady clock, so \<^verbatim>\<open>std::chrono::ceil\<close> is written out. The
  arithmetic on \<^verbatim>\<open>int64_t\<close> millisecond counts is on \<open>int\<close>; a lemma shows that it stays in range.
  The conversion of a window or a cooldown to nanoseconds is on \<open>int\<close> too, which is the code's
  behaviour for policies below 292 years.
\<close>

unbundle bit_operations_syntax

section \<open>Data\<close>

record reconnect_policy =
  rp_initial :: int
  rp_maximum :: int
  rp_jitter_percent :: nat
  rp_storm_attempts :: nat
  rp_storm_window :: int
  rp_storm_cooldown :: int
  rp_jitter_seed :: "64 word"

record reconnect_decision =
  rc_delay :: int
  rc_storm_cooldown :: bool

record reconnect_backoff =
  rb_policy :: reconnect_policy
  rb_current :: int
  rb_attempts :: "int list"
  rb_cooldown_until :: int
  rb_random_state :: "64 word"

section \<open>Operations\<close>

definition ns_per_ms :: int where "ns_per_ms = 1000000"

definition ceil_ms :: "int \<Rightarrow> int" where
  "ceil_ms ns = (ns + ns_per_ms - 1) div ns_per_ms"

definition policy_valid :: "reconnect_policy \<Rightarrow> bool" where
  "policy_valid p \<longleftrightarrow> \<not> (rp_initial p \<le> 0 \<or> rp_maximum p < rp_initial p) \<and>
     \<not> (rp_maximum p > (2 ^ 63 - 1) div 3) \<and> \<not> (rp_jitter_percent p > 100) \<and>
     \<not> (rp_storm_attempts p = 0 \<or> rp_storm_window p \<le> 0 \<or> rp_storm_cooldown p \<le> 0)"

text \<open>The constructor throws on an invalid policy; \<open>unique_seed\<close> is the seed it draws for zero.\<close>

definition new_backoff :: "64 word \<Rightarrow> reconnect_policy \<Rightarrow> reconnect_backoff option" where
  "new_backoff unique_seed p =
     (if policy_valid p
      then Some \<lparr>rb_policy = p, rb_current = rp_initial p, rb_attempts = [], rb_cooldown_until = 0,
                 rb_random_state = (if rp_jitter_seed p = 0 then unique_seed else rp_jitter_seed p)\<rparr>
      else None)"

definition xorshift :: "64 word \<Rightarrow> 64 word" where
  "xorshift s0 =
     (let s1 = s0 XOR push_bit 13 s0; s2 = s1 XOR drop_bit 7 s1 in s2 XOR push_bit 17 s2)"

definition jitter_span :: "reconnect_policy \<Rightarrow> int \<Rightarrow> int" where
  "jitter_span p count =
     (let percent = int (rp_jitter_percent p) in
      (count div 100) * percent + ((count mod 100) * percent) div 100)"

definition jitter :: "int \<Rightarrow> reconnect_backoff \<Rightarrow> int \<times> reconnect_backoff" where
  "jitter base b =
     (if rp_jitter_percent (rb_policy b) = 0 then (base, b)
      else
        let b1 = b\<lparr>rb_random_state := xorshift (rb_random_state b)\<rparr>;
            span = jitter_span (rb_policy b) base;
            width = span * 2 + 1;
            sample = uint (rb_random_state b1) mod width;
            candidate = base + sample - span
        in (max 1 (min candidate (rp_maximum (rb_policy b))), b1))"

definition next_attempt :: "int \<Rightarrow> reconnect_backoff \<Rightarrow> reconnect_decision \<times> reconnect_backoff" where
  "next_attempt now b =
     (let p = rb_policy b in
      if now < rb_cooldown_until b
      then (\<lparr>rc_delay = ceil_ms (rb_cooldown_until b - now), rc_storm_cooldown = True\<rparr>, b)
      else
        let attempts = dropWhile (\<lambda>t. now - t > rp_storm_window p * ns_per_ms) (rb_attempts b) @ [now] in
        if length attempts > rp_storm_attempts p
        then (\<lparr>rc_delay = rp_storm_cooldown p, rc_storm_cooldown = True\<rparr>,
              b\<lparr>rb_attempts := [], rb_cooldown_until := now + rp_storm_cooldown p * ns_per_ms\<rparr>)
        else
          case jitter (rb_current b) (b\<lparr>rb_attempts := attempts\<rparr>) of
            (delay, b1) \<Rightarrow>
              (\<lparr>rc_delay = delay, rc_storm_cooldown = False\<rparr>,
               b1\<lparr>rb_current := (if rb_current b \<ge> rp_maximum p div 2 then rp_maximum p
                                 else min (rb_current b * 2) (rp_maximum p))\<rparr>))"

definition mark_stable :: "reconnect_backoff \<Rightarrow> reconnect_backoff" where
  "mark_stable b = b\<lparr>rb_current := rp_initial (rb_policy b), rb_attempts := [], rb_cooldown_until := 0\<rparr>"

section \<open>Invariant\<close>

text \<open>\<open>t\<close> is the time of the latest call; the steady clock does not go back.\<close>

definition backoff_inv :: "int \<Rightarrow> reconnect_backoff \<Rightarrow> bool" where
  "backoff_inv t b \<longleftrightarrow> policy_valid (rb_policy b) \<and>
     rp_initial (rb_policy b) \<le> rb_current b \<and> rb_current b \<le> rp_maximum (rb_policy b) \<and>
     length (rb_attempts b) \<le> rp_storm_attempts (rb_policy b) \<and> sorted (rb_attempts b) \<and>
     (\<forall>a\<in>set (rb_attempts b). a \<le> t) \<and>
     rb_cooldown_until b \<le> max 0 (t + rp_storm_cooldown (rb_policy b) * ns_per_ms)"

lemma jitter_span_bounds:
  assumes "0 \<le> c" and "rp_jitter_percent p \<le> 100"
  shows "0 \<le> jitter_span p c" and "jitter_span p c \<le> c"
proof -
  let ?k = "int (rp_jitter_percent p)"
  have k: "0 \<le> ?k" "?k \<le> 100"
    using assms(2) by auto
  have "c div 100 * ?k \<le> c div 100 * 100"
    using k assms(1) by (intro mult_left_mono) auto
  moreover have "(c mod 100 * ?k) div 100 \<le> c mod 100"
  proof -
    have "c mod 100 * ?k \<le> c mod 100 * 100"
      using k by (intro mult_left_mono) auto
    then show ?thesis
      using zdiv_mono1 [of "c mod 100 * ?k" "c mod 100 * 100" 100] by simp
  qed
  ultimately show "jitter_span p c \<le> c"
    using div_mult_mod_eq [of c 100] unfolding jitter_span_def Let_def by linarith
  show "0 \<le> jitter_span p c"
    using k assms(1) by (simp add: jitter_span_def Let_def pos_imp_zdiv_nonneg_iff)
qed

lemma jitter_bounds:
  assumes "0 < c" and "c \<le> rp_maximum (rb_policy b)" and "rp_jitter_percent (rb_policy b) \<le> 100"
  shows "1 \<le> fst (jitter c b) \<and> fst (jitter c b) \<le> rp_maximum (rb_policy b) \<and>
    \<bar>fst (jitter c b) - c\<bar> \<le> jitter_span (rb_policy b) c"
proof (cases "rp_jitter_percent (rb_policy b) = 0")
  case True
  then show ?thesis
    using assms jitter_span_bounds(1) [of c "rb_policy b"] by (simp add: jitter_def)
next
  case False
  define span where "span = jitter_span (rb_policy b) c"
  define sample where "sample = uint (xorshift (rb_random_state b)) mod (span * 2 + 1)"
  have span: "0 \<le> span" "span \<le> c"
    using jitter_span_bounds [of c "rb_policy b"] assms by (auto simp: span_def)
  have "0 \<le> sample" "sample < span * 2 + 1"
    using span pos_mod_bound [of "span * 2 + 1"] pos_mod_sign [of "span * 2 + 1"]
    by (auto simp: sample_def simp del: pos_mod_bound pos_mod_sign)
  moreover have "fst (jitter c b) = max 1 (min (c + sample - span) (rp_maximum (rb_policy b)))"
    using False by (simp add: jitter_def Let_def span_def sample_def)
  ultimately show ?thesis
    using assms(1,2) span unfolding span_def [symmetric] by (auto simp: min_def max_def abs_if)
qed

text \<open>No intermediate value of the jitter leaves the range of \<^verbatim>\<open>int64_t\<close>.\<close>

lemma jitter_no_overflow:
  assumes "policy_valid (rb_policy b)" and "0 < c" and "c \<le> rp_maximum (rb_policy b)"
    and "0 \<le> sample" and "sample \<le> jitter_span (rb_policy b) c * 2"
  shows "c + sample < 2 ^ 63" and "jitter_span (rb_policy b) c * 2 + 1 < 2 ^ 64" and "c * 2 < 2 ^ 63"
proof -
  have max: "c \<le> (2 ^ 63 - 1) div 3" and "rp_jitter_percent (rb_policy b) \<le> 100"
    using assms(1,3) by (auto simp: policy_valid_def)
  then have "jitter_span (rb_policy b) c \<le> c"
    using assms(2) by (intro jitter_span_bounds) auto
  then show "c + sample < 2 ^ 63" "jitter_span (rb_policy b) c * 2 + 1 < 2 ^ 64" "c * 2 < 2 ^ 63"
    using max assms(4,5) by auto
qed

lemma jitter_state: "rb_policy (snd (jitter c b)) = rb_policy b" "rb_attempts (snd (jitter c b)) = rb_attempts b"
  "rb_cooldown_until (snd (jitter c b)) = rb_cooldown_until b"
  by (auto simp: jitter_def Let_def)

lemma ceil_ms_bounds: "0 < x \<Longrightarrow> x \<le> d * ns_per_ms \<Longrightarrow> 0 < ceil_ms x \<and> ceil_ms x \<le> d"
proof -
  assume x: "0 < x" "x \<le> d * ns_per_ms"
  have "1 * ns_per_ms \<le> x + ns_per_ms - 1"
    using x(1) by simp
  moreover have "x + ns_per_ms - 1 < (d + 1) * ns_per_ms"
    using x(2) by (simp add: algebra_simps)
  ultimately show ?thesis
    unfolding ceil_ms_def by (simp add: ns_per_ms_def) linarith
qed

lemma new_backoff_inv: "new_backoff seed p = Some b \<Longrightarrow> 0 \<le> t \<Longrightarrow> backoff_inv t b"
  by (auto simp: new_backoff_def backoff_inv_def policy_valid_def ns_per_ms_def split: if_splits)

lemma mark_stable_inv: "backoff_inv t b \<Longrightarrow> backoff_inv t (mark_stable b)"
  by (auto simp: backoff_inv_def mark_stable_def policy_valid_def)

text \<open>
  Reconnect decisions are bounded: at any time not before the latest call, the controller
  answers a positive delay. Outside a storm it stays within the jitter span of the current backoff
  and below the maximum; in a storm it is at most the cooldown. The invariant is kept: the backoff
  stays between the initial and the maximal delay, and no more attempts than the storm limit are
  remembered.
\<close>

theorem reconnect_delay_bounded:
  assumes "backoff_inv t b" and "t \<le> now" and "0 \<le> now" and "next_attempt now b = (d, b')"
  shows "backoff_inv now b' \<and> 0 < rc_delay d \<and>
    (if rc_storm_cooldown d then rc_delay d \<le> rp_storm_cooldown (rb_policy b)
     else rc_delay d \<le> rp_maximum (rb_policy b) \<and>
       \<bar>rc_delay d - rb_current b\<bar> \<le> jitter_span (rb_policy b) (rb_current b) \<and> rb_current b \<le> rb_current b')"
proof -
  let ?p = "rb_policy b"
  note inv = assms(1) [unfolded backoff_inv_def policy_valid_def]
  define attempts where "attempts = dropWhile (\<lambda>t. now - t > rp_storm_window ?p * ns_per_ms) (rb_attempts b) @ [now]"
  have old: "set (dropWhile (\<lambda>t. now - t > rp_storm_window ?p * ns_per_ms) (rb_attempts b)) \<subseteq> set (rb_attempts b)"
    by (auto dest: set_dropWhileD)
  have att: "sorted attempts" "\<forall>a\<in>set attempts. a \<le> now"
  proof -
    have le: "\<forall>a\<in>set (dropWhile (\<lambda>t. now - t > rp_storm_window ?p * ns_per_ms) (rb_attempts b)). a \<le> now"
      using old inv assms(2) by (meson order_trans subsetD)
    then show "sorted attempts" "\<forall>a\<in>set attempts. a \<le> now"
      using inv unfolding attempts_def by (auto simp: sorted_append intro: sorted_dropWhile)
  qed
  consider (cool) "now < rb_cooldown_until b"
    | (storm) "\<not> now < rb_cooldown_until b" "rp_storm_attempts ?p < length attempts"
    | (normal) "\<not> now < rb_cooldown_until b" "\<not> rp_storm_attempts ?p < length attempts"
    by blast
  then show ?thesis
  proof cases
    case cool
    have "0 < rb_cooldown_until b - now" "rb_cooldown_until b - now \<le> rp_storm_cooldown ?p * ns_per_ms"
      using cool inv assms(2,3) by (auto simp: max_def split: if_splits)
    from ceil_ms_bounds [OF this] show ?thesis
      using cool assms inv by (auto simp: next_attempt_def backoff_inv_def policy_valid_def max_def split: if_splits)
  next
    case storm
    then show ?thesis
      using assms(4) inv unfolding next_attempt_def Let_def attempts_def [symmetric]
      by (auto simp: backoff_inv_def policy_valid_def)
  next
    case normal
    define b1 where "b1 = b\<lparr>rb_attempts := attempts\<rparr>"
    have j: "1 \<le> fst (jitter (rb_current b) b1) \<and> fst (jitter (rb_current b) b1) \<le> rp_maximum ?p \<and>
      \<bar>fst (jitter (rb_current b) b1) - rb_current b\<bar> \<le> jitter_span ?p (rb_current b)"
      using jitter_bounds [of "rb_current b" b1] inv by (simp add: b1_def)
    have d: "rc_delay d = fst (jitter (rb_current b) b1)" "\<not> rc_storm_cooldown d"
      "b' = snd (jitter (rb_current b) b1)\<lparr>rb_current := (if rb_current b \<ge> rp_maximum ?p div 2 then rp_maximum ?p
                                 else min (rb_current b * 2) (rp_maximum ?p))\<rparr>"
      using assms(4) normal unfolding next_attempt_def Let_def attempts_def [symmetric] b1_def [symmetric]
      by (auto split: prod.splits)
    have "rb_cooldown_until b \<le> max 0 (now + rp_storm_cooldown ?p * ns_per_ms)"
      using inv assms(2) by auto
    then show ?thesis
      using j d inv att normal by (auto simp: backoff_inv_def policy_valid_def jitter_state b1_def)
  qed
qed

text \<open>The default policy with a fixed seed, at the first attempt.\<close>

definition default_policy :: reconnect_policy where
  "default_policy = \<lparr>rp_initial = 250, rp_maximum = 10000, rp_jitter_percent = 20, rp_storm_attempts = 8,
     rp_storm_window = 30000, rp_storm_cooldown = 60000, rp_jitter_seed = 0\<rparr>"

definition default_backoff :: reconnect_backoff where
  "default_backoff = \<lparr>rb_policy = default_policy, rb_current = 250, rb_attempts = [],
     rb_cooldown_until = 0, rb_random_state = 7\<rparr>"

lemma default_backoff_new: "new_backoff 7 default_policy = Some default_backoff"
  by (simp add: new_backoff_def default_backoff_def default_policy_def policy_valid_def)

theorem reconnect_delay_bounded_witness:
  "backoff_inv 0 default_backoff \<and>
   0 < rc_delay (fst (next_attempt 5 default_backoff)) \<and>
   \<bar>rc_delay (fst (next_attempt 5 default_backoff)) - 250\<bar> \<le> 50"
proof -
  have "backoff_inv 0 default_backoff"
    by (rule new_backoff_inv [OF default_backoff_new]) simp
  moreover have "\<not> rc_storm_cooldown (fst (next_attempt 5 default_backoff))"
    by (simp add: next_attempt_def default_backoff_def default_policy_def split: prod.splits)
  moreover have "jitter_span default_policy 250 = 50"
    by (simp add: jitter_span_def default_policy_def)
  ultimately show ?thesis
    using reconnect_delay_bounded [of 0 default_backoff 5 "fst (next_attempt 5 default_backoff)"
      "snd (next_attempt 5 default_backoff)"]
    by (simp add: default_backoff_def)
qed

end
