(* ===== verification/Event_Queue.thy ===== *)
theory Event_Queue
  imports Prelude
begin

text \<open>
  The bounded event queue that both WebSocket clients announce through (\<open>enqueue\<close> and the queue part of
  \<open>set_state\<close> in \<^verbatim>\<open>src/public_wss.cpp\<close> and \<^verbatim>\<open>src/private_wss.cpp\<close>), and the contract of a client as a
  source of events stamped with its connection generation: the generation never decreases, a consumer
  sees the stamps in order, and the queue stays within its bound.
\<close>

section \<open>The queue\<close>

definition offer :: "nat \<Rightarrow> 'e \<Rightarrow> 'e list \<Rightarrow> 'e list option" where
  "offer capacity event events = (if length events \<ge> capacity then None else Some (events @ [event]))"

text \<open>A state event that does not fit replaces the whole queue by the overflow event.\<close>

definition announce :: "nat \<Rightarrow> 'e \<Rightarrow> 'e \<Rightarrow> 'e list \<Rightarrow> 'e list" where
  "announce capacity event overflow events =
     (case offer capacity event events of Some q \<Rightarrow> q | None \<Rightarrow> [overflow])"

lemma offer_eq_Some [simp]: "offer c e q = Some q' \<longleftrightarrow> length q < c \<and> q' = q @ [e]"
  by (auto simp: offer_def)

lemma offer_eq_None [simp]: "offer c e q = None \<longleftrightarrow> c \<le> length q"
  by (auto simp: offer_def)

lemma announce_cases: "announce c e d q = (if length q < c then q @ [e] else [d])"
  by (simp add: announce_def offer_def)

section \<open>Emission\<close>

text \<open>
  \<open>emits stamp c (q, g) (q', g')\<close>: from the queue \<open>q\<close> at generation \<open>g\<close>, some events are taken from the
  front and new ones appended whose stamps lie between the two generations, in order.
\<close>

definition emits :: "('e \<Rightarrow> nat) \<Rightarrow> nat \<Rightarrow> 'e list \<times> nat \<Rightarrow> 'e list \<times> nat \<Rightarrow> bool" where
  "emits stamp c a b \<longleftrightarrow> snd a \<le> snd b \<and>
     (\<exists>n new. fst b = drop n (fst a) @ new \<and> sorted (map stamp new) \<and>
        (\<forall>e\<in>set new. snd a \<le> stamp e \<and> stamp e \<le> snd b)) \<and>
     (length (fst a) \<le> max 1 c \<longrightarrow> length (fst b) \<le> max 1 c)"

lemma emits_refl [simp]: "emits stamp c a a"
  unfolding emits_def by (auto intro!: exI [of _ 0] exI [of _ "[]"])

lemma emits_trans:
  assumes "emits stamp c a b" and "emits stamp c b d"
  shows "emits stamp c a d"
proof -
  obtain n new where 1: "fst b = drop n (fst a) @ new" "sorted (map stamp new)"
    "\<forall>e\<in>set new. snd a \<le> stamp e \<and> stamp e \<le> snd b" "snd a \<le> snd b"
    using assms(1) unfolding emits_def by blast
  obtain m more where 2: "fst d = drop m (fst b) @ more" "sorted (map stamp more)"
    "\<forall>e\<in>set more. snd b \<le> stamp e \<and> stamp e \<le> snd d" "snd b \<le> snd d"
    using assms(2) unfolding emits_def by blast
  define kept where "kept = drop (m - length (drop n (fst a))) new"
  have "fst d = drop (m + n) (fst a) @ (kept @ more)"
    by (simp add: 1(1) 2(1) kept_def)
  moreover have kept: "set kept \<subseteq> set new"
    by (simp add: kept_def set_drop_subset)
  moreover have "sorted (map stamp kept)"
    using 1(2) by (simp add: kept_def sorted_wrt_drop flip: drop_map)
  moreover have "\<forall>x\<in>set kept. \<forall>y\<in>set more. stamp x \<le> stamp y"
    using 1(3) 2(3) kept by (meson order_trans subsetD)
  ultimately have "\<exists>n new. fst d = drop n (fst a) @ new \<and> sorted (map stamp new) \<and>
      (\<forall>e\<in>set new. snd a \<le> stamp e \<and> stamp e \<le> snd d)"
    using 1(3,4) 2(2,3,4) by (intro exI [of _ "m + n"] exI [of _ "kept @ more"])
      (auto simp: sorted_append intro: order_trans)
  then show ?thesis
    using assms 1(4) 2(4) unfolding emits_def by auto
qed

lemma emits_publish: "emits stamp c (q, g) (announce c e d q, g)" if "stamp e = g" "stamp d = g"
proof (cases "length q < c")
  case True
  then show ?thesis
    using that unfolding emits_def by (auto simp: announce_cases intro!: exI [of _ 0] exI [of _ "[e]"])
next
  case False
  then show ?thesis
    using that unfolding emits_def
    by (auto simp: announce_cases intro!: exI [of _ "length q"] exI [of _ "[d]"])
qed

lemma emits_offer: "length q < c \<Longrightarrow> stamp e = g \<Longrightarrow> emits stamp c (q, g) (q @ [e], g)"
  unfolding emits_def by (auto intro!: exI [of _ 0] exI [of _ "[e]"])

lemma emits_pop: "emits stamp c (e # q, g) (q, g)"
  unfolding emits_def by (auto intro!: exI [of _ 1] exI [of _ "[]"])

lemma emits_generation: "g \<le> g' \<Longrightarrow> emits stamp c (q, g) (q, g')"
  unfolding emits_def by (auto intro!: exI [of _ 0] exI [of _ "[]"])

section \<open>The contract of a client\<close>

locale event_source =
  fixes step :: "'i \<Rightarrow> 's \<Rightarrow> 's" and ok :: "'s \<Rightarrow> bool" and events :: "'s \<Rightarrow> 'e list" and generation :: "'s \<Rightarrow> nat"
    and stamp :: "'e \<Rightarrow> nat" and capacity :: "'s \<Rightarrow> nat"
  assumes step_ok: "ok s \<Longrightarrow> ok (step i s)"
    and step_emits: "ok s \<Longrightarrow> emits stamp (capacity s) (events s, generation s) (events (step i s), generation (step i s))"
    and step_capacity: "ok s \<Longrightarrow> capacity (step i s) = capacity s"
begin

lemma run_emits:
  "ok s \<Longrightarrow> ok (fold step is s) \<and> capacity (fold step is s) = capacity s \<and>
   emits stamp (capacity s) (events s, generation s) (events (fold step is s), generation (fold step is s))"
proof (induction "is" arbitrary: s)
  case Nil
  then show ?case
    by simp
next
  case (Cons i "is")
  then show ?case
    using emits_trans [OF step_emits [of s i]] Cons.IH [OF step_ok, of s i] step_capacity [of s i] by simp
qed

text \<open>
  From a client with an empty queue, after any inputs: the queue is within its bound, its stamps are in
  order, and they lie between the two generations.
\<close>

lemma run_ordered:
  assumes "ok s" and "events s = []"
  shows "length (events (fold step is s)) \<le> max 1 (capacity s) \<and> sorted (map stamp (events (fold step is s))) \<and>
    generation s \<le> generation (fold step is s) \<and>
    (\<forall>e\<in>set (events (fold step is s)). generation s \<le> stamp e \<and> stamp e \<le> generation (fold step is s))"
  using run_emits [OF assms(1), of "is"] assms(2) unfolding emits_def by auto

end

end
