(* ===== verification/Private_Wss.thy ===== *)
theory Private_Wss
  imports Wallet_Codec Reconnect Event_Queue
begin

text \<open>
  The private WebSocket client (\<^verbatim>\<open>src/private_wss.cpp\<close>). All of its handlers run on one strand, so the
  client is a state and each handler a function on it. What the environment answers during a handler
  (the clock, the channel factory, the API key and JWT providers) is a \<open>ws_env\<close>; the completions of the
  channel and of the timers are inputs that carry the generation their handler captured, and may come
  in any order and at any time. A channel is named by the generation that opened it, a null pointer is
  \<open>None\<close>; calls on the channel are appended to \<open>pw_output\<close>. A call through a null channel, which is
  undefined behaviour, sets \<open>pw_fault\<close>. A timer is \<open>Some g\<close> while armed for generation \<open>g\<close>; its duration
  is the environment's. The notification \<^verbatim>\<open>event_ready\<close>, which the source calls from inside the handler, is taken as the
  wake-up that \<^verbatim>\<open>docs/API_REFERENCE.md\<close> describes: a host that calls the client from inside it is not
  modelled. The counters, which take years to reach \<open>2 ^ 64\<close> at a step per nanosecond, are
  natural numbers.
\<close>

section \<open>Data\<close>

datatype private_ws_state = pws_stopped | pws_connecting | pws_subscribing | pws_reconciliation_required | pws_live
  | pws_degraded | pws_reconnect_wait

datatype private_ws_event =
    Pws_State private_ws_state string nat
  | Pws_Data wallet_event bool nat

fun private_stamp :: "private_ws_event \<Rightarrow> nat" where
  "private_stamp (Pws_State st reason g) = g"
| "private_stamp (Pws_Data event rec g) = g"

record client_options =
  cp_host :: string
  cp_port :: string
  cp_target :: string
  cp_has_api_key :: bool
  cp_has_jwt :: bool
  cp_decode_limits :: decode_limits
  cp_max_pending_events :: nat

record private_stats =
  ps_generation :: nat
  ps_reconnects :: nat
  ps_messages :: nat
  ps_malformed_frames :: nat
  ps_queue_overflows :: nat
  ps_reconciliation_requests :: nat
  ps_reconnect_storm_cooldowns :: nat

record ws_env =
  en_now :: int
  en_channel :: bool
  en_api_key :: "string option"
  en_jwt :: "string option"

datatype channel_call = Call_Open nat string | Call_Read nat | Call_Write nat string | Call_Cancel nat

record private_ws =
  pw_options :: client_options
  pw_backoff :: reconnect_backoff
  pw_channel :: "nat option"
  pw_reconnect_timer :: "int option"
  pw_heartbeat_timer :: "nat option"
  pw_ack_timer :: "nat option"
  pw_next_request_id :: nat
  pw_pending_request_id :: int
  pw_generation :: nat
  pw_state :: private_ws_state
  pw_events :: "private_ws_event list"
  pw_stats :: private_stats
  pw_started :: bool
  pw_session_open :: bool
  pw_awaiting_ack :: bool
  pw_reconciled :: bool
  pw_reconnect_pending :: bool
  pw_output :: "channel_call list"
  pw_fault :: bool

section \<open>Operations\<close>

definition pw_capacity :: "private_ws \<Rightarrow> nat" where
  "pw_capacity s = cp_max_pending_events (pw_options s)"

definition pw_set_state :: "private_ws_state \<Rightarrow> string \<Rightarrow> bool \<Rightarrow> private_ws \<Rightarrow> private_ws" where
  "pw_set_state st reason force s =
     (if \<not> force \<and> pw_state s = st then s
      else s\<lparr>pw_state := st,
             pw_events := announce (pw_capacity s) (Pws_State st reason (pw_generation s))
                            (Pws_State pws_degraded ''state queue overflow'' (pw_generation s)) (pw_events s)\<rparr>)"

definition pw_cancel_channel :: "private_ws \<Rightarrow> private_ws" where
  "pw_cancel_channel s =
     s\<lparr>pw_output := pw_output s @ (case pw_channel s of None \<Rightarrow> [] | Some c \<Rightarrow> [Call_Cancel c]), pw_channel := None\<rparr>"

definition pw_schedule_reconnect :: "ws_env \<Rightarrow> string \<Rightarrow> private_ws \<Rightarrow> private_ws" where
  "pw_schedule_reconnect env reason s =
     (if \<not> pw_started s \<or> pw_reconnect_pending s then s
      else
        let s1 = (pw_cancel_channel s)\<lparr>pw_reconnect_pending := True, pw_heartbeat_timer := None, pw_ack_timer := None,
                   pw_session_open := False, pw_awaiting_ack := False, pw_reconciled := False,
                   pw_stats := (pw_stats s)\<lparr>ps_reconnects := ps_reconnects (pw_stats s) + 1\<rparr>\<rparr>
        in case next_attempt (en_now env) (pw_backoff s1) of
             (decision, backoff) \<Rightarrow>
               let s2 = s1\<lparr>pw_backoff := backoff,
                           pw_stats := (if rc_storm_cooldown decision
                             then (pw_stats s1)\<lparr>ps_reconnect_storm_cooldowns := ps_reconnect_storm_cooldowns (pw_stats s1) + 1\<rparr>
                             else pw_stats s1)\<rparr>;
                   text = (if rc_storm_cooldown decision
                           then reason @ ''; reconnect storm cooldown '' @ int_to_string (rc_delay decision) @ '' ms''
                           else reason)
               in (pw_set_state pws_reconnect_wait text True s2)\<lparr>pw_reconnect_timer := Some (rc_delay decision)\<rparr>)"

definition pw_hard_stop :: "string \<Rightarrow> private_ws \<Rightarrow> private_ws" where
  "pw_hard_stop reason s =
     pw_set_state pws_stopped reason True
       ((pw_cancel_channel s)\<lparr>pw_started := False, pw_session_open := False, pw_awaiting_ack := False,
          pw_reconciled := False, pw_reconnect_pending := False, pw_reconnect_timer := None,
          pw_heartbeat_timer := None, pw_ack_timer := None\<rparr>)"

definition pw_connect :: "ws_env \<Rightarrow> private_ws \<Rightarrow> private_ws" where
  "pw_connect env s =
     (if \<not> pw_started s then s
      else
        let g = ps_generation (pw_stats s) + 1;
            s1 = s\<lparr>pw_reconnect_pending := False, pw_stats := (pw_stats s)\<lparr>ps_generation := g\<rparr>, pw_generation := g,
                   pw_session_open := False, pw_awaiting_ack := False, pw_reconciled := False\<rparr>;
            s2 = (pw_set_state pws_connecting ''connecting'' True s1)\<lparr>pw_channel := (if en_channel env then Some g else None)\<rparr>
        in if \<not> en_channel env then pw_schedule_reconnect env ''WebSocket channel factory returned null'' s2
           else case en_api_key env of
                  None \<Rightarrow> pw_schedule_reconnect env ''private WebSocket API key provider failed'' s2
                | Some key \<Rightarrow>
                    if key = [] then pw_schedule_reconnect env ''private WebSocket API key is empty'' s2
                    else s2\<lparr>pw_output := pw_output s2 @ [Call_Open g key]\<rparr>)"

definition pw_begin :: "ws_env \<Rightarrow> private_ws \<Rightarrow> private_ws" where
  "pw_begin env s =
     (if pw_started s then s
      else if pw_capacity s = 0 then pw_hard_stop ''event queue capacity must be positive'' s
      else if cp_target (pw_options s) \<noteq> ''/ws'' \<or> cp_host (pw_options s) = [] \<or> cp_port (pw_options s) = []
      then pw_hard_stop ''private WebSocket endpoint must use the /ws path'' s
      else if \<not> cp_has_api_key (pw_options s) \<or> \<not> cp_has_jwt (pw_options s)
      then pw_hard_stop ''private WebSocket API key and JWT providers are required'' s
      else pw_connect env (s\<lparr>pw_started := True, pw_backoff := mark_stable (pw_backoff s)\<rparr>))"

definition pw_request_stop :: "private_ws \<Rightarrow> private_ws" where
  "pw_request_stop s = pw_hard_stop ''stopped by caller'' s"

definition pw_write :: "string \<Rightarrow> private_ws \<Rightarrow> private_ws" where
  "pw_write frame s =
     (case pw_channel s of
        None \<Rightarrow> s\<lparr>pw_fault := True\<rparr>
      | Some c \<Rightarrow> s\<lparr>pw_output := pw_output s @ [Call_Write c frame]\<rparr>)"

definition pw_read_next :: "nat \<Rightarrow> private_ws \<Rightarrow> private_ws" where
  "pw_read_next g s =
     (if \<not> pw_started s \<or> g \<noteq> pw_generation s then s
      else case pw_channel s of
             None \<Rightarrow> s
           | Some c \<Rightarrow> s\<lparr>pw_output := pw_output s @ [Call_Read c]\<rparr>)"

definition pw_arm_heartbeat :: "private_ws \<Rightarrow> private_ws" where
  "pw_arm_heartbeat s = s\<lparr>pw_heartbeat_timer := Some (pw_generation s)\<rparr>"

definition pw_arm_ack_timeout :: "nat \<Rightarrow> private_ws \<Rightarrow> private_ws" where
  "pw_arm_ack_timeout g s = s\<lparr>pw_ack_timer := Some g\<rparr>"

definition pw_subscribe :: "ws_env \<Rightarrow> private_ws \<Rightarrow> private_ws" where
  "pw_subscribe env s =
     (case en_jwt env of
        None \<Rightarrow> pw_schedule_reconnect env ''private WebSocket JWT provider failed'' s
      | Some jwt \<Rightarrow>
          if jwt = [] then pw_schedule_reconnect env ''private WebSocket JWT is empty'' s
          else
            let request_id = pw_next_request_id s; s1 = s\<lparr>pw_next_request_id := request_id + 1\<rparr> in
            case encode_wallet_subscribe_request request_id jwt of
              Inl e \<Rightarrow> pw_schedule_reconnect env (err_message e) s1
            | Inr frame \<Rightarrow> pw_write frame (s1\<lparr>pw_pending_request_id := int request_id, pw_awaiting_ack := True\<rparr>))"

definition pw_opened :: "ws_env \<Rightarrow> nat \<Rightarrow> unit result \<Rightarrow> private_ws \<Rightarrow> private_ws" where
  "pw_opened env g res s =
     (if \<not> pw_started s \<or> g \<noteq> pw_generation s then s
      else case res of
             Inl e \<Rightarrow> pw_schedule_reconnect env (err_message e) s
           | Inr _ \<Rightarrow>
               pw_arm_ack_timeout g (pw_subscribe env (pw_read_next g (pw_arm_heartbeat
                 (pw_set_state pws_subscribing ''connected; subscribing'' True (s\<lparr>pw_session_open := True\<rparr>))))))"

definition pw_wrote :: "ws_env \<Rightarrow> nat \<Rightarrow> unit result \<Rightarrow> private_ws \<Rightarrow> private_ws" where
  "pw_wrote env g res s =
     (if \<not> pw_started s \<or> g \<noteq> pw_generation s then s
      else case res of Inl e \<Rightarrow> pw_schedule_reconnect env (err_message e) s | Inr _ \<Rightarrow> s)"

definition pw_echo_heartbeat :: "ws_env \<Rightarrow> int \<Rightarrow> private_ws \<Rightarrow> private_ws" where
  "pw_echo_heartbeat env ts s =
     (let s1 = pw_arm_heartbeat s in
      case encode_heartbeat_response ts of
        Inl e \<Rightarrow> pw_schedule_reconnect env (err_message e) s1
      | Inr frame \<Rightarrow> pw_write frame s1)"

definition pw_handle_response :: "ws_env \<Rightarrow> subscription_response \<Rightarrow> private_ws \<Rightarrow> private_ws" where
  "pw_handle_response env response s =
     (if \<not> pw_awaiting_ack s \<or> sr_request_id response \<noteq> pw_pending_request_id s
      then pw_schedule_reconnect env ''unexpected private subscription response id'' s
      else
        let s1 = s\<lparr>pw_awaiting_ack := False, pw_ack_timer := None\<rparr> in
        if \<not> sr_success response
        then pw_schedule_reconnect env
               (case sr_error response of Some e \<Rightarrow> se_code e | None \<Rightarrow> ''subscription rejected'') s1
        else pw_set_state pws_reconciliation_required ''wallet subscription active; REST reconciliation required'' True
               (s1\<lparr>pw_reconciled := False,
                   pw_stats := (pw_stats s1)\<lparr>ps_reconciliation_requests := ps_reconciliation_requests (pw_stats s1) + 1\<rparr>\<rparr>))"

definition pw_deliver :: "ws_env \<Rightarrow> nat \<Rightarrow> wallet_event \<Rightarrow> private_ws \<Rightarrow> private_ws" where
  "pw_deliver env g event s =
     (case offer (pw_capacity s) (Pws_Data event (pw_reconciled s) (pw_generation s)) (pw_events s) of
        None \<Rightarrow> pw_schedule_reconnect env ''bounded event queue overflow; reconciliation required''
                  (s\<lparr>pw_stats := (pw_stats s)\<lparr>ps_queue_overflows := ps_queue_overflows (pw_stats s) + 1\<rparr>\<rparr>)
      | Some q \<Rightarrow> pw_read_next g (s\<lparr>pw_events := q\<rparr>))"

text \<open>The part of \<^verbatim>\<open>received\<close> that follows the count of the message.\<close>

definition pw_handle_frame :: "wallet_reader \<Rightarrow> ws_env \<Rightarrow> nat \<Rightarrow> string \<Rightarrow> private_ws \<Rightarrow> private_ws" where
  "pw_handle_frame rd env g frame s =
     (case decode_private_ws_frame rd frame (cp_decode_limits (pw_options s)) of
        Inl e \<Rightarrow> pw_schedule_reconnect env (err_message e)
                   (s\<lparr>pw_stats := (pw_stats s)\<lparr>ps_malformed_frames := ps_malformed_frames (pw_stats s) + 1\<rparr>\<rparr>)
      | Inr (Pw_Heartbeat ts) \<Rightarrow> pw_read_next g (pw_echo_heartbeat env ts s)
      | Inr (Pw_Response response) \<Rightarrow> pw_read_next g (pw_handle_response env response s)
      | Inr (Pw_Event event) \<Rightarrow> pw_deliver env g event s)"

definition pw_received :: "wallet_reader \<Rightarrow> ws_env \<Rightarrow> nat \<Rightarrow> string result \<Rightarrow> private_ws \<Rightarrow> private_ws" where
  "pw_received rd env g res s =
     (if \<not> pw_started s \<or> g \<noteq> pw_generation s then s
      else case res of
             Inl e \<Rightarrow> pw_schedule_reconnect env (err_message e) s
           | Inr frame \<Rightarrow>
               pw_handle_frame rd env g frame
                 (s\<lparr>pw_stats := (pw_stats s)\<lparr>ps_messages := ps_messages (pw_stats s) + 1\<rparr>\<rparr>))"

definition pw_reconcile :: "nat \<Rightarrow> private_ws \<Rightarrow> private_ws" where
  "pw_reconcile g s =
     (if \<not> pw_started s \<or> g \<noteq> pw_generation s \<or> pw_awaiting_ack s \<or> \<not> pw_session_open s \<or>
         pw_state s \<noteq> pws_reconciliation_required
      then s
      else pw_set_state pws_live ''wallet events live; REST reconciliation complete'' True
             (s\<lparr>pw_reconciled := True, pw_backoff := mark_stable (pw_backoff s)\<rparr>))"

definition pw_heartbeat_expired :: "ws_env \<Rightarrow> nat \<Rightarrow> private_ws \<Rightarrow> private_ws" where
  "pw_heartbeat_expired env g s =
     (if pw_started s \<and> g = pw_generation s
      then pw_schedule_reconnect env ''server heartbeat deadline exceeded'' s else s)"

definition pw_ack_expired :: "ws_env \<Rightarrow> nat \<Rightarrow> private_ws \<Rightarrow> private_ws" where
  "pw_ack_expired env g s =
     (if pw_started s \<and> g = pw_generation s \<and> pw_awaiting_ack s
      then pw_schedule_reconnect env ''private subscription acknowledgement timed out'' s else s)"

definition pw_reconnect_fired :: "ws_env \<Rightarrow> private_ws \<Rightarrow> private_ws" where
  "pw_reconnect_fired env s = pw_connect env (s\<lparr>pw_reconnect_pending := False\<rparr>)"

definition pw_pop :: "private_ws \<Rightarrow> private_ws_event option \<times> private_ws" where
  "pw_pop s = (case pw_events s of [] \<Rightarrow> (None, s) | e # q \<Rightarrow> (Some e, s\<lparr>pw_events := q\<rparr>))"

definition new_private_ws :: "client_options \<Rightarrow> reconnect_backoff \<Rightarrow> private_ws" where
  "new_private_ws options backoff =
     \<lparr>pw_options = options, pw_backoff = backoff, pw_channel = None, pw_reconnect_timer = None,
      pw_heartbeat_timer = None, pw_ack_timer = None, pw_next_request_id = 1, pw_pending_request_id = 0,
      pw_generation = 0, pw_state = pws_stopped, pw_events = [],
      pw_stats = \<lparr>ps_generation = 0, ps_reconnects = 0, ps_messages = 0, ps_malformed_frames = 0,
        ps_queue_overflows = 0, ps_reconciliation_requests = 0, ps_reconnect_storm_cooldowns = 0\<rparr>,
      pw_started = False, pw_session_open = False, pw_awaiting_ack = False, pw_reconciled = False,
      pw_reconnect_pending = False, pw_output = [], pw_fault = False\<rparr>"

section \<open>Inputs\<close>

datatype private_input = Pi_Start | Pi_Stop | Pi_Opened nat "unit result" | Pi_Wrote nat "unit result"
  | Pi_Received nat "string result" | Pi_Mark_Reconciled nat | Pi_Heartbeat_Expired nat | Pi_Ack_Expired nat
  | Pi_Reconnect_Fired | Pi_Pop

fun pw_step :: "wallet_reader \<Rightarrow> ws_env \<times> private_input \<Rightarrow> private_ws \<Rightarrow> private_ws" where
  "pw_step rd (env, Pi_Start) s = pw_begin env s"
| "pw_step rd (env, Pi_Stop) s = pw_request_stop s"
| "pw_step rd (env, Pi_Opened g res) s = pw_opened env g res s"
| "pw_step rd (env, Pi_Wrote g res) s = pw_wrote env g res s"
| "pw_step rd (env, Pi_Received g res) s = pw_received rd env g res s"
| "pw_step rd (env, Pi_Mark_Reconciled g) s = pw_reconcile g s"
| "pw_step rd (env, Pi_Heartbeat_Expired g) s = pw_heartbeat_expired env g s"
| "pw_step rd (env, Pi_Ack_Expired g) s = pw_ack_expired env g s"
| "pw_step rd (env, Pi_Reconnect_Fired) s = pw_reconnect_fired env s"
| "pw_step rd (env, Pi_Pop) s = snd (pw_pop s)"

section \<open>What the operations keep\<close>

lemmas pw_defs = pw_set_state_def pw_cancel_channel_def pw_schedule_reconnect_def pw_hard_stop_def pw_write_def
  pw_read_next_def pw_arm_heartbeat_def pw_arm_ack_timeout_def pw_request_stop_def

definition pw_ok :: "private_ws \<Rightarrow> bool" where
  "pw_ok s \<longleftrightarrow> pw_generation s = ps_generation (pw_stats s)"

text \<open>
  \<open>pw_quiet s s'\<close>: the step from \<open>s\<close> to \<open>s'\<close> neither turns the client live or reconciled nor delivers a
  wallet event, and it emits events as an event source does.
\<close>

definition pw_quiet :: "private_ws \<Rightarrow> private_ws \<Rightarrow> bool" where
  "pw_quiet s s' \<longleftrightarrow>
     (pw_ok s \<longrightarrow> pw_ok s' \<and>
        emits private_stamp (pw_capacity s) (pw_events s, pw_generation s) (pw_events s', pw_generation s')) \<and>
     pw_options s' = pw_options s \<and>
     (pw_reconciled s' \<longrightarrow> pw_reconciled s \<and> pw_generation s' = pw_generation s) \<and>
     (pw_state s' \<in> {pws_reconciliation_required, pws_live} \<longrightarrow>
        pw_state s' = pw_state s \<and> pw_generation s' = pw_generation s \<and> pw_reconciled s' = pw_reconciled s) \<and>
     (\<forall>ev b g. Pws_Data ev b g \<in> set (pw_events s') \<longrightarrow> Pws_Data ev b g \<in> set (pw_events s))"

lemma pw_quiet_refl [simp]: "pw_quiet s s"
  by (simp add: pw_quiet_def)

lemma pw_quiet_trans: "pw_quiet s t \<Longrightarrow> pw_quiet t u \<Longrightarrow> pw_quiet s u"
  unfolding pw_quiet_def pw_capacity_def by (auto intro: emits_trans)

lemma pw_quiet_view:
  assumes "pw_events s' = pw_events s" and "pw_generation s' = pw_generation s" and "pw_options s' = pw_options s"
    and "ps_generation (pw_stats s') = ps_generation (pw_stats s)" and "pw_state s' = pw_state s"
    and "pw_reconciled s' = pw_reconciled s"
  shows "pw_quiet s s'"
  using assms by (simp add: pw_quiet_def pw_ok_def)

lemma pw_quiet_set_state:
  assumes "st \<notin> {pws_reconciliation_required, pws_live}"
  shows "pw_quiet s (pw_set_state st reason True s)"
proof -
  have "emits private_stamp (pw_capacity s) (pw_events s, pw_generation s)
      (pw_events (pw_set_state st reason True s), pw_generation (pw_set_state st reason True s))"
    by (simp add: pw_set_state_def emits_publish)
  then show ?thesis
    using assms by (auto simp: pw_quiet_def pw_ok_def) (auto simp: pw_set_state_def announce_cases split: if_splits)
qed

text \<open>An operation that leaves the session and announces it.\<close>

lemma pw_quiet_publish:
  assumes "pw_events s' = announce (pw_capacity s) (Pws_State st reason (pw_generation s'))
      (Pws_State st' reason' (pw_generation s')) (pw_events s)"
    and "pw_ok s \<longrightarrow> pw_ok s' \<and> pw_generation s \<le> pw_generation s'" and "pw_options s' = pw_options s"
    and "\<not> pw_reconciled s'" and "pw_state s' \<notin> {pws_reconciliation_required, pws_live}"
  shows "pw_quiet s s'"
proof -
  have "emits private_stamp (pw_capacity s) (pw_events s, pw_generation s) (pw_events s', pw_generation s')"
    if "pw_generation s \<le> pw_generation s'"
    unfolding assms(1) by (rule emits_trans [OF emits_generation [OF that] emits_publish]) simp_all
  then show ?thesis
    using assms by (auto simp: pw_quiet_def announce_cases split: if_splits)
qed

lemma pw_quiet_schedule: "pw_quiet s (pw_schedule_reconnect env reason s)"
proof (cases "\<not> pw_started s \<or> pw_reconnect_pending s")
  case True
  then show ?thesis
    by (simp add: pw_schedule_reconnect_def)
next
  case False
  obtain decision backoff where "next_attempt (en_now env) (pw_backoff s) = (decision, backoff)"
    by fastforce
  then show ?thesis
    using False by (intro pw_quiet_publish [where st = pws_reconnect_wait and st' = pws_degraded
          and reason = "if rc_storm_cooldown decision then reason @ ''; reconnect storm cooldown '' @
            int_to_string (rc_delay decision) @ '' ms'' else reason" and reason' = "''state queue overflow''"])
      (simp_all add: pw_schedule_reconnect_def pw_cancel_channel_def pw_set_state_def pw_ok_def pw_capacity_def Let_def)
qed

lemma pw_quiet_hard_stop: "pw_quiet s (pw_hard_stop reason s)"
  by (rule pw_quiet_publish [where st = pws_stopped and st' = pws_degraded and reason = reason and reason' = "''state queue overflow''"])
    (simp_all add: pw_hard_stop_def pw_cancel_channel_def pw_set_state_def pw_ok_def pw_capacity_def)

lemma pw_quiet_calls: "pw_quiet s (pw_write frame s)" "pw_quiet s (pw_read_next g s)" "pw_quiet s (pw_arm_heartbeat s)"
  "pw_quiet s (pw_arm_ack_timeout g s)"
  by (auto simp: pw_defs pw_quiet_view split: option.splits)

lemma pw_quiet_connect: "pw_quiet s (pw_connect env s)"
proof (cases "pw_started s")
  case True
  define g where "g = ps_generation (pw_stats s) + 1"
  define s2 where "s2 = (pw_set_state pws_connecting ''connecting'' True
    (s\<lparr>pw_reconnect_pending := False, pw_stats := (pw_stats s)\<lparr>ps_generation := g\<rparr>, pw_generation := g,
       pw_session_open := False, pw_awaiting_ack := False, pw_reconciled := False\<rparr>))\<lparr>pw_channel := (if en_channel env then Some g else None)\<rparr>"
  have "pw_quiet s s2"
    by (rule pw_quiet_publish [where st = pws_connecting and st' = pws_degraded and reason = "''connecting''"
          and reason' = "''state queue overflow''"])
      (simp_all add: s2_def g_def pw_set_state_def pw_ok_def pw_capacity_def)
  moreover have "pw_quiet s2 (pw_connect env s)"
    using True unfolding pw_connect_def Let_def g_def [symmetric] s2_def [symmetric]
    by (auto intro: pw_quiet_schedule pw_quiet_view split: option.splits)
  ultimately show ?thesis
    by (rule pw_quiet_trans)
qed (simp add: pw_connect_def)

lemmas pw_quiet_intros = pw_quiet_schedule pw_quiet_hard_stop pw_quiet_calls pw_quiet_connect pw_quiet_set_state

lemma pw_quiet_begin: "pw_quiet s (pw_begin env s)"
proof -
  have "pw_quiet s (pw_connect env (s\<lparr>pw_started := True, pw_backoff := mark_stable (pw_backoff s)\<rparr>))"
    by (rule pw_quiet_trans [OF pw_quiet_view pw_quiet_connect]) simp_all
  then show ?thesis
    by (simp add: pw_begin_def pw_quiet_hard_stop)
qed

lemma pw_quiet_subscribe: "pw_quiet s (pw_subscribe env s)"
proof -
  have "pw_quiet s (pw_schedule_reconnect env r (s\<lparr>pw_next_request_id := n\<rparr>))"
    "pw_quiet s (pw_write f (s\<lparr>pw_next_request_id := n, pw_pending_request_id := k, pw_awaiting_ack := True\<rparr>))" for r n f k
    by (rule pw_quiet_trans [OF pw_quiet_view pw_quiet_schedule], simp_all)
      (rule pw_quiet_trans [OF pw_quiet_view pw_quiet_calls(1)], simp_all)
  then show ?thesis
    by (auto simp: pw_subscribe_def Let_def pw_quiet_schedule split: option.splits sum.splits)
qed

lemma pw_quiet_opened: "pw_quiet s (pw_opened env g res s)"
proof -
  define s1 where "s1 = pw_set_state pws_subscribing ''connected; subscribing'' True (s\<lparr>pw_session_open := True\<rparr>)"
  have "pw_quiet s s1"
    unfolding s1_def by (rule pw_quiet_trans [OF pw_quiet_view pw_quiet_set_state]) simp_all
  then have "pw_quiet s (pw_arm_ack_timeout g (pw_subscribe env (pw_read_next g (pw_arm_heartbeat s1))))"
    by (meson pw_quiet_trans pw_quiet_calls pw_quiet_subscribe)
  then show ?thesis
    by (auto simp: pw_opened_def s1_def pw_quiet_schedule split: sum.splits)
qed

lemma pw_quiet_echo: "pw_quiet s (pw_read_next g (pw_echo_heartbeat env ts s))"
  unfolding pw_echo_heartbeat_def Let_def
  by (cases "encode_heartbeat_response ts") (simp_all, (meson pw_quiet_trans pw_quiet_intros)+)

lemma pw_quiet_rest:
  "pw_quiet s (pw_wrote env g res s)" "pw_quiet s (pw_heartbeat_expired env g s)" "pw_quiet s (pw_ack_expired env g s)"
  "pw_quiet s (pw_reconnect_fired env s)" "pw_quiet s (pw_request_stop s)" "pw_quiet s (snd (pw_pop s))"
proof -
  show "pw_quiet s (pw_reconnect_fired env s)"
    unfolding pw_reconnect_fired_def by (rule pw_quiet_trans [OF pw_quiet_view pw_quiet_connect]) simp_all
  show "pw_quiet s (snd (pw_pop s))"
    by (cases "pw_events s") (auto simp: pw_pop_def pw_quiet_def pw_ok_def emits_pop)
qed (auto simp: pw_wrote_def pw_heartbeat_expired_def pw_ack_expired_def pw_request_stop_def pw_quiet_schedule
    pw_quiet_hard_stop split: sum.splits)

section \<open>Events in order\<close>

lemma pw_response_cases:
  obtains (quiet) "pw_quiet s (pw_handle_response env r s)"
  | (acknowledged) s1 where "sr_success r" "pw_awaiting_ack s" "sr_request_id r = pw_pending_request_id s"
    "pw_handle_response env r s = pw_set_state pws_reconciliation_required
       ''wallet subscription active; REST reconciliation required'' True s1"
    "\<not> pw_reconciled s1" "pw_events s1 = pw_events s" "pw_generation s1 = pw_generation s" "pw_options s1 = pw_options s"
    "ps_generation (pw_stats s1) = ps_generation (pw_stats s)" "pw_started s1 = pw_started s"
proof (cases "pw_awaiting_ack s \<and> sr_request_id r = pw_pending_request_id s \<and> sr_success r")
  case True
  then show ?thesis
    by (intro acknowledged [of "s\<lparr>pw_awaiting_ack := False, pw_ack_timer := None, pw_reconciled := False,
        pw_stats := (pw_stats s)\<lparr>ps_reconciliation_requests := ps_reconciliation_requests (pw_stats s) + 1\<rparr>\<rparr>"])
      (simp_all add: pw_handle_response_def)
next
  case False
  have "pw_quiet s (pw_schedule_reconnect env x (s\<lparr>pw_awaiting_ack := False, pw_ack_timer := None\<rparr>))" for x
    by (rule pw_quiet_trans [OF pw_quiet_view pw_quiet_schedule]) simp_all
  then show ?thesis
    using False by (intro quiet) (auto simp: pw_handle_response_def Let_def pw_quiet_schedule)
qed

text \<open>Every input keeps the generation counters equal and emits in order.\<close>

definition pw_emitting :: "private_ws \<Rightarrow> private_ws \<Rightarrow> bool" where
  "pw_emitting s s' \<longleftrightarrow> pw_capacity s' = pw_capacity s \<and>
     (pw_ok s \<longrightarrow> pw_ok s' \<and>
        emits private_stamp (pw_capacity s) (pw_events s, pw_generation s) (pw_events s', pw_generation s'))"

lemma pw_quiet_emitting: "pw_quiet s s' \<Longrightarrow> pw_emitting s s'"
  by (auto simp: pw_quiet_def pw_emitting_def pw_capacity_def)

lemma pw_emitting_trans: "pw_emitting s t \<Longrightarrow> pw_emitting t u \<Longrightarrow> pw_emitting s u"
  unfolding pw_emitting_def by (metis emits_trans)

lemma pw_emitting_set_state:
  assumes "pw_events t = pw_events s" and "pw_generation t = pw_generation s" and "pw_options t = pw_options s"
    and "ps_generation (pw_stats t) = ps_generation (pw_stats s)"
  shows "pw_emitting s (pw_set_state st reason True t)"
  using assms by (simp add: pw_emitting_def pw_set_state_def pw_ok_def pw_capacity_def emits_publish)

lemma pw_emitting_deliver: "pw_emitting s (pw_deliver env g ev s)"
proof (cases "length (pw_events s) < pw_capacity s")
  case True
  define s1 where "s1 = s\<lparr>pw_events := pw_events s @ [Pws_Data ev (pw_reconciled s) (pw_generation s)]\<rparr>"
  have "pw_emitting s s1"
    using True by (simp add: pw_emitting_def s1_def pw_ok_def pw_capacity_def emits_offer)
  moreover have "pw_deliver env g ev s = pw_read_next g s1"
    using True by (simp add: pw_deliver_def offer_def s1_def)
  ultimately show ?thesis
    using pw_emitting_trans pw_quiet_emitting pw_quiet_calls(2) by metis
next
  case False
  have "pw_quiet s (pw_schedule_reconnect env r (s\<lparr>pw_stats := (pw_stats s)\<lparr>ps_queue_overflows := n\<rparr>\<rparr>))" for r n
    by (rule pw_quiet_trans [OF pw_quiet_view pw_quiet_schedule]) simp_all
  then show ?thesis
    using False by (simp add: pw_deliver_def offer_def pw_quiet_emitting)
qed

lemma pw_quiet_malformed:
  "pw_quiet s (pw_schedule_reconnect env r (s\<lparr>pw_stats := (pw_stats s)\<lparr>ps_malformed_frames := n\<rparr>\<rparr>))"
  by (rule pw_quiet_trans [OF pw_quiet_view pw_quiet_schedule]) simp_all

lemma pw_quiet_message: "pw_quiet s (s\<lparr>pw_stats := (pw_stats s)\<lparr>ps_messages := n\<rparr>\<rparr>)"
  by (rule pw_quiet_view) simp_all

lemma pw_emitting_frame: "pw_emitting s (pw_handle_frame rd env g frame s)"
proof -
  have "pw_emitting s (pw_read_next g (pw_handle_response env r s))" for r
  proof (cases rule: pw_response_cases [of s env r])
    case quiet
    then show ?thesis
      using pw_quiet_trans pw_quiet_calls(2) pw_quiet_emitting by blast
  next
    case (acknowledged s1)
    then show ?thesis
      using pw_emitting_trans [OF pw_emitting_set_state [of s1 s] pw_quiet_emitting [OF pw_quiet_calls(2)]] by simp
  qed
  then show ?thesis
    using pw_quiet_emitting [OF pw_quiet_malformed] pw_quiet_emitting [OF pw_quiet_echo] pw_emitting_deliver
    by (simp add: pw_handle_frame_def split: sum.split private_ws_message.split)
qed

lemma pw_emitting_received: "pw_emitting s (pw_received rd env g res s)"
  using pw_emitting_trans [OF pw_quiet_emitting [OF pw_quiet_message] pw_emitting_frame]
    pw_quiet_emitting [OF pw_quiet_schedule]
  by (auto simp: pw_received_def pw_emitting_def [of s s] split: sum.split)

lemma pw_step_emitting: "pw_emitting s (pw_step rd i s)"
proof -
  have rec: "pw_emitting s (pw_reconcile g s)" for g
    by (auto simp: pw_reconcile_def pw_emitting_def [of s s] intro!: pw_emitting_set_state)
  obtain env j where i: "i = (env, j)"
    by (cases i)
  show ?thesis
    unfolding i by (cases j) (use pw_quiet_begin pw_quiet_opened pw_quiet_rest rec pw_emitting_received in
        \<open>auto intro: pw_quiet_emitting\<close>)
qed

interpretation private_source: event_source "pw_step rd" pw_ok pw_events pw_generation private_stamp pw_capacity for rd
  by unfold_locales (use pw_step_emitting in \<open>auto simp: pw_emitting_def\<close>)

text \<open>
  C27. Under any inputs, in any order, the events of the private client stay within the capacity of its
  queue and carry their connection generations in order, none of them from a generation that has not
  begun; an event queue of capacity zero holds at most the event that reports it.
\<close>

theorem private_events_ordered:
  "length (pw_events (fold (pw_step rd) is (new_private_ws options backoff))) \<le> max 1 (cp_max_pending_events options) \<and>
   sorted (map private_stamp (pw_events (fold (pw_step rd) is (new_private_ws options backoff)))) \<and>
   list_all (\<lambda>e. private_stamp e \<le> pw_generation (fold (pw_step rd) is (new_private_ws options backoff)))
     (pw_events (fold (pw_step rd) is (new_private_ws options backoff)))"
  using private_source.run_ordered [of "new_private_ws options backoff" rd "is"]
  by (simp add: new_private_ws_def pw_ok_def pw_capacity_def list_all_iff)

section \<open>Reconciliation gates wallet events\<close>

text \<open>
  What a trace of inputs has established for a generation: \<open>acknowledged_in\<close>, a successful answer to the
  subscription; \<open>marked_in\<close>, after such an answer, the host's mark that it has reconciled.
\<close>

definition acknowledged_in :: "wallet_reader \<Rightarrow> decode_limits \<Rightarrow> nat \<Rightarrow> (ws_env \<times> private_input) list \<Rightarrow> bool" where
  "acknowledged_in rd limits g is \<longleftrightarrow> (\<exists>env frame r. (env, Pi_Received g (Inr frame)) \<in> set is \<and>
     decode_private_ws_frame rd frame limits = Inr (Pw_Response r) \<and> sr_success r)"

definition marked_in :: "wallet_reader \<Rightarrow> decode_limits \<Rightarrow> nat \<Rightarrow> (ws_env \<times> private_input) list \<Rightarrow> bool" where
  "marked_in rd limits g is \<longleftrightarrow>
     (\<exists>pre post env. is = pre @ (env, Pi_Mark_Reconciled g) # post \<and> acknowledged_in rd limits g pre)"

lemma acknowledged_in_snoc: "acknowledged_in rd l g is \<Longrightarrow> acknowledged_in rd l g (is @ [i])"
  by (auto simp: acknowledged_in_def)

lemma marked_in_snoc: "marked_in rd l g is \<Longrightarrow> marked_in rd l g (is @ [i])"
  unfolding marked_in_def by (metis append.assoc append_Cons)

definition pw_gated :: "wallet_reader \<Rightarrow> decode_limits \<Rightarrow> (ws_env \<times> private_input) list \<Rightarrow> private_ws \<Rightarrow> bool" where
  "pw_gated rd l is s \<longleftrightarrow> cp_decode_limits (pw_options s) = l \<and>
     (pw_state s = pws_live \<longrightarrow> pw_reconciled s) \<and>
     (pw_state s \<in> {pws_reconciliation_required, pws_live} \<longrightarrow> acknowledged_in rd l (pw_generation s) is) \<and>
     (pw_reconciled s \<longrightarrow> marked_in rd l (pw_generation s) is) \<and>
     (\<forall>ev g. Pws_Data ev True g \<in> set (pw_events s) \<longrightarrow> marked_in rd l g is)"

lemma pw_gated_quiet: "pw_gated rd l is s \<Longrightarrow> pw_quiet s s' \<Longrightarrow> pw_gated rd l is s'"
  unfolding pw_gated_def pw_quiet_def by (metis insertCI)

lemma pw_gated_snoc: "pw_gated rd l is s \<Longrightarrow> pw_gated rd l (is @ [i]) s"
  unfolding pw_gated_def by (auto intro: acknowledged_in_snoc marked_in_snoc)

lemma pw_gated_set_state:
  assumes "pw_gated rd l is s" and "pw_events t = pw_events s" and "pw_generation t = pw_generation s"
    and "pw_options t = pw_options s" and "st = pws_live \<longrightarrow> pw_reconciled t"
    and "acknowledged_in rd l (pw_generation s) is" and "pw_reconciled t \<longrightarrow> marked_in rd l (pw_generation s) is"
  shows "pw_gated rd l is (pw_set_state st reason True t)"
  using assms by (auto simp: pw_gated_def pw_set_state_def announce_cases split: if_splits)

lemma pw_gated_deliver:
  assumes "pw_gated rd l is s"
  shows "pw_gated rd l is (pw_deliver env g ev s)"
proof (cases "length (pw_events s) < pw_capacity s")
  case True
  have "pw_gated rd l is (s\<lparr>pw_events := pw_events s @ [Pws_Data ev (pw_reconciled s) (pw_generation s)]\<rparr>)"
    using assms by (auto simp: pw_gated_def)
  then show ?thesis
    using True pw_gated_quiet [OF _ pw_quiet_calls(2)] by (simp add: pw_deliver_def offer_def)
next
  case False
  have "pw_quiet s (pw_schedule_reconnect env r (s\<lparr>pw_stats := (pw_stats s)\<lparr>ps_queue_overflows := n\<rparr>\<rparr>))" for r n
    by (rule pw_quiet_trans [OF pw_quiet_view pw_quiet_schedule]) simp_all
  then show ?thesis
    using False pw_gated_quiet [OF assms] by (simp add: pw_deliver_def offer_def)
qed

lemma pw_gated_frame:
  assumes "pw_gated rd l is s" and "(env, Pi_Received (pw_generation s) (Inr frame)) \<in> set is"
  shows "pw_gated rd l is (pw_handle_frame rd env g frame s)"
proof -
  have l: "cp_decode_limits (pw_options s) = l"
    using assms(1) by (simp add: pw_gated_def)
  have "pw_gated rd l is (pw_read_next g (pw_handle_response env r s))"
    if "decode_private_ws_frame rd frame l = Inr (Pw_Response r)" for r
  proof (cases rule: pw_response_cases [of s env r])
    case quiet
    then show ?thesis
      using pw_gated_quiet [OF assms(1)] pw_quiet_trans pw_quiet_calls(2) by blast
  next
    case (acknowledged s1)
    then have "acknowledged_in rd l (pw_generation s) is"
      using assms(2) that by (auto simp: acknowledged_in_def)
    then show ?thesis
      using acknowledged pw_gated_quiet [OF pw_gated_set_state [OF assms(1)] pw_quiet_calls(2)] by simp
  qed
  then show ?thesis
    using pw_gated_quiet [OF assms(1) pw_quiet_malformed] pw_gated_quiet [OF assms(1) pw_quiet_echo]
      pw_gated_deliver [OF assms(1)]
    by (simp add: pw_handle_frame_def l split: sum.split private_ws_message.split)
qed

lemma pw_gated_reconcile:
  assumes "pw_gated rd l is s"
  shows "pw_gated rd l (is @ [(env, Pi_Mark_Reconciled g)]) (pw_reconcile g s)"
proof (cases "\<not> pw_started s \<or> g \<noteq> pw_generation s \<or> pw_awaiting_ack s \<or> \<not> pw_session_open s \<or>
    pw_state s \<noteq> pws_reconciliation_required")
  case True
  then show ?thesis
    using pw_gated_snoc [OF assms] by (simp add: pw_reconcile_def)
next
  case False
  then have "acknowledged_in rd l g is"
    using assms by (simp add: pw_gated_def)
  then have "marked_in rd l g (is @ [(env, Pi_Mark_Reconciled g)])" "acknowledged_in rd l g (is @ [(env, Pi_Mark_Reconciled g)])"
    by (auto simp: marked_in_def intro: acknowledged_in_snoc)
  then show ?thesis
    using False pw_gated_set_state [OF pw_gated_snoc [OF assms], of "s\<lparr>pw_reconciled := True, pw_backoff := mark_stable (pw_backoff s)\<rparr>"]
    by (simp add: pw_reconcile_def)
qed

lemma pw_step_gated:
  assumes "pw_gated rd l is s"
  shows "pw_gated rd l (is @ [i]) (pw_step rd i s)"
proof -
  obtain env j where i: "i = (env, j)"
    by (cases i)
  note s = pw_gated_snoc [OF assms, of i]
  have "pw_gated rd l (is @ [i]) (pw_received rd env g res s)" if "j = Pi_Received g res" for g res
  proof -
    note m = pw_gated_quiet [OF s pw_quiet_message]
    show ?thesis
      using s pw_gated_quiet [OF s pw_quiet_schedule] pw_gated_frame [OF m] that
      by (auto simp: pw_received_def i split: sum.split)
  qed
  then show ?thesis
    using pw_gated_quiet [OF s] pw_quiet_begin pw_quiet_opened pw_quiet_rest pw_gated_reconcile [OF assms]
    by (cases j) (auto simp: i)
qed

lemma pw_run_gated:
  "pw_gated rd (cp_decode_limits options) is (fold (pw_step rd) is (new_private_ws options backoff))"
proof (induction "is" rule: rev_induct)
  case Nil
  then show ?case
    by (simp add: pw_gated_def new_private_ws_def)
next
  case (snoc i "is")
  then show ?case
    using pw_step_gated by simp
qed

text \<open>
  C25. A wallet event reaches the host as reconciled only in a generation in which the venue acknowledged
  the subscription and, after that, the host marked the generation as reconciled; and the client reports
  itself live only then. This holds under every order of completions, timers, frames, stops and restarts,
  so that events of a new connection are never taken as reconciled by the mark of an old one.
\<close>

theorem private_events_gated:
  "(\<forall>ev g. Pws_Data ev True g \<in> set (pw_events (fold (pw_step rd) is (new_private_ws options backoff))) \<longrightarrow>
      marked_in rd (cp_decode_limits options) g is) \<and>
   (pw_state (fold (pw_step rd) is (new_private_ws options backoff)) = pws_live \<longrightarrow>
      marked_in rd (cp_decode_limits options) (pw_generation (fold (pw_step rd) is (new_private_ws options backoff))) is)"
  using pw_run_gated [of rd options "is" backoff] by (auto simp: pw_gated_def)

definition sample_env :: ws_env where
  "sample_env = \<lparr>en_now = 5, en_channel = True, en_api_key = Some ''key'', en_jwt = Some ''jwt''\<rparr>"

definition sample_client_options :: client_options where
  "sample_client_options = \<lparr>cp_host = ''h'', cp_port = ''443'', cp_target = ''/ws'', cp_has_api_key = True, cp_has_jwt = True,
     cp_decode_limits = default_limits, cp_max_pending_events = 8\<rparr>"

definition sample_private_reader :: wallet_reader where
  "sample_private_reader = \<lparr>war_envelope = (\<lambda>s.
       if s = ''ack'' then Some \<lparr>wv_type = Some ''R'', wv_request_id = Some 1, wv_success = Some True, wv_error = None,
         wv_topic = None, wv_data = None\<rparr>
       else if s = ''beat'' then Some \<lparr>wv_type = Some ''M'', wv_request_id = None, wv_success = None, wv_error = None,
         wv_topic = Some ''heartbeat'', wv_data = Some ''9''\<rparr>
       else war_envelope sample_wallet_reader s),
     war_int64 = (\<lambda>s. Some 9), war_event = war_event sample_wallet_reader\<rparr>"

definition sample_trace :: "(ws_env \<times> private_input) list" where
  "sample_trace = map (Pair sample_env) [Pi_Start, Pi_Opened 1 (Inr ()), Pi_Received 1 (Inr ''ack''), Pi_Mark_Reconciled 1,
     Pi_Received 1 (Inr ''event'')]"

lemma sample_trace_delivers:
  "list_ex (\<lambda>e. case e of Pws_Data ev b g \<Rightarrow> b \<and> g = 1 | _ \<Rightarrow> False)
     (pw_events (fold (pw_step sample_private_reader) sample_trace (new_private_ws sample_client_options default_backoff)))"
  by code_simp

theorem private_events_gated_witness:
  "(\<exists>ev. Pws_Data ev True 1 \<in>
      set (pw_events (fold (pw_step sample_private_reader) sample_trace (new_private_ws sample_client_options default_backoff)))) \<and>
   marked_in sample_private_reader default_limits 1 sample_trace"
proof -
  have "\<exists>ev. Pws_Data ev True 1 \<in>
      set (pw_events (fold (pw_step sample_private_reader) sample_trace (new_private_ws sample_client_options default_backoff)))"
  proof -
    obtain e where e: "e \<in> set (pw_events (fold (pw_step sample_private_reader) sample_trace
        (new_private_ws sample_client_options default_backoff)))"
      "case e of Pws_Data ev b g \<Rightarrow> b \<and> g = 1 | _ \<Rightarrow> False"
      using sample_trace_delivers by (auto simp: list_ex_iff)
    show ?thesis
      by (cases e rule: private_ws_event.exhaust) (use e in auto)
  qed
  then show ?thesis
    using private_events_gated [of sample_private_reader sample_trace sample_client_options default_backoff]
    by (auto simp: sample_client_options_def)
qed

section \<open>Frames after a lost connection\<close>

text \<open>
  A reconnect resets the channel but keeps the generation until the timer fires. A frame whose read had
  already completed then is still handled as one of the current generation.
\<close>

lemma pw_fault_kept [simp]:
  "pw_fault (pw_set_state st r f s) = pw_fault s" "pw_fault (pw_schedule_reconnect env r s) = pw_fault s"
  "pw_fault (pw_hard_stop r s) = pw_fault s" "pw_fault (pw_read_next g s) = pw_fault s"
  by (simp_all add: pw_defs Let_def split: prod.split option.split)

lemma pw_fault_passed [simp]:
  "pw_fault (pw_connect env s) = pw_fault s" "pw_fault (pw_deliver env g ev s) = pw_fault s"
  "pw_fault (pw_handle_response env r s) = pw_fault s"
  by (simp_all add: pw_connect_def pw_deliver_def pw_handle_response_def Let_def split: option.split)

text \<open>No other input can reach a null channel, but for an open completion after the channel is gone.\<close>

lemma pw_fault_only:
  assumes "\<not> pw_fault s" and "pw_fault (pw_step rd (env, i) s)"
  shows "pw_started s \<and> pw_channel s = None \<and>
    ((\<exists>frame ts. i = Pi_Received (pw_generation s) (Inr frame) \<and>
       decode_private_ws_frame rd frame (cp_decode_limits (pw_options s)) = Inr (Pw_Heartbeat ts)) \<or>
     (\<exists>u. i = Pi_Opened (pw_generation s) (Inr u)))"
proof (cases i)
  case (Pi_Opened g res)
  have "pw_fault (pw_subscribe env t) \<Longrightarrow> pw_fault t \<or> pw_channel t = None" for t
    by (auto simp: pw_subscribe_def pw_write_def Let_def split: option.splits sum.splits if_splits)
  from this [of "pw_read_next g (pw_arm_heartbeat (pw_set_state pws_subscribing ''connected; subscribing'' True
      (s\<lparr>pw_session_open := True\<rparr>)))"] show ?thesis
    using assms Pi_Opened
    by (auto simp: pw_opened_def pw_arm_ack_timeout_def pw_arm_heartbeat_def pw_read_next_def pw_set_state_def
        split: sum.splits if_splits option.splits)
next
  case (Pi_Received g res)
  then show ?thesis
    using assms by (auto simp: pw_received_def pw_handle_frame_def pw_echo_heartbeat_def pw_write_def pw_arm_heartbeat_def
        Let_def split: sum.splits private_ws_message.splits if_splits option.splits)
qed (use assms in \<open>auto simp: pw_begin_def pw_request_stop_def pw_wrote_def pw_reconcile_def pw_heartbeat_expired_def
    pw_ack_expired_def pw_reconnect_fired_def pw_pop_def split: sum.splits if_splits list.splits\<close>)

text \<open>
  C28. A heartbeat frame that is handled between the loss of a connection and the next connect is echoed
  through the reset channel pointer: the handler checks the generation, which has not changed, and not
  the channel.
\<close>

theorem late_heartbeat_null_channel:
  assumes "pw_started s" and "pw_reconnect_pending s" and "pw_channel s = None"
    and "decode_private_ws_frame rd frame (cp_decode_limits (pw_options s)) = Inr (Pw_Heartbeat ts)" and "0 < ts"
  shows "pw_fault (pw_step rd (env, Pi_Received (pw_generation s) (Inr frame)) s)"
proof -
  obtain f where "encode_heartbeat_response ts = Inr f"
    using assms(5) by (simp add: encode_heartbeat_response_def)
  then show ?thesis
    using assms by (simp add: pw_received_def pw_handle_frame_def pw_echo_heartbeat_def Let_def pw_defs)
qed

definition lost_trace :: "(ws_env \<times> private_input) list" where
  "lost_trace = map (Pair sample_env) [Pi_Start, Pi_Opened 1 (Inr ()), Pi_Wrote 1 (Inl (mk_error write_failure ''reset'' ''''))]"

definition lost_client :: private_ws where
  "lost_client = fold (pw_step sample_private_reader) lost_trace (new_private_ws sample_client_options default_backoff)"

lemma lost_client_facts: "pw_started lost_client \<and> pw_reconnect_pending lost_client \<and> pw_channel lost_client = None \<and>
   pw_generation lost_client = 1 \<and> cp_decode_limits (pw_options lost_client) = default_limits"
  by code_simp

theorem late_heartbeat_null_channel_witness:
  "pw_fault (fold (pw_step sample_private_reader) (lost_trace @ [(sample_env, Pi_Received 1 (Inr ''beat''))])
     (new_private_ws sample_client_options default_backoff))"
proof -
  have "decode_private_ws_frame sample_private_reader ''beat'' default_limits = Inr (Pw_Heartbeat 9)"
    by code_simp
  then show ?thesis
    using late_heartbeat_null_channel [of lost_client sample_private_reader "''beat''" 9 sample_env] lost_client_facts
    by (simp add: lost_client_def)
qed

end
