(* ===== verification/Public_Wss.thy ===== *)
theory Public_Wss
  imports Private_Wss
begin

text \<open>
  The public WebSocket client (\<^verbatim>\<open>src/public_wss.cpp\<close>), modelled as the private one: one function per
  handler of the strand, with the environment's answers, completions and timers as inputs, calls on the
  channel as output, and a call through a null channel as \<open>pu_fault\<close>. \<open>topics\<close> is the \<^verbatim>\<open>std::map\<close> by name: an
  association list kept in the order of the names. \<open>pending\<close> is a map from request ids of which only lookup,
  insertion, erasure and emptiness are used. As there, \<^verbatim>\<open>event_ready\<close> only wakes the host: it does not call the client from
  inside the notification.
\<close>

section \<open>Data\<close>

datatype public_ws_state = pub_stopped | pub_connecting | pub_subscribing | pub_synchronizing | pub_live
  | pub_degraded | pub_reconnect_wait

datatype public_ws_event =
    Pub_State public_ws_state string nat
  | Pub_Data public_topic public_ws_message bool nat

fun public_stamp :: "public_ws_event \<Rightarrow> nat" where
  "public_stamp (Pub_State st reason g) = g"
| "public_stamp (Pub_Data topic message fresh g) = g"

record topic_runtime =
  tr_topic :: public_topic
  tr_acknowledged :: bool
  tr_fresh :: bool
  tr_last_timestamp :: "int option"

record pending_request =
  pr_subscribe :: bool
  pr_topic_name :: string

record public_stats =
  bs_generation :: nat
  bs_reconnects :: nat
  bs_messages :: nat
  bs_malformed_frames :: nat
  bs_stale_frames :: nat
  bs_queue_overflows :: nat
  bs_reconnect_storm_cooldowns :: nat

type_synonym topic_map = "(string \<times> topic_runtime) list"

record public_ws =
  pu_options :: client_options
  pu_backoff :: reconnect_backoff
  pu_channel :: "nat option"
  pu_reconnect_timer :: "int option"
  pu_heartbeat_timer :: "nat option"
  pu_ack_timer :: "nat option"
  pu_topics :: topic_map
  pu_pending :: "(int \<times> pending_request) list"
  pu_next_request_id :: nat
  pu_generation :: nat
  pu_state :: public_ws_state
  pu_events :: "public_ws_event list"
  pu_stats :: public_stats
  pu_started :: bool
  pu_session_open :: bool
  pu_reconnect_pending :: bool
  pu_output :: "channel_call list"
  pu_fault :: bool

section \<open>Messages and topics\<close>

definition snapshot_backed :: "public_topic_kind \<Rightarrow> bool" where
  "snapshot_backed k \<longleftrightarrow> k = topic_orderbook \<or> k = topic_trading_status \<or> k = topic_market_status"

fun message_timestamp :: "public_ws_message \<Rightarrow> int option" where
  "message_timestamp (Ws_Orderbook v b) = Some (ob_update_timestamp_ms b)"
| "message_timestamp (Ws_Trading_Status ts i s) = Some ts"
| "message_timestamp (Ws_Market_Status mm) = Some (mm_timestamp_ms mm)"
| "message_timestamp (Ws_Market_Changed ts i p) = Some ts"
| "message_timestamp (Ws_Category_Changed ts i s p) = Some ts"
| "message_timestamp m = None"

fun message_kind :: "public_ws_message \<Rightarrow> public_topic_kind option" where
  "message_kind (Ws_Orderbook v b) = Some topic_orderbook"
| "message_kind (Ws_Trading_Status ts i s) = Some topic_trading_status"
| "message_kind (Ws_Market_Status mm) = Some topic_market_status"
| "message_kind (Ws_Market_Changed ts i p) = Some topic_market_changed"
| "message_kind (Ws_Category_Changed ts i s p) = Some topic_category_changed"
| "message_kind m = None"

fun message_parameter :: "public_ws_message \<Rightarrow> nat option" where
  "message_parameter (Ws_Orderbook v b) = Some (ob_market_id b)"
| "message_parameter (Ws_Trading_Status ts i s) = Some i"
| "message_parameter (Ws_Market_Status mm) = Some (mm_market_id mm)"
| "message_parameter (Ws_Market_Changed ts i p) = Some i"
| "message_parameter (Ws_Category_Changed ts i s p) = Some i"
| "message_parameter m = None"

definition fresh_runtime :: "public_topic \<Rightarrow> topic_runtime" where
  "fresh_runtime t = \<lparr>tr_topic = t, tr_acknowledged = False, tr_fresh = False, tr_last_timestamp = None\<rparr>"

definition reset_runtime :: "topic_runtime \<Rightarrow> topic_runtime" where
  "reset_runtime r = r\<lparr>tr_acknowledged := False, tr_fresh := False, tr_last_timestamp := None\<rparr>"

definition reset_topics :: "topic_map \<Rightarrow> topic_map" where
  "reset_topics ts = map (\<lambda>(n, r). (n, reset_runtime r)) ts"

text \<open>\<^verbatim>\<open>emplace\<close>, \<^verbatim>\<open>erase\<close> and the update of a found element.\<close>

fun emplace_topic :: "string \<Rightarrow> topic_runtime \<Rightarrow> topic_map \<Rightarrow> topic_map" where
  "emplace_topic n r [] = [(n, r)]"
| "emplace_topic n r ((m, q) # ts) =
     (if n = m then (m, q) # ts else if str_less n m then (n, r) # (m, q) # ts else (m, q) # emplace_topic n r ts)"

definition erase_topic :: "string \<Rightarrow> topic_map \<Rightarrow> topic_map" where
  "erase_topic n ts = filter (\<lambda>e. fst e \<noteq> n) ts"

definition update_topic :: "string \<Rightarrow> (topic_runtime \<Rightarrow> topic_runtime) \<Rightarrow> topic_map \<Rightarrow> topic_map" where
  "update_topic n f ts = map (\<lambda>(m, r). (m, if m = n then f r else r)) ts"

definition find_message_topic :: "public_topic_kind \<Rightarrow> nat \<Rightarrow> topic_map \<Rightarrow> (string \<times> topic_runtime) option" where
  "find_message_topic k p ts = find (\<lambda>e. pt_kind (tr_topic (snd e)) = k \<and> pt_parameter (tr_topic (snd e)) = p) ts"

text \<open>The precision resolver of \<^verbatim>\<open>received\<close>: the first topic of the market that has a precision.\<close>

definition topic_resolver :: "topic_map \<Rightarrow> nat \<Rightarrow> nat option" where
  "topic_resolver ts market =
     (case find (\<lambda>e. pt_parameter (tr_topic (snd e)) = market \<and> pt_decimal_precision (tr_topic (snd e)) \<noteq> None) ts of
        None \<Rightarrow> None | Some e \<Rightarrow> pt_decimal_precision (tr_topic (snd e)))"

section \<open>Operations\<close>

definition pu_capacity :: "public_ws \<Rightarrow> nat" where
  "pu_capacity s = cp_max_pending_events (pu_options s)"

definition pu_set_state :: "public_ws_state \<Rightarrow> string \<Rightarrow> bool \<Rightarrow> public_ws \<Rightarrow> public_ws" where
  "pu_set_state st reason force s =
     (if \<not> force \<and> pu_state s = st then s
      else s\<lparr>pu_state := st,
             pu_events := announce (pu_capacity s) (Pub_State st reason (pu_generation s))
                            (Pub_State pub_degraded ''state queue overflow'' (pu_generation s)) (pu_events s)\<rparr>)"

definition pu_cancel_channel :: "public_ws \<Rightarrow> public_ws" where
  "pu_cancel_channel s =
     s\<lparr>pu_output := pu_output s @ (case pu_channel s of None \<Rightarrow> [] | Some c \<Rightarrow> [Call_Cancel c]), pu_channel := None\<rparr>"

definition pu_schedule_reconnect :: "ws_env \<Rightarrow> string \<Rightarrow> public_ws \<Rightarrow> public_ws" where
  "pu_schedule_reconnect env reason s =
     (if \<not> pu_started s \<or> pu_reconnect_pending s then s
      else
        let s1 = (pu_cancel_channel s)\<lparr>pu_reconnect_pending := True, pu_heartbeat_timer := None, pu_ack_timer := None,
                   pu_session_open := False, pu_pending := [], pu_topics := reset_topics (pu_topics s),
                   pu_stats := (pu_stats s)\<lparr>bs_reconnects := bs_reconnects (pu_stats s) + 1\<rparr>\<rparr>
        in case next_attempt (en_now env) (pu_backoff s1) of
             (decision, backoff) \<Rightarrow>
               let s2 = s1\<lparr>pu_backoff := backoff,
                           pu_stats := (if rc_storm_cooldown decision
                             then (pu_stats s1)\<lparr>bs_reconnect_storm_cooldowns := bs_reconnect_storm_cooldowns (pu_stats s1) + 1\<rparr>
                             else pu_stats s1)\<rparr>;
                   text = (if rc_storm_cooldown decision
                           then reason @ ''; reconnect storm cooldown '' @ int_to_string (rc_delay decision) @ '' ms''
                           else reason)
               in (pu_set_state pub_reconnect_wait text True s2)\<lparr>pu_reconnect_timer := Some (rc_delay decision)\<rparr>)"

definition pu_hard_stop :: "string \<Rightarrow> public_ws \<Rightarrow> public_ws" where
  "pu_hard_stop reason s =
     pu_set_state pub_stopped reason True
       ((pu_cancel_channel s)\<lparr>pu_started := False, pu_session_open := False, pu_reconnect_pending := False,
          pu_reconnect_timer := None, pu_heartbeat_timer := None, pu_ack_timer := None, pu_pending := []\<rparr>)"

definition pu_connect :: "ws_env \<Rightarrow> public_ws \<Rightarrow> public_ws" where
  "pu_connect env s =
     (if \<not> pu_started s then s
      else
        let g = bs_generation (pu_stats s) + 1;
            s1 = s\<lparr>pu_reconnect_pending := False, pu_stats := (pu_stats s)\<lparr>bs_generation := g\<rparr>, pu_generation := g,
                   pu_topics := reset_topics (pu_topics s), pu_pending := []\<rparr>;
            s2 = (pu_set_state pub_connecting ''connecting'' True s1)\<lparr>pu_channel := (if en_channel env then Some g else None)\<rparr>
        in if \<not> en_channel env then pu_schedule_reconnect env ''WebSocket channel factory returned null'' s2
           else case en_api_key env of
                  None \<Rightarrow> pu_schedule_reconnect env ''public WebSocket API key provider failed'' s2
                | Some key \<Rightarrow>
                    if key = [] then pu_schedule_reconnect env ''public WebSocket API key is empty'' s2
                    else s2\<lparr>pu_output := pu_output s2 @ [Call_Open g key]\<rparr>)"

text \<open>
  The loop of \<^verbatim>\<open>begin\<close> over the topics: the map is filled as the loop goes, and keeps what was inserted
  before an error. \<open>seen\<close> is the local set \<^verbatim>\<open>unique\<close>.
\<close>

fun begin_topics :: "string list \<Rightarrow> public_topic list \<Rightarrow> topic_map \<Rightarrow> string option \<times> topic_map" where
  "begin_topics seen [] ts = (None, ts)"
| "begin_topics seen (t # rest) ts =
     (case public_topic_name t of
        Inl e \<Rightarrow> (Some (err_message e), ts)
      | Inr name \<Rightarrow>
          if name \<in> set seen then (Some ''duplicate public WebSocket topic'', ts)
          else begin_topics (name # seen) rest (emplace_topic name (fresh_runtime t) ts))"

definition pu_begin :: "ws_env \<Rightarrow> public_topic list \<Rightarrow> public_ws \<Rightarrow> public_ws" where
  "pu_begin env topics s =
     (if pu_started s then s
      else if pu_capacity s = 0 then pu_hard_stop ''event queue capacity must be positive'' s
      else if cp_target (pu_options s) \<noteq> ''/ws'' \<or> cp_host (pu_options s) = [] \<or> cp_port (pu_options s) = []
      then pu_hard_stop ''public WebSocket endpoint must use the /ws path'' s
      else if \<not> cp_has_api_key (pu_options s) then pu_hard_stop ''public WebSocket API key is required'' s
      else if topics = [] then pu_hard_stop ''at least one public topic is required'' s
      else case begin_topics [] topics (pu_topics s) of
             (Some reason, ts) \<Rightarrow> pu_hard_stop reason (s\<lparr>pu_topics := ts\<rparr>)
           | (None, ts) \<Rightarrow> pu_connect env (s\<lparr>pu_topics := ts, pu_started := True, pu_backoff := mark_stable (pu_backoff s)\<rparr>))"

definition pu_request_stop :: "public_ws \<Rightarrow> public_ws" where
  "pu_request_stop s = pu_hard_stop ''stopped by caller'' s"

definition pu_write :: "string \<Rightarrow> public_ws \<Rightarrow> public_ws" where
  "pu_write frame s =
     (case pu_channel s of
        None \<Rightarrow> s\<lparr>pu_fault := True\<rparr>
      | Some c \<Rightarrow> s\<lparr>pu_output := pu_output s @ [Call_Write c frame]\<rparr>)"

definition pu_read_next :: "nat \<Rightarrow> public_ws \<Rightarrow> public_ws" where
  "pu_read_next g s =
     (if \<not> pu_started s \<or> g \<noteq> pu_generation s then s
      else case pu_channel s of
             None \<Rightarrow> s
           | Some c \<Rightarrow> s\<lparr>pu_output := pu_output s @ [Call_Read c]\<rparr>)"

definition pu_arm_heartbeat :: "public_ws \<Rightarrow> public_ws" where
  "pu_arm_heartbeat s = s\<lparr>pu_heartbeat_timer := Some (pu_generation s)\<rparr>"

definition pu_arm_ack_timeout :: "nat \<Rightarrow> public_ws \<Rightarrow> public_ws" where
  "pu_arm_ack_timeout g s = s\<lparr>pu_ack_timer := Some g\<rparr>"

definition pu_send_subscription :: "ws_env \<Rightarrow> string \<Rightarrow> bool \<Rightarrow> public_ws \<Rightarrow> public_ws" where
  "pu_send_subscription env name is_subscribe s =
     (case map_of (pu_topics s) name of
        None \<Rightarrow> s
      | Some runtime \<Rightarrow>
          let request_id = pu_next_request_id s; s1 = s\<lparr>pu_next_request_id := request_id + 1\<rparr> in
          case (if is_subscribe then encode_subscribe_request request_id (tr_topic runtime)
                else encode_unsubscribe_request request_id (tr_topic runtime)) of
            Inl e \<Rightarrow> pu_schedule_reconnect env (err_message e) s1
          | Inr frame \<Rightarrow>
              pu_write frame (s1\<lparr>pu_pending := (case map_of (pu_pending s) (int request_id) of
                  None \<Rightarrow> (int request_id, \<lparr>pr_subscribe = is_subscribe, pr_topic_name = name\<rparr>) # pu_pending s
                | Some _ \<Rightarrow> pu_pending s)\<rparr>))"

definition pu_opened :: "ws_env \<Rightarrow> nat \<Rightarrow> unit result \<Rightarrow> public_ws \<Rightarrow> public_ws" where
  "pu_opened env g res s =
     (if \<not> pu_started s \<or> g \<noteq> pu_generation s then s
      else case res of
             Inl e \<Rightarrow> pu_schedule_reconnect env (err_message e) s
           | Inr _ \<Rightarrow>
               let s1 = pu_read_next g (pu_arm_heartbeat
                     (pu_set_state pub_subscribing ''connected; subscribing'' True (s\<lparr>pu_session_open := True\<rparr>)))
               in pu_arm_ack_timeout g (fold (\<lambda>e. pu_send_subscription env (fst e) True) (pu_topics s1) s1))"

definition pu_wrote :: "ws_env \<Rightarrow> nat \<Rightarrow> unit result \<Rightarrow> public_ws \<Rightarrow> public_ws" where
  "pu_wrote env g res s =
     (if \<not> pu_started s \<or> g \<noteq> pu_generation s then s
      else case res of Inl e \<Rightarrow> pu_schedule_reconnect env (err_message e) s | Inr _ \<Rightarrow> s)"

definition pu_update_freshness_state :: "public_ws \<Rightarrow> public_ws" where
  "pu_update_freshness_state s =
     (if \<not> pu_started s then s
      else if \<not> list_all (\<lambda>e. tr_acknowledged (snd e)) (pu_topics s)
      then pu_set_state pub_subscribing ''awaiting subscription acks'' False s
      else if \<not> list_all (\<lambda>e. tr_fresh (snd e)) (pu_topics s)
      then pu_set_state pub_synchronizing ''subscription acknowledged; awaiting best-effort snapshots'' False s
      else
        let s1 = (if pu_state s \<noteq> pub_live then s\<lparr>pu_backoff := mark_stable (pu_backoff s)\<rparr> else s)
        in pu_set_state pub_live ''all desired public topics are fresh'' False s1)"

definition pu_echo_heartbeat :: "ws_env \<Rightarrow> int \<Rightarrow> public_ws \<Rightarrow> public_ws" where
  "pu_echo_heartbeat env ts s =
     (let s1 = pu_arm_heartbeat s in
      case encode_heartbeat_response ts of
        Inl e \<Rightarrow> pu_schedule_reconnect env (err_message e) s1
      | Inr frame \<Rightarrow> pu_write frame s1)"

definition acknowledge :: "topic_runtime \<Rightarrow> topic_runtime" where
  "acknowledge r = r\<lparr>tr_acknowledged := True, tr_fresh := (if snapshot_backed (pt_kind (tr_topic r)) then tr_fresh r else True)\<rparr>"

definition pu_settle_response :: "public_ws \<Rightarrow> public_ws" where
  "pu_settle_response s =
     (let s1 = pu_update_freshness_state s in if pu_pending s1 = [] then s1\<lparr>pu_ack_timer := None\<rparr> else s1)"

definition pu_handle_response :: "ws_env \<Rightarrow> subscription_response \<Rightarrow> public_ws \<Rightarrow> public_ws" where
  "pu_handle_response env response s =
     (case map_of (pu_pending s) (sr_request_id response) of
        None \<Rightarrow> pu_schedule_reconnect env ''unexpected subscription response id'' s
      | Some request \<Rightarrow>
          let s1 = s\<lparr>pu_pending := filter (\<lambda>e. fst e \<noteq> sr_request_id response) (pu_pending s)\<rparr> in
          if \<not> sr_success response
          then pu_schedule_reconnect env
                 (case sr_error response of Some e \<Rightarrow> se_code e | None \<Rightarrow> ''subscription rejected'') s1
          else if pr_subscribe request
          then (case map_of (pu_topics s1) (pr_topic_name request) of
                  None \<Rightarrow> pu_schedule_reconnect env ''acknowledged topic is no longer desired'' s1
                | Some r \<Rightarrow> pu_settle_response (s1\<lparr>pu_topics := update_topic (pr_topic_name request) acknowledge (pu_topics s1)\<rparr>))
          else pu_settle_response (s1\<lparr>pu_topics := erase_topic (pr_topic_name request) (pu_topics s1)\<rparr>))"

definition touch :: "int option \<Rightarrow> topic_runtime \<Rightarrow> topic_runtime" where
  "touch ts r = r\<lparr>tr_last_timestamp := (if ts = None then tr_last_timestamp r else ts), tr_fresh := True\<rparr>"

definition pu_deliver :: "ws_env \<Rightarrow> public_topic \<Rightarrow> public_ws_message \<Rightarrow> public_ws \<Rightarrow> public_ws" where
  "pu_deliver env topic message s =
     (case offer (pu_capacity s) (Pub_Data topic message True (pu_generation s)) (pu_events s) of
        Some q \<Rightarrow> s\<lparr>pu_events := q\<rparr>
      | None \<Rightarrow> pu_schedule_reconnect env ''bounded event queue overflow; resync required''
                  (s\<lparr>pu_stats := (pu_stats s)\<lparr>bs_queue_overflows := bs_queue_overflows (pu_stats s) + 1\<rparr>\<rparr>))"

definition pu_handle_data :: "ws_env \<Rightarrow> public_ws_message \<Rightarrow> public_ws \<Rightarrow> public_ws" where
  "pu_handle_data env message s =
     (case (message_kind message, message_parameter message) of
        (Some kind, Some parameter) \<Rightarrow>
          (case find_message_topic kind parameter (pu_topics s) of
             None \<Rightarrow> pu_schedule_reconnect env ''message arrived for an unsubscribed topic'' s
           | Some (name, runtime) \<Rightarrow>
               let ts = message_timestamp message in
               if (case (ts, tr_last_timestamp runtime) of (Some t, Some l) \<Rightarrow> t < l | _ \<Rightarrow> False)
               then pu_schedule_reconnect env ''topic timestamp regressed; resync required''
                      (s\<lparr>pu_stats := (pu_stats s)\<lparr>bs_stale_frames := bs_stale_frames (pu_stats s) + 1\<rparr>\<rparr>)
               else
                 pu_deliver env (tr_topic runtime) message
                   (pu_update_freshness_state (s\<lparr>pu_topics := update_topic name (touch ts) (pu_topics s)\<rparr>)))
      | _ \<Rightarrow> pu_schedule_reconnect env ''message cannot be mapped to a public topic'' s)"

text \<open>The part of \<^verbatim>\<open>received\<close> that follows the count of the message.\<close>

definition pu_handle_frame :: "ws_reader \<Rightarrow> ws_env \<Rightarrow> nat \<Rightarrow> string \<Rightarrow> public_ws \<Rightarrow> public_ws" where
  "pu_handle_frame rd env g frame s =
     (case decode_public_ws_frame rd frame (topic_resolver (pu_topics s)) (cp_decode_limits (pu_options s)) of
        Inl e \<Rightarrow> pu_schedule_reconnect env (err_message e)
                   (s\<lparr>pu_stats := (pu_stats s)\<lparr>bs_malformed_frames := bs_malformed_frames (pu_stats s) + 1\<rparr>\<rparr>)
      | Inr (Ws_Heartbeat ts) \<Rightarrow> pu_read_next g (pu_echo_heartbeat env ts s)
      | Inr (Ws_Response response) \<Rightarrow> pu_read_next g (pu_handle_response env response s)
      | Inr (Ws_Unknown topic) \<Rightarrow>
          pu_read_next g (pu_set_state pub_degraded ''unknown public topic received; ignored'' True s)
      | Inr message \<Rightarrow> pu_read_next g (pu_handle_data env message s))"

definition pu_received :: "ws_reader \<Rightarrow> ws_env \<Rightarrow> nat \<Rightarrow> string result \<Rightarrow> public_ws \<Rightarrow> public_ws" where
  "pu_received rd env g res s =
     (if \<not> pu_started s \<or> g \<noteq> pu_generation s then s
      else case res of
             Inl e \<Rightarrow> pu_schedule_reconnect env (err_message e) s
           | Inr frame \<Rightarrow>
               pu_handle_frame rd env g frame
                 (s\<lparr>pu_stats := (pu_stats s)\<lparr>bs_messages := bs_messages (pu_stats s) + 1\<rparr>\<rparr>))"

definition pu_heartbeat_expired :: "ws_env \<Rightarrow> nat \<Rightarrow> public_ws \<Rightarrow> public_ws" where
  "pu_heartbeat_expired env g s =
     (if pu_started s \<and> g = pu_generation s
      then pu_schedule_reconnect env ''server heartbeat deadline exceeded'' s else s)"

definition pu_ack_expired :: "ws_env \<Rightarrow> nat \<Rightarrow> public_ws \<Rightarrow> public_ws" where
  "pu_ack_expired env g s =
     (if pu_started s \<and> g = pu_generation s \<and> pu_pending s \<noteq> []
      then pu_schedule_reconnect env ''subscription acknowledgement timed out'' s else s)"

definition pu_reconnect_fired :: "ws_env \<Rightarrow> public_ws \<Rightarrow> public_ws" where
  "pu_reconnect_fired env s = pu_connect env (s\<lparr>pu_reconnect_pending := False\<rparr>)"

definition pu_add_topic :: "ws_env \<Rightarrow> public_topic \<Rightarrow> public_ws \<Rightarrow> public_ws" where
  "pu_add_topic env topic s =
     (case public_topic_name topic of
        Inl e \<Rightarrow> pu_set_state pub_degraded (err_message e) True s
      | Inr name \<Rightarrow>
          if map_of (pu_topics s) name \<noteq> None then s
          else
            let s1 = s\<lparr>pu_topics := emplace_topic name (fresh_runtime topic) (pu_topics s)\<rparr> in
            if pu_started s1 \<and> pu_session_open s1 \<and> pu_channel s1 \<noteq> None
            then (let s2 = pu_send_subscription env name True s1 in pu_arm_ack_timeout (pu_generation s2) s2) else s1)"

definition pu_remove_topic :: "ws_env \<Rightarrow> public_topic \<Rightarrow> public_ws \<Rightarrow> public_ws" where
  "pu_remove_topic env topic s =
     (case public_topic_name topic of
        Inl e \<Rightarrow> s
      | Inr name \<Rightarrow>
          if map_of (pu_topics s) name = None then s
          else if pu_started s \<and> pu_session_open s \<and> pu_channel s \<noteq> None
          then (let s2 = pu_send_subscription env name False s in pu_arm_ack_timeout (pu_generation s2) s2)
          else s\<lparr>pu_topics := erase_topic name (pu_topics s)\<rparr>)"

definition pu_pop :: "public_ws \<Rightarrow> public_ws_event option \<times> public_ws" where
  "pu_pop s = (case pu_events s of [] \<Rightarrow> (None, s) | e # q \<Rightarrow> (Some e, s\<lparr>pu_events := q\<rparr>))"

definition new_public_ws :: "client_options \<Rightarrow> reconnect_backoff \<Rightarrow> public_ws" where
  "new_public_ws options backoff =
     \<lparr>pu_options = options, pu_backoff = backoff, pu_channel = None, pu_reconnect_timer = None,
      pu_heartbeat_timer = None, pu_ack_timer = None, pu_topics = [], pu_pending = [], pu_next_request_id = 1,
      pu_generation = 0, pu_state = pub_stopped, pu_events = [],
      pu_stats = \<lparr>bs_generation = 0, bs_reconnects = 0, bs_messages = 0, bs_malformed_frames = 0, bs_stale_frames = 0,
        bs_queue_overflows = 0, bs_reconnect_storm_cooldowns = 0\<rparr>,
      pu_started = False, pu_session_open = False, pu_reconnect_pending = False, pu_output = [], pu_fault = False\<rparr>"

section \<open>Inputs\<close>

datatype public_input = Bi_Start "public_topic list" | Bi_Stop | Bi_Opened nat "unit result" | Bi_Wrote nat "unit result"
  | Bi_Received nat "string result" | Bi_Heartbeat_Expired nat | Bi_Ack_Expired nat | Bi_Reconnect_Fired
  | Bi_Subscribe public_topic | Bi_Unsubscribe public_topic | Bi_Pop

fun pu_step :: "ws_reader \<Rightarrow> ws_env \<times> public_input \<Rightarrow> public_ws \<Rightarrow> public_ws" where
  "pu_step rd (env, Bi_Start topics) s = pu_begin env topics s"
| "pu_step rd (env, Bi_Stop) s = pu_request_stop s"
| "pu_step rd (env, Bi_Opened g res) s = pu_opened env g res s"
| "pu_step rd (env, Bi_Wrote g res) s = pu_wrote env g res s"
| "pu_step rd (env, Bi_Received g res) s = pu_received rd env g res s"
| "pu_step rd (env, Bi_Heartbeat_Expired g) s = pu_heartbeat_expired env g s"
| "pu_step rd (env, Bi_Ack_Expired g) s = pu_ack_expired env g s"
| "pu_step rd (env, Bi_Reconnect_Fired) s = pu_reconnect_fired env s"
| "pu_step rd (env, Bi_Subscribe topic) s = pu_add_topic env topic s"
| "pu_step rd (env, Bi_Unsubscribe topic) s = pu_remove_topic env topic s"
| "pu_step rd (env, Bi_Pop) s = snd (pu_pop s)"

section \<open>Events in order\<close>

definition pu_ok :: "public_ws \<Rightarrow> bool" where
  "pu_ok s \<longleftrightarrow> pu_generation s = bs_generation (pu_stats s)"

definition pu_emitting :: "public_ws \<Rightarrow> public_ws \<Rightarrow> bool" where
  "pu_emitting s s' \<longleftrightarrow> pu_options s' = pu_options s \<and>
     (pu_ok s \<longrightarrow> pu_ok s' \<and>
        emits public_stamp (pu_capacity s) (pu_events s, pu_generation s) (pu_events s', pu_generation s'))"

lemma pu_emitting_refl [simp]: "pu_emitting s s"
  by (simp add: pu_emitting_def)

lemma pu_emitting_trans: "pu_emitting s t \<Longrightarrow> pu_emitting t u \<Longrightarrow> pu_emitting s u"
  unfolding pu_emitting_def pu_capacity_def by (metis emits_trans)

text \<open>An update that leaves the events and the generation alone, and one that announces a state.\<close>

lemma pu_emitting_view:
  "pu_events s' = pu_events s \<Longrightarrow> pu_generation s' = pu_generation s \<Longrightarrow> pu_options s' = pu_options s \<Longrightarrow>
   bs_generation (pu_stats s') = bs_generation (pu_stats s) \<Longrightarrow> pu_emitting s s'"
  by (simp add: pu_emitting_def pu_ok_def)

lemma pu_emitting_set_state: "pu_emitting s (pu_set_state st reason force s)"
  by (simp add: pu_emitting_def pu_set_state_def pu_ok_def emits_publish)

lemma pu_emitting_then:
  assumes "pu_emitting t u" and "pu_events t = pu_events s" and "pu_generation t = pu_generation s"
    and "pu_options t = pu_options s" and "bs_generation (pu_stats t) = bs_generation (pu_stats s)"
  shows "pu_emitting s u"
  using pu_emitting_trans [OF pu_emitting_view] assms by blast

lemma pu_emitting_schedule: "pu_emitting s (pu_schedule_reconnect env reason s)"
proof (cases "\<not> pu_started s \<or> pu_reconnect_pending s")
  case False
  obtain decision backoff where "next_attempt (en_now env) (pu_backoff s) = (decision, backoff)"
    by fastforce
  then show ?thesis
    using False by (simp add: pu_schedule_reconnect_def pu_cancel_channel_def pu_emitting_def pu_set_state_def pu_ok_def
        pu_capacity_def emits_publish Let_def)
qed (auto simp: pu_schedule_reconnect_def)

lemma pu_emitting_hard_stop: "pu_emitting s (pu_hard_stop reason s)"
  by (simp add: pu_hard_stop_def pu_cancel_channel_def pu_emitting_def pu_set_state_def pu_ok_def pu_capacity_def emits_publish)

lemma pu_emitting_calls: "pu_emitting s (pu_write frame s)" "pu_emitting s (pu_read_next g s)"
  "pu_emitting s (pu_arm_heartbeat s)" "pu_emitting s (pu_arm_ack_timeout g s)"
  by (auto simp: pu_write_def pu_read_next_def pu_arm_heartbeat_def pu_arm_ack_timeout_def pu_emitting_view split: option.splits)

lemma pu_emitting_connect: "pu_emitting s (pu_connect env s)"
proof (cases "pu_started s")
  case True
  define g where "g = bs_generation (pu_stats s) + 1"
  define s1 where "s1 = s\<lparr>pu_reconnect_pending := False, pu_stats := (pu_stats s)\<lparr>bs_generation := g\<rparr>, pu_generation := g,
     pu_topics := reset_topics (pu_topics s), pu_pending := []\<rparr>"
  define s2 where "s2 = (pu_set_state pub_connecting ''connecting'' True s1)\<lparr>pu_channel := (if en_channel env then Some g else None)\<rparr>"
  have "pu_emitting s s1"
    by (auto simp: pu_emitting_def s1_def g_def pu_ok_def intro: emits_generation)
  moreover have "pu_emitting s1 s2"
    unfolding s2_def by (rule pu_emitting_trans [OF pu_emitting_set_state pu_emitting_view]) simp_all
  moreover have "pu_emitting s2 (pu_connect env s)"
    using True unfolding pu_connect_def Let_def g_def [symmetric] s1_def [symmetric] s2_def [symmetric]
    by (auto intro: pu_emitting_schedule pu_emitting_view split: option.splits)
  ultimately show ?thesis
    using pu_emitting_trans by blast
qed (simp add: pu_connect_def)

lemma pu_emitting_begin: "pu_emitting s (pu_begin env topics s)"
  by (auto simp: pu_begin_def pu_emitting_hard_stop pu_emitting_then [OF pu_emitting_hard_stop]
      pu_emitting_then [OF pu_emitting_connect] split: prod.splits option.splits)

lemma pu_emitting_send: "pu_emitting s (pu_send_subscription env name b s)"
  by (auto simp: pu_send_subscription_def Let_def pu_emitting_then [OF pu_emitting_schedule]
      pu_emitting_then [OF pu_emitting_calls(1)] split: option.splits sum.splits)

lemma pu_emitting_sends: "pu_emitting s (fold (\<lambda>e. pu_send_subscription env (fst e) b) ts s)"
  by (induction ts arbitrary: s) (auto intro: pu_emitting_trans pu_emitting_send)

lemma pu_emitting_opened: "pu_emitting s (pu_opened env g res s)"
proof -
  define s1 where "s1 = pu_read_next g (pu_arm_heartbeat
    (pu_set_state pub_subscribing ''connected; subscribing'' True (s\<lparr>pu_session_open := True\<rparr>)))"
  have "pu_emitting s s1"
    unfolding s1_def
    by (rule pu_emitting_trans [OF pu_emitting_trans [OF pu_emitting_then [OF pu_emitting_set_state] pu_emitting_calls(3)]
          pu_emitting_calls(2)]) simp_all
  then have "pu_emitting s (pu_arm_ack_timeout g (fold (\<lambda>e. pu_send_subscription env (fst e) True) (pu_topics s1) s1))"
    using pu_emitting_trans pu_emitting_sends pu_emitting_calls(4) by blast
  then show ?thesis
    unfolding pu_opened_def Let_def s1_def [symmetric] by (auto simp: pu_emitting_schedule split: sum.splits)
qed

lemma pu_emitting_freshness: "pu_emitting s (pu_update_freshness_state s)"
  by (auto simp: pu_update_freshness_state_def Let_def pu_emitting_set_state pu_emitting_then [OF pu_emitting_set_state])

lemma pu_emitting_response: "pu_emitting s (pu_handle_response env r s)"
proof -
  have "pu_emitting t (pu_settle_response t)" for t
    unfolding pu_settle_response_def Let_def
    using pu_emitting_freshness [of t] pu_emitting_trans [OF pu_emitting_freshness [of t] pu_emitting_view] by simp
  then have "pu_emitting s (pu_settle_response t)" if "pu_events t = pu_events s" "pu_generation t = pu_generation s"
    "pu_options t = pu_options s" "bs_generation (pu_stats t) = bs_generation (pu_stats s)" for t
    using that pu_emitting_then by blast
  then show ?thesis
    by (auto simp: pu_handle_response_def Let_def pu_emitting_schedule pu_emitting_then [OF pu_emitting_schedule]
        split: option.splits)
qed

lemma pu_emitting_data: "pu_emitting s (pu_handle_data env m s)"
proof -
  have deliver: "pu_emitting t (pu_deliver env x m t)" for t x
    by (auto simp: pu_deliver_def pu_emitting_then [OF pu_emitting_schedule] pu_emitting_def [of t "t\<lparr>pu_events := _\<rparr>"]
        pu_ok_def intro: emits_offer split: option.splits)
  have "pu_emitting s (pu_update_freshness_state (s\<lparr>pu_topics := ts\<rparr>))" for ts
    by (rule pu_emitting_then [OF pu_emitting_freshness]) simp_all
  from pu_emitting_trans [OF this deliver] show ?thesis
    unfolding pu_handle_data_def Let_def
    by (auto simp: pu_emitting_schedule pu_emitting_then [OF pu_emitting_schedule] split: option.split prod.split)
qed

lemma pu_emitting_frame: "pu_emitting s (pu_handle_frame rd env g frame s)"
proof -
  have echo: "pu_emitting s (pu_echo_heartbeat env ts s)" for ts
    unfolding pu_echo_heartbeat_def Let_def using pu_emitting_calls(3) [of s]
    by (auto split: sum.split intro: pu_emitting_trans pu_emitting_schedule pu_emitting_calls)
  show ?thesis
    unfolding pu_handle_frame_def
    using pu_emitting_trans [OF _ pu_emitting_calls(2), of s] echo pu_emitting_response pu_emitting_data
      pu_emitting_set_state pu_emitting_then [OF pu_emitting_schedule]
    by (simp split: sum.split public_ws_message.split)
qed

lemma pu_step_emitting: "pu_emitting s (pu_step rd i s)"
proof -
  obtain env j where i: "i = (env, j)"
    by (cases i)
  have rec: "pu_emitting s (pu_received rd env g res s)" for g res
    using pu_emitting_then [OF pu_emitting_frame] by (auto simp: pu_received_def pu_emitting_schedule split: sum.split)
  have add: "pu_emitting s (pu_add_topic env t s)" "pu_emitting s (pu_remove_topic env t s)" for t
    unfolding pu_add_topic_def pu_remove_topic_def Let_def
    using pu_emitting_then [OF pu_emitting_trans [OF pu_emitting_send pu_emitting_calls(4)]]
    by (auto simp: pu_emitting_set_state intro: pu_emitting_view split: sum.split)
  have pop: "pu_emitting s (snd (pu_pop s))"
    by (cases "pu_events s") (auto simp: pu_pop_def pu_emitting_def pu_ok_def emits_pop)
  show ?thesis
    unfolding i by (cases j) (auto simp: pu_emitting_begin pu_emitting_opened rec add pop pu_request_stop_def
        pu_emitting_hard_stop pu_wrote_def pu_heartbeat_expired_def pu_ack_expired_def pu_reconnect_fired_def
        pu_emitting_schedule pu_emitting_then [OF pu_emitting_connect] split: sum.splits)
qed

interpretation public_source: event_source "pu_step rd" pu_ok pu_events pu_generation public_stamp pu_capacity for rd
  by unfold_locales (use pu_step_emitting in \<open>auto simp: pu_emitting_def pu_capacity_def\<close>)

lemma public_events_ordered:
  "length (pu_events (fold (pu_step rd) is (new_public_ws options backoff))) \<le> max 1 (cp_max_pending_events options) \<and>
   sorted (map public_stamp (pu_events (fold (pu_step rd) is (new_public_ws options backoff)))) \<and>
   list_all (\<lambda>e. public_stamp e \<le> pu_generation (fold (pu_step rd) is (new_public_ws options backoff)))
     (pu_events (fold (pu_step rd) is (new_public_ws options backoff)))"
  using public_source.run_ordered [of "new_public_ws options backoff" rd "is"]
  by (simp add: new_public_ws_def pu_ok_def pu_capacity_def list_all_iff)

section \<open>Live means fresh\<close>

text \<open>Every topic whose name is not in \<open>N\<close> has been acknowledged and is fresh.\<close>

definition all_fresh :: "string set \<Rightarrow> topic_map \<Rightarrow> bool" where
  "all_fresh N ts \<longleftrightarrow> list_all (\<lambda>e. fst e \<in> N \<or> tr_acknowledged (snd e) \<and> tr_fresh (snd e)) ts"

definition pu_live_ok :: "string set \<Rightarrow> public_ws \<Rightarrow> bool" where
  "pu_live_ok N s \<longleftrightarrow> (pu_state s = pub_live \<longrightarrow> pu_started s \<and> all_fresh N (pu_topics s))"

text \<open>An update that keeps the state and does not make the client less fresh.\<close>

lemma pu_live_view:
  "pu_live_ok N s \<Longrightarrow> pu_state s' = pu_state s \<Longrightarrow> pu_started s' = pu_started s \<Longrightarrow>
   (all_fresh N (pu_topics s) \<longrightarrow> all_fresh N (pu_topics s')) \<Longrightarrow> pu_live_ok N s'"
  by (auto simp: pu_live_ok_def)

lemma pu_set_state_sel [simp]: "pu_state (pu_set_state st r f s) = st" "pu_started (pu_set_state st r f s) = pu_started s"
  "pu_topics (pu_set_state st r f s) = pu_topics s" "pu_channel (pu_set_state st r f s) = pu_channel s"
  "pu_generation (pu_set_state st r f s) = pu_generation s" "pu_pending (pu_set_state st r f s) = pu_pending s"
  "pu_options (pu_set_state st r f s) = pu_options s" "pu_stats (pu_set_state st r f s) = pu_stats s"
  by (simp_all add: pu_set_state_def)

lemma pu_calls_sel [simp]:
  "pu_state (pu_write frame s) = pu_state s" "pu_started (pu_write frame s) = pu_started s"
  "pu_topics (pu_write frame s) = pu_topics s" "pu_pending (pu_write frame s) = pu_pending s"
  "pu_events (pu_write frame s) = pu_events s" "pu_generation (pu_write frame s) = pu_generation s"
  "pu_channel (pu_write frame s) = pu_channel s" "pu_stats (pu_write frame s) = pu_stats s"
  "pu_state (pu_read_next g s) = pu_state s" "pu_started (pu_read_next g s) = pu_started s"
  "pu_topics (pu_read_next g s) = pu_topics s" "pu_pending (pu_read_next g s) = pu_pending s"
  "pu_events (pu_read_next g s) = pu_events s" "pu_generation (pu_read_next g s) = pu_generation s"
  "pu_channel (pu_read_next g s) = pu_channel s" "pu_stats (pu_read_next g s) = pu_stats s"
  "pu_state (pu_arm_heartbeat s) = pu_state s" "pu_started (pu_arm_heartbeat s) = pu_started s"
  "pu_topics (pu_arm_heartbeat s) = pu_topics s" "pu_pending (pu_arm_heartbeat s) = pu_pending s"
  "pu_events (pu_arm_heartbeat s) = pu_events s" "pu_generation (pu_arm_heartbeat s) = pu_generation s"
  "pu_channel (pu_arm_heartbeat s) = pu_channel s" "pu_stats (pu_arm_heartbeat s) = pu_stats s"
  "pu_state (pu_arm_ack_timeout g s) = pu_state s" "pu_started (pu_arm_ack_timeout g s) = pu_started s"
  "pu_topics (pu_arm_ack_timeout g s) = pu_topics s" "pu_pending (pu_arm_ack_timeout g s) = pu_pending s"
  "pu_events (pu_arm_ack_timeout g s) = pu_events s" "pu_generation (pu_arm_ack_timeout g s) = pu_generation s"
  "pu_channel (pu_arm_ack_timeout g s) = pu_channel s" "pu_stats (pu_arm_ack_timeout g s) = pu_stats s"
  by (simp_all add: pu_write_def pu_read_next_def pu_arm_heartbeat_def pu_arm_ack_timeout_def split: option.split)

text \<open>What a reconnect does, when it does anything.\<close>

lemma pu_schedule_cases:
  obtains (noop) "pu_schedule_reconnect env reason s = s"
  | (lost) msg where "pu_started s" "\<not> pu_reconnect_pending s"
    "pu_state (pu_schedule_reconnect env reason s) = pub_reconnect_wait" "pu_started (pu_schedule_reconnect env reason s)"
    "pu_topics (pu_schedule_reconnect env reason s) = reset_topics (pu_topics s)"
    "pu_pending (pu_schedule_reconnect env reason s) = []" "pu_channel (pu_schedule_reconnect env reason s) = None"
    "pu_generation (pu_schedule_reconnect env reason s) = pu_generation s"
    "bs_generation (pu_stats (pu_schedule_reconnect env reason s)) = bs_generation (pu_stats s)"
    "pu_events (pu_schedule_reconnect env reason s) = announce (pu_capacity s) (Pub_State pub_reconnect_wait msg (pu_generation s))
       (Pub_State pub_degraded ''state queue overflow'' (pu_generation s)) (pu_events s)"
proof (cases "\<not> pu_started s \<or> pu_reconnect_pending s")
  case True
  then show ?thesis
    by (intro noop) (auto simp: pu_schedule_reconnect_def)
next
  case False
  obtain decision backoff where "next_attempt (en_now env) (pu_backoff s) = (decision, backoff)"
    by fastforce
  then show ?thesis
    using False by (intro lost [of "if rc_storm_cooldown decision then reason @ ''; reconnect storm cooldown '' @
        int_to_string (rc_delay decision) @ '' ms'' else reason"])
      (simp_all add: pu_schedule_reconnect_def pu_cancel_channel_def pu_set_state_def pu_capacity_def Let_def)
qed

lemma pu_live_schedule: "pu_live_ok N s \<Longrightarrow> pu_live_ok N (pu_schedule_reconnect env r s)"
  by (rule pu_schedule_cases [of env r s]) (auto simp: pu_live_ok_def)

lemma pu_live_reschedule:
  "pu_live_ok N s \<Longrightarrow> pu_state t = pu_state s \<Longrightarrow> pu_started t = pu_started s \<Longrightarrow> pu_topics t = pu_topics s \<Longrightarrow>
   pu_live_ok N (pu_schedule_reconnect env r t)"
  by (rule pu_live_schedule) (auto simp: pu_live_ok_def)

lemma pu_live_off: "pu_state s \<noteq> pub_live \<Longrightarrow> pu_live_ok N s"
  by (simp add: pu_live_ok_def)

lemma pu_live_connect: "pu_live_ok N s \<Longrightarrow> pu_live_ok N (pu_connect env s)"
  by (simp add: pu_connect_def Let_def pu_live_schedule pu_live_off split: option.split)

lemma pu_live_freshness:
  assumes "pu_live_ok N s"
  shows "pu_live_ok N (pu_update_freshness_state s)"
proof (cases "pu_started s \<and> all_fresh N (pu_topics s)")
  case True
  then show ?thesis
    by (auto simp: pu_update_freshness_state_def pu_live_ok_def all_fresh_def list_all_iff Let_def)
next
  case False
  then show ?thesis
    using assms by (auto simp: pu_update_freshness_state_def pu_live_ok_def all_fresh_def list_all_iff Let_def)
qed

lemma all_fresh_update: "all_fresh N ts \<Longrightarrow> (\<And>r. tr_acknowledged r \<and> tr_fresh r \<Longrightarrow> tr_acknowledged (f r) \<and> tr_fresh (f r)) \<Longrightarrow>
    all_fresh N (update_topic n f ts)"
  by (auto simp: all_fresh_def update_topic_def list_all_iff)

lemma pu_live_response:
  assumes "pu_live_ok N s"
  shows "pu_live_ok N (pu_handle_response env r s)"
proof -
  have settle: "pu_live_ok N t \<Longrightarrow> pu_live_ok N (pu_settle_response t)" for t
    using pu_live_freshness [of N t] by (auto simp: pu_settle_response_def Let_def pu_live_ok_def)
  have "all_fresh N ts \<Longrightarrow> all_fresh N (erase_topic n ts)" "all_fresh N ts \<Longrightarrow> all_fresh N (update_topic n acknowledge ts)" for n ts
    by (auto simp: all_fresh_def erase_topic_def list_all_iff) (auto simp: update_topic_def acknowledge_def)
  then have "pu_live_ok N (pu_settle_response (s\<lparr>pu_pending := p, pu_topics := update_topic n acknowledge (pu_topics s)\<rparr>))"
    "pu_live_ok N (pu_settle_response (s\<lparr>pu_pending := p, pu_topics := erase_topic n (pu_topics s)\<rparr>))" for p n
    by (intro settle pu_live_view [OF assms]; simp)+
  then show ?thesis
    using assms by (auto simp: pu_handle_response_def Let_def pu_live_schedule pu_live_reschedule [OF assms] split: option.splits)
qed

lemma pu_live_deliver: "pu_live_ok N s \<Longrightarrow> pu_live_ok N (pu_deliver env t m s)"
  by (simp add: pu_deliver_def pu_live_reschedule split: option.split) (simp add: pu_live_ok_def)

lemma pu_live_data:
  assumes "pu_live_ok N s"
  shows "pu_live_ok N (pu_handle_data env m s)"
proof -
  have "pu_live_ok N (pu_deliver env t m (pu_update_freshness_state (s\<lparr>pu_topics := update_topic n (touch ts) (pu_topics s)\<rparr>)))" for n ts t
    by (intro pu_live_deliver pu_live_freshness pu_live_view [OF assms]) (simp_all add: all_fresh_update touch_def)
  then show ?thesis
    using assms by (simp add: pu_handle_data_def Let_def pu_live_schedule pu_live_reschedule [OF assms] split: option.split prod.split)
qed

lemma pu_live_send: "pu_live_ok N s \<Longrightarrow> pu_live_ok N (pu_send_subscription env n b s)"
  by (simp add: pu_send_subscription_def Let_def pu_live_reschedule split: option.split sum.split)
    (simp add: pu_live_ok_def)

lemma pu_live_sends: "pu_live_ok N s \<Longrightarrow> pu_live_ok N (fold (\<lambda>e. pu_send_subscription env (fst e) b) ts s)"
  by (induction ts arbitrary: s) (simp_all add: pu_live_send)

lemma pu_live_frame:
  assumes "pu_live_ok N s"
  shows "pu_live_ok N (pu_handle_frame rd env g frame s)"
proof -
  have read: "pu_live_ok N t \<Longrightarrow> pu_live_ok N (pu_read_next g t)" "pu_live_ok N t \<Longrightarrow> pu_live_ok N (pu_write f t)"
    "pu_live_ok N t \<Longrightarrow> pu_live_ok N (pu_arm_heartbeat t)" for t f
    by (simp_all add: pu_live_ok_def)
  have "pu_live_ok N (pu_echo_heartbeat env ts s)" for ts
    using assms by (simp add: pu_echo_heartbeat_def Let_def read pu_live_schedule split: sum.split)
  then show ?thesis
    using assms by (simp add: pu_handle_frame_def read pu_live_response pu_live_data pu_live_reschedule pu_live_off
        split: sum.split public_ws_message.split)
qed

text \<open>The names of the topics that the host subscribes to among some inputs.\<close>

definition subscribed :: "(ws_env \<times> public_input) list \<Rightarrow> string set" where
  "subscribed is = {n. \<exists>env t. (env, Bi_Subscribe t) \<in> set is \<and> public_topic_name t = Inr n}"

lemma subscribed_append: "subscribed (is @ js) = subscribed is \<union> subscribed js"
  by (auto simp: subscribed_def)

lemma pu_live_mono: "pu_live_ok N s \<Longrightarrow> N \<subseteq> M \<Longrightarrow> pu_live_ok M s"
  by (auto simp: pu_live_ok_def all_fresh_def list_all_iff)

text \<open>Subscribing while live is the one input that leaves the state behind the topics.\<close>

lemma pu_live_add:
  assumes "pu_live_ok N s" and "\<And>n. public_topic_name t = Inr n \<Longrightarrow> n \<in> N"
  shows "pu_live_ok N (pu_add_topic env t s)"
proof (cases "public_topic_name t")
  case (Inr n)
  have "all_fresh N ts \<Longrightarrow> all_fresh N (emplace_topic n (fresh_runtime t) ts)" for ts
    using assms(2) [OF Inr] by (induction ts) (auto simp: all_fresh_def)
  then have "pu_live_ok N (s\<lparr>pu_topics := emplace_topic n (fresh_runtime t) (pu_topics s)\<rparr>)"
    by (intro pu_live_view [OF assms(1)]) simp_all
  moreover from this have "pu_live_ok N (pu_arm_ack_timeout g (pu_send_subscription env n b
      (s\<lparr>pu_topics := emplace_topic n (fresh_runtime t) (pu_topics s)\<rparr>)))" for g b
    using pu_live_send [of N _ env n b] by (simp add: pu_live_ok_def)
  ultimately show ?thesis
    using assms(1) Inr by (simp add: pu_add_topic_def Let_def)
qed (simp add: pu_add_topic_def pu_live_off)

lemma pu_step_live:
  assumes "pu_live_ok N s" and "subscribed [i] \<subseteq> N"
  shows "pu_live_ok N (pu_step rd i s)"
proof -
  obtain env j where i: "i = (env, j)"
    by (cases i)
  have stop: "pu_live_ok N (pu_hard_stop r t)" for r t
    by (simp add: pu_hard_stop_def pu_live_off)
  have started: "pu_live_ok N (pu_begin env ts s)" for ts
  proof -
    have "pu_live_ok N (s\<lparr>pu_topics := us, pu_started := True, pu_backoff := b\<rparr>)" if "\<not> pu_started s" for us b
      using assms(1) that by (auto simp: pu_live_ok_def)
    then show ?thesis
      using assms(1) by (simp add: pu_begin_def stop pu_live_connect split: prod.split option.split)
  qed
  have opened: "pu_live_ok N (pu_opened env g res s)" for g res
    using assms(1) by (simp add: pu_opened_def Let_def pu_live_schedule split: sum.split)
      (simp add: pu_live_ok_def pu_live_sends [unfolded pu_live_ok_def])
  have rec: "pu_live_ok N (pu_received rd env g res s)" for g res
    using assms(1) pu_live_frame [OF pu_live_view [OF assms(1)]]
    by (simp add: pu_received_def pu_live_schedule split: sum.split)
  have rem: "pu_live_ok N (pu_remove_topic env t s)" for t
  proof -
    have "all_fresh N ts \<Longrightarrow> all_fresh N (erase_topic n ts)" for n ts
      by (auto simp: all_fresh_def erase_topic_def list_all_iff)
    then show ?thesis
      using assms(1) pu_live_send [OF assms(1)]
      by (simp add: pu_remove_topic_def Let_def split: sum.split) (auto simp: pu_live_ok_def)
  qed
  have add: "j = Bi_Subscribe t \<Longrightarrow> pu_live_ok N (pu_add_topic env t s)" for t
    using assms by (intro pu_live_add) (auto simp: i subscribed_def)
  have fired: "pu_live_ok N (pu_reconnect_fired env s)"
    unfolding pu_reconnect_fired_def using assms(1) by (intro pu_live_connect) (simp add: pu_live_ok_def)
  have "pu_live_ok N (snd (pu_pop s))"
    using assms(1) by (auto simp: pu_pop_def pu_live_ok_def split: list.split)
  then show ?thesis
    using assms(1) started opened rec rem fired stop add
    by (cases j) (auto simp: i pu_request_stop_def pu_wrote_def pu_heartbeat_expired_def pu_ack_expired_def pu_live_schedule
        split: sum.split)
qed

lemma live_entered:
  assumes "pu_state s \<noteq> pub_live" and "pu_state (pu_step rd i s) = pub_live"
  shows "pu_live_ok {} (pu_step rd i s)"
proof (cases "\<exists>env t. i = (env, Bi_Subscribe t)")
  case True
  then obtain env t where i: "i = (env, Bi_Subscribe t)"
    by blast
  have "pu_state (pu_schedule_reconnect env r s') \<noteq> pub_live" if "pu_state s' \<noteq> pub_live" for r s'
    by (rule pu_schedule_cases [of env r s']) (use that in simp_all)
  then have sent: "pu_state (pu_send_subscription env n b s') \<noteq> pub_live" if "pu_state s' \<noteq> pub_live" for n b s'
    using that by (simp add: pu_send_subscription_def Let_def split: option.split sum.split)
  show ?thesis
    using assms by (simp add: i pu_add_topic_def Let_def sent split: sum.splits if_splits option.splits)
next
  case False
  then show ?thesis
    by (intro pu_step_live pu_live_off assms(1)) (cases i, auto simp: subscribed_def)
qed

text \<open>A client that is live became live with every topic fresh, and has been live since.\<close>

lemma live_since:
  assumes "pu_state (fold (pu_step rd) is s0) = pub_live" and "pu_state s0 \<noteq> pub_live"
  shows "\<exists>js ks. is = js @ ks \<and> pu_started (fold (pu_step rd) js s0) \<and> all_fresh {} (pu_topics (fold (pu_step rd) js s0)) \<and>
    (\<forall>k. pu_state (fold (pu_step rd) (js @ take k ks) s0) = pub_live) \<and>
    pu_live_ok (subscribed ks) (fold (pu_step rd) is s0)"
  using assms(1)
proof (induction "is" rule: rev_induct)
  case Nil
  then show ?case
    using assms(2) by simp
next
  case (snoc i "is")
  let ?s = "fold (pu_step rd) is s0"
  show ?case
  proof (cases "pu_state ?s = pub_live")
    case True
    then obtain js ks where js: "is = js @ ks" "pu_started (fold (pu_step rd) js s0)" "all_fresh {} (pu_topics (fold (pu_step rd) js s0))"
      "\<forall>k. pu_state (fold (pu_step rd) (js @ take k ks) s0) = pub_live" "pu_live_ok (subscribed ks) ?s"
      using snoc.IH by blast
    have "pu_live_ok (subscribed (ks @ [i])) (fold (pu_step rd) (is @ [i]) s0)"
      using pu_step_live [OF pu_live_mono [OF js(5)], of "subscribed (ks @ [i])" i rd] by (simp add: subscribed_append)
    moreover have "pu_state (fold (pu_step rd) (js @ take k (ks @ [i])) s0) = pub_live" for k
      using js(1,4) snoc.prems by (cases "k \<le> length ks") simp_all
    ultimately show ?thesis
      using js(1-3) by (intro exI [of _ js] exI [of _ "ks @ [i]"]) simp
  next
    case False
    have "pu_live_ok {} (pu_step rd i ?s)"
      using snoc.prems False by (intro live_entered) simp_all
    then show ?thesis
      using snoc.prems by (intro exI [of _ "is @ [i]"] exI [of _ "[]"]) (simp add: pu_live_ok_def subscribed_def)
  qed
qed

text \<open>
  C26. The public client reports itself live only while it is started and every desired topic is acknowledged and fresh, but
  for topics the host subscribed to since it became live. If the client is live after some inputs, then
  there was a moment when every topic was acknowledged and fresh, it has been live ever since, and every
  topic is still acknowledged and fresh unless the host subscribed to it after that moment. So each
  period of being live begins with every topic acknowledged and fresh.
\<close>

theorem public_live_fresh:
  assumes "pu_state (fold (pu_step rd) is (new_public_ws options backoff)) = pub_live"
  shows "\<exists>js ks. is = js @ ks \<and>
    list_all (\<lambda>e. tr_acknowledged (snd e) \<and> tr_fresh (snd e)) (pu_topics (fold (pu_step rd) js (new_public_ws options backoff))) \<and>
    (\<forall>k. pu_state (fold (pu_step rd) (js @ take k ks) (new_public_ws options backoff)) = pub_live) \<and>
    pu_started (fold (pu_step rd) is (new_public_ws options backoff)) \<and>
    list_all (\<lambda>e. fst e \<in> subscribed ks \<or> tr_acknowledged (snd e) \<and> tr_fresh (snd e))
      (pu_topics (fold (pu_step rd) is (new_public_ws options backoff)))"
proof -
  have "pu_state (new_public_ws options backoff) \<noteq> pub_live"
    by (simp add: new_public_ws_def)
  from live_since [OF assms this] show ?thesis
    using assms unfolding pu_live_ok_def all_fresh_def by auto
qed

definition sample_public_reader :: ws_reader where
  "sample_public_reader = sample_ws_reader\<lparr>wsr_envelope := (\<lambda>s.
       if s = ''ack'' then Inr \<lparr>wv_type = Some ''R'', wv_request_id = Some 1, wv_success = Some True, wv_error = None,
         wv_topic = None, wv_data = None\<rparr>
       else wsr_envelope sample_ws_reader s)\<rparr>"

definition sample_desired_topic :: public_topic where
  "sample_desired_topic = \<lparr>pt_kind = topic_orderbook, pt_parameter = 7, pt_decimal_precision = Some 2\<rparr>"

definition sample_public_trace :: "(ws_env \<times> public_input) list" where
  "sample_public_trace = map (Pair sample_env) [Bi_Start [sample_desired_topic], Bi_Opened 1 (Inr ()), Bi_Received 1 (Inr ''ack''),
     Bi_Received 1 (Inr ''{}'')]"

lemma sample_public_live:
  "pu_state (fold (pu_step sample_public_reader) sample_public_trace (new_public_ws sample_client_options default_backoff)) = pub_live \<and>
   map fst (pu_topics (fold (pu_step sample_public_reader) sample_public_trace (new_public_ws sample_client_options default_backoff))) =
     [''predictOrderbook/7'']"
  by code_simp

theorem public_live_fresh_witness:
  "pu_started (fold (pu_step sample_public_reader) sample_public_trace (new_public_ws sample_client_options default_backoff)) \<and>
   list_all (\<lambda>e. tr_acknowledged (snd e) \<and> tr_fresh (snd e))
     (pu_topics (fold (pu_step sample_public_reader) sample_public_trace (new_public_ws sample_client_options default_backoff)))"
proof -
  have "subscribed ks = {}" if "sample_public_trace = js @ ks" for js ks
    using arg_cong [OF that, of subscribed] by (auto simp: subscribed_append) (auto simp: subscribed_def sample_public_trace_def)
  then show ?thesis
    using public_live_fresh [OF conjunct1 [OF sample_public_live]] by fastforce
qed

end
