(* ===== verification/Chain_Client.thy ===== *)
theory Chain_Client
  imports Chain_Operations Chain_Transaction Http_Types
begin

text \<open>
  The BNB chain client (\<^verbatim>\<open>src/chain_client.cpp\<close>). An operation is a chain of JSON-RPC requests in
  continuation style; here it is a function on the client's state that returns the value its handler
  receives. \<open>chain_env\<close> holds what comes from outside: the answer of the transport to the n-th POST,
  the n-th reading of the steady clock and of the stop token, the end of the n-th timer wait, glaze's
  readers and \<^verbatim>\<open>keccak256\<close>. The state logs the requests as they are posted. Times are nanoseconds of the
  steady clock; poll intervals are milliseconds. One operation runs at a time, but for
  \<open>async_check_approvals\<close>, whose calls are concurrent and whose completions are therefore inputs.
\<close>

section \<open>Data\<close>

record wire_rpc_error =
  rpe_code :: int
  rpe_message :: string

text \<open>\<^verbatim>\<open>WireStringResponse\<close> and \<^verbatim>\<open>WireReceiptResponse\<close> differ in the type of the result.\<close>

record 'r wire_rpc_response =
  rpr_jsonrpc :: string
  rpr_id :: nat
  rpr_result :: "'r option"
  rpr_error :: "wire_rpc_error option"

record wire_receipt =
  wrc_transaction_hash :: "string option"
  wrc_block_hash :: "string option"
  wrc_block_number :: "string option"
  wrc_status :: "string option"
  wrc_gas_used :: "string option"
  wrc_effective_gas_price :: "string option"

datatype submission_state = submission_accepted | submission_ambiguous

record transaction_submission =
  ts_state :: submission_state
  ts_transaction_hash :: string
  ts_ambiguity :: "error option"

record transaction_receipt =
  tc_transaction_hash :: string
  tc_block_hash :: "string option"
  tc_block_number :: "uint256 option"
  tc_status :: "uint256 option"
  tc_gas_used :: "uint256 option"
  tc_effective_gas_price :: "uint256 option"

definition receipt_confirmed_success :: "transaction_receipt \<Rightarrow> bool" where
  "receipt_confirmed_success r = (case tc_status r of None \<Rightarrow> False | Some v \<Rightarrow> u256_text v = ''1'')"

definition receipt_confirmed_revert :: "transaction_receipt \<Rightarrow> bool" where
  "receipt_confirmed_revert r = (case tc_status r of None \<Rightarrow> False | Some v \<Rightarrow> uint256_is_zero v)"

datatype execution_state = execution_confirmed | execution_state_reverted | execution_outcome_unknown

record transaction_execution =
  tx_state :: execution_state
  tx_transaction :: populated_transaction
  tx_raw_transaction :: raw_transaction
  tx_submission :: transaction_submission
  tx_receipt :: "transaction_receipt option"
  tx_issue :: "error option"

definition execution_confirmed_success :: "transaction_execution \<Rightarrow> bool" where
  "execution_confirmed_success x \<longleftrightarrow> tx_state x = execution_confirmed \<and>
     (case tx_receipt x of None \<Rightarrow> False | Some r \<Rightarrow> receipt_confirmed_success r)"

record chain_options =
  co_expected_chain_id :: chain_id
  co_endpoint :: rpc_endpoint
  co_max_response_bytes :: nat

record rpc_post =
  po_id :: nat
  po_method :: string
  po_params :: string
  po_request :: http_request

record chain_client =
  cc_options :: chain_options
  cc_request_id :: nat
  cc_validated_chain :: "chain_id option"
  cc_posts :: "rpc_post list"
  cc_clock_reads :: nat
  cc_stop_reads :: nat
  cc_timer_waits :: nat

record chain_env =
  ce_keccak :: keccak
  ce_string :: "string \<Rightarrow> string wire_rpc_response option"
  ce_receipt :: "string \<Rightarrow> wire_receipt wire_rpc_response option"
  ce_answer :: "nat \<Rightarrow> http_response result"
  ce_now :: "nat \<Rightarrow> int"
  ce_stop :: "nat \<Rightarrow> bool"
  ce_timer :: "nat \<Rightarrow> string option"

type_synonym 'a rpc = "chain_client \<Rightarrow> 'a result \<times> chain_client"

definition rpc_lift :: "'a result \<Rightarrow> 'a rpc" where
  "rpc_lift r s = (r, s)"

text \<open>\<^verbatim>\<open>if (!r) return handler(r.error());\<close> in a continuation.\<close>

definition rpc_bind :: "'a rpc \<Rightarrow> ('a \<Rightarrow> 'b rpc) \<Rightarrow> 'b rpc" where
  "rpc_bind m f s = (case m s of (Inl e, s') \<Rightarrow> (Inl e, s') | (Inr x, s') \<Rightarrow> f x s')"

section \<open>Helpers\<close>

definition transaction_hash :: "string \<Rightarrow> bool" where
  "transaction_hash v \<longleftrightarrow> length v = 66 \<and> starts_with v ''0x'' \<and> list_all is_xdigit (drop 2 v)"

definition same_hash :: "string \<Rightarrow> string \<Rightarrow> bool" where
  "same_hash l r \<longleftrightarrow> length l = length r \<and> map to_lower l = map to_lower r"

definition block_tag_text :: "block_tag \<Rightarrow> string" where
  "block_tag_text t = (case t of latest_block \<Rightarrow> ''latest'' | safe_block \<Rightarrow> ''safe'' | finalized_block \<Rightarrow> ''finalized''
     | pending_block \<Rightarrow> ''pending'')"

definition rpc_error :: "wire_rpc_error \<Rightarrow> error" where
  "rpc_error v = mk_error remote_error (''JSON-RPC error '' @ int_to_string (rpe_code v) @ '': '' @ rpe_message v) ''''"

definition with_gas_margin :: "uint256 \<Rightarrow> uint256 result" where
  "with_gas_margin gas = uint256_parse (to_string ((uint256_value gas * 125 + 99) div 100))"

definition minimum_allowance :: nat where
  "minimum_allowance = 57896044618658097711785492504343953926634992332820282019728792003956564819967"

definition sufficient_exchange_allowance :: "uint256 \<Rightarrow> bool" where
  "sufficient_exchange_allowance a \<longleftrightarrow> uint256_value a \<ge> minimum_allowance"

definition parse_response ::
  "(string \<Rightarrow> 'r wire_rpc_response option) \<Rightarrow> nat \<Rightarrow> nat \<Rightarrow> http_response \<Rightarrow> 'r wire_rpc_response result" where
  "parse_response read limit rid response =
     (if rs_status response \<noteq> 200
      then Inl ((mk_error (if rs_status response \<ge> 500 then http_server_error else http_client_error)
                  ''BNB JSON-RPC returned a non-200 status'' '''')\<lparr>err_http_status := rs_status response\<rparr>)
      else if length (rs_body response) > limit
      then Inl (mk_error body_too_large ''BNB JSON-RPC response exceeds configured limit'' '''')
      else case read (rs_body response) of
             None \<Rightarrow> Inl (mk_error malformed_json ''BNB JSON-RPC response contains malformed JSON'' '''')
           | Some v \<Rightarrow>
               if rpr_jsonrpc v \<noteq> ''2.0'' \<or> rpr_id v \<noteq> rid
               then Inl (mk_error protocol_error ''BNB JSON-RPC response id/version mismatch'' '''')
               else case rpr_error v of Some e \<Rightarrow> Inl (rpc_error e) | None \<Rightarrow> Inr v)"

section \<open>Requests\<close>

definition new_chain_client :: "chain_options \<Rightarrow> chain_client result" where
  "new_chain_client options =
     (if re_host (co_endpoint options) = [] \<or> re_target (co_endpoint options) = [] \<or>
         \<not> starts_with (re_target (co_endpoint options)) ''/''
      then Inl (mk_error invalid_argument ''BNB RPC endpoint is invalid'' '''')
      else Inr \<lparr>cc_options = options, cc_request_id = 1, cc_validated_chain = None, cc_posts = [], cc_clock_reads = 0,
                cc_stop_reads = 0, cc_timer_waits = 0\<rparr>)"

definition rpc_body :: "nat \<Rightarrow> string \<Rightarrow> string \<Rightarrow> string" where
  "rpc_body rid method params =
     ''{'' @ jq ''jsonrpc'' @ '':'' @ jq ''2.0'' @ '','' @ jq ''id'' @ '':'' @ to_string rid @ '','' @
     jq ''method'' @ '':'' @ jq method @ '','' @ jq ''params'' @ '':'' @ params @ ''}''"

definition rpc_http_request :: "chain_options \<Rightarrow> string \<Rightarrow> http_request" where
  "rpc_http_request options body =
     \<lparr>rq_method = http_post, rq_host = re_host (co_endpoint options), rq_port = re_port (co_endpoint options),
      rq_target = re_target (co_endpoint options), rq_use_tls = re_use_tls (co_endpoint options), rq_headers = [],
      rq_body = body, rq_content_type = ''application/json''\<rparr>"

definition rpc_request :: "chain_env \<Rightarrow> nat \<Rightarrow> string \<Rightarrow> string \<Rightarrow> http_response rpc" where
  "rpc_request w rid method params s =
     (ce_answer w (length (cc_posts s)),
      s\<lparr>cc_posts := cc_posts s @ [\<lparr>po_id = rid, po_method = method, po_params = params,
           po_request = rpc_http_request (cc_options s) (rpc_body rid method params)\<rparr>]\<rparr>)"

definition next_id :: "nat rpc" where
  "next_id s = (Inr (cc_request_id s), s\<lparr>cc_request_id := (cc_request_id s + 1) mod 2 ^ 64\<rparr>)"

text \<open>A request and the check of its response, with what follows a missing result.\<close>

definition rpc_exchange ::
  "chain_env \<Rightarrow> (string \<Rightarrow> 'r wire_rpc_response option) \<Rightarrow> string \<Rightarrow> string \<Rightarrow> 'r option rpc" where
  "rpc_exchange w read method params =
     rpc_bind next_id (\<lambda>rid.
     rpc_bind (rpc_request w rid method params) (\<lambda>response s.
       (bind_res (parse_response read (co_max_response_bytes (cc_options s)) rid response) (\<lambda>wire. Inr (rpr_result wire)), s)))"

definition rpc_string :: "chain_env \<Rightarrow> string \<Rightarrow> string \<Rightarrow> string \<Rightarrow> string rpc" where
  "rpc_string w missing_message method params =
     rpc_bind (rpc_exchange w (ce_string w) method params) (\<lambda>result.
       rpc_lift (case result of None \<Rightarrow> Inl (mk_error missing_field missing_message ''result'') | Some text \<Rightarrow> Inr text))"

definition supported_chain :: "uint256 \<Rightarrow> chain_id result" where
  "supported_chain v =
     (if u256_text v = ''56'' then Inr bnb_mainnet
      else if u256_text v = ''97'' then Inr bnb_testnet
      else Inl (mk_error unsupported_chain ''RPC is not a supported BNB chain'' ''chain_id''))"

definition raw_chain_id :: "chain_env \<Rightarrow> chain_id rpc" where
  "raw_chain_id w =
     rpc_bind (rpc_string w ''eth_chainId result is missing'' ''eth_chainId'' ''[]'') (\<lambda>text.
       rpc_lift (bind_res (decode_quantity text) supported_chain))"

definition ensure_chain :: "chain_env \<Rightarrow> chain_id rpc" where
  "ensure_chain w s =
     (case cc_validated_chain s of
        Some chain \<Rightarrow> (Inr chain, s)
      | None \<Rightarrow>
          rpc_bind (raw_chain_id w) (\<lambda>chain s'.
            if chain \<noteq> co_expected_chain_id (cc_options s')
            then (Inl (mk_error unsupported_chain ''RPC chain id does not match the configured Predict environment''
                         ''chain_id''), s')
            else (Inr chain, s'\<lparr>cc_validated_chain := Some chain\<rparr>)) s)"

definition string_method :: "chain_env \<Rightarrow> string \<Rightarrow> string \<Rightarrow> string rpc" where
  "string_method w method params =
     rpc_bind (ensure_chain w) (\<lambda>_. rpc_string w ''JSON-RPC string result is missing'' method params)"

definition quantity_method :: "chain_env \<Rightarrow> string \<Rightarrow> string \<Rightarrow> uint256 rpc" where
  "quantity_method w method params = rpc_bind (string_method w method params) (\<lambda>text. rpc_lift (decode_quantity text))"

definition call_params :: "call_request \<Rightarrow> block_tag \<Rightarrow> string" where
  "call_params c block =
     ''[{'' @ jq ''to'' @ '':'' @ jq (evm_to_string (cl_to c)) @ '','' @ jq ''data'' @ '':'' @ jq (cl_data c) @
     (case cl_from c of None \<Rightarrow> '''' | Some a \<Rightarrow> '','' @ jq ''from'' @ '':'' @ jq (evm_to_string a)) @
     ''},'' @ jq (block_tag_text block) @ '']''"

definition chain_call :: "chain_env \<Rightarrow> call_request \<Rightarrow> block_tag \<Rightarrow> string rpc" where
  "chain_call w c block =
     rpc_bind (ensure_chain w) (\<lambda>_. rpc_string w ''eth_call result is missing'' ''eth_call'' (call_params c block))"

section \<open>Receipts\<close>

definition optional_quantity :: "string option \<Rightarrow> uint256 option result" where
  "optional_quantity source =
     (case source of None \<Rightarrow> Inr None | Some text \<Rightarrow> bind_res (decode_quantity text) (\<lambda>v. Inr (Some v)))"

definition convert_receipt :: "string \<Rightarrow> wire_receipt \<Rightarrow> transaction_receipt result" where
  "convert_receipt expected v =
     (case wrc_transaction_hash v of
        None \<Rightarrow> Inl (mk_error missing_field ''receipt transaction hash is missing'' ''result.transactionHash'')
      | Some hash \<Rightarrow>
          guard_res (\<not> transaction_hash hash \<or> \<not> same_hash hash expected)
            (mk_error protocol_error ''receipt transaction hash mismatch'' ''result.transactionHash'') (
          bind_res (optional_quantity (wrc_block_number v)) (\<lambda>block.
          bind_res (optional_quantity (wrc_status v)) (\<lambda>status.
          bind_res (optional_quantity (wrc_gas_used v)) (\<lambda>gas.
          bind_res (optional_quantity (wrc_effective_gas_price v)) (\<lambda>price.
            Inr \<lparr>tc_transaction_hash = hash, tc_block_hash = wrc_block_hash v, tc_block_number = block,
                 tc_status = status, tc_gas_used = gas, tc_effective_gas_price = price\<rparr>))))))"

definition chain_receipt :: "chain_env \<Rightarrow> string \<Rightarrow> transaction_receipt option rpc" where
  "chain_receipt w hash s =
     (if \<not> transaction_hash hash
      then (Inl (mk_error invalid_argument ''transaction hash must be 0x plus 64 hex digits'' ''transaction_hash''), s)
      else
        rpc_bind (ensure_chain w) (\<lambda>_.
        rpc_bind (rpc_exchange w (ce_receipt w) ''eth_getTransactionReceipt'' (''['' @ jq hash @ '']'')) (\<lambda>result.
          rpc_lift (case result of None \<Rightarrow> Inr None
                    | Some v \<Rightarrow> bind_res (convert_receipt hash v) (\<lambda>r. Inr (Some r))))) s)"

section \<open>Transactions\<close>

definition address_params :: "evm_address \<Rightarrow> string \<Rightarrow> string" where
  "address_params a tag = ''['' @ jq (evm_to_string a) @ '','' @ jq tag @ '']''"

definition estimate_params :: "evm_address \<Rightarrow> unsigned_transaction \<Rightarrow> string \<Rightarrow> string" where
  "estimate_params from t amount =
     ''[{'' @ jq ''from'' @ '':'' @ jq (evm_to_string from) @ '','' @ jq ''to'' @ '':'' @ jq (evm_to_string (ut_to t)) @
     '','' @ jq ''data'' @ '':'' @ jq (ut_data t) @ '','' @ jq ''value'' @ '':'' @ jq amount @ ''}]''"

definition populate :: "chain_env \<Rightarrow> evm_address \<Rightarrow> unsigned_transaction \<Rightarrow> populated_transaction rpc" where
  "populate w from t =
     rpc_bind (quantity_method w ''eth_getTransactionCount'' (address_params from ''pending'')) (\<lambda>nonce.
     rpc_bind (quantity_method w ''eth_gasPrice'' ''[]'') (\<lambda>gas_price.
     rpc_bind (rpc_lift (encode_quantity (ut_value t))) (\<lambda>amount.
     rpc_bind (quantity_method w ''eth_estimateGas'' (estimate_params from t amount)) (\<lambda>gas.
     rpc_bind (rpc_lift (with_gas_margin gas)) (\<lambda>limit s.
       (Inr \<lparr>px_chain_id = co_expected_chain_id (cc_options s), px_from = from, px_to = ut_to t, px_nonce = nonce,
             px_gas_price = gas_price, px_gas_limit = limit, px_value = ut_value t, px_data = ut_data t\<rparr>, s))))))"

text \<open>What the answer to \<^verbatim>\<open>eth_sendRawTransaction\<close> means.\<close>

definition submission_of ::
  "chain_env \<Rightarrow> nat \<Rightarrow> nat \<Rightarrow> string \<Rightarrow> http_response result \<Rightarrow> transaction_submission result" where
  "submission_of w limit rid expected answer =
     (case answer of
        Inl e \<Rightarrow> Inr \<lparr>ts_state = submission_ambiguous, ts_transaction_hash = expected, ts_ambiguity = Some e\<rparr>
      | Inr response \<Rightarrow>
          bind_res (parse_response (ce_string w) limit rid response) (\<lambda>wire.
            guard_res (case rpr_result wire of None \<Rightarrow> True
                       | Some hash \<Rightarrow> \<not> transaction_hash hash \<or> \<not> same_hash hash expected)
              (mk_error protocol_error ''eth_sendRawTransaction returned an unexpected hash'' ''result'')
              (Inr \<lparr>ts_state = submission_accepted, ts_transaction_hash = expected, ts_ambiguity = None\<rparr>)))"

definition send_raw :: "chain_env \<Rightarrow> raw_transaction \<Rightarrow> transaction_submission rpc" where
  "send_raw w t =
     rpc_bind (rpc_lift (raw_transaction_hash (ce_keccak w) (rt_bytes t))) (\<lambda>calculated s.
       if \<not> transaction_hash (rt_transaction_hash t) \<or> \<not> same_hash (rt_transaction_hash t) calculated
       then (Inl (mk_error invalid_argument ''raw transaction hash does not match its bytes'' ''transaction_hash''), s)
       else
         rpc_bind (ensure_chain w) (\<lambda>_.
         rpc_bind next_id (\<lambda>rid s'.
           case rpc_request w rid ''eth_sendRawTransaction'' (''['' @ jq (rt_bytes t) @ '']'') s' of
             (answer, s'') \<Rightarrow>
               (submission_of w (co_max_response_bytes (cc_options s'')) rid (rt_transaction_hash t) answer, s''))) s)"

section \<open>Waiting for a receipt\<close>

definition receipt_deadline_error :: error where
  "receipt_deadline_error = mk_error deadline_exceeded ''receipt wait deadline exceeded'' ''''"

definition confirmed_receipt :: "transaction_receipt \<Rightarrow> transaction_receipt result" where
  "confirmed_receipt r =
     (if tc_status r = None then Inl (mk_error missing_field ''confirmed receipt status is missing'' ''receipt.status'')
      else if receipt_confirmed_revert r
      then Inl (mk_error execution_reverted ''transaction execution reverted'' ''receipt.status'')
      else Inr r)"

definition read_clock :: "chain_env \<Rightarrow> chain_client \<Rightarrow> int \<times> chain_client" where
  "read_clock w s = (ce_now w (cc_clock_reads s), s\<lparr>cc_clock_reads := cc_clock_reads s + 1\<rparr>)"

definition read_stop :: "chain_env \<Rightarrow> chain_client \<Rightarrow> bool \<times> chain_client" where
  "read_stop w s = (ce_stop w (cc_stop_reads s), s\<lparr>cc_stop_reads := cc_stop_reads s + 1\<rparr>)"

definition wait_timer :: "chain_env \<Rightarrow> chain_client \<Rightarrow> string option \<times> chain_client" where
  "wait_timer w s = (ce_timer w (cc_timer_waits s), s\<lparr>cc_timer_waits := cc_timer_waits s + 1\<rparr>)"

text \<open>The loop of \<open>poll\<close>: the timer's completion calls it again. \<open>None\<close> is a wait that never ends.\<close>

partial_function (option) poll ::
  "chain_env \<Rightarrow> string \<Rightarrow> int \<Rightarrow> int \<Rightarrow> chain_client \<Rightarrow> (transaction_receipt result \<times> chain_client) option" where
  "poll w hash interval deadline s =
     (let (stop, s1) = read_stop w s in
      if stop then Some (Inl (mk_error cancelled ''receipt wait cancelled'' ''''), s1)
      else
        let (now, s2) = read_clock w s1 in
        if now \<ge> deadline then Some (Inl receipt_deadline_error, s2)
        else
          case chain_receipt w hash s2 of
            (Inl e, s3) \<Rightarrow> Some (Inl e, s3)
          | (Inr (Some r), s3) \<Rightarrow> Some (confirmed_receipt r, s3)
          | (Inr None, s3) \<Rightarrow>
              let (later, s4) = read_clock w s3 in
              if later + interval * 1000000 \<ge> deadline then Some (Inl receipt_deadline_error, s4)
              else
                case wait_timer w s4 of
                  (Some message, s5) \<Rightarrow> Some (Inl (mk_error cancelled (''receipt wait timer cancelled: '' @ message) ''''), s5)
                | (None, s5) \<Rightarrow> poll w hash interval deadline s5)"

declare poll.simps [code]

definition two_minutes :: int where "two_minutes = 120000000000"

text \<open>A deadline at the clock's epoch means that none was set.\<close>

definition wait_receipt ::
  "chain_env \<Rightarrow> string \<Rightarrow> int \<Rightarrow> int \<Rightarrow> chain_client \<Rightarrow> (transaction_receipt result \<times> chain_client) option" where
  "wait_receipt w hash interval deadline s =
     (if interval \<le> 0 then Some (Inl (mk_error invalid_argument ''receipt poll interval must be positive'' ''poll_interval''), s)
      else if deadline = 0
      then (let (now, s1) = read_clock w s in poll w hash interval (now + two_minutes) s1)
      else poll w hash interval deadline s)"

section \<open>Execution\<close>

text \<open>A signer is absent, answers, or throws (\<open>None\<close> for a digest).\<close>

type_synonym digest_signer = "(bytes32 \<Rightarrow> string result option) option"

definition signer_threw :: error where
  "signer_threw = mk_error invalid_argument ''transaction signer threw an exception'' ''signer''"

definition caught_sign :: "keccak \<Rightarrow> (bytes32 \<Rightarrow> string result option) \<Rightarrow> populated_transaction \<Rightarrow> raw_transaction result" where
  "caught_sign k sign t =
     sign_legacy_transaction k (Some (\<lambda>d. case sign d of None \<Rightarrow> Inl signer_threw | Some r \<Rightarrow> r)) t"

definition execution_of ::
  "populated_transaction \<Rightarrow> raw_transaction \<Rightarrow> transaction_submission \<Rightarrow> transaction_receipt result \<Rightarrow> transaction_execution" where
  "execution_of t raw submission receipt =
     (case receipt of
        Inl e \<Rightarrow> \<lparr>tx_state = (if err_code e = execution_reverted then execution_state_reverted else execution_outcome_unknown),
                  tx_transaction = t, tx_raw_transaction = raw, tx_submission = submission, tx_receipt = None,
                  tx_issue = Some e\<rparr>
      | Inr r \<Rightarrow> \<lparr>tx_state = execution_confirmed, tx_transaction = t, tx_raw_transaction = raw,
                  tx_submission = submission, tx_receipt = Some r, tx_issue = None\<rparr>)"

definition execute_transaction ::
  "chain_env \<Rightarrow> evm_address \<Rightarrow> unsigned_transaction \<Rightarrow> digest_signer \<Rightarrow> int \<Rightarrow> int \<Rightarrow> chain_client
     \<Rightarrow> (transaction_execution result \<times> chain_client) option" where
  "execute_transaction w from t signer interval deadline s =
     (case signer of
        None \<Rightarrow> Some (Inl (mk_error invalid_argument ''transaction digest signer is required'' ''signer''), s)
      | Some sign \<Rightarrow>
          case populate w from t s of
            (Inl e, s1) \<Rightarrow> Some (Inl e, s1)
          | (Inr populated, s1) \<Rightarrow>
              case caught_sign (ce_keccak w) sign populated of
                Inl e \<Rightarrow> Some (Inl e, s1)
              | Inr raw \<Rightarrow>
                  case send_raw w raw s1 of
                    (Inl e, s2) \<Rightarrow> Some (Inl e, s2)
                  | (Inr submission, s2) \<Rightarrow>
                      map_option (\<lambda>(receipt, s3). (Inr (execution_of populated raw submission receipt), s3))
                        (wait_receipt w (rt_transaction_hash raw) interval deadline s2))"

section \<open>Queries\<close>

definition async_native_balance :: "chain_env \<Rightarrow> evm_address \<Rightarrow> block_tag \<Rightarrow> uint256 rpc" where
  "async_native_balance w owner block = quantity_method w ''eth_getBalance'' (address_params owner (block_tag_text block))"

definition async_transaction_count :: "chain_env \<Rightarrow> evm_address \<Rightarrow> block_tag \<Rightarrow> uint256 rpc" where
  "async_transaction_count w a block = quantity_method w ''eth_getTransactionCount'' (address_params a (block_tag_text block))"

definition async_gas_price :: "chain_env \<Rightarrow> uint256 rpc" where
  "async_gas_price w = quantity_method w ''eth_gasPrice'' ''[]''"

definition async_estimate_gas :: "chain_env \<Rightarrow> evm_address \<Rightarrow> unsigned_transaction \<Rightarrow> uint256 rpc" where
  "async_estimate_gas w from t =
     rpc_bind (rpc_lift (encode_quantity (ut_value t))) (\<lambda>amount.
       quantity_method w ''eth_estimateGas'' (estimate_params from t amount))"

text \<open>The shape of the token queries: encode the call, run it at the latest block, decode the word.\<close>

definition token_query :: "chain_env \<Rightarrow> evm_address \<Rightarrow> string result \<Rightarrow> (string \<Rightarrow> 'a result) \<Rightarrow> 'a rpc" where
  "token_query w token data decode =
     rpc_bind (rpc_lift data) (\<lambda>d.
     rpc_bind (chain_call w \<lparr>cl_to = token, cl_data = d, cl_from = None\<rparr> latest_block) (\<lambda>text. rpc_lift (decode text)))"

definition async_erc20_balance :: "chain_env \<Rightarrow> evm_address \<Rightarrow> evm_address \<Rightarrow> uint256 rpc" where
  "async_erc20_balance w token owner = token_query w token (erc20_balance_of (ce_keccak w) owner) decode_word_uint256"

definition decode_decimals :: "string \<Rightarrow> nat result" where
  "decode_decimals text =
     bind_res (decode_word_uint256 text) (\<lambda>v.
       if length (u256_text v) > 3
       then Inl (mk_error numeric_overflow ''ERC-20 decimals exceeds uint8'' (u256_text v))
       else if digits_value (u256_text v) > 255
       then Inl (mk_error numeric_overflow ''ERC-20 decimals exceeds uint8'' (u256_text v))
       else Inr (digits_value (u256_text v)))"

definition async_erc20_decimals :: "chain_env \<Rightarrow> evm_address \<Rightarrow> nat rpc" where
  "async_erc20_decimals w token = token_query w token (erc20_decimals (ce_keccak w)) decode_decimals"

definition async_erc20_allowance :: "chain_env \<Rightarrow> evm_address \<Rightarrow> evm_address \<Rightarrow> evm_address \<Rightarrow> uint256 rpc" where
  "async_erc20_allowance w token owner spender =
     token_query w token (erc20_allowance (ce_keccak w) owner spender) decode_word_uint256"

definition async_erc1155_balance :: "chain_env \<Rightarrow> evm_address \<Rightarrow> evm_address \<Rightarrow> uint256 \<Rightarrow> uint256 rpc" where
  "async_erc1155_balance w token owner token_id =
     token_query w token (erc1155_balance_of (ce_keccak w) owner token_id) decode_word_uint256"

definition async_erc1155_approved :: "chain_env \<Rightarrow> evm_address \<Rightarrow> evm_address \<Rightarrow> evm_address \<Rightarrow> bool rpc" where
  "async_erc1155_approved w token owner operator_address =
     token_query w token (erc1155_is_approved_for_all (ce_keccak w) owner operator_address) decode_word_bool"

section \<open>What a request changes\<close>

text \<open>
  \<open>rpc_runs P s s'\<close>: from \<open>s\<close> to \<open>s'\<close> the options and the clock, stop and timer readings are the same,
  the requests only grow, each new one satisfies \<open>P\<close>, and a validated chain stays what it is.
\<close>

definition rpc_runs :: "(rpc_post \<Rightarrow> bool) \<Rightarrow> chain_client \<Rightarrow> chain_client \<Rightarrow> bool" where
  "rpc_runs P s s' \<longleftrightarrow> cc_options s' = cc_options s \<and> cc_clock_reads s' = cc_clock_reads s \<and>
     cc_stop_reads s' = cc_stop_reads s \<and> cc_timer_waits s' = cc_timer_waits s \<and>
     (\<exists>new. cc_posts s' = cc_posts s @ new \<and> list_all P new) \<and>
     (cc_validated_chain s' = cc_validated_chain s \<or>
      cc_validated_chain s = None \<and> cc_validated_chain s' = Some (co_expected_chain_id (cc_options s)))"

lemma rpc_runs_refl [simp]: "rpc_runs P s s"
  by (simp add: rpc_runs_def)

lemma rpc_runs_trans: "rpc_runs P s t \<Longrightarrow> rpc_runs P t u \<Longrightarrow> rpc_runs P s u"
  by (auto simp: rpc_runs_def)

lemma rpc_runs_mono: "rpc_runs P s t \<Longrightarrow> (\<And>p. P p \<Longrightarrow> Q p) \<Longrightarrow> rpc_runs Q s t"
  by (auto simp: rpc_runs_def list_all_iff)

lemma rpc_bind_eq: "rpc_bind m f s = (r, t) \<longleftrightarrow>
    (\<exists>e. m s = (Inl e, t) \<and> r = Inl e) \<or> (\<exists>x u. m s = (Inr x, u) \<and> f x u = (r, t))"
  by (auto simp: rpc_bind_def split: prod.splits sum.splits)

lemma rpc_runs_bind:
  assumes "\<And>s r t. m s = (r, t) \<Longrightarrow> rpc_runs P s t" and "\<And>x s r t. f x s = (r, t) \<Longrightarrow> rpc_runs P s t"
    and "rpc_bind m f s = (r, t)"
  shows "rpc_runs P s t"
  using assms(3) unfolding rpc_bind_eq by (metis assms(1,2) rpc_runs_trans)

lemma rpc_runs_lift: "rpc_lift x s = (r, t) \<Longrightarrow> rpc_runs P s t"
  by (simp add: rpc_lift_def)

lemma rpc_runs_next_id: "next_id s = (r, t) \<Longrightarrow> rpc_runs P s t"
  by (auto simp: next_id_def rpc_runs_def)

lemma rpc_runs_request: "rpc_request w rid method params s = (r, t) \<Longrightarrow> P (\<lparr>po_id = rid, po_method = method, po_params = params,
    po_request = rpc_http_request (cc_options s) (rpc_body rid method params)\<rparr>) \<Longrightarrow> rpc_runs P s t"
  by (auto simp: rpc_request_def rpc_runs_def)

definition post_of :: "string set \<Rightarrow> rpc_post \<Rightarrow> bool" where
  "post_of ms p \<longleftrightarrow> po_method p \<in> ms"

lemma rpc_runs_exchange: "rpc_exchange w read method params s = (r, t) \<Longrightarrow> method \<in> ms \<Longrightarrow> rpc_runs (post_of ms) s t"
  unfolding rpc_exchange_def
  by (erule rpc_runs_bind [rotated 2]) (auto simp: rpc_runs_next_id post_of_def
      elim!: rpc_runs_bind [rotated 2] intro: rpc_runs_request)

lemma rpc_runs_string: "rpc_string w m method params s = (r, t) \<Longrightarrow> method \<in> ms \<Longrightarrow> rpc_runs (post_of ms) s t"
  unfolding rpc_string_def by (erule rpc_runs_bind [rotated 2]) (auto simp: rpc_runs_lift intro: rpc_runs_exchange)

lemma rpc_runs_chain_id: "raw_chain_id w s = (r, t) \<Longrightarrow> ''eth_chainId'' \<in> ms \<Longrightarrow> rpc_runs (post_of ms) s t"
  unfolding raw_chain_id_def by (erule rpc_runs_bind [rotated 2]) (auto simp: rpc_runs_lift intro: rpc_runs_string)

definition chain_ok :: "chain_client \<Rightarrow> bool" where
  "chain_ok s \<longleftrightarrow> cc_validated_chain s \<in> {None, Some (co_expected_chain_id (cc_options s))}"

lemma chain_ok_runs: "rpc_runs P s t \<Longrightarrow> chain_ok s \<Longrightarrow> chain_ok t"
  by (auto simp: rpc_runs_def chain_ok_def)

lemma rpc_runs_ensure: "ensure_chain w s = (r, t) \<Longrightarrow> ''eth_chainId'' \<in> ms \<Longrightarrow> rpc_runs (post_of ms) s t"
proof -
  assume a: "ensure_chain w s = (r, t)" and ms: "''eth_chainId'' \<in> ms"
  show ?thesis
  proof (cases "cc_validated_chain s")
    case None
    obtain r1 u where u: "raw_chain_id w s = (r1, u)"
      by fastforce
    have "t = u \<or> t = u\<lparr>cc_validated_chain := Some (co_expected_chain_id (cc_options u))\<rparr>"
      using a None u by (cases r1) (simp_all add: ensure_chain_def rpc_bind_def split: if_splits)
    then show ?thesis
      using rpc_runs_chain_id [OF u ms] None by (elim disjE) (simp_all add: rpc_runs_def)
  qed (use a in \<open>simp add: ensure_chain_def\<close>)
qed

lemma ensure_chain_validates: "ensure_chain w s = (Inr c, t) \<Longrightarrow> cc_validated_chain t = Some c"
  by (auto simp: ensure_chain_def rpc_bind_eq split: option.splits if_splits)

lemma ensure_chain_Inr: "ensure_chain w s = (Inr c, t) \<Longrightarrow> chain_ok s \<Longrightarrow> cc_validated_chain t = Some (co_expected_chain_id (cc_options t))"
  using chain_ok_runs [OF rpc_runs_ensure [of w s "Inr c" t UNIV]] ensure_chain_validates [of w s c t]
  by (simp add: chain_ok_def)

lemma rpc_runs_string_method:
  "string_method w method params s = (r, t) \<Longrightarrow> {''eth_chainId'', method} \<subseteq> ms \<Longrightarrow> rpc_runs (post_of ms) s t"
  unfolding string_method_def
  by (erule rpc_runs_bind [rotated 2]) (auto intro: rpc_runs_ensure rpc_runs_string)

lemma rpc_runs_quantity:
  "quantity_method w method params s = (r, t) \<Longrightarrow> {''eth_chainId'', method} \<subseteq> ms \<Longrightarrow> rpc_runs (post_of ms) s t"
  unfolding quantity_method_def
  by (erule rpc_runs_bind [rotated 2]) (auto intro: rpc_runs_string_method rpc_runs_lift)

lemma rpc_runs_call:
  "chain_call w c block s = (r, t) \<Longrightarrow> {''eth_chainId'', ''eth_call''} \<subseteq> ms \<Longrightarrow> rpc_runs (post_of ms) s t"
  unfolding chain_call_def
  by (erule rpc_runs_bind [rotated 2]) (auto intro: rpc_runs_ensure rpc_runs_string)

definition receipt_methods :: "string set" where
  "receipt_methods = {''eth_chainId'', ''eth_getTransactionReceipt''}"

lemma rpc_runs_receipt: "chain_receipt w hash s = (r, t) \<Longrightarrow> rpc_runs (post_of receipt_methods) s t"
  by (auto simp: chain_receipt_def receipt_methods_def split: if_splits
      elim!: rpc_runs_bind [rotated 2] intro: rpc_runs_ensure rpc_runs_exchange rpc_runs_lift)

definition populate_methods :: "string set" where
  "populate_methods = {''eth_chainId'', ''eth_getTransactionCount'', ''eth_gasPrice'', ''eth_estimateGas''}"

lemma rpc_runs_populate: "populate w from t s = (r, s') \<Longrightarrow> rpc_runs (post_of populate_methods) s s'"
  unfolding populate_def
  by (auto simp: populate_methods_def elim!: rpc_runs_bind [rotated 2] intro: rpc_runs_quantity rpc_runs_lift)

lemma quantity_validates: "quantity_method w method params s = (Inr q, t) \<Longrightarrow> chain_ok s \<Longrightarrow>
    cc_validated_chain t = Some (co_expected_chain_id (cc_options t)) \<and> uint256_wf q"
proof -
  assume a: "quantity_method w method params s = (Inr q, t)" "chain_ok s"
  then obtain c u result where u: "ensure_chain w s = (Inr c, u)"
    "rpc_string w ''JSON-RPC string result is missing'' method params u = (Inr result, t)" "decode_quantity result = Inr q"
    by (auto simp: quantity_method_def string_method_def rpc_bind_eq rpc_lift_def)
  have "rpc_runs (post_of UNIV) u t"
    using rpc_runs_string [OF u(2), of UNIV] by simp
  moreover have "uint256_wf q"
    using u(3) by (auto simp: decode_quantity_def intro: uint256_parse_wf split: if_splits option.splits)
  ultimately show ?thesis
    using ensure_chain_Inr [OF u(1) a(2)] by (auto simp: rpc_runs_def)
qed

lemma populate_Inr:
  assumes "populate w from t s = (Inr p, s')" and "chain_ok s"
  shows "\<exists>gas. p = \<lparr>px_chain_id = co_expected_chain_id (cc_options s), px_from = from, px_to = ut_to t, px_nonce = px_nonce p,
        px_gas_price = px_gas_price p, px_gas_limit = px_gas_limit p, px_value = ut_value t, px_data = ut_data t\<rparr> \<and>
      uint256_wf (px_nonce p) \<and> uint256_wf (px_gas_price p) \<and> uint256_wf (px_gas_limit p) \<and>
      with_gas_margin gas = Inr (px_gas_limit p) \<and>
      cc_validated_chain s' = Some (co_expected_chain_id (cc_options s'))"
proof -
  obtain nonce s1 price s2 amount gas s3 limit where
    q: "quantity_method w ''eth_getTransactionCount'' (address_params from ''pending'') s = (Inr nonce, s1)"
       "quantity_method w ''eth_gasPrice'' ''[]'' s1 = (Inr price, s2)"
       "quantity_method w ''eth_estimateGas'' (estimate_params from t amount) s2 = (Inr gas, s3)"
    and p: "with_gas_margin gas = Inr limit" "s' = s3"
       "p = \<lparr>px_chain_id = co_expected_chain_id (cc_options s3), px_from = from, px_to = ut_to t, px_nonce = nonce,
         px_gas_price = price, px_gas_limit = limit, px_value = ut_value t, px_data = ut_data t\<rparr>"
    using assms(1) by (auto simp: populate_def rpc_bind_eq rpc_lift_def)
  have r: "rpc_runs (post_of UNIV) s s1" "rpc_runs (post_of UNIV) s1 s2" "rpc_runs (post_of UNIV) s2 s3"
    using q by (auto intro: rpc_runs_quantity)
  then have opts: "cc_options s3 = cc_options s"
    by (simp add: rpc_runs_def)
  have ok: "chain_ok s1" "chain_ok s2"
    using chain_ok_runs [OF r(1) assms(2)] chain_ok_runs [OF r(2)] by auto
  have "uint256_wf limit"
    using p(1) by (auto simp: with_gas_margin_def intro: uint256_parse_wf)
  then show ?thesis
    using quantity_validates [OF q(1) assms(2)] quantity_validates [OF q(2) ok(1)] quantity_validates [OF q(3) ok(2)] p opts
    by auto
qed

section \<open>Sending and waiting\<close>

definition rpc_grows :: "string set \<Rightarrow> chain_client \<Rightarrow> chain_client \<Rightarrow> bool" where
  "rpc_grows ms s s' \<longleftrightarrow> cc_options s' = cc_options s \<and>
     (\<exists>new. cc_posts s' = cc_posts s @ new \<and> list_all (post_of ms) new) \<and>
     (cc_validated_chain s' = cc_validated_chain s \<or>
      cc_validated_chain s = None \<and> cc_validated_chain s' = Some (co_expected_chain_id (cc_options s)))"

lemma rpc_grows_runs: "rpc_runs (post_of ms) s t \<Longrightarrow> rpc_grows ms s t"
  by (simp add: rpc_runs_def rpc_grows_def)

lemma rpc_grows_trans: "rpc_grows ms s t \<Longrightarrow> rpc_grows ms t u \<Longrightarrow> rpc_grows ms s u"
  by (auto simp: rpc_grows_def)

lemma rpc_grows_reads: "read_stop w s = (b, t) \<Longrightarrow> rpc_grows ms s t" "read_clock w s = (n, t) \<Longrightarrow> rpc_grows ms s t"
  "wait_timer w s = (m, t) \<Longrightarrow> rpc_grows ms s t"
  by (auto simp: read_stop_def read_clock_def wait_timer_def rpc_grows_def)

lemma convert_receipt_Inr:
  "convert_receipt hash v = Inr r \<Longrightarrow> transaction_hash (tc_transaction_hash r) \<and> same_hash (tc_transaction_hash r) hash"
  by (auto simp: convert_receipt_def res_simps split: option.splits)

lemma chain_receipt_Inr:
  assumes "chain_receipt w hash s = (Inr (Some r), t)"
  shows "transaction_hash (tc_transaction_hash r) \<and> same_hash (tc_transaction_hash r) hash"
proof -
  obtain result where "(case result of None \<Rightarrow> Inr None | Some v \<Rightarrow> bind_res (convert_receipt hash v) (\<lambda>r. Inr (Some r))) =
      (Inr (Some r) :: transaction_receipt option result)"
    using assms by (auto simp: chain_receipt_def rpc_bind_eq rpc_lift_def split: if_splits)
  then show ?thesis
    by (cases result) (auto simp: res_simps dest: convert_receipt_Inr)
qed

lemma confirmed_receipt_Inr:
  "confirmed_receipt r = Inr r' \<longleftrightarrow> r' = r \<and> tc_status r \<noteq> None \<and> \<not> receipt_confirmed_revert r"
  by (auto simp: confirmed_receipt_def)

definition good_receipt :: "string \<Rightarrow> transaction_receipt result \<Rightarrow> bool" where
  "good_receipt hash r \<longleftrightarrow> (\<forall>rc. r = Inr rc \<longrightarrow>
     same_hash (tc_transaction_hash rc) hash \<and> tc_status rc \<noteq> None \<and> \<not> receipt_confirmed_revert rc)"

lemma poll_spec:
  "poll w hash interval deadline s = Some y \<Longrightarrow> rpc_grows receipt_methods s (snd y) \<and> good_receipt hash (fst y)"
proof (induction w hash interval deadline s y rule: poll.raw_induct [rotated 1, consumes 1])
  case (1 again w hash interval deadline s y)
  obtain stop s1 where s1: "read_stop w s = (stop, s1)"
    by fastforce
  obtain now s2 where s2: "read_clock w s1 = (now, s2)"
    by fastforce
  obtain res s3 where s3: "chain_receipt w hash s2 = (res, s3)"
    by fastforce
  obtain later s4 where s4: "read_clock w s3 = (later, s4)"
    by fastforce
  obtain fired s5 where s5: "wait_timer w s4 = (fired, s5)"
    by fastforce
  note g1 = rpc_grows_reads(1) [OF s1]
  note g2 = rpc_grows_trans [OF g1 rpc_grows_reads(2) [OF s2]]
  note g3 = rpc_grows_trans [OF g2 rpc_grows_runs [OF rpc_runs_receipt [OF s3]]]
  note g4 = rpc_grows_trans [OF g3 rpc_grows_reads(2) [OF s4]]
  note g5 = rpc_grows_trans [OF g4 rpc_grows_reads(3) [OF s5]]
  show ?case
  proof (cases "\<not> stop \<and> now < deadline \<and> res = Inr None \<and> later + interval * 1000000 < deadline \<and> fired = None")
    case True
    then have "again w hash interval deadline s5 = Some y"
      using 1(2) s1 s2 s3 s4 s5 by simp
    then show ?thesis
      using 1(1) rpc_grows_trans [OF g5] by blast
  next
    case False
    then show ?thesis
      using 1(2) s1 s2 s3 s4 s5 g1 g2 g3 g4 g5 chain_receipt_Inr
      by (auto simp: good_receipt_def confirmed_receipt_Inr split: if_splits sum.splits option.splits)
  qed
qed

lemma wait_receipt_spec:
  assumes "wait_receipt w hash interval deadline s = Some (r, t)"
  shows "rpc_grows receipt_methods s t \<and> good_receipt hash r"
proof -
  obtain now s1 where s1: "read_clock w s = (now, s1)"
    by fastforce
  consider "t = s" "\<forall>x. r \<noteq> Inr x" | d where "poll w hash interval d s = Some (r, t)" | d where "poll w hash interval d s1 = Some (r, t)"
    using assms s1 by (auto simp: wait_receipt_def split: if_splits)
  then show ?thesis
    using poll_spec [of w hash interval] rpc_grows_trans [OF rpc_grows_reads(2) [OF s1]]
    by cases (auto simp: rpc_grows_def good_receipt_def, fastforce+)
qed

definition sends :: "chain_client \<Rightarrow> rpc_post list" where
  "sends s = filter (\<lambda>p. po_method p = ''eth_sendRawTransaction'') (cc_posts s)"

definition submitting :: "raw_transaction \<Rightarrow> rpc_post \<Rightarrow> bool" where
  "submitting raw p \<longleftrightarrow> po_params p = ''['' @ jq (rt_bytes raw) @ '']'' \<and>
     rq_body (po_request p) = rpc_body (po_id p) ''eth_sendRawTransaction'' (po_params p)"

lemma sends_grows: "rpc_grows ms s t \<Longrightarrow> ''eth_sendRawTransaction'' \<notin> ms \<Longrightarrow> sends t = sends s"
  by (fastforce simp: rpc_grows_def sends_def post_of_def list_all_iff filter_empty_conv)

lemma sends_runs: "rpc_runs (post_of ms) s t \<Longrightarrow> ''eth_sendRawTransaction'' \<notin> ms \<Longrightarrow> sends t = sends s"
  by (rule sends_grows [OF rpc_grows_runs])

definition hash_matches :: "keccak \<Rightarrow> raw_transaction \<Rightarrow> bool" where
  "hash_matches k raw \<longleftrightarrow> transaction_hash (rt_transaction_hash raw) \<and>
     (\<exists>h. raw_transaction_hash k (rt_bytes raw) = Inr h \<and> same_hash (rt_transaction_hash raw) h)"

text \<open>A raw transaction is either refused before any request that sends it, or sent once.\<close>

lemma send_raw_cases:
  assumes "send_raw w raw s = (r, t)"
  obtains (refused) e where "r = Inl e" "rpc_runs (post_of {''eth_chainId''}) s t" "sends t = sends s"
  | (sent) u p c rid where "hash_matches (ce_keccak w) raw" "ensure_chain w s = (Inr c, u)"
      "cc_posts t = cc_posts u @ [p]" "po_method p = ''eth_sendRawTransaction''" "submitting raw p" "rpc_runs (post_of UNIV) s t"
      "sends t = sends s @ [p]" "cc_validated_chain t = cc_validated_chain u"
      "r = submission_of w (co_max_response_bytes (cc_options s)) rid (rt_transaction_hash raw) (ce_answer w (length (cc_posts u)))"
proof (cases "hash_matches (ce_keccak w) raw")
  case False
  then have "\<exists>e. r = Inl e \<and> t = s"
    using assms by (auto simp: send_raw_def rpc_bind_eq rpc_lift_def hash_matches_def split: if_splits)
  then show ?thesis
    using refused by auto
next
  case True
  obtain rc u where u: "ensure_chain w s = (rc, u)"
    by fastforce
  have runs: "rpc_runs (post_of {''eth_chainId''}) s u"
    by (rule rpc_runs_ensure [OF u]) simp
  then have "rpc_runs (post_of UNIV) s u"
    by (rule rpc_runs_mono) (simp add: post_of_def)
  note all = this
  obtain h where h: "raw_transaction_hash (ce_keccak w) (rt_bytes raw) = Inr h"
    and ok: "transaction_hash (rt_transaction_hash raw)" "same_hash (rt_transaction_hash raw) h"
    using True by (auto simp: hash_matches_def)
  show ?thesis
  proof (cases rc)
    case (Inl e)
    then show ?thesis
      using assms u h ok runs sends_runs [OF runs] refused [of e] by (simp add: send_raw_def rpc_bind_def rpc_lift_def)
  next
    case (Inr c)
    define p where "p = \<lparr>po_id = cc_request_id u, po_method = ''eth_sendRawTransaction'',
      po_params = ''['' @ jq (rt_bytes raw) @ '']'', po_request = rpc_http_request (cc_options u)
        (rpc_body (cc_request_id u) ''eth_sendRawTransaction'' (''['' @ jq (rt_bytes raw) @ '']''))\<rparr>"
    have t: "t = u\<lparr>cc_request_id := (cc_request_id u + 1) mod 2 ^ 64, cc_posts := cc_posts u @ [p]\<rparr>"
      and r: "r = submission_of w (co_max_response_bytes (cc_options s)) (cc_request_id u) (rt_transaction_hash raw)
        (ce_answer w (length (cc_posts u)))"
      using assms u h ok Inr runs
      by (auto simp: send_raw_def rpc_bind_def rpc_lift_def next_id_def rpc_request_def p_def rpc_runs_def)
    show ?thesis
    proof (rule sent)
      show "rpc_runs (post_of UNIV) s t"
        by (rule rpc_runs_trans [OF all]) (simp add: t rpc_runs_def post_of_def)
      show "sends t = sends s @ [p]"
        using sends_runs [OF runs] by (simp add: sends_def t p_def)
    qed (use True u Inr t r in \<open>simp_all add: p_def submitting_def rpc_http_request_def\<close>)
  qed
qed

lemma submission_of_hash: "submission_of w l rid h a = Inr sub \<Longrightarrow> ts_transaction_hash sub = h"
  by (auto simp: submission_of_def res_simps split: sum.splits)

lemma execute_cases:
  assumes "execute_transaction w from t signer interval deadline s = Some (r, s')"
  obtains (unsent) e where "r = Inl e" "rpc_grows UNIV s s'" "sends s' = sends s"
  | (lost) sign p s1 raw q e rid and u :: chain_client where "signer = Some sign" "populate w from t s = (Inr p, s1)"
      "caught_sign (ce_keccak w) sign p = Inr raw" "hash_matches (ce_keccak w) raw" "submitting raw q" "sends s' = sends s @ [q]"
      "r = Inl e" "cc_posts s' = cc_posts u @ [q]" "rpc_grows UNIV s s'"
      "Inl e = submission_of w (co_max_response_bytes (cc_options s)) rid (rt_transaction_hash raw) (ce_answer w (length (cc_posts u)))"
  | (waited) sign p s1 raw q c s2 u rc sub where "signer = Some sign" "populate w from t s = (Inr p, s1)"
      "caught_sign (ce_keccak w) sign p = Inr raw" "hash_matches (ce_keccak w) raw" "submitting raw q" "sends s' = sends s @ [q]"
      "r = Inr (execution_of p raw sub rc)" "ensure_chain w s1 = (Inr c, u)" "rpc_grows UNIV s s'" "rpc_runs (post_of UNIV) s1 s2"
      "cc_validated_chain s2 = cc_validated_chain u" "rpc_grows receipt_methods s2 s'"
      "good_receipt (rt_transaction_hash raw) rc" "ts_transaction_hash sub = rt_transaction_hash raw"
proof (cases signer)
  case None
  then show ?thesis
    using assms unsent by (auto simp: execute_transaction_def rpc_grows_def)
next
  case (Some sign)
  obtain rp s1 where s1: "populate w from t s = (rp, s1)"
    by fastforce
  have g1: "rpc_grows UNIV s s1" and n1: "sends s1 = sends s"
    using rpc_runs_populate [OF s1] rpc_runs_mono [OF rpc_runs_populate [OF s1], of "post_of UNIV"]
    by (auto simp: post_of_def populate_methods_def intro: rpc_grows_runs sends_runs)
  show ?thesis
  proof (cases "\<exists>p raw. rp = Inr p \<and> caught_sign (ce_keccak w) sign p = Inr raw")
    case False
    then show ?thesis
      using assms Some s1 g1 n1 unsent
      by (cases rp) (auto simp: execute_transaction_def split: sum.splits)
  next
    case True
    then obtain p raw where p: "rp = Inr p" and raw: "caught_sign (ce_keccak w) sign p = Inr raw"
      by blast
    obtain rs s2 where s2: "send_raw w raw s1 = (rs, s2)"
      by fastforce
    show ?thesis
      using s2
    proof (cases rule: send_raw_cases)
      case (refused e)
      have "rpc_grows UNIV s s2"
        using rpc_grows_trans [OF g1 rpc_grows_runs [OF rpc_runs_mono [OF refused(2), of "post_of UNIV"]]] by (simp add: post_of_def)
      then show ?thesis
        using assms Some s1 p raw s2 refused n1 by (intro unsent [of e]) (auto simp: execute_transaction_def)
    next
      case (sent u q c rid)
      note g2 = rpc_grows_trans [OF g1 rpc_grows_runs [OF sent(6)]]
      have opts: "cc_options s1 = cc_options s"
        using g1 by (simp add: rpc_grows_def)
      show ?thesis
      proof (cases rs)
        case (Inl e)
        then show ?thesis
          using assms Some s1 p raw s2 sent n1 g2 opts
          by (intro lost [of sign p s1 raw q e u rid]) (auto simp: execute_transaction_def)
      next
        case (Inr sub)
        then obtain rc where w: "wait_receipt w (rt_transaction_hash raw) interval deadline s2 = Some (rc, s')"
          and r: "r = Inr (execution_of p raw sub rc)"
          using assms Some s1 p raw s2 by (auto simp: execute_transaction_def)
        have "rpc_grows UNIV s2 s'"
          using wait_receipt_spec [OF w] by (auto simp: rpc_grows_def post_of_def list_all_iff)
        moreover have "sends s' = sends s @ [q]"
          using sends_grows [of receipt_methods s2 s'] wait_receipt_spec [OF w] sent(7) n1
          by (simp add: receipt_methods_def)
        moreover have "ts_transaction_hash sub = rt_transaction_hash raw"
          using submission_of_hash sent(9) Inr by metis
        ultimately show ?thesis
          using Some s1 p raw sent r wait_receipt_spec [OF w] rpc_grows_trans [OF g2]
          by (intro waited [of sign p s1 raw q sub rc c u s2]) auto
      qed
    qed
  qed
qed

lemma grows_validated:
  "rpc_grows ms s t \<Longrightarrow> cc_validated_chain s = Some c \<Longrightarrow> cc_validated_chain t = Some c \<and> cc_options t = cc_options s"
  by (auto simp: rpc_grows_def)

text \<open>
  C16. Executing a transaction sends at most once, and an execution that is reported describes what was
  sent: one \<^verbatim>\<open>eth_sendRawTransaction\<close> request whose bytes are the reported raw transaction, signed for
  the reported transaction, which goes from the sender to the call's target with its value and data on
  the expected chain, after the node's chain id has been validated. A receipt is reported only for the
  hash of those bytes and with a status that is no revert, and then the state is confirmed; without
  one the state is not confirmed and the issue is reported.
\<close>

theorem execute_sends_once:
  assumes "execute_transaction w from t signer interval deadline s = Some (r, s')" and "chain_ok s"
  shows "length (sends s') \<le> length (sends s) + 1 \<and>
    (\<forall>x. r = Inr x \<longrightarrow> (\<exists>q sign. signer = Some sign \<and> sends s' = sends s @ [q] \<and> submitting (tx_raw_transaction x) q \<and>
       caught_sign (ce_keccak w) sign (tx_transaction x) = Inr (tx_raw_transaction x) \<and>
       hash_matches (ce_keccak w) (tx_raw_transaction x) \<and>
       cc_validated_chain s' = Some (co_expected_chain_id (cc_options s)) \<and>
       px_chain_id (tx_transaction x) = co_expected_chain_id (cc_options s) \<and> px_from (tx_transaction x) = from \<and>
       px_to (tx_transaction x) = ut_to t \<and> px_value (tx_transaction x) = ut_value t \<and> px_data (tx_transaction x) = ut_data t \<and>
       (case tx_receipt x of
          Some rc \<Rightarrow> tx_state x = execution_confirmed \<and>
            same_hash (tc_transaction_hash rc) (rt_transaction_hash (tx_raw_transaction x)) \<and>
            tc_status rc \<noteq> None \<and> \<not> receipt_confirmed_revert rc
        | None \<Rightarrow> tx_state x \<noteq> execution_confirmed \<and> tx_issue x \<noteq> None)))"
  using assms(1)
proof (cases rule: execute_cases)
  case (waited sign p s1 raw q c s2 u rc sub)
  obtain gas where p: "px_chain_id p = co_expected_chain_id (cc_options s)" "px_from p = from" "px_to p = ut_to t"
      "px_value p = ut_value t" "px_data p = ut_data t"
    and v1: "cc_validated_chain s1 = Some (co_expected_chain_id (cc_options s1))"
    using populate_Inr [OF waited(2) assms(2)] by (metis populated_transaction.select_convs)
  have opts: "cc_options s1 = cc_options s"
    using rpc_runs_populate [OF waited(2)] by (simp add: rpc_runs_def)
  have "cc_validated_chain s2 = Some (co_expected_chain_id (cc_options s1))" "cc_options s2 = cc_options s"
    using waited(10) v1 opts by (auto simp: rpc_runs_def)
  then have "cc_validated_chain s' = Some (co_expected_chain_id (cc_options s))"
    using grows_validated [OF waited(12)] opts by simp
  then show ?thesis
    using waited p by (cases rc) (auto simp: execution_of_def good_receipt_def)
qed auto

text \<open>
  C19. An answer to the submission that is not the node's own (a gateway's status, say) is reported as
  an error alone, although the signed transaction was posted: neither its bytes nor its hash reach the
  caller, where a failed exchange is kept as an ambiguous submission and its receipt awaited.
\<close>

theorem gateway_answer_drops_transaction:
  assumes "populate w from t s = (Inr p, s1)" and "caught_sign (ce_keccak w) sign p = Inr raw"
    and "hash_matches (ce_keccak w) raw" and "chain_ok s"
    and "ce_answer w (length (cc_posts s1)) = Inr response" and "rs_status response \<noteq> 200"
  shows "\<exists>e s' q. execute_transaction w from t (Some sign) interval deadline s = Some (Inl e, s') \<and>
    sends s' = sends s @ [q] \<and> submitting raw q \<and> err_code e \<in> {http_server_error, http_client_error}"
proof -
  have v: "cc_validated_chain s1 = Some (co_expected_chain_id (cc_options s1))"
    using populate_Inr [OF assms(1,4)] by blast
  obtain rs s2 where s2: "send_raw w raw s1 = (rs, s2)"
    by fastforce
  then show ?thesis
  proof (cases rule: send_raw_cases)
    case (refused e)
    then show ?thesis
      using s2 v assms(3)
      by (auto simp: send_raw_def rpc_bind_def rpc_lift_def hash_matches_def ensure_chain_def next_id_def rpc_request_def sends_def)
  next
    case (sent u q c rid)
    have "u = s1"
      using sent(2) v by (simp add: ensure_chain_def)
    then obtain e where e: "rs = Inl e" "err_code e \<in> {http_server_error, http_client_error}"
      using sent(9) assms(5,6) by (simp add: submission_of_def parse_response_def)
    have "sends s1 = sends s"
      using sends_runs [OF rpc_runs_populate [OF assms(1)]] by (simp add: populate_methods_def)
    then show ?thesis
      using s2 assms(1,2) e sent(5,7) by (auto simp: execute_transaction_def)
  qed
qed

section \<open>Termination of the receipt wait\<close>

text \<open>
  The readings of a wait alternate between the check at the head of the loop and the wake time. The
  clock is steady and a timer does not fire before its expiry.
\<close>

definition timers_keep :: "chain_env \<Rightarrow> int \<Rightarrow> nat \<Rightarrow> bool" where
  "timers_keep w interval n \<longleftrightarrow> (\<forall>k. ce_now w (n + 2 * k) \<le> ce_now w (n + 2 * k + 1) \<and>
     ce_now w (n + 2 * k + 1) + interval * 1000000 \<le> ce_now w (n + 2 * k + 2))"

lemma timers_keep_later: "timers_keep w interval n \<Longrightarrow> timers_keep w interval (n + 2)"
proof -
  assume keep: "timers_keep w interval n"
  have "n + 2 + 2 * k = n + 2 * Suc k" for k
    by simp
  then show ?thesis
    using keep unfolding timers_keep_def by presburger
qed

lemma poll_returns:
  assumes "0 < interval" and "timers_keep w interval (cc_clock_reads s)"
  shows "\<exists>r t. poll w hash interval deadline s = Some (r, t) \<and> cc_timer_waits s \<le> cc_timer_waits t \<and>
    int (cc_timer_waits t - cc_timer_waits s) * (interval * 1000000) \<le> max 0 (deadline - ce_now w (cc_clock_reads s))"
  using assms(2)
proof (induction "nat (deadline - ce_now w (cc_clock_reads s))" arbitrary: s rule: less_induct)
  case less
  obtain stop s1 where s1: "read_stop w s = (stop, s1)"
    by fastforce
  obtain now s2 where s2: "read_clock w s1 = (now, s2)"
    by fastforce
  obtain res s3 where s3: "chain_receipt w hash s2 = (res, s3)"
    by fastforce
  obtain later s4 where s4: "read_clock w s3 = (later, s4)"
    by fastforce
  obtain fired s5 where s5: "wait_timer w s4 = (fired, s5)"
    by fastforce
  have counts: "cc_clock_reads s5 = cc_clock_reads s + 2" "cc_timer_waits s5 = cc_timer_waits s + 1"
    "now = ce_now w (cc_clock_reads s)" "later = ce_now w (cc_clock_reads s + 1)"
    "cc_timer_waits s1 = cc_timer_waits s" "cc_timer_waits s2 = cc_timer_waits s"
    "cc_timer_waits s3 = cc_timer_waits s" "cc_timer_waits s4 = cc_timer_waits s"
    using s1 s2 s4 s5 rpc_runs_receipt [OF s3] by (auto simp: read_stop_def read_clock_def wait_timer_def rpc_runs_def)
  show ?case
  proof (cases "\<not> stop \<and> now < deadline \<and> res = Inr None \<and> later + interval * 1000000 < deadline \<and> fired = None")
    case True
    have step: "poll w hash interval deadline s = poll w hash interval deadline s5"
      using True s1 s2 s3 s4 s5 by (subst poll.simps) simp
    have "ce_now w (cc_clock_reads s) + interval * 1000000 \<le> ce_now w (cc_clock_reads s5)"
      using less.prems [unfolded timers_keep_def, rule_format, of 0] counts(1) by simp
    moreover from this have "nat (deadline - ce_now w (cc_clock_reads s5)) < nat (deadline - ce_now w (cc_clock_reads s))"
      using True assms(1) counts(3) by simp
    moreover have "timers_keep w interval (cc_clock_reads s5)"
      using timers_keep_later [OF less.prems] counts(1) by simp
    ultimately obtain r t where t: "poll w hash interval deadline s5 = Some (r, t)" "cc_timer_waits s5 \<le> cc_timer_waits t"
      "int (cc_timer_waits t - cc_timer_waits s5) * (interval * 1000000) \<le> max 0 (deadline - ce_now w (cc_clock_reads s5))"
      using less.hyps [of s5] by blast
    have "int (cc_timer_waits t - cc_timer_waits s) * (interval * 1000000) =
        int (cc_timer_waits t - cc_timer_waits s5) * (interval * 1000000) + interval * 1000000"
      using t(2) counts(2) by (simp add: algebra_simps Suc_diff_Suc of_nat_diff)
    also have "\<dots> \<le> max 0 (deadline - ce_now w (cc_clock_reads s))"
      using t(3) True counts(3,4) less.prems [unfolded timers_keep_def, rule_format, of 0] \<open>_ \<le> ce_now w (cc_clock_reads s5)\<close> by auto
    finally show ?thesis
      using step t counts(2) by simp
  next
    case False
    then show ?thesis
      using s1 s2 s3 s4 s5 counts less.prems [unfolded timers_keep_def, rule_format, of 0]
      by (subst poll.simps) (auto split: sum.splits option.splits)
  qed
qed

definition wait_start :: "int \<Rightarrow> chain_client \<Rightarrow> nat" where
  "wait_start deadline s = (if deadline = 0 then cc_clock_reads s + 1 else cc_clock_reads s)"

definition wait_limit :: "chain_env \<Rightarrow> int \<Rightarrow> chain_client \<Rightarrow> int" where
  "wait_limit w deadline s = (if deadline = 0 then ce_now w (cc_clock_reads s) + two_minutes else deadline)"

lemma wait_receipt_returns:
  assumes "timers_keep w interval (wait_start deadline s)"
  shows "\<exists>r t. wait_receipt w hash interval deadline s = Some (r, t) \<and> cc_timer_waits s \<le> cc_timer_waits t \<and>
    int (cc_timer_waits t - cc_timer_waits s) * (interval * 1000000) \<le>
      max 0 (wait_limit w deadline s - ce_now w (wait_start deadline s))"
proof (cases "0 < interval")
  case True
  show ?thesis
    using poll_returns [OF True, of w s hash deadline] assms
      poll_returns [OF True, of w "s\<lparr>cc_clock_reads := cc_clock_reads s + 1\<rparr>" hash "ce_now w (cc_clock_reads s) + two_minutes"]
    by (simp add: wait_receipt_def wait_start_def wait_limit_def read_clock_def True split: if_splits)
qed (simp add: wait_receipt_def)

text \<open>
  C17. Executing a transaction ends: with a steady clock and timers that do not fire early, the handler
  gets a result whatever the node answers, and the number of timer waits is bounded by the time that
  the deadline leaves, two minutes when none is set, divided by the poll interval.
\<close>

theorem execute_returns:
  assumes "timers_keep w interval (wait_start deadline s)"
  shows "\<exists>r s'. execute_transaction w from t signer interval deadline s = Some (r, s') \<and>
    int (cc_timer_waits s' - cc_timer_waits s) * (interval * 1000000) \<le>
      max 0 (wait_limit w deadline s - ce_now w (wait_start deadline s))"
proof -
  have runs: "rpc_runs P s s' \<Longrightarrow> wait_start deadline s' = wait_start deadline s \<and> wait_limit w deadline s' = wait_limit w deadline s \<and>
      cc_timer_waits s' = cc_timer_waits s" for P s'
    by (simp add: rpc_runs_def wait_start_def wait_limit_def)
  obtain rp s1 where s1: "populate w from t s = (rp, s1)"
    by fastforce
  have send: "rpc_runs (post_of UNIV) s s2" if "send_raw w raw s1 = (rs, s2)" for raw rs s2
    using that
  proof (cases rule: send_raw_cases)
    case (refused e)
    then show ?thesis
      using rpc_runs_trans [OF rpc_runs_mono [OF rpc_runs_populate [OF s1]] rpc_runs_mono [OF refused(2)]]
      by (simp add: post_of_def)
  next
    case (sent u q c rid)
    then show ?thesis
      using rpc_runs_trans [OF rpc_runs_mono [OF rpc_runs_populate [OF s1]] sent(6)] by (simp add: post_of_def)
  qed
  have waited: "\<exists>r s'. wait_receipt w hash interval deadline s2 = Some (r, s') \<and>
    int (cc_timer_waits s' - cc_timer_waits s) * (interval * 1000000) \<le>
      max 0 (wait_limit w deadline s - ce_now w (wait_start deadline s))" if "send_raw w raw s1 = (rs, s2)" for raw rs s2 hash
    using wait_receipt_returns [of w interval deadline s2 hash] assms runs [OF send [OF that]] by auto
  show ?thesis
    using waited runs [OF rpc_runs_populate [OF s1]] runs [OF send] s1
    by (auto simp: execute_transaction_def split: option.splits sum.splits prod.splits) blast+
qed

section \<open>A node that answers\<close>

text \<open>The n-th answer has the text of n as its body, and the readers know what it stands for.\<close>

definition zero_hash :: string where "zero_hash = to_hex zero_word"

definition sample_results :: "string list" where
  "sample_results = [''0x61'', ''0x1'', ''0x2'', ''0x5208'', zero_hash]"

definition sample_chain_env :: "int \<Rightarrow> chain_env" where
  "sample_chain_env send_status = \<lparr>ce_keccak = zero_keccak,
     ce_string = (\<lambda>body. let n = digits_value body in
       Some \<lparr>rpr_jsonrpc = ''2.0'', rpr_id = n + 1, rpr_result = Some (sample_results ! n), rpr_error = None\<rparr>),
     ce_receipt = (\<lambda>body. Some \<lparr>rpr_jsonrpc = ''2.0'', rpr_id = digits_value body + 1,
       rpr_result = Some \<lparr>wrc_transaction_hash = Some zero_hash, wrc_block_hash = None, wrc_block_number = None,
         wrc_status = Some ''0x1'', wrc_gas_used = None, wrc_effective_gas_price = None\<rparr>, rpr_error = None\<rparr>),
     ce_answer = (\<lambda>n. Inr \<lparr>rs_status = (if n = 4 then send_status else 200), rs_body = to_string n, rs_headers = []\<rparr>),
     ce_now = (\<lambda>n. 1000000 * int n), ce_stop = (\<lambda>n. False), ce_timer = (\<lambda>n. None)\<rparr>"

definition sample_chain_client :: chain_client where
  "sample_chain_client = \<lparr>cc_options = \<lparr>co_expected_chain_id = bnb_testnet, co_endpoint = default_rpc_endpoint bnb_testnet,
       co_max_response_bytes = 100\<rparr>, cc_request_id = 1, cc_validated_chain = None, cc_posts = [], cc_clock_reads = 0,
     cc_stop_reads = 0, cc_timer_waits = 0\<rparr>"

definition sample_digest_signer :: "bytes32 \<Rightarrow> string result option" where
  "sample_digest_signer d = Some (Inr (encode_hex (replicate 64 1 @ [28])))"

definition sample_sender :: evm_address where "sample_sender = \<lparr>evm_bytes = replicate 20 1\<rparr>"

lemma sample_chain_ok: "chain_ok sample_chain_client"
  by (simp add: chain_ok_def sample_chain_client_def)

lemma sample_execution:
  "(case execute_transaction (sample_chain_env 200) sample_sender sample_call (Some sample_digest_signer) 1 0 sample_chain_client of
      Some (Inr x, s') \<Rightarrow> tx_state x = execution_confirmed \<and> length (cc_posts s') = 6 | _ \<Rightarrow> False)"
  by code_simp

theorem execute_sends_once_witness:
  "\<exists>x s' q. execute_transaction (sample_chain_env 200) sample_sender sample_call (Some sample_digest_signer) 1 0
      sample_chain_client = Some (Inr x, s') \<and>
    sends s' = [q] \<and> submitting (tx_raw_transaction x) q \<and> px_data (tx_transaction x) = ''0xab''"
proof -
  obtain x s' where x: "execute_transaction (sample_chain_env 200) sample_sender sample_call (Some sample_digest_signer) 1 0
      sample_chain_client = Some (Inr x, s')"
    using sample_execution by (auto split: option.splits prod.splits sum.splits)
  then show ?thesis
    using execute_sends_once [OF x sample_chain_ok] by (auto simp: sends_def sample_chain_client_def sample_call_def)
qed

lemma sample_population:
  "(case populate (sample_chain_env 502) sample_sender sample_call sample_chain_client of
      (Inr p, s1) \<Rightarrow> length (cc_posts s1) = 4 \<and>
        (case caught_sign zero_keccak sample_digest_signer p of
           Inr raw \<Rightarrow> transaction_hash (rt_transaction_hash raw) \<and>
             (case raw_transaction_hash zero_keccak (rt_bytes raw) of Inr h \<Rightarrow> same_hash (rt_transaction_hash raw) h | _ \<Rightarrow> False)
         | _ \<Rightarrow> False)
    | _ \<Rightarrow> False)"
  by code_simp

theorem gateway_answer_drops_transaction_witness:
  "\<exists>e s' q. execute_transaction (sample_chain_env 502) sample_sender sample_call (Some sample_digest_signer) 1 0
      sample_chain_client = Some (Inl e, s') \<and> sends s' = [q]"
proof -
  obtain p s1 raw h where p: "populate (sample_chain_env 502) sample_sender sample_call sample_chain_client = (Inr p, s1)"
    "length (cc_posts s1) = 4" and raw: "caught_sign zero_keccak sample_digest_signer p = Inr raw"
    "transaction_hash (rt_transaction_hash raw)" "raw_transaction_hash zero_keccak (rt_bytes raw) = Inr h"
    "same_hash (rt_transaction_hash raw) h"
    using sample_population by (auto split: prod.splits sum.splits)
  have k: "ce_keccak (sample_chain_env 502) = zero_keccak"
    "ce_answer (sample_chain_env 502) 4 = Inr \<lparr>rs_status = 502, rs_body = to_string 4, rs_headers = []\<rparr>"
    by (simp_all add: sample_chain_env_def)
  have "hash_matches (ce_keccak (sample_chain_env 502)) raw"
    using raw k(1) by (simp add: hash_matches_def)
  from gateway_answer_drops_transaction [OF p(1) _ this sample_chain_ok] show ?thesis
    using raw(1) k p(2) by (fastforce simp: sends_def sample_chain_client_def)
qed

theorem execute_returns_witness:
  "\<exists>r s'. execute_transaction (sample_chain_env 200) sample_sender sample_call (Some sample_digest_signer) 1 0
      sample_chain_client = Some (r, s') \<and> cc_timer_waits s' \<le> 120000"
proof -
  have keep: "timers_keep (sample_chain_env 200) 1 (wait_start 0 sample_chain_client)"
    by (simp add: timers_keep_def sample_chain_env_def)
  have "int (cc_timer_waits s') * 1000000 \<le> max 0 (two_minutes - 1000000) \<Longrightarrow> cc_timer_waits s' \<le> 120000" for s' :: chain_client
    by (simp add: two_minutes_def)
  then show ?thesis
    using execute_returns [OF keep, of sample_sender sample_call "Some sample_digest_signer"]
    by (force simp: sample_chain_client_def sample_chain_env_def wait_start_def wait_limit_def)
qed

end
