(* ===== verification/Approval_Runs.thy ===== *)
theory Approval_Runs
  imports Chain_Client
begin

text \<open>
  The approval operations of the chain client (\<^verbatim>\<open>async_check_approvals\<close> and \<^verbatim>\<open>async_run_approvals\<close> of
  \<^verbatim>\<open>src/chain_client.cpp\<close>). The checks run concurrently: each completes in its own time, so that the
  collector is a state that a sequence of completions acts on. The run is sequential: it checks,
  submits and confirms one step after the other.
\<close>

section \<open>Data\<close>

record approval_check =
  ac_step :: approval_step
  ac_satisfied :: bool
  ac_allowance :: "uint256 option"

datatype progress_state = progress_checking | progress_skipped | progress_submitting | progress_confirmed | progress_failed

record approval_progress =
  ag_step :: approval_step
  ag_state :: progress_state
  ag_transaction_hash :: "string option"
  ag_issue :: "error option"

record approval_step_result =
  ar_step :: approval_step
  ar_state :: progress_state
  ar_transaction :: "transaction_execution option"
  ar_issue :: "error option"

record approval_run_options =
  ao_skip_satisfied :: bool
  ao_stop_on_error :: bool
  ao_poll_interval :: int
  ao_erc20_allowance_amount :: "uint256 option"

record approval_run_report =
  an_success :: bool
  an_steps :: "approval_step_result list"

definition approval_query :: "keccak \<Rightarrow> evm_address \<Rightarrow> approval_step \<Rightarrow> string result" where
  "approval_query k owner step =
     (if ap_kind step = erc20_allowance_kind then erc20_allowance k owner (ap_spender step)
      else erc1155_is_approved_for_all k owner (ap_spender step))"

section \<open>Concurrent checks\<close>

record check_state =
  ck_checks :: "approval_check option list"
  ck_remaining :: nat
  ck_first_error :: "error option"
  ck_done :: bool
  ck_answers :: "approval_check list result list"

definition check_complete :: "nat \<Rightarrow> approval_check result \<Rightarrow> check_state \<Rightarrow> check_state" where
  "check_complete index result s =
     (if ck_done s then s
      else
        let s1 = (case result of
                    Inr check \<Rightarrow> s\<lparr>ck_checks := (ck_checks s)[index := Some check]\<rparr>
                  | Inl e \<Rightarrow> if ck_first_error s = None then s\<lparr>ck_first_error := Some e\<rparr> else s);
            s2 = s1\<lparr>ck_remaining := ck_remaining s1 - 1\<rparr>
        in if ck_remaining s2 \<noteq> 0 then s2
           else s2\<lparr>ck_done := True,
                   ck_answers := ck_answers s2 @ [case ck_first_error s2 of
                                                    Some e \<Rightarrow> Inl e
                                                  | None \<Rightarrow> Inr (map the (ck_checks s2))]\<rparr>)"

text \<open>The handler of the call of one step.\<close>

definition check_result :: "approval_step \<Rightarrow> string result \<Rightarrow> approval_check result" where
  "check_result step wire =
     bind_res wire (\<lambda>text.
       if ap_kind step = erc20_allowance_kind
       then bind_res (decode_word_uint256 text) (\<lambda>allowance.
              Inr \<lparr>ac_step = step, ac_satisfied = sufficient_exchange_allowance allowance, ac_allowance = Some allowance\<rparr>)
       else bind_res (decode_word_bool text) (\<lambda>approved.
              Inr \<lparr>ac_step = step, ac_satisfied = approved, ac_allowance = None\<rparr>))"

text \<open>
  The loop that starts the calls: a step whose query cannot be encoded completes at once, the others
  when their call does.
\<close>

fun start_checks :: "keccak \<Rightarrow> evm_address \<Rightarrow> nat \<Rightarrow> approval_step list \<Rightarrow> check_state \<Rightarrow> check_state" where
  "start_checks k owner index [] s = s"
| "start_checks k owner index (step # steps) s =
     start_checks k owner (index + 1) steps
       (case approval_query k owner step of Inl e \<Rightarrow> check_complete index (Inl e) s | Inr data \<Rightarrow> s)"

definition new_checks :: "nat \<Rightarrow> check_state" where
  "new_checks n = \<lparr>ck_checks = replicate n None, ck_remaining = n, ck_first_error = None, ck_done = False, ck_answers = []\<rparr>"

definition check_approvals :: "keccak \<Rightarrow> evm_address \<Rightarrow> approval_step list \<Rightarrow> check_state" where
  "check_approvals k owner steps =
     (if steps = [] then (new_checks 0)\<lparr>ck_done := True, ck_answers := [Inr []]\<rparr>
      else start_checks k owner 0 steps (new_checks (length steps)))"

definition call_completed :: "approval_step list \<Rightarrow> nat \<times> string result \<Rightarrow> check_state \<Rightarrow> check_state" where
  "call_completed steps c s = check_complete (fst c) (check_result (steps ! fst c) (snd c)) s"

section \<open>The approval run\<close>

record run_config =
  rf_env :: chain_env
  rf_owner :: evm_address
  rf_sender :: evm_address
  rf_route :: route_options
  rf_signer :: digest_signer
  rf_options :: approval_run_options
  rf_has_progress :: bool
  rf_deadline :: int

record run_state =
  rn_client :: chain_client
  rn_steps :: "approval_step_result list"
  rn_progress :: "approval_progress list"

fun unique_steps :: "approval_step list \<Rightarrow> approval_step list \<Rightarrow> approval_step list" where
  "unique_steps unique [] = unique"
| "unique_steps unique (candidate # steps) =
     unique_steps (if list_all (\<lambda>existing. ap_id existing \<noteq> ap_id candidate) unique then unique @ [candidate] else unique) steps"

definition notify ::
  "run_config \<Rightarrow> approval_step \<Rightarrow> progress_state \<Rightarrow> string option \<Rightarrow> error option \<Rightarrow> run_state \<Rightarrow> run_state" where
  "notify cfg step state hash issue s =
     (if \<not> rf_has_progress cfg then s
      else s\<lparr>rn_progress := rn_progress s @ [\<lparr>ag_step = step, ag_state = state, ag_transaction_hash = hash, ag_issue = issue\<rparr>]\<rparr>)"

definition record_step ::
  "approval_step \<Rightarrow> progress_state \<Rightarrow> transaction_execution option \<Rightarrow> error option \<Rightarrow> run_state \<Rightarrow> run_state" where
  "record_step step state transaction issue s =
     s\<lparr>rn_steps := rn_steps s @ [\<lparr>ar_step = step, ar_state = state, ar_transaction = transaction, ar_issue = issue\<rparr>]\<rparr>"

definition fail_current :: "run_config \<Rightarrow> approval_step \<Rightarrow> error \<Rightarrow> run_state \<Rightarrow> run_state" where
  "fail_current cfg step e s =
     record_step step progress_failed None (Some e) (notify cfg step progress_failed None (Some e) s)"

definition unconfirmed_issue :: "transaction_execution \<Rightarrow> error" where
  "unconfirmed_issue x =
     (case tx_issue x of
        Some e \<Rightarrow> e
      | None \<Rightarrow> mk_error ambiguous_submission ''approval transaction outcome is not confirmed'' '''')"

text \<open>The handler of the execution; the flag says that the step failed.\<close>

definition executed :: "run_config \<Rightarrow> approval_step \<Rightarrow> transaction_execution result \<Rightarrow> run_state \<Rightarrow> bool \<times> run_state" where
  "executed cfg step result s =
     (case result of
        Inl e \<Rightarrow> (True, fail_current cfg step e s)
      | Inr x \<Rightarrow>
          let hash = Some (rt_transaction_hash (tx_raw_transaction x)) in
          if \<not> execution_confirmed_success x
          then (True, record_step step progress_failed (Some x) (Some (unconfirmed_issue x))
                        (notify cfg step progress_failed hash (Some (unconfirmed_issue x)) s))
          else (False, record_step step progress_confirmed (Some x) None (notify cfg step progress_confirmed hash None s)))"

definition submit :: "run_config \<Rightarrow> approval_step \<Rightarrow> run_state \<Rightarrow> (bool \<times> run_state) option" where
  "submit cfg step s =
     (case bind_res (approval_transaction (ce_keccak (rf_env cfg)) step (ao_erc20_allowance_amount (rf_options cfg)) True)
             (\<lambda>direct. route_transaction (ce_keccak (rf_env cfg)) direct (rf_route cfg)) of
        Inl e \<Rightarrow> Some (True, fail_current cfg step e s)
      | Inr t \<Rightarrow>
          let s1 = notify cfg step progress_submitting None None s in
          map_option (\<lambda>(result, client). executed cfg step result (s1\<lparr>rn_client := client\<rparr>))
            (execute_transaction (rf_env cfg) (rf_sender cfg) t (rf_signer cfg) (ao_poll_interval (rf_options cfg))
              (rf_deadline cfg) (rn_client s1)))"

text \<open>Whether the answer of the pre-check shows that the approval is there already.\<close>

definition satisfied :: "approval_run_options \<Rightarrow> approval_step \<Rightarrow> string \<Rightarrow> bool" where
  "satisfied options step text =
     (if ap_kind step = erc20_allowance_kind
      then (case decode_word_uint256 text of
              Inl _ \<Rightarrow> False
            | Inr allowance \<Rightarrow>
                (case ao_erc20_allowance_amount options of
                   Some amount \<Rightarrow> uint256_value allowance \<ge> uint256_value amount
                 | None \<Rightarrow> sufficient_exchange_allowance allowance))
      else (case decode_word_bool text of Inl _ \<Rightarrow> False | Inr approved \<Rightarrow> approved))"

definition check_or_submit :: "run_config \<Rightarrow> approval_step \<Rightarrow> run_state \<Rightarrow> (bool \<times> run_state) option" where
  "check_or_submit cfg step s =
     (let s1 = notify cfg step progress_checking None None s in
      case approval_query (ce_keccak (rf_env cfg)) (rf_owner cfg) step of
        Inl e \<Rightarrow> submit cfg step s1
      | Inr data \<Rightarrow>
          (case chain_call (rf_env cfg) \<lparr>cl_to = ap_token step, cl_data = data, cl_from = None\<rparr> latest_block (rn_client s1) of
             (wire, client) \<Rightarrow>
               let s2 = s1\<lparr>rn_client := client\<rparr> in
               case wire of
                 Inl e \<Rightarrow> submit cfg step s2
               | Inr text \<Rightarrow>
                   if \<not> satisfied (rf_options cfg) step text then submit cfg step s2
                   else Some (False, record_step step progress_skipped None None
                                       (notify cfg step progress_skipped None None s2))))"

definition run_step :: "run_config \<Rightarrow> approval_step \<Rightarrow> bool \<Rightarrow> run_state \<Rightarrow> (bool \<times> run_state) option" where
  "run_step cfg step stop s =
     (if stop then Some (True, fail_current cfg step (mk_error cancelled ''approval run cancelled'' '''') s)
      else if ao_skip_satisfied (rf_options cfg) then check_or_submit cfg step s
      else submit cfg step s)"

fun run_next :: "run_config \<Rightarrow> approval_step list \<Rightarrow> run_state \<Rightarrow> run_state option" where
  "run_next cfg [] s = (case read_stop (rf_env cfg) (rn_client s) of (stop, client) \<Rightarrow> Some (s\<lparr>rn_client := client\<rparr>))"
| "run_next cfg (step # steps) s =
     (case read_stop (rf_env cfg) (rn_client s) of
        (stop, client) \<Rightarrow>
          case run_step cfg step stop (s\<lparr>rn_client := client\<rparr>) of
            None \<Rightarrow> None
          | Some (failed, s2) \<Rightarrow> if failed \<and> ao_stop_on_error (rf_options cfg) then Some s2 else run_next cfg steps s2)"

definition run_report :: "run_state \<Rightarrow> approval_run_report" where
  "run_report s =
     \<lparr>an_success = list_all (\<lambda>r. ar_state r = progress_skipped \<or> ar_state r = progress_confirmed) (rn_steps s),
      an_steps = rn_steps s\<rparr>"

definition run_approvals ::
  "run_config \<Rightarrow> approval_step list \<Rightarrow> chain_client \<Rightarrow> (approval_run_report result \<times> run_state) option" where
  "run_approvals cfg steps client =
     (let s = \<lparr>rn_client = client, rn_steps = [], rn_progress = []\<rparr> in
      if Option.is_none (rf_signer cfg)
      then Some (Inl (mk_error invalid_argument ''transaction digest signer is required'' ''signer''), s)
      else map_option (\<lambda>s'. (Inr (run_report s'), s')) (run_next cfg (unique_steps [] steps) s))"

section \<open>Collecting the checks\<close>

fun first_error :: "(nat \<times> 'a result) list \<Rightarrow> error option" where
  "first_error [] = None"
| "first_error ((i, r) # ds) = (case r of Inl e \<Rightarrow> Some e | Inr _ \<Rightarrow> first_error ds)"

definition found :: "(nat \<times> 'a result) list \<Rightarrow> nat \<Rightarrow> 'a option" where
  "found ds i = (case map_of ds i of Some (Inr c) \<Rightarrow> Some c | _ \<Rightarrow> None)"

text \<open>What the collector holds after the outcomes \<open>ds\<close>.\<close>

definition collected :: "nat \<Rightarrow> (nat \<times> approval_check result) list \<Rightarrow> check_state" where
  "collected n ds =
     \<lparr>ck_checks = map (found ds) [0..<n], ck_remaining = n - length ds, ck_first_error = first_error ds,
      ck_done = (length ds = n),
      ck_answers = (if length ds = n
                    then [case first_error ds of Some e \<Rightarrow> Inl e | None \<Rightarrow> Inr (map the (map (found ds) [0..<n]))] else [])\<rparr>"

lemma first_error_snoc:
  "first_error (ds @ [(i, r)]) = (case first_error ds of Some e \<Rightarrow> Some e | None \<Rightarrow> (case r of Inl e \<Rightarrow> Some e | Inr _ \<Rightarrow> None))"
  by (induction ds) (auto split: sum.split)

lemma found_snoc:
  "i \<notin> fst ` set ds \<Longrightarrow> found (ds @ [(i, r)]) = (found ds)(i := (case r of Inr c \<Rightarrow> Some c | Inl _ \<Rightarrow> None))"
proof -
  assume "i \<notin> fst ` set ds"
  then have "map_of ds i = None"
    by (simp add: map_of_eq_None_iff)
  then show ?thesis
    by (intro ext) (simp add: found_def map_add_def split: sum.split option.split)
qed

lemma check_complete_collected:
  assumes "distinct (map fst (ds @ [(i, r)]))" and "i < n" and "length ds < n"
  shows "check_complete i r (collected n ds) = collected n (ds @ [(i, r)])"
proof -
  have new: "i \<notin> fst ` set ds"
    using assms(1) by simp
  define idx where "idx = [0..<n]"
  have len: "length idx = n" and at: "\<And>j. j < n \<Longrightarrow> idx ! j = j"
    by (simp_all add: idx_def)
  have "map_of ds i = None"
    using new by (simp add: map_of_eq_None_iff)
  then have "found ds i = None"
    by (simp add: found_def)
  then have checks: "map (found (ds @ [(i, r)])) idx = (case r of Inr c \<Rightarrow> (map (found ds) idx)[i := Some c] | Inl _ \<Rightarrow> map (found ds) idx)"
    using assms(2) len at by (auto simp: found_snoc [OF new] list_eq_iff_nth_eq nth_list_update split: sum.split)
  show ?thesis
    unfolding collected_def idx_def [symmetric] checks first_error_snoc
    using assms(3) by (cases r) (auto simp: check_complete_def Let_def split: option.split)
qed

lemma collect_all:
  assumes "distinct (map fst ds)" and "\<forall>i\<in>fst ` set ds. i < n" and "0 < n"
  shows "fold (\<lambda>(i, r). check_complete i r) ds (new_checks n) = collected n ds"
  using assms(1,2)
proof (induction ds rule: rev_induct)
  case Nil
  then show ?case
    using assms(3) by (simp add: new_checks_def collected_def found_def map_replicate_const [symmetric] list_eq_iff_nth_eq)
next
  case (snoc d ds)
  have "card (set (map fst (ds @ [d]))) = length (ds @ [d])"
    using distinct_card [OF snoc.prems(1)] by simp
  moreover have "card (set (map fst (ds @ [d]))) \<le> card {0..<n}"
    using snoc.prems(2) by (intro card_mono) auto
  ultimately show ?case
    using snoc check_complete_collected [of ds "fst d" "snd d" n] by (cases d) simp
qed

text \<open>The steps whose query cannot be encoded complete while the loop runs.\<close>

fun query_failures :: "keccak \<Rightarrow> evm_address \<Rightarrow> nat \<Rightarrow> approval_step list \<Rightarrow> (nat \<times> approval_check result) list" where
  "query_failures k owner j [] = []"
| "query_failures k owner j (step # steps) =
     (case approval_query k owner step of Inl e \<Rightarrow> [(j, Inl e)] | Inr _ \<Rightarrow> []) @ query_failures k owner (j + 1) steps"

lemma start_checks_fold:
  "start_checks k owner j steps s = fold (\<lambda>(i, r). check_complete i r) (query_failures k owner j steps) s"
  by (induction steps arbitrary: j s) (auto split: sum.split)

lemma ex_nat_Suc: "(\<exists>m. P m) \<longleftrightarrow> P 0 \<or> (\<exists>m. P (Suc m))"
  by (metis not0_implies_Suc)

lemma query_failures_iff:
  "(i, r) \<in> set (query_failures k owner j steps) \<longleftrightarrow>
     (\<exists>m e. i = j + m \<and> m < length steps \<and> approval_query k owner (steps ! m) = Inl e \<and> r = Inl e)"
proof (induction steps arbitrary: j)
  case (Cons step steps)
  have "(i, r) \<in> set (query_failures k owner j (step # steps)) \<longleftrightarrow>
      (\<exists>e. approval_query k owner step = Inl e \<and> i = j \<and> r = Inl e) \<or> (i, r) \<in> set (query_failures k owner (j + 1) steps)"
    by (auto split: sum.split)
  also have "\<dots> \<longleftrightarrow> (\<exists>m e. i = j + m \<and> m < length (step # steps) \<and> approval_query k owner ((step # steps) ! m) = Inl e \<and> r = Inl e)"
  proof -
    let ?Q = "\<lambda>m. \<exists>e. m < length (step # steps) \<and> approval_query k owner ((step # steps) ! m) = Inl e \<and> r = Inl e"
    have "(\<exists>m. i = j + m \<and> ?Q m) \<longleftrightarrow> (i = j \<and> ?Q 0) \<or> (\<exists>m. i = j + 1 + m \<and> ?Q (Suc m))"
      by (subst ex_nat_Suc) simp
    then show ?thesis
      unfolding Cons.IH by auto
  qed
  finally show ?case .
qed simp

lemma query_failures_distinct: "distinct (map fst (query_failures k owner j steps))"
proof (induction steps arbitrary: j)
  case (Cons step steps)
  have "j \<notin> fst ` set (query_failures k owner (j + 1) steps)"
    using query_failures_iff by fastforce
  then show ?case
    using Cons by (auto split: sum.split)
qed simp

lemma call_completed_fold:
  "fold (call_completed steps) cs = fold (\<lambda>(i, r). check_complete i r) (map (\<lambda>(i, w). (i, check_result (steps ! i) w)) cs)"
  by (rule ext) (induction cs, auto simp: call_completed_def)

lemma first_error_None: "first_error ds = None \<longleftrightarrow> (\<forall>(i, r)\<in>set ds. is_ok r)"
proof (induction ds)
  case (Cons d ds)
  then show ?case
    by (cases d; cases "snd d") auto
qed simp

lemma first_error_Some: "first_error ds = Some e \<Longrightarrow> \<exists>i. (i, Inl e) \<in> set ds"
  by (induction ds) (auto split: sum.splits)

text \<open>Every call that was started completes once, in some order.\<close>

definition completes :: "keccak \<Rightarrow> evm_address \<Rightarrow> approval_step list \<Rightarrow> (nat \<times> string result) list \<Rightarrow> bool" where
  "completes k owner steps cs \<longleftrightarrow> distinct (map fst cs) \<and>
     (\<forall>i. i \<in> fst ` set cs \<longleftrightarrow> i < length steps \<and> is_ok (approval_query k owner (steps ! i)))"

definition outcomes ::
  "keccak \<Rightarrow> evm_address \<Rightarrow> approval_step list \<Rightarrow> (nat \<times> string result) list \<Rightarrow> (nat \<times> approval_check result) list" where
  "outcomes k owner steps cs = query_failures k owner 0 steps @ map (\<lambda>(i, w). (i, check_result (steps ! i) w)) cs"

lemma outcomes_fst: "map fst (outcomes k owner steps cs) = map fst (query_failures k owner 0 steps) @ map fst cs"
  by (simp add: outcomes_def case_prod_beta comp_def)

lemma query_failures_fst:
  "i \<in> fst ` set (query_failures k owner 0 steps) \<longleftrightarrow> i < length steps \<and> \<not> is_ok (approval_query k owner (steps ! i))"
proof -
  have "i \<in> fst ` set (query_failures k owner 0 steps) \<longleftrightarrow> (\<exists>r. (i, r) \<in> set (query_failures k owner 0 steps))"
    by force
  then show ?thesis
    by (auto simp: query_failures_iff is_ok_def split: sum.splits)
qed

lemma outcomes_wf:
  assumes "completes k owner steps cs"
  shows "distinct (map fst (outcomes k owner steps (take m cs)))"
    and "\<forall>i\<in>fst ` set (outcomes k owner steps (take m cs)). i < length steps"
proof -
  let ?fs = "query_failures k owner 0 steps"
  have sub: "fst ` set (take m cs) \<subseteq> fst ` set cs"
    using set_take_subset [of m cs] by blast
  have bounds: "\<forall>i\<in>fst ` set ?fs. i < length steps" "\<forall>i\<in>fst ` set cs. i < length steps"
    using assms query_failures_fst [of _ k owner steps] by (simp_all add: completes_def)
  have disjoint: "fst ` set ?fs \<inter> fst ` set cs = {}"
    using assms query_failures_fst [of _ k owner steps] unfolding completes_def by (auto simp only: disjoint_iff)
  have "distinct (map fst (take m cs))"
    using assms by (auto simp: completes_def distinct_map dest: inj_on_subset [OF _ set_take_subset])
  moreover have "set (map fst ?fs) \<inter> set (map fst (take m cs)) = {}"
    using disjoint sub unfolding set_map by blast
  ultimately show "distinct (map fst (outcomes k owner steps (take m cs)))"
    unfolding outcomes_fst distinct_append using query_failures_distinct by blast
  have "fst ` set (outcomes k owner steps (take m cs)) = fst ` set ?fs \<union> fst ` set (take m cs)"
    by (simp only: set_map [symmetric] outcomes_fst set_append)
  then show "\<forall>i\<in>fst ` set (outcomes k owner steps (take m cs)). i < length steps"
    using bounds sub by (elim ssubst) (simp only: ball_Un, fast)
qed

lemma checks_run:
  assumes "completes k owner steps cs" and "steps \<noteq> []"
  shows "fold (call_completed steps) (take m cs) (check_approvals k owner steps) =
    collected (length steps) (outcomes k owner steps (take m cs))"
  using collect_all [OF outcomes_wf [OF assms(1)], of m] assms(2)
  by (simp add: check_approvals_def start_checks_fold call_completed_fold outcomes_def)

lemma outcomes_length:
  assumes "completes k owner steps cs"
  shows "length (outcomes k owner steps cs) = length steps"
proof -
  have "set (map fst (outcomes k owner steps cs)) = {0..<length steps}"
    using assms query_failures_fst [of _ k owner steps] unfolding outcomes_fst set_append set_map completes_def
    by (intro set_eqI) (simp, blast)
  then show ?thesis
    using distinct_card [OF outcomes_wf(1) [OF assms, of "length cs"]] by simp
qed

lemma outcome_of_step:
  assumes "completes k owner steps cs" and "\<forall>(i, r)\<in>set (outcomes k owner steps cs). is_ok r" and "i < length steps"
  shows "\<exists>wire c. (i, wire) \<in> set cs \<and> check_result (steps ! i) wire = Inr c \<and> found (outcomes k owner steps cs) i = Some c"
proof -
  have "is_ok (approval_query k owner (steps ! i))"
  proof (rule ccontr)
    assume "\<not> is_ok (approval_query k owner (steps ! i))"
    then obtain e where "approval_query k owner (steps ! i) = Inl e"
      by (cases "approval_query k owner (steps ! i)") auto
    then have "(i, Inl e) \<in> set (outcomes k owner steps cs)"
      using assms(3) by (simp add: outcomes_def query_failures_iff)
    then show False
      using bspec [OF assms(2)] by fastforce
  qed
  then have "i \<in> fst ` set cs"
    using assms(1,3) by (simp add: completes_def)
  then obtain wire where wire: "(i, wire) \<in> set cs"
    by auto
  then have mem: "(i, check_result (steps ! i) wire) \<in> set (outcomes k owner steps cs)"
    using imageI [OF wire, of "\<lambda>(i, w). (i, check_result (steps ! i) w)"] by (simp add: outcomes_def)
  then have "map_of (outcomes k owner steps cs) i = Some (check_result (steps ! i) wire)"
    using map_of_is_SomeI [OF _ mem] outcomes_wf(1) [OF assms(1), of "length cs"] by simp
  moreover obtain c where "check_result (steps ! i) wire = Inr c"
    using bspec [OF assms(2) mem] by (auto simp: is_ok_iff)
  ultimately show ?thesis
    using wire by (auto simp: found_def)
qed

lemma outcome_failed:
  assumes "completes k owner steps cs" and "(i, Inl e) \<in> set (outcomes k owner steps cs)"
  shows "i < length steps \<and> (approval_query k owner (steps ! i) = Inl e \<or>
    (\<exists>wire. (i, wire) \<in> set cs \<and> check_result (steps ! i) wire = Inl e))"
proof -
  have "i < length steps"
    using bspec [OF outcomes_wf(2) [OF assms(1), of "length cs"], of i] imageI [OF assms(2), of fst] by simp
  moreover consider "(i, Inl e) \<in> set (query_failures k owner 0 steps)" | wire where "(i, wire) \<in> set cs" "check_result (steps ! i) wire = Inl e"
    using assms(2) by (auto simp: outcomes_def)
  ultimately show ?thesis
    by cases (auto simp: query_failures_iff)
qed

text \<open>
  The concurrent approval checks answer exactly once, whatever the order in which the calls
  complete: not before the last call has, and then with the checks in the order of the steps if every
  query was encoded and every answer decoded, and otherwise with the error of a step that failed.
\<close>

theorem approval_checks_answer_once:
  assumes "steps \<noteq> []" and "completes k owner steps cs"
  shows "\<exists>a. ck_answers (fold (call_completed steps) cs (check_approvals k owner steps)) = [a] \<and>
    (\<forall>m < length cs. ck_answers (fold (call_completed steps) (take m cs) (check_approvals k owner steps)) = []) \<and>
    (\<forall>l. a = Inr l \<longrightarrow> length l = length steps \<and> (\<forall>i < length steps. \<exists>wire. (i, wire) \<in> set cs \<and> check_result (steps ! i) wire = Inr (l ! i))) \<and>
    (\<forall>e. a = Inl e \<longrightarrow> (\<exists>i < length steps. approval_query k owner (steps ! i) = Inl e \<or>
       (\<exists>wire. (i, wire) \<in> set cs \<and> check_result (steps ! i) wire = Inl e)))"
proof -
  let ?n = "length steps" and ?ds = "outcomes k owner steps cs"
  define a where "a = (case first_error ?ds of Some e \<Rightarrow> Inl e | None \<Rightarrow> Inr (map the (map (found ?ds) [0..<?n])))"
  note len = outcomes_length [OF assms(2)]
  have "ck_answers (fold (call_completed steps) cs (check_approvals k owner steps)) = [a]"
    using checks_run [OF assms(2,1), of "length cs"] len by (simp add: collected_def a_def)
  moreover have "ck_answers (fold (call_completed steps) (take m cs) (check_approvals k owner steps)) = []" if "m < length cs" for m
    using checks_run [OF assms(2,1), of m] len that by (simp add: collected_def outcomes_def)
  moreover have "\<exists>i<?n. approval_query k owner (steps ! i) = Inl e \<or>
       (\<exists>wire. (i, wire) \<in> set cs \<and> check_result (steps ! i) wire = Inl e)" if failed: "a = Inl e" for e
  proof -
    obtain i where "(i, Inl e) \<in> set ?ds"
      using failed first_error_Some [of ?ds] by (auto simp: a_def split: option.splits)
    then show ?thesis
      using outcome_failed [OF assms(2)] by blast
  qed
  moreover have "length l = ?n \<and> (\<forall>i < ?n. \<exists>wire. (i, wire) \<in> set cs \<and> check_result (steps ! i) wire = Inr (l ! i))"
    if "a = Inr l" for l
  proof -
    have l: "l = map the (map (found ?ds) [0..<?n])" and ok: "\<forall>(i, r)\<in>set ?ds. is_ok r"
      using that first_error_None [of ?ds] by (auto simp: a_def split: option.splits)
    show ?thesis
      using outcome_of_step [OF assms(2) ok] by (fastforce simp: l)
  qed
  ultimately show ?thesis
    by blast
qed

section \<open>What an approval run reports\<close>

lemma unique_steps_spec:
  "distinct (map ap_id acc) \<Longrightarrow> distinct (map ap_id (unique_steps acc steps)) \<and>
   (\<exists>more. unique_steps acc steps = acc @ more \<and> set more \<subseteq> set steps) \<and>
   ap_id ` set (unique_steps acc steps) = ap_id ` set acc \<union> ap_id ` set steps"
proof (induction steps arbitrary: acc)
  case (Cons c steps)
  show ?case
  proof (cases "list_all (\<lambda>x. ap_id x \<noteq> ap_id c) acc")
    case True
    then have d: "distinct (map ap_id (acc @ [c]))"
      using Cons.prems by (auto simp: list_all_iff)
    show ?thesis
      using Cons.IH [OF d] True by (auto simp: image_Un)
  next
    case False
    then have "ap_id c \<in> ap_id ` set acc"
      by (auto simp: list_all_iff) (metis imageI)
    then show ?thesis
      using Cons.IH [OF Cons.prems] False by auto
  qed
qed auto

text \<open>
  A result that stands for what happened: a skipped step sent nothing; a confirmed one has an execution
  whose receipt has status 1 for the hash of the bytes sent; a failed one has an issue.
\<close>

definition result_ok :: "approval_step_result \<Rightarrow> bool" where
  "result_ok r \<longleftrightarrow>
     ar_state r = progress_skipped \<and> ar_transaction r = None \<and> ar_issue r = None \<or>
     ar_state r = progress_confirmed \<and> (\<exists>x rc. ar_transaction r = Some x \<and> tx_receipt x = Some rc \<and>
       same_hash (tc_transaction_hash rc) (rt_transaction_hash (tx_raw_transaction x)) \<and> receipt_confirmed_success rc) \<or>
     ar_state r = progress_failed \<and> ar_issue r \<noteq> None"

definition sent_steps :: "approval_step_result list \<Rightarrow> nat" where
  "sent_steps rs = length (filter (\<lambda>r. ar_state r \<noteq> progress_skipped) rs)"

text \<open>\<open>step_done cfg step s o'\<close>: one step has been recorded, truthfully, and the client sent at most once for it.\<close>

definition step_done :: "approval_step \<Rightarrow> run_state \<Rightarrow> bool \<times> run_state \<Rightarrow> bool" where
  "step_done step s o' \<longleftrightarrow> (\<exists>r. rn_steps (snd o') = rn_steps s @ [r] \<and> ar_step r = step \<and> result_ok r \<and>
     (fst o' \<longleftrightarrow> ar_state r = progress_failed) \<and> chain_ok (rn_client (snd o')) \<and>
     length (sends (rn_client (snd o'))) \<le> length (sends (rn_client s)) + sent_steps [r])"

lemma notify_sel [simp]: "rn_steps (notify cfg step st h i s) = rn_steps s" "rn_client (notify cfg step st h i s) = rn_client s"
  by (simp_all add: notify_def)

lemma record_sel [simp]:
  "rn_steps (record_step step st t i s) = rn_steps s @ [\<lparr>ar_step = step, ar_state = st, ar_transaction = t, ar_issue = i\<rparr>]"
  "rn_client (record_step step st t i s) = rn_client s"
  by (simp_all add: record_step_def)

lemma fail_current_done:
  "chain_ok (rn_client s') \<Longrightarrow> rn_steps s' = rn_steps s \<Longrightarrow>
   length (sends (rn_client s')) \<le> length (sends (rn_client s)) + 1 \<Longrightarrow> step_done step s (True, fail_current cfg step e s')"
  by (simp add: step_done_def fail_current_def result_ok_def sent_steps_def)

lemma execute_receipt:
  assumes "execute_transaction w from t signer interval deadline s = Some (r, s')" and "chain_ok s"
  shows "chain_ok s' \<and> length (sends s') \<le> length (sends s) + 1 \<and>
    (\<forall>x rc. r = Inr x \<longrightarrow> tx_receipt x = Some rc \<longrightarrow>
       same_hash (tc_transaction_hash rc) (rt_transaction_hash (tx_raw_transaction x)))"
proof -
  have grown: "rpc_grows ms s u \<Longrightarrow> chain_ok u" for ms u
    using assms(2) by (auto simp: rpc_grows_def chain_ok_def)
  show ?thesis
    using assms(1)
  proof (cases rule: execute_cases)
    case (waited sign p s1 raw q c s2 u rc sub)
    then show ?thesis
      using grown by (cases rc) (auto simp: execution_of_def good_receipt_def)
  qed (use grown in auto)
qed

lemma executed_done:
  assumes "execute_transaction w from t signer interval deadline (rn_client s) = Some (r, client)" and "chain_ok (rn_client s)"
    and "rn_steps s' = rn_steps s"
  shows "step_done step s (executed cfg step r (s'\<lparr>rn_client := client\<rparr>))"
proof -
  note e = execute_receipt [OF assms(1,2)]
  show ?thesis
  proof (cases r)
    case (Inl issue)
    then show ?thesis
      using e assms(3) by (simp add: executed_def fail_current_done)
  next
    case (Inr x)
    show ?thesis
    proof (cases "execution_confirmed_success x")
      case True
      then obtain rc where "tx_receipt x = Some rc" "receipt_confirmed_success rc"
        by (auto simp: execution_confirmed_success_def split: option.splits)
      then show ?thesis
        using e Inr True assms(3) by (simp add: executed_def step_done_def result_ok_def sent_steps_def Let_def)
    next
      case False
      then show ?thesis
        using e Inr assms(3) by (simp add: executed_def step_done_def result_ok_def sent_steps_def Let_def)
    qed
  qed
qed

lemma submit_done:
  assumes "submit cfg step s' = Some o'" and "chain_ok (rn_client s')" and "rn_steps s' = rn_steps s"
    and "sends (rn_client s') = sends (rn_client s)"
  shows "step_done step s o'"
proof (cases "bind_res (approval_transaction (ce_keccak (rf_env cfg)) step (ao_erc20_allowance_amount (rf_options cfg)) True)
    (\<lambda>direct. route_transaction (ce_keccak (rf_env cfg)) direct (rf_route cfg))")
  case (Inl e)
  then show ?thesis
    using assms by (simp add: submit_def) (metis fail_current_done le_add1)
next
  case (Inr t)
  let ?s1 = "notify cfg step progress_submitting None None s'"
  obtain r client where x: "execute_transaction (rf_env cfg) (rf_sender cfg) t (rf_signer cfg) (ao_poll_interval (rf_options cfg))
      (rf_deadline cfg) (rn_client s') = Some (r, client)" and o': "o' = executed cfg step r (?s1\<lparr>rn_client := client\<rparr>)"
    using assms(1) Inr by (auto simp: submit_def Let_def)
  have "step_done step s' o'"
    unfolding o' by (rule executed_done [OF x assms(2)]) simp
  then show ?thesis
    using assms(3,4) by (simp add: step_done_def)
qed

lemma check_or_submit_done:
  assumes "check_or_submit cfg step s = Some o'" and "chain_ok (rn_client s)"
  shows "step_done step s o'"
proof (cases "approval_query (ce_keccak (rf_env cfg)) (rf_owner cfg) step")
  case (Inl e)
  then show ?thesis
    using assms by (auto simp: check_or_submit_def Let_def intro: submit_done)
next
  case (Inr data)
  obtain wire client where call: "chain_call (rf_env cfg) \<lparr>cl_to = ap_token step, cl_data = data, cl_from = None\<rparr> latest_block
      (rn_client s) = (wire, client)"
    by fastforce
  have runs: "rpc_runs (post_of {''eth_chainId'', ''eth_call''}) (rn_client s) client"
    by (rule rpc_runs_call [OF call]) simp
  have keep: "chain_ok client" "sends client = sends (rn_client s)"
    using chain_ok_runs [OF runs assms(2)] sends_runs [OF runs] by auto
  show ?thesis
    using assms(1) Inr call keep
    by (auto simp: check_or_submit_def Let_def intro: submit_done split: sum.splits if_splits)
      (simp add: step_done_def result_ok_def sent_steps_def)
qed

lemma read_stop_client: "read_stop w c = (b, c') \<Longrightarrow> chain_ok c' = chain_ok c \<and> sends c' = sends c"
  by (auto simp: read_stop_def chain_ok_def sends_def)

definition run_ok :: "run_config \<Rightarrow> approval_step list \<Rightarrow> run_state \<Rightarrow> run_state \<Rightarrow> bool" where
  "run_ok cfg steps s s' \<longleftrightarrow> (\<exists>rs. rn_steps s' = rn_steps s @ rs \<and> (\<exists>n. map ar_step rs = take n steps) \<and> list_all result_ok rs \<and>
     length (sends (rn_client s')) \<le> length (sends (rn_client s)) + sent_steps rs \<and>
     (map ar_step rs \<noteq> steps \<longrightarrow> ao_stop_on_error (rf_options cfg) \<and> (\<exists>r\<in>set rs. ar_state r = progress_failed)))"

lemma run_next_ok:
  "run_next cfg steps s = Some s' \<Longrightarrow> chain_ok (rn_client s) \<Longrightarrow> run_ok cfg steps s s'"
proof (induction steps arbitrary: s)
  case Nil
  then show ?case
    using read_stop_client by (fastforce simp: run_ok_def sent_steps_def split: prod.splits)
next
  case (Cons step steps)
  obtain stop client where stop: "read_stop (rf_env cfg) (rn_client s) = (stop, client)"
    by fastforce
  define s1 where "s1 = s\<lparr>rn_client := client\<rparr>"
  have s1: "chain_ok (rn_client s1)" "sends (rn_client s1) = sends (rn_client s)" "rn_steps s1 = rn_steps s"
    using read_stop_client [OF stop] Cons.prems(2) by (simp_all add: s1_def)
  obtain failed s2 where o': "run_step cfg step stop s1 = Some (failed, s2)"
    and rest: "(if failed \<and> ao_stop_on_error (rf_options cfg) then Some s2 else run_next cfg steps s2) = Some s'"
    using Cons.prems(1) stop by (auto simp: s1_def split: option.splits)
  have "step_done step s1 (failed, s2)"
    using o' s1 fail_current_done [of s1 s1] check_or_submit_done submit_done [of cfg step s1 _ s1]
    by (auto simp: run_step_def split: if_splits)
  then obtain r where r: "rn_steps s2 = rn_steps s @ [r]" "ar_step r = step" "result_ok r" "failed \<longleftrightarrow> ar_state r = progress_failed"
    "chain_ok (rn_client s2)" "length (sends (rn_client s2)) \<le> length (sends (rn_client s)) + sent_steps [r]"
    using s1 by (auto simp: step_done_def)
  show ?case
  proof (cases "failed \<and> ao_stop_on_error (rf_options cfg)")
    case True
    have "\<exists>n. map ar_step [r] = take n (step # steps)"
      using r(2) by (intro exI [of _ 1]) simp
    then show ?thesis
      unfolding run_ok_def by (intro exI [of _ "[r]"] conjI) (use True rest r in auto)
  next
    case False
    then obtain rs n where rs: "rn_steps s' = rn_steps s2 @ rs" "map ar_step rs = take n steps" "list_all result_ok rs"
      "length (sends (rn_client s')) \<le> length (sends (rn_client s2)) + sent_steps rs"
      "map ar_step rs \<noteq> steps \<longrightarrow> ao_stop_on_error (rf_options cfg) \<and> (\<exists>r\<in>set rs. ar_state r = progress_failed)"
      using Cons.IH [of s2] rest r(5) unfolding run_ok_def if_not_P [OF False] by blast
    have "\<exists>n. map ar_step (r # rs) = take n (step # steps)"
      using r(2) rs(2) by (intro exI [of _ "Suc n"]) simp
    then show ?thesis
      unfolding run_ok_def by (intro exI [of _ "r # rs"] conjI) (use r rs in \<open>auto simp: sent_steps_def\<close>)
  qed
qed

text \<open>
  C18. An approval run reports what happened: its results are for the first steps of the list without
  repeated ids, in order, and each is a step that was skipped, one whose transaction has a successful
  receipt for the bytes that were sent, or a failure with its issue; it stops early only after a
  failure and only if it was told to; it succeeds only if every step is skipped or confirmed; and it
  sends at most one transaction for each step that was not skipped.
\<close>

theorem approval_run_reports:
  assumes "run_approvals cfg steps client = Some (Inr report, s')" and "chain_ok client"
  shows "distinct (map ap_id (unique_steps [] steps)) \<and> ap_id ` set (unique_steps [] steps) = ap_id ` set steps \<and>
    (\<exists>n. map ar_step (an_steps report) = take n (unique_steps [] steps)) \<and> list_all result_ok (an_steps report) \<and>
    (map ar_step (an_steps report) \<noteq> unique_steps [] steps \<longrightarrow>
       ao_stop_on_error (rf_options cfg) \<and> (\<exists>r\<in>set (an_steps report). ar_state r = progress_failed)) \<and>
    (an_success report \<longrightarrow> map ar_step (an_steps report) = unique_steps [] steps \<and>
       (\<forall>r\<in>set (an_steps report). ar_state r \<in> {progress_skipped, progress_confirmed})) \<and>
    length (sends (rn_client s')) \<le> length (sends client) + sent_steps (an_steps report)"
proof -
  have "run_next cfg (unique_steps [] steps) \<lparr>rn_client = client, rn_steps = [], rn_progress = []\<rparr> = Some s'"
    and report: "report = run_report s'"
    using assms(1) by (auto simp: run_approvals_def Let_def split: if_splits)
  from run_next_ok [OF this(1)] assms(2)
  have "run_ok cfg (unique_steps [] steps) \<lparr>rn_client = client, rn_steps = [], rn_progress = []\<rparr> s'"
    by simp
  then show ?thesis
    using unique_steps_spec [of "[]" steps] unfolding run_ok_def report run_report_def
    by (auto simp: list_all_iff)
qed

section \<open>Samples\<close>

definition sample_approval :: approval_step where
  "sample_approval = \<lparr>ap_id = ''a'', ap_kind = erc1155_operator, ap_spender = sample_sender, ap_token = sample_sender,
     ap_label = '''', ap_description = ''''\<rparr>"

definition yes_word :: string where "yes_word = to_hex (replicate 31 0 @ [1])"

theorem approval_checks_answer_once_witness:
  "\<exists>a. ck_answers (fold (call_completed [sample_approval, sample_approval]) [(1, Inr yes_word), (0, Inr zero_hash)]
      (check_approvals zero_keccak sample_sender [sample_approval, sample_approval])) = [Inr a] \<and>
    map ac_satisfied a = [False, True]"
proof -
  have q: "is_ok (approval_query zero_keccak sample_sender sample_approval)"
    by code_simp
  have r: "check_result sample_approval (Inr yes_word) = Inr \<lparr>ac_step = sample_approval, ac_satisfied = True, ac_allowance = None\<rparr>"
    "check_result sample_approval (Inr zero_hash) = Inr \<lparr>ac_step = sample_approval, ac_satisfied = False, ac_allowance = None\<rparr>"
    by code_simp+
  have c: "completes zero_keccak sample_sender [sample_approval, sample_approval] [(1, Inr yes_word), (0, Inr zero_hash)]"
    using q by (auto simp: completes_def nth_Cons split: nat.splits)
  obtain a where a: "ck_answers (fold (call_completed [sample_approval, sample_approval]) [(1, Inr yes_word), (0, Inr zero_hash)]
      (check_approvals zero_keccak sample_sender [sample_approval, sample_approval])) = [a]"
    and ok: "\<forall>l. a = Inr l \<longrightarrow> length l = 2 \<and> (\<forall>i<2. \<exists>wire. (i, wire) \<in> set [(1, Inr yes_word), (0, Inr zero_hash)] \<and>
      check_result ([sample_approval, sample_approval] ! i) wire = Inr (l ! i))"
    and bad: "\<forall>e. a = Inl e \<longrightarrow> (\<exists>i<2. approval_query zero_keccak sample_sender ([sample_approval, sample_approval] ! i) = Inl e \<or>
      (\<exists>wire. (i, wire) \<in> set [(1, Inr yes_word), (0, Inr zero_hash)] \<and>
        check_result ([sample_approval, sample_approval] ! i) wire = Inl e))"
    using approval_checks_answer_once [OF _ c] by (auto simp: numeral_2_eq_2)
  obtain l where l: "a = Inr l"
    using bad q r by (cases a) (auto simp: less_2_cases_iff)
  then have "length l = 2" "l ! 0 = \<lparr>ac_step = sample_approval, ac_satisfied = False, ac_allowance = None\<rparr>"
    "l ! 1 = \<lparr>ac_step = sample_approval, ac_satisfied = True, ac_allowance = None\<rparr>"
    using ok r by (auto simp: less_2_cases_iff all_conj_distrib)
  then show ?thesis
    using a l by (cases l; cases "tl l") auto
qed

definition sample_run :: run_config where
  "sample_run = \<lparr>rf_env = sample_chain_env 200, rf_owner = sample_sender, rf_sender = sample_sender,
     rf_route = \<lparr>ru_route = route_eoa, ru_predict_account = None\<rparr>, rf_signer = Some sample_digest_signer,
     rf_options = \<lparr>ao_skip_satisfied = False, ao_stop_on_error = True, ao_poll_interval = 1, ao_erc20_allowance_amount = None\<rparr>,
     rf_has_progress = True, rf_deadline = 0\<rparr>"

theorem approval_run_reports_witness:
  "\<exists>report s'. run_approvals sample_run [sample_approval, sample_approval] sample_chain_client =
      Some (Inr report, s') \<and>
    an_success report \<and> map ar_step (an_steps report) = [sample_approval] \<and> length (sends (rn_client s')) \<le> 1"
proof -
  have "(case run_approvals sample_run [sample_approval, sample_approval] sample_chain_client of
      Some (Inr report, s') \<Rightarrow> an_success report | _ \<Rightarrow> False)"
    by code_simp
  then obtain report s' where run: "run_approvals sample_run [sample_approval, sample_approval]
      sample_chain_client = Some (Inr report, s')" and ok: "an_success report"
    by (auto split: option.splits prod.splits sum.splits)
  have u: "unique_steps [] [sample_approval, sample_approval] = [sample_approval]"
    by simp
  have "sent_steps (an_steps report) \<le> length (map ar_step (an_steps report))"
    by (simp add: sent_steps_def)
  then show ?thesis
    using approval_run_reports [OF run sample_chain_ok] run ok unfolding u
    by (auto simp: sends_def sample_chain_client_def)
qed

end
