(* ===== verification/Rest_Query.thy ===== *)
theory Rest_Query
  imports Order_Types
begin

text \<open>
  The request targets of the REST clients (namespace \<^verbatim>\<open>protocol\<close> of \<^verbatim>\<open>src/public_rest.cpp\<close> and
  \<^verbatim>\<open>src/private_rest.cpp\<close>): the validation of the queries, percent encoding and the query string, with
  a reference reader of targets.
\<close>

unbundle bit_operations_syntax

section \<open>Encoding\<close>

definition safe_char :: "char \<Rightarrow> bool" where
  "safe_char c \<longleftrightarrow> is_alnum c \<or> c = CHR ''_'' \<or> c = CHR ''-'' \<or> c = CHR ''.''"

definition safe_token :: "string \<Rightarrow> bool" where
  "safe_token v \<longleftrightarrow> v \<noteq> [] \<and> list_all safe_char v"

definition upper_hex :: string where "upper_hex = ''0123456789ABCDEF''"

definition encode_char :: "char \<Rightarrow> string" where
  "encode_char c =
     (if is_alnum c \<or> c = CHR ''-'' \<or> c = CHR ''_'' \<or> c = CHR ''.'' \<or> c = CHR ''~'' then [c]
      else [CHR ''%'', upper_hex ! (of_char c div 16 mod 16), upper_hex ! (of_char c mod 16)])"

definition percent_encode :: "string \<Rightarrow> string" where
  "percent_encode v = concat (map encode_char v)"

definition add_query :: "string \<Rightarrow> string \<Rightarrow> string \<Rightarrow> string" where
  "add_query name v target =
     target @ (if CHR ''?'' \<in> set target then ''&'' else ''?'') @ name @ ''='' @ percent_encode v"

definition add_optional :: "string \<Rightarrow> string option \<Rightarrow> string \<Rightarrow> string" where
  "add_optional name v target = (case v of None \<Rightarrow> target | Some x \<Rightarrow> add_query name x target)"

definition bool_text :: "bool \<Rightarrow> string" where "bool_text b = (if b then ''true'' else ''false'')"

definition first_error_of :: "nat option \<Rightarrow> bool" where
  "first_error_of first = (case first of None \<Rightarrow> False | Some n \<Rightarrow> n = 0 \<or> n > 1000)"

definition unsafe :: "string option \<Rightarrow> bool" where
  "unsafe v = (case v of None \<Rightarrow> False | Some s \<Rightarrow> \<not> safe_token s)"

definition bad_argument :: "string \<Rightarrow> string \<Rightarrow> error" where
  "bad_argument m f = mk_error invalid_argument m f"

section \<open>Public targets\<close>

text \<open>\<^verbatim>\<open>MarketsQuery\<close> and \<^verbatim>\<open>CategoriesQuery\<close> have the same members.\<close>

record collection_query =
  cq_first :: "nat option"
  cq_after :: "string option"
  cq_status :: "string option"
  cq_market_variant :: "string option"

definition collection_target :: "string \<Rightarrow> collection_query \<Rightarrow> string result" where
  "collection_target base q =
     (if first_error_of (cq_first q) then Inl (bad_argument ''first must be between 1 and 1000'' ''first'')
      else if unsafe (cq_status q) then Inl (bad_argument ''invalid status'' ''status'')
      else if unsafe (cq_market_variant q) then Inl (bad_argument ''invalid market variant'' ''marketVariant'')
      else Inr (add_optional ''marketVariant'' (cq_market_variant q)
                 (add_optional ''status'' (cq_status q)
                   (add_optional ''after'' (cq_after q)
                     (add_optional ''first'' (map_option to_string (cq_first q)) base)))))"

definition markets_target :: "collection_query \<Rightarrow> string result" where
  "markets_target q = collection_target ''/v1/markets'' q"

definition market_target :: "nat \<Rightarrow> string result" where
  "market_target market =
     (if market = 0 then Inl (bad_argument ''market id must be positive'' ''market_id'')
      else Inr (''/v1/markets/'' @ to_string market))"

definition categories_target :: "collection_query \<Rightarrow> string result" where
  "categories_target q = collection_target ''/v1/categories'' q"

definition category_target :: "string \<Rightarrow> string result" where
  "category_target slug =
     (if \<not> safe_token slug then Inl (bad_argument ''invalid category slug'' ''slug'')
      else Inr (''/v1/categories/'' @ percent_encode slug))"

definition orderbook_target :: "nat \<Rightarrow> string result" where
  "orderbook_target market = bind_res (market_target market) (\<lambda>t. Inr (t @ ''/orderbook''))"

record timeseries_query =
  tm_metric :: string
  tm_resolution :: "string option"
  tm_from :: "int option"
  tm_to :: "int option"
  tm_limit :: "nat option"
  tm_after :: "string option"

definition timeseries_target :: "nat \<Rightarrow> timeseries_query \<Rightarrow> string result" where
  "timeseries_target market q =
     bind_res (market_target market) (\<lambda>t.
       if \<not> safe_token (tm_metric q) then Inl (bad_argument ''invalid timeseries metric'' ''metric'')
       else if unsafe (tm_resolution q) then Inl (bad_argument ''invalid timeseries resolution'' ''resolution'')
       else if (case (tm_from q, tm_to q) of (Some f, Some u) \<Rightarrow> f > u | _ \<Rightarrow> False)
       then Inl (bad_argument ''from must not exceed to'' ''from'')
       else if (case tm_limit q of None \<Rightarrow> False | Some n \<Rightarrow> n = 0 \<or> n > 100000)
       then Inl (bad_argument ''timeseries limit must be between 1 and 100000'' ''limit'')
       else Inr (add_optional ''after'' (tm_after q)
                  (add_optional ''limit'' (map_option to_string (tm_limit q))
                    (add_optional ''to'' (map_option int_to_string (tm_to q))
                      (add_optional ''from'' (map_option int_to_string (tm_from q))
                        (add_optional ''resolution'' (tm_resolution q)
                          (add_query ''metric'' (tm_metric q) (t @ ''/timeseries''))))))))"

definition latest_timeseries_target :: "nat \<Rightarrow> string \<Rightarrow> string result" where
  "latest_timeseries_target market metric =
     (if \<not> safe_token metric then Inl (bad_argument ''invalid timeseries metric'' ''metric'')
      else bind_res (market_target market) (\<lambda>t. Inr (add_query ''metric'' metric (t @ ''/timeseries/latest''))))"

record matches_query =
  mq_first :: "nat option"
  mq_after :: "string option"
  mq_category :: "string option"
  mq_market_id :: "nat option"
  mq_min_value_usdt_wei :: "uint256 option"
  mq_signer_address :: "evm_address option"
  mq_is_signer_maker :: "bool option"

definition matches_target :: "matches_query \<Rightarrow> string result" where
  "matches_target q =
     (if first_error_of (mq_first q) then Inl (bad_argument ''first must be between 1 and 1000'' ''first'')
      else if unsafe (mq_category q) then Inl (bad_argument ''invalid category'' ''category'')
      else if mq_market_id q = Some 0 then Inl (bad_argument ''market id must be positive'' ''market_id'')
      else if (case mq_signer_address q of None \<Rightarrow> False | Some a \<Rightarrow> evm_empty a)
      then Inl (bad_argument ''signer address must not be zero'' ''signer_address'')
      else Inr (add_optional ''isSignerMaker'' (map_option bool_text (mq_is_signer_maker q))
                 (add_optional ''signerAddress'' (map_option evm_to_string (mq_signer_address q))
                   (add_optional ''minValueUsdtWei'' (map_option u256_text (mq_min_value_usdt_wei q))
                     (add_optional ''marketId'' (map_option to_string (mq_market_id q))
                       (add_optional ''category'' (mq_category q)
                         (add_optional ''after'' (mq_after q)
                           (add_optional ''first'' (map_option to_string (mq_first q)) ''/v1/orders/matches''))))))))"

definition tags_target :: "string result" where "tags_target = Inr ''/v1/tags''"

definition market_statistics_target :: "nat \<Rightarrow> string result" where
  "market_statistics_target market = bind_res (market_target market) (\<lambda>t. Inr (t @ ''/stats''))"

definition market_last_sale_target :: "nat \<Rightarrow> string result" where
  "market_last_sale_target market = bind_res (market_target market) (\<lambda>t. Inr (t @ ''/last-sale''))"

record search_query =
  sq_query :: string
  sq_include_resolved :: "bool option"
  sq_limit :: "nat option"

definition search_target :: "search_query \<Rightarrow> string result" where
  "search_target q =
     (if sq_query q = [] \<or> length (sq_query q) > 256
      then Inl (bad_argument ''search query must contain between 1 and 256 bytes'' ''query'')
      else if (case sq_limit q of None \<Rightarrow> False | Some n \<Rightarrow> n = 0 \<or> n > 25)
      then Inl (bad_argument ''search limit must be between 1 and 25'' ''limit'')
      else Inr (add_optional ''limit'' (map_option to_string (sq_limit q))
                 (add_optional ''includeResolved'' (map_option bool_text (sq_include_resolved q))
                   (add_query ''query'' (sq_query q) ''/v1/search''))))"

record positions_query =
  pq_first :: "nat option"
  pq_after :: "string option"
  pq_market_id :: "nat option"
  pq_is_resolved :: "bool option"
  pq_sort :: "string option"

definition supported_position_sort :: "string \<Rightarrow> bool" where
  "supported_position_sort v \<longleftrightarrow> v = ''AMOUNT_DESC'' \<or> v = ''EVENT_BLOCK_ASC'' \<or> v = ''EVENT_BLOCK_DESC'' \<or>
     v = ''SHARES_VALUE_DESC'' \<or> v = ''RETURN_DESC''"

definition address_positions_target :: "evm_address \<Rightarrow> positions_query \<Rightarrow> string result" where
  "address_positions_target a q =
     (if evm_empty a then Inl (bad_argument ''position address must not be zero'' ''address'')
      else if first_error_of (pq_first q) then Inl (bad_argument ''first must be between 1 and 1000'' ''first'')
      else if pq_market_id q = Some 0 then Inl (bad_argument ''market id must be positive'' ''market_id'')
      else if (case pq_sort q of None \<Rightarrow> False | Some s \<Rightarrow> \<not> supported_position_sort s)
      then Inl (bad_argument ''unsupported position sort'' ''sort'')
      else Inr (add_optional ''sort'' (pq_sort q)
                 (add_optional ''isResolved'' (map_option bool_text (pq_is_resolved q))
                   (add_optional ''marketId'' (map_option to_string (pq_market_id q))
                     (add_optional ''after'' (pq_after q)
                       (add_optional ''first'' (map_option to_string (pq_first q)) (''/v1/positions/'' @ evm_to_string a)))))))"

section \<open>Private targets\<close>

definition add_page :: "nat option \<Rightarrow> string option \<Rightarrow> string \<Rightarrow> string result" where
  "add_page first after target =
     (if first_error_of first then Inl (bad_argument ''first must be between 1 and 1000'' ''first'')
      else Inr (add_optional ''after'' after (add_optional ''first'' (map_option to_string first) target)))"

definition positions_target :: "positions_query \<Rightarrow> string result" where
  "positions_target q =
     bind_res (add_page (pq_first q) (pq_after q) ''/v1/positions'') (\<lambda>t.
       if pq_market_id q = Some 0 then Inl (bad_argument ''market id must be positive'' ''market_id'')
       else
         let t1 = add_optional ''isResolved'' (map_option bool_text (pq_is_resolved q))
                    (add_optional ''marketId'' (map_option to_string (pq_market_id q)) t)
         in if unsafe (pq_sort q) then Inl (bad_argument ''invalid position sort'' ''sort'')
            else Inr (add_optional ''sort'' (pq_sort q) t1))"

definition orders_target :: "nat option \<Rightarrow> string option \<Rightarrow> string option \<Rightarrow> string result" where
  "orders_target first after status =
     bind_res (add_page first after ''/v1/orders'') (\<lambda>t.
       if unsafe status then Inl (bad_argument ''invalid order status'' ''status'')
       else Inr (add_optional ''status'' status t))"

definition order_hash_text :: "string \<Rightarrow> bool" where
  "order_hash_text v \<longleftrightarrow> length v = 66 \<and> starts_with v ''0x'' \<and> list_all is_xdigit (drop 2 v)"

definition order_target :: "string \<Rightarrow> string result" where
  "order_target hash =
     (if \<not> order_hash_text hash
      then Inl (bad_argument ''order hash must be 0x followed by 64 hex characters'' ''hash'')
      else Inr (''/v1/orders/'' @ hash))"

fun add_events :: "string list \<Rightarrow> string \<Rightarrow> string result" where
  "add_events [] t = Inr t"
| "add_events (event # events) t =
     (if \<not> safe_token event then Inl (bad_argument ''invalid activity event type'' ''event_types'')
      else add_events events (add_query ''eventTypes'' event t))"

definition activity_target :: "nat option \<Rightarrow> string option \<Rightarrow> string list \<Rightarrow> string result" where
  "activity_target first after event_types =
     bind_res (add_page first after ''/v1/account/activity'') (add_events event_types)"

section \<open>Reading a target\<close>

fun percent_decode :: "string \<Rightarrow> string option" where
  "percent_decode [] = Some []"
| "percent_decode (c # s) =
     (if c = CHR ''%'' then
        (case s of
           h # l # rest \<Rightarrow>
             if hex_value h < 0 \<or> hex_value l < 0 then None
             else map_option (Cons (char_of (nat (16 * hex_value h + hex_value l)))) (percent_decode rest)
         | _ \<Rightarrow> None)
      else map_option (Cons c) (percent_decode s))"

fun query_parts :: "string \<Rightarrow> string list" where
  "query_parts [] = [[]]"
| "query_parts (c # s) = (if c = CHR ''&'' then [] # query_parts s else (c # hd (query_parts s)) # tl (query_parts s))"

definition read_parameter :: "string \<Rightarrow> (string \<times> string) option" where
  "read_parameter p =
     map_option (Pair (takeWhile (\<lambda>c. c \<noteq> CHR ''='') p)) (percent_decode (drop 1 (dropWhile (\<lambda>c. c \<noteq> CHR ''='') p)))"

definition read_target :: "string \<Rightarrow> (string \<times> (string \<times> string) list) option" where
  "read_target t =
     map_option (Pair (takeWhile (\<lambda>c. c \<noteq> CHR ''?'') t))
       (case dropWhile (\<lambda>c. c \<noteq> CHR ''?'') t of [] \<Rightarrow> Some [] | _ # q \<Rightarrow> those (map read_parameter (query_parts q)))"

definition target_of :: "string \<Rightarrow> (string \<times> string) list \<Rightarrow> string" where
  "target_of base ps = fold (\<lambda>(n, v). add_query n v) ps base"

definition given :: "string \<Rightarrow> string option \<Rightarrow> (string \<times> string) list" where
  "given n v = (case v of None \<Rightarrow> [] | Some x \<Rightarrow> [(n, x)])"

lemma target_of_simps:
  "add_query n v base = target_of base [(n, v)]" "add_optional n o' base = target_of base (given n o')"
  "target_of (target_of base ps) qs = target_of base (ps @ qs)"
  by (auto simp: target_of_def add_optional_def given_def split: option.split)

subsection \<open>Characters of an encoded value\<close>

definition encoded_char :: "char \<Rightarrow> bool" where
  "encoded_char c \<longleftrightarrow> is_alnum c \<or> c = CHR ''-'' \<or> c = CHR ''_'' \<or> c = CHR ''.'' \<or> c = CHR ''~'' \<or> c = CHR ''%''"

lemma upper_hex_nth: "k < 16 \<Longrightarrow> is_alnum (upper_hex ! k) \<and> hex_value (upper_hex ! k) = int k"
proof -
  have "list_all (\<lambda>k. is_alnum (upper_hex ! k) \<and> hex_value (upper_hex ! k) = int k) [0..<16]"
    by code_simp
  then show "k < 16 \<Longrightarrow> ?thesis"
    by (simp add: list_all_iff)
qed

lemma percent_encode_chars: "list_all encoded_char (percent_encode v)"
  by (auto simp: percent_encode_def encode_char_def encoded_char_def list_all_iff upper_hex_nth)

lemma encoded_char_not: "encoded_char c \<Longrightarrow> c \<noteq> CHR ''&'' \<and> c \<noteq> CHR ''='' \<and> c \<noteq> CHR ''?'' \<and> 33 \<le> (of_char c :: nat) \<and> (of_char c :: nat) \<le> 126"
  by (auto simp: encoded_char_def is_alnum_def Let_def)

lemma percent_decode_encode: "percent_decode (percent_encode v) = Some v"
proof (induction v)
  case (Cons c v)
  have "percent_decode (encode_char c @ s) = map_option (Cons c) (percent_decode s)" for s
  proof (cases "is_alnum c \<or> c = CHR ''-'' \<or> c = CHR ''_'' \<or> c = CHR ''.'' \<or> c = CHR ''~''")
    case True
    then have "c \<noteq> CHR ''%''"
      by (auto simp: is_alnum_def Let_def)
    then show ?thesis
      using True by (simp add: encode_char_def)
  next
    case False
    have d: "(of_char c :: nat) div 16 mod 16 < 16" "(of_char c :: nat) mod 16 < 16"
      "16 * ((of_char c :: nat) div 16 mod 16) + of_char c mod 16 = of_char c"
    proof -
      have "16 * (n div 16 mod 16) + n mod 16 = n" if "n < 256" for n :: nat
      proof -
        have "n div 16 < 16"
          using that by (intro less_mult_imp_div_less) simp
        then show ?thesis
          by simp
      qed
      moreover have "(of_char c :: nat) < 256"
        by (rule nat_of_char_less_256)
      ultimately show "16 * ((of_char c :: nat) div 16 mod 16) + of_char c mod 16 = of_char c" .
    qed simp_all
    then have "nat (16 * int ((of_char c :: nat) div 16 mod 16) + int ((of_char c :: nat) mod 16)) = of_char c"
      by (metis nat_int of_nat_add of_nat_mult of_nat_numeral)
    moreover have "(of_char c :: nat) div 16 mod 16 = of_char c div 16"
      using d(3) div_mult_mod_eq [of "of_char c :: nat" 16] by linarith
    ultimately show ?thesis
      using False upper_hex_nth [OF d(1)] upper_hex_nth [OF d(2)] by (simp add: encode_char_def)
  qed
  then show ?case
    using Cons by (simp add: percent_encode_def)
qed (simp add: percent_encode_def)

subsection \<open>Round trip\<close>

text \<open>Names and paths are literals and validated identifiers: they have no delimiter in them.\<close>

definition name_char :: "char \<Rightarrow> bool" where
  "name_char c \<longleftrightarrow> is_alnum c"

definition parameter_text :: "string \<times> string \<Rightarrow> string" where
  "parameter_text p = fst p @ ''='' @ percent_encode (snd p)"

fun query_text :: "(string \<times> string) list \<Rightarrow> string" where
  "query_text [] = []"
| "query_text [p] = parameter_text p"
| "query_text (p # q # ps) = parameter_text p @ ''&'' @ query_text (q # ps)"

lemma name_char_not: "name_char c \<Longrightarrow> c \<noteq> CHR ''&'' \<and> c \<noteq> CHR ''='' \<and> c \<noteq> CHR ''?'' \<and> 33 \<le> (of_char c :: nat) \<and> (of_char c :: nat) \<le> 126"
  by (auto simp: name_char_def is_alnum_def Let_def)

lemma parameter_text_chars:
  "list_all name_char (fst p) \<Longrightarrow> c \<in> set (parameter_text p) \<Longrightarrow> c \<noteq> CHR ''&'' \<and> c \<noteq> CHR ''?'' \<and> 33 \<le> (of_char c :: nat) \<and> (of_char c :: nat) \<le> 126"
proof -
  assume names: "list_all name_char (fst p)" and "c \<in> set (parameter_text p)"
  then consider "name_char c" | "c = CHR ''=''" | "encoded_char c"
    using percent_encode_chars [of "snd p"] by (auto simp: parameter_text_def list_all_iff)
  then show ?thesis
    by cases (use name_char_not [of c] encoded_char_not [of c] in auto)
qed

lemma query_text_chars:
  "\<forall>p\<in>set ps. list_all name_char (fst p) \<Longrightarrow> c \<in> set (query_text ps) \<Longrightarrow>
   c \<noteq> CHR ''?'' \<and> 33 \<le> (of_char c :: nat) \<and> (of_char c :: nat) \<le> 126"
  by (induction ps rule: query_text.induct) (auto dest: parameter_text_chars)

lemma query_text_snoc: "ps \<noteq> [] \<Longrightarrow> query_text (ps @ [p]) = query_text ps @ ''&'' @ parameter_text p"
  by (induction ps rule: query_text.induct) auto

lemma target_of_eq:
  assumes "CHR ''?'' \<notin> set base" and "\<forall>p\<in>set ps. list_all name_char (fst p)"
  shows "target_of base ps = base @ (if ps = [] then [] else ''?'' @ query_text ps)"
  using assms(2)
proof (induction ps rule: rev_induct)
  case (snoc p ps)
  then show ?case
    using assms(1) by (cases "ps = []"; cases p) (auto simp: target_of_def add_query_def parameter_text_def query_text_snoc)
qed (simp add: target_of_def)

lemma query_parts_one: "CHR ''&'' \<notin> set p \<Longrightarrow> query_parts p = [p]"
  by (induction p) auto

lemma query_parts_append: "CHR ''&'' \<notin> set p \<Longrightarrow> query_parts (p @ CHR ''&'' # s) = p # query_parts s"
  by (induction p) auto

lemma query_parts_text:
  "ps \<noteq> [] \<Longrightarrow> \<forall>p\<in>set ps. list_all name_char (fst p) \<Longrightarrow> query_parts (query_text ps) = map parameter_text ps"
proof (induction ps rule: query_text.induct)
  case (2 p)
  then show ?case
    using parameter_text_chars [of p] by (auto intro!: query_parts_one)
next
  case (3 p q ps)
  then have "CHR ''&'' \<notin> set (parameter_text p)"
    using parameter_text_chars [of p] by auto
  then show ?case
    using 3 query_parts_append [of "parameter_text p" "query_text (q # ps)"] by simp
qed simp

lemma read_parameter_text: "list_all name_char (fst p) \<Longrightarrow> read_parameter (parameter_text p) = Some p"
proof -
  assume "list_all name_char (fst p)"
  then have "\<forall>c\<in>set (fst p). c \<noteq> CHR ''=''"
    using name_char_not by (auto simp: list_all_iff)
  then show ?thesis
    by (simp add: read_parameter_def parameter_text_def takeWhile_append2 dropWhile_append2 percent_decode_encode)
qed

lemma read_target_of:
  assumes "CHR ''?'' \<notin> set base" and "\<forall>p\<in>set ps. list_all name_char (fst p)"
  shows "read_target (target_of base ps) = Some (base, ps)"
proof -
  have w: "\<forall>c\<in>set base. c \<noteq> CHR ''?''"
    using assms(1) by auto
  have "those (map read_parameter (map parameter_text ps)) = Some ps"
    using assms(2) by (induction ps) (auto simp: read_parameter_text)
  then show ?thesis
    using assms query_parts_text [of ps] w
    by (auto simp: target_of_eq [OF assms] read_target_def takeWhile_append2 dropWhile_append2)
qed

definition header_safe :: "string \<Rightarrow> bool" where
  "header_safe t \<longleftrightarrow> list_all (\<lambda>c. 33 \<le> (of_char c :: nat) \<and> (of_char c :: nat) \<le> 126) t"

lemma target_of_safe:
  assumes "CHR ''?'' \<notin> set base" and "header_safe base" and "\<forall>p\<in>set ps. list_all name_char (fst p)"
  shows "header_safe (target_of base ps)"
  using assms query_text_chars [OF assms(3)] by (auto simp: target_of_eq header_safe_def list_all_iff)

subsection \<open>The targets as paths with parameters\<close>

definition market_path :: "nat \<Rightarrow> string \<Rightarrow> string" where
  "market_path market suffix = ''/v1/markets/'' @ to_string market @ suffix"

definition search_parameters :: "search_query \<Rightarrow> (string \<times> string) list" where
  "search_parameters q =
     [(''query'', sq_query q)] @ given ''includeResolved'' (map_option bool_text (sq_include_resolved q)) @
     given ''limit'' (map_option to_string (sq_limit q))"

definition collection_parameters :: "collection_query \<Rightarrow> (string \<times> string) list" where
  "collection_parameters q =
     given ''first'' (map_option to_string (cq_first q)) @ given ''after'' (cq_after q) @
     given ''status'' (cq_status q) @ given ''marketVariant'' (cq_market_variant q)"

definition timeseries_parameters :: "timeseries_query \<Rightarrow> (string \<times> string) list" where
  "timeseries_parameters q =
     [(''metric'', tm_metric q)] @ given ''resolution'' (tm_resolution q) @
     given ''from'' (map_option int_to_string (tm_from q)) @ given ''to'' (map_option int_to_string (tm_to q)) @
     given ''limit'' (map_option to_string (tm_limit q)) @ given ''after'' (tm_after q)"

definition matches_parameters :: "matches_query \<Rightarrow> (string \<times> string) list" where
  "matches_parameters q =
     given ''first'' (map_option to_string (mq_first q)) @ given ''after'' (mq_after q) @
     given ''category'' (mq_category q) @ given ''marketId'' (map_option to_string (mq_market_id q)) @
     given ''minValueUsdtWei'' (map_option u256_text (mq_min_value_usdt_wei q)) @
     given ''signerAddress'' (map_option evm_to_string (mq_signer_address q)) @
     given ''isSignerMaker'' (map_option bool_text (mq_is_signer_maker q))"

definition position_parameters :: "positions_query \<Rightarrow> (string \<times> string) list" where
  "position_parameters q =
     given ''first'' (map_option to_string (pq_first q)) @ given ''after'' (pq_after q) @
     given ''marketId'' (map_option to_string (pq_market_id q)) @
     given ''isResolved'' (map_option bool_text (pq_is_resolved q)) @ given ''sort'' (pq_sort q)"

definition page_parameters :: "nat option \<Rightarrow> string option \<Rightarrow> (string \<times> string) list" where
  "page_parameters first after = given ''first'' (map_option to_string first) @ given ''after'' after"

lemmas parameters_def = search_parameters_def collection_parameters_def timeseries_parameters_def
  matches_parameters_def position_parameters_def page_parameters_def

lemma given_names: "p \<in> set (given n v) \<Longrightarrow> fst p = n"
  by (auto simp: given_def split: option.splits)

lemma literal_names:
  "list_all name_char ''query''" "list_all name_char ''includeResolved''" "list_all name_char ''limit''"
  "list_all name_char ''first''" "list_all name_char ''after''" "list_all name_char ''status''"
  "list_all name_char ''marketVariant''" "list_all name_char ''metric''" "list_all name_char ''resolution''"
  "list_all name_char ''from''" "list_all name_char ''to''" "list_all name_char ''category''"
  "list_all name_char ''marketId''" "list_all name_char ''minValueUsdtWei''" "list_all name_char ''signerAddress''"
  "list_all name_char ''isSignerMaker''" "list_all name_char ''isResolved''" "list_all name_char ''sort''"
  "list_all name_char ''eventTypes''"
  by code_simp+

lemma parameter_names:
  "\<forall>p\<in>set (search_parameters q1). list_all name_char (fst p)"
  "\<forall>p\<in>set (collection_parameters q2). list_all name_char (fst p)"
  "\<forall>p\<in>set (timeseries_parameters q3). list_all name_char (fst p)"
  "\<forall>p\<in>set (matches_parameters q4). list_all name_char (fst p)"
  "\<forall>p\<in>set (position_parameters q5). list_all name_char (fst p)"
  "\<forall>p\<in>set (page_parameters first after). list_all name_char (fst p)"
  "\<forall>p\<in>set (page_parameters first after @ given ''status'' status). list_all name_char (fst p)"
  "\<forall>p\<in>set (page_parameters first after @ map (Pair ''eventTypes'') events). list_all name_char (fst p)"
  by (auto simp only: parameters_def set_append Un_iff ball_Un list.set empty_iff insert_iff fst_conv literal_names
      set_map dest!: given_names)


lemma search_target_of: "search_target q = Inr t \<Longrightarrow> t = target_of ''/v1/search'' (search_parameters q)"
  by (simp add: search_target_def target_of_simps search_parameters_def del: append.simps split: if_splits)

lemma collection_target_of: "collection_target base q = Inr t \<Longrightarrow> t = target_of base (collection_parameters q)"
  by (simp add: collection_target_def target_of_simps collection_parameters_def split: if_splits)

lemma timeseries_target_of:
  "timeseries_target market q = Inr t \<Longrightarrow> t = target_of (market_path market ''/timeseries'') (timeseries_parameters q)"
  by (simp add: timeseries_target_def market_target_def market_path_def target_of_simps timeseries_parameters_def
      split: if_splits)

lemma matches_target_of: "matches_target q = Inr t \<Longrightarrow> t = target_of ''/v1/orders/matches'' (matches_parameters q)"
  by (simp add: matches_target_def target_of_simps matches_parameters_def split: if_splits)

lemma address_positions_target_of:
  "address_positions_target a q = Inr t \<Longrightarrow> t = target_of (''/v1/positions/'' @ evm_to_string a) (position_parameters q)"
  by (simp add: address_positions_target_def target_of_simps position_parameters_def split: if_splits)

lemma add_page_of: "add_page first after base = Inr t \<Longrightarrow> t = target_of base (page_parameters first after)"
  by (simp add: add_page_def target_of_simps page_parameters_def split: if_splits)

lemma orders_target_of:
  assumes "orders_target first after status = Inr t"
  shows "t = target_of ''/v1/orders'' (page_parameters first after @ given ''status'' status)"
  using assms add_page_of [of first after "''/v1/orders''"]
  by (cases "add_page first after ''/v1/orders''") (simp_all add: orders_target_def target_of_simps split: if_splits)

lemma add_events_of: "add_events events t = Inr u \<Longrightarrow> u = target_of t (map (Pair ''eventTypes'') events)"
  by (induction events arbitrary: t) (simp_all add: target_of_def split: if_splits)

lemma activity_target_of:
  assumes "activity_target first after events = Inr t"
  shows "t = target_of ''/v1/account/activity'' (page_parameters first after @ map (Pair ''eventTypes'') events)"
  using assms add_page_of [of first after "''/v1/account/activity''"] add_events_of [of events]
  by (cases "add_page first after ''/v1/account/activity''") (fastforce simp: activity_target_def target_of_simps)+

lemma positions_target_of:
  assumes "positions_target q = Inr t"
  shows "t = target_of ''/v1/positions'' (position_parameters q)"
  using assms add_page_of [of "pq_first q" "pq_after q" "''/v1/positions''"]
  by (cases "add_page (pq_first q) (pq_after q) ''/v1/positions''")
    (simp_all add: positions_target_def Let_def target_of_simps position_parameters_def page_parameters_def split: if_splits)

lemmas targets_of = search_target_of collection_target_of timeseries_target_of matches_target_of
  address_positions_target_of orders_target_of activity_target_of positions_target_of

subsection \<open>Paths\<close>

definition path_char :: "char \<Rightarrow> bool" where
  "path_char c \<longleftrightarrow> c \<noteq> CHR ''?'' \<and> 33 \<le> (of_char c :: nat) \<and> (of_char c :: nat) \<le> 126"

lemma path_chars: "list_all path_char s \<Longrightarrow> CHR ''?'' \<notin> set s \<and> header_safe s"
  by (auto simp: path_char_def header_safe_def list_all_iff)

lemma digit_path_char: "is_digit c \<Longrightarrow> path_char c"
  by (auto simp: is_digit_def path_char_def)

lemma xdigit_path_char: "is_xdigit c \<Longrightarrow> path_char c"
  by (auto simp: is_xdigit_def is_digit_def path_char_def Let_def)

lemma path_char_to_string: "list_all path_char (to_string n)"
  using list_all_to_string [of n] digit_path_char by (auto simp: list_all_iff)

lemma path_char_evm: "list_all path_char (evm_to_string a)"
  unfolding evm_to_string_def list_all_append
proof
  show "list_all path_char ''0x''"
    by code_simp
  show "list_all path_char (hex_text (evm_bytes a))"
    using list_all_hex_text [of "evm_bytes a"] xdigit_path_char by (auto simp: list_all_iff)
qed

lemma path_char_literals:
  "list_all path_char ''/v1/search''" "list_all path_char ''/v1/markets''" "list_all path_char ''/v1/categories''"
  "list_all path_char ''/v1/orders/matches''" "list_all path_char ''/v1/positions''" "list_all path_char ''/v1/positions/''"
  "list_all path_char ''/v1/orders''" "list_all path_char ''/v1/account/activity''" "list_all path_char ''/v1/markets/''"
  "list_all path_char ''/timeseries''"
  by code_simp+

lemma path_char_paths:
  "list_all path_char (market_path market ''/timeseries'')" "list_all path_char (''/v1/positions/'' @ evm_to_string a)"
  unfolding market_path_def list_all_append
  by (simp_all only: path_char_to_string path_char_evm path_char_literals)

lemma read_back:
  assumes "list_all path_char base" and "\<forall>p\<in>set ps. list_all name_char (fst p)"
  shows "read_target (target_of base ps) = Some (base, ps) \<and> header_safe (target_of base ps)"
  using read_target_of target_of_safe path_chars [OF assms(1)] assms(2) by blast

section \<open>Targets of the clients\<close>

text \<open>
  C23. A target that a query function returns reads back, by the reference reader that splits at the first
  question mark, at the ampersands and the equals signs and undoes percent encoding, as the path of the
  endpoint and exactly the given parameters in the order of the code, whatever bytes the caller's cursors
  and search texts hold; all its characters are visible ASCII, so no value can end the request line.
\<close>

theorem rest_targets_round_trip:
  "(search_target sq = Inr t \<longrightarrow>
      read_target t = Some (''/v1/search'', search_parameters sq) \<and> header_safe t) \<and>
   (markets_target cq = Inr t \<longrightarrow>
      read_target t = Some (''/v1/markets'', collection_parameters cq) \<and> header_safe t) \<and>
   (categories_target cq = Inr t \<longrightarrow>
      read_target t = Some (''/v1/categories'', collection_parameters cq) \<and> header_safe t) \<and>
   (timeseries_target market tq = Inr t \<longrightarrow>
      read_target t = Some (''/v1/markets/'' @ to_string market @ ''/timeseries'', timeseries_parameters tq) \<and> header_safe t) \<and>
   (matches_target mq = Inr t \<longrightarrow>
      read_target t = Some (''/v1/orders/matches'', matches_parameters mq) \<and> header_safe t) \<and>
   (address_positions_target a pq = Inr t \<longrightarrow>
      read_target t = Some (''/v1/positions/'' @ evm_to_string a, position_parameters pq) \<and> header_safe t) \<and>
   (positions_target pq = Inr t \<longrightarrow>
      read_target t = Some (''/v1/positions'', position_parameters pq) \<and> header_safe t) \<and>
   (orders_target first after status = Inr t \<longrightarrow>
      read_target t = Some (''/v1/orders'', page_parameters first after @ given ''status'' status) \<and> header_safe t) \<and>
   (activity_target first after events = Inr t \<longrightarrow>
      read_target t = Some (''/v1/account/activity'', page_parameters first after @ map (Pair ''eventTypes'') events) \<and>
      header_safe t)"
  unfolding markets_target_def categories_target_def market_path_def [symmetric]
  by (intro conjI impI; drule targets_of; elim ssubst;
      intro read_back [THEN conjunct1] read_back [THEN conjunct2];
      rule path_char_literals path_char_paths parameter_names)

theorem rest_targets_round_trip_witness:
  "search_target \<lparr>sq_query = ''a&b=c?'', sq_include_resolved = Some True, sq_limit = Some 5\<rparr> =
     Inr ''/v1/search?query=a%26b%3Dc%3F&includeResolved=true&limit=5'' \<and>
   read_target ''/v1/search?query=a%26b%3Dc%3F&includeResolved=true&limit=5'' =
     Some (''/v1/search'', [(''query'', ''a&b=c?''), (''includeResolved'', ''true''), (''limit'', ''5'')]) \<and>
   header_safe ''/v1/search?query=a%26b%3Dc%3F&includeResolved=true&limit=5''"
proof -
  let ?q = "\<lparr>sq_query = ''a&b=c?'', sq_include_resolved = Some True, sq_limit = Some 5\<rparr> :: search_query"
  let ?t = "''/v1/search?query=a%26b%3Dc%3F&includeResolved=true&limit=5''"
  have t: "search_target ?q = Inr ?t"
    by code_simp
  have p: "search_parameters ?q = [(''query'', ''a&b=c?''), (''includeResolved'', ''true''), (''limit'', ''5'')]"
    by code_simp
  show ?thesis
    using t rest_targets_round_trip [THEN conjunct1, THEN mp, OF t] unfolding p by (intro conjI) (erule conjE, assumption)+
qed

end
