(* ===== verification/Machine.thy ===== *)
theory Machine
  imports Main
begin

text \<open>
  What the asynchronous objects of the library have in common. Each is a step relation on its state, one step per
  callback; a run is a sequence of steps in whatever order the callbacks come. A machine keeps an invariant and leaves a
  part of its state, its frame, unchanged; a bounded machine also has a rank that every step lowers, so that it cannot run
  for ever. The laws are proved once here and every object provides the three facts about a single step.
\<close>

locale machine =
  fixes step :: "'s \<Rightarrow> 's \<Rightarrow> bool" and inv :: "'s \<Rightarrow> bool" and frame :: "'s \<Rightarrow> 'f"
  assumes step_inv: "step s t \<Longrightarrow> inv s \<Longrightarrow> inv t"
    and step_frame: "step s t \<Longrightarrow> frame t = frame s"
begin

lemma run_inv: "step\<^sup>*\<^sup>* s t \<Longrightarrow> inv s \<Longrightarrow> inv t"
  by (induction rule: rtranclp_induct) (auto dest: step_inv)

lemma run_frame: "step\<^sup>*\<^sup>* s t \<Longrightarrow> frame t = frame s"
  by (induction rule: rtranclp_induct) (simp_all add: step_frame)

end

locale bounded_machine = machine step inv frame
  for step :: "'s \<Rightarrow> 's \<Rightarrow> bool" and inv :: "'s \<Rightarrow> bool" and frame :: "'s \<Rightarrow> 'f" +
  fixes rank :: "'s \<Rightarrow> nat"
  assumes step_rank: "step s t \<Longrightarrow> rank t < rank s"
begin

lemma steps_bounded: "(step ^^ n) s t \<Longrightarrow> n + rank t \<le> rank s"
proof (induction n arbitrary: t)
  case (Suc n)
  then obtain u where "(step ^^ n) s u" "step u t"
    by auto
  then show ?case
    using Suc.IH [of u] step_rank [of u t] by linarith
qed simp

lemma steps_kept: "(step ^^ n) s t \<Longrightarrow> inv s \<Longrightarrow> inv t \<and> frame t = frame s"
  using run_inv run_frame by (blast dest: relpowp_imp_rtranclp)

lemma ends: "inv s \<Longrightarrow> \<exists>t. step\<^sup>*\<^sup>* s t \<and> inv t \<and> (\<forall>u. \<not> step t u)"
proof (induction s rule: measure_induct_rule [of rank])
  case (less s)
  show ?case
  proof (cases "\<exists>u. step s u")
    case True
    then obtain u where u: "step s u" ..
    then obtain t where "step\<^sup>*\<^sup>* u t" "inv t" "\<forall>v. \<not> step t v"
      using less.IH [OF step_rank [OF u]] step_inv [OF u less.prems] by blast
    then show ?thesis
      using u by (blast intro: converse_rtranclp_into_rtranclp)
  qed (use less.prems in blast)
qed

end

end
