(* ===== verification/Rest_Operation.thy ===== *)
theory Rest_Operation
  imports Trading Rest_Query Machine
begin

text \<open>
  The asynchronous operations of the REST clients: the retried GET of \<^verbatim>\<open>src/public_rest.cpp\<close> and of
  \<^verbatim>\<open>src/private_rest.cpp\<close>, and the referral mutation of the latter. An operation is a state machine as in
  \<^verbatim>\<open>Trading.thy\<close>: the member functions are functions on its state, and \<open>get_step\<close> lets the callbacks the
  runtime owes fire in any order, with a stop request at any moment. The rate limiter's answers, the clocks
  and what the credential providers return are inputs of the steps. The locale \<open>get_client\<close> states what the
  two GET operations share; both interpret it.
\<close>

section \<open>The GET operation\<close>

record get_operation =
  gq_environment :: environment
  gq_max_get_retries :: nat
  gq_endpoint :: string
  gq_target :: string
  gq_deadline :: "int option"
  gq_stop_requested :: bool
  gq_handler :: bool
  gq_attempt :: nat
  gq_start_pending :: bool
  gq_timer_pending :: "bool option"
  gq_response_pending :: bool
  gq_cancel_pending :: bool
  gq_delivered :: "http_response result list"
  gq_gets :: "http_request list"
  gq_penalties :: "int list"

definition get_finish :: "http_response result \<Rightarrow> get_operation \<Rightarrow> get_operation" where
  "get_finish r q = (if \<not> gq_handler q then q
     else q\<lparr>gq_handler := False, gq_delivered := gq_delivered q @ [r]\<rparr>)"

text \<open>The timer's callback carries \<open>reserve_budget\<close>; a new timer replaces the old one.\<close>

definition get_schedule :: "int \<Rightarrow> int \<Rightarrow> bool \<Rightarrow> get_operation \<Rightarrow> get_operation" where
  "get_schedule now delay reserve_budget q =
     (if (case gq_deadline q of Some d \<Rightarrow> now + delay \<ge> d | None \<Rightarrow> False)
      then get_finish (Inl (mk_error deadline_exceeded ''retry would exceed request deadline'' '''')) q
      else q\<lparr>gq_timer_pending := Some reserve_budget\<rparr>)"

definition api_host :: "environment \<Rightarrow> string" where
  "api_host env = (if env = env_mainnet then ''api.predict.fun'' else ''api-testnet.predict.fun'')"

definition get_request :: "get_operation \<Rightarrow> header list \<Rightarrow> http_request" where
  "get_request q hs = default_request\<lparr>rq_host := api_host (gq_environment q), rq_target := gq_target q,
     rq_use_tls := True, rq_headers := hs\<rparr>"

definition get_dispatch :: "header list \<Rightarrow> get_operation \<Rightarrow> get_operation" where
  "get_dispatch hs q = q\<lparr>gq_gets := gq_gets q @ [get_request q hs], gq_response_pending := True\<rparr>"

text \<open>The public client: \<open>key\<close> is \<open>None\<close> when the provider throws, empty when there is no provider.\<close>

definition public_send :: "string option \<Rightarrow> get_operation \<Rightarrow> get_operation" where
  "public_send provided q =
     (case provided of
        None \<Rightarrow> get_finish (Inl (mk_error authentication_required ''API key provider failed'' '''')) q
      | Some key \<Rightarrow>
          if gq_environment q = env_mainnet \<and> key = []
          then get_finish (Inl (mk_error authentication_required ''Predict.fun mainnet requires an API key'' '''')) q
          else get_dispatch (if key \<noteq> [] then [\<lparr>hd_name = ''x-api-key'', hd_value = key\<rparr>] else []) q)"

definition public_start :: "int \<Rightarrow> int \<Rightarrow> string option \<Rightarrow> bool \<Rightarrow> get_operation \<Rightarrow> get_operation" where
  "public_start now reserved provided reserve_budget q =
     (if gq_stop_requested q then get_finish (Inl (mk_error cancelled ''request cancelled'' '''')) q
      else if (case gq_deadline q of Some d \<Rightarrow> d \<le> now | None \<Rightarrow> False)
      then get_finish (Inl (mk_error deadline_exceeded ''request deadline exceeded'' '''')) q
      else
        let wait = (if reserve_budget then reserved else 0) in
        if wait > 0 then get_schedule now wait False q
        else public_send provided q)"

text \<open>\<open>retry_after\<close>: the fallback doubles with every attempt, up to 6.4 seconds; the maximum is the default minute.\<close>

definition retry_after :: "(string \<Rightarrow> int option) \<Rightarrow> int \<Rightarrow> http_response \<Rightarrow> nat \<Rightarrow> int" where
  "retry_after get_time clock response attempt =
     (case parse_retry_after get_time (response_header response ''Retry-After'') clock (100 * 2 ^ min attempt 6) 60000 of
        Inr d \<Rightarrow> d | Inl _ \<Rightarrow> 0)"

definition public_handle ::
    "(string \<Rightarrow> int option) \<Rightarrow> int \<Rightarrow> int \<Rightarrow> http_response result \<Rightarrow> get_operation \<Rightarrow> get_operation" where
  "public_handle get_time clock now result q =
     (case result of
        Inl e \<Rightarrow> get_finish (Inl e) q
      | Inr response \<Rightarrow>
          let status = rs_status response in
          if 200 \<le> status \<and> status < 300 then get_finish result q
          else if 300 \<le> status \<and> status < 400
          then get_finish (Inl (http_error http_redirect status ''HTTP redirect rejected'' 0)) q
          else if status = 401 \<or> status = 403
          then get_finish (Inl (http_error authentication_required status ''Predict.fun authentication rejected'' 0)) q
          else if status = 429 then
            (let delay = retry_after get_time clock response (gq_attempt q);
                 q1 = q\<lparr>gq_penalties := gq_penalties q @ [delay], gq_attempt := gq_attempt q + 1\<rparr>
             in if gq_attempt q < gq_max_get_retries q then get_schedule now delay False q1
                else get_finish (Inl (http_error rate_limited status ''Predict.fun rate limit exceeded'' delay)) q1)
          else if status \<ge> 500 then
            (let delay = retry_after get_time clock response (gq_attempt q);
                 q1 = q\<lparr>gq_attempt := gq_attempt q + 1\<rparr>
             in if gq_attempt q < gq_max_get_retries q then get_schedule now delay True q1
                else get_finish (Inl (http_error http_server_error status ''Predict.fun server error'' delay)) q1)
          else get_finish (Inl (http_error http_client_error status ''Predict.fun request rejected'' 0)) q)"

text \<open>The private client: two credentials, and a start that does nothing once the handler is gone.\<close>

definition private_send :: "credentials \<Rightarrow> get_operation \<Rightarrow> get_operation" where
  "private_send creds q =
     (case creds of
        credentials_failed \<Rightarrow>
          get_finish (Inl (mk_error authentication_required ''credential provider failed'' '''')) q
      | credentials key jwt \<Rightarrow>
          if gq_environment q = env_mainnet \<and> key = []
          then get_finish (Inl (mk_error authentication_required ''Predict.fun mainnet requires an API key'' '''')) q
          else if jwt = []
          then get_finish (Inl (mk_error authentication_required ''Predict.fun private endpoint requires a JWT'' '''')) q
          else get_dispatch ((if key \<noteq> [] then [\<lparr>hd_name = ''x-api-key'', hd_value = key\<rparr>] else [])
                 @ [\<lparr>hd_name = ''Authorization'', hd_value = ''Bearer '' @ jwt\<rparr>]) q)"

definition private_start :: "int \<Rightarrow> int \<Rightarrow> credentials \<Rightarrow> bool \<Rightarrow> get_operation \<Rightarrow> get_operation" where
  "private_start now reserved creds reserve_budget q =
     (if \<not> gq_handler q then q
      else if gq_stop_requested q then get_finish (Inl (mk_error cancelled ''request cancelled'' '''')) q
      else if (case gq_deadline q of Some d \<Rightarrow> d \<le> now | None \<Rightarrow> False)
      then get_finish (Inl (mk_error deadline_exceeded ''request deadline exceeded'' '''')) q
      else
        let wait = (if reserve_budget then reserved else 0) in
        if wait > 0 then get_schedule now wait False q
        else private_send creds q)"

definition private_handle ::
    "(string \<Rightarrow> int option) \<Rightarrow> int \<Rightarrow> int \<Rightarrow> http_response result \<Rightarrow> get_operation \<Rightarrow> get_operation" where
  "private_handle get_time clock now result q =
     (case result of
        Inl e \<Rightarrow> get_finish (Inl e) q
      | Inr response \<Rightarrow>
          let status = rs_status response in
          if 200 \<le> status \<and> status < 300 then get_finish result q
          else if 300 \<le> status \<and> status < 400
          then get_finish (Inl (http_error http_redirect status ''HTTP redirect rejected'' 0)) q
          else if status = 401 \<or> status = 403
          then get_finish (Inl (http_error authentication_required status ''Predict.fun authentication rejected'' 0)) q
          else if status = 429 \<or> status \<ge> 500 then
            (let delay = retry_after get_time clock response (gq_attempt q);
                 q0 = (if status = 429 then q\<lparr>gq_penalties := gq_penalties q @ [delay]\<rparr> else q);
                 q1 = q0\<lparr>gq_attempt := gq_attempt q + 1\<rparr>
             in if gq_attempt q < gq_max_get_retries q then get_schedule now delay (status \<ge> 500) q1
                else get_finish (Inl (http_error (if status = 429 then rate_limited else http_server_error) status
                       (if status = 429 then ''Predict.fun rate limit exceeded'' else ''Predict.fun server error'')
                       delay)) q1)
          else get_finish (Inl (http_error http_client_error status ''Predict.fun request rejected'' 0)) q)"

text \<open>The two response handlers are written differently and do the same.\<close>

lemma private_handle_public: "private_handle = public_handle"
  by (auto simp: private_handle_def public_handle_def Let_def fun_eq_iff split: sum.split)

text \<open>The timer's callback, for the \<open>start\<close> of either client.\<close>

definition get_timer ::
    "(int \<Rightarrow> int \<Rightarrow> 'c \<Rightarrow> bool \<Rightarrow> get_operation \<Rightarrow> get_operation) \<Rightarrow> bool \<Rightarrow> int \<Rightarrow> int \<Rightarrow> 'c \<Rightarrow> bool
       \<Rightarrow> get_operation \<Rightarrow> get_operation" where
  "get_timer start failed now reserved creds reserve_budget q =
     (if failed then get_finish (Inl (mk_error cancelled ''request wait cancelled'' '''')) q
      else start now reserved creds reserve_budget q)"

text \<open>The stop callback cancels the timer, whose callback then reports the failure, and finishes.\<close>

definition get_cancel :: "get_operation \<Rightarrow> get_operation" where
  "get_cancel q = get_finish (Inl (mk_error cancelled ''request cancelled'' '''')) q"

definition new_get :: "environment \<Rightarrow> nat \<Rightarrow> string \<Rightarrow> string \<Rightarrow> int option \<Rightarrow> get_operation" where
  "new_get env retries endpoint target deadline =
     \<lparr>gq_environment = env, gq_max_get_retries = retries, gq_endpoint = endpoint, gq_target = target,
      gq_deadline = deadline, gq_stop_requested = False, gq_handler = True, gq_attempt = 0,
      gq_start_pending = True, gq_timer_pending = None, gq_response_pending = False, gq_cancel_pending = False,
      gq_delivered = [], gq_gets = [], gq_penalties = []\<rparr>"

text \<open>\<open>get\<close>: a target that failed validation is delivered as its error, and nothing is created.\<close>

definition get_operation_for ::
    "environment \<Rightarrow> nat \<Rightarrow> string \<Rightarrow> string result \<Rightarrow> int option \<Rightarrow> error + get_operation" where
  "get_operation_for env retries endpoint target deadline =
     bind_res target (\<lambda>t. Inr (new_get env retries endpoint t deadline))"

text \<open>What the public functions pass to their handler: the error, or the decoded body.\<close>

definition decode_raw :: "(string \<Rightarrow> 'a result) \<Rightarrow> http_response result \<Rightarrow> 'a result" where
  "decode_raw decode raw = bind_res raw (\<lambda>response. decode (rs_body response))"

text \<open>
  The functions of the two clients: the operation they create, or the error they dispatch, and what they
  pass to the caller's handler. \<open>decode\<close> is the decoder of the response body with its limits.
\<close>

type_synonym 'a rest_call = "(error + get_operation) \<times> (http_response result \<Rightarrow> 'a result)"

record get_options =
  go_environment :: environment
  go_max_get_retries :: nat

definition rest_get ::
    "(string \<Rightarrow> 'a result) \<Rightarrow> get_options \<Rightarrow> int option \<Rightarrow> string \<Rightarrow> string result \<Rightarrow> 'a rest_call" where
  "rest_get decode options deadline endpoint target =
     (get_operation_for (go_environment options) (go_max_get_retries options) endpoint target deadline, decode_raw decode)"

definition async_get_markets :: "(string \<Rightarrow> 'a result) \<Rightarrow> get_options \<Rightarrow> int option \<Rightarrow> collection_query \<Rightarrow> 'a rest_call" where
  "async_get_markets decode options deadline q =
     rest_get decode options deadline ''markets'' (markets_target q)"

definition async_get_market :: "(string \<Rightarrow> 'a result) \<Rightarrow> get_options \<Rightarrow> int option \<Rightarrow> nat \<Rightarrow> 'a rest_call" where
  "async_get_market decode options deadline market =
     rest_get decode options deadline ''market'' (market_target market)"

definition async_get_categories :: "(string \<Rightarrow> 'a result) \<Rightarrow> get_options \<Rightarrow> int option \<Rightarrow> collection_query \<Rightarrow> 'a rest_call" where
  "async_get_categories decode options deadline q =
     rest_get decode options deadline ''categories'' (categories_target q)"

definition async_get_category :: "(string \<Rightarrow> 'a result) \<Rightarrow> get_options \<Rightarrow> int option \<Rightarrow> string \<Rightarrow> 'a rest_call" where
  "async_get_category decode options deadline slug =
     rest_get decode options deadline ''category'' (category_target slug)"

definition async_get_orderbook :: "(string \<Rightarrow> 'a result) \<Rightarrow> get_options \<Rightarrow> int option \<Rightarrow> nat \<Rightarrow> 'a rest_call" where
  "async_get_orderbook decode options deadline market =
     rest_get decode options deadline ''orderbook'' (orderbook_target market)"

definition async_get_timeseries :: "(string \<Rightarrow> 'a result) \<Rightarrow> get_options \<Rightarrow> int option \<Rightarrow> nat \<Rightarrow> timeseries_query \<Rightarrow> 'a rest_call" where
  "async_get_timeseries decode options deadline market q =
     rest_get decode options deadline ''timeseries'' (timeseries_target market q)"

definition async_get_latest_timeseries :: "(string \<Rightarrow> 'a result) \<Rightarrow> get_options \<Rightarrow> int option \<Rightarrow> nat \<Rightarrow> string \<Rightarrow> 'a rest_call" where
  "async_get_latest_timeseries decode options deadline market metric =
     rest_get decode options deadline ''timeseries_latest'' (latest_timeseries_target market metric)"

definition async_get_matches :: "(string \<Rightarrow> 'a result) \<Rightarrow> get_options \<Rightarrow> int option \<Rightarrow> matches_query \<Rightarrow> 'a rest_call" where
  "async_get_matches decode options deadline q =
     rest_get decode options deadline ''matches'' (matches_target q)"

definition async_get_tags :: "(string \<Rightarrow> 'a result) \<Rightarrow> get_options \<Rightarrow> int option \<Rightarrow> 'a rest_call" where
  "async_get_tags decode options deadline =
     rest_get decode options deadline ''tags'' tags_target"

definition async_get_market_statistics :: "(string \<Rightarrow> 'a result) \<Rightarrow> get_options \<Rightarrow> int option \<Rightarrow> nat \<Rightarrow> 'a rest_call" where
  "async_get_market_statistics decode options deadline market =
     rest_get decode options deadline ''market_stats'' (market_statistics_target market)"

definition async_get_market_last_sale :: "(string \<Rightarrow> 'a result) \<Rightarrow> get_options \<Rightarrow> int option \<Rightarrow> nat \<Rightarrow> 'a rest_call" where
  "async_get_market_last_sale decode options deadline market =
     rest_get decode options deadline ''market_last_sale'' (market_last_sale_target market)"

definition async_search :: "(string \<Rightarrow> 'a result) \<Rightarrow> get_options \<Rightarrow> int option \<Rightarrow> search_query \<Rightarrow> 'a rest_call" where
  "async_search decode options deadline q =
     rest_get decode options deadline ''search'' (search_target q)"

definition async_get_positions_by_address :: "(string \<Rightarrow> 'a result) \<Rightarrow> get_options \<Rightarrow> int option \<Rightarrow> evm_address \<Rightarrow> positions_query \<Rightarrow> 'a rest_call" where
  "async_get_positions_by_address decode options deadline a q =
     rest_get decode options deadline ''address_positions'' (address_positions_target a q)"

definition async_get_account :: "(string \<Rightarrow> 'a result) \<Rightarrow> get_options \<Rightarrow> int option \<Rightarrow> 'a rest_call" where
  "async_get_account decode options deadline =
     rest_get decode options deadline ''account'' (Inr ''/v1/account'')"

definition async_get_positions :: "(string \<Rightarrow> 'a result) \<Rightarrow> get_options \<Rightarrow> int option \<Rightarrow> positions_query \<Rightarrow> 'a rest_call" where
  "async_get_positions decode options deadline q =
     rest_get decode options deadline ''positions'' (positions_target q)"

definition async_get_orders :: "(string \<Rightarrow> 'a result) \<Rightarrow> get_options \<Rightarrow> int option \<Rightarrow> nat option \<Rightarrow> string option \<Rightarrow> string option \<Rightarrow> 'a rest_call" where
  "async_get_orders decode options deadline first after status =
     rest_get decode options deadline ''orders'' (orders_target first after status)"

definition async_get_order :: "(string \<Rightarrow> 'a result) \<Rightarrow> get_options \<Rightarrow> int option \<Rightarrow> string \<Rightarrow> 'a rest_call" where
  "async_get_order decode options deadline hash =
     rest_get decode options deadline ''order'' (order_target hash)"

definition async_get_activity :: "(string \<Rightarrow> 'a result) \<Rightarrow> get_options \<Rightarrow> int option \<Rightarrow> nat option \<Rightarrow> string option \<Rightarrow> string list \<Rightarrow> 'a rest_call" where
  "async_get_activity decode options deadline first after events =
     rest_get decode options deadline ''account_activity'' (activity_target first after events)"

section \<open>Steps\<close>

text \<open>A stop source can be stopped once, so its callback runs once.\<close>

inductive get_step ::
    "(int \<Rightarrow> int \<Rightarrow> 'c \<Rightarrow> bool \<Rightarrow> get_operation \<Rightarrow> get_operation)
       \<Rightarrow> ((string \<Rightarrow> int option) \<Rightarrow> int \<Rightarrow> int \<Rightarrow> http_response result \<Rightarrow> get_operation \<Rightarrow> get_operation)
       \<Rightarrow> (string \<Rightarrow> int option) \<Rightarrow> get_operation \<Rightarrow> get_operation \<Rightarrow> bool"
  for start handle get_time where
  starts: "gq_start_pending q \<Longrightarrow>
    get_step start handle get_time q (start now reserved creds True (q\<lparr>gq_start_pending := False\<rparr>))"
| fires: "gq_timer_pending q = Some reserve_budget \<Longrightarrow>
    get_step start handle get_time q (get_timer start failed now reserved creds reserve_budget (q\<lparr>gq_timer_pending := None\<rparr>))"
| answers: "gq_response_pending q \<Longrightarrow>
    get_step start handle get_time q (handle get_time clock now result (q\<lparr>gq_response_pending := False\<rparr>))"
| stops: "\<not> gq_stop_requested q \<Longrightarrow>
    get_step start handle get_time q (q\<lparr>gq_stop_requested := True, gq_cancel_pending := True\<rparr>)"
| cancels: "gq_cancel_pending q \<Longrightarrow>
    get_step start handle get_time q (get_cancel (q\<lparr>gq_cancel_pending := False\<rparr>))"

inductive_cases get_stepE: "get_step start handle get_time q q'"

section \<open>Invariant and rank\<close>

text \<open>The callbacks of the operation itself that are still to come.\<close>

definition get_owed :: "get_operation \<Rightarrow> nat" where
  "get_owed q = of_bool (gq_start_pending q) + of_bool (gq_timer_pending q \<noteq> None) + of_bool (gq_response_pending q)"

definition success_or_error :: "http_response result \<Rightarrow> bool" where
  "success_or_error r = (case r of Inl _ \<Rightarrow> True | Inr response \<Rightarrow> 200 \<le> rs_status response \<and> rs_status response < 300)"

lemma success_or_error_simps [simp]:
  "success_or_error (Inl e)"
  "success_or_error (Inr response) \<longleftrightarrow> 200 \<le> rs_status response \<and> rs_status response < 300"
  by (simp_all add: success_or_error_def)

definition get_request_ok :: "get_operation \<Rightarrow> http_request \<Rightarrow> bool" where
  "get_request_ok q r \<longleftrightarrow> rq_method r = http_get \<and> rq_target r = gq_target q \<and> rq_host r = api_host (gq_environment q) \<and>
     rq_use_tls r \<and> rq_body r = []"

text \<open>Between callbacks, and inside the body of a callback once its own flag is cleared.\<close>

definition get_inv :: "get_operation \<Rightarrow> bool" where
  "get_inv q \<longleftrightarrow> list_all (get_request_ok q) (gq_gets q) \<and> (gq_cancel_pending q \<longrightarrow> gq_stop_requested q) \<and>
     (if gq_handler q
      then gq_delivered q = [] \<and> get_owed q = 1 \<and> gq_attempt q \<le> gq_max_get_retries q \<and>
           length (gq_gets q) = gq_attempt q + of_bool (gq_response_pending q)
      else length (gq_delivered q) = 1 \<and> list_all success_or_error (gq_delivered q) \<and>
           length (gq_gets q) \<le> gq_max_get_retries q + 1 \<and> get_owed q \<le> 1 \<and>
           (get_owed q = 1 \<longrightarrow> gq_stop_requested q))"

definition get_body :: "bool \<Rightarrow> get_operation \<Rightarrow> bool" where
  "get_body answered q \<longleftrightarrow> list_all (get_request_ok q) (gq_gets q) \<and> (gq_cancel_pending q \<longrightarrow> gq_stop_requested q) \<and>
     get_owed q = 0 \<and>
     (if gq_handler q
      then gq_delivered q = [] \<and> gq_attempt q \<le> gq_max_get_retries q \<and>
           length (gq_gets q) = gq_attempt q + of_bool answered
      else length (gq_delivered q) = 1 \<and> list_all success_or_error (gq_delivered q) \<and>
           length (gq_gets q) \<le> gq_max_get_retries q + 1 \<and> gq_stop_requested q)"

definition get_rank :: "get_operation \<Rightarrow> nat" where
  "get_rank q = 3 * (gq_max_get_retries q - gq_attempt q) + (if gq_start_pending q then 3 else 0) +
     (case gq_timer_pending q of None \<Rightarrow> 0 | Some reserve_budget \<Rightarrow> if reserve_budget then 3 else 2) +
     of_bool (gq_response_pending q) + of_bool (gq_cancel_pending q) + (if gq_stop_requested q then 0 else 2)"

lemma get_inv_new: "get_inv (new_get env n ep t d)"
  by (simp add: get_inv_def new_get_def get_owed_def)

lemma get_rank_new: "get_rank (new_get env n ep t d) = 3 * n + 5"
  by (simp add: get_rank_def new_get_def)

lemma request_ok_update [simp]:
  "get_request_ok (q\<lparr>gq_start_pending := b\<rparr>) = get_request_ok q"
  "get_request_ok (q\<lparr>gq_timer_pending := o'\<rparr>) = get_request_ok q"
  "get_request_ok (q\<lparr>gq_response_pending := b\<rparr>) = get_request_ok q"
  "get_request_ok (q\<lparr>gq_cancel_pending := b\<rparr>) = get_request_ok q"
  "get_request_ok (q\<lparr>gq_stop_requested := b\<rparr>) = get_request_ok q"
  "get_request_ok (q\<lparr>gq_handler := b\<rparr>) = get_request_ok q"
  "get_request_ok (q\<lparr>gq_delivered := rs\<rparr>) = get_request_ok q"
  "get_request_ok (q\<lparr>gq_gets := gs\<rparr>) = get_request_ok q"
  "get_request_ok (q\<lparr>gq_attempt := k\<rparr>) = get_request_ok q"
  "get_request_ok (q\<lparr>gq_penalties := ps\<rparr>) = get_request_ok q"
  by (auto simp: get_request_ok_def fun_eq_iff)

lemma get_body_of_inv:
  assumes "get_inv q"
  shows "gq_start_pending q \<Longrightarrow> get_body False (q\<lparr>gq_start_pending := False\<rparr>)"
    and "gq_timer_pending q = Some b \<Longrightarrow> get_body False (q\<lparr>gq_timer_pending := None\<rparr>)"
    and "gq_response_pending q \<Longrightarrow> get_body True (q\<lparr>gq_response_pending := False\<rparr>)"
  using assms by (auto simp: get_inv_def get_body_def get_owed_def split: if_splits)

text \<open>After a failed attempt the next one is due: the penalty does not matter.\<close>

lemma get_body_retry:
  assumes "get_body True q" and "gq_attempt q < gq_max_get_retries q"
  shows "get_body False (q\<lparr>gq_penalties := ps, gq_attempt := Suc (gq_attempt q)\<rparr>)"
  using assms by (auto simp: get_body_def get_owed_def)

lemma get_inv_finish:
  assumes "get_body answered q" and "success_or_error r"
  shows "get_inv (get_finish r q)" and "get_inv (get_finish r (q\<lparr>gq_penalties := ps, gq_attempt := k\<rparr>))"
  using assms by (auto simp: get_body_def get_inv_def get_finish_def get_owed_def split: if_splits)

lemma get_inv_schedule: "get_body False q \<Longrightarrow> get_inv (get_schedule now delay b q)"
proof -
  assume body: "get_body False q"
  then have "get_inv (q\<lparr>gq_timer_pending := Some b\<rparr>)"
    by (cases "gq_handler q") (simp_all add: get_body_def get_inv_def get_owed_def)
  moreover have "get_inv (get_finish (Inl e) q)" for e
    using get_inv_finish(1) [OF body] by (simp add: success_or_error_def)
  ultimately show ?thesis
    by (simp add: get_schedule_def)
qed

lemma get_inv_dispatch: "get_body False q \<Longrightarrow> \<not> gq_stop_requested q \<Longrightarrow> get_inv (get_dispatch hs q)"
  by (auto simp: get_dispatch_def get_body_def get_inv_def get_owed_def get_request_ok_def get_request_def
      default_request_def split: if_splits)

lemma get_inv_cancel: "get_inv q \<Longrightarrow> gq_cancel_pending q \<Longrightarrow> get_inv (get_cancel (q\<lparr>gq_cancel_pending := False\<rparr>))"
  by (auto simp: get_cancel_def get_finish_def get_inv_def get_owed_def success_or_error_def split: if_splits)

lemma get_inv_stop: "get_inv q \<Longrightarrow> get_inv (q\<lparr>gq_stop_requested := True, gq_cancel_pending := True\<rparr>)"
proof -
  have "get_owed (q\<lparr>gq_stop_requested := True, gq_cancel_pending := True\<rparr>) = get_owed q"
    by (simp add: get_owed_def)
  then show "get_inv q \<Longrightarrow> ?thesis"
    by (cases "gq_handler q") (simp_all add: get_inv_def)
qed

lemma get_rank_finish [simp]: "get_rank (get_finish r q) = get_rank q"
  by (simp add: get_finish_def get_rank_def)

lemma get_rank_schedule: "get_rank (get_schedule now d b q) \<le> get_rank q + (if b then 3 else 2)"
proof -
  have "get_rank (q\<lparr>gq_timer_pending := Some b\<rparr>) \<le> get_rank q + (if b then 3 else 2)"
    by (simp add: get_rank_def)
  then show ?thesis
    by (cases b) (simp_all add: get_schedule_def)
qed

lemma get_rank_dispatch: "get_rank (get_dispatch hs q) \<le> get_rank q + 1"
  by (simp add: get_dispatch_def get_rank_def)

text \<open>What no step changes.\<close>

definition get_frame :: "get_operation \<Rightarrow> environment \<times> nat \<times> string" where
  "get_frame q = (gq_environment q, gq_max_get_retries q, gq_target q)"

lemma get_frame_simps [simp]:
  "get_frame (get_finish r q) = get_frame q" "get_frame (get_schedule now d b q) = get_frame q"
  "get_frame (get_dispatch hs q) = get_frame q" "get_frame (get_cancel q) = get_frame q"
  "get_frame (q\<lparr>gq_penalties := ps\<rparr>) = get_frame q" "get_frame (q\<lparr>gq_attempt := k\<rparr>) = get_frame q"
  "get_frame (q\<lparr>gq_start_pending := b\<rparr>) = get_frame q"
  "get_frame (q\<lparr>gq_timer_pending := o'\<rparr>) = get_frame q" "get_frame (q\<lparr>gq_response_pending := b\<rparr>) = get_frame q"
  "get_frame (q\<lparr>gq_cancel_pending := b\<rparr>) = get_frame q" "get_frame (q\<lparr>gq_stop_requested := b\<rparr>) = get_frame q"
  by (simp_all add: get_frame_def get_finish_def get_schedule_def get_dispatch_def get_cancel_def)

section \<open>What both clients promise\<close>

locale get_client =
  fixes start :: "int \<Rightarrow> int \<Rightarrow> 'c \<Rightarrow> bool \<Rightarrow> get_operation \<Rightarrow> get_operation"
    and handle :: "(string \<Rightarrow> int option) \<Rightarrow> int \<Rightarrow> int \<Rightarrow> http_response result \<Rightarrow> get_operation \<Rightarrow> get_operation"
  assumes start_cases:
      "(\<not> gq_handler q \<and> start now reserved creds b q = q)
       \<or> (\<exists>e. start now reserved creds b q = get_finish (Inl e) q)
       \<or> (b \<and> start now reserved creds b q = get_schedule now reserved False q)
       \<or> (\<not> gq_stop_requested q \<and> (\<exists>hs. start now reserved creds b q = get_dispatch hs q))"
    and handle_cases:
      "(\<exists>r. success_or_error r \<and> handle get_time clock now result q = get_finish r q)
       \<or> (\<exists>delay ps b. gq_attempt q < gq_max_get_retries q \<and> handle get_time clock now result q =
            get_schedule now delay b (q\<lparr>gq_penalties := ps, gq_attempt := Suc (gq_attempt q)\<rparr>))
       \<or> (\<exists>e ps. gq_max_get_retries q \<le> gq_attempt q \<and> handle get_time clock now result q =
            get_finish (Inl e) (q\<lparr>gq_penalties := ps, gq_attempt := Suc (gq_attempt q)\<rparr>))"
begin

lemma inv_start: "get_body False q \<Longrightarrow> get_inv (start now reserved creds b q)"
  using start_cases [of q now reserved creds b]
proof (elim disjE exE conjE)
  assume "get_body False q" "\<not> gq_handler q" "start now reserved creds b q = q"
  then show ?thesis
    by (simp add: get_body_def get_inv_def)
qed (simp_all add: get_inv_finish(1) get_inv_schedule get_inv_dispatch success_or_error_def)

lemma inv_handle:
  assumes "get_body True q"
  shows "get_inv (handle get_time clock now result q)"
  using handle_cases [of get_time clock now result q]
proof (elim disjE exE conjE)
  fix delay ps b
  assume "gq_attempt q < gq_max_get_retries q" and
    "handle get_time clock now result q = get_schedule now delay b (q\<lparr>gq_penalties := ps, gq_attempt := Suc (gq_attempt q)\<rparr>)"
  then show ?thesis
    using get_body_retry [OF assms] by (simp add: get_inv_schedule)
qed (use assms get_inv_finish in \<open>simp_all add: success_or_error_def\<close>)

lemma inv_step:
  assumes "get_step start handle get_time q q'" and "get_inv q"
  shows "get_inv q'"
  using assms(1)
proof (rule get_stepE)
  fix now reserved creds reserve_budget failed
  assume "gq_timer_pending q = Some reserve_budget" and
    q': "q' = get_timer start failed now reserved creds reserve_budget (q\<lparr>gq_timer_pending := None\<rparr>)"
  then have "get_body False (q\<lparr>gq_timer_pending := None\<rparr>)"
    using get_body_of_inv [OF assms(2)] by simp
  then show ?thesis
    unfolding q' get_timer_def using get_inv_finish(1) [of False "q\<lparr>gq_timer_pending := None\<rparr>"] inv_start
    by (simp add: success_or_error_def)
qed (use assms(2) get_body_of_inv [OF assms(2)] in
    \<open>simp_all add: inv_start inv_handle get_inv_cancel get_inv_stop\<close>)

lemma rank_start: "get_rank (start now reserved creds b q) \<le> get_rank q + (if b then 2 else 1)"
  using start_cases [of q now reserved creds b]
proof (elim disjE exE conjE)
  fix hs
  assume "start now reserved creds b q = get_dispatch hs q"
  then show ?thesis
    using get_rank_dispatch [of hs q] by simp
qed (use get_rank_schedule [of now reserved False q] in simp_all)

lemma rank_handle: "get_rank (handle get_time clock now result q) \<le> get_rank q"
  using handle_cases [of get_time clock now result q]
proof (elim disjE exE conjE)
  fix delay ps b
  let ?q = "q\<lparr>gq_penalties := ps, gq_attempt := Suc (gq_attempt q)\<rparr>"
  assume "gq_attempt q < gq_max_get_retries q" and h: "handle get_time clock now result q = get_schedule now delay b ?q"
  then have "get_rank ?q + 3 \<le> get_rank q"
    by (simp add: get_rank_def)
  then show ?thesis
    using get_rank_schedule [of now delay b ?q] h by (simp split: if_splits)
qed (simp_all, simp add: get_rank_def)

lemma rank_step:
  assumes "get_step start handle get_time q q'"
  shows "get_rank q' < get_rank q"
  using assms
proof (rule get_stepE)
  fix now reserved creds
  assume p: "gq_start_pending q" and q': "q' = start now reserved creds True (q\<lparr>gq_start_pending := False\<rparr>)"
  have "get_rank q = get_rank (q\<lparr>gq_start_pending := False\<rparr>) + 3"
    using p by (simp add: get_rank_def)
  then show ?thesis
    unfolding q' using rank_start [of now reserved creds True "q\<lparr>gq_start_pending := False\<rparr>"] by simp
next
  fix now reserved creds b failed
  assume p: "gq_timer_pending q = Some b" and q': "q' = get_timer start failed now reserved creds b (q\<lparr>gq_timer_pending := None\<rparr>)"
  have "get_rank q = get_rank (q\<lparr>gq_timer_pending := None\<rparr>) + (if b then 3 else 2)"
    using p by (simp add: get_rank_def)
  then show ?thesis
    unfolding q' get_timer_def using rank_start [of now reserved creds b "q\<lparr>gq_timer_pending := None\<rparr>"]
    by (simp split: if_splits)
next
  fix clock now result
  assume p: "gq_response_pending q" and q': "q' = handle get_time clock now result (q\<lparr>gq_response_pending := False\<rparr>)"
  have "get_rank q = get_rank (q\<lparr>gq_response_pending := False\<rparr>) + 1"
    using p by (simp add: get_rank_def)
  then show ?thesis
    unfolding q' using rank_handle [of get_time clock now result "q\<lparr>gq_response_pending := False\<rparr>"] by simp
qed (simp_all add: get_cancel_def, simp_all add: get_rank_def)

lemma frame_start: "get_frame (start now reserved creds b q) = get_frame q"
  using start_cases [of q now reserved creds b] by (elim disjE exE conjE) simp_all

lemma frame_handle: "get_frame (handle get_time clock now result q) = get_frame q"
  using handle_cases [of get_time clock now result q] by (elim disjE exE conjE) simp_all

lemma frame_step: "get_step start handle get_time q q' \<Longrightarrow> get_frame q' = get_frame q"
  by (erule get_stepE) (simp_all add: frame_start frame_handle get_timer_def)

end

sublocale get_client \<subseteq> run: bounded_machine "get_step start handle get_time" get_inv get_frame get_rank for get_time
  by unfold_locales (rule inv_step, assumption+, rule frame_step, assumption, rule rank_step, assumption)

context get_client
begin

text \<open>Everything a run of one operation shows, for any provider of the two functions.\<close>

lemma get_reported:
  assumes "(get_step start handle get_time ^^ n) (new_get env retries endpoint target deadline) q"
  shows "length (gq_gets q) \<le> retries + 1" and "\<forall>r\<in>set (gq_gets q). rq_method r = http_get \<and> rq_target r = target \<and> rq_host r = api_host env \<and> rq_use_tls r"
    and "length (gq_delivered q) \<le> 1" and "get_owed q = 0 \<Longrightarrow> length (gq_delivered q) = 1"
    and "\<forall>r\<in>set (gq_delivered q). success_or_error r" and "n \<le> 3 * retries + 5"
proof -
  have inv: "get_inv q" and "get_frame q = get_frame (new_get env retries endpoint target deadline)"
    using run.steps_kept [OF assms get_inv_new] by simp_all
  then have frame: "gq_environment q = env" "gq_max_get_retries q = retries" "gq_target q = target"
    by (simp_all add: get_frame_def new_get_def)
  show "length (gq_gets q) \<le> retries + 1" "length (gq_delivered q) \<le> 1" "get_owed q = 0 \<Longrightarrow> length (gq_delivered q) = 1"
    using inv frame by (cases "gq_handler q"; simp add: get_inv_def)+
  show "\<forall>r\<in>set (gq_gets q). rq_method r = http_get \<and> rq_target r = target \<and> rq_host r = api_host env \<and> rq_use_tls r"
    using inv frame by (auto simp: get_inv_def get_request_ok_def list_all_iff)
  show "\<forall>r\<in>set (gq_delivered q). success_or_error r"
    using inv by (cases "gq_handler q") (simp_all add: get_inv_def list_all_iff)
  show "n \<le> 3 * retries + 5"
    using run.steps_bounded [OF assms] by (simp add: get_rank_new)
qed

end

lemma public_handle_cases:
  "(\<exists>r. success_or_error r \<and> public_handle get_time clock now result q = get_finish r q)
   \<or> (\<exists>delay ps b. gq_attempt q < gq_max_get_retries q \<and> public_handle get_time clock now result q =
        get_schedule now delay b (q\<lparr>gq_penalties := ps, gq_attempt := Suc (gq_attempt q)\<rparr>))
   \<or> (\<exists>e ps. gq_max_get_retries q \<le> gq_attempt q \<and> public_handle get_time clock now result q =
        get_finish (Inl e) (q\<lparr>gq_penalties := ps, gq_attempt := Suc (gq_attempt q)\<rparr>))"
proof (cases result)
  case (Inl e)
  then show ?thesis
    by (intro disjI1 exI [of _ "Inl e"]) (simp add: public_handle_def success_or_error_def)
next
  case (Inr response)
  have same: "q\<lparr>gq_attempt := k\<rparr> = q\<lparr>gq_penalties := gq_penalties q, gq_attempt := k\<rparr>" for k
    by (cases q) simp
  show ?thesis
  proof (cases "rs_status response = 429 \<or> rs_status response \<ge> 500")
    case True
    define delay where "delay = retry_after get_time clock response (gq_attempt q)"
    define ps where "ps = (if rs_status response = 429 then gq_penalties q @ [delay] else gq_penalties q)"
    define e where "e = (if rs_status response = 429
        then http_error rate_limited (rs_status response) ''Predict.fun rate limit exceeded'' delay
        else http_error http_server_error (rs_status response) ''Predict.fun server error'' delay)"
    have "public_handle get_time clock now result q =
      (if gq_attempt q < gq_max_get_retries q
       then get_schedule now delay (rs_status response \<ge> 500) (q\<lparr>gq_penalties := ps, gq_attempt := Suc (gq_attempt q)\<rparr>)
       else get_finish (Inl e) (q\<lparr>gq_penalties := ps, gq_attempt := Suc (gq_attempt q)\<rparr>))"
      using True same [of "Suc (gq_attempt q)"]
      by (auto simp: public_handle_def Inr Let_def delay_def ps_def e_def)
    then show ?thesis
      by (metis not_less)
  next
    case False
    define s where "s = rs_status response"
    define r where "r = (if 200 \<le> s \<and> s < 300 then result
      else if 300 \<le> s \<and> s < 400 then Inl (http_error http_redirect s ''HTTP redirect rejected'' 0)
      else if s = 401 \<or> s = 403 then Inl (http_error authentication_required s ''Predict.fun authentication rejected'' 0)
      else Inl (http_error http_client_error s ''Predict.fun request rejected'' 0))"
    have "success_or_error r" "public_handle get_time clock now result q = get_finish r q"
      using False by (simp_all add: public_handle_def Inr Let_def r_def s_def)
    then show ?thesis
      by blast
  qed
qed

interpretation public_client: get_client public_start public_handle
proof
  show "(\<not> gq_handler q \<and> public_start now reserved creds b q = q)
       \<or> (\<exists>e. public_start now reserved creds b q = get_finish (Inl e) q)
       \<or> (b \<and> public_start now reserved creds b q = get_schedule now reserved False q)
       \<or> (\<not> gq_stop_requested q \<and> (\<exists>hs. public_start now reserved creds b q = get_dispatch hs q))" for q now reserved creds b
    unfolding public_start_def public_send_def Let_def by (auto split: option.splits)
  show "(\<exists>r. success_or_error r \<and> public_handle get_time clock now result q = get_finish r q)
       \<or> (\<exists>delay ps b. gq_attempt q < gq_max_get_retries q \<and> public_handle get_time clock now result q =
            get_schedule now delay b (q\<lparr>gq_penalties := ps, gq_attempt := Suc (gq_attempt q)\<rparr>))
       \<or> (\<exists>e ps. gq_max_get_retries q \<le> gq_attempt q \<and> public_handle get_time clock now result q =
            get_finish (Inl e) (q\<lparr>gq_penalties := ps, gq_attempt := Suc (gq_attempt q)\<rparr>))" for get_time clock now result q
    by (rule public_handle_cases)
qed

interpretation private_client: get_client private_start private_handle
proof
  show "(\<not> gq_handler q \<and> private_start now reserved creds b q = q)
       \<or> (\<exists>e. private_start now reserved creds b q = get_finish (Inl e) q)
       \<or> (b \<and> private_start now reserved creds b q = get_schedule now reserved False q)
       \<or> (\<not> gq_stop_requested q \<and> (\<exists>hs. private_start now reserved creds b q = get_dispatch hs q))" for q now reserved creds b
    unfolding private_start_def private_send_def Let_def by (auto split: credentials.splits)
qed (unfold private_handle_public, rule public_handle_cases)

section \<open>The referral mutation\<close>

text \<open>
  \<open>ReferralOperation\<close> keeps the state of a mutation; unlike the trading client it leaves the code of the
  error in an ambiguous outcome as it is, and takes a rate limit as a rejection.
\<close>

definition referral_key :: string where "referral_key = ''account.referral''"

definition referral_ambiguous :: "error \<Rightarrow> bool mutation_outcome" where
  "referral_ambiguous e = \<lparr>mo_disposition = ambiguous, mo_receipt = None, mo_ambiguity = Some e,
     mo_reconciliation_key = referral_key\<rparr>"

definition referral_send :: "credentials \<Rightarrow> bool trading_operation \<Rightarrow> bool trading_operation" where
  "referral_send creds q =
     (if \<not> tq_handler q then q
      else case creds of
        credentials_failed \<Rightarrow>
          op_finish (Inl (mk_error authentication_required ''credential provider failed'' '''')) q
      | credentials key jwt \<Rightarrow>
          if tq_environment q = env_mainnet \<and> key = []
          then op_finish (Inl (mk_error authentication_required ''Predict.fun mainnet requires an API key'' '''')) q
          else if jwt = []
          then op_finish (Inl (mk_error authentication_required ''Predict.fun private endpoint requires a JWT'' '''')) q
          else
            let request = default_request\<lparr>rq_method := http_post, rq_host := api_host (tq_environment q),
                  rq_target := ''/v1/account/referral'', rq_use_tls := True, rq_body := tq_body q,
                  rq_headers := (if key \<noteq> [] then [\<lparr>hd_name = ''x-api-key'', hd_value = key\<rparr>] else [])
                    @ [\<lparr>hd_name = ''Authorization'', hd_value = ''Bearer '' @ jwt\<rparr>]\<rparr>
            in q\<lparr>tq_dispatched := True, tq_posts := tq_posts q @ [request], tq_response_pending := True\<rparr>)"

definition referral_start :: "int \<Rightarrow> int \<Rightarrow> credentials \<Rightarrow> bool trading_operation \<Rightarrow> bool trading_operation" where
  "referral_start now wait creds q =
     (if \<not> tq_handler q then q
      else if tq_stop_requested q then op_finish (Inl (mk_error cancelled ''request cancelled'' '''')) q
      else if (case tq_deadline q of Some d \<Rightarrow> d \<le> now | None \<Rightarrow> False)
      then op_finish (Inl (mk_error deadline_exceeded ''request deadline exceeded'' '''')) q
      else if wait = 0 then referral_send creds q
      else if (case tq_deadline q of Some d \<Rightarrow> now + wait \<ge> d | None \<Rightarrow> False)
      then op_finish (Inl (mk_error deadline_exceeded ''rate limit wait exceeds request deadline'' '''')) q
      else q\<lparr>tq_timer_pending := True\<rparr>)"

definition referral_timer :: "bool \<Rightarrow> credentials \<Rightarrow> bool trading_operation \<Rightarrow> bool trading_operation" where
  "referral_timer failed creds q =
     (if failed then op_finish (Inl (mk_error cancelled ''request wait cancelled'' '''')) q
      else referral_send creds q)"

definition referral_handle ::
    "(string \<Rightarrow> bool result) \<Rightarrow> (string \<Rightarrow> int option) \<Rightarrow> int \<Rightarrow> http_response result
       \<Rightarrow> bool trading_operation \<Rightarrow> bool trading_operation" where
  "referral_handle decode get_time clock result q =
     (case result of
        Inl e \<Rightarrow> op_finish (Inr (referral_ambiguous e)) q
      | Inr response \<Rightarrow>
          let status = rs_status response in
          if 200 \<le> status \<and> status < 300 then
            (case decode (rs_body response) of
               Inl e \<Rightarrow> op_finish (Inr (referral_ambiguous e)) q
             | Inr parsed \<Rightarrow> op_finish (Inr \<lparr>mo_disposition = acknowledged, mo_receipt = Some parsed,
                 mo_ambiguity = None, mo_reconciliation_key = referral_key\<rparr>) q)
          else if 300 \<le> status \<and> status < 400
          then op_finish (Inl (http_error http_redirect status ''HTTP redirect rejected'' 0)) q
          else if status = 401 \<or> status = 403
          then op_finish (Inl (http_error authentication_required status ''Predict.fun authentication rejected'' 0)) q
          else if status = 429 then
            (let delay = retry_after get_time clock response 0
             in op_finish (Inl (http_error rate_limited status ''Predict.fun rate limit exceeded'' delay))
                  (q\<lparr>tq_penalties := tq_penalties q @ [delay]\<rparr>))
          else if status \<ge> 500
          then op_finish (Inr (referral_ambiguous (http_error http_server_error status ''Predict.fun server error'' 0))) q
          else op_finish (Inl (http_error http_client_error status ''Predict.fun referral assignment rejected'' 0)) q)"

definition referral_cancel :: "bool trading_operation \<Rightarrow> bool trading_operation" where
  "referral_cancel q =
     (if tq_dispatched q
      then op_finish (Inr (referral_ambiguous
             (mk_error cancelled ''request cancelled after referral dispatch; reconcile account'' ''''))) q
      else op_finish (Inl (mk_error cancelled ''request cancelled'' '''')) q)"

text \<open>The request body: \<open>write\<close> stands for the JSON writer on the wire record.\<close>

definition referral_char :: "char \<Rightarrow> bool" where
  "referral_char c \<longleftrightarrow> (let n = (of_char c :: nat) in 48 \<le> n \<and> n \<le> 57 \<or> 65 \<le> n \<and> n \<le> 90 \<or> 97 \<le> n \<and> n \<le> 122)"

definition encode_referral_request :: "(string \<Rightarrow> string option) \<Rightarrow> string \<Rightarrow> string result" where
  "encode_referral_request write code =
     (if length code \<noteq> 5 \<or> \<not> list_all referral_char code
      then Inl (mk_error invalid_argument ''referral code must contain exactly 5 ASCII letters or digits'' ''referral_code'')
      else case write code of
        None \<Rightarrow> Inl (mk_error protocol_error ''failed to encode Predict.fun referral request'' '''')
      | Some json \<Rightarrow> Inr json)"

definition set_referral ::
    "(string \<Rightarrow> string option) \<Rightarrow> environment \<Rightarrow> string \<Rightarrow> int option \<Rightarrow> error + bool trading_operation" where
  "set_referral write env code deadline =
     bind_res (encode_referral_request write code)
       (\<lambda>body. Inr (new_operation env ''account_referral'' ''/v1/account/referral'' body referral_key deadline))"

inductive referral_step ::
    "(string \<Rightarrow> bool result) \<Rightarrow> (string \<Rightarrow> int option) \<Rightarrow> bool trading_operation \<Rightarrow> bool trading_operation \<Rightarrow> bool"
  for decode get_time where
  ref_starts: "tq_start_pending q \<Longrightarrow>
    referral_step decode get_time q (referral_start now wait creds (q\<lparr>tq_start_pending := False\<rparr>))"
| ref_fires: "tq_timer_pending q \<Longrightarrow>
    referral_step decode get_time q (referral_timer failed creds (q\<lparr>tq_timer_pending := False\<rparr>))"
| ref_answers: "tq_response_pending q \<Longrightarrow>
    referral_step decode get_time q (referral_handle decode get_time clock result (q\<lparr>tq_response_pending := False\<rparr>))"
| ref_stops: "referral_step decode get_time q (q\<lparr>tq_stop_requested := True, tq_cancel_pending := True\<rparr>)"
| ref_cancels: "tq_cancel_pending q \<Longrightarrow>
    referral_step decode get_time q (referral_cancel (q\<lparr>tq_cancel_pending := False\<rparr>))"

inductive_cases referral_stepE: "referral_step decode get_time q q'"


subsection \<open>Invariant\<close>

definition refused_status :: "int \<Rightarrow> bool" where
  "refused_status s \<longleftrightarrow> s < 200 \<or> 300 \<le> s \<and> s < 500"

definition referral_ok :: "(string \<Rightarrow> bool result) \<Rightarrow> bool \<Rightarrow> bool mutation_outcome result \<Rightarrow> bool" where
  "referral_ok decode posted r = (case r of
      Inl e \<Rightarrow> \<not> posted \<or> refused_status (err_http_status e)
    | Inr out \<Rightarrow> posted \<and> mo_reconciliation_key out = referral_key \<and>
        (case mo_disposition out of
           acknowledged \<Rightarrow> (\<exists>body. map_option Inr (mo_receipt out) = Some (decode body))
         | ambiguous \<Rightarrow> mo_receipt out = None \<and> mo_ambiguity out \<noteq> None))"

definition referral_inv :: "(string \<Rightarrow> bool result) \<Rightarrow> bool trading_operation \<Rightarrow> bool" where
  "referral_inv decode q \<longleftrightarrow> length (tq_posts q) \<le> 1 \<and> tq_dispatched q = (tq_posts q \<noteq> []) \<and>
     (if tq_handler q
      then tq_delivered q = [] \<and> tq_response_pending q = (tq_posts q \<noteq> []) \<and>
           (tq_start_pending q \<or> tq_timer_pending q \<or> tq_response_pending q) \<and>
           (tq_response_pending q \<longrightarrow> \<not> tq_start_pending q \<and> \<not> tq_timer_pending q)
           \<and> \<not> (tq_start_pending q \<and> tq_timer_pending q)
      else \<exists>r. tq_delivered q = [r] \<and> referral_ok decode (tq_posts q \<noteq> []) r)"

text \<open>The body of a callback, its own flag cleared; \<open>posted\<close> tells the response's from the others.\<close>

definition referral_body :: "(string \<Rightarrow> bool result) \<Rightarrow> bool \<Rightarrow> bool trading_operation \<Rightarrow> bool" where
  "referral_body decode posted q \<longleftrightarrow> length (tq_posts q) \<le> 1 \<and> tq_dispatched q = (tq_posts q \<noteq> []) \<and>
     (if tq_handler q
      then tq_delivered q = [] \<and> (tq_posts q \<noteq> []) = posted \<and> \<not> tq_start_pending q \<and> \<not> tq_timer_pending q \<and>
        \<not> tq_response_pending q
      else \<exists>r. tq_delivered q = [r] \<and> referral_ok decode (tq_posts q \<noteq> []) r)"

lemma referral_body_of_inv:
  assumes "referral_inv decode q"
  shows "tq_start_pending q \<Longrightarrow> referral_body decode False (q\<lparr>tq_start_pending := False\<rparr>)"
    and "tq_timer_pending q \<Longrightarrow> referral_body decode False (q\<lparr>tq_timer_pending := False\<rparr>)"
    and "tq_response_pending q \<Longrightarrow> referral_body decode True (q\<lparr>tq_response_pending := False\<rparr>)"
  using assms by (auto simp: referral_inv_def referral_body_def split: if_splits)

lemma referral_inv_finish:
  "referral_body decode posted q \<Longrightarrow> referral_ok decode posted r \<Longrightarrow> referral_inv decode (op_finish r q)"
  "referral_body decode posted q \<Longrightarrow> referral_ok decode posted r \<Longrightarrow> referral_inv decode (op_finish r (q\<lparr>tq_penalties := ps\<rparr>))"
  by (cases "tq_handler q"; simp add: referral_inv_def referral_body_def op_finish_def)+

lemma referral_inv_send: "referral_body decode False q \<Longrightarrow> referral_inv decode (referral_send creds q)"
proof (cases "tq_handler q")
  case True
  assume body: "referral_body decode False q"
  have err: "referral_inv decode (op_finish (Inl e) q)" for e
    by (rule referral_inv_finish(1) [OF body]) (simp add: referral_ok_def)
  have "referral_inv decode (q\<lparr>tq_dispatched := True, tq_posts := tq_posts q @ [r], tq_response_pending := True\<rparr>)" for r
    using body True by (simp add: referral_inv_def referral_body_def)
  then show ?thesis
    using True err by (simp add: referral_send_def Let_def split: credentials.split)
next
  case False
  assume "referral_body decode False q"
  then show ?thesis
    using False by (simp add: referral_send_def referral_inv_def referral_body_def)
qed

lemma referral_inv_start: "referral_body decode False q \<Longrightarrow> referral_inv decode (referral_start now wait creds q)"
proof (cases "tq_handler q")
  case True
  assume body: "referral_body decode False q"
  have "referral_inv decode (op_finish (Inl e) q)" for e
    by (rule referral_inv_finish(1) [OF body]) (simp add: referral_ok_def)
  moreover have "referral_inv decode (q\<lparr>tq_timer_pending := True\<rparr>)"
    using body True by (simp add: referral_inv_def referral_body_def)
  ultimately show ?thesis
    using True referral_inv_send [OF body] by (simp add: referral_start_def)
next
  case False
  assume "referral_body decode False q"
  then show ?thesis
    using False by (simp add: referral_start_def referral_inv_def referral_body_def)
qed

lemma referral_inv_timer: "referral_body decode False q \<Longrightarrow> referral_inv decode (referral_timer failed creds q)"
  using referral_inv_send [of decode q] referral_inv_finish(1) [of decode False q]
  by (simp add: referral_timer_def referral_ok_def)

lemma referral_inv_handle:
  assumes "referral_body decode True q"
  shows "referral_inv decode (referral_handle decode get_time clock result q)"
proof -
  have amb: "referral_inv decode (op_finish (Inr (referral_ambiguous e)) q)" for e
    by (rule referral_inv_finish(1) [OF assms]) (simp add: referral_ok_def referral_ambiguous_def)
  have err: "refused_status s \<Longrightarrow> referral_inv decode (op_finish (Inl (http_error c s m d)) q)"
    "refused_status s \<Longrightarrow> referral_inv decode (op_finish (Inl (http_error c s m d)) (q\<lparr>tq_penalties := ps\<rparr>))" for c s m d ps
    by (rule referral_inv_finish [OF assms]; simp add: referral_ok_def http_error_def)+
  have ack: "decode b = Inr v \<Longrightarrow> referral_inv decode (op_finish (Inr \<lparr>mo_disposition = acknowledged, mo_receipt = Some v,
      mo_ambiguity = None, mo_reconciliation_key = referral_key\<rparr>) q)" for b v
    by (rule referral_inv_finish(1) [OF assms]) (auto simp: referral_ok_def intro!: exI [of _ b])
  show ?thesis
    unfolding referral_handle_def Let_def
    by (auto simp: amb ack refused_status_def intro!: err split: sum.split)
qed

lemma referral_inv_cancel: "referral_inv decode q \<Longrightarrow> referral_inv decode (referral_cancel (q\<lparr>tq_cancel_pending := False\<rparr>))"
proof -
  have "referral_ok decode True (Inr (referral_ambiguous e))" "referral_ok decode False (Inl e)" for e
    by (simp_all add: referral_ok_def referral_ambiguous_def)
  then show "referral_inv decode q \<Longrightarrow> ?thesis"
    by (cases "tq_handler q"; cases "tq_posts q = []") (auto simp: referral_cancel_def op_finish_def referral_inv_def)
qed

lemma referral_inv_stop: "referral_inv decode q \<Longrightarrow> referral_inv decode (q\<lparr>tq_stop_requested := True, tq_cancel_pending := True\<rparr>)"
  by (cases "tq_handler q") (auto simp: referral_inv_def)

lemma referral_inv_step: "referral_step decode get_time q q' \<Longrightarrow> referral_inv decode q \<Longrightarrow> referral_inv decode q'"
  by (erule referral_stepE)
    (simp_all add: referral_inv_start referral_inv_timer referral_inv_handle referral_inv_cancel referral_inv_stop
      referral_body_of_inv)

lemma referral_inv_run: "(referral_step decode get_time)\<^sup>*\<^sup>* q q' \<Longrightarrow> referral_inv decode q \<Longrightarrow> referral_inv decode q'"
  by (induction rule: rtranclp_induct) (auto dest: referral_inv_step)

lemma referral_inv_new: "referral_inv decode (new_operation env ep t b k d)"
  by (simp add: referral_inv_def new_operation_def)

section \<open>Properties\<close>

text \<open>
  C20. A GET of the public or the private client is answered exactly once, within bounds. In every
  interleaving of the callbacks of one operation with a stop request, at most \<open>max_get_retries\<close> + 1 requests
  are sent, all TLS GETs of the validated target at the host of the environment; at most one result
  is delivered, and once no callback is outstanding exactly one has been; a delivered response has a 2xx
  status; and the whole run takes at most \<open>3 * max_get_retries + 5\<close> callbacks, so it ends.
\<close>

theorem rest_get_exactly_once:
  assumes "(get_step public_start public_handle get_time ^^ n) (new_get env retries endpoint target deadline) q \<or>
    (get_step private_start private_handle get_time ^^ n) (new_get env retries endpoint target deadline) q"
  shows "length (gq_gets q) \<le> retries + 1 \<and>
    (\<forall>r\<in>set (gq_gets q). rq_method r = http_get \<and> rq_target r = target \<and> rq_host r = api_host env \<and> rq_use_tls r) \<and>
    length (gq_delivered q) \<le> 1 \<and> (get_owed q = 0 \<longrightarrow> length (gq_delivered q) = 1) \<and>
    (\<forall>r\<in>set (gq_delivered q). success_or_error r) \<and> n \<le> 3 * retries + 5"
  using assms
proof
  assume "(get_step public_start public_handle get_time ^^ n) (new_get env retries endpoint target deadline) q"
  from public_client.get_reported [OF this] show ?thesis
    by blast
next
  assume "(get_step private_start private_handle get_time ^^ n) (new_get env retries endpoint target deadline) q"
  from private_client.get_reported [OF this] show ?thesis
    by blast
qed

text \<open>A run: a server error, a retry after its delay, and an answer.\<close>

definition sample_get :: get_operation where
  "sample_get = new_get env_testnet 2 ''markets'' ''/v1/markets'' None"

definition sample_get_sent :: get_operation where
  "sample_get_sent = public_start 0 0 (Some ''k'') True (sample_get\<lparr>gq_start_pending := False\<rparr>)"

definition sample_get_failed :: get_operation where
  "sample_get_failed = public_handle (\<lambda>_. None) 0 1 (Inr \<lparr>rs_status = 503, rs_body = '''', rs_headers = []\<rparr>)
     (sample_get_sent\<lparr>gq_response_pending := False\<rparr>)"

definition sample_get_again :: get_operation where
  "sample_get_again = get_timer public_start False 101 0 (Some ''k'') True (sample_get_failed\<lparr>gq_timer_pending := None\<rparr>)"

definition sample_get_done :: get_operation where
  "sample_get_done = public_handle (\<lambda>_. None) 0 102 (Inr \<lparr>rs_status = 200, rs_body = ''{}'', rs_headers = []\<rparr>)
     (sample_get_again\<lparr>gq_response_pending := False\<rparr>)"

lemma sample_get_run: "(get_step public_start public_handle (\<lambda>_. None) ^^ 4) sample_get sample_get_done"
proof -
  let ?step = "get_step public_start public_handle (\<lambda>_. None)"
  have "gq_start_pending sample_get" "gq_response_pending sample_get_sent" "gq_timer_pending sample_get_failed = Some True"
    "gq_response_pending sample_get_again"
    by code_simp+
  then have "?step sample_get sample_get_sent" "?step sample_get_sent sample_get_failed"
    "?step sample_get_failed sample_get_again" "?step sample_get_again sample_get_done"
    unfolding sample_get_sent_def sample_get_failed_def sample_get_again_def sample_get_done_def
    by (blast intro: get_step.starts get_step.answers get_step.fires)+
  then show ?thesis
    by (auto simp: eval_nat_numeral OO_def)
qed

theorem rest_get_exactly_once_witness:
  "length (gq_gets sample_get_done) = 2 \<and> length (gq_gets sample_get_done) \<le> 2 + 1 \<and>
   length (gq_delivered sample_get_done) = 1 \<and> (4::nat) \<le> 3 * 2 + 5"
proof -
  have "get_owed sample_get_done = 0" "length (gq_gets sample_get_done) = 2"
    by code_simp+
  then show ?thesis
    using rest_get_exactly_once [OF disjI1 [OF sample_get_run [unfolded sample_get_def]]] by simp
qed

text \<open>
  A referral is assigned at most once and reported exactly once. In every interleaving, at most one
  request is posted, at most one result is delivered and once no callback is outstanding exactly one has
  been; after the post a plain error comes only with a status below 200 or between 300 and 499, everything
  else is an acknowledgement the decoder gave or an ambiguous outcome with the account's reconciliation key.
\<close>

theorem referral_reported_once:
  assumes "set_referral write env code deadline = Inr q0" and "(referral_step decode get_time)\<^sup>*\<^sup>* q0 q"
  shows "length code = 5 \<and> length (tq_posts q) \<le> 1 \<and> length (tq_delivered q) \<le> 1 \<and>
    (\<not> tq_start_pending q \<and> \<not> tq_timer_pending q \<and> \<not> tq_response_pending q \<longrightarrow> length (tq_delivered q) = 1) \<and>
    (\<forall>r\<in>set (tq_delivered q). referral_ok decode (tq_posts q \<noteq> []) r)"
proof -
  from assms(1) obtain body where code: "length code = 5"
    and q0: "q0 = new_operation env ''account_referral'' ''/v1/account/referral'' body referral_key deadline"
    by (cases "encode_referral_request write code")
      (auto simp: set_referral_def encode_referral_request_def split: if_splits option.splits)
  have "referral_inv decode q"
    using referral_inv_run [OF assms(2)] referral_inv_new unfolding q0 by blast
  then show ?thesis
    using code by (cases "tq_handler q") (auto simp: referral_inv_def)
qed

definition sample_referral :: "bool trading_operation" where
  "sample_referral = new_operation env_testnet ''account_referral'' ''/v1/account/referral'' ''{}'' referral_key None"

definition sample_referral_posted :: "bool trading_operation" where
  "sample_referral_posted = referral_start 0 0 (credentials '''' ''jwt'') (sample_referral\<lparr>tq_start_pending := False\<rparr>)"

definition sample_referral_done :: "bool trading_operation" where
  "sample_referral_done = referral_handle (\<lambda>_. Inr True) (\<lambda>_. None) 0 (Inr \<lparr>rs_status = 200, rs_body = '''', rs_headers = []\<rparr>)
     (sample_referral_posted\<lparr>tq_response_pending := False\<rparr>)"

theorem referral_reported_once_witness:
  "length (tq_posts sample_referral_done) = 1 \<and> length (tq_delivered sample_referral_done) = 1"
proof -
  have start: "set_referral (\<lambda>_. Some ''{}'') env_testnet ''Ab1Z9'' None = Inr sample_referral"
    unfolding sample_referral_def by code_simp
  have "tq_start_pending sample_referral" "tq_response_pending sample_referral_posted"
    by code_simp+
  then have "referral_step (\<lambda>_. Inr True) (\<lambda>_. None) sample_referral sample_referral_posted"
    "referral_step (\<lambda>_. Inr True) (\<lambda>_. None) sample_referral_posted sample_referral_done"
    unfolding sample_referral_posted_def sample_referral_done_def
    by (blast intro: referral_step.ref_starts referral_step.ref_answers)+
  then have run: "(referral_step (\<lambda>_. Inr True) (\<lambda>_. None))\<^sup>*\<^sup>* sample_referral sample_referral_done"
    by (meson converse_rtranclp_into_rtranclp rtranclp.rtrancl_refl)
  have "length (tq_posts sample_referral_done) = 1" "\<not> tq_start_pending sample_referral_done"
    "\<not> tq_timer_pending sample_referral_done" "\<not> tq_response_pending sample_referral_done"
    by code_simp+
  then show ?thesis
    using referral_reported_once [OF start run] by blast
qed

end
