(* ===== verification/Market_Types.thy ===== *)
theory Market_Types
  imports Ws_Codec
begin

text \<open>
  The data of the market endpoints: \<^verbatim>\<open>types/market.hpp\<close>, \<^verbatim>\<open>types/category.hpp\<close>, \<^verbatim>\<open>types/match.hpp\<close>,
  \<^verbatim>\<open>types/timeseries.hpp\<close> and \<^verbatim>\<open>types/discovery.hpp\<close>, and the wire structures of \<^verbatim>\<open>src/codec.cpp\<close> with the reads
  of the JSON package. A \<^verbatim>\<open>std::optional\<close> field is an option, a \<^verbatim>\<open>glz::raw_json\<close> is its text.
\<close>

section \<open>Data\<close>

datatype outcome_status = outcome_won | outcome_lost | outcome_voided | outcome_status_unknown

datatype category_status = category_open | category_resolved | category_removed | category_unknown

datatype last_sale_quote_type = sale_bid | sale_ask | sale_quote_unknown

datatype last_sale_outcome = sale_yes | sale_no | sale_outcome_unknown

datatype last_sale_strategy = sale_market | sale_limit | sale_strategy_unknown

record best_quote =
  bq_price :: price
  bq_size :: fixed_decimal

record market_outcome =
  oc_name :: string
  oc_index_set :: nat
  oc_on_chain_id :: string
  oc_best_bid :: "best_quote option"
  oc_best_ask :: "best_quote option"
  oc_status :: "outcome_status enum_value option"
  oc_team_json :: "string option"
  oc_variant_data_json :: "string option"
  oc_variant_details_json :: "string option"

record reward_period =
  rp_hourly_rate :: int
  rp_starts_at :: string
  rp_ends_at :: string

record market_rewards =
  mw_current :: "reward_period option"
  mw_schedule :: "reward_period list"

record market_statistics =
  ms_total_liquidity_usd :: exact_decimal
  ms_volume_total_usd :: exact_decimal
  ms_volume_24h_usd :: exact_decimal
  ms_liquidity_3c_ask_usd :: "exact_decimal option"

record crypto_up_down =
  cu_type :: string
  cu_price_feed_provider :: "string option"
  cu_price_feed_symbol :: "string option"
  cu_price_feed_id :: "string option"
  cu_start_price :: "fixed_decimal option"
  cu_end_price :: "fixed_decimal option"

record market =
  mk_id :: nat
  mk_title :: string
  mk_question :: string
  mk_condition_id :: "string option"
  mk_question_index :: "nat option"
  mk_trading_status :: "trading_status enum_value"
  mk_status :: "market_status enum_value"
  mk_decimal_precision :: nat
  mk_is_neg_risk :: bool
  mk_is_yield_bearing :: bool
  mk_fee_rate_bps :: nat
  mk_category_slug :: "string option"
  mk_created_at :: "string option"
  mk_market_variant :: "string option"
  mk_crypto_up_down :: "crypto_up_down option"
  mk_outcomes :: "market_outcome list"
  mk_image_url :: "string option"
  mk_description :: "string option"
  mk_is_visible :: "bool option"
  mk_resolution :: "market_outcome option"
  mk_oracle_question_id :: "string option"
  mk_resolver_address :: "string option"
  mk_spread_threshold :: "exact_decimal option"
  mk_share_threshold :: "exact_decimal option"
  mk_is_boosted :: "bool option"
  mk_boost_starts_at :: "string option"
  mk_boost_ends_at :: "string option"
  mk_polymarket_condition_ids :: "string list"
  mk_kalshi_market_ticker :: "string option"
  mk_market_type :: "string option"
  mk_rewards :: "market_rewards option"
  mk_stats :: "market_statistics option"
  mk_team_json :: "string option"
  mk_variant_details_json :: "string option"

record markets_page =
  mp_cursor :: "string option"
  mp_markets :: "market list"

record tag =
  tg_id :: string
  tg_name :: string
  tg_level :: "int option"
  tg_parent_id :: "string option"
  tg_maker_rebate_bps :: "int option"

record category_statistics =
  cs_total_liquidity_usd :: exact_decimal
  cs_volume_total_usd :: exact_decimal
  cs_volume_24h_usd :: exact_decimal
  cs_holders_count :: nat

record category =
  ct_id :: nat
  ct_slug :: string
  ct_title :: string
  ct_short_title :: "string option"
  ct_description :: "string option"
  ct_image_url :: "string option"
  ct_starts_at :: "string option"
  ct_ends_at :: "string option"
  ct_created_at :: "string option"
  ct_published_at :: "string option"
  ct_market_variant :: "string option"
  ct_neg_risk_on_chain_id :: "string option"
  ct_crypto_up_down :: "crypto_up_down option"
  ct_is_neg_risk :: bool
  ct_is_yield_bearing :: bool
  ct_is_visible :: bool
  ct_status :: "category_status enum_value"
  ct_tags :: "tag list"
  ct_markets :: "market list"
  ct_resolution_provider :: "string option"
  ct_parent_slug :: "string option"
  ct_stats :: "category_statistics option"
  ct_teams_json :: "string option"
  ct_variant_details_json :: "string option"

record categories_page =
  cp_cursor :: "string option"
  cp_categories :: "category list"

record timeseries_point =
  tp_timestamp_ms :: int
  tp_value :: fixed_decimal

record timeseries_page =
  tsp_cursor :: "string option"
  tsp_resolution :: string
  tsp_points :: "timeseries_point list"

record private_outcome =
  po_name :: "string option"
  po_index_set :: "nat option"
  po_on_chain_id :: "uint256 option"

record match_fee =
  mf_amount :: exact_decimal
  mf_type :: string

record match_order_leg =
  ml_quote_type :: string
  ml_amount :: exact_decimal
  ml_price :: exact_decimal
  ml_outcome :: private_outcome
  ml_signer :: evm_address
  ml_fee :: "match_fee option"

record match_event =
  me_market :: market
  me_taker :: match_order_leg
  me_amount_filled :: exact_decimal
  me_price_executed :: exact_decimal
  me_makers :: "match_order_leg list"
  me_transaction_hash :: string
  me_executed_at :: string

record matches_page =
  mtp_cursor :: "string option"
  mtp_matches :: "match_event list"

record market_last_sale =
  mls_quote_type :: "last_sale_quote_type enum_value"
  mls_outcome :: "last_sale_outcome enum_value"
  mls_price_in_currency :: exact_decimal
  mls_strategy :: "last_sale_strategy enum_value"

record search_results =
  sr_categories :: "category list"
  sr_markets :: "market list"

section \<open>Wire structures\<close>

record wire_best_quote =
  wbq_price :: "raw_json option"
  wbq_size :: "raw_json option"

record wire_outcome =
  wou_best_ask :: "wire_best_quote option"
  wou_best_bid :: "wire_best_quote option"
  wou_index_set :: "nat option"
  wou_name :: "string option"
  wou_on_chain_id :: "string option"
  wou_status :: "string option"
  wou_team :: "raw_json option"
  wou_variant_data :: "raw_json option"
  wou_variant_details :: "raw_json option"

record wire_variant_data =
  wvd_type :: "string option"
  wvd_price_feed_provider :: "string option"
  wvd_price_feed_symbol :: "string option"
  wvd_price_feed_id :: "string option"
  wvd_start_price :: "raw_json option"
  wvd_end_price :: "raw_json option"

record wire_tag =
  wtg_id :: "string option"
  wtg_name :: "string option"
  wtg_level :: "int option"
  wtg_parent_id :: "string option"
  wtg_maker_rebate_bps :: "int option"

record wire_reward_period =
  wrp_hourly_rate :: "int option"
  wrp_starts_at :: "string option"
  wrp_ends_at :: "string option"

record wire_market_rewards =
  wmr_current :: "wire_reward_period option"
  wmr_schedule :: "wire_reward_period list option"

record wire_market_statistics =
  wms_total_liquidity_usd :: "raw_json option"
  wms_liquidity_3c_ask_usd :: "raw_json option"
  wms_volume_total_usd :: "raw_json option"
  wms_volume_24h_usd :: "raw_json option"

record wire_category_statistics =
  wcs_total_liquidity_usd :: "raw_json option"
  wcs_volume_total_usd :: "raw_json option"
  wcs_volume_24h_usd :: "raw_json option"
  wcs_holders_count :: "nat option"

record wire_market =
  wmk_id :: "nat option"
  wmk_image_url :: "string option"
  wmk_title :: "string option"
  wmk_question :: "string option"
  wmk_description :: "string option"
  wmk_condition_id :: "string option"
  wmk_question_index :: "nat option"
  wmk_trading_status :: "string option"
  wmk_status :: "string option"
  wmk_is_visible :: "bool option"
  wmk_decimal_precision :: "nat option"
  wmk_is_neg_risk :: "bool option"
  wmk_is_yield_bearing :: "bool option"
  wmk_fee_rate_bps :: "nat option"
  wmk_resolution :: "wire_outcome option"
  wmk_oracle_question_id :: "string option"
  wmk_category_slug :: "string option"
  wmk_resolver_address :: "string option"
  wmk_spread_threshold :: "raw_json option"
  wmk_share_threshold :: "raw_json option"
  wmk_is_boosted :: "bool option"
  wmk_boost_starts_at :: "string option"
  wmk_boost_ends_at :: "string option"
  wmk_polymarket_condition_ids :: "string list option"
  wmk_kalshi_market_ticker :: "string option"
  wmk_created_at :: "string option"
  wmk_market_variant :: "string option"
  wmk_variant_data :: "wire_variant_data option"
  wmk_variant_details :: "raw_json option"
  wmk_team :: "raw_json option"
  wmk_market_type :: "string option"
  wmk_rewards :: "wire_market_rewards option"
  wmk_stats :: "wire_market_statistics option"
  wmk_outcomes :: "wire_outcome list option"

record wire_category =
  wct_id :: "nat option"
  wct_slug :: "string option"
  wct_title :: "string option"
  wct_short_title :: "string option"
  wct_description :: "string option"
  wct_image_url :: "string option"
  wct_starts_at :: "string option"
  wct_ends_at :: "string option"
  wct_created_at :: "string option"
  wct_published_at :: "string option"
  wct_market_variant :: "string option"
  wct_neg_risk_on_chain_id :: "string option"
  wct_variant_data :: "wire_variant_data option"
  wct_variant_details :: "raw_json option"
  wct_is_neg_risk :: "bool option"
  wct_is_yield_bearing :: "bool option"
  wct_is_visible :: "bool option"
  wct_status :: "string option"
  wct_resolution_provider :: "string option"
  wct_parent_slug :: "string option"
  wct_stats :: "wire_category_statistics option"
  wct_teams :: "raw_json option"
  wct_tags :: "wire_tag list option"
  wct_markets :: "wire_market list option"

text \<open>
  The response structures differ in their data alone: \<^verbatim>\<open>WireMarketsResponse\<close> and the other pages have a cursor,
  the single answers none.
\<close>

record 'd wire_response =
  wres_data :: "'d option"
  wres_success :: "bool option"

record 'd wire_page = "'d wire_response" +
  wres_cursor :: "string option"

record wire_timeseries_point =
  wtp_x :: "raw_json option"
  wtp_y :: "raw_json option"

record wire_timeseries_data =
  wtd_resolution :: "string option"
  wtd_series :: "wire_timeseries_point list option"

record wire_match_fee =
  wmf_amount :: "raw_json option"
  wmf_type :: "string option"

record wire_private_outcome =
  wpo_name :: "string option"
  wpo_index_set :: "nat option"
  wpo_on_chain_id :: "raw_json option"

record wire_match_leg =
  wml_quote_type :: "string option"
  wml_amount :: "raw_json option"
  wml_price :: "raw_json option"
  wml_outcome :: "raw_json option"
  wml_signer :: "string option"
  wml_fee :: "wire_match_fee option"

record wire_match =
  wma_market :: "raw_json option"
  wma_taker :: "wire_match_leg option"
  wma_amount_filled :: "raw_json option"
  wma_price_executed :: "raw_json option"
  wma_makers :: "wire_match_leg list option"
  wma_transaction_hash :: "string option"
  wma_executed_at :: "string option"

record wire_market_last_sale =
  wls_quote_type :: "string option"
  wls_outcome :: "string option"
  wls_price_in_currency :: "raw_json option"
  wls_strategy :: "string option"

text \<open>\<^verbatim>\<open>WireMarketLastSaleResponse\<close>: a data member that is not there is the empty text.\<close>

record wire_last_sale_response =
  wlr_success :: "bool option"
  wlr_data :: raw_json

record wire_search_data =
  wsd_categories :: "wire_category list option"
  wsd_markets :: "wire_market list option"

record market_reader =
  mr_string :: "string \<Rightarrow> string option"
  mr_markets :: "string \<Rightarrow> string + wire_market list wire_page"
  mr_market :: "string \<Rightarrow> string + wire_market wire_response"
  mr_categories :: "string \<Rightarrow> string + wire_category list wire_page"
  mr_category :: "string \<Rightarrow> string + wire_category wire_response"
  mr_timeseries :: "string \<Rightarrow> string + wire_timeseries_data wire_page"
  mr_timeseries_latest :: "string \<Rightarrow> string + wire_timeseries_point wire_response"
  mr_matches :: "string \<Rightarrow> string + wire_match list wire_page"
  mr_tags :: "string \<Rightarrow> string + wire_tag list wire_response"
  mr_statistics :: "string \<Rightarrow> string + wire_market_statistics wire_response"
  mr_last_sale_response :: "string \<Rightarrow> string + wire_last_sale_response"
  mr_last_sale :: "string \<Rightarrow> string + wire_market_last_sale"
  mr_search :: "string \<Rightarrow> string + wire_search_data wire_response"
  mr_private_outcome :: "string \<Rightarrow> string + wire_private_outcome"

end
