(* ===== verification/Market_Codec.thy ===== *)
theory Market_Codec
  imports Market_Types
begin

text \<open>
  The market part of \<^verbatim>\<open>src/codec.cpp\<close>: the decoding of markets, categories, tags, statistics, time series,
  matches, last sales and search results, and what every decoded value satisfies.
\<close>

section \<open>Conversions\<close>

definition parse_trading_status :: "string \<Rightarrow> trading_status enum_value" where
  "parse_trading_status raw =
     (if raw = ''OPEN'' then \<lparr>ev_value = trading_open, ev_raw = raw\<rparr>
      else if raw = ''MATCHING_NOT_ENABLED'' then \<lparr>ev_value = trading_matching_not_enabled, ev_raw = raw\<rparr>
      else if raw = ''CANCEL_ONLY'' then \<lparr>ev_value = trading_cancel_only, ev_raw = raw\<rparr>
      else if raw = ''CLOSED'' then \<lparr>ev_value = trading_closed, ev_raw = raw\<rparr>
      else \<lparr>ev_value = trading_unknown, ev_raw = raw\<rparr>)"

definition parse_market_status :: "string \<Rightarrow> market_status enum_value" where
  "parse_market_status raw =
     (if raw = ''REGISTERED'' then \<lparr>ev_value = market_registered, ev_raw = raw\<rparr>
      else if raw = ''PRICE_PROPOSED'' then \<lparr>ev_value = market_price_proposed, ev_raw = raw\<rparr>
      else if raw = ''PRICE_DISPUTED'' then \<lparr>ev_value = market_price_disputed, ev_raw = raw\<rparr>
      else if raw = ''PAUSED'' then \<lparr>ev_value = market_paused, ev_raw = raw\<rparr>
      else if raw = ''UNPAUSED'' then \<lparr>ev_value = market_unpaused, ev_raw = raw\<rparr>
      else if raw = ''OPEN'' then \<lparr>ev_value = market_open, ev_raw = raw\<rparr>
      else if raw = ''RESOLVING'' then \<lparr>ev_value = market_resolving, ev_raw = raw\<rparr>
      else if raw = ''RESOLVED'' then \<lparr>ev_value = market_resolved, ev_raw = raw\<rparr>
      else if raw = ''REMOVED'' then \<lparr>ev_value = market_removed, ev_raw = raw\<rparr>
      else \<lparr>ev_value = market_unknown, ev_raw = raw\<rparr>)"

definition parse_outcome_status :: "string \<Rightarrow> outcome_status enum_value" where
  "parse_outcome_status raw =
     (if raw = ''WON'' then \<lparr>ev_value = outcome_won, ev_raw = raw\<rparr>
      else if raw = ''LOST'' then \<lparr>ev_value = outcome_lost, ev_raw = raw\<rparr>
      else if raw = ''VOIDED'' then \<lparr>ev_value = outcome_voided, ev_raw = raw\<rparr>
      else \<lparr>ev_value = outcome_status_unknown, ev_raw = raw\<rparr>)"

definition parse_category_status :: "string \<Rightarrow> category_status enum_value" where
  "parse_category_status raw =
     (if raw = ''OPEN'' then \<lparr>ev_value = category_open, ev_raw = raw\<rparr>
      else if raw = ''RESOLVED'' then \<lparr>ev_value = category_resolved, ev_raw = raw\<rparr>
      else if raw = ''REMOVED'' then \<lparr>ev_value = category_removed, ev_raw = raw\<rparr>
      else \<lparr>ev_value = category_unknown, ev_raw = raw\<rparr>)"

definition parse_last_sale_quote_type :: "string \<Rightarrow> last_sale_quote_type enum_value" where
  "parse_last_sale_quote_type raw =
     (if raw = ''Bid'' \<or> raw = ''BID'' then \<lparr>ev_value = sale_bid, ev_raw = raw\<rparr>
      else if raw = ''Ask'' \<or> raw = ''ASK'' then \<lparr>ev_value = sale_ask, ev_raw = raw\<rparr>
      else \<lparr>ev_value = sale_quote_unknown, ev_raw = raw\<rparr>)"

definition parse_last_sale_outcome :: "string \<Rightarrow> last_sale_outcome enum_value" where
  "parse_last_sale_outcome raw =
     (if raw = ''Yes'' \<or> raw = ''YES'' then \<lparr>ev_value = sale_yes, ev_raw = raw\<rparr>
      else if raw = ''No'' \<or> raw = ''NO'' then \<lparr>ev_value = sale_no, ev_raw = raw\<rparr>
      else \<lparr>ev_value = sale_outcome_unknown, ev_raw = raw\<rparr>)"

definition parse_last_sale_strategy :: "string \<Rightarrow> last_sale_strategy enum_value" where
  "parse_last_sale_strategy raw =
     (if raw = ''MARKET'' then \<lparr>ev_value = sale_market, ev_raw = raw\<rparr>
      else if raw = ''LIMIT'' then \<lparr>ev_value = sale_limit, ev_raw = raw\<rparr>
      else \<lparr>ev_value = sale_strategy_unknown, ev_raw = raw\<rparr>)"

definition parse_exact_raw :: "(string \<Rightarrow> string option) \<Rightarrow> raw_json \<Rightarrow> string \<Rightarrow> exact_decimal result" where
  "parse_exact_raw read raw field = with_field field (exact_parse (unquote_raw read raw))"

text \<open>Embedded JSON: nothing when it is absent, blank or null, its text when it is small enough.\<close>

definition skip_space :: "string \<Rightarrow> string" where
  "skip_space s = dropWhile (\<lambda>c. c = CHR '' '' \<or> c = CHR 0x09 \<or> c = CHR 0x0D \<or> c = CHR 0x0A) s"

definition bounded_raw_json :: "raw_json option \<Rightarrow> decode_limits \<Rightarrow> string \<Rightarrow> string option result" where
  "bounded_raw_json raw limits field =
     (case raw of
        None \<Rightarrow> Inr None
      | Some t \<Rightarrow>
          if skip_space t = [] \<or> take 4 (skip_space t) = ''null'' then Inr None
          else guard_res (length t > dl_max_embedded_json_bytes limits)
                 (mk_error body_too_large ''embedded JSON exceeds configured limit'' field) (Inr (Some t)))"

definition convert_market_statistics ::
    "(string \<Rightarrow> string option) \<Rightarrow> wire_market_statistics \<Rightarrow> string \<Rightarrow> market_statistics result" where
  "convert_market_statistics read wire prefix =
     require (wms_total_liquidity_usd wire) (missing (prefix @ ''.totalLiquidityUsd'')) (\<lambda>raw_liquidity.
     require (wms_volume_total_usd wire) (missing (prefix @ ''.volumeTotalUsd'')) (\<lambda>raw_total.
     require (wms_volume_24h_usd wire) (missing (prefix @ ''.volume24hUsd'')) (\<lambda>raw_day.
     bind_res (parse_exact_raw read raw_liquidity (prefix @ ''.totalLiquidityUsd'')) (\<lambda>liquidity.
     bind_res (parse_exact_raw read raw_total (prefix @ ''.volumeTotalUsd'')) (\<lambda>total.
     bind_res (parse_exact_raw read raw_day (prefix @ ''.volume24hUsd'')) (\<lambda>day.
     bind_res (optional_part (wms_liquidity_3c_ask_usd wire)
         (\<lambda>raw. parse_exact_raw read raw (prefix @ ''.liquidity3cAskUsd''))) (\<lambda>three_cent.
       Inr \<lparr>ms_total_liquidity_usd = liquidity, ms_volume_total_usd = total, ms_volume_24h_usd = day,
            ms_liquidity_3c_ask_usd = three_cent\<rparr>)))))))"

definition convert_category_statistics ::
    "(string \<Rightarrow> string option) \<Rightarrow> wire_category_statistics \<Rightarrow> string \<Rightarrow> category_statistics result" where
  "convert_category_statistics read wire prefix =
     require (wcs_total_liquidity_usd wire) (missing (prefix @ ''.totalLiquidityUsd'')) (\<lambda>raw_liquidity.
     require (wcs_volume_total_usd wire) (missing (prefix @ ''.volumeTotalUsd'')) (\<lambda>raw_total.
     require (wcs_volume_24h_usd wire) (missing (prefix @ ''.volume24hUsd'')) (\<lambda>raw_day.
     require (wcs_holders_count wire) (missing (prefix @ ''.holdersCount'')) (\<lambda>holders.
     bind_res (parse_exact_raw read raw_liquidity (prefix @ ''.totalLiquidityUsd'')) (\<lambda>liquidity.
     bind_res (parse_exact_raw read raw_total (prefix @ ''.volumeTotalUsd'')) (\<lambda>total.
     bind_res (parse_exact_raw read raw_day (prefix @ ''.volume24hUsd'')) (\<lambda>day.
       Inr \<lparr>cs_total_liquidity_usd = liquidity, cs_volume_total_usd = total, cs_volume_24h_usd = day,
            cs_holders_count = holders\<rparr>)))))))"

definition convert_private_outcome :: "market_reader \<Rightarrow> raw_json \<Rightarrow> string \<Rightarrow> private_outcome result" where
  "convert_private_outcome rd raw prefix =
     (case mr_private_outcome rd raw of
        Inl _ \<Rightarrow> Inl (invalid ''match outcome contains malformed JSON'' prefix)
      | Inr wire \<Rightarrow>
          bind_res (optional_part (wpo_on_chain_id wire)
              (\<lambda>i. with_field (prefix @ ''.onChainId'') (uint256_parse (unquote_raw (mr_string rd) i)))) (\<lambda>on_chain.
            Inr \<lparr>po_name = wpo_name wire, po_index_set = wpo_index_set wire, po_on_chain_id = on_chain\<rparr>))"

definition convert_match_fee :: "(string \<Rightarrow> string option) \<Rightarrow> string \<Rightarrow> wire_match_fee \<Rightarrow> match_fee result" where
  "convert_match_fee read prefix wire =
     require (wmf_amount wire) (missing (prefix @ ''.fee.amount'')) (\<lambda>raw.
     require (wmf_type wire) (missing (prefix @ ''.fee.type'')) (\<lambda>kind.
     bind_res (parse_exact_raw read raw (prefix @ ''.fee.amount'')) (\<lambda>fee.
       Inr \<lparr>mf_amount = fee, mf_type = kind\<rparr>)))"

definition convert_match_leg :: "market_reader \<Rightarrow> wire_match_leg \<Rightarrow> string \<Rightarrow> match_order_leg result" where
  "convert_match_leg rd wire prefix =
     require (wml_quote_type wire) (missing (prefix @ ''.quoteType'')) (\<lambda>quote.
     require (wml_amount wire) (missing (prefix @ ''.amount'')) (\<lambda>raw_amount.
     require (wml_price wire) (missing (prefix @ ''.price'')) (\<lambda>raw_price.
     require (wml_outcome wire) (missing (prefix @ ''.outcome'')) (\<lambda>raw_outcome.
     require (wml_signer wire) (missing (prefix @ ''.signer'')) (\<lambda>raw_signer.
     bind_res (parse_exact_raw (mr_string rd) raw_amount (prefix @ ''.amount'')) (\<lambda>amount.
     bind_res (parse_exact_raw (mr_string rd) raw_price (prefix @ ''.price'')) (\<lambda>price.
     bind_res (convert_private_outcome rd raw_outcome (prefix @ ''.outcome'')) (\<lambda>outcome.
     bind_res (with_field (prefix @ ''.signer'') (evm_parse raw_signer)) (\<lambda>signer.
     bind_res (optional_part (wml_fee wire) (convert_match_fee (mr_string rd) prefix)) (\<lambda>fee.
       Inr \<lparr>ml_quote_type = quote, ml_amount = amount, ml_price = price, ml_outcome = outcome,
            ml_signer = signer, ml_fee = fee\<rparr>))))))))))"

definition convert_best_quote ::
    "(string \<Rightarrow> string option) \<Rightarrow> wire_best_quote \<Rightarrow> nat \<Rightarrow> string \<Rightarrow> best_quote result" where
  "convert_best_quote read wire prec field =
     require (wbq_price wire) (missing (field @ ''.price'')) (\<lambda>raw_price.
     require (wbq_size wire) (missing (field @ ''.size'')) (\<lambda>raw_size.
     bind_res (parse_price_raw read raw_price prec (field @ ''.price'')) (\<lambda>price.
     bind_res (parse_decimal_raw read raw_size (field @ ''.size'')) (\<lambda>size.
     guard_res (fd_units size = 0) (mk_error invalid_quantity ''quote size must be positive'' (field @ ''.size''))
       (Inr \<lparr>bq_price = price, bq_size = size\<rparr>)))))"

definition optional_within :: "decode_limits \<Rightarrow> string option \<Rightarrow> bool" where
  "optional_within limits v = (case v of None \<Rightarrow> True | Some s \<Rightarrow> string_within_limit s limits)"

definition convert_crypto_variant ::
    "(string \<Rightarrow> string option) \<Rightarrow> wire_variant_data option \<Rightarrow> decode_limits \<Rightarrow> string \<Rightarrow> crypto_up_down option result" where
  "convert_crypto_variant read wire limits field =
     (case wire of
        None \<Rightarrow> Inr None
      | Some w \<Rightarrow>
          (case wvd_type w of
             None \<Rightarrow> Inr None
           | Some ty \<Rightarrow>
               if ty \<noteq> ''CRYPTO_UP_DOWN'' then Inr None
               else
                 guard_res (\<not> (string_within_limit ty limits \<and> optional_within limits (wvd_price_feed_provider w) \<and>
                     optional_within limits (wvd_price_feed_symbol w) \<and> optional_within limits (wvd_price_feed_id w)))
                   (invalid ''crypto variant string exceeds configured limit'' field) (
                 bind_res (optional_part (wvd_start_price w) (\<lambda>raw. parse_decimal_raw read raw (field @ ''.startPrice''))) (\<lambda>start.
                 bind_res (optional_part (wvd_end_price w) (\<lambda>raw. parse_decimal_raw read raw (field @ ''.endPrice''))) (\<lambda>stop.
                   Inr (Some \<lparr>cu_type = ty, cu_price_feed_provider = wvd_price_feed_provider w,
                     cu_price_feed_symbol = wvd_price_feed_symbol w, cu_price_feed_id = wvd_price_feed_id w,
                     cu_start_price = start, cu_end_price = stop\<rparr>))))))"

definition convert_reward_period :: "wire_reward_period \<Rightarrow> decode_limits \<Rightarrow> string \<Rightarrow> reward_period result" where
  "convert_reward_period wire limits prefix =
     require (wrp_hourly_rate wire) (missing (prefix @ ''.hourlyRate'')) (\<lambda>rate.
     require (wrp_starts_at wire) (missing (prefix @ ''.startsAt'')) (\<lambda>starts.
     require (wrp_ends_at wire) (missing (prefix @ ''.endsAt'')) (\<lambda>ends.
     guard_res (\<not> string_within_limit starts limits \<or> \<not> string_within_limit ends limits)
       (invalid ''reward period string exceeds configured limit'' prefix)
       (Inr \<lparr>rp_hourly_rate = rate, rp_starts_at = starts, rp_ends_at = ends\<rparr>))))"

text \<open>The loops over a list of the wire, with the index of the element.\<close>

fun convert_each :: "(nat \<Rightarrow> 'w \<Rightarrow> 'a result) \<Rightarrow> nat \<Rightarrow> 'w list \<Rightarrow> 'a list result" where
  "convert_each f i [] = Inr []"
| "convert_each f i (w # ws) =
     bind_res (f i w) (\<lambda>a. bind_res (convert_each f (Suc i) ws) (\<lambda>as. Inr (a # as)))"

definition indexed :: "string \<Rightarrow> nat \<Rightarrow> string" where
  "indexed prefix i = prefix @ ''['' @ to_string i @ '']''"

definition convert_rewards :: "wire_market_rewards \<Rightarrow> decode_limits \<Rightarrow> string \<Rightarrow> market_rewards result" where
  "convert_rewards wire limits prefix =
     bind_res (optional_part (wmr_current wire) (\<lambda>w. convert_reward_period w limits (prefix @ ''.current''))) (\<lambda>current.
     bind_res (optional_part (wmr_schedule wire) (\<lambda>schedule.
         guard_res (length schedule > dl_max_reward_periods limits)
           (mk_error too_many_items ''reward schedule exceeds configured item limit'' (prefix @ ''.schedule''))
           (convert_each (\<lambda>i w. convert_reward_period w limits (indexed (prefix @ ''.schedule'') i)) 0 schedule))) (\<lambda>schedule.
       Inr \<lparr>mw_current = current, mw_schedule = (case schedule of None \<Rightarrow> [] | Some ps \<Rightarrow> ps)\<rparr>))"

definition convert_outcome ::
    "(string \<Rightarrow> string option) \<Rightarrow> wire_outcome \<Rightarrow> nat \<Rightarrow> decode_limits \<Rightarrow> string \<Rightarrow> market_outcome result" where
  "convert_outcome read wire prec limits prefix =
     require (wou_name wire) (missing (prefix @ ''.name'')) (\<lambda>name.
     require (wou_index_set wire) (missing (prefix @ ''.indexSet'')) (\<lambda>index_set.
     require (wou_on_chain_id wire) (missing (prefix @ ''.onChainId'')) (\<lambda>on_chain.
     guard_res (\<not> string_within_limit name limits \<or> \<not> string_within_limit on_chain limits)
       (invalid ''outcome string exceeds configured limit'' prefix) (
     bind_res (optional_part (wou_best_bid wire) (\<lambda>q. convert_best_quote read q prec (prefix @ ''.bestBid''))) (\<lambda>bid.
     bind_res (optional_part (wou_best_ask wire) (\<lambda>q. convert_best_quote read q prec (prefix @ ''.bestAsk''))) (\<lambda>ask.
     bind_res (bounded_raw_json (wou_team wire) limits (prefix @ ''.team'')) (\<lambda>team.
     bind_res (bounded_raw_json (wou_variant_data wire) limits (prefix @ ''.variantData'')) (\<lambda>variant.
     bind_res (bounded_raw_json (wou_variant_details wire) limits (prefix @ ''.variantDetails'')) (\<lambda>details.
       Inr \<lparr>oc_name = name, oc_index_set = index_set, oc_on_chain_id = on_chain, oc_best_bid = bid, oc_best_ask = ask,
            oc_status = map_option parse_outcome_status (wou_status wire), oc_team_json = team,
            oc_variant_data_json = variant, oc_variant_details_json = details\<rparr>)))))))))"

definition market_strings_valid :: "wire_market \<Rightarrow> string \<Rightarrow> string \<Rightarrow> string \<Rightarrow> string \<Rightarrow> decode_limits \<Rightarrow> bool" where
  "market_strings_valid wire title question trading status limits \<longleftrightarrow>
     string_within_limit title limits \<and> string_within_limit question limits \<and>
     optional_within limits (wmk_image_url wire) \<and> optional_within limits (wmk_description wire) \<and>
     optional_within limits (wmk_condition_id wire) \<and> string_within_limit trading limits \<and>
     string_within_limit status limits \<and> optional_within limits (wmk_oracle_question_id wire) \<and>
     optional_within limits (wmk_resolver_address wire) \<and> optional_within limits (wmk_boost_starts_at wire) \<and>
     optional_within limits (wmk_boost_ends_at wire) \<and> optional_within limits (wmk_kalshi_market_ticker wire) \<and>
     optional_within limits (wmk_category_slug wire) \<and> optional_within limits (wmk_created_at wire) \<and>
     optional_within limits (wmk_market_variant wire) \<and> optional_within limits (wmk_market_type wire)"

definition convert_market :: "(string \<Rightarrow> string option) \<Rightarrow> wire_market \<Rightarrow> decode_limits \<Rightarrow> market result" where
  "convert_market read wire limits =
     require (wmk_id wire) (missing ''data[].id'') (\<lambda>market_id.
     require (wmk_title wire) (missing ''data[].title'') (\<lambda>title.
     require (wmk_question wire) (missing ''data[].question'') (\<lambda>question.
     require (wmk_trading_status wire) (missing ''data[].tradingStatus'') (\<lambda>trading.
     require (wmk_status wire) (missing ''data[].status'') (\<lambda>status.
     require (wmk_decimal_precision wire) (missing ''data[].decimalPrecision'') (\<lambda>prec.
     require (wmk_is_neg_risk wire) (missing ''data[].isNegRisk'') (\<lambda>neg_risk.
     require (wmk_is_yield_bearing wire) (missing ''data[].isYieldBearing'') (\<lambda>yield_bearing.
     require (wmk_fee_rate_bps wire) (missing ''data[].feeRateBps'') (\<lambda>fee.
     require (wmk_outcomes wire) (missing ''data[].outcomes'') (\<lambda>wire_outcomes.
     guard_res (prec > max_scale)
       (mk_error unsupported_precision ''market precision exceeds 18 digits'' ''data[].decimalPrecision'') (
     guard_res (length wire_outcomes > dl_max_outcomes_per_market limits)
       (mk_error too_many_items ''market contains too many outcomes'' ''data[].outcomes'') (
     guard_res (case wmk_polymarket_condition_ids wire of None \<Rightarrow> False
                | Some ids \<Rightarrow> length ids > dl_max_polymarket_condition_ids limits)
       (mk_error too_many_items ''market contains too many Polymarket condition ids'' ''data[].polymarketConditionIds'') (
     guard_res (\<not> market_strings_valid wire title question trading status limits)
       (invalid ''market string exceeds configured limit'' ''data[]'') (
     guard_res (case wmk_polymarket_condition_ids wire of None \<Rightarrow> False
                | Some ids \<Rightarrow> list_ex (\<lambda>s. \<not> string_within_limit s limits) ids)
       (invalid ''Polymarket condition id exceeds configured limit'' ''data[].polymarketConditionIds'') (
     bind_res (convert_crypto_variant read (wmk_variant_data wire) limits ''data[].variantData'') (\<lambda>variant.
     bind_res (optional_part (wmk_spread_threshold wire) (\<lambda>raw. parse_exact_raw read raw ''data[].spreadThreshold'')) (\<lambda>spread.
     bind_res (optional_part (wmk_share_threshold wire) (\<lambda>raw. parse_exact_raw read raw ''data[].shareThreshold'')) (\<lambda>share.
     bind_res (optional_part (wmk_rewards wire) (\<lambda>w. convert_rewards w limits ''data[].rewards'')) (\<lambda>rewards.
     bind_res (optional_part (wmk_stats wire) (\<lambda>w. convert_market_statistics read w ''data[].stats'')) (\<lambda>stats.
     bind_res (bounded_raw_json (wmk_team wire) limits ''data[].team'') (\<lambda>team.
     bind_res (bounded_raw_json (wmk_variant_details wire) limits ''data[].variantDetails'') (\<lambda>details.
     bind_res (optional_part (wmk_resolution wire) (\<lambda>w. convert_outcome read w prec limits ''data[].resolution'')) (\<lambda>resolution.
     bind_res (convert_each (\<lambda>i w. convert_outcome read w prec limits (indexed ''data[].outcomes'' i)) 0 wire_outcomes) (\<lambda>outcomes.
       Inr \<lparr>mk_id = market_id, mk_title = title, mk_question = question, mk_condition_id = wmk_condition_id wire,
         mk_question_index = wmk_question_index wire, mk_trading_status = parse_trading_status trading,
         mk_status = parse_market_status status, mk_decimal_precision = prec, mk_is_neg_risk = neg_risk,
         mk_is_yield_bearing = yield_bearing, mk_fee_rate_bps = fee, mk_category_slug = wmk_category_slug wire,
         mk_created_at = wmk_created_at wire, mk_market_variant = wmk_market_variant wire,
         mk_crypto_up_down = variant, mk_outcomes = outcomes, mk_image_url = wmk_image_url wire,
         mk_description = wmk_description wire, mk_is_visible = wmk_is_visible wire, mk_resolution = resolution,
         mk_oracle_question_id = wmk_oracle_question_id wire, mk_resolver_address = wmk_resolver_address wire,
         mk_spread_threshold = spread, mk_share_threshold = share, mk_is_boosted = wmk_is_boosted wire,
         mk_boost_starts_at = wmk_boost_starts_at wire, mk_boost_ends_at = wmk_boost_ends_at wire,
         mk_polymarket_condition_ids = (case wmk_polymarket_condition_ids wire of None \<Rightarrow> [] | Some ids \<Rightarrow> ids),
         mk_kalshi_market_ticker = wmk_kalshi_market_ticker wire, mk_market_type = wmk_market_type wire,
         mk_rewards = rewards, mk_stats = stats, mk_team_json = team, mk_variant_details_json = details\<rparr>
     ))))))))))))))))))))))))"

definition convert_tag :: "wire_tag \<Rightarrow> decode_limits \<Rightarrow> string \<Rightarrow> tag result" where
  "convert_tag wire limits prefix =
     require (wtg_id wire) (missing (prefix @ ''.id'')) (\<lambda>tag_id.
     require (wtg_name wire) (missing (prefix @ ''.name'')) (\<lambda>name.
     guard_res (\<not> string_within_limit tag_id limits \<or> \<not> string_within_limit name limits \<or>
                \<not> optional_within limits (wtg_parent_id wire))
       (invalid ''tag string exceeds configured limit'' prefix)
       (Inr \<lparr>tg_id = tag_id, tg_name = name, tg_level = wtg_level wire, tg_parent_id = wtg_parent_id wire,
             tg_maker_rebate_bps = wtg_maker_rebate_bps wire\<rparr>)))"

definition category_strings_valid :: "wire_category \<Rightarrow> string \<Rightarrow> string \<Rightarrow> decode_limits \<Rightarrow> bool" where
  "category_strings_valid wire slug title limits \<longleftrightarrow>
     string_within_limit slug limits \<and> string_within_limit title limits \<and>
     list_all (optional_within limits)
       [wct_short_title wire, wct_description wire, wct_image_url wire, wct_starts_at wire, wct_ends_at wire,
        wct_created_at wire, wct_published_at wire, wct_market_variant wire, wct_neg_risk_on_chain_id wire,
        wct_resolution_provider wire, wct_parent_slug wire]"

definition convert_category :: "(string \<Rightarrow> string option) \<Rightarrow> wire_category \<Rightarrow> decode_limits \<Rightarrow> category result" where
  "convert_category read wire limits =
     require (wct_id wire) (missing ''data[].id'') (\<lambda>category_id.
     require (wct_slug wire) (missing ''data[].slug'') (\<lambda>slug.
     require (wct_title wire) (missing ''data[].title'') (\<lambda>title.
     require (wct_is_neg_risk wire) (missing ''data[].isNegRisk'') (\<lambda>neg_risk.
     require (wct_is_yield_bearing wire) (missing ''data[].isYieldBearing'') (\<lambda>yield_bearing.
     require (wct_is_visible wire) (missing ''data[].isVisible'') (\<lambda>visible.
     require (wct_status wire) (missing ''data[].status'') (\<lambda>status.
     guard_res (case wct_markets wire of None \<Rightarrow> False | Some ms \<Rightarrow> length ms > dl_max_markets limits)
       (mk_error too_many_items ''category contains too many markets'' ''data[].markets'') (
     guard_res (case wct_tags wire of None \<Rightarrow> False | Some ts \<Rightarrow> length ts > dl_max_tags limits)
       (mk_error too_many_items ''category contains too many tags'' ''data[].tags'') (
     guard_res (\<not> category_strings_valid wire slug title limits)
       (invalid ''category string exceeds configured limit'' ''data[]'') (
     bind_res (convert_crypto_variant read (wct_variant_data wire) limits ''data[].variantData'') (\<lambda>variant.
     bind_res (optional_part (wct_stats wire) (\<lambda>w. convert_category_statistics read w ''data[].stats'')) (\<lambda>stats.
     bind_res (bounded_raw_json (wct_teams wire) limits ''data[].teams'') (\<lambda>teams.
     bind_res (bounded_raw_json (wct_variant_details wire) limits ''data[].variantDetails'') (\<lambda>details.
     bind_res (convert_each (\<lambda>i w. convert_tag w limits (indexed ''data[].tags'' i)) 0
         (case wct_tags wire of None \<Rightarrow> [] | Some ts \<Rightarrow> ts)) (\<lambda>tags.
     bind_res (convert_each (\<lambda>_ w. convert_market read w limits) 0
         (case wct_markets wire of None \<Rightarrow> [] | Some ms \<Rightarrow> ms)) (\<lambda>markets.
       Inr \<lparr>ct_id = category_id, ct_slug = slug, ct_title = title, ct_short_title = wct_short_title wire,
         ct_description = wct_description wire, ct_image_url = wct_image_url wire, ct_starts_at = wct_starts_at wire,
         ct_ends_at = wct_ends_at wire, ct_created_at = wct_created_at wire, ct_published_at = wct_published_at wire,
         ct_market_variant = wct_market_variant wire, ct_neg_risk_on_chain_id = wct_neg_risk_on_chain_id wire,
         ct_crypto_up_down = variant, ct_is_neg_risk = neg_risk, ct_is_yield_bearing = yield_bearing,
         ct_is_visible = visible, ct_status = parse_category_status status, ct_tags = tags, ct_markets = markets,
         ct_resolution_provider = wct_resolution_provider wire, ct_parent_slug = wct_parent_slug wire,
         ct_stats = stats, ct_teams_json = teams, ct_variant_details_json = details\<rparr>))))))))))))))))"

definition convert_timeseries_point ::
    "(string \<Rightarrow> string option) \<Rightarrow> wire_timeseries_point \<Rightarrow> string \<Rightarrow> timeseries_point result" where
  "convert_timeseries_point read wire prefix =
     require (wtp_x wire) (missing (prefix @ ''.x'')) (\<lambda>raw_x.
     require (wtp_y wire) (missing (prefix @ ''.y'')) (\<lambda>raw_y.
     bind_res (parse_decimal_raw read raw_x (prefix @ ''.x'')) (\<lambda>x.
     guard_res (fd_scale x \<noteq> 0 \<or> fd_units x > 2 ^ 63 - 1)
       (invalid ''timeseries x must be a non-negative integer'' (prefix @ ''.x'')) (
     bind_res (parse_decimal_raw read raw_y (prefix @ ''.y'')) (\<lambda>y.
       Inr \<lparr>tp_timestamp_ms = int (fd_units x), tp_value = y\<rparr>)))))"

section \<open>Responses\<close>

text \<open>What every response goes through: it must report success and have data.\<close>

definition accepted_response :: "('d, 'm) wire_response_scheme \<Rightarrow> ('d \<Rightarrow> 'a result) \<Rightarrow> 'a result" where
  "accepted_response wire k =
     require (wres_success wire) (missing ''success'') (\<lambda>success.
     guard_res (\<not> success) (mk_error venue_rejected ''Predict.fun returned success=false'' ''success'') (
     require (wres_data wire) (missing ''data'') k))"

definition decode_markets_response :: "market_reader \<Rightarrow> string \<Rightarrow> decode_limits \<Rightarrow> markets_page result" where
  "decode_markets_response rd json limits =
     bind_res (parse_wire (mr_markets rd) body_error json limits) (\<lambda>wire.
     accepted_response wire (\<lambda>data.
     guard_res (length data > dl_max_markets limits)
       (mk_error too_many_items ''market page exceeds configured item limit'' ''data'') (
     bind_res (convert_each (\<lambda>_ w. convert_market (mr_string rd) w limits) 0 data) (\<lambda>markets.
       Inr \<lparr>mp_cursor = wres_cursor wire, mp_markets = markets\<rparr>))))"

definition decode_market_response :: "market_reader \<Rightarrow> string \<Rightarrow> decode_limits \<Rightarrow> market result" where
  "decode_market_response rd json limits =
     bind_res (parse_wire (mr_market rd) body_error json limits) (\<lambda>wire.
     accepted_response wire (\<lambda>data. convert_market (mr_string rd) data limits))"

definition decode_categories_response :: "market_reader \<Rightarrow> string \<Rightarrow> decode_limits \<Rightarrow> categories_page result" where
  "decode_categories_response rd json limits =
     bind_res (parse_wire (mr_categories rd) body_error json limits) (\<lambda>wire.
     accepted_response wire (\<lambda>data.
     guard_res (length data > dl_max_categories limits)
       (mk_error too_many_items ''category page exceeds configured item limit'' ''data'') (
     bind_res (convert_each (\<lambda>_ w. convert_category (mr_string rd) w limits) 0 data) (\<lambda>categories.
       Inr \<lparr>cp_cursor = wres_cursor wire, cp_categories = categories\<rparr>))))"

definition decode_category_response :: "market_reader \<Rightarrow> string \<Rightarrow> decode_limits \<Rightarrow> category result" where
  "decode_category_response rd json limits =
     bind_res (parse_wire (mr_category rd) body_error json limits) (\<lambda>wire.
     accepted_response wire (\<lambda>data. convert_category (mr_string rd) data limits))"

text \<open>The loop over the series: \<open>previous\<close> is the last timestamp.\<close>

fun convert_series ::
    "(string \<Rightarrow> string option) \<Rightarrow> int \<Rightarrow> nat \<Rightarrow> wire_timeseries_point list \<Rightarrow> timeseries_point list result" where
  "convert_series read previous i [] = Inr []"
| "convert_series read previous i (w # ws) =
     bind_res (convert_timeseries_point read w (indexed ''data.series'' i)) (\<lambda>point.
     guard_res (tp_timestamp_ms point \<le> previous)
       (mk_error invalid_field ''timeseries timestamps must be strictly increasing'' ''data.series'') (
     bind_res (convert_series read (tp_timestamp_ms point) (Suc i) ws) (\<lambda>points. Inr (point # points))))"

definition decode_timeseries_response :: "market_reader \<Rightarrow> string \<Rightarrow> decode_limits \<Rightarrow> timeseries_page result" where
  "decode_timeseries_response rd json limits =
     bind_res (parse_wire (mr_timeseries rd) body_error json limits) (\<lambda>wire.
     accepted_response wire (\<lambda>data.
     require (wtd_resolution data) (missing ''data.resolution'') (\<lambda>resolution.
     require (wtd_series data) (missing ''data.series'') (\<lambda>series.
     guard_res (\<not> string_within_limit resolution limits)
       (invalid ''timeseries resolution exceeds configured limit'' ''data.resolution'') (
     guard_res (length series > dl_max_timeseries_points limits)
       (mk_error too_many_items ''timeseries exceeds configured point limit'' ''data.series'') (
     bind_res (convert_series (mr_string rd) (-1) 0 series) (\<lambda>points.
       Inr \<lparr>tsp_cursor = wres_cursor wire, tsp_resolution = resolution, tsp_points = points\<rparr>)))))))"

definition decode_latest_timeseries_response :: "market_reader \<Rightarrow> string \<Rightarrow> decode_limits \<Rightarrow> timeseries_point result" where
  "decode_latest_timeseries_response rd json limits =
     bind_res (parse_wire (mr_timeseries_latest rd) body_error json limits) (\<lambda>wire.
     accepted_response wire (\<lambda>data. convert_timeseries_point (mr_string rd) data ''data''))"

definition market_envelope :: "raw_json \<Rightarrow> string" where
  "market_envelope raw = ''{'' @ jq ''success'' @ '':true,'' @ jq ''data'' @ '':'' @ raw @ ''}''"

definition convert_match :: "market_reader \<Rightarrow> decode_limits \<Rightarrow> nat \<Rightarrow> wire_match \<Rightarrow> match_event result" where
  "convert_match rd limits index item =
     (let prefix = indexed ''data'' index in
     require (wma_market item) (missing (prefix @ ''.market'')) (\<lambda>raw_market.
     require (wma_taker item) (missing (prefix @ ''.taker'')) (\<lambda>wire_taker.
     require (wma_amount_filled item) (missing (prefix @ ''.amountFilled'')) (\<lambda>raw_amount.
     require (wma_price_executed item) (missing (prefix @ ''.priceExecuted'')) (\<lambda>raw_price.
     require (wma_makers item) (missing (prefix @ ''.makers'')) (\<lambda>wire_makers.
     require (wma_transaction_hash item) (missing (prefix @ ''.transactionHash'')) (\<lambda>hash.
     require (wma_executed_at item) (missing (prefix @ ''.executedAt'')) (\<lambda>executed_at.
     guard_res (length wire_makers > dl_max_makers_per_match limits)
       (mk_error too_many_items ''too many maker legs'' (prefix @ ''.makers'')) (
     bind_res (decode_market_response rd (market_envelope raw_market) limits) (\<lambda>mkt.
     bind_res (convert_match_leg rd wire_taker (prefix @ ''.taker'')) (\<lambda>taker.
     bind_res (parse_exact_raw (mr_string rd) raw_amount (prefix @ ''.amountFilled'')) (\<lambda>amount.
     bind_res (parse_exact_raw (mr_string rd) raw_price (prefix @ ''.priceExecuted'')) (\<lambda>price.
     bind_res (convert_each (\<lambda>i w. convert_match_leg rd w (indexed (prefix @ ''.makers'') i)) 0 wire_makers) (\<lambda>makers.
       Inr \<lparr>me_market = mkt, me_taker = taker, me_amount_filled = amount, me_price_executed = price,
            me_makers = makers, me_transaction_hash = hash, me_executed_at = executed_at\<rparr>))))))))))))))"

definition decode_matches_response :: "market_reader \<Rightarrow> string \<Rightarrow> decode_limits \<Rightarrow> matches_page result" where
  "decode_matches_response rd json limits =
     bind_res (parse_wire (mr_matches rd) body_error json limits) (\<lambda>wire.
     accepted_response wire (\<lambda>data.
     guard_res (length data > dl_max_matches limits)
       (mk_error too_many_items ''match page exceeds configured item limit'' ''data'') (
     bind_res (convert_each (convert_match rd limits) 0 data) (\<lambda>matches.
       Inr \<lparr>mtp_cursor = wres_cursor wire, mtp_matches = matches\<rparr>))))"

definition decode_tags_response :: "market_reader \<Rightarrow> string \<Rightarrow> decode_limits \<Rightarrow> tag list result" where
  "decode_tags_response rd json limits =
     bind_res (parse_wire (mr_tags rd) body_error json limits) (\<lambda>wire.
     accepted_response wire (\<lambda>data.
     guard_res (length data > dl_max_tags limits)
       (mk_error too_many_items ''tag list exceeds configured item limit'' ''data'') (
     convert_each (\<lambda>i w. convert_tag w limits (indexed ''data'' i)) 0 data)))"

definition decode_market_statistics_response :: "market_reader \<Rightarrow> string \<Rightarrow> decode_limits \<Rightarrow> market_statistics result" where
  "decode_market_statistics_response rd json limits =
     bind_res (parse_wire (mr_statistics rd) body_error json limits) (\<lambda>wire.
     accepted_response wire (\<lambda>data. convert_market_statistics (mr_string rd) data ''data''))"

definition decode_market_last_sale_response :: "market_reader \<Rightarrow> string \<Rightarrow> decode_limits \<Rightarrow> market_last_sale option result" where
  "decode_market_last_sale_response rd json limits =
     bind_res (parse_wire (mr_last_sale_response rd) body_error json limits) (\<lambda>wire.
     require (wlr_success wire) (missing ''success'') (\<lambda>success.
     guard_res (\<not> success) (mk_error venue_rejected ''Predict.fun returned success=false'' ''success'') (
     guard_res (wlr_data wire = []) (missing ''data'') (
     if take 4 (skip_space (wlr_data wire)) = ''null'' then Inr None
     else case mr_last_sale rd (wlr_data wire) of
       Inl _ \<Rightarrow> Inl (invalid ''last sale contains malformed JSON'' ''data'')
     | Inr sale \<Rightarrow>
         require (wls_quote_type sale) (missing ''data.quoteType'') (\<lambda>quote.
         require (wls_outcome sale) (missing ''data.outcome'') (\<lambda>outcome.
         require (wls_price_in_currency sale) (missing ''data.priceInCurrency'') (\<lambda>raw.
         require (wls_strategy sale) (missing ''data.strategy'') (\<lambda>strategy.
         guard_res (\<not> string_within_limit quote limits \<or> \<not> string_within_limit outcome limits \<or>
                    \<not> string_within_limit strategy limits)
           (invalid ''last sale string exceeds configured limit'' ''data'') (
         bind_res (parse_exact_raw (mr_string rd) raw ''data.priceInCurrency'') (\<lambda>price.
           Inr (Some \<lparr>mls_quote_type = parse_last_sale_quote_type quote, mls_outcome = parse_last_sale_outcome outcome,
                      mls_price_in_currency = price, mls_strategy = parse_last_sale_strategy strategy\<rparr>)))))))))))"

definition decode_search_response :: "market_reader \<Rightarrow> string \<Rightarrow> decode_limits \<Rightarrow> search_results result" where
  "decode_search_response rd json limits =
     bind_res (parse_wire (mr_search rd) body_error json limits) (\<lambda>wire.
     accepted_response wire (\<lambda>data.
     require (wsd_categories data) (missing ''data.categories'') (\<lambda>wire_categories.
     require (wsd_markets data) (missing ''data.markets'') (\<lambda>wire_markets.
     guard_res (length wire_categories > dl_max_search_results_per_type limits)
       (mk_error too_many_items ''search category results exceed configured item limit'' ''data.categories'') (
     guard_res (length wire_markets > dl_max_search_results_per_type limits)
       (mk_error too_many_items ''search market results exceed configured item limit'' ''data.markets'') (
     bind_res (convert_each (\<lambda>_ w. convert_category (mr_string rd) w limits) 0 wire_categories) (\<lambda>categories.
     bind_res (convert_each (\<lambda>_ w. convert_market (mr_string rd) w limits) 0 wire_markets) (\<lambda>markets.
       Inr \<lparr>sr_categories = categories, sr_markets = markets\<rparr>))))))))"

section \<open>What a decoded value satisfies\<close>

lemma convert_each_eq_Inr:
  "convert_each f i ws = Inr as \<longleftrightarrow> length as = length ws \<and> (\<forall>k<length ws. f (i + k) (ws ! k) = Inr (as ! k))"
proof (induction ws arbitrary: i as)
  case (Cons w ws)
  have split: "(\<forall>k<Suc n. P k) \<longleftrightarrow> P 0 \<and> (\<forall>k<n. P (Suc k))" for n and P :: "nat \<Rightarrow> bool"
    by (auto simp: less_Suc_eq_0_disj)
  show ?case
    by (cases as) (auto simp: res_simps Cons.IH split)
qed auto

lemma convert_each_all:
  assumes "convert_each f i ws = Inr as" and "\<And>i w a. f i w = Inr a \<Longrightarrow> P a"
  shows "list_all P as" and "length as = length ws"
  using assms by (auto simp: convert_each_eq_Inr list_all_length)

text \<open>Elimination of a chain of fallible steps, one premise per step.\<close>

lemma chainE:
  "bind_res r f = Inr y \<Longrightarrow> (\<And>x. r = Inr x \<Longrightarrow> f x = Inr y \<Longrightarrow> P) \<Longrightarrow> P"
  "guard_res c e q = Inr y \<Longrightarrow> (\<not> c \<Longrightarrow> q = Inr y \<Longrightarrow> P) \<Longrightarrow> P"
  "require x e g = Inr y \<Longrightarrow> (\<And>v. x = Some v \<Longrightarrow> g v = Inr y \<Longrightarrow> P) \<Longrightarrow> P"
  by (auto simp: res_simps)

definition quote_valid :: "nat \<Rightarrow> best_quote \<Rightarrow> bool" where
  "quote_valid prec q \<longleftrightarrow> price_wf (bq_price q) \<and> pr_precision (bq_price q) = prec \<and> fd_wf (bq_size q) \<and>
     0 < fd_units (bq_size q)"

definition text_valid :: "decode_limits \<Rightarrow> string \<Rightarrow> bool" where
  "text_valid limits s \<longleftrightarrow> length s \<le> dl_max_string_bytes limits"

definition embedded_valid :: "decode_limits \<Rightarrow> string \<Rightarrow> bool" where
  "embedded_valid limits s \<longleftrightarrow> length s \<le> dl_max_embedded_json_bytes limits"

definition outcome_valid :: "nat \<Rightarrow> decode_limits \<Rightarrow> market_outcome \<Rightarrow> bool" where
  "outcome_valid prec limits oc \<longleftrightarrow> text_valid limits (oc_name oc) \<and> text_valid limits (oc_on_chain_id oc) \<and>
     pred_option (quote_valid prec) (oc_best_bid oc) \<and> pred_option (quote_valid prec) (oc_best_ask oc) \<and>
     pred_option (embedded_valid limits) (oc_team_json oc) \<and>
     pred_option (embedded_valid limits) (oc_variant_data_json oc) \<and>
     pred_option (embedded_valid limits) (oc_variant_details_json oc)"

definition statistics_valid :: "market_statistics \<Rightarrow> bool" where
  "statistics_valid s \<longleftrightarrow> exact_wf (ms_total_liquidity_usd s) \<and> exact_wf (ms_volume_total_usd s) \<and>
     exact_wf (ms_volume_24h_usd s) \<and> pred_option exact_wf (ms_liquidity_3c_ask_usd s)"

definition category_statistics_valid :: "category_statistics \<Rightarrow> bool" where
  "category_statistics_valid s \<longleftrightarrow> exact_wf (cs_total_liquidity_usd s) \<and> exact_wf (cs_volume_total_usd s) \<and>
     exact_wf (cs_volume_24h_usd s)"

definition period_valid :: "decode_limits \<Rightarrow> reward_period \<Rightarrow> bool" where
  "period_valid limits r \<longleftrightarrow> text_valid limits (rp_starts_at r) \<and> text_valid limits (rp_ends_at r)"

definition rewards_valid :: "decode_limits \<Rightarrow> market_rewards \<Rightarrow> bool" where
  "rewards_valid limits r \<longleftrightarrow> pred_option (period_valid limits) (mw_current r) \<and>
     length (mw_schedule r) \<le> dl_max_reward_periods limits \<and> list_all (period_valid limits) (mw_schedule r)"

definition crypto_valid :: "decode_limits \<Rightarrow> crypto_up_down \<Rightarrow> bool" where
  "crypto_valid limits v \<longleftrightarrow> text_valid limits (cu_type v) \<and> pred_option (text_valid limits) (cu_price_feed_provider v) \<and>
     pred_option (text_valid limits) (cu_price_feed_symbol v) \<and> pred_option (text_valid limits) (cu_price_feed_id v) \<and>
     pred_option fd_wf (cu_start_price v) \<and> pred_option fd_wf (cu_end_price v)"

definition tag_valid :: "decode_limits \<Rightarrow> tag \<Rightarrow> bool" where
  "tag_valid limits t \<longleftrightarrow> text_valid limits (tg_id t) \<and> text_valid limits (tg_name t) \<and>
     pred_option (text_valid limits) (tg_parent_id t)"

text \<open>The texts of a market and of a category that the decoder bounds, the optional ones after the required ones.\<close>

definition market_texts :: "market \<Rightarrow> string list" where
  "market_texts m = [mk_title m, mk_question m, ev_raw (mk_trading_status m), ev_raw (mk_status m)]"

definition market_optional_texts :: "market \<Rightarrow> string option list" where
  "market_optional_texts m =
     [mk_image_url m, mk_description m, mk_condition_id m, mk_oracle_question_id m, mk_resolver_address m,
      mk_boost_starts_at m, mk_boost_ends_at m, mk_kalshi_market_ticker m, mk_category_slug m, mk_created_at m,
      mk_market_variant m, mk_market_type m]"

definition category_optional_texts :: "category \<Rightarrow> string option list" where
  "category_optional_texts c =
     [ct_short_title c, ct_description c, ct_image_url c, ct_starts_at c, ct_ends_at c, ct_created_at c, ct_published_at c,
      ct_market_variant c, ct_neg_risk_on_chain_id c, ct_resolution_provider c, ct_parent_slug c]"

definition market_valid :: "decode_limits \<Rightarrow> market \<Rightarrow> bool" where
  "market_valid limits m \<longleftrightarrow> mk_decimal_precision m \<le> max_scale \<and>
     length (mk_outcomes m) \<le> dl_max_outcomes_per_market limits \<and>
     list_all (outcome_valid (mk_decimal_precision m) limits) (mk_outcomes m) \<and>
     pred_option (outcome_valid (mk_decimal_precision m) limits) (mk_resolution m) \<and>
     list_all (text_valid limits) (market_texts m) \<and>
     list_all (pred_option (text_valid limits)) (market_optional_texts m) \<and>
     pred_option (crypto_valid limits) (mk_crypto_up_down m) \<and>
     length (mk_polymarket_condition_ids m) \<le> dl_max_polymarket_condition_ids limits \<and>
     list_all (text_valid limits) (mk_polymarket_condition_ids m) \<and>
     pred_option exact_wf (mk_spread_threshold m) \<and> pred_option exact_wf (mk_share_threshold m) \<and>
     pred_option (rewards_valid limits) (mk_rewards m) \<and> pred_option statistics_valid (mk_stats m) \<and>
     pred_option (embedded_valid limits) (mk_team_json m) \<and> pred_option (embedded_valid limits) (mk_variant_details_json m)"

definition category_valid :: "decode_limits \<Rightarrow> category \<Rightarrow> bool" where
  "category_valid limits c \<longleftrightarrow> length (ct_markets c) \<le> dl_max_markets limits \<and> list_all (market_valid limits) (ct_markets c) \<and>
     length (ct_tags c) \<le> dl_max_tags limits \<and> list_all (tag_valid limits) (ct_tags c) \<and>
     text_valid limits (ct_slug c) \<and> text_valid limits (ct_title c) \<and>
     list_all (pred_option (text_valid limits)) (category_optional_texts c) \<and>
     pred_option (crypto_valid limits) (ct_crypto_up_down c) \<and> pred_option category_statistics_valid (ct_stats c) \<and>
     pred_option (embedded_valid limits) (ct_teams_json c) \<and> pred_option (embedded_valid limits) (ct_variant_details_json c)"

definition leg_valid :: "match_order_leg \<Rightarrow> bool" where
  "leg_valid l \<longleftrightarrow> exact_wf (ml_amount l) \<and> exact_wf (ml_price l) \<and> evm_wf (ml_signer l) \<and> \<not> evm_empty (ml_signer l) \<and>
     pred_option uint256_wf (po_on_chain_id (ml_outcome l)) \<and> pred_option (\<lambda>f. exact_wf (mf_amount f)) (ml_fee l)"

definition match_valid :: "decode_limits \<Rightarrow> match_event \<Rightarrow> bool" where
  "match_valid limits e \<longleftrightarrow> market_valid limits (me_market e) \<and> leg_valid (me_taker e) \<and> list_all leg_valid (me_makers e) \<and>
     length (me_makers e) \<le> dl_max_makers_per_match limits \<and> exact_wf (me_amount_filled e) \<and> exact_wf (me_price_executed e)"

lemma optional_part_pred:
  assumes "optional_part x f = Inr y" and "\<And>v w. f v = Inr w \<Longrightarrow> P w"
  shows "pred_option P y"
  using assms by (cases x) (auto simp: optional_part_def res_simps)

lemma parse_exact_raw_wf: "parse_exact_raw read raw f = Inr d \<Longrightarrow> exact_wf d"
  by (auto simp: parse_exact_raw_def dest: exact_parse_wf)

lemma bounded_raw_json_valid: "bounded_raw_json raw limits f = Inr t \<Longrightarrow> pred_option (embedded_valid limits) t"
  by (auto simp: bounded_raw_json_def embedded_valid_def res_simps split: option.splits if_splits)

lemma convert_best_quote_valid: "convert_best_quote read w prec f = Inr q \<Longrightarrow> quote_valid prec q"
  by (auto simp: convert_best_quote_def parse_price_raw_def parse_decimal_raw_def res_simps quote_valid_def
      dest: price_parse_wf fixed_decimal_parse_wf)

lemma convert_market_statistics_valid: "convert_market_statistics read w p = Inr s \<Longrightarrow> statistics_valid s"
  by (auto simp: convert_market_statistics_def res_simps statistics_valid_def dest: parse_exact_raw_wf)

lemma convert_category_statistics_valid: "convert_category_statistics read w p = Inr s \<Longrightarrow> category_statistics_valid s"
  by (auto simp: convert_category_statistics_def res_simps category_statistics_valid_def dest: parse_exact_raw_wf)

lemma string_within_text: "string_within_limit s limits = text_valid limits s"
  by (simp add: string_within_limit_def text_valid_def)

lemma optional_within_text: "optional_within limits = pred_option (text_valid limits)"
  by (auto simp: fun_eq_iff optional_within_def string_within_text split: option.split)

lemma convert_reward_period_valid: "convert_reward_period w limits p = Inr r \<Longrightarrow> period_valid limits r"
  by (auto simp: convert_reward_period_def res_simps period_valid_def string_within_text)

lemma convert_each_length: "convert_each f i ws = Inr as \<Longrightarrow> length as = length ws"
  by (simp add: convert_each_eq_Inr)

lemma reward_schedule_valid:
  assumes "optional_part x (\<lambda>ws. guard_res (length ws > dl_max_reward_periods limits) e
             (convert_each (\<lambda>i w. convert_reward_period w limits (p i)) 0 ws)) = Inr y"
  shows "pred_option (\<lambda>ps. length ps \<le> dl_max_reward_periods limits \<and> list_all (period_valid limits) ps) y"
  by (rule optional_part_pred [OF assms])
    (auto elim!: chainE dest: convert_each_length convert_each_all(1) [OF _ convert_reward_period_valid])

lemma convert_rewards_valid: "convert_rewards w limits p = Inr r \<Longrightarrow> rewards_valid limits r"
  unfolding convert_rewards_def
  by (elim chainE, drule Inr_inject, hypsubst, drule reward_schedule_valid)
    (auto simp: rewards_valid_def elim!: optional_part_pred dest: convert_reward_period_valid split: option.split)

lemma parse_decimal_raw_wf: "parse_decimal_raw read raw f = Inr d \<Longrightarrow> fd_wf d"
  by (auto simp: parse_decimal_raw_def dest: fixed_decimal_parse_wf)

lemma optional_decimal: "optional_part x (\<lambda>raw. parse_decimal_raw read raw f) = Inr y \<Longrightarrow> pred_option fd_wf y"
  using optional_part_pred parse_decimal_raw_wf by blast

lemma convert_crypto_variant_valid:
  "convert_crypto_variant read w limits f = Inr v \<Longrightarrow> pred_option (crypto_valid limits) v"
  unfolding convert_crypto_variant_def
  by (auto elim!: chainE simp: crypto_valid_def string_within_text optional_within_text
      split: option.splits if_splits intro: optional_decimal)

lemma convert_tag_valid: "convert_tag w limits p = Inr t \<Longrightarrow> tag_valid limits t"
  by (auto simp: convert_tag_def res_simps tag_valid_def string_within_text optional_within_text)

lemma optional_quote: "optional_part x (\<lambda>q. convert_best_quote read q prec f) = Inr y \<Longrightarrow> pred_option (quote_valid prec) y"
  using optional_part_pred convert_best_quote_valid by blast

lemma convert_outcome_valid: "convert_outcome read w prec limits p = Inr oc \<Longrightarrow> outcome_valid prec limits oc"
  unfolding convert_outcome_def
  by (elim chainE, drule Inr_inject, hypsubst)
    (simp add: outcome_valid_def text_valid_def string_within_limit_def optional_quote bounded_raw_json_valid)

lemma optional_exact: "optional_part x (\<lambda>raw. parse_exact_raw read raw f) = Inr y \<Longrightarrow> pred_option exact_wf y"
  using optional_part_pred parse_exact_raw_wf by blast

lemma optional_outcome:
  "optional_part x (\<lambda>w. convert_outcome read w prec limits p) = Inr y \<Longrightarrow> pred_option (outcome_valid prec limits) y"
  using optional_part_pred convert_outcome_valid by blast

lemma optional_rewards: "optional_part x (\<lambda>w. convert_rewards w limits p) = Inr y \<Longrightarrow> pred_option (rewards_valid limits) y"
  using optional_part_pred convert_rewards_valid by blast

lemma optional_statistics:
  "optional_part x (\<lambda>w. convert_market_statistics read w p) = Inr y \<Longrightarrow> pred_option statistics_valid y"
  using optional_part_pred convert_market_statistics_valid by blast

lemma outcomes_valid:
  "convert_each (\<lambda>i w. convert_outcome read w prec limits (p i)) n ws = Inr as \<Longrightarrow>
     list_all (outcome_valid prec limits) as \<and> length as = length ws"
  using convert_each_all [where P = "outcome_valid prec limits"] convert_outcome_valid by blast

lemmas optional_valid = optional_exact optional_outcome optional_rewards optional_statistics outcomes_valid
  bounded_raw_json_valid

lemma condition_ids_valid:
  "\<not> (case ids of None \<Rightarrow> False | Some ids \<Rightarrow> length ids > n) \<Longrightarrow>
   \<not> (case ids of None \<Rightarrow> False | Some ids \<Rightarrow> list_ex (\<lambda>s. \<not> string_within_limit s limits) ids) \<Longrightarrow>
   length (case ids of None \<Rightarrow> [] | Some ids \<Rightarrow> ids) \<le> n \<and>
   list_all (text_valid limits) (case ids of None \<Rightarrow> [] | Some ids \<Rightarrow> ids)"
  by (auto simp: list_all_iff list_ex_iff text_valid_def string_within_limit_def split: option.splits)

lemma parse_status_raw: "ev_raw (parse_trading_status raw) = raw" "ev_raw (parse_market_status raw) = raw"
  by (simp_all add: parse_trading_status_def parse_market_status_def)

lemma convert_market_valid: "convert_market read w limits = Inr m \<Longrightarrow> market_valid limits m"
  unfolding convert_market_def
  by (elim chainE, drule Inr_inject, hypsubst, drule (1) condition_ids_valid)
    (simp add: market_valid_def market_texts_def market_optional_texts_def optional_valid market_strings_valid_def
      string_within_text optional_within_text convert_crypto_variant_valid parse_status_raw)

lemma markets_valid:
  "convert_each (\<lambda>i w. convert_market read w limits) n ws = Inr ms \<Longrightarrow> list_all (market_valid limits) ms \<and> length ms = length ws"
  using convert_each_all [where P = "market_valid limits"] convert_market_valid by blast

lemma optional_category_statistics:
  "optional_part x (\<lambda>w. convert_category_statistics read w p) = Inr y \<Longrightarrow> pred_option category_statistics_valid y"
  using optional_part_pred convert_category_statistics_valid by blast

lemma tags_valid:
  "convert_each (\<lambda>i w. convert_tag w limits (p i)) n ws = Inr ts \<Longrightarrow> list_all (tag_valid limits) ts \<and> length ts = length ws"
  using convert_each_all [where P = "tag_valid limits"] convert_tag_valid by blast

lemma convert_category_valid: "convert_category read w limits = Inr c \<Longrightarrow> category_valid limits c"
  unfolding convert_category_def
  by (elim chainE, drule Inr_inject, hypsubst)
    (simp add: category_valid_def category_optional_texts_def markets_valid tags_valid category_strings_valid_def
      string_within_text optional_within_text bounded_raw_json_valid optional_category_statistics
      convert_crypto_variant_valid split: option.splits)

lemma categories_valid:
  "convert_each (\<lambda>i w. convert_category read w limits) n ws = Inr cs \<Longrightarrow> list_all (category_valid limits) cs \<and> length cs = length ws"
  using convert_each_all [where P = "category_valid limits"] convert_category_valid by blast

subsection \<open>Matches\<close>

lemma convert_private_outcome_valid: "convert_private_outcome rd raw p = Inr oc \<Longrightarrow> pred_option uint256_wf (po_on_chain_id oc)"
  by (auto simp: convert_private_outcome_def res_simps dest: uint256_parse_wf split: sum.splits)

lemma optional_fee: "optional_part x (convert_match_fee read p) = Inr y \<Longrightarrow> pred_option (\<lambda>f. exact_wf (mf_amount f)) y"
  by (erule optional_part_pred) (auto simp: convert_match_fee_def res_simps dest: parse_exact_raw_wf)

lemma signer_valid: "with_field f (evm_parse t) = Inr a \<Longrightarrow> evm_wf a \<and> \<not> evm_empty a"
  by (auto simp: evm_parse_Inr evm_wf_def dest: length_hex_pairs)

lemma convert_match_leg_valid: "convert_match_leg rd w p = Inr l \<Longrightarrow> leg_valid l"
  unfolding convert_match_leg_def
  by (elim chainE, drule Inr_inject, hypsubst)
    (simp only: leg_valid_def match_order_leg.simps parse_exact_raw_wf convert_private_outcome_valid optional_fee signer_valid simp_thms)

lemma accepted_response_eq_Inr:
  "accepted_response w k = Inr y \<longleftrightarrow> wres_success w = Some True \<and> (\<exists>d. wres_data w = Some d \<and> k d = Inr y)"
  by (auto simp: accepted_response_def res_simps)

lemma accepted_responseE:
  "accepted_response w k = Inr y \<Longrightarrow> (\<And>d. wres_success w = Some True \<Longrightarrow> wres_data w = Some d \<Longrightarrow> k d = Inr y \<Longrightarrow> P) \<Longrightarrow> P"
  by (auto simp: accepted_response_eq_Inr)

lemma decode_market_response_valid: "decode_market_response rd json limits = Inr m \<Longrightarrow> market_valid limits m"
  unfolding decode_market_response_def by (elim chainE accepted_responseE) (rule convert_market_valid)

lemma makers_valid:
  "convert_each (\<lambda>i w. convert_match_leg rd w (p i)) n ws = Inr ls \<Longrightarrow> list_all leg_valid ls \<and> length ls = length ws"
  using convert_each_all [where P = leg_valid] convert_match_leg_valid by blast

lemma convert_match_valid: "convert_match rd limits i w = Inr e \<Longrightarrow> match_valid limits e"
  unfolding convert_match_def Let_def
  by (elim chainE, drule Inr_inject, hypsubst)
    (simp add: match_valid_def decode_market_response_valid convert_match_leg_valid makers_valid parse_exact_raw_wf)

lemma matches_valid:
  "convert_each (convert_match rd limits) n ws = Inr es \<Longrightarrow> list_all (match_valid limits) es \<and> length es = length ws"
  using convert_each_all [where P = "match_valid limits"] convert_match_valid by blast

subsection \<open>Time series\<close>

text \<open>The point that a pair of the wire denotes: an integral timestamp and a decimal.\<close>

definition denotes_point :: "(string \<Rightarrow> string option) \<Rightarrow> wire_timeseries_point \<Rightarrow> timeseries_point \<Rightarrow> bool" where
  "denotes_point read w p \<longleftrightarrow> (\<exists>x y. wtp_x w = Some x \<and> wtp_y w = Some y \<and> 0 \<le> tp_timestamp_ms p \<and> tp_timestamp_ms p < 2 ^ 63 \<and>
     fixed_decimal_parse (unquote_raw read x) = Inr \<lparr>fd_units = nat (tp_timestamp_ms p), fd_scale = 0\<rparr> \<and>
     fixed_decimal_parse (unquote_raw read y) = Inr (tp_value p))"

lemma convert_timeseries_point_iff: "convert_timeseries_point read w prefix = Inr p \<longleftrightarrow> denotes_point read w p"
proof
  assume "convert_timeseries_point read w prefix = Inr p"
  then show "denotes_point read w p"
    unfolding convert_timeseries_point_def
  proof (elim chainE)
    fix x y dx dy
    assume "wtp_x w = Some x" "wtp_y w = Some y" "parse_decimal_raw read x (prefix @ ''.x'') = Inr dx"
      "\<not> (fd_scale dx \<noteq> 0 \<or> fd_units dx > 2 ^ 63 - 1)" "parse_decimal_raw read y (prefix @ ''.y'') = Inr dy"
      "Inr \<lparr>tp_timestamp_ms = int (fd_units dx), tp_value = dy\<rparr> = Inr p"
    then show "denotes_point read w p"
      by (cases dx) (auto simp: denotes_point_def parse_decimal_raw_def)
  qed
next
  assume "denotes_point read w p"
  then obtain x y where "wtp_x w = Some x" "wtp_y w = Some y" "0 \<le> tp_timestamp_ms p" "tp_timestamp_ms p < 2 ^ 63"
    "fixed_decimal_parse (unquote_raw read x) = Inr \<lparr>fd_units = nat (tp_timestamp_ms p), fd_scale = 0\<rparr>"
    "fixed_decimal_parse (unquote_raw read y) = Inr (tp_value p)"
    unfolding denotes_point_def by blast
  then show "convert_timeseries_point read w prefix = Inr p"
    by (cases p) (simp add: convert_timeseries_point_def parse_decimal_raw_def with_field_def)
qed

lemma convert_series_iff:
  "convert_series read previous i ws = Inr ps \<longleftrightarrow>
   list_all2 (denotes_point read) ws ps \<and> sorted_wrt (<) (previous # map tp_timestamp_ms ps)"
proof (induction ws arbitrary: previous i ps)
  case (Cons w ws)
  show ?case
    by (cases ps) (auto simp: res_simps Cons.IH convert_timeseries_point_iff)
qed auto

section \<open>Properties\<close>

text \<open>
  C31. Every decoded market is within the limits and well formed, wherever it comes from. When the decoder of a
  page of markets, of one market, of a category or a page of them, of search results or of matches
  succeeds, the lists are within their limits and every market has a precision of at most 18 digits,
  best quotes that are prices at exactly that precision with a positive size, and thresholds and
  statistics that are plain decimals. The texts that the decoder bounds are within the limit: the
  sixteen texts of a market (\<open>market_texts\<close>, \<open>market_optional_texts\<close>), its condition ids, the name and
  on-chain id of an outcome, the times of the reward periods, the texts of a crypto variant, the slug,
  title and eleven optional texts of a category and the texts of its tags; so is the embedded JSON of
  markets, outcomes and categories. Every leg of a match has a nonzero signer and plain decimals. The
  decoder sets no limit of its own on the status of an outcome or of a category, on the quote type, fee
  type and outcome name of a match leg, nor on a match's transaction hash and time; nothing is stated
  of these.
\<close>

theorem decoded_markets_valid:
  "(decode_markets_response rd json limits = Inr page \<longrightarrow>
      length (mp_markets page) \<le> dl_max_markets limits \<and> list_all (market_valid limits) (mp_markets page)) \<and>
   (decode_market_response rd json limits = Inr m \<longrightarrow> market_valid limits m) \<and>
   (decode_categories_response rd json limits = Inr cats \<longrightarrow>
      length (cp_categories cats) \<le> dl_max_categories limits \<and> list_all (category_valid limits) (cp_categories cats)) \<and>
   (decode_category_response rd json limits = Inr c \<longrightarrow> category_valid limits c) \<and>
   (decode_search_response rd json limits = Inr found \<longrightarrow>
      length (sr_markets found) \<le> dl_max_search_results_per_type limits \<and> list_all (market_valid limits) (sr_markets found) \<and>
      length (sr_categories found) \<le> dl_max_search_results_per_type limits \<and>
      list_all (category_valid limits) (sr_categories found)) \<and>
   (decode_matches_response rd json limits = Inr matches \<longrightarrow>
      length (mtp_matches matches) \<le> dl_max_matches limits \<and> list_all (match_valid limits) (mtp_matches matches))"
proof (intro conjI impI)
  assume "decode_markets_response rd json limits = Inr page"
  then show "length (mp_markets page) \<le> dl_max_markets limits" "list_all (market_valid limits) (mp_markets page)"
    unfolding decode_markets_response_def by (elim chainE accepted_responseE; force dest: markets_valid)+
next
  assume "decode_market_response rd json limits = Inr m"
  then show "market_valid limits m"
    by (rule decode_market_response_valid)
next
  assume "decode_categories_response rd json limits = Inr cats"
  then show "length (cp_categories cats) \<le> dl_max_categories limits" "list_all (category_valid limits) (cp_categories cats)"
    unfolding decode_categories_response_def by (elim chainE accepted_responseE; force dest: categories_valid)+
next
  assume "decode_category_response rd json limits = Inr c"
  then show "category_valid limits c"
    unfolding decode_category_response_def by (elim chainE accepted_responseE) (rule convert_category_valid)
next
  assume "decode_search_response rd json limits = Inr found"
  then show "length (sr_markets found) \<le> dl_max_search_results_per_type limits"
    "list_all (market_valid limits) (sr_markets found)"
    "length (sr_categories found) \<le> dl_max_search_results_per_type limits"
    "list_all (category_valid limits) (sr_categories found)"
    unfolding decode_search_response_def
    by (elim chainE accepted_responseE; force dest: categories_valid markets_valid)+
next
  assume "decode_matches_response rd json limits = Inr matches"
  then show "length (mtp_matches matches) \<le> dl_max_matches limits" "list_all (match_valid limits) (mtp_matches matches)"
    unfolding decode_matches_response_def by (elim chainE accepted_responseE; force dest: matches_valid)+
qed

text \<open>
  A decoded time series is exactly the series of the response: the decoder succeeds if and only if the body
  is within its limit and reads as a successful response whose resolution and length are within
  the limits, each pair denotes a point with an integral timestamp below 2^63, and the timestamps
  are strictly increasing from zero on; the result then has these points in order.
\<close>

theorem timeseries_decoded_exact:
  "decode_timeseries_response rd json limits = Inr page \<longleftrightarrow>
     length json \<le> dl_max_body_bytes limits \<and>
     (\<exists>wire data series. mr_timeseries rd json = Inr wire \<and> wres_success wire = Some True \<and> wres_data wire = Some data \<and>
        wtd_series data = Some series \<and> length series \<le> dl_max_timeseries_points limits \<and>
        wtd_resolution data = Some (tsp_resolution page) \<and>
        length (tsp_resolution page) \<le> dl_max_string_bytes limits \<and> tsp_cursor page = wres_cursor wire \<and>
        list_all2 (denotes_point (mr_string rd)) series (tsp_points page) \<and>
        sorted_wrt (<) (map tp_timestamp_ms (tsp_points page)))"
proof -
  have "- 1 < tp_timestamp_ms p" if "list_all2 (denotes_point read) ws ps" "p \<in> set ps" for read ws ps p
    using that by (induction rule: list_all2_induct) (auto simp: denotes_point_def)
  then show ?thesis
    unfolding decode_timeseries_response_def
    by (cases page) (auto simp: res_simps accepted_response_eq_Inr convert_series_iff string_within_limit_def)
qed

text \<open>
  The two decoders of a market's lifecycle status differ: on PRICE_PROPOSED, PRICE_DISPUTED, PAUSED and
  UNPAUSED the REST decoder gives the documented state and the WebSocket decoder gives unknown; on
  every other text they agree.
\<close>

theorem market_status_decoders_differ:
  "parse_market_status raw = ws_market_status raw \<longleftrightarrow>
     raw \<notin> {''PRICE_PROPOSED'', ''PRICE_DISPUTED'', ''PAUSED'', ''UNPAUSED''}"
  by (auto simp: parse_market_status_def ws_market_status_def)

text \<open>A market of the wire with two outcomes, and a reader that returns it.\<close>

definition sample_wire_outcome :: "string \<Rightarrow> wire_outcome" where
  "sample_wire_outcome name = \<lparr>wou_best_ask = Some \<lparr>wbq_price = Some ''0.62'', wbq_size = Some ''12.5''\<rparr>, wou_best_bid = None,
     wou_index_set = Some 1, wou_name = Some name, wou_on_chain_id = Some ''77'', wou_status = None, wou_team = None,
     wou_variant_data = Some ''null'', wou_variant_details = Some ''{}''\<rparr>"

definition sample_wire_market :: wire_market where
  "sample_wire_market =
     \<lparr>wmk_id = Some 7, wmk_image_url = None, wmk_title = Some ''T'', wmk_question = Some ''Q'', wmk_description = None,
      wmk_condition_id = None, wmk_question_index = None, wmk_trading_status = Some ''OPEN'', wmk_status = Some ''PAUSED'',
      wmk_is_visible = None, wmk_decimal_precision = Some 2, wmk_is_neg_risk = Some False, wmk_is_yield_bearing = Some False,
      wmk_fee_rate_bps = Some 200, wmk_resolution = None, wmk_oracle_question_id = None, wmk_category_slug = None,
      wmk_resolver_address = None, wmk_spread_threshold = Some ''0.06'', wmk_share_threshold = None, wmk_is_boosted = None,
      wmk_boost_starts_at = None, wmk_boost_ends_at = None, wmk_polymarket_condition_ids = None,
      wmk_kalshi_market_ticker = None, wmk_created_at = None, wmk_market_variant = None, wmk_variant_data = None,
      wmk_variant_details = None, wmk_team = None, wmk_market_type = None, wmk_rewards = None, wmk_stats = None,
      wmk_outcomes = Some [sample_wire_outcome ''Yes'', sample_wire_outcome ''No'']\<rparr>"

definition sample_point :: "string \<Rightarrow> wire_timeseries_point" where
  "sample_point x = \<lparr>wtp_x = Some x, wtp_y = Some ''0.5''\<rparr>"

definition sample_market_reader :: market_reader where
  "sample_market_reader =
     \<lparr>mr_string = (\<lambda>_. None),
      mr_markets = (\<lambda>_. Inr \<lparr>wres_data = Some [sample_wire_market], wres_success = Some True, wres_cursor = None\<rparr>),
      mr_market = (\<lambda>_. Inr \<lparr>wres_data = Some sample_wire_market, wres_success = Some True\<rparr>),
      mr_categories = (\<lambda>_. Inl ''''), mr_category = (\<lambda>_. Inl ''''),
      mr_timeseries = (\<lambda>_. Inr \<lparr>wres_data = Some \<lparr>wtd_resolution = Some ''1h'', wtd_series = Some [sample_point ''10'', sample_point ''20'']\<rparr>,
         wres_success = Some True, wres_cursor = None\<rparr>),
      mr_timeseries_latest = (\<lambda>_. Inl ''''), mr_matches = (\<lambda>_. Inl ''''), mr_tags = (\<lambda>_. Inl ''''),
      mr_statistics = (\<lambda>_. Inl ''''), mr_last_sale_response = (\<lambda>_. Inl ''''), mr_last_sale = (\<lambda>_. Inl ''''),
      mr_search = (\<lambda>_. Inl ''''), mr_private_outcome = (\<lambda>_. Inl '''')\<rparr>"

theorem decoded_markets_valid_witness:
  "\<exists>page. decode_markets_response sample_market_reader ''{}'' default_limits = Inr page \<and>
     map mk_id (mp_markets page) = [7] \<and> list_all (market_valid default_limits) (mp_markets page)"
proof -
  have ok: "is_ok (decode_markets_response sample_market_reader ''{}'' default_limits)"
    and ids: "(case decode_markets_response sample_market_reader ''{}'' default_limits of Inr page \<Rightarrow> map mk_id (mp_markets page) = [7] | _ \<Rightarrow> False)"
    by code_simp+
  then obtain page where page: "decode_markets_response sample_market_reader ''{}'' default_limits = Inr page"
    by (auto simp: is_ok_iff)
  then show ?thesis
    using ids decoded_markets_valid [THEN conjunct1, THEN mp, OF page] by simp
qed

lemma sample_timeseries_decodes:
  "decode_timeseries_response sample_market_reader ''{}'' default_limits =
     Inr \<lparr>tsp_cursor = None, tsp_resolution = ''1h'',
          tsp_points = [\<lparr>tp_timestamp_ms = 10, tp_value = \<lparr>fd_units = 5, fd_scale = 1\<rparr>\<rparr>,
                        \<lparr>tp_timestamp_ms = 20, tp_value = \<lparr>fd_units = 5, fd_scale = 1\<rparr>\<rparr>]\<rparr>"
  by code_simp

end
