(* ===== verification/Private_Codec.thy ===== *)
theory Private_Codec
  imports Market_Codec Lifecycle
begin

text \<open>
  \<^verbatim>\<open>src/private_codec.cpp\<close>: the decoding of the account, positions, orders, activity and referral answers of
  the private REST endpoints, with the remaining types of \<^verbatim>\<open>types/private_rest.hpp\<close>. The reads of the JSON
  package are the fields of \<open>private_reader\<close>; a failed read carries no text, as the code drops it.
\<close>

section \<open>Data\<close>

record referral_info =
  ri_code :: string
  ri_status :: string

record points_info =
  pi_total :: exact_decimal
  pi_rank :: "nat option"

record account =
  ac_name :: string
  ac_address :: evm_address
  ac_image_url :: "string option"
  ac_referral :: "referral_info option"
  ac_points :: "points_info option"

record position =
  ps_id :: string
  ps_market :: market
  ps_outcome :: private_outcome
  ps_amount :: exact_decimal
  ps_value_usd :: exact_decimal
  ps_average_buy_price_usd :: exact_decimal
  ps_pnl_usd :: exact_decimal

record positions_page =
  pp_cursor :: "string option"
  pp_positions :: "position list"

record activity_fee =
  af_amount :: exact_decimal
  af_type :: string

record activity_order =
  ao_quote_type :: string
  ao_amount :: exact_decimal
  ao_price :: exact_decimal
  ao_fee :: "activity_fee option"

record activity_event =
  ae_name :: string
  ae_created_at :: string
  ae_transaction_hash :: "string option"
  ae_amount_filled :: "exact_decimal option"
  ae_price_executed :: "exact_decimal option"
  ae_order :: "activity_order option"
  ae_market :: "market option"
  ae_outcome :: "private_outcome option"

record activity_page =
  ap_cursor :: "string option"
  ap_events :: "activity_event list"

section \<open>Wire structures\<close>

record wire_referral =
  wrf_code :: "string option"
  wrf_status :: "string option"

record wire_points =
  wpt_total :: "raw_json option"
  wpt_rank :: "nat option"

record wire_account =
  wac_name :: "string option"
  wac_address :: "string option"
  wac_image_url :: "string option"
  wac_referral :: "wire_referral option"
  wac_points :: "wire_points option"

record wire_position =
  wps_id :: "string option"
  wps_market :: "raw_json option"
  wps_outcome :: "wire_private_outcome option"
  wps_amount :: "raw_json option"
  wps_value_usd :: "raw_json option"
  wps_average_buy_price_usd :: "raw_json option"
  wps_pnl_usd :: "raw_json option"

record wire_contract_order =
  wco_hash :: "string option"
  wco_salt :: "raw_json option"
  wco_maker :: "string option"
  wco_signer :: "string option"
  wco_taker :: "string option"
  wco_token_id :: "raw_json option"
  wco_maker_amount :: "raw_json option"
  wco_taker_amount :: "raw_json option"
  wco_expiration :: "raw_json option"
  wco_nonce :: "raw_json option"
  wco_fee_rate_bps :: "raw_json option"
  wco_side :: "nat option"
  wco_signature_type :: "nat option"
  wco_signature :: "string option"

record wire_order_record =
  wor_order :: "wire_contract_order option"
  wor_id :: "string option"
  wor_market_id :: "nat option"
  wor_currency :: "string option"
  wor_amount :: "raw_json option"
  wor_amount_filled :: "raw_json option"
  wor_is_neg_risk :: "bool option"
  wor_is_yield_bearing :: "bool option"
  wor_strategy :: "string option"
  wor_status :: "string option"
  wor_reward_earning_rate :: "raw_json option"

record wire_activity_order =
  wao_quote_type :: "string option"
  wao_amount :: "raw_json option"
  wao_price :: "raw_json option"
  wao_fee :: "wire_match_fee option"

record wire_activity =
  wae_name :: "string option"
  wae_created_at :: "string option"
  wae_transaction_hash :: "string option"
  wae_amount_filled :: "raw_json option"
  wae_price_executed :: "raw_json option"
  wae_order :: "wire_activity_order option"
  wae_market :: "raw_json option"
  wae_outcome :: "wire_private_outcome option"

text \<open>\<open>pr_markets\<close> is the reader that \<^verbatim>\<open>decode_market_response\<close> uses on an embedded market.\<close>

record private_reader =
  prd_string :: "string \<Rightarrow> string option"
  prd_referral :: "string \<Rightarrow> bool option option"
  prd_account :: "string \<Rightarrow> wire_account wire_response option"
  prd_positions :: "string \<Rightarrow> wire_position list wire_page option"
  prd_orders :: "string \<Rightarrow> wire_order_record list wire_page option"
  prd_order :: "string \<Rightarrow> wire_order_record wire_response option"
  prd_activity :: "string \<Rightarrow> wire_activity list wire_page option"
  prd_markets :: market_reader

section \<open>Conversions\<close>

definition parse_private_body :: "(string \<Rightarrow> 'w option) \<Rightarrow> string \<Rightarrow> decode_limits \<Rightarrow> 'w result" where
  "parse_private_body read json limits =
     (if length json > dl_max_body_bytes limits
      then Inl (mk_error body_too_large ''response exceeds configured body limit'' '''')
      else case read json of
        None \<Rightarrow> Inl (mk_error malformed_json ''Predict.fun response contains malformed JSON'' '''')
      | Some w \<Rightarrow> Inr w)"

definition raw_scalar :: "(string \<Rightarrow> string option) \<Rightarrow> raw_json \<Rightarrow> string \<Rightarrow> string result" where
  "raw_scalar read raw field =
     (if quoted raw
      then (case read raw of None \<Rightarrow> Inl (invalid ''invalid quoted numeric value'' field) | Some v \<Rightarrow> Inr v)
      else Inr raw)"

definition private_exact :: "(string \<Rightarrow> string option) \<Rightarrow> raw_json \<Rightarrow> string \<Rightarrow> exact_decimal result" where
  "private_exact read raw field =
     bind_res (raw_scalar read raw field) (\<lambda>t. with_field field (exact_parse t))"

definition private_uint256 :: "(string \<Rightarrow> string option) \<Rightarrow> raw_json \<Rightarrow> string \<Rightarrow> uint256 result" where
  "private_uint256 read raw field =
     bind_res (raw_scalar read raw field) (\<lambda>t. with_field field (uint256_parse t))"

definition private_market :: "market_reader \<Rightarrow> raw_json \<Rightarrow> decode_limits \<Rightarrow> market result" where
  "private_market rd raw limits = decode_market_response rd (market_envelope raw) limits"

definition private_outcome_of :: "(string \<Rightarrow> string option) \<Rightarrow> wire_private_outcome \<Rightarrow> string \<Rightarrow> private_outcome result" where
  "private_outcome_of read wire prefix =
     bind_res (optional_part (wpo_on_chain_id wire) (\<lambda>raw. private_uint256 read raw (prefix @ ''.onChainId''))) (\<lambda>on_chain.
       Inr \<lparr>po_name = wpo_name wire, po_index_set = wpo_index_set wire, po_on_chain_id = on_chain\<rparr>)"

definition order_strategy_of :: "string \<Rightarrow> order_strategy enum_value" where
  "order_strategy_of raw =
     (if raw = ''MARKET'' then \<lparr>ev_value = strategy_market, ev_raw = raw\<rparr>
      else if raw = ''LIMIT'' then \<lparr>ev_value = strategy_limit, ev_raw = raw\<rparr>
      else \<lparr>ev_value = strategy_unknown, ev_raw = raw\<rparr>)"

definition order_status_of :: "string \<Rightarrow> order_status enum_value" where
  "order_status_of raw =
     (if raw = ''OPEN'' then \<lparr>ev_value = status_open, ev_raw = raw\<rparr>
      else if raw = ''MATCHED'' \<or> raw = ''FILLED'' then \<lparr>ev_value = status_matched, ev_raw = raw\<rparr>
      else if raw = ''CANCELLED'' \<or> raw = ''CANCELED'' then \<lparr>ev_value = status_cancelled, ev_raw = raw\<rparr>
      else if raw = ''EXPIRED'' then \<lparr>ev_value = status_expired, ev_raw = raw\<rparr>
      else if raw = ''INVALIDATED'' then \<lparr>ev_value = status_invalidated, ev_raw = raw\<rparr>
      else if raw = ''FAILED'' \<or> raw = ''REJECTED'' then \<lparr>ev_value = status_failed, ev_raw = raw\<rparr>
      else \<lparr>ev_value = status_unknown, ev_raw = raw\<rparr>)"

definition zero_taker :: string where
  "zero_taker = ''0x0000000000000000000000000000000000000000''"

definition contract_order_of :: "(string \<Rightarrow> string option) \<Rightarrow> wire_contract_order \<Rightarrow> string \<Rightarrow> contract_order result" where
  "contract_order_of read wire prefix =
     require (wco_hash wire) (missing (prefix @ ''.hash'')) (\<lambda>hash.
     require (wco_salt wire) (missing (prefix @ ''.salt'')) (\<lambda>raw_salt.
     require (wco_maker wire) (missing (prefix @ ''.maker'')) (\<lambda>raw_maker.
     require (wco_signer wire) (missing (prefix @ ''.signer'')) (\<lambda>raw_signer.
     require (wco_taker wire) (missing (prefix @ ''.taker'')) (\<lambda>raw_taker.
     require (wco_token_id wire) (missing (prefix @ ''.tokenId'')) (\<lambda>raw_token.
     require (wco_maker_amount wire) (missing (prefix @ ''.makerAmount'')) (\<lambda>raw_maker_amount.
     require (wco_taker_amount wire) (missing (prefix @ ''.takerAmount'')) (\<lambda>raw_taker_amount.
     require (wco_expiration wire) (missing (prefix @ ''.expiration'')) (\<lambda>raw_expiration.
     require (wco_nonce wire) (missing (prefix @ ''.nonce'')) (\<lambda>raw_nonce.
     require (wco_fee_rate_bps wire) (missing (prefix @ ''.feeRateBps'')) (\<lambda>raw_fee.
     require (wco_side wire) (missing (prefix @ ''.side'')) (\<lambda>side.
     require (wco_signature_type wire) (missing (prefix @ ''.signatureType'')) (\<lambda>signature_kind.
     require (wco_signature wire) (missing (prefix @ ''.signature'')) (\<lambda>signature.
     bind_res (private_uint256 read raw_salt (prefix @ ''.salt'')) (\<lambda>salt.
     bind_res (with_field (prefix @ ''.maker'') (evm_parse raw_maker)) (\<lambda>maker.
     bind_res (with_field (prefix @ ''.signer'') (evm_parse raw_signer)) (\<lambda>signer.
     bind_res (private_uint256 read raw_token (prefix @ ''.tokenId'')) (\<lambda>token.
     bind_res (private_uint256 read raw_maker_amount (prefix @ ''.makerAmount'')) (\<lambda>maker_amount.
     bind_res (private_uint256 read raw_taker_amount (prefix @ ''.takerAmount'')) (\<lambda>taker_amount.
     bind_res (private_uint256 read raw_expiration (prefix @ ''.expiration'')) (\<lambda>expiration.
     bind_res (private_uint256 read raw_nonce (prefix @ ''.nonce'')) (\<lambda>nonce.
     bind_res (private_uint256 read raw_fee (prefix @ ''.feeRateBps'')) (\<lambda>fee.
     bind_res (if raw_taker \<noteq> zero_taker
               then bind_res (with_field (prefix @ ''.taker'') (evm_parse raw_taker)) (\<lambda>a. Inr (Some a))
               else Inr None) (\<lambda>taker.
       Inr \<lparr>co_hash = hash, co_salt = salt, co_maker = maker, co_signer = signer, co_taker = taker, co_token_id = token,
         co_maker_amount = maker_amount, co_taker_amount = taker_amount, co_expiration = expiration, co_nonce = nonce,
         co_fee_rate_bps = fee,
         co_side = \<lparr>ev_value = (if side = 0 then side_buy else if side = 1 then side_sell else side_unknown),
                    ev_raw = to_string side\<rparr>,
         co_signature_type = \<lparr>ev_value = (if signature_kind = 0 then sig_eoa else if signature_kind = 1 then sig_poly_proxy
             else if signature_kind = 2 then sig_poly_gnosis_safe else sig_unknown), ev_raw = to_string signature_kind\<rparr>,
         co_signature = signature\<rparr>))))))))))))))))))))))))"

definition order_record_of :: "(string \<Rightarrow> string option) \<Rightarrow> wire_order_record \<Rightarrow> string \<Rightarrow> order_record result" where
  "order_record_of read item prefix =
     require (wor_order item) (missing (prefix @ ''.order'')) (\<lambda>wire_order.
     require (wor_id item) (missing (prefix @ ''.id'')) (\<lambda>order_id.
     require (wor_market_id item) (missing (prefix @ ''.marketId'')) (\<lambda>market_id.
     require (wor_currency item) (missing (prefix @ ''.currency'')) (\<lambda>currency.
     require (wor_amount item) (missing (prefix @ ''.amount'')) (\<lambda>raw_amount.
     require (wor_amount_filled item) (missing (prefix @ ''.amountFilled'')) (\<lambda>raw_filled.
     require (wor_is_neg_risk item) (missing (prefix @ ''.isNegRisk'')) (\<lambda>neg_risk.
     require (wor_is_yield_bearing item) (missing (prefix @ ''.isYieldBearing'')) (\<lambda>yield_bearing.
     require (wor_strategy item) (missing (prefix @ ''.strategy'')) (\<lambda>strategy.
     require (wor_status item) (missing (prefix @ ''.status'')) (\<lambda>status.
     require (wor_reward_earning_rate item) (missing (prefix @ ''.rewardEarningRate'')) (\<lambda>raw_reward.
     bind_res (contract_order_of read wire_order (prefix @ ''.order'')) (\<lambda>contract.
     bind_res (private_exact read raw_amount (prefix @ ''.amount'')) (\<lambda>amount.
     bind_res (private_exact read raw_filled (prefix @ ''.amountFilled'')) (\<lambda>filled_amount.
     bind_res (private_exact read raw_reward (prefix @ ''.rewardEarningRate'')) (\<lambda>reward.
       Inr \<lparr>or_order = contract, or_id = order_id, or_market_id = market_id, or_currency = currency, or_amount = amount,
         or_amount_filled = filled_amount, or_is_neg_risk = neg_risk, or_is_yield_bearing = yield_bearing,
         or_strategy = order_strategy_of strategy, or_status = order_status_of status,
         or_reward_earning_rate = reward\<rparr>)))))))))))))))"

section \<open>Responses\<close>

definition decode_referral_response :: "private_reader \<Rightarrow> string \<Rightarrow> decode_limits \<Rightarrow> bool result" where
  "decode_referral_response rd json limits =
     bind_res (parse_private_body (prd_referral rd) json limits) (\<lambda>wire.
     require wire (missing ''success'') (\<lambda>success.
     guard_res (\<not> success) (invalid ''Predict.fun rejected the referral assignment'' ''success'') (Inr True)))"

definition accepted_private :: "('d, 'm) wire_response_scheme \<Rightarrow> ('d \<Rightarrow> 'a result) \<Rightarrow> 'a result" where
  "accepted_private wire k =
     guard_res (wres_success wire \<noteq> Some True)
       (invalid ''Predict.fun returned an unsuccessful response'' ''success'') (
     require (wres_data wire) (missing ''data'') k)"

definition account_referral :: "wire_referral option \<Rightarrow> referral_info option" where
  "account_referral r =
     (case r of None \<Rightarrow> None
      | Some w \<Rightarrow> (case (wrf_code w, wrf_status w) of
                     (Some code, Some status) \<Rightarrow> Some \<lparr>ri_code = code, ri_status = status\<rparr>
                   | _ \<Rightarrow> None))"

definition account_points :: "(string \<Rightarrow> string option) \<Rightarrow> wire_points \<Rightarrow> points_info result" where
  "account_points read w =
     require (wpt_total w) (missing ''data.points.total'') (\<lambda>raw.
     bind_res (private_exact read raw ''data.points.total'') (\<lambda>total.
       Inr \<lparr>pi_total = total, pi_rank = wpt_rank w\<rparr>))"

definition decode_account_response :: "private_reader \<Rightarrow> string \<Rightarrow> decode_limits \<Rightarrow> account result" where
  "decode_account_response rd json limits =
     bind_res (parse_private_body (prd_account rd) json limits) (\<lambda>wire.
     accepted_private wire (\<lambda>data.
     require (wac_name data) (missing ''data.name'') (\<lambda>name.
     require (wac_address data) (missing ''data.address'') (\<lambda>raw_address.
     guard_res (\<not> string_within_limit name limits \<or> \<not> optional_within limits (wac_image_url data))
       (invalid ''account string exceeds configured limit'' ''data'') (
     bind_res (with_field ''data.address'' (evm_parse raw_address)) (\<lambda>address.
     bind_res (optional_part (wac_points data) (account_points (prd_string rd))) (\<lambda>points.
       Inr \<lparr>ac_name = name, ac_address = address, ac_image_url = wac_image_url data,
            ac_referral = account_referral (wac_referral data), ac_points = points\<rparr>)))))))"

definition convert_position :: "private_reader \<Rightarrow> decode_limits \<Rightarrow> nat \<Rightarrow> wire_position \<Rightarrow> position result" where
  "convert_position rd limits index item =
     (let prefix = indexed ''data'' index in
     require (wps_id item) (missing (prefix @ ''.id'')) (\<lambda>position_id.
     require (wps_market item) (missing (prefix @ ''.market'')) (\<lambda>raw_market.
     require (wps_outcome item) (missing (prefix @ ''.outcome'')) (\<lambda>wire_outcome.
     require (wps_amount item) (missing (prefix @ ''.amount'')) (\<lambda>raw_amount.
     require (wps_value_usd item) (missing (prefix @ ''.valueUsd'')) (\<lambda>raw_value.
     require (wps_average_buy_price_usd item) (missing (prefix @ ''.averageBuyPriceUsd'')) (\<lambda>raw_average.
     require (wps_pnl_usd item) (missing (prefix @ ''.pnlUsd'')) (\<lambda>raw_pnl.
     bind_res (private_market (prd_markets rd) raw_market limits) (\<lambda>parsed_market.
     bind_res (private_outcome_of (prd_string rd) wire_outcome (prefix @ ''.outcome'')) (\<lambda>parsed_outcome.
     bind_res (private_exact (prd_string rd) raw_amount (prefix @ ''.amount'')) (\<lambda>amount.
     bind_res (private_exact (prd_string rd) raw_value (prefix @ ''.valueUsd'')) (\<lambda>worth.
     bind_res (private_exact (prd_string rd) raw_average (prefix @ ''.averageBuyPriceUsd'')) (\<lambda>average.
     bind_res (private_exact (prd_string rd) raw_pnl (prefix @ ''.pnlUsd'')) (\<lambda>pnl.
       Inr \<lparr>ps_id = position_id, ps_market = parsed_market, ps_outcome = parsed_outcome, ps_amount = amount,
            ps_value_usd = worth, ps_average_buy_price_usd = average, ps_pnl_usd = pnl\<rparr>))))))))))))))"

definition decode_positions_response :: "private_reader \<Rightarrow> string \<Rightarrow> decode_limits \<Rightarrow> positions_page result" where
  "decode_positions_response rd json limits =
     bind_res (parse_private_body (prd_positions rd) json limits) (\<lambda>wire.
     accepted_private wire (\<lambda>data.
     guard_res (length data > dl_max_markets limits) (mk_error too_many_items ''too many positions'' ''data'') (
     bind_res (convert_each (convert_position rd limits) 0 data) (\<lambda>positions.
       Inr \<lparr>pp_cursor = wres_cursor wire, pp_positions = positions\<rparr>))))"

definition decode_orders_response :: "private_reader \<Rightarrow> string \<Rightarrow> decode_limits \<Rightarrow> orders_page result" where
  "decode_orders_response rd json limits =
     bind_res (parse_private_body (prd_orders rd) json limits) (\<lambda>wire.
     accepted_private wire (\<lambda>data.
     guard_res (length data > dl_max_markets limits) (mk_error too_many_items ''too many orders'' ''data'') (
     bind_res (convert_each (\<lambda>i item. order_record_of (prd_string rd) item (indexed ''data'' i)) 0 data) (\<lambda>orders.
       Inr \<lparr>op_cursor = wres_cursor wire, op_orders = orders\<rparr>))))"

definition decode_order_response :: "private_reader \<Rightarrow> string \<Rightarrow> decode_limits \<Rightarrow> order_record result" where
  "decode_order_response rd json limits =
     bind_res (parse_private_body (prd_order rd) json limits) (\<lambda>wire.
     accepted_private wire (\<lambda>data. order_record_of (prd_string rd) data ''data''))"

definition convert_activity_fee :: "(string \<Rightarrow> string option) \<Rightarrow> string \<Rightarrow> wire_match_fee \<Rightarrow> activity_fee result" where
  "convert_activity_fee read prefix wire =
     (case (wmf_amount wire, wmf_type wire) of
        (Some raw, Some kind) \<Rightarrow>
          bind_res (private_exact read raw (prefix @ ''.order.fee.amount'')) (\<lambda>fee. Inr \<lparr>af_amount = fee, af_type = kind\<rparr>)
      | _ \<Rightarrow> Inl (missing (prefix @ ''.order.fee'')))"

definition convert_activity_order :: "(string \<Rightarrow> string option) \<Rightarrow> string \<Rightarrow> wire_activity_order \<Rightarrow> activity_order result" where
  "convert_activity_order read prefix wire =
     (case (wao_quote_type wire, wao_amount wire, wao_price wire) of
        (Some quote, Some raw_amount, Some raw_price) \<Rightarrow>
          bind_res (private_exact read raw_amount (prefix @ ''.order.amount'')) (\<lambda>amount.
          bind_res (private_exact read raw_price (prefix @ ''.order.price'')) (\<lambda>price.
          bind_res (optional_part (wao_fee wire) (convert_activity_fee read prefix)) (\<lambda>fee.
            Inr \<lparr>ao_quote_type = quote, ao_amount = amount, ao_price = price, ao_fee = fee\<rparr>)))
      | _ \<Rightarrow> Inl (missing (prefix @ ''.order'')))"

definition convert_activity :: "private_reader \<Rightarrow> decode_limits \<Rightarrow> nat \<Rightarrow> wire_activity \<Rightarrow> activity_event result" where
  "convert_activity rd limits index item =
     (let prefix = indexed ''data'' index in
     require (wae_name item) (missing (prefix @ ''.name'')) (\<lambda>name.
     require (wae_created_at item) (missing (prefix @ ''.createdAt'')) (\<lambda>created_at.
     bind_res (optional_part (wae_amount_filled item) (\<lambda>raw. private_exact (prd_string rd) raw (prefix @ ''.amountFilled''))) (\<lambda>filled_amount.
     bind_res (optional_part (wae_price_executed item) (\<lambda>raw. private_exact (prd_string rd) raw (prefix @ ''.priceExecuted''))) (\<lambda>price.
     bind_res (optional_part (wae_order item) (convert_activity_order (prd_string rd) prefix)) (\<lambda>order.
     bind_res (optional_part (wae_market item) (\<lambda>raw. private_market (prd_markets rd) raw limits)) (\<lambda>mkt.
     bind_res (optional_part (wae_outcome item) (\<lambda>w. private_outcome_of (prd_string rd) w (prefix @ ''.outcome''))) (\<lambda>outcome.
       Inr \<lparr>ae_name = name, ae_created_at = created_at, ae_transaction_hash = wae_transaction_hash item,
            ae_amount_filled = filled_amount, ae_price_executed = price, ae_order = order, ae_market = mkt,
            ae_outcome = outcome\<rparr>))))))))"

definition decode_activity_response :: "private_reader \<Rightarrow> string \<Rightarrow> decode_limits \<Rightarrow> activity_page result" where
  "decode_activity_response rd json limits =
     bind_res (parse_private_body (prd_activity rd) json limits) (\<lambda>wire.
     accepted_private wire (\<lambda>data.
     guard_res (length data > dl_max_markets limits) (mk_error too_many_items ''too many activity events'' ''data'') (
     bind_res (convert_each (convert_activity rd limits) 0 data) (\<lambda>events.
       Inr \<lparr>ap_cursor = wres_cursor wire, ap_events = events\<rparr>))))"

section \<open>What a decoded value satisfies\<close>

lemma parse_private_bodyE:
  "parse_private_body read json limits = Inr w \<Longrightarrow> (length json \<le> dl_max_body_bytes limits \<Longrightarrow> read json = Some w \<Longrightarrow> P) \<Longrightarrow> P"
  by (auto simp: parse_private_body_def split: if_splits option.splits)

lemma accepted_privateE:
  "accepted_private w k = Inr y \<Longrightarrow> (\<And>d. wres_success w = Some True \<Longrightarrow> wres_data w = Some d \<Longrightarrow> k d = Inr y \<Longrightarrow> P) \<Longrightarrow> P"
  by (auto simp: accepted_private_def res_simps)

lemma private_exact_wf: "private_exact read raw f = Inr d \<Longrightarrow> exact_wf d"
  by (auto simp: private_exact_def res_simps dest: exact_parse_wf)

lemma private_uint256_wf: "private_uint256 read raw f = Inr u \<Longrightarrow> uint256_wf u"
  by (auto simp: private_uint256_def res_simps dest: uint256_parse_wf)

text \<open>
  A contract order of the venue: every number fits 256 bits and is a plain numeral, the maker and the signer are
  addresses other than zero, and so is the taker unless the order is open to anyone.
\<close>

definition contract_order_valid :: "contract_order \<Rightarrow> bool" where
  "contract_order_valid c \<longleftrightarrow>
     list_all uint256_wf [co_salt c, co_token_id c, co_maker_amount c, co_taker_amount c, co_expiration c, co_nonce c,
       co_fee_rate_bps c] \<and>
     list_all (\<lambda>a. evm_wf a \<and> \<not> evm_empty a) [co_maker c, co_signer c] \<and>
     pred_option (\<lambda>a. evm_wf a \<and> \<not> evm_empty a) (co_taker c)"

definition order_record_valid :: "order_record \<Rightarrow> bool" where
  "order_record_valid r \<longleftrightarrow> record_wf r \<and> exact_wf (or_reward_earning_rate r) \<and> contract_order_valid (or_order r)"

lemma taker_valid:
  "(if c then bind_res (with_field f (evm_parse t)) (\<lambda>a. Inr (Some a)) else Inr None) = Inr y \<Longrightarrow>
   pred_option (\<lambda>a. evm_wf a \<and> \<not> evm_empty a) y"
  by (auto simp: res_simps evm_parse_Inr evm_wf_def dest: length_hex_pairs split: if_splits)

lemma contract_order_of_valid: "contract_order_of read w p = Inr c \<Longrightarrow> contract_order_valid c"
  unfolding contract_order_of_def
  by (elim chainE, drule Inr_inject, hypsubst)
    (simp only: contract_order_valid_def contract_order.simps list.pred_inject private_uint256_wf signer_valid taker_valid simp_thms)

lemma order_record_of_valid: "order_record_of read w p = Inr r \<Longrightarrow> order_record_valid r"
  unfolding order_record_of_def
  by (elim chainE, drule Inr_inject, hypsubst)
    (simp only: order_record_valid_def record_wf_def order_record.simps private_exact_wf contract_order_of_valid simp_thms)

lemma orders_valid:
  "convert_each (\<lambda>i w. order_record_of read w (p i)) n ws = Inr rs \<Longrightarrow> list_all order_record_valid rs \<and> length rs = length ws"
  using convert_each_all [where P = order_record_valid] order_record_of_valid by blast

lemma decode_orders_response_valid:
  assumes "decode_orders_response rd json limits = Inr page"
  shows "list_all order_record_valid (op_orders page) \<and> length (op_orders page) \<le> dl_max_markets limits"
  using assms unfolding decode_orders_response_def
  by (elim chainE parse_private_bodyE accepted_privateE) (force dest: orders_valid)

lemma decode_order_response_valid: "decode_order_response rd json limits = Inr r \<Longrightarrow> order_record_valid r"
  unfolding decode_order_response_def
  by (elim chainE parse_private_bodyE accepted_privateE) (rule order_record_of_valid)

lemma record_wf_valid: "list_all order_record_valid rs \<Longrightarrow> list_all record_wf rs"
  by (auto simp: list_all_iff order_record_valid_def)

subsection \<open>Positions and activity\<close>

definition position_valid :: "decode_limits \<Rightarrow> position \<Rightarrow> bool" where
  "position_valid limits p \<longleftrightarrow> market_valid limits (ps_market p) \<and> pred_option uint256_wf (po_on_chain_id (ps_outcome p)) \<and>
     list_all exact_wf [ps_amount p, ps_value_usd p, ps_average_buy_price_usd p, ps_pnl_usd p]"

definition activity_valid :: "decode_limits \<Rightarrow> activity_event \<Rightarrow> bool" where
  "activity_valid limits e \<longleftrightarrow> pred_option exact_wf (ae_amount_filled e) \<and> pred_option exact_wf (ae_price_executed e) \<and>
     pred_option (market_valid limits) (ae_market e) \<and>
     pred_option (\<lambda>oc. pred_option uint256_wf (po_on_chain_id oc)) (ae_outcome e)"

lemma private_market_valid: "private_market rd raw limits = Inr m \<Longrightarrow> market_valid limits m"
  by (simp add: private_market_def decode_market_response_valid)

lemma private_outcome_of_valid: "private_outcome_of read w p = Inr oc \<Longrightarrow> pred_option uint256_wf (po_on_chain_id oc)"
  by (auto simp: private_outcome_of_def res_simps dest: private_uint256_wf)

lemma convert_position_valid: "convert_position rd limits i w = Inr p \<Longrightarrow> position_valid limits p"
  unfolding convert_position_def Let_def
  by (elim chainE, drule Inr_inject, hypsubst)
    (simp only: position_valid_def position.simps list.pred_inject private_market_valid private_outcome_of_valid
      private_exact_wf simp_thms)

lemma convert_activity_valid:
  assumes "convert_activity rd limits i w = Inr e"
  shows "activity_valid limits e"
proof -
  have exact: "optional_part x (\<lambda>raw. private_exact read raw f) = Inr y \<Longrightarrow> pred_option exact_wf y" for x read f y
    by (erule optional_part_pred) (rule private_exact_wf)
  have mkt: "optional_part x (\<lambda>raw. private_market mrd raw limits) = Inr y \<Longrightarrow> pred_option (market_valid limits) y" for x mrd y
    by (erule optional_part_pred) (rule private_market_valid)
  have oc: "optional_part x (\<lambda>v. private_outcome_of read v f) = Inr y \<Longrightarrow>
      pred_option (\<lambda>oc. pred_option uint256_wf (po_on_chain_id oc)) y" for x read f y
    by (erule optional_part_pred) (rule private_outcome_of_valid)
  show ?thesis
    using assms unfolding convert_activity_def Let_def
    by (elim chainE, drule_tac Inr_inject, hypsubst) (simp only: activity_valid_def activity_event.simps exact mkt oc simp_thms)
qed

lemma decode_positions_response_valid:
  assumes "decode_positions_response rd json limits = Inr page"
  shows "list_all (position_valid limits) (pp_positions page) \<and> length (pp_positions page) \<le> dl_max_markets limits"
proof -
  have "list_all (position_valid limits) ps \<and> length ps = length ws" if "convert_each (convert_position rd limits) n ws = Inr ps" for n ws ps
    using convert_each_all [OF that, of "position_valid limits"] convert_position_valid by blast
  then show ?thesis
    using assms unfolding decode_positions_response_def
    by (elim chainE parse_private_bodyE accepted_privateE) force
qed

lemma decode_activity_response_valid:
  assumes "decode_activity_response rd json limits = Inr page"
  shows "list_all (activity_valid limits) (ap_events page) \<and> length (ap_events page) \<le> dl_max_markets limits"
proof -
  have "list_all (activity_valid limits) es \<and> length es = length ws" if "convert_each (convert_activity rd limits) n ws = Inr es" for n ws es
    using convert_each_all [OF that, of "activity_valid limits"] convert_activity_valid by blast
  then show ?thesis
    using assms unfolding decode_activity_response_def
    by (elim chainE parse_private_bodyE accepted_privateE) force
qed

section \<open>Properties\<close>

text \<open>
  C9. Orders decoded from the private endpoint are fit for the tracker. When the decoder accepts a page, it is within the
  limit and every order in it has amounts that are plain decimals, contract numbers below 2^256 and nonzero
  maker, signer and taker (or no taker); so reconciling a well-formed tracker with the page keeps it well formed,
  and every tracked order takes the state of its last record in the page, or is quarantined if it is not
  there and not terminal.
\<close>

theorem decoded_orders_reconcile:
  assumes "decode_orders_response rd json limits = Inr page" and "tracker_wf tk" and "g < 2 ^ 64"
    and "reconcile tk g (op_orders page) = (report, tk')"
  shows "length (op_orders page) \<le> dl_max_markets limits \<and> list_all order_record_valid (op_orders page) \<and> tracker_wf tk' \<and>
    find_order tk' h = map_option (reconciled_order g (op_orders page) h) (find_order tk h)"
proof -
  note page = decode_orders_response_valid [OF assms(1)]
  have "tracker_wf (snd (reconcile tk g (op_orders page)))"
    using tracker_wf_reconcile [OF assms(2) record_wf_valid assms(3)] page by blast
  then show ?thesis
    using page reconcile_spec [OF assms(2,4), of h] assms(4) by simp
qed

definition sample_wire_order :: wire_order_record where
  "sample_wire_order =
     \<lparr>wor_order = Some \<lparr>wco_hash = Some sample_hash, wco_salt = Some ''1'',
        wco_maker = Some ''0x1111111111111111111111111111111111111111'',
        wco_signer = Some ''0x1111111111111111111111111111111111111111'', wco_taker = Some zero_taker,
        wco_token_id = Some ''9'', wco_maker_amount = Some ''500'', wco_taker_amount = Some ''1000'',
        wco_expiration = Some ''0'', wco_nonce = Some ''0'', wco_fee_rate_bps = Some ''200'', wco_side = Some 0,
        wco_signature_type = Some 0, wco_signature = Some ''0xab''\<rparr>,
      wor_id = Some ''o1'', wor_market_id = Some 7, wor_currency = Some ''USDT'', wor_amount = Some ''10'',
      wor_amount_filled = Some ''10.0'', wor_is_neg_risk = Some False, wor_is_yield_bearing = Some False,
      wor_strategy = Some ''LIMIT'', wor_status = Some ''OPEN'', wor_reward_earning_rate = Some ''0''\<rparr>"

definition sample_rest_reader :: private_reader where
  "sample_rest_reader = \<lparr>prd_string = (\<lambda>_. None), prd_referral = (\<lambda>_. None), prd_account = (\<lambda>_. None),
     prd_positions = (\<lambda>_. None),
     prd_orders = (\<lambda>_. Some \<lparr>wres_data = Some [sample_wire_order], wres_success = Some True, wres_cursor = None\<rparr>),
     prd_order = (\<lambda>_. None), prd_activity = (\<lambda>_. None), prd_markets = sample_market_reader\<rparr>"

definition sample_submitted :: order_tracker where
  "sample_submitted = run_op (Begin_Submission sample_hash \<lparr>xd_text = ''10''\<rparr>) empty_tracker"

theorem decoded_orders_reconcile_witness:
  "\<exists>page. decode_orders_response sample_rest_reader ''{}'' default_limits = Inr page \<and>
     tracker_wf (snd (reconcile sample_submitted 3 (op_orders page))) \<and>
     map_option to_state (find_order (snd (reconcile sample_submitted 3 (op_orders page))) sample_hash) = Some filled"
proof -
  have ok: "is_ok (decode_orders_response sample_rest_reader ''{}'' default_limits)"
    and state: "(case decode_orders_response sample_rest_reader ''{}'' default_limits of
        Inr page \<Rightarrow> map_option to_state (find_order (snd (reconcile sample_submitted 3 (op_orders page))) sample_hash) = Some filled
      | _ \<Rightarrow> False)"
    by code_simp+
  from ok obtain page where page: "decode_orders_response sample_rest_reader ''{}'' default_limits = Inr page"
    by (auto simp: is_ok_iff)
  have wf: "tracker_wf sample_submitted"
    unfolding sample_submitted_def by (rule tracker_wf_op) code_simp+
  have g: "(3::nat) < 2 ^ 64"
    by simp
  have "tracker_wf (snd (reconcile sample_submitted 3 (op_orders page)))"
    using decoded_orders_reconcile [OF page wf g prod.collapse [symmetric]] by blast
  then show ?thesis
    using page state by simp
qed

end
