(* ===== verification/Trading_Codec.thy ===== *)
theory Trading_Codec
  imports Private_Codec Trading
begin

text \<open>
  \<^verbatim>\<open>src/trading_codec.cpp\<close>: the wire form of the three mutations and the decoding of their receipts. The JSON
  writer and the reads are parameters; a failed read carries no text.
\<close>

section \<open>Wire structures\<close>

record wire_contract_order_write =
  ww_hash :: string
  ww_salt :: string
  ww_maker :: string
  ww_signer :: string
  ww_taker :: string
  ww_token_id :: string
  ww_maker_amount :: string
  ww_taker_amount :: string
  ww_expiration :: nat
  ww_nonce :: string
  ww_fee_rate_bps :: string
  ww_side :: nat
  ww_signature_type :: nat
  ww_signature :: string

record wire_create_order_write =
  wc_price_per_share :: string
  wc_strategy :: string
  wc_slippage_bps :: "string option"
  wc_is_fill_or_kill :: "bool option"
  wc_is_post_only :: "bool option"
  wc_reserved_balance_policy :: "string option"
  wc_is_min_amount_out :: "bool option"
  wc_self_trade_prevention :: "string option"
  wc_order :: wire_contract_order_write

text \<open>The envelopes \<^verbatim>\<open>{"data": {"ids": ...}}\<close> and \<^verbatim>\<open>{"data": {"hashes": ...}}\<close> of the removals.\<close>

datatype wire_remove_write = remove_ids_write "string list" | remove_hashes_write "string list"

record wire_create_receipt =
  wcr_code :: "string option"
  wcr_order_id :: "string option"
  wcr_order_hash :: "string option"
  wcr_removal_locked_until :: "string option"

record wire_create_response =
  wcre_success :: "bool option"
  wcre_data :: "wire_create_receipt option"

record wire_remove_response =
  wrm_success :: "bool option"
  wrm_removed :: "string list option"
  wrm_noop :: "string list option"

section \<open>Encoding\<close>

definition wire_expiration :: "uint256 \<Rightarrow> nat result" where
  "wire_expiration v =
     (case from_chars_uint u64_max (u256_text v) of
        Some (parsed, []) \<Rightarrow>
          if parsed > 2 ^ 63 - 1
          then Inl (mk_error numeric_overflow ''expiration exceeds the API int64 range'' ''order.expiration'')
          else Inr parsed
      | _ \<Rightarrow> Inl (mk_error numeric_overflow ''expiration does not fit the API int64 field'' ''order.expiration''))"

definition wire_strategy :: "execution_strategy \<Rightarrow> string" where
  "wire_strategy v = (if v = exec_market then ''MARKET'' else ''LIMIT'')"

fun wire_self_trade_prevention :: "self_trade_prevention \<Rightarrow> string" where
  "wire_self_trade_prevention cancel_maker = ''CANCEL_MAKER''"
| "wire_self_trade_prevention cancel_taker = ''CANCEL_TAKER''"
| "wire_self_trade_prevention cancel_both = ''CANCEL_BOTH''"

fun wire_reserved_balance_policy :: "reserved_balance_policy \<Rightarrow> string" where
  "wire_reserved_balance_policy reject_market_order = ''REJECT_MARKET_ORDER''"

definition write_json :: "('w \<Rightarrow> string option) \<Rightarrow> 'w \<Rightarrow> string result" where
  "write_json write w =
     (case write w of
        None \<Rightarrow> Inl (mk_error protocol_error ''failed to encode Predict.fun request'' '''')
      | Some json \<Rightarrow> Inr json)"

definition wire_side :: "contract_side \<Rightarrow> nat" where
  "wire_side v = (if v = side_buy then 0 else 1)"

definition wire_signature_type :: "signature_type \<Rightarrow> nat" where
  "wire_signature_type v = (if v = sig_poly_proxy then 1 else if v = sig_poly_gnosis_safe then 2 else 0)"

definition wire_contract_order_of :: "create_order_request \<Rightarrow> nat \<Rightarrow> wire_contract_order_write" where
  "wire_contract_order_of r expires =
     \<lparr>ww_hash = cr_order_hash r, ww_salt = u256_text (uo_salt (cr_order r)), ww_maker = evm_to_string (uo_maker (cr_order r)),
      ww_signer = evm_to_string (uo_signer (cr_order r)),
      ww_taker = (case uo_taker (cr_order r) of Some a \<Rightarrow> evm_to_string a | None \<Rightarrow> zero_taker),
      ww_token_id = u256_text (uo_token_id (cr_order r)), ww_maker_amount = u256_text (uo_maker_amount (cr_order r)),
      ww_taker_amount = u256_text (uo_taker_amount (cr_order r)), ww_expiration = expires,
      ww_nonce = u256_text (uo_nonce (cr_order r)), ww_fee_rate_bps = u256_text (uo_fee_rate_bps (cr_order r)),
      ww_side = wire_side (uo_side (cr_order r)), ww_signature_type = wire_signature_type (uo_signature_type (cr_order r)),
      ww_signature = so_signature (cr_order r)\<rparr>"

definition encode_create_order_request :: "(wire_create_order_write \<Rightarrow> string option) \<Rightarrow> create_order_request \<Rightarrow> string result" where
  "encode_create_order_request write r =
     bind_res (wire_expiration (uo_expiration (cr_order r))) (\<lambda>expires.
       write_json write
         \<lparr>wc_price_per_share = u256_text (cr_price_per_share_wei r), wc_strategy = wire_strategy (cr_strategy r),
          wc_slippage_bps = map_option u256_text (cr_slippage_bps r), wc_is_fill_or_kill = cr_is_fill_or_kill r,
          wc_is_post_only = cr_is_post_only r,
          wc_reserved_balance_policy = map_option wire_reserved_balance_policy (cr_reserved_balance_policy r),
          wc_is_min_amount_out = cr_is_min_amount_out r,
          wc_self_trade_prevention = map_option wire_self_trade_prevention (cr_self_trade_prevention r),
          wc_order = wire_contract_order_of r expires\<rparr>)"

definition encode_remove_order_ids_request :: "(wire_remove_write \<Rightarrow> string option) \<Rightarrow> string list \<Rightarrow> string result" where
  "encode_remove_order_ids_request write ids = write_json write (remove_ids_write ids)"

definition encode_remove_order_hashes_request :: "(wire_remove_write \<Rightarrow> string option) \<Rightarrow> string list \<Rightarrow> string result" where
  "encode_remove_order_hashes_request write hashes = write_json write (remove_hashes_write hashes)"

section \<open>Decoding\<close>

definition decode_create_order_response ::
    "(string \<Rightarrow> wire_create_response option) \<Rightarrow> string \<Rightarrow> decode_limits \<Rightarrow> create_order_receipt result" where
  "decode_create_order_response read json limits =
     bind_res (parse_private_body read json limits) (\<lambda>wire.
     guard_res (wcre_success wire \<noteq> Some True) (invalid ''Predict.fun returned an unsuccessful response'' ''success'')
     (require (wcre_data wire) (missing ''data'') (\<lambda>data.
     require (wcr_code data) (missing ''data.code'') (\<lambda>code.
     require (wcr_order_id data) (missing ''data.orderId'') (\<lambda>order_id.
     require (wcr_order_hash data) (missing ''data.orderHash'') (\<lambda>order_hash.
     guard_res (length code > dl_max_string_bytes limits \<or> length order_id > dl_max_string_bytes limits
         \<or> length order_hash > dl_max_string_bytes limits
         \<or> (case wcr_removal_locked_until data of None \<Rightarrow> False | Some s \<Rightarrow> length s > dl_max_string_bytes limits))
       (invalid ''order receipt string exceeds configured limit'' ''data'')
     (Inr \<lparr>rc_code = code, rc_order_id = order_id, rc_order_hash = order_hash,
        rc_removal_locked_until = wcr_removal_locked_until data\<rparr>)))))))"

definition decode_remove_orders_response ::
    "(string \<Rightarrow> wire_remove_response option) \<Rightarrow> string \<Rightarrow> decode_limits \<Rightarrow> remove_orders_receipt result" where
  "decode_remove_orders_response read json limits =
     bind_res (parse_private_body read json limits) (\<lambda>wire.
     guard_res (wrm_success wire \<noteq> Some True) (invalid ''Predict.fun returned an unsuccessful response'' ''success'')
     (require (wrm_removed wire) (missing ''removed'') (\<lambda>removed.
     require (wrm_noop wire) (missing ''noop'') (\<lambda>noop.
     guard_res (length removed + length noop > 200) (mk_error too_many_items ''too many removal results'' ''removed'')
     (guard_res (\<not> list_all (\<lambda>v. length v \<le> dl_max_string_bytes limits) removed)
       (invalid ''removal result exceeds configured limit'' ''removed'')
     (guard_res (\<not> list_all (\<lambda>v. length v \<le> dl_max_string_bytes limits) noop)
       (invalid ''removal result exceeds configured limit'' ''noop'')
     (Inr \<lparr>rr_removed = removed, rr_noop = noop\<rparr>)))))))"

definition decode_remove_order_hashes_response ::
    "(string \<Rightarrow> wire_remove_response option) \<Rightarrow> string \<Rightarrow> decode_limits \<Rightarrow> remove_orders_receipt result" where
  "decode_remove_order_hashes_response read json limits =
     bind_res (parse_private_body read json limits) (\<lambda>wire.
       if wrm_success wire = None \<and> wrm_removed wire = None \<and> wrm_noop wire = None
       then Inr \<lparr>rr_removed = [], rr_noop = []\<rparr>
       else decode_remove_orders_response read json limits)"

section \<open>The order that is sent and the order that comes back\<close>

text \<open>
  The order as the venue shows it in an order record, when it stores what was written: numbers in text stay
  quoted JSON texts, the expiration is a JSON number, addresses and the hash are strings.
\<close>

definition echoed_order :: "wire_contract_order_write \<Rightarrow> wire_contract_order" where
  "echoed_order w =
     \<lparr>wco_hash = Some (ww_hash w), wco_salt = Some (jq (ww_salt w)), wco_maker = Some (ww_maker w),
      wco_signer = Some (ww_signer w), wco_taker = Some (ww_taker w), wco_token_id = Some (jq (ww_token_id w)),
      wco_maker_amount = Some (jq (ww_maker_amount w)), wco_taker_amount = Some (jq (ww_taker_amount w)),
      wco_expiration = Some (to_string (ww_expiration w)), wco_nonce = Some (jq (ww_nonce w)),
      wco_fee_rate_bps = Some (jq (ww_fee_rate_bps w)), wco_side = Some (ww_side w),
      wco_signature_type = Some (ww_signature_type w), wco_signature = Some (ww_signature w)\<rparr>"

definition requested_contract :: "create_order_request \<Rightarrow> contract_order" where
  "requested_contract r =
     \<lparr>co_hash = cr_order_hash r, co_salt = uo_salt (cr_order r), co_maker = uo_maker (cr_order r),
      co_signer = uo_signer (cr_order r), co_taker = uo_taker (cr_order r), co_token_id = uo_token_id (cr_order r),
      co_maker_amount = uo_maker_amount (cr_order r), co_taker_amount = uo_taker_amount (cr_order r),
      co_expiration = uo_expiration (cr_order r), co_nonce = uo_nonce (cr_order r),
      co_fee_rate_bps = uo_fee_rate_bps (cr_order r),
      co_side = \<lparr>ev_value = uo_side (cr_order r), ev_raw = to_string (wire_side (uo_side (cr_order r)))\<rparr>,
      co_signature_type = \<lparr>ev_value = uo_signature_type (cr_order r),
        ev_raw = to_string (wire_signature_type (uo_signature_type (cr_order r)))\<rparr>,
      co_signature = so_signature (cr_order r)\<rparr>"

definition identity_wf :: "evm_address \<Rightarrow> bool" where
  "identity_wf a \<longleftrightarrow> evm_wf a \<and> \<not> evm_empty a"

definition order_fields_wf :: "signed_order \<Rightarrow> bool" where
  "order_fields_wf o' \<longleftrightarrow> uint256_wf (uo_salt o') \<and> uint256_wf (uo_token_id o') \<and> uint256_wf (uo_maker_amount o') \<and>
     uint256_wf (uo_taker_amount o') \<and> uint256_wf (uo_expiration o') \<and> uint256_wf (uo_nonce o') \<and>
     uint256_wf (uo_fee_rate_bps o') \<and> identity_wf (uo_maker o') \<and> identity_wf (uo_signer o') \<and>
     pred_option identity_wf (uo_taker o') \<and> uo_side o' \<noteq> side_unknown \<and> uo_signature_type o' \<noteq> sig_unknown"

lemma wire_expiration_iff:
  assumes "uint256_wf v"
  shows "wire_expiration v = Inr n \<longleftrightarrow> n = uint256_value v \<and> n < 2 ^ 63"
proof -
  have "u256_text v = to_string (uint256_value v)"
    using assms by (simp add: uint256_wf_def)
  then show ?thesis
    by (auto simp: wire_expiration_def from_chars_uint_digits u64_max_def)
qed

lemma identity_parse: "identity_wf a \<Longrightarrow> evm_parse (evm_to_string a) = Inr a"
  by (simp add: evm_parse_Inr identity_wf_def evm_wf_def evm_to_string_def)

lemma identity_not_zero: "identity_wf a \<Longrightarrow> evm_to_string a \<noteq> zero_taker"
proof
  assume a: "identity_wf a" and "evm_to_string a = zero_taker"
  moreover have "evm_parse zero_taker = Inl (mk_error invalid_argument ''zero EVM address is not a valid identity'' ''address'')"
    by code_simp
  ultimately show False
    using identity_parse [OF a] by simp
qed

lemma quoted_jq: "quoted (jq s)"
  by (simp add: quoted_def jq_def)

lemma not_quoted_number: "\<not> quoted (to_string n)"
proof
  assume "quoted (to_string n)"
  then have "is_digit (CHR 0x22)"
    using list_all_to_string [of n] to_string_not_Nil [of n]
    by (cases "to_string n") (auto simp: quoted_def)
  then show False
    by code_simp
qed

lemma read_number:
  assumes "\<And>s. list_all is_digit s \<Longrightarrow> read (jq s) = Some s" and "uint256_wf v"
  shows "private_uint256 read (jq (u256_text v)) f = Inr v"
    and "private_uint256 read (to_string (uint256_value v)) f = Inr v"
proof -
  have "list_all is_digit (u256_text v)" "to_string (uint256_value v) = u256_text v"
    using assms(2) list_all_to_string [of "uint256_value v"] by (simp_all add: uint256_wf_def)
  then show "private_uint256 read (jq (u256_text v)) f = Inr v" "private_uint256 read (to_string (uint256_value v)) f = Inr v"
    using assms not_quoted_number [of "uint256_value v"]
    by (simp_all add: private_uint256_def raw_scalar_def quoted_jq with_field_def uint256_round_trip bind_res_def)
qed

lemma chain_simps:
  "require (Some x) e f = f x" "bind_res (Inr x) f = f x" "with_field p (Inr x) = Inr x"
  by (simp_all add: require_def bind_res_def with_field_def)

lemma read_taker:
  assumes "pred_option identity_wf t"
  shows "(if (case t of Some a \<Rightarrow> evm_to_string a | None \<Rightarrow> zero_taker) \<noteq> zero_taker
      then bind_res (with_field f (evm_parse (case t of Some a \<Rightarrow> evm_to_string a | None \<Rightarrow> zero_taker))) (\<lambda>a. Inr (Some a))
      else Inr None) = Inr t"
  using assms by (cases t) (simp_all add: identity_parse identity_not_zero with_field_def bind_res_def)

lemma echoed_order_read:
  assumes "\<And>s. list_all is_digit s \<Longrightarrow> read (jq s) = Some s" and "order_fields_wf (cr_order r)"
    and "uint256_value (uo_expiration (cr_order r)) = n"
  shows "contract_order_of read (echoed_order (wire_contract_order_of r n)) p = Inr (requested_contract r)"
proof -
  have n: "to_string n = to_string (uint256_value (uo_expiration (cr_order r)))"
    using assms(3) by simp
  have side: "(if wire_side v = 0 then side_buy else if wire_side v = 1 then side_sell else side_unknown) = v"
    if "v \<noteq> side_unknown" for v
    using that by (cases v) (simp_all add: wire_side_def)
  have kind: "(if wire_signature_type v = 0 then sig_eoa else if wire_signature_type v = 1 then sig_poly_proxy
      else if wire_signature_type v = 2 then sig_poly_gnosis_safe else sig_unknown) = v" if "v \<noteq> sig_unknown" for v
    using that by (cases v) (simp_all add: wire_signature_type_def)
  show ?thesis
    using assms(2) unfolding order_fields_wf_def
    by (simp only: contract_order_of_def echoed_order_def wire_contract_order_of_def chain_simps n
        wire_contract_order_write.simps wire_contract_order.simps read_number [OF assms(1)] identity_parse
        read_taker side kind requested_contract_def simp_thms)
qed

lemma created_order_spec:
  assumes "order_fields_wf (cr_order r)" and "\<And>s. list_all is_digit s \<Longrightarrow> read (jq s) = Some s"
  shows "case encode_create_order_request write r of
      Inl e \<Rightarrow> uint256_value (uo_expiration (cr_order r)) \<ge> 2 ^ 63 \<or> (\<exists>w. write w = None)
    | Inr json \<Rightarrow> uint256_value (uo_expiration (cr_order r)) < 2 ^ 63 \<and>
        (\<exists>w. write w = Some json \<and> wc_price_per_share w = u256_text (cr_price_per_share_wei r) \<and>
           contract_order_of read (echoed_order (wc_order w)) p = Inr (requested_contract r))"
proof (cases "uint256_value (uo_expiration (cr_order r)) < 2 ^ 63")
  case True
  define n where "n = uint256_value (uo_expiration (cr_order r))"
  have wf: "uint256_wf (uo_expiration (cr_order r))"
    using assms(1) by (simp add: order_fields_wf_def)
  then have "wire_expiration (uo_expiration (cr_order r)) = Inr n"
    using True by (simp add: wire_expiration_iff n_def)
  then show ?thesis
    using True echoed_order_read [OF assms(2,1) n_def [symmetric], of p]
    by (auto simp: encode_create_order_request_def write_json_def chain_simps split: option.split)
next
  case False
  then obtain e where "wire_expiration (uo_expiration (cr_order r)) = Inl e"
    using assms(1) wire_expiration_iff [of "uo_expiration (cr_order r)"]
    by (cases "wire_expiration (uo_expiration (cr_order r))") (auto simp: order_fields_wf_def)
  then show ?thesis
    using False by (simp add: encode_create_order_request_def bind_res_def)
qed

text \<open>
  C8. A create-order request whose order is well formed is encoded exactly when its expiration fits the API's signed
  64-bit field and the JSON writer accepts it; and the order that is written, shown by the venue in an order record,
  is decoded by the private codec to the order of the request: every amount, address, side and signature type, with
  the zero address read as no taker. The reading of a quoted number is the JSON package's.
\<close>

theorem created_order_round_trip:
  assumes "order_fields_wf (cr_order r)" and "\<And>s. list_all is_digit s \<Longrightarrow> read (jq s) = Some s"
  shows "case encode_create_order_request write r of
      Inl e \<Rightarrow> uint256_value (uo_expiration (cr_order r)) \<ge> 2 ^ 63 \<or> (\<exists>w. write w = None)
    | Inr json \<Rightarrow> uint256_value (uo_expiration (cr_order r)) < 2 ^ 63 \<and>
        (\<exists>w. write w = Some json \<and> wc_price_per_share w = u256_text (cr_price_per_share_wei r) \<and>
           contract_order_of read (echoed_order (wc_order w)) p = Inr (requested_contract r))"
  using assms by (rule created_order_spec)

definition sample_sent_order :: signed_order where
  "sample_sent_order =
     \<lparr>uo_salt = \<lparr>u256_text = ''7''\<rparr>, uo_maker = \<lparr>evm_bytes = replicate 20 1\<rparr>, uo_signer = \<lparr>evm_bytes = replicate 20 1\<rparr>,
      uo_taker = None, uo_token_id = \<lparr>u256_text = ''42''\<rparr>, uo_maker_amount = \<lparr>u256_text = ''1000''\<rparr>,
      uo_taker_amount = \<lparr>u256_text = ''2000''\<rparr>, uo_expiration = \<lparr>u256_text = ''4102444800''\<rparr>,
      uo_nonce = \<lparr>u256_text = ''0''\<rparr>, uo_fee_rate_bps = \<lparr>u256_text = ''200''\<rparr>, uo_side = side_buy,
      uo_signature_type = sig_eoa, so_signature = ''0x01''\<rparr>"

definition sample_create_request :: create_order_request where
  "sample_create_request =
     \<lparr>cr_order = sample_sent_order, cr_order_hash = ''0xab'', cr_price_per_share_wei = \<lparr>u256_text = ''500''\<rparr>,
      cr_strategy = exec_limit, cr_slippage_bps = None, cr_is_fill_or_kill = None, cr_is_post_only = Some True,
      cr_reserved_balance_policy = None, cr_is_min_amount_out = None, cr_self_trade_prevention = Some cancel_both\<rparr>"

definition unquote :: "string \<Rightarrow> string option" where
  "unquote s = (if quoted s then Some (tl (butlast s)) else None)"

lemma unquote_jq: "unquote (jq s) = Some s"
  by (simp add: unquote_def quoted_jq) (simp add: jq_def butlast_append)

theorem created_order_round_trip_witness:
  "\<exists>w :: wire_create_order_write. wc_order w = wire_contract_order_of sample_create_request 4102444800 \<and>
     contract_order_of unquote (echoed_order (wc_order w)) ''order'' = Inr (requested_contract sample_create_request)"
proof -
  define wr :: "wire_create_order_write \<Rightarrow> string option"
    where "wr = (\<lambda>w. if wc_order w = wire_contract_order_of sample_create_request 4102444800 then Some ''{}'' else None)"
  have wf: "order_fields_wf (cr_order sample_create_request)"
    by (code_simp, simp)
  have "wire_expiration (uo_expiration (cr_order sample_create_request)) = Inr 4102444800"
    by code_simp
  then have "encode_create_order_request wr sample_create_request = Inr ''{}''"
    by (simp add: encode_create_order_request_def chain_simps write_json_def wr_def)
  then obtain w where w: "wr w = Some ''{}''"
    "contract_order_of unquote (echoed_order (wc_order w)) ''order'' = Inr (requested_contract sample_create_request)"
    using created_order_round_trip [OF wf, of unquote wr "''order''"] by (auto simp: unquote_jq)
  then have "wc_order w = wire_contract_order_of sample_create_request 4102444800"
    by (simp add: wr_def split: if_splits)
  with w(2) show ?thesis
    by blast
qed

end
