(* ===== verification/Auth.thy ===== *)
theory Auth
  imports Rest_Operation Book_Codec "HOL-Library.Sublist"
begin

text \<open>
  Authentication: \<^verbatim>\<open>src/auth_codec.cpp\<close>, the decoding of the challenge and of the token and the encoding of the
  proof, and \<^verbatim>\<open>src/auth.cpp\<close>, the client that fetches a challenge, has it signed and exchanges the proof for
  a token. A call of the client is a state machine: the callback the runtime owes it, the requests it has sent
  and the answers its handler has had. The JSON reads and the write are parameters (\<open>auth_json\<close>), as are the
  clocks, the rate limiter's answers, what the key provider returns and whether the signer throws.
\<close>

section \<open>Data and codec\<close>

record auth_message =
  am_message :: string

record auth_proof =
  ap_signer :: evm_address
  ap_signature :: string
  ap_message :: string

text \<open>\<^verbatim>\<open>WalletJwt\<close>: the token; the erasure of its memory is not visible.\<close>

record wallet_jwt =
  jwt_token :: string

definition jwt_empty :: "wallet_jwt \<Rightarrow> bool" where
  "jwt_empty j \<longleftrightarrow> jwt_token j = []"

record auth_codec_limits =
  al_max_body_bytes :: nat
  al_max_message_bytes :: nat
  al_max_signature_bytes :: nat
  al_max_token_bytes :: nat

definition default_auth_limits :: auth_codec_limits where
  "default_auth_limits = \<lparr>al_max_body_bytes = 64 * 1024, al_max_message_bytes = 16 * 1024,
     al_max_signature_bytes = 2 * 1024, al_max_token_bytes = 32 * 1024\<rparr>"

record wire_auth_message_data =
  wam_message :: "string option"

record wire_auth_message_response =
  wamr_success :: "bool option"
  wamr_data :: "wire_auth_message_data option"

record wire_auth_token_data =
  wat_token :: "string option"

record wire_auth_token_response =
  watr_success :: "bool option"
  watr_data :: "wire_auth_token_data option"

record wire_auth_proof =
  wap_signer :: string
  wap_signature :: string
  wap_message :: string

record auth_json =
  aj_message :: "string \<Rightarrow> wire_auth_message_response option"
  aj_token :: "string \<Rightarrow> wire_auth_token_response option"
  aj_proof :: "wire_auth_proof \<Rightarrow> string option"

text \<open>The error of the package is dropped: only a fixed text is reported.\<close>

definition auth_parse :: "(string \<Rightarrow> 'w option) \<Rightarrow> string \<Rightarrow> auth_codec_limits \<Rightarrow> 'w result" where
  "auth_parse read json limits =
     guard_res (length json > al_max_body_bytes limits)
       (mk_error body_too_large ''authentication response exceeds configured limit'' '''')
     (require (read json) (mk_error malformed_json ''authentication response is malformed JSON'' '''') Inr)"

definition auth_missing :: "string \<Rightarrow> error" where
  "auth_missing field = mk_error missing_field ''authentication response is missing a required field'' field"

definition decode_auth_message_response :: "auth_json \<Rightarrow> string \<Rightarrow> auth_codec_limits \<Rightarrow> auth_message result" where
  "decode_auth_message_response io json limits =
     bind_res (auth_parse (aj_message io) json limits) (\<lambda>wire.
     require (wamr_success wire) (auth_missing ''success'') (\<lambda>success.
     guard_res (\<not> success) (mk_error venue_rejected ''Predict.fun rejected the authentication request'' '''')
     (require (wamr_data wire) (auth_missing ''data'') (\<lambda>data.
     require (wam_message data) (auth_missing ''data.message'') (\<lambda>message.
     guard_res (message = [] \<or> length message > al_max_message_bytes limits)
       (mk_error invalid_field ''authentication message has an invalid length'' ''data.message'')
     (Inr \<lparr>am_message = message\<rparr>))))))"

definition decode_auth_token_response :: "auth_json \<Rightarrow> string \<Rightarrow> auth_codec_limits \<Rightarrow> wallet_jwt result" where
  "decode_auth_token_response io json limits =
     bind_res (auth_parse (aj_token io) json limits) (\<lambda>wire.
     require (watr_success wire) (auth_missing ''success'') (\<lambda>success.
     guard_res (\<not> success) (mk_error venue_rejected ''Predict.fun rejected the authentication proof'' '''')
     (require (watr_data wire) (auth_missing ''data'') (\<lambda>data.
     require (wat_token data) (auth_missing ''data.token'') (\<lambda>token.
     guard_res (token = [] \<or> length token > al_max_token_bytes limits)
       (mk_error invalid_field ''authentication token has an invalid length'' ''data.token'')
     (Inr \<lparr>jwt_token = token\<rparr>))))))"

definition encode_auth_proof :: "auth_json \<Rightarrow> auth_proof \<Rightarrow> auth_codec_limits \<Rightarrow> string result" where
  "encode_auth_proof io proof limits =
     guard_res (evm_empty (ap_signer proof)) (mk_error invalid_argument ''signer address is required'' ''signer'')
     (guard_res (ap_signature proof = [] \<or> length (ap_signature proof) > al_max_signature_bytes limits)
       (mk_error invalid_argument ''signature has an invalid length'' ''signature'')
     (guard_res (ap_message proof = [] \<or> length (ap_message proof) > al_max_message_bytes limits)
       (mk_error invalid_argument ''authentication message has an invalid length'' ''message'')
     (require (aj_proof io \<lparr>wap_signer = evm_to_string (ap_signer proof), wap_signature = ap_signature proof,
          wap_message = ap_message proof\<rparr>)
       (mk_error protocol_error ''authentication proof JSON encoding failed'' '''') (\<lambda>encoded.
     guard_res (length encoded > al_max_body_bytes limits)
       (mk_error body_too_large ''authentication proof exceeds configured limit'' '''')
     (Inr encoded)))))"

section \<open>The client\<close>

definition auth_message_target :: string where "auth_message_target = ''/v1/auth/message''"

definition auth_exchange_target :: string where "auth_exchange_target = ''/v1/auth''"

text \<open>
  The handler of a raw response: what \<open>async_get_message\<close> and \<open>async_exchange_token\<close> pass, and what
  \<open>async_authenticate\<close> passes through \<open>async_get_message\<close>.
\<close>

datatype raw_handler = message_handler | token_handler | challenge_handler

datatype auth_due =
    request_due http_method string string raw_handler
  | wait_due http_method string string raw_handler
  | response_due string raw_handler
  | signature_due string
  | error_due error

datatype auth_answer = message_answer "auth_message result" | token_answer "wallet_jwt result"

record auth_flow =
  au_environment :: environment
  au_limits :: auth_codec_limits
  au_deadline :: "int option"
  au_signer :: evm_address
  au_stop_requested :: bool
  au_due :: "auth_due option"
  au_requests :: "http_request list"
  au_penalties :: "int list"
  au_answers :: "auth_answer list"
  au_bad_call :: bool

definition deliver :: "auth_answer \<Rightarrow> auth_flow \<Rightarrow> auth_flow" where
  "deliver a q = q\<lparr>au_answers := au_answers q @ [a]\<rparr>"

text \<open>
  The \<^verbatim>\<open>catch\<close> around \<open>async_sign_message\<close>. The call's argument has taken the handler by move before the
  signer is entered, so the handler that is left is empty, and calling it throws \<^verbatim>\<open>std::bad_function_call\<close>.
\<close>

definition signer_failed :: "bool \<Rightarrow> auth_flow \<Rightarrow> auth_flow" where
  "signer_failed handler_left q =
     (if handler_left
      then deliver (token_answer (Inl (mk_error authentication_required ''message signer failed'' ''signer''))) q
      else q\<lparr>au_bad_call := True\<rparr>)"

definition challenge_call :: "bool \<Rightarrow> auth_message result \<Rightarrow> auth_flow \<Rightarrow> auth_flow" where
  "challenge_call throws message q =
     (case message of
        Inl e \<Rightarrow> deliver (token_answer (Inl e)) q
      | Inr m \<Rightarrow>
          if au_stop_requested q
          then deliver (token_answer (Inl (mk_error cancelled ''authentication cancelled'' ''''))) q
          else if throws then signer_failed False q
          else q\<lparr>au_due := Some (signature_due (am_message m))\<rparr>)"

definition raw_call :: "auth_json \<Rightarrow> bool \<Rightarrow> raw_handler \<Rightarrow> http_response result \<Rightarrow> auth_flow \<Rightarrow> auth_flow" where
  "raw_call io throws k raw q =
     (let message = bind_res raw (\<lambda>r. decode_auth_message_response io (rs_body r) (au_limits q));
          token = bind_res raw (\<lambda>r. decode_auth_token_response io (rs_body r) (au_limits q))
      in case k of
           message_handler \<Rightarrow> deliver (message_answer message) q
         | token_handler \<Rightarrow> deliver (token_answer token) q
         | challenge_handler \<Rightarrow> challenge_call throws message q)"

text \<open>The callback given to the signer.\<close>

definition signature_call :: "auth_json \<Rightarrow> string \<Rightarrow> string result \<Rightarrow> auth_flow \<Rightarrow> auth_flow" where
  "signature_call io challenge signature q =
     (case signature of
        Inl e \<Rightarrow> deliver (token_answer (Inl e)) q
      | Inr s \<Rightarrow>
          if au_stop_requested q
          then deliver (token_answer (Inl (mk_error cancelled ''authentication cancelled'' ''''))) q
          else
            (case encode_auth_proof io \<lparr>ap_signer = au_signer q, ap_signature = s, ap_message = challenge\<rparr> (au_limits q) of
               Inl e \<Rightarrow> deliver (token_answer (Inl e)) q
             | Inr body \<Rightarrow> q\<lparr>au_due := Some (request_due http_post auth_exchange_target body token_handler)\<rparr>))"

definition auth_request :: "auth_flow \<Rightarrow> http_method \<Rightarrow> string \<Rightarrow> string \<Rightarrow> string \<Rightarrow> http_request" where
  "auth_request q method target body key =
     default_request\<lparr>rq_method := method, rq_host := api_host (au_environment q), rq_target := target,
       rq_use_tls := True, rq_body := body,
       rq_headers := (if key \<noteq> [] then [\<lparr>hd_name = ''x-api-key'', hd_value = key\<rparr>] else [])\<rparr>"

text \<open>\<open>provided\<close>: \<open>None\<close> when the key provider throws, empty when there is none.\<close>

definition auth_send ::
    "auth_json \<Rightarrow> bool \<Rightarrow> int \<Rightarrow> string option \<Rightarrow> http_method \<Rightarrow> string \<Rightarrow> string \<Rightarrow> raw_handler \<Rightarrow> auth_flow \<Rightarrow> auth_flow" where
  "auth_send io throws now provided method target body k q =
     (if au_stop_requested q then raw_call io throws k (Inl (mk_error cancelled ''request cancelled'' '''')) q
      else if (case au_deadline q of Some d \<Rightarrow> d \<le> now | None \<Rightarrow> False)
      then raw_call io throws k (Inl (mk_error deadline_exceeded ''request deadline exceeded'' '''')) q
      else case provided of
        None \<Rightarrow> raw_call io throws k (Inl (mk_error authentication_required ''API key provider failed'' '''')) q
      | Some key \<Rightarrow>
          if au_environment q = env_mainnet \<and> key = []
          then raw_call io throws k
                 (Inl (mk_error authentication_required ''Predict.fun mainnet requires an API key'' '''')) q
          else q\<lparr>au_requests := au_requests q @ [auth_request q method target body key],
                 au_due := Some (response_due target k)\<rparr>)"

definition reserve_and_send ::
    "auth_json \<Rightarrow> bool \<Rightarrow> int \<Rightarrow> int \<Rightarrow> int \<Rightarrow> string option \<Rightarrow> http_method \<Rightarrow> string \<Rightarrow> string \<Rightarrow> raw_handler
       \<Rightarrow> auth_flow \<Rightarrow> auth_flow" where
  "reserve_and_send io throws now later wait provided method target body k q =
     (if au_stop_requested q then raw_call io throws k (Inl (mk_error cancelled ''request cancelled'' '''')) q
      else if (case au_deadline q of Some d \<Rightarrow> d \<le> now | None \<Rightarrow> False)
      then raw_call io throws k (Inl (mk_error deadline_exceeded ''request deadline exceeded'' '''')) q
      else if wait = 0 then auth_send io throws later provided method target body k q
      else if (case au_deadline q of Some d \<Rightarrow> now + wait \<ge> d | None \<Rightarrow> False)
      then raw_call io throws k (Inl (mk_error deadline_exceeded ''rate limit wait exceeds request deadline'' '''')) q
      else q\<lparr>au_due := Some (wait_due method target body k)\<rparr>)"

definition auth_timer ::
    "auth_json \<Rightarrow> bool \<Rightarrow> bool \<Rightarrow> int \<Rightarrow> string option \<Rightarrow> http_method \<Rightarrow> string \<Rightarrow> string \<Rightarrow> raw_handler
       \<Rightarrow> auth_flow \<Rightarrow> auth_flow" where
  "auth_timer io throws failed now provided method target body k q =
     (if failed then raw_call io throws k (Inl (mk_error cancelled ''request wait cancelled'' '''')) q
      else auth_send io throws now provided method target body k q)"

text \<open>What the response handler of \<open>send\<close> passes on; a 429 penalises the endpoint with the delay it reports.\<close>

definition auth_retry :: "(string \<Rightarrow> int option) \<Rightarrow> int \<Rightarrow> http_response \<Rightarrow> int" where
  "auth_retry get_time clock response =
     (case parse_retry_after get_time (response_header response ''Retry-After'') clock 500 60000 of
        Inr d \<Rightarrow> d | Inl _ \<Rightarrow> 0)"

definition auth_status :: "(string \<Rightarrow> int option) \<Rightarrow> int \<Rightarrow> http_response result \<Rightarrow> http_response result" where
  "auth_status get_time clock result =
     bind_res result (\<lambda>response.
       let status = rs_status response in
       if 200 \<le> status \<and> status < 300 then result
       else if 300 \<le> status \<and> status < 400
       then Inl (http_error http_redirect status ''HTTP redirect rejected'' 0)
       else if status = 401 \<or> status = 403
       then Inl (http_error authentication_required status ''Predict.fun authentication rejected'' 0)
       else if status = 429
       then Inl (http_error rate_limited status ''Predict.fun rate limit exceeded'' (auth_retry get_time clock response))
       else if status \<ge> 500 then Inl (http_error http_server_error status ''Predict.fun server error'' 0)
       else Inl (http_error http_client_error status ''Predict.fun request rejected'' 0))"

definition auth_penalize :: "(string \<Rightarrow> int option) \<Rightarrow> int \<Rightarrow> http_response result \<Rightarrow> auth_flow \<Rightarrow> auth_flow" where
  "auth_penalize get_time clock result q =
     (case result of
        Inl e \<Rightarrow> q
      | Inr response \<Rightarrow> if rs_status response = 429
          then q\<lparr>au_penalties := au_penalties q @ [auth_retry get_time clock response]\<rparr> else q)"

definition auth_response ::
    "auth_json \<Rightarrow> bool \<Rightarrow> (string \<Rightarrow> int option) \<Rightarrow> int \<Rightarrow> raw_handler \<Rightarrow> http_response result \<Rightarrow> auth_flow \<Rightarrow> auth_flow" where
  "auth_response io throws get_time clock k result q =
     raw_call io throws k (auth_status get_time clock result) (auth_penalize get_time clock result q)"

subsection \<open>The calls\<close>

record auth_options =
  ao_environment :: environment
  ao_codec_limits :: auth_codec_limits

definition new_flow :: "auth_options \<Rightarrow> int option \<Rightarrow> evm_address \<Rightarrow> auth_due \<Rightarrow> auth_flow" where
  "new_flow options deadline signer due =
     \<lparr>au_environment = ao_environment options, au_limits = ao_codec_limits options, au_deadline = deadline,
      au_signer = signer, au_stop_requested = False, au_due = Some due, au_requests = [], au_penalties = [],
      au_answers = [], au_bad_call = False\<rparr>"

definition async_get_message :: "auth_options \<Rightarrow> int option \<Rightarrow> auth_flow" where
  "async_get_message options deadline =
     new_flow options deadline evm_default (request_due http_get auth_message_target [] message_handler)"

definition async_exchange_token :: "auth_json \<Rightarrow> auth_options \<Rightarrow> auth_proof \<Rightarrow> int option \<Rightarrow> auth_flow" where
  "async_exchange_token io options proof deadline =
     new_flow options deadline (ap_signer proof)
       (case encode_auth_proof io proof (ao_codec_limits options) of
          Inl e \<Rightarrow> error_due e
        | Inr body \<Rightarrow> request_due http_post auth_exchange_target body token_handler)"

text \<open>The signer is its address; \<open>None\<close> is the null pointer.\<close>

definition async_authenticate :: "auth_options \<Rightarrow> evm_address option \<Rightarrow> int option \<Rightarrow> auth_flow" where
  "async_authenticate options signer deadline =
     (case signer of
        None \<Rightarrow> new_flow options deadline evm_default
          (error_due (mk_error invalid_argument ''message signer is required'' ''signer''))
      | Some address \<Rightarrow> new_flow options deadline address
          (request_due http_get auth_message_target [] challenge_handler))"

text \<open>The callback that is owed runs, or the caller requests a stop.\<close>

inductive auth_step :: "auth_json \<Rightarrow> (string \<Rightarrow> int option) \<Rightarrow> auth_flow \<Rightarrow> auth_flow \<Rightarrow> bool" for io get_time where
  starts: "au_due q = Some (request_due method target body k) \<Longrightarrow>
    auth_step io get_time q (reserve_and_send io throws now later wait provided method target body k (q\<lparr>au_due := None\<rparr>))"
| fires: "au_due q = Some (wait_due method target body k) \<Longrightarrow>
    auth_step io get_time q (auth_timer io throws failed now provided method target body k (q\<lparr>au_due := None\<rparr>))"
| answers: "au_due q = Some (response_due endpoint k) \<Longrightarrow>
    auth_step io get_time q (auth_response io throws get_time clock k result (q\<lparr>au_due := None\<rparr>))"
| signs: "au_due q = Some (signature_due challenge) \<Longrightarrow>
    auth_step io get_time q (signature_call io challenge signature (q\<lparr>au_due := None\<rparr>))"
| fails: "au_due q = Some (error_due e) \<Longrightarrow>
    auth_step io get_time q (deliver (token_answer (Inl e)) (q\<lparr>au_due := None\<rparr>))"
| stops: "\<not> au_stop_requested q \<Longrightarrow> auth_step io get_time q (q\<lparr>au_stop_requested := True\<rparr>)"

inductive_cases auth_stepE: "auth_step io get_time q q'"

section \<open>What the codec reports\<close>

text \<open>The errors of the two decoders: fixed texts, whatever the response holds.\<close>

definition auth_errors :: "string \<Rightarrow> string \<Rightarrow> error list" where
  "auth_errors purpose item =
     [mk_error body_too_large ''authentication response exceeds configured limit'' '''',
      mk_error malformed_json ''authentication response is malformed JSON'' '''',
      auth_missing ''success'', auth_missing ''data'', auth_missing (''data.'' @ item),
      mk_error venue_rejected (''Predict.fun rejected the authentication '' @ purpose) '''',
      mk_error invalid_field (''authentication '' @ item @ '' has an invalid length'') (''data.'' @ item)]"

lemma auth_parse_cases:
  "auth_parse read json limits = Inl (mk_error body_too_large ''authentication response exceeds configured limit'' '''')
   \<or> auth_parse read json limits = Inl (mk_error malformed_json ''authentication response is malformed JSON'' '''')
   \<or> (\<exists>w. read json = Some w \<and> length json \<le> al_max_body_bytes limits \<and> auth_parse read json limits = Inr w)"
  by (auto simp: auth_parse_def guard_res_def require_def split: option.split)

lemma decode_message_cases:
  "(\<exists>e\<in>set (auth_errors ''request'' ''message''). decode_auth_message_response io json limits = Inl e)
   \<or> (\<exists>m. decode_auth_message_response io json limits = Inr m \<and> am_message m \<noteq> [] \<and>
        length (am_message m) \<le> al_max_message_bytes limits)"
  using auth_parse_cases [of "aj_message io" json limits]
  by (auto simp: decode_auth_message_response_def auth_errors_def bind_res_def guard_res_def require_def
      split: option.split)

lemma decode_token_cases:
  "(\<exists>e\<in>set (auth_errors ''proof'' ''token''). decode_auth_token_response io json limits = Inl e)
   \<or> (\<exists>j. decode_auth_token_response io json limits = Inr j \<and> jwt_token j \<noteq> [] \<and>
        length (jwt_token j) \<le> al_max_token_bytes limits)"
  using auth_parse_cases [of "aj_token io" json limits]
  by (auto simp: decode_auth_token_response_def auth_errors_def bind_res_def guard_res_def require_def
      split: option.split)

section \<open>Invariant\<close>

text \<open>What may be sent: the request for a challenge, or a proof of the flow's signer.\<close>

definition sendable :: "auth_json \<Rightarrow> auth_flow \<Rightarrow> http_method \<Rightarrow> string \<Rightarrow> string \<Rightarrow> bool" where
  "sendable io q method target body \<longleftrightarrow>
     method = http_get \<and> target = auth_message_target \<and> body = []
     \<or> method = http_post \<and> target = auth_exchange_target \<and>
       (\<exists>s ch. encode_auth_proof io \<lparr>ap_signer = au_signer q, ap_signature = s, ap_message = ch\<rparr> (au_limits q) = Inr body)"

definition auth_request_ok :: "auth_json \<Rightarrow> auth_flow \<Rightarrow> http_request \<Rightarrow> bool" where
  "auth_request_ok io q r \<longleftrightarrow> sendable io q (rq_method r) (rq_target r) (rq_body r) \<and>
     rq_host r = api_host (au_environment q) \<and> rq_use_tls r \<and>
     (au_environment q = env_mainnet \<longrightarrow> (\<exists>key. key \<noteq> [] \<and> rq_headers r = [\<lparr>hd_name = ''x-api-key'', hd_value = key\<rparr>]))"

text \<open>The requests still to come, and the steps, by what is owed.\<close>

fun requests_left :: "auth_due \<Rightarrow> nat" where
  "requests_left (request_due m t b k) = (if k = challenge_handler then 2 else 1)"
| "requests_left (wait_due m t b k) = (if k = challenge_handler then 2 else 1)"
| "requests_left (response_due e k) = (if k = challenge_handler then 1 else 0)"
| "requests_left (signature_due c) = 1"
| "requests_left (error_due e) = 0"

fun due_rank :: "auth_due option \<Rightarrow> nat" where
  "due_rank None = 0"
| "due_rank (Some (request_due m t b k)) = (if k = challenge_handler then 7 else 3)"
| "due_rank (Some (wait_due m t b k)) = (if k = challenge_handler then 6 else 2)"
| "due_rank (Some (response_due e k)) = (if k = challenge_handler then 5 else 1)"
| "due_rank (Some (signature_due c)) = 4"
| "due_rank (Some (error_due e)) = 1"

fun due_ok :: "auth_json \<Rightarrow> auth_flow \<Rightarrow> auth_due \<Rightarrow> bool" where
  "due_ok io q (request_due m t b k) = sendable io q m t b"
| "due_ok io q (wait_due m t b k) = sendable io q m t b"
| "due_ok io q d = True"

definition auth_inv :: "auth_json \<Rightarrow> auth_flow \<Rightarrow> bool" where
  "auth_inv io q \<longleftrightarrow> list_all (auth_request_ok io q) (au_requests q) \<and>
     (case au_due q of
        None \<Rightarrow> length (au_answers q) + of_bool (au_bad_call q) = 1 \<and> length (au_requests q) \<le> 2
      | Some d \<Rightarrow> au_answers q = [] \<and> \<not> au_bad_call q \<and> due_ok io q d \<and>
          length (au_requests q) + requests_left d \<le> 2)"

text \<open>Inside a callback, with \<open>n\<close> requests still allowed.\<close>

definition auth_body :: "auth_json \<Rightarrow> nat \<Rightarrow> auth_flow \<Rightarrow> bool" where
  "auth_body io n q \<longleftrightarrow> list_all (auth_request_ok io q) (au_requests q) \<and> au_due q = None \<and> au_answers q = [] \<and>
     \<not> au_bad_call q \<and> length (au_requests q) + n \<le> 2"

definition auth_frame :: "auth_flow \<Rightarrow> environment \<times> auth_codec_limits \<times> evm_address" where
  "auth_frame q = (au_environment q, au_limits q, au_signer q)"

lemma request_ok_frame: "auth_frame q' = auth_frame q \<Longrightarrow> auth_request_ok io q' = auth_request_ok io q"
  by (simp add: auth_frame_def auth_request_ok_def sendable_def fun_eq_iff)

lemma due_ok_frame: "auth_frame q' = auth_frame q \<Longrightarrow> due_ok io q' d = due_ok io q d"
  by (cases d) (simp_all add: auth_frame_def sendable_def)

lemma auth_frame_update [simp]:
  "auth_frame (q\<lparr>au_due := d\<rparr>) = auth_frame q" "auth_frame (q\<lparr>au_answers := as\<rparr>) = auth_frame q"
  "auth_frame (q\<lparr>au_bad_call := b\<rparr>) = auth_frame q" "auth_frame (q\<lparr>au_requests := rs\<rparr>) = auth_frame q"
  "auth_frame (q\<lparr>au_penalties := ps\<rparr>) = auth_frame q" "auth_frame (q\<lparr>au_stop_requested := b\<rparr>) = auth_frame q"
  by (simp_all add: auth_frame_def)

lemmas auth_frame_simps = auth_frame_update [THEN request_ok_frame] auth_frame_update [THEN due_ok_frame]

lemma inv_body:
  "auth_inv io q \<Longrightarrow> au_due q = Some d \<Longrightarrow> auth_body io (requests_left d) (q\<lparr>au_due := None\<rparr>) \<and> due_ok io q d"
  by (simp add: auth_inv_def auth_body_def auth_frame_simps)

lemma body_Suc: "auth_body io (Suc n) q \<Longrightarrow> auth_body io n q"
  by (simp add: auth_body_def)

lemma inv_deliver: "auth_body io n q \<Longrightarrow> auth_inv io (deliver a q)"
  by (simp add: auth_body_def auth_inv_def deliver_def auth_frame_simps)

lemma inv_signer_failed: "auth_body io n q \<Longrightarrow> auth_inv io (signer_failed left q)"
  by (cases left; simp add: signer_failed_def inv_deliver) (simp add: auth_body_def auth_inv_def auth_frame_simps)

lemma inv_due: "auth_body io (requests_left d) q \<Longrightarrow> due_ok io q d \<Longrightarrow> auth_inv io (q\<lparr>au_due := Some d\<rparr>)"
  by (simp add: auth_body_def auth_inv_def auth_frame_simps)

fun handler_requests :: "raw_handler \<Rightarrow> nat" where
  "handler_requests challenge_handler = 1"
| "handler_requests k = 0"

lemma requests_left_handler [simp]:
  "requests_left (request_due m t b k) = Suc (handler_requests k)"
  "requests_left (wait_due m t b k) = Suc (handler_requests k)"
  "requests_left (response_due e k) = handler_requests k"
  by (cases k; simp)+

lemma due_rank_handler [simp]:
  "due_rank (Some (request_due m t b k)) = 4 * handler_requests k + 3"
  "due_rank (Some (wait_due m t b k)) = 4 * handler_requests k + 2"
  "due_rank (Some (response_due e k)) = 4 * handler_requests k + 1"
  by (cases k; simp)+

declare requests_left.simps(1-3) [simp del] due_rank.simps(2-4) [simp del]

lemma inv_raw_call: "auth_body io (handler_requests k) q \<Longrightarrow> auth_inv io (raw_call io throws k raw q)"
  by (cases k)
    (auto simp: raw_call_def challenge_call_def inv_deliver inv_signer_failed inv_due
      split: sum.split)

lemma inv_signature_call: "auth_body io 1 q \<Longrightarrow> auth_inv io (signature_call io ch s q)"
  by (auto simp: signature_call_def inv_deliver intro!: inv_due split: sum.split)
    (auto simp: sendable_def)

lemma inv_send:
  assumes "auth_body io (Suc (handler_requests k)) q" and "sendable io q m t b"
  shows "auth_inv io (auth_send io throws now provided m t b k q)"
proof -
  have call: "auth_inv io (raw_call io throws k raw q)" for raw
    by (rule inv_raw_call, rule body_Suc, rule assms(1))
  have "auth_inv io (q\<lparr>au_requests := au_requests q @ [auth_request q m t b key], au_due := Some (response_due t k)\<rparr>)"
    if "au_environment q = env_mainnet \<longrightarrow> key \<noteq> []" for key
    using assms that
    by (auto simp: auth_body_def auth_inv_def auth_frame_simps auth_request_ok_def auth_request_def
        default_request_def)
  then show ?thesis
    by (auto simp: auth_send_def call split: option.split)
qed

lemma inv_reserve:
  assumes "auth_body io (Suc (handler_requests k)) q" and "sendable io q m t b"
  shows "auth_inv io (reserve_and_send io throws now later wait provided m t b k q)"
proof -
  have "auth_inv io (raw_call io throws k raw q)" for raw
    by (rule inv_raw_call, rule body_Suc, rule assms(1))
  moreover have "auth_inv io (q\<lparr>au_due := Some (wait_due m t b k)\<rparr>)"
    using assms by (intro inv_due) simp_all
  ultimately show ?thesis
    using inv_send [OF assms] by (simp add: reserve_and_send_def)
qed

lemma penalize_kept [simp]:
  "au_due (auth_penalize get_time clock result q) = au_due q"
  "au_stop_requested (auth_penalize get_time clock result q) = au_stop_requested q"
  "auth_frame (auth_penalize get_time clock result q) = auth_frame q"
  by (simp_all add: auth_penalize_def split: sum.split)

lemma body_penalize: "auth_body io n q \<Longrightarrow> auth_body io n (auth_penalize get_time clock result q)"
  by (simp add: auth_body_def auth_penalize_def auth_frame_simps split: sum.split)

lemma auth_inv_step: "auth_step io get_time q q' \<Longrightarrow> auth_inv io q \<Longrightarrow> auth_inv io q'"
proof (induction rule: auth_step.induct)
  case (starts q m t b k throws now later wait provided)
  then show ?case
    using inv_body [of io q "request_due m t b k"]
    by (intro inv_reserve) (auto simp: sendable_def)
next
  case (fires q m t b k throws failed now provided)
  have body: "auth_body io (Suc (handler_requests k)) (q\<lparr>au_due := None\<rparr>)" "sendable io (q\<lparr>au_due := None\<rparr>) m t b"
    using fires inv_body [of io q "wait_due m t b k"] by (auto simp: sendable_def)
  show ?case
    using inv_send [OF body] inv_raw_call [OF body_Suc [OF body(1)]] by (simp add: auth_timer_def)
next
  case (answers q endpoint k throws clock result)
  then have body: "auth_body io (handler_requests k) (q\<lparr>au_due := None\<rparr>)"
    using inv_body [of io q "response_due endpoint k"] by (auto simp: split: if_splits)
  then show ?case
    by (simp add: auth_response_def inv_raw_call body_penalize)
next
  case (signs q challenge signature)
  then show ?case
    using inv_body [of io q "signature_due challenge"] by (simp add: inv_signature_call)
next
  case (fails q e)
  then show ?case
    using inv_body [of io q "error_due e"] inv_deliver by fastforce
next
  case (stops q)
  then show ?case
    by (cases "au_bad_call q") (simp_all add: auth_inv_def auth_frame_simps split: option.splits)
qed

section \<open>Termination\<close>

definition auth_rank :: "auth_flow \<Rightarrow> nat" where
  "auth_rank q = due_rank (au_due q) + of_bool (\<not> au_stop_requested q)"

lemma raw_call_due: "au_due q = None \<Longrightarrow> due_rank (au_due (raw_call io throws k raw q)) \<le> 4 * handler_requests k"
  by (cases k) (auto simp: raw_call_def challenge_call_def deliver_def signer_failed_def
      split: sum.split)

lemma send_due:
  assumes "au_due q = None"
  shows "due_rank (au_due (auth_send io throws now provided m t b k q)) \<le> 4 * handler_requests k + 1"
proof -
  have "due_rank (au_due (raw_call io throws k raw q)) \<le> Suc (4 * handler_requests k)" for raw
    using raw_call_due [OF assms, of io throws k raw] by simp
  then show ?thesis
    by (simp add: auth_send_def split: option.split)
qed

lemma reserve_due:
  assumes "au_due q = None"
  shows "due_rank (au_due (reserve_and_send io throws now later wait provided m t b k q)) \<le> 4 * handler_requests k + 2"
proof -
  have "due_rank (au_due (raw_call io throws k raw q)) \<le> Suc (Suc (4 * handler_requests k))" for raw
    using raw_call_due [OF assms, of io throws k raw] by simp
  then show ?thesis
    using send_due [OF assms, of io throws later provided m t b k] by (simp add: reserve_and_send_def)
qed

lemma stop_requested_kept [simp]:
  "au_stop_requested (raw_call io throws k raw q) = au_stop_requested q"
  "au_stop_requested (auth_send io throws now provided m t b k q) = au_stop_requested q"
  "au_stop_requested (reserve_and_send io throws now later wait provided m t b k q) = au_stop_requested q"
  "au_stop_requested (signature_call io ch s q) = au_stop_requested q"
  "au_stop_requested (deliver a q) = au_stop_requested q"
  by (auto simp: raw_call_def challenge_call_def deliver_def signer_failed_def auth_send_def reserve_and_send_def
      signature_call_def Let_def split: raw_handler.split sum.split option.split)

lemma frame_kept [simp]:
  "auth_frame (raw_call io throws k raw q) = auth_frame q"
  "auth_frame (auth_send io throws now provided m t b k q) = auth_frame q"
  "auth_frame (reserve_and_send io throws now later wait provided m t b k q) = auth_frame q"
  "auth_frame (signature_call io ch s q) = auth_frame q"
  "auth_frame (deliver a q) = auth_frame q"
  by (auto simp: raw_call_def challenge_call_def deliver_def signer_failed_def auth_send_def reserve_and_send_def
      signature_call_def Let_def split: raw_handler.split sum.split option.split)

lemma auth_frame_step: "auth_step io get_time q q' \<Longrightarrow> auth_frame q' = auth_frame q"
  by (erule auth_stepE) (simp_all add: auth_timer_def auth_response_def)

lemma signature_due_rank: "au_due q = None \<Longrightarrow> due_rank (au_due (signature_call io ch s q)) \<le> 3"
  by (auto simp: signature_call_def deliver_def split: sum.split)

lemma auth_rank_step: "auth_step io get_time q q' \<Longrightarrow> auth_rank q' < auth_rank q"
proof (induction rule: auth_step.induct)
  case (starts q m t b k throws now later wait provided)
  then show ?case
    using reserve_due [of "q\<lparr>au_due := None\<rparr>" io throws now later wait provided m t b k]
    by (simp add: auth_rank_def split: if_splits)
next
  case (fires q m t b k throws failed now provided)
  then show ?case
    using send_due [of "q\<lparr>au_due := None\<rparr>" io throws now provided m t b k]
      raw_call_due [of "q\<lparr>au_due := None\<rparr>" io throws k "Inl (mk_error cancelled ''request wait cancelled'' '''')"]
    by (simp add: auth_rank_def auth_timer_def split: if_splits)
next
  case (answers q endpoint k throws clock result)
  then show ?case
    using raw_call_due [of "auth_penalize get_time clock result (q\<lparr>au_due := None\<rparr>)" io throws k "auth_status get_time clock result"]
    by (simp add: auth_rank_def auth_response_def)
next
  case (signs q challenge signature)
  then show ?case
    using signature_due_rank [of "q\<lparr>au_due := None\<rparr>" io challenge signature] by (simp add: auth_rank_def)
qed (simp_all add: auth_rank_def deliver_def)

interpretation auth_machine: bounded_machine "auth_step io get_time" "auth_inv io" auth_frame auth_rank for io get_time
  by unfold_locales (simp_all add: auth_inv_step auth_frame_step auth_rank_step)

section \<open>The order of the requests\<close>

text \<open>The methods of the requests sent and of those that may still come: a step can only cut the plan short.\<close>

definition handler_posts :: "raw_handler \<Rightarrow> http_method list" where
  "handler_posts k = (if k = challenge_handler then [http_post] else [])"

fun coming :: "auth_due option \<Rightarrow> http_method list" where
  "coming None = []"
| "coming (Some (request_due m t b k)) = m # handler_posts k"
| "coming (Some (wait_due m t b k)) = m # handler_posts k"
| "coming (Some (response_due e k)) = handler_posts k"
| "coming (Some (signature_due c)) = [http_post]"
| "coming (Some (error_due e)) = []"

definition auth_plan :: "auth_flow \<Rightarrow> http_method list" where
  "auth_plan q = map rq_method (au_requests q) @ coming (au_due q)"

lemma plan_raw_call:
  "au_due q = None \<Longrightarrow> prefix (auth_plan (raw_call io throws k raw q))
     (map rq_method (au_requests q) @ handler_posts k)"
  by (cases k)
    (auto simp: handler_posts_def raw_call_def challenge_call_def signer_failed_def deliver_def auth_plan_def split: sum.split)

lemma plan_call_first:
  "au_due q = None \<Longrightarrow> prefix (auth_plan (raw_call io throws k (Inl e) q)) (map rq_method (au_requests q) @ m # handler_posts k)"
  by (cases k) (auto simp: raw_call_def challenge_call_def deliver_def auth_plan_def)

lemma plan_requested:
  "auth_plan (q\<lparr>au_requests := au_requests q @ [auth_request q m t b key], au_due := Some (response_due t k)\<rparr>) =
     map rq_method (au_requests q) @ m # handler_posts k"
  by (simp add: auth_plan_def auth_request_def)

lemma plan_send:
  "au_due q = None \<Longrightarrow> prefix (auth_plan (auth_send io throws now provided m t b k q))
     (map rq_method (au_requests q) @ m # handler_posts k)"
  by (simp add: auth_send_def plan_call_first plan_requested split: option.split)

lemma plan_step: "auth_step io get_time q q' \<Longrightarrow> prefix (auth_plan q') (auth_plan q)"
proof (induction rule: auth_step.induct)
  case (starts q m t b k throws now later wait provided)
  let ?q = "q\<lparr>au_due := None\<rparr>"
  have "auth_plan q = map rq_method (au_requests ?q) @ m # handler_posts k"
    "auth_plan (?q\<lparr>au_due := Some (wait_due m t b k)\<rparr>) = map rq_method (au_requests ?q) @ m # handler_posts k"
    using starts by (simp_all add: auth_plan_def)
  then show ?case
    by (simp add: reserve_and_send_def plan_send [of ?q, simplified] plan_call_first [of ?q, simplified])
next
  case (fires q m t b k throws failed now provided)
  let ?q = "q\<lparr>au_due := None\<rparr>"
  have "auth_plan q = map rq_method (au_requests ?q) @ m # handler_posts k"
    using fires by (simp add: auth_plan_def)
  then show ?case
    by (simp add: auth_timer_def plan_send [of ?q, simplified] plan_call_first [of ?q, simplified])
next
  case (answers q endpoint k throws clock result)
  have "au_requests (auth_penalize get_time clock result (q\<lparr>au_due := None\<rparr>)) = au_requests q"
    by (simp add: auth_penalize_def split: sum.split)
  then show ?case
    using answers plan_raw_call [of "auth_penalize get_time clock result (q\<lparr>au_due := None\<rparr>)" io throws k
        "auth_status get_time clock result"]
    by (simp add: auth_response_def auth_plan_def)
next
  case (signs q challenge signature)
  then show ?case
    by (auto simp: signature_call_def deliver_def auth_plan_def handler_posts_def split: sum.split)
qed (auto simp: deliver_def auth_plan_def)

lemma plan_run: "(auth_step io get_time)\<^sup>*\<^sup>* q q' \<Longrightarrow> prefix (map rq_method (au_requests q')) (auth_plan q)"
proof -
  assume "(auth_step io get_time)\<^sup>*\<^sup>* q q'"
  then have "prefix (auth_plan q') (auth_plan q)"
    by (induction rule: rtranclp_induct) (auto dest: plan_step intro: prefix_order.trans)
  then show ?thesis
    unfolding auth_plan_def [of q'] by (rule append_prefixD)
qed

lemma initial_plan:
  "auth_plan (async_get_message options deadline) = [http_get]"
  "prefix (auth_plan (async_exchange_token io options pf deadline)) [http_post]"
  "prefix (auth_plan (async_authenticate options signer deadline)) [http_get, http_post]"
  by (auto simp: auth_plan_def handler_posts_def async_get_message_def async_exchange_token_def async_authenticate_def new_flow_def
      split: sum.split option.split)

section \<open>Properties\<close>

lemma initial_inv:
  "auth_inv io (async_get_message options deadline)"
  "auth_inv io (async_exchange_token io options pf deadline)"
  "auth_inv io (async_authenticate options signer deadline)"
  by (cases pf; auto simp: auth_inv_def async_get_message_def async_exchange_token_def async_authenticate_def
      new_flow_def sendable_def split: sum.split option.split)+

lemma initial_rank:
  "auth_rank (async_get_message options deadline) \<le> 8"
  "auth_rank (async_exchange_token io options pf deadline) \<le> 8"
  "auth_rank (async_authenticate options signer deadline) \<le> 8"
  by (auto simp: auth_rank_def async_get_message_def async_exchange_token_def async_authenticate_def new_flow_def
      split: sum.split option.split)

lemma initial_environment:
  "au_environment (async_get_message options deadline) = ao_environment options"
  "au_environment (async_exchange_token io options pf deadline) = ao_environment options"
  "au_environment (async_authenticate options signer deadline) = ao_environment options"
  by (auto simp: async_get_message_def async_exchange_token_def async_authenticate_def new_flow_def split: option.split)

lemma auth_call_spec:
  assumes "q0 = async_get_message options deadline \<and> plan = [http_get]
      \<or> q0 = async_exchange_token io options pf deadline \<and> plan = [http_post]
      \<or> q0 = async_authenticate options signer deadline \<and> plan = [http_get, http_post]"
    and "(auth_step io get_time ^^ n) q0 q"
  shows "n \<le> 8" and "length (au_answers q) \<le> 1"
    and "au_due q = None \<Longrightarrow> length (au_answers q) = 1 \<or> au_answers q = [] \<and> au_bad_call q"
    and "prefix (map rq_method (au_requests q)) plan"
    and "\<forall>r\<in>set (au_requests q). rq_host r = api_host (ao_environment options) \<and> rq_use_tls r
      \<and> (rq_method r = http_get \<and> rq_target r = auth_message_target \<and> rq_body r = []
         \<or> rq_method r = http_post \<and> rq_target r = auth_exchange_target \<and>
           (\<exists>s ch. encode_auth_proof io \<lparr>ap_signer = au_signer q0, ap_signature = s, ap_message = ch\<rparr> (au_limits q0)
              = Inr (rq_body r)))
      \<and> (ao_environment options = env_mainnet \<longrightarrow>
         (\<exists>key. key \<noteq> [] \<and> rq_headers r = [\<lparr>hd_name = ''x-api-key'', hd_value = key\<rparr>]))"
proof -
  have q0: "auth_inv io q0" "auth_rank q0 \<le> 8" "au_environment q0 = ao_environment options"
    using assms(1) initial_inv initial_rank initial_environment by auto
  have kept: "auth_inv io q" "auth_frame q = auth_frame q0"
    using auth_machine.steps_kept [OF assms(2) q0(1)] by simp_all
  show "n \<le> 8"
    using auth_machine.steps_bounded [OF assms(2)] q0(2) by simp
  show "length (au_answers q) \<le> 1"
    using kept(1) by (auto simp: auth_inv_def split: option.splits if_splits)
  show "prefix (map rq_method (au_requests q)) plan"
    using assms(1) plan_run [OF relpowp_imp_rtranclp [OF assms(2)]] initial_plan
    by (metis prefix_order.trans)
  show "au_due q = None \<Longrightarrow> length (au_answers q) = 1 \<or> au_answers q = [] \<and> au_bad_call q"
    using kept(1) by (cases "au_bad_call q") (auto simp: auth_inv_def)
  have "auth_request_ok io q0 r" if "r \<in> set (au_requests q)" for r
    using kept that by (simp add: auth_inv_def list_all_iff request_ok_frame [OF kept(2)])
  then show "\<forall>r\<in>set (au_requests q). rq_host r = api_host (ao_environment options) \<and> rq_use_tls r
      \<and> (rq_method r = http_get \<and> rq_target r = auth_message_target \<and> rq_body r = []
         \<or> rq_method r = http_post \<and> rq_target r = auth_exchange_target \<and>
           (\<exists>s ch. encode_auth_proof io \<lparr>ap_signer = au_signer q0, ap_signature = s, ap_message = ch\<rparr> (au_limits q0)
              = Inr (rq_body r)))
      \<and> (ao_environment options = env_mainnet \<longrightarrow>
         (\<exists>key. key \<noteq> [] \<and> rq_headers r = [\<lparr>hd_name = ''x-api-key'', hd_value = key\<rparr>]))"
    using q0(3) by (auto simp: auth_request_ok_def sendable_def)
qed

definition sample_auth_json :: auth_json where
  "sample_auth_json =
     \<lparr>aj_message = (\<lambda>_. Some \<lparr>wamr_success = Some True, wamr_data = Some \<lparr>wam_message = Some ''Sign in''\<rparr>\<rparr>),
      aj_token = (\<lambda>_. Some \<lparr>watr_success = Some True, watr_data = Some \<lparr>wat_token = Some ''jwt''\<rparr>\<rparr>),
      aj_proof = (\<lambda>p. Some (wap_signer p @ wap_signature p @ wap_message p))\<rparr>"

definition sample_auth_options :: auth_options where
  "sample_auth_options = \<lparr>ao_environment = env_testnet, ao_codec_limits = default_auth_limits\<rparr>"

definition sample_auth_signer :: evm_address where
  "sample_auth_signer = \<lparr>evm_bytes = replicate 20 1\<rparr>"

text \<open>An exchange on the test network: challenge, signature, proof, token.\<close>

definition sample_ok :: "http_response result" where
  "sample_ok = Inr \<lparr>rs_status = 200, rs_body = ''{}'', rs_headers = []\<rparr>"

definition sample_auth_send :: "http_method \<Rightarrow> string \<Rightarrow> string \<Rightarrow> raw_handler \<Rightarrow> auth_flow \<Rightarrow> auth_flow" where
  "sample_auth_send method target body k q =
     reserve_and_send sample_auth_json False 0 0 0 (Some []) method target body k (q\<lparr>au_due := None\<rparr>)"

definition sample_auth_answer :: "bool \<Rightarrow> raw_handler \<Rightarrow> auth_flow \<Rightarrow> auth_flow" where
  "sample_auth_answer throws k q =
     auth_response sample_auth_json throws (\<lambda>_. None) 0 k sample_ok (q\<lparr>au_due := None\<rparr>)"

definition sample_auth_0 :: auth_flow where
  "sample_auth_0 = async_authenticate sample_auth_options (Some sample_auth_signer) None"

definition sample_auth_1 :: auth_flow where
  "sample_auth_1 = sample_auth_send http_get auth_message_target [] challenge_handler sample_auth_0"

definition sample_auth_2 :: auth_flow where
  "sample_auth_2 = sample_auth_answer False challenge_handler sample_auth_1"

definition sample_auth_3 :: auth_flow where
  "sample_auth_3 = signature_call sample_auth_json ''Sign in'' (Inr ''0x01'') (sample_auth_2\<lparr>au_due := None\<rparr>)"

definition sample_proof_body :: string where
  "sample_proof_body = evm_to_string sample_auth_signer @ ''0x01Sign in''"

definition sample_auth_4 :: auth_flow where
  "sample_auth_4 = sample_auth_send http_post auth_exchange_target sample_proof_body token_handler sample_auth_3"

definition sample_auth_5 :: auth_flow where
  "sample_auth_5 = sample_auth_answer False token_handler sample_auth_4"

lemma sample_auth_due:
  "au_due sample_auth_0 = Some (request_due http_get auth_message_target [] challenge_handler)"
  "au_due sample_auth_1 = Some (response_due auth_message_target challenge_handler)"
  "au_due sample_auth_2 = Some (signature_due ''Sign in'')"
  "au_due sample_auth_3 = Some (request_due http_post auth_exchange_target sample_proof_body token_handler)"
  "au_due sample_auth_4 = Some (response_due auth_exchange_target token_handler)"
  by code_simp+

lemma sample_auth_end:
  "au_due sample_auth_5 = None" "au_answers sample_auth_5 = [token_answer (Inr \<lparr>jwt_token = ''jwt''\<rparr>)]"
  by code_simp+

lemma sample_auth_steps:
  "auth_step sample_auth_json (\<lambda>_. None) sample_auth_0 sample_auth_1"
  "auth_step sample_auth_json (\<lambda>_. None) sample_auth_1 sample_auth_2"
  "auth_step sample_auth_json (\<lambda>_. None) sample_auth_2 sample_auth_3"
  "auth_step sample_auth_json (\<lambda>_. None) sample_auth_3 sample_auth_4"
  "auth_step sample_auth_json (\<lambda>_. None) sample_auth_4 sample_auth_5"
  unfolding sample_auth_1_def sample_auth_2_def sample_auth_3_def sample_auth_4_def sample_auth_5_def
    sample_auth_send_def sample_auth_answer_def
  by (rule auth_step.intros, simp only: sample_auth_due
      sample_auth_1_def [unfolded sample_auth_send_def, symmetric]
      sample_auth_2_def [unfolded sample_auth_answer_def, symmetric] sample_auth_3_def [symmetric]
      sample_auth_4_def [unfolded sample_auth_send_def, symmetric])+

lemma sample_auth_run: "(auth_step sample_auth_json (\<lambda>_. None) ^^ 5) sample_auth_0 sample_auth_5"
  using sample_auth_steps by (simp add: numeral_eq_Suc) blast

text \<open>
  C21. A call of the authentication client (\<open>async_get_message\<close>, \<open>async_exchange_token\<close> or \<open>async_authenticate\<close>), under
  any order of callbacks and stop requests: it ends after at most eight steps; the caller's handler is called at most
  once, and once when nothing is owed any more, unless the signer threw; the requests are sent in the order of the call's
  plan, each at most once: a GET for a challenge, a POST for an exchange, the GET and then the POST for an authentication.
  The GET asks for the challenge and the POST carries an encoded proof of the call's signer, over TLS to the host of the
  environment, and on mainnet with an API key.
\<close>

theorem auth_answers_once:
  assumes "q0 = async_get_message options deadline \<and> plan = [http_get]
      \<or> q0 = async_exchange_token io options pf deadline \<and> plan = [http_post]
      \<or> q0 = async_authenticate options signer deadline \<and> plan = [http_get, http_post]"
    and "(auth_step io get_time ^^ n) q0 q"
  shows
  "n \<le> 8 \<and> length (au_answers q) \<le> 1
   \<and> (au_due q = None \<longrightarrow> length (au_answers q) = 1 \<or> au_answers q = [] \<and> au_bad_call q)
   \<and> prefix (map rq_method (au_requests q)) plan
   \<and> (\<forall>r\<in>set (au_requests q). rq_host r = api_host (ao_environment options) \<and> rq_use_tls r
      \<and> (rq_method r = http_get \<and> rq_target r = auth_message_target \<and> rq_body r = []
         \<or> rq_method r = http_post \<and> rq_target r = auth_exchange_target \<and>
           (\<exists>s ch. encode_auth_proof io \<lparr>ap_signer = au_signer q0, ap_signature = s, ap_message = ch\<rparr> (au_limits q0)
              = Inr (rq_body r)))
      \<and> (ao_environment options = env_mainnet \<longrightarrow>
         (\<exists>key. key \<noteq> [] \<and> rq_headers r = [\<lparr>hd_name = ''x-api-key'', hd_value = key\<rparr>])))"
  using auth_call_spec [OF assms] by blast

theorem auth_answers_once_witness:
  "(auth_step sample_auth_json (\<lambda>_. None) ^^ 5) sample_auth_0 sample_auth_5 \<and> au_due sample_auth_5 = None
   \<and> length (au_answers sample_auth_5) = 1"
  using auth_answers_once [OF disjI2 [OF disjI2 [OF conjI [OF sample_auth_0_def refl]]] sample_auth_run] sample_auth_run sample_auth_end
  by simp

text \<open>
  A signer that throws leaves the caller of \<open>async_authenticate\<close> without an answer: once a challenge can be
  decoded, a run of two steps ends with nothing owed, no answer and a call of an empty handler, although the \<^verbatim>\<open>catch\<close> is
  written to answer that the message signer failed.
\<close>

theorem throwing_signer_loses_answer:
  assumes "decode_auth_message_response io body (ao_codec_limits options) = Inr m"
    and "ao_environment options = env_testnet"
  shows "\<exists>q. (auth_step io get_time ^^ 2) (async_authenticate options (Some signer) None) q \<and> au_due q = None
     \<and> au_answers q = [] \<and> au_bad_call q"
proof -
  define q0 where "q0 = async_authenticate options (Some signer) None"
  define q1 where "q1 = reserve_and_send io True 0 0 0 (Some []) http_get auth_message_target [] challenge_handler (q0\<lparr>au_due := None\<rparr>)"
  define q2 where "q2 = auth_response io True get_time 0 challenge_handler
    (Inr \<lparr>rs_status = 200, rs_body = body, rs_headers = []\<rparr>) (q1\<lparr>au_due := None\<rparr>)"
  have "au_due q0 = Some (request_due http_get auth_message_target [] challenge_handler)"
    by (simp add: q0_def async_authenticate_def new_flow_def)
  then have "auth_step io get_time q0 q1"
    unfolding q1_def by (rule auth_step.starts)
  moreover have q1: "au_due q1 = Some (response_due auth_message_target challenge_handler)" "\<not> au_stop_requested q1"
      "au_answers q1 = []" "au_limits q1 = ao_codec_limits options"
    using assms(2) by (simp_all add: q1_def q0_def async_authenticate_def new_flow_def reserve_and_send_def auth_send_def)
  moreover have "auth_step io get_time q1 q2"
    unfolding q2_def by (rule auth_step.answers) (rule q1)
  moreover have "au_due q2 = None" "au_answers q2 = []" "au_bad_call q2"
    using q1 assms(1)
    by (simp_all add: q2_def auth_response_def auth_penalize_def auth_status_def raw_call_def challenge_call_def
        signer_failed_def bind_res_def)
  ultimately show ?thesis
    by (fold q0_def, intro exI [of _ q2]) (auto simp: numeral_2_eq_2)
qed

theorem throwing_signer_loses_answer_witness:
  "\<exists>q. (auth_step sample_auth_json (\<lambda>_. None) ^^ 2) (async_authenticate sample_auth_options (Some sample_auth_signer) None) q
     \<and> au_due q = None \<and> au_answers q = [] \<and> au_bad_call q"
proof -
  have "decode_auth_message_response sample_auth_json ''{}'' (ao_codec_limits sample_auth_options)
      = Inr \<lparr>am_message = ''Sign in''\<rparr>"
    by code_simp
  moreover have "ao_environment sample_auth_options = env_testnet"
    by (simp add: sample_auth_options_def)
  ultimately show ?thesis
    by (rule throwing_signer_loses_answer)
qed

text \<open>
  Decoding an authentication response reveals nothing of it in an error: the error is one of seven that are fixed in
  advance, whatever the response and the JSON package's complaint about it, and a challenge or token that is accepted
  is not empty and within the configured limit.
\<close>

theorem auth_errors_redacted:
  "(case decode_auth_message_response io json limits of
      Inl e \<Rightarrow> e \<in> set (auth_errors ''request'' ''message'')
    | Inr m \<Rightarrow> am_message m \<noteq> [] \<and> length (am_message m) \<le> al_max_message_bytes limits)
   \<and> (case decode_auth_token_response io json limits of
      Inl e \<Rightarrow> e \<in> set (auth_errors ''proof'' ''token'')
    | Inr j \<Rightarrow> \<not> jwt_empty j \<and> length (jwt_token j) \<le> al_max_token_bytes limits)"
  using decode_message_cases [of io json limits] decode_token_cases [of io json limits]
  by (auto simp: jwt_empty_def)

end
