(* ===== verification/Http_Session.thy ===== *)
theory Http_Session
  imports Auth
begin

text \<open>
  The session of \<^verbatim>\<open>src/http.cpp\<close> that sends one request: the checks of the request, the request on the wire, the
  chain of resolve, connect, handshake, write and read, and its cancellation. What the sockets, the resolver and
  TLS report is an input of the steps.
\<close>

section \<open>Requests on the wire\<close>

text \<open>\<^verbatim>\<open>std::string::find\<close> against \<^verbatim>\<open>npos\<close>.\<close>

fun contains_text :: "string \<Rightarrow> string \<Rightarrow> bool" where
  "contains_text needle [] = (needle = [])"
| "contains_text needle (c # s) = (starts_with (c # s) needle \<or> contains_text needle s)"

definition has_line_break :: "string \<Rightarrow> bool" where
  "has_line_break s \<longleftrightarrow> \<not> list_all (\<lambda>c. c \<noteq> CHR 0x0D \<and> c \<noteq> CHR 0x0A) s"

definition header_invalid :: "header \<Rightarrow> bool" where
  "header_invalid h \<longleftrightarrow> hd_name h = [] \<or> has_line_break (hd_name h) \<or> has_line_break (hd_value h)"

definition names_credential :: "string \<Rightarrow> bool" where
  "names_credential target \<longleftrightarrow>
     (let lowered = map to_lower target
      in contains_text ''x-api-key='' lowered \<or> contains_text ''api_key='' lowered \<or> contains_text ''apikey='' lowered)"

text \<open>The checks at the start of a session, in their order.\<close>

definition request_error :: "transport_limits \<Rightarrow> http_request \<Rightarrow> error option" where
  "request_error limits r =
     (if rq_host r = [] \<or> rq_port r = [] \<or> rq_target r = [] \<or> hd (rq_target r) \<noteq> CHR ''/''
      then Some (mk_error invalid_argument ''HTTP host, port and absolute target are required'' ''request'')
      else if length (rq_body r) > tl_max_request_body_bytes limits
      then Some (mk_error body_too_large ''HTTP request body exceeds configured limit'' ''request.body'')
      else if rq_method r = http_get \<and> rq_body r \<noteq> []
      then Some (mk_error invalid_argument ''GET requests cannot contain a body'' ''request.body'')
      else if \<not> list_all (\<lambda>h. \<not> header_invalid h) (rq_headers r)
      then Some (mk_error invalid_argument ''invalid HTTP header'' ''request.headers'')
      else if names_credential (rq_target r)
      then Some (mk_error invalid_argument ''credentials are forbidden in HTTP targets'' ''request.target'')
      else None)"

record wire_http_request =
  wq_method :: http_method
  wq_target :: string
  wq_fields :: "header list"
  wq_body :: string

text \<open>\<^verbatim>\<open>basic_fields::set\<close>: the fields of that name are replaced, whatever their case.\<close>

definition field_set :: "string \<Rightarrow> string \<Rightarrow> header list \<Rightarrow> header list" where
  "field_set name v fs = filter (\<lambda>h. \<not> iequals (hd_name h) name) fs @ [\<lparr>hd_name = name, hd_value = v\<rparr>]"

definition wire_request_of :: "http_request \<Rightarrow> wire_http_request" where
  "wire_request_of r =
     (let own = field_set ''Connection'' ''close''
            (field_set ''Accept'' ''application/json''
              (field_set ''User-Agent'' ''predictfun-cpp/0.1'' (field_set ''Host'' (rq_host r) [])));
          given = fold (\<lambda>h. field_set (hd_name h) (hd_value h)) (rq_headers r) own
      in if rq_method r = http_post
         then \<lparr>wq_method = http_post, wq_target = rq_target r,
               wq_fields = field_set ''Content-Length'' (to_string (length (rq_body r)))
                 (field_set ''Content-Type'' (rq_content_type r) given),
               wq_body = rq_body r\<rparr>
         else \<lparr>wq_method = http_get, wq_target = rq_target r, wq_fields = given, wq_body = []\<rparr>)"

section \<open>The session\<close>

datatype http_due = start_due | resolve_due | connect_due | handshake_due | write_due | read_due

record io_error =
  ie_value :: int
  ie_category :: string
  ie_timeout :: bool

datatype read_outcome = read_complete http_response | read_body_limit | read_partial | read_error io_error

record http_session =
  hs_request :: http_request
  hs_limits :: transport_limits
  hs_deadline :: "int option"
  hs_stop_requested :: bool
  hs_cancelled :: bool
  hs_deadline_fired :: bool
  hs_finished :: bool
  hs_stop_callback :: bool
  hs_timer_due :: bool
  hs_cancel_due :: bool
  hs_due :: "http_due option"
  hs_wire :: "wire_http_request list"
  hs_answers :: "http_response result list"

definition transport_error :: "error_code \<Rightarrow> string \<Rightarrow> io_error \<Rightarrow> error" where
  "transport_error code stage ec =
     mk_error code (stage @ '' failed: ec='' @ int_to_string (ie_value ec) @ '' ('' @ ie_category ec @ '')'') ''''"

text \<open>\<open>finish\<close>: the first call cancels the timer and the stop callback and dispatches the handler.\<close>

definition http_finish :: "http_response result \<Rightarrow> http_session \<Rightarrow> http_session" where
  "http_finish r s =
     (if hs_finished s then s
      else s\<lparr>hs_finished := True, hs_timer_due := False, hs_stop_callback := False, hs_answers := hs_answers s @ [r]\<rparr>)"

definition http_fail :: "error_code \<Rightarrow> string \<Rightarrow> io_error \<Rightarrow> http_session \<Rightarrow> http_session" where
  "http_fail code stage ec s =
     (if hs_cancelled s \<or> hs_stop_requested s
      then http_finish (Inl (mk_error cancelled ''request cancelled'' '''')) s
      else if hs_deadline_fired s \<or> ie_timeout ec
      then http_finish (Inl (mk_error deadline_exceeded ''request deadline exceeded'' '''')) s
      else http_finish (Inl (transport_error code stage ec)) s)"

definition http_start :: "int \<Rightarrow> int \<Rightarrow> bool \<Rightarrow> http_session \<Rightarrow> http_session" where
  "http_start now later tls_ok s =
     (if hs_stop_requested s then http_finish (Inl (mk_error cancelled ''request cancelled'' '''')) s
      else case request_error (hs_limits s) (hs_request s) of
        Some e \<Rightarrow> http_finish (Inl e) s
      | None \<Rightarrow>
          let deadline = (case hs_deadline s of None \<Rightarrow> now + tl_default_timeout_ms (hs_limits s) | Some d \<Rightarrow> d);
              s1 = s\<lparr>hs_deadline := Some deadline\<rparr>;
              s2 = s1\<lparr>hs_stop_callback := True, hs_timer_due := True\<rparr>
          in if deadline \<le> later
             then http_finish (Inl (mk_error deadline_exceeded ''request deadline already expired'' '''')) s1
             else if rq_use_tls (hs_request s) \<and> \<not> tls_ok
             then http_finish (Inl (mk_error tls_failure ''TLS hostname verification setup failed'' '''')) s2
             else s2\<lparr>hs_due := Some resolve_due\<rparr>)"

definition http_resolved :: "io_error option \<Rightarrow> http_session \<Rightarrow> http_session" where
  "http_resolved ec s =
     (case ec of Some e \<Rightarrow> http_fail dns_failure ''resolve'' e s | None \<Rightarrow> s\<lparr>hs_due := Some connect_due\<rparr>)"

definition http_write :: "http_session \<Rightarrow> http_session" where
  "http_write s = s\<lparr>hs_wire := hs_wire s @ [wire_request_of (hs_request s)], hs_due := Some write_due\<rparr>"

definition http_connected :: "io_error option \<Rightarrow> http_session \<Rightarrow> http_session" where
  "http_connected ec s =
     (case ec of
        Some e \<Rightarrow> http_fail connect_failure ''connect'' e s
      | None \<Rightarrow> if rq_use_tls (hs_request s) then s\<lparr>hs_due := Some handshake_due\<rparr> else http_write s)"

definition http_handshaken :: "io_error option \<Rightarrow> http_session \<Rightarrow> http_session" where
  "http_handshaken ec s =
     (case ec of Some e \<Rightarrow> http_fail tls_failure ''TLS handshake'' e s | None \<Rightarrow> http_write s)"

definition http_written :: "io_error option \<Rightarrow> http_session \<Rightarrow> http_session" where
  "http_written ec s =
     (case ec of Some e \<Rightarrow> http_fail write_failure ''write'' e s | None \<Rightarrow> s\<lparr>hs_due := Some read_due\<rparr>)"

definition http_read :: "read_outcome \<Rightarrow> http_session \<Rightarrow> http_session" where
  "http_read outcome s =
     (case outcome of
        read_body_limit \<Rightarrow> http_finish (Inl (mk_error body_too_large ''HTTP body exceeds configured limit'' '''')) s
      | read_partial \<Rightarrow> http_finish (Inl (mk_error body_truncated ''HTTP response body was truncated'' '''')) s
      | read_error ec \<Rightarrow> http_fail read_failure ''read'' ec s
      | read_complete response \<Rightarrow> http_finish (Inr response) s)"

text \<open>The timer fired, and the stop callback ran: the sockets are closed, so the chain's callback follows.\<close>

definition http_deadline :: "http_session \<Rightarrow> http_session" where
  "http_deadline s = s\<lparr>hs_deadline_fired := True\<rparr>"

definition http_cancelled :: "http_session \<Rightarrow> http_session" where
  "http_cancelled s = s\<lparr>hs_cancelled := True\<rparr>"

definition new_session :: "transport_limits \<Rightarrow> int option \<Rightarrow> http_request \<Rightarrow> http_session" where
  "new_session limits deadline r =
     \<lparr>hs_request = r, hs_limits = limits, hs_deadline = deadline, hs_stop_requested = False,
      hs_cancelled = False, hs_deadline_fired = False, hs_finished = False, hs_stop_callback = False, hs_timer_due = False,
      hs_cancel_due = False, hs_due = Some start_due, hs_wire = [], hs_answers = []\<rparr>"

text \<open>\<open>async_request\<close> does nothing without a handler; the two others set the method.\<close>

definition async_request :: "transport_limits \<Rightarrow> bool \<Rightarrow> int option \<Rightarrow> http_request \<Rightarrow> http_session option" where
  "async_request limits has_handler deadline r =
     (if \<not> has_handler then None else Some (new_session limits deadline r))"

definition async_get :: "transport_limits \<Rightarrow> bool \<Rightarrow> int option \<Rightarrow> http_request \<Rightarrow> http_session option" where
  "async_get limits has_handler deadline r =
     async_request limits has_handler deadline (r\<lparr>rq_method := http_get\<rparr>)"

definition async_post :: "transport_limits \<Rightarrow> bool \<Rightarrow> int option \<Rightarrow> http_request \<Rightarrow> http_session option" where
  "async_post limits has_handler deadline r =
     async_request limits has_handler deadline (r\<lparr>rq_method := http_post\<rparr>)"

inductive http_step :: "http_session \<Rightarrow> http_session \<Rightarrow> bool" where
  starts: "hs_due s = Some start_due \<Longrightarrow> http_step s (http_start now later tls_ok (s\<lparr>hs_due := None\<rparr>))"
| resolves: "hs_due s = Some resolve_due \<Longrightarrow> http_step s (http_resolved ec (s\<lparr>hs_due := None\<rparr>))"
| connects: "hs_due s = Some connect_due \<Longrightarrow> http_step s (http_connected ec (s\<lparr>hs_due := None\<rparr>))"
| handshakes: "hs_due s = Some handshake_due \<Longrightarrow> http_step s (http_handshaken ec (s\<lparr>hs_due := None\<rparr>))"
| writes: "hs_due s = Some write_due \<Longrightarrow> http_step s (http_written ec (s\<lparr>hs_due := None\<rparr>))"
| reads: "hs_due s = Some read_due \<Longrightarrow> http_step s (http_read outcome (s\<lparr>hs_due := None\<rparr>))"
| expires: "hs_timer_due s \<Longrightarrow> http_step s (http_deadline (s\<lparr>hs_timer_due := False\<rparr>))"
| stops: "\<not> hs_stop_requested s \<Longrightarrow>
    http_step s (s\<lparr>hs_stop_requested := True, hs_cancel_due := hs_stop_callback s, hs_stop_callback := False\<rparr>)"
| cancels: "hs_cancel_due s \<Longrightarrow> http_step s (http_cancelled (s\<lparr>hs_cancel_due := False\<rparr>))"

inductive_cases http_stepE: "http_step s s'"

section \<open>Invariant and rank\<close>

fun due_steps :: "http_due option \<Rightarrow> nat" where
  "due_steps None = 0"
| "due_steps (Some start_due) = 7"
| "due_steps (Some resolve_due) = 5"
| "due_steps (Some connect_due) = 4"
| "due_steps (Some handshake_due) = 3"
| "due_steps (Some write_due) = 2"
| "due_steps (Some read_due) = 1"

definition session_rank :: "http_session \<Rightarrow> nat" where
  "session_rank s = due_steps (hs_due s) + of_bool (hs_timer_due s) + of_bool (hs_cancel_due s) +
     (if hs_stop_requested s then 0 else 2)"

definition before_write :: "http_due option \<Rightarrow> bool" where
  "before_write d \<longleftrightarrow> d \<in> {Some start_due, Some resolve_due, Some connect_due, Some handshake_due}"

definition checked :: "http_session \<Rightarrow> bool" where
  "checked s \<longleftrightarrow> hs_due s = Some start_due \<or> request_error (hs_limits s) (hs_request s) = None"

definition http_inv :: "http_session \<Rightarrow> bool" where
  "http_inv s \<longleftrightarrow> hs_finished s = (hs_due s = None) \<and> length (hs_answers s) = of_bool (hs_finished s) \<and>
     hs_wire s \<in> {[], [wire_request_of (hs_request s)]} \<and>
     (before_write (hs_due s) \<longrightarrow> hs_wire s = []) \<and>
     (hs_wire s \<noteq> [] \<longrightarrow> request_error (hs_limits s) (hs_request s) = None) \<and>
     (hs_finished s \<or> checked s)"

lemma http_inv_new: "http_inv (new_session limits deadline r)"
  by (simp add: http_inv_def new_session_def before_write_def checked_def)

text \<open>Inside a callback of the chain: before the request is written, and after.\<close>

definition session_body :: "bool \<Rightarrow> http_session \<Rightarrow> bool" where
  "session_body wrote s \<longleftrightarrow> hs_due s = None \<and> \<not> hs_finished s \<and> hs_answers s = [] \<and>
     hs_wire s = (if wrote then [wire_request_of (hs_request s)] else []) \<and>
     (wrote \<longrightarrow> request_error (hs_limits s) (hs_request s) = None)"

lemma inv_http_finish: "session_body wrote s \<Longrightarrow> http_inv (http_finish r s)"
  by (simp add: session_body_def http_inv_def http_finish_def before_write_def)

lemma inv_http_fail: "session_body wrote s \<Longrightarrow> http_inv (http_fail code stage ec s)"
  by (simp add: http_fail_def inv_http_finish)

lemma inv_http_due:
  "session_body wrote s \<Longrightarrow> request_error (hs_limits s) (hs_request s) = None \<Longrightarrow> before_write (Some d) \<longrightarrow> \<not> wrote \<Longrightarrow>
   http_inv (s\<lparr>hs_due := Some d\<rparr>)"
  by (simp add: session_body_def http_inv_def checked_def)

lemma inv_http_write:
  "session_body False s \<Longrightarrow> request_error (hs_limits s) (hs_request s) = None \<Longrightarrow> http_inv (http_write s)"
  by (simp add: session_body_def http_inv_def http_write_def checked_def before_write_def)

lemma inv_http_start:
  assumes "session_body False s"
  shows "http_inv (http_start now later tls_ok s)"
proof (cases "request_error (hs_limits s) (hs_request s)")
  case None
  have body: "session_body False (s\<lparr>hs_deadline := d\<rparr>)"
    "session_body False (s\<lparr>hs_deadline := d, hs_stop_callback := True, hs_timer_due := True\<rparr>)" for d
    using assms by (simp_all add: session_body_def)
  have "http_inv (s\<lparr>hs_deadline := d, hs_stop_callback := True, hs_timer_due := True, hs_due := Some resolve_due\<rparr>)" for d
    using inv_http_due [OF body(2)] None by simp
  then show ?thesis
    using None inv_http_finish [OF body(1)] inv_http_finish [OF body(2)] inv_http_finish [OF assms]
    by (simp add: http_start_def Let_def)
qed (simp add: http_start_def inv_http_finish [OF assms])

lemma body_of_inv:
  assumes "http_inv s" and "hs_due s = Some d"
  shows "session_body (\<not> before_write (Some d) \<and> hs_wire s \<noteq> []) (s\<lparr>hs_due := None\<rparr>)"
    and "d \<noteq> start_due \<Longrightarrow> request_error (hs_limits s) (hs_request s) = None"
  using assms by (auto simp: http_inv_def session_body_def checked_def)

lemma http_inv_step: "http_step s s' \<Longrightarrow> http_inv s \<Longrightarrow> http_inv s'"
proof (induction rule: http_step.induct)
  case (starts s now later tls_ok)
  then show ?case
    using body_of_inv(1) [of s start_due] by (simp add: inv_http_start before_write_def)
next
  case (resolves s ec)
  note body = body_of_inv [OF resolves(2,1)]
  show ?case
    using body inv_http_fail [OF body(1)] inv_http_due [OF body(1)]
    by (cases ec) (simp_all add: http_resolved_def before_write_def)
next
  case (connects s ec)
  note body = body_of_inv [OF connects(2,1)]
  show ?case
    using body inv_http_fail [OF body(1)] inv_http_due [OF body(1)] inv_http_write [of "s\<lparr>hs_due := None\<rparr>"]
    by (cases ec) (simp_all add: http_connected_def before_write_def)
next
  case (handshakes s ec)
  note body = body_of_inv [OF handshakes(2,1)]
  show ?case
    using body inv_http_fail [OF body(1)] inv_http_write [of "s\<lparr>hs_due := None\<rparr>"]
    by (cases ec) (simp_all add: http_handshaken_def before_write_def)
next
  case (writes s ec)
  note body = body_of_inv [OF writes(2,1)]
  show ?case
    using body inv_http_fail [OF body(1)] inv_http_due [OF body(1)]
    by (cases ec) (simp_all add: http_written_def before_write_def)
next
  case (reads s outcome)
  note body = body_of_inv(1) [OF reads(2,1)]
  show ?case
    using inv_http_fail [OF body] inv_http_finish [OF body] by (cases outcome) (simp_all add: http_read_def)
next
  case (expires s)
  then show ?case
    by (auto simp: http_inv_def http_deadline_def checked_def)
next
  case (stops s)
  then show ?case
    by (auto simp: http_inv_def checked_def)
next
  case (cancels s)
  then show ?case
    by (auto simp: http_inv_def http_cancelled_def checked_def)
qed

lemma finish_kept [simp]:
  "hs_due (http_finish r s) = hs_due s" "hs_stop_requested (http_finish r s) = hs_stop_requested s"
  "hs_cancel_due (http_finish r s) = hs_cancel_due s" "hs_request (http_finish r s) = hs_request s"
  "hs_limits (http_finish r s) = hs_limits s"
  by (simp_all add: http_finish_def)

lemma fail_kept [simp]:
  "hs_due (http_fail c g e s) = hs_due s" "hs_stop_requested (http_fail c g e s) = hs_stop_requested s"
  "hs_cancel_due (http_fail c g e s) = hs_cancel_due s" "hs_request (http_fail c g e s) = hs_request s"
  "hs_limits (http_fail c g e s) = hs_limits s"
  by (simp_all add: http_fail_def)

lemma rank_finish: "session_rank (http_finish r s) \<le> session_rank s"
  by (simp add: session_rank_def) (simp add: http_finish_def)

lemma rank_fail: "session_rank (http_fail c g e s) \<le> session_rank s"
  by (simp add: http_fail_def rank_finish)

lemma rank_due: "hs_due s = Some d \<Longrightarrow> session_rank s = session_rank (s\<lparr>hs_due := None\<rparr>) + due_steps (Some d)"
  by (simp add: session_rank_def)

lemma rank_write: "session_rank (http_write s) = session_rank (s\<lparr>hs_due := None\<rparr>) + 2"
  by (simp add: http_write_def session_rank_def)

lemma http_rank_start: "hs_due s = None \<Longrightarrow> session_rank (http_start now later tls_ok s) \<le> session_rank s + 6"
proof -
  assume s: "hs_due s = None"
  have "session_rank (s\<lparr>hs_deadline := d\<rparr>) = session_rank s"
    "session_rank (s\<lparr>hs_deadline := d, hs_stop_callback := True, hs_timer_due := True\<rparr>) \<le> session_rank s + 1"
    "session_rank (s\<lparr>hs_deadline := d, hs_stop_callback := True, hs_timer_due := True, hs_due := Some resolve_due\<rparr>)
       \<le> session_rank s + 6" for d
    using s by (simp_all add: session_rank_def)
  moreover have "session_rank (http_finish r s') \<le> session_rank s + 6" if "session_rank s' \<le> session_rank s + 1" for r s'
    using rank_finish [of r s'] that by linarith
  ultimately show ?thesis
    by (simp add: http_start_def Let_def split: option.split)
qed

lemma rank_end:
  assumes "hs_due s = Some d"
  shows "session_rank (http_finish r (s\<lparr>hs_due := None\<rparr>)) < session_rank s"
    and "session_rank (http_fail c g e (s\<lparr>hs_due := None\<rparr>)) < session_rank s"
proof -
  have "session_rank (s\<lparr>hs_due := None\<rparr>) < session_rank s"
    using rank_due [OF assms] by (cases d) simp_all
  then show "session_rank (http_finish r (s\<lparr>hs_due := None\<rparr>)) < session_rank s"
    "session_rank (http_fail c g e (s\<lparr>hs_due := None\<rparr>)) < session_rank s"
    using rank_finish [of r "s\<lparr>hs_due := None\<rparr>"] rank_fail [of c g e "s\<lparr>hs_due := None\<rparr>"] by linarith+
qed

lemma rank_chain:
  "hs_due s = Some d \<Longrightarrow> due_steps (Some d') < due_steps (Some d) \<Longrightarrow> session_rank (s\<lparr>hs_due := Some d'\<rparr>) < session_rank s"
  "hs_due s = Some d \<Longrightarrow> 2 < due_steps (Some d) \<Longrightarrow> session_rank (http_write (s\<lparr>hs_due := None\<rparr>)) < session_rank s"
  by (simp_all add: rank_write rank_due)

lemma session_rank_step: "http_step s s' \<Longrightarrow> session_rank s' < session_rank s"
proof (induction rule: http_step.induct)
  case (starts s now later tls_ok)
  then show ?case
    using rank_due [OF starts] http_rank_start [of "s\<lparr>hs_due := None\<rparr>" now later tls_ok] by simp
next
  case (resolves s ec)
  then show ?case
    by (simp add: http_resolved_def rank_end rank_chain split: option.split)
next
  case (connects s ec)
  then show ?case
    by (simp add: http_connected_def rank_end rank_chain split: option.split)
next
  case (handshakes s ec)
  then show ?case
    by (simp add: http_handshaken_def rank_end rank_chain split: option.split)
next
  case (writes s ec)
  then show ?case
    by (simp add: http_written_def rank_end rank_chain split: option.split)
next
  case (reads s outcome)
  then show ?case
    by (simp add: http_read_def rank_end split: read_outcome.split)
qed (simp_all add: session_rank_def http_deadline_def http_cancelled_def)

lemma request_kept: "http_step s s' \<Longrightarrow> hs_request s' = hs_request s \<and> hs_limits s' = hs_limits s"
  by (induction rule: http_step.induct)
    (simp_all add: http_start_def http_resolved_def http_connected_def http_handshaken_def http_written_def http_read_def
      http_write_def http_deadline_def http_cancelled_def Let_def split: option.split read_outcome.split)

interpretation http_machine: bounded_machine http_step http_inv "\<lambda>s. (hs_request s, hs_limits s)" session_rank
  by unfold_locales (simp_all add: http_inv_step request_kept session_rank_step)

section \<open>The requests of the clients\<close>

text \<open>Every equals sign of a target follows one of the given names and a delimiter.\<close>

definition named :: "string list \<Rightarrow> string \<Rightarrow> bool" where
  "named ns t \<longleftrightarrow> (\<forall>u v. t = u @ CHR ''='' # v \<longrightarrow>
     (\<exists>x d n. u = x @ d # n \<and> n \<in> set ns \<and> d \<in> {CHR ''?'', CHR ''&''}))"

definition rest_names :: "string list" where
  "rest_names = [''query'', ''includeResolved'', ''limit'', ''first'', ''after'', ''status'', ''marketVariant'', ''metric'',
     ''resolution'', ''from'', ''to'', ''category'', ''marketId'', ''minValueUsdtWei'', ''signerAddress'', ''isSignerMaker'',
     ''isResolved'', ''sort'', ''eventTypes'']"

lemma named_base: "CHR ''='' \<notin> set t \<Longrightarrow> named ns t"
  by (auto simp: named_def)

lemma named_parameter:
  assumes "named ns s" and "n \<in> set ns" and "CHR ''='' \<notin> set n" and "d \<in> {CHR ''?'', CHR ''&''}"
  shows "named ns (s @ d # n @ CHR ''='' # percent_encode v)"
  unfolding named_def
proof (intro allI impI)
  fix u w
  assume eq: "s @ d # n @ CHR ''='' # percent_encode v = u @ CHR ''='' # w"
  have plain: "CHR ''='' \<notin> set (d # n)" "CHR ''='' \<notin> set (percent_encode v)"
    using assms(3,4) percent_encode_chars [of v] encoded_char_not by (auto simp: list_all_iff)
  from eq consider us where "s = u @ us" "us @ d # n @ CHR ''='' # percent_encode v = CHR ''='' # w"
    | us where "u = s @ us" "d # n @ CHR ''='' # percent_encode v = us @ CHR ''='' # w"
    unfolding append_eq_append_conv2 by metis
  then show "\<exists>x d n. u = x @ d # n \<and> n \<in> set ns \<and> d \<in> {CHR ''?'', CHR ''&''}"
  proof cases
    case (1 us)
    then obtain us' where "s = u @ CHR ''='' # us'"
      using assms(4) by (cases us) auto
    then show ?thesis
      using assms(1) unfolding named_def by blast
  next
    case (2 us)
    then have "us = d # n"
      using append_Cons_eq_iff [OF plain, of us w] by simp
    then show ?thesis
      using 2(1) assms(2,4) by blast
  qed
qed

lemma named_target:
  assumes "CHR ''='' \<notin> set base" and "\<forall>p\<in>set ps. fst p \<in> set ns" and "\<forall>n\<in>set ns. CHR ''='' \<notin> set n"
  shows "named ns (target_of base ps)"
  using assms(2)
proof (induction ps rule: rev_induct)
  case (snoc p ps)
  define t where "t = target_of base ps"
  have "target_of base (ps @ [p]) = t @ (if CHR ''?'' \<in> set t then CHR ''&'' else CHR ''?'') # fst p @ CHR ''='' # percent_encode (snd p)"
    by (cases p) (simp add: target_of_def t_def add_query_def)
  moreover have "named ns t" "fst p \<in> set ns"
    using snoc by (simp_all add: t_def)
  ultimately show ?case
    using named_parameter [of ns t "fst p"] assms(3) by simp
qed (simp add: target_of_def named_base [OF assms(1)])

lemma contains_text_iff: "contains_text k s \<longleftrightarrow> (\<exists>u v. s = u @ k @ v)"
proof (induction s)
  case (Cons c s)
  have "starts_with (c # s) k \<longleftrightarrow> (\<exists>v. c # s = k @ v)"
    unfolding starts_with_def by (metis append_eq_conv_conj append_take_drop_id)
  then show ?case
    using Cons by (auto simp: append_eq_Cons_conv Cons_eq_append_conv)
qed simp

lemma to_lower_equals: "to_lower c = CHR ''='' \<longleftrightarrow> c = CHR ''=''"
proof -
  define n where "n = (of_char c :: nat)"
  have "(of_char (to_lower c) :: nat) = (if 65 \<le> n \<and> n \<le> 90 then n + 32 else n)"
    by (simp add: to_lower_def Let_def n_def [symmetric])
  then have "(of_char (to_lower c) :: nat) = 61 \<longleftrightarrow> n = 61"
    by auto
  moreover have "(of_char (CHR ''='') :: nat) = 61"
    by simp
  ultimately show ?thesis
    unfolding n_def by (metis of_char_eq_iff)
qed

lemma to_lower_delimiter: "d \<in> {CHR ''?'', CHR ''&''} \<Longrightarrow> to_lower d = d"
  by (auto simp: to_lower_def)

text \<open>A key that ends no lowered name, and has no delimiter, does not occur before an equals sign.\<close>

lemma named_no_key:
  assumes "named ns t" and "CHR ''?'' \<notin> set k" and "CHR ''&'' \<notin> set k"
    and "\<forall>n\<in>set ns. drop (length n - length k) (map to_lower n) \<noteq> k"
  shows "\<not> contains_text (k @ ''='') (map to_lower t)"
proof
  assume "contains_text (k @ ''='') (map to_lower t)"
  then obtain u v where "map to_lower t = u @ k @ CHR ''='' # v"
    by (auto simp: contains_text_iff)
  then obtain u' k' c v' where t: "t = u' @ k' @ c # v'" and k: "map to_lower k' = k" "to_lower c = CHR ''=''"
    by (auto simp: map_eq_append_conv append_eq_map_conv Cons_eq_map_conv)
  then obtain x d n where x: "u' @ k' = x @ d # n" "n \<in> set ns" "d \<in> {CHR ''?'', CHR ''&''}"
    using assms(1) to_lower_equals unfolding named_def by (metis append.assoc)
  have free: "d \<notin> set k'"
  proof
    assume "d \<in> set k'"
    then have "to_lower d \<in> set k"
      using k(1) by auto
    then show False
      using x(3) assms(2,3) to_lower_delimiter [OF x(3)] by auto
  qed
  from x(1) obtain us where "us @ k' = d # n \<or> k' = us @ d # n"
    unfolding append_eq_append_conv2 by metis
  then obtain us' where "n = us' @ k'"
    using free by (cases us) auto
  then have "drop (length n - length k) (map to_lower n) = k"
    using k(1) by auto
  then show False
    using assms(4) x(2) by blast
qed

lemma rest_names_safe:
  "\<forall>n\<in>set rest_names. CHR ''='' \<notin> set n"
  "\<forall>n\<in>set rest_names. drop (length n - length ''x-api-key'') (map to_lower n) \<noteq> ''x-api-key''"
  "\<forall>n\<in>set rest_names. drop (length n - length ''api_key'') (map to_lower n) \<noteq> ''api_key''"
  "\<forall>n\<in>set rest_names. drop (length n - length ''apikey'') (map to_lower n) \<noteq> ''apikey''"
  by code_simp+

lemma target_names_no_credential:
  assumes "CHR ''='' \<notin> set base" and "\<forall>p\<in>set ps. fst p \<in> set rest_names"
  shows "\<not> names_credential (target_of base ps)"
proof -
  note n = named_target [OF assms rest_names_safe(1)]
  have "\<not> contains_text (''x-api-key'' @ ''='') (map to_lower (target_of base ps))"
    "\<not> contains_text (''api_key'' @ ''='') (map to_lower (target_of base ps))"
    "\<not> contains_text (''apikey'' @ ''='') (map to_lower (target_of base ps))"
    by (rule named_no_key [OF n _ _ rest_names_safe(2)] named_no_key [OF n _ _ rest_names_safe(3)]
        named_no_key [OF n _ _ rest_names_safe(4)]; simp)+
  then show ?thesis
    by (simp add: names_credential_def)
qed

lemma rest_names_member:
  "''query'' \<in> set rest_names" "''includeResolved'' \<in> set rest_names" "''limit'' \<in> set rest_names"
  "''first'' \<in> set rest_names" "''after'' \<in> set rest_names" "''status'' \<in> set rest_names"
  "''marketVariant'' \<in> set rest_names" "''metric'' \<in> set rest_names" "''resolution'' \<in> set rest_names"
  "''from'' \<in> set rest_names" "''to'' \<in> set rest_names" "''category'' \<in> set rest_names"
  "''marketId'' \<in> set rest_names" "''minValueUsdtWei'' \<in> set rest_names" "''signerAddress'' \<in> set rest_names"
  "''isSignerMaker'' \<in> set rest_names" "''isResolved'' \<in> set rest_names" "''sort'' \<in> set rest_names"
  "''eventTypes'' \<in> set rest_names"
  by code_simp+

lemma parameters_in_names:
  "\<forall>p\<in>set (search_parameters q1). fst p \<in> set rest_names"
  "\<forall>p\<in>set (collection_parameters q2). fst p \<in> set rest_names"
  "\<forall>p\<in>set (timeseries_parameters q3). fst p \<in> set rest_names"
  "\<forall>p\<in>set (matches_parameters q4). fst p \<in> set rest_names"
  "\<forall>p\<in>set (position_parameters q5). fst p \<in> set rest_names"
  "\<forall>p\<in>set (page_parameters first after @ given ''status'' status). fst p \<in> set rest_names"
  "\<forall>p\<in>set (page_parameters first after @ map (Pair ''eventTypes'') events). fst p \<in> set rest_names"
  by (auto simp only: parameters_def set_append Un_iff ball_Un list.set empty_iff insert_iff fst_conv rest_names_member
      set_map dest!: given_names)

text \<open>The paths: absolute, and without an equals sign.\<close>

definition plain_path :: "string \<Rightarrow> bool" where
  "plain_path base \<longleftrightarrow> base \<noteq> [] \<and> hd base = CHR ''/'' \<and> CHR ''='' \<notin> set base"

lemma plain_paths:
  "plain_path ''/v1/search''" "plain_path ''/v1/markets''" "plain_path ''/v1/categories''" "plain_path ''/v1/orders/matches''"
  "plain_path ''/v1/positions''" "plain_path ''/v1/orders''" "plain_path ''/v1/account/activity''"
  "plain_path (market_path market ''/timeseries'')" "plain_path (''/v1/positions/'' @ evm_to_string a)"
proof -
  have "CHR ''='' \<notin> set (to_string market)"
    using list_all_to_string [of market] by (auto simp: list_all_iff is_digit_def)
  then show "plain_path (market_path market ''/timeseries'')"
    by (simp add: plain_path_def market_path_def)
  have "CHR ''='' \<notin> set (hex_text (evm_bytes a))"
    using list_all_hex_text [of "evm_bytes a"] by (auto simp: list_all_iff is_xdigit_def is_digit_def Let_def)
  then show "plain_path (''/v1/positions/'' @ evm_to_string a)"
    by (simp add: plain_path_def evm_to_string_def)
qed (simp_all add: plain_path_def)

lemma target_of_extends: "\<exists>s. target_of base ps = base @ s"
proof (induction ps rule: rev_induct)
  case (snoc p ps)
  then show ?case
    by (cases p) (auto simp: target_of_def add_query_def)
qed (simp add: target_of_def)

definition target_accepted :: "string \<Rightarrow> bool" where
  "target_accepted t \<longleftrightarrow> t \<noteq> [] \<and> hd t = CHR ''/'' \<and> \<not> names_credential t"

lemma target_of_accepted:
  "plain_path base \<Longrightarrow> \<forall>p\<in>set ps. fst p \<in> set rest_names \<Longrightarrow> target_accepted (target_of base ps)"
  using target_of_extends [of base ps] target_names_no_credential [of base ps]
  by (auto simp: plain_path_def target_accepted_def)

text \<open>A target without a query is its path.\<close>

lemma path_accepted: "plain_path t \<Longrightarrow> target_accepted t"
  using target_of_accepted [of t "[]"] by (simp add: target_of_def)

lemma plain_path_append: "plain_path base \<Longrightarrow> CHR ''='' \<notin> set s \<Longrightarrow> plain_path (base @ s)"
  by (auto simp: plain_path_def)

lemma plain_texts:
  "CHR ''='' \<notin> set (to_string n)" "CHR ''='' \<notin> set (percent_encode v)" "order_hash_text h \<Longrightarrow> CHR ''='' \<notin> set h"
proof -
  show "CHR ''='' \<notin> set (to_string n)"
    using list_all_to_string [of n] by (auto simp: list_all_iff is_digit_def)
  show "CHR ''='' \<notin> set (percent_encode v)"
    using percent_encode_chars [of v] encoded_char_not by (auto simp: list_all_iff)
  assume "order_hash_text h"
  then have "CHR ''='' \<notin> set (take 2 h)" "CHR ''='' \<notin> set (drop 2 h)"
    by (auto simp: order_hash_text_def starts_with_def list_all_iff is_xdigit_def is_digit_def Let_def numeral_2_eq_2)
  then show "CHR ''='' \<notin> set h"
    by (metis append_take_drop_id set_append Un_iff)
qed

lemma market_targets_plain:
  "market_target market = Inr t \<Longrightarrow> plain_path t" "orderbook_target market = Inr t \<Longrightarrow> plain_path t"
  "market_statistics_target market = Inr t \<Longrightarrow> plain_path t" "market_last_sale_target market = Inr t \<Longrightarrow> plain_path t"
  "category_target slug = Inr t \<Longrightarrow> plain_path t" "order_target h = Inr t \<Longrightarrow> plain_path t"
  "tags_target = Inr t \<Longrightarrow> plain_path t"
  using plain_texts(1) [of market] plain_texts(2) [of slug] plain_texts(3) [of h]
  by (auto simp: market_target_def orderbook_target_def market_statistics_target_def market_last_sale_target_def
      category_target_def order_target_def tags_target_def plain_path_def bind_res_def split: if_splits)

lemma latest_target_of:
  "latest_timeseries_target market metric = Inr t \<Longrightarrow>
     t = target_of (market_path market ''/timeseries/latest'') [(''metric'', metric)]"
  by (auto simp: latest_timeseries_target_def market_target_def market_path_def target_of_def bind_res_def
      split: if_splits)

lemma latest_target_accepted: "latest_timeseries_target market metric = Inr t \<Longrightarrow> target_accepted t"
proof -
  assume "latest_timeseries_target market metric = Inr t"
  moreover have "plain_path (market_path market ''/timeseries/latest'')"
    using plain_texts(1) [of market] by (simp add: plain_path_def market_path_def)
  ultimately show ?thesis
    using latest_target_of [of market metric t] target_of_accepted rest_names_member by auto
qed

text \<open>The targets of every GET of the two clients.\<close>

definition rest_target :: "string \<Rightarrow> bool" where
  "rest_target t \<longleftrightarrow>
     (\<exists>q. search_target q = Inr t) \<or> (\<exists>q. markets_target q = Inr t) \<or> (\<exists>q. categories_target q = Inr t) \<or>
     (\<exists>market q. timeseries_target market q = Inr t) \<or> (\<exists>q. matches_target q = Inr t) \<or>
     (\<exists>a q. address_positions_target a q = Inr t) \<or> (\<exists>q. positions_target q = Inr t) \<or>
     (\<exists>first after status. orders_target first after status = Inr t) \<or>
     (\<exists>first after events. activity_target first after events = Inr t) \<or>
     (\<exists>market metric. latest_timeseries_target market metric = Inr t) \<or> (\<exists>market. market_target market = Inr t) \<or>
     (\<exists>market. orderbook_target market = Inr t) \<or> (\<exists>market. market_statistics_target market = Inr t) \<or>
     (\<exists>market. market_last_sale_target market = Inr t) \<or> (\<exists>slug. category_target slug = Inr t) \<or>
     (\<exists>h. order_target h = Inr t) \<or> tags_target = Inr t \<or> t = ''/v1/account''"

lemma query_target_accepted:
  "search_target q1 = Inr t \<Longrightarrow> target_accepted t" "markets_target q2 = Inr t \<Longrightarrow> target_accepted t"
  "categories_target q2 = Inr t \<Longrightarrow> target_accepted t" "timeseries_target market q3 = Inr t \<Longrightarrow> target_accepted t"
  "matches_target q4 = Inr t \<Longrightarrow> target_accepted t" "address_positions_target a q5 = Inr t \<Longrightarrow> target_accepted t"
  "positions_target q5 = Inr t \<Longrightarrow> target_accepted t" "orders_target first after status = Inr t \<Longrightarrow> target_accepted t"
  "activity_target first after events = Inr t \<Longrightarrow> target_accepted t"
  unfolding markets_target_def categories_target_def
  by (drule targets_of, erule ssubst, rule target_of_accepted, rule plain_paths, rule parameters_in_names)+

lemma rest_target_accepted: "rest_target t \<Longrightarrow> target_accepted t"
  unfolding rest_target_def
  by (elim disjE exE)
    (erule query_target_accepted latest_target_accepted market_targets_plain [THEN path_accepted]
      | simp add: path_accepted plain_path_def)+

section \<open>Properties\<close>

text \<open>
  C7. One session answers once. From its creation it makes at most nine steps, under any results of the sockets, any
  moment of the deadline and of a stop request; its handler is called at most once, and exactly once when no callback
  of the chain is owed; at most one request is written, after all checks of the request have passed: it is the wire
  form of the request given.
\<close>

theorem http_session_answers_once:
  assumes "async_request limits has_handler deadline r = Some s0" and "(http_step ^^ n) s0 s"
  shows "n \<le> 9 \<and> length (hs_answers s) = of_bool (hs_due s = None) \<and>
    (hs_wire s = [] \<or> hs_wire s = [wire_request_of r] \<and> request_error limits r = None)"
proof -
  have s0: "s0 = new_session limits deadline r"
    using assms(1) by (simp add: async_request_def split: if_splits)
  have inv: "http_inv s" and "hs_request s = r" "hs_limits s = limits"
    using http_machine.steps_kept [OF assms(2)] http_inv_new s0 by (simp_all add: new_session_def)
  moreover have "session_rank s0 = 9"
    by (simp add: s0 new_session_def session_rank_def)
  ultimately show ?thesis
    using http_machine.steps_bounded [OF assms(2)] by (auto simp: http_inv_def)
qed

text \<open>
  C24. The transport accepts every request of the REST clients: for every target that a function of the public or the private
  client builds, from any cursor, search text, address, slug, hash or filter that it accepts, the target is absolute and,
  whatever the caller's text, never looks like one that carries credentials; with headers free of line breaks the GET
  request passes all checks of the session, within any limits.
\<close>

theorem rest_requests_accepted:
  assumes "rest_target (gq_target q)" and "list_all (\<lambda>h. \<not> header_invalid h) hs"
  shows "request_error limits (get_request q hs) = None"
  using rest_target_accepted [OF assms(1)] assms(2)
  by (simp add: request_error_def get_request_def default_request_def target_accepted_def api_host_def)

definition sample_search_get :: get_operation where
  "sample_search_get = new_get env_testnet 1 ''search'' ''/v1/search?query=apikey%3Dx'' None"

theorem rest_requests_accepted_witness:
  "search_target \<lparr>sq_query = ''apikey=x'', sq_include_resolved = None, sq_limit = None\<rparr> = Inr ''/v1/search?query=apikey%3Dx'' \<and>
   request_error \<lparr>tl_max_body_bytes = 10, tl_max_request_body_bytes = 10, tl_default_timeout_ms = 1\<rparr>
     (get_request sample_search_get [\<lparr>hd_name = ''x-api-key'', hd_value = ''k''\<rparr>]) = None"
proof -
  have t: "search_target \<lparr>sq_query = ''apikey=x'', sq_include_resolved = None, sq_limit = None\<rparr> = Inr ''/v1/search?query=apikey%3Dx''"
    by code_simp
  have h: "list_all (\<lambda>h. \<not> header_invalid h) [\<lparr>hd_name = ''x-api-key'', hd_value = ''k''\<rparr>]"
    by code_simp
  have "gq_target sample_search_get = ''/v1/search?query=apikey%3Dx''"
    by (simp add: sample_search_get_def new_get_def)
  moreover have "rest_target ''/v1/search?query=apikey%3Dx''"
    unfolding rest_target_def by (intro disjI1 exI) (rule t)
  ultimately show ?thesis
    using t rest_requests_accepted [OF _ h, of sample_search_get] by simp
qed

text \<open>A request over plain sockets that is answered.\<close>

definition sample_http_request :: http_request where
  "sample_http_request = default_request\<lparr>rq_host := ''api.predict.fun'', rq_target := ''/v1/tags'', rq_use_tls := False\<rparr>"

definition sample_limits :: transport_limits where
  "sample_limits = \<lparr>tl_max_body_bytes = 100, tl_max_request_body_bytes = 100, tl_default_timeout_ms = 15000\<rparr>"

definition sample_http_0 :: http_session where
  "sample_http_0 = new_session sample_limits None sample_http_request"

definition sample_http_1 :: http_session where
  "sample_http_1 = http_start 0 0 True (sample_http_0\<lparr>hs_due := None\<rparr>)"

definition sample_http_2 :: http_session where
  "sample_http_2 = http_resolved None (sample_http_1\<lparr>hs_due := None\<rparr>)"

definition sample_http_3 :: http_session where
  "sample_http_3 = http_connected None (sample_http_2\<lparr>hs_due := None\<rparr>)"

definition sample_http_4 :: http_session where
  "sample_http_4 = http_written None (sample_http_3\<lparr>hs_due := None\<rparr>)"

definition sample_http_5 :: http_session where
  "sample_http_5 = http_read (read_complete \<lparr>rs_status = 200, rs_body = ''[]'', rs_headers = []\<rparr>) (sample_http_4\<lparr>hs_due := None\<rparr>)"

lemma sample_http_due:
  "hs_due sample_http_0 = Some start_due" "hs_due sample_http_1 = Some resolve_due" "hs_due sample_http_2 = Some connect_due"
  "hs_due sample_http_3 = Some write_due" "hs_due sample_http_4 = Some read_due" "hs_due sample_http_5 = None"
  by code_simp+

lemma sample_http_run: "(http_step ^^ 5) sample_http_0 sample_http_5"
proof -
  have "http_step sample_http_0 sample_http_1"
    unfolding sample_http_1_def by (rule http_step.starts) (rule sample_http_due)
  moreover have "http_step sample_http_1 sample_http_2"
    unfolding sample_http_2_def by (rule http_step.resolves) (rule sample_http_due)
  moreover have "http_step sample_http_2 sample_http_3"
    unfolding sample_http_3_def by (rule http_step.connects) (rule sample_http_due)
  moreover have "http_step sample_http_3 sample_http_4"
    unfolding sample_http_4_def by (rule http_step.writes) (rule sample_http_due)
  moreover have "http_step sample_http_4 sample_http_5"
    unfolding sample_http_5_def by (rule http_step.reads) (rule sample_http_due)
  ultimately show ?thesis
    by (simp add: numeral_eq_Suc) blast
qed

theorem http_session_answers_once_witness:
  "(http_step ^^ 5) sample_http_0 sample_http_5 \<and> length (hs_answers sample_http_5) = 1"
proof -
  have "async_request sample_limits True None sample_http_request = Some sample_http_0"
    by (simp add: async_request_def sample_http_0_def)
  from http_session_answers_once [OF this sample_http_run] show ?thesis
    by (simp add: sample_http_due sample_http_run)
qed

end
