(* ===== verification/Web_Socket.thy ===== *)
theory Web_Socket
  imports Http_Session "HOL-Library.Sublist" "HOL-Library.Multiset"
begin

text \<open>
  The channel of \<^verbatim>\<open>src/websocket.cpp\<close>: opening, one read at a time, the queue of writes, closing and cancelling.
  Handlers are numbers that the caller gives; the answers are the calls of the handlers in their order. What the
  sockets, TLS and the WebSocket stream report is an input of the steps. The list \<open>wk_sent\<close> of the frames given to the
  stream, \<open>wk_accepted\<close> of the frames taken into the queue and \<open>wk_submitted\<close> of the handlers of all writes are history,
  and so are \<open>wk_stream_writes\<close>, the number of writes the stream has not finished, \<open>wk_reentered\<close>, that the handler of a
  finished write has made a write call, and \<open>wk_underflow\<close>, that the front of an empty queue was taken.

  Handlers run inside the call that answers them (\<^verbatim>\<open>asio::dispatch\<close> on the executor that is running), so they can call
  the channel again before that call returns. Everywhere but in the callback of a write the handler is called last, so
  that the calls it makes are steps that follow. The callback of a write goes on after its handlers: it takes the calls
  they make as an argument, one list for each handler it calls, in the order in which they take effect.
\<close>

section \<open>The channel\<close>

record web_socket_request =
  sr_host :: string
  sr_port :: string
  sr_target :: string
  sr_use_tls :: bool
  sr_headers :: "header list"

record web_socket_limits =
  sl_max_frame_bytes :: nat
  sl_default_connect_timeout_ms :: int

definition default_web_socket_limits :: web_socket_limits where
  "default_web_socket_limits = \<lparr>sl_max_frame_bytes = 2 * 1024 * 1024, sl_default_connect_timeout_ms = 15000\<rparr>"

datatype open_stage = stage_resolve | stage_connect | stage_tls | stage_handshake

datatype channel_answer =
    open_answer "unit result"
  | read_answer "string result"
  | write_answer "unit result"
  | close_answer "unit result"

record ws_channel =
  wk_limits :: web_socket_limits
  wk_request :: web_socket_request
  wk_deadline :: "int option"
  wk_stop_requested :: bool
  wk_stop_callback :: bool
  wk_timer_due :: bool
  wk_cancel_due :: bool
  wk_opening :: bool
  wk_opened :: bool
  wk_read_active :: bool
  wk_write_active :: bool
  wk_cancelled :: bool
  wk_deadline_fired :: bool
  wk_open_handler :: "nat option"
  wk_stages :: "open_stage list"
  wk_reads :: "nat list"
  wk_writes :: "(string \<times> nat) list"
  wk_closes :: "nat list"
  wk_answers :: "(nat \<times> channel_answer) list"
  wk_sent :: "string list"
  wk_accepted :: "string list"
  wk_submitted :: "nat list"
  wk_stream_writes :: nat
  wk_reentered :: bool
  wk_underflow :: bool

definition ws_closed_error :: error where
  "ws_closed_error = mk_error websocket_closed ''WebSocket is not open'' ''''"

definition target_contains_secret :: "string \<Rightarrow> bool" where
  "target_contains_secret target \<longleftrightarrow>
     (let lowered = map to_lower target
      in contains_text ''apikey='' lowered \<or> contains_text ''api_key='' lowered \<or> contains_text ''x-api-key='' lowered \<or>
         contains_text ''jwt='' lowered \<or> contains_text ''token='' lowered)"

definition sanitized_websocket_summary :: "web_socket_request \<Rightarrow> string" where
  "sanitized_websocket_summary r =
     ''WSS '' @ sr_host r @ '':'' @ sr_port r @ takeWhile (\<lambda>c. c \<noteq> CHR ''?'') (sr_target r)"

definition ws_answer :: "nat \<Rightarrow> channel_answer \<Rightarrow> ws_channel \<Rightarrow> ws_channel" where
  "ws_answer h a c = c\<lparr>wk_answers := wk_answers c @ [(h, a)]\<rparr>"

definition ws_cancel_io :: "ws_channel \<Rightarrow> ws_channel" where
  "ws_cancel_io c = c\<lparr>wk_opened := False, wk_opening := False\<rparr>"

subsection \<open>Opening\<close>

definition finish_open :: "unit result \<Rightarrow> ws_channel \<Rightarrow> ws_channel" where
  "finish_open r c =
     (let c1 = c\<lparr>wk_timer_due := False, wk_stop_callback := False\<rparr>;
          c2 = (case r of Inl e \<Rightarrow> ws_cancel_io (c1\<lparr>wk_opening := False\<rparr>) | Inr _ \<Rightarrow> c1);
          c3 = c2\<lparr>wk_open_handler := None\<rparr>
      in case wk_open_handler c of None \<Rightarrow> c3 | Some h \<Rightarrow> ws_answer h (open_answer r) c3)"

definition fail_open :: "error_code \<Rightarrow> string \<Rightarrow> io_error \<Rightarrow> ws_channel \<Rightarrow> ws_channel" where
  "fail_open code stage ec c =
     (if wk_cancelled c \<or> wk_stop_requested c
      then finish_open (Inl (mk_error cancelled ''WebSocket connect cancelled'' '''')) c
      else if wk_deadline_fired c \<or> ie_timeout ec
      then finish_open (Inl (mk_error deadline_exceeded ''WebSocket connect deadline exceeded'' '''')) c
      else finish_open (Inl (transport_error code stage ec)) c)"

definition ws_open ::
    "web_socket_request \<Rightarrow> int option \<Rightarrow> bool \<Rightarrow> nat \<Rightarrow> int \<Rightarrow> int \<Rightarrow> bool \<Rightarrow> ws_channel \<Rightarrow> ws_channel" where
  "ws_open r deadline stopped h now later tls_ok c =
     (if wk_opening c \<or> wk_opened c
      then ws_answer h (open_answer (Inl (mk_error protocol_error ''WebSocket channel is already active'' ''''))) c
      else
        let c1 = c\<lparr>wk_request := r, wk_deadline := deadline, wk_stop_requested := stopped, wk_open_handler := Some h,
                   wk_opening := True, wk_cancelled := False, wk_deadline_fired := False\<rparr>
        in if stopped then finish_open (Inl (mk_error cancelled ''WebSocket connect cancelled'' '''')) c1
           else if sr_host r = [] \<or> sr_port r = [] \<or> sr_target r = [] \<or> hd (sr_target r) \<noteq> CHR ''/''
           then finish_open (Inl (mk_error invalid_argument ''WebSocket host, port and target are required'' ''request'')) c1
           else if target_contains_secret (sr_target r)
           then finish_open (Inl (mk_error invalid_argument ''credentials are forbidden in WebSocket targets'' ''request.target'')) c1
           else
             let d = (case deadline of None \<Rightarrow> now + sl_default_connect_timeout_ms (wk_limits c) | Some d \<Rightarrow> d);
                 c2 = c1\<lparr>wk_deadline := Some d\<rparr>;
                 c3 = c2\<lparr>wk_stop_callback := True, wk_timer_due := True\<rparr>
             in if d \<le> later
                then finish_open (Inl (mk_error deadline_exceeded ''WebSocket connect deadline already expired'' '''')) c2
                else if sr_use_tls r \<and> \<not> tls_ok
                then finish_open (Inl (mk_error tls_failure ''TLS hostname verification setup failed'' '''')) c3
                else c3\<lparr>wk_stages := wk_stages c3 @ [stage_resolve]\<rparr>)"

definition ws_resolved :: "io_error option \<Rightarrow> ws_channel \<Rightarrow> ws_channel" where
  "ws_resolved ec c =
     (case ec of Some e \<Rightarrow> fail_open dns_failure ''resolve'' e c
               | None \<Rightarrow> c\<lparr>wk_stages := wk_stages c @ [stage_connect]\<rparr>)"

definition ws_connected :: "io_error option \<Rightarrow> ws_channel \<Rightarrow> ws_channel" where
  "ws_connected ec c =
     (case ec of Some e \<Rightarrow> fail_open connect_failure ''connect'' e c
               | None \<Rightarrow> c\<lparr>wk_stages := wk_stages c @ [if sr_use_tls (wk_request c) then stage_tls else stage_handshake]\<rparr>)"

definition ws_tls :: "io_error option \<Rightarrow> ws_channel \<Rightarrow> ws_channel" where
  "ws_tls ec c =
     (case ec of Some e \<Rightarrow> fail_open tls_failure ''TLS handshake'' e c
               | None \<Rightarrow> c\<lparr>wk_stages := wk_stages c @ [stage_handshake]\<rparr>)"

text \<open>The handshake's failure carries the status of the response; its cause is not looked at.\<close>

definition ws_handshake :: "io_error option \<Rightarrow> int \<Rightarrow> ws_channel \<Rightarrow> ws_channel" where
  "ws_handshake ec status c =
     (case ec of
        Some e \<Rightarrow> finish_open (Inl ((transport_error websocket_handshake_failure ''WebSocket handshake'' e)\<lparr>err_http_status := status\<rparr>)) c
      | None \<Rightarrow> finish_open (Inr ()) (c\<lparr>wk_opening := False, wk_opened := True, wk_timer_due := False, wk_stop_callback := False\<rparr>))"

subsection \<open>Reading\<close>

datatype frame_read = frame_text string | frame_binary | frame_closed | frame_too_big | frame_error io_error

definition ws_read :: "nat \<Rightarrow> ws_channel \<Rightarrow> ws_channel" where
  "ws_read h c =
     (if \<not> wk_opened c then ws_answer h (read_answer (Inl ws_closed_error)) c
      else if wk_read_active c
      then ws_answer h (read_answer (Inl (mk_error protocol_error ''only one WebSocket read may be active'' ''''))) c
      else c\<lparr>wk_read_active := True, wk_reads := wk_reads c @ [h]\<rparr>)"

definition ws_frame :: "frame_read \<Rightarrow> nat \<Rightarrow> ws_channel \<Rightarrow> ws_channel" where
  "ws_frame frame h c =
     (let c1 = c\<lparr>wk_read_active := False\<rparr>
      in case frame of
           frame_closed \<Rightarrow> ws_answer h (read_answer (Inl ws_closed_error)) (c1\<lparr>wk_opened := False\<rparr>)
         | frame_too_big \<Rightarrow> ws_answer h (read_answer (Inl (mk_error websocket_frame_too_large
              ''WebSocket frame exceeds configured limit'' ''''))) (c1\<lparr>wk_opened := False\<rparr>)
         | frame_error e \<Rightarrow> ws_answer h (read_answer (Inl (transport_error read_failure ''WebSocket read'' e))) (c1\<lparr>wk_opened := False\<rparr>)
         | frame_binary \<Rightarrow> ws_answer h (read_answer (Inl (mk_error protocol_error
              ''binary WebSocket frames are not supported'' ''''))) c1
         | frame_text t \<Rightarrow> ws_answer h (read_answer (Inr t)) c1)"

subsection \<open>Writing\<close>

definition start_write :: "ws_channel \<Rightarrow> ws_channel" where
  "start_write c =
     (if wk_writes c = [] \<or> \<not> wk_opened c then c
      else c\<lparr>wk_write_active := True, wk_sent := wk_sent c @ [fst (hd (wk_writes c))],
             wk_stream_writes := wk_stream_writes c + 1\<rparr>)"

definition ws_write :: "string \<Rightarrow> nat \<Rightarrow> ws_channel \<Rightarrow> ws_channel" where
  "ws_write t h c0 =
     (let c = c0\<lparr>wk_submitted := wk_submitted c0 @ [h]\<rparr>
      in if \<not> wk_opened c then ws_answer h (write_answer (Inl ws_closed_error)) c
         else if length t > sl_max_frame_bytes (wk_limits c)
         then ws_answer h (write_answer (Inl (mk_error websocket_frame_too_large
                ''outbound WebSocket frame exceeds configured limit'' ''''))) c
         else
           let c1 = c\<lparr>wk_writes := wk_writes c @ [(t, h)], wk_accepted := wk_accepted c @ [t]\<rparr>
           in if \<not> wk_write_active c1 then start_write c1 else c1)"

subsection \<open>Closing\<close>

definition ws_close :: "nat \<Rightarrow> ws_channel \<Rightarrow> ws_channel" where
  "ws_close h c =
     (if \<not> wk_opened c then ws_answer h (close_answer (Inr ())) (ws_cancel_io c)
      else c\<lparr>wk_opened := False, wk_closes := wk_closes c @ [h]\<rparr>)"

text \<open>The callback of a close: \<open>already\<close> tells the stream's own closed code from other errors.\<close>

definition ws_close_done :: "io_error option \<Rightarrow> bool \<Rightarrow> nat \<Rightarrow> ws_channel \<Rightarrow> ws_channel" where
  "ws_close_done ec already h c =
     (case ec of
        Some e \<Rightarrow> if already then ws_answer h (close_answer (Inr ())) (ws_cancel_io c)
          else ws_answer h (close_answer (Inl (transport_error websocket_closed ''WebSocket close'' e))) (ws_cancel_io c)
      | None \<Rightarrow> ws_answer h (close_answer (Inr ())) (ws_cancel_io c))"

subsection \<open>Calls made by a handler\<close>

text \<open>
  The calls of the channel's interface, and the request to stop, whose callback cancels the channel when it is registered.
\<close>

datatype socket_call =
    call_open web_socket_request "int option" bool nat int int bool
  | call_read nat
  | call_write string nat
  | call_close nat
  | call_cancel
  | call_stop

definition ws_stop :: "ws_channel \<Rightarrow> ws_channel" where
  "ws_stop c =
     (if wk_stop_requested c then c
      else
        let c1 = c\<lparr>wk_stop_requested := True, wk_stop_callback := False\<rparr>
        in if wk_stop_callback c then ws_cancel_io (c1\<lparr>wk_cancelled := True\<rparr>) else c1)"

fun do_call :: "socket_call \<Rightarrow> ws_channel \<Rightarrow> ws_channel" where
  "do_call (call_open r deadline stopped h now later tls_ok) c = ws_open r deadline stopped h now later tls_ok c"
| "do_call (call_read h) c = ws_read h c"
| "do_call (call_write t h) c = ws_write t h c"
| "do_call (call_close h) c = ws_close h c"
| "do_call call_cancel c = ws_cancel_io c"
| "do_call call_stop c = ws_stop c"

definition do_calls :: "socket_call list \<Rightarrow> ws_channel \<Rightarrow> ws_channel" where
  "do_calls ks c = fold do_call ks c"

subsection \<open>The callback of a write\<close>

text \<open>
  The loop that fails the queue: \<open>calls i\<close> are the calls of the \<open>i\<close>-th handler. It runs while the queue is not empty; the
  channel is not open then, so that no call adds to the queue and the queue's length is enough fuel
  (\<open>fail_queued_empties\<close>).
\<close>

fun fail_queued :: "nat \<Rightarrow> error \<Rightarrow> nat \<Rightarrow> (nat \<Rightarrow> socket_call list) \<Rightarrow> ws_channel \<Rightarrow> ws_channel" where
  "fail_queued 0 e i calls c = c"
| "fail_queued (Suc n) e i calls c =
     (case wk_writes c of
        [] \<Rightarrow> c
      | (t, h) # ws \<Rightarrow>
          fail_queued n e (Suc i) calls (do_calls (calls i) (ws_answer h (write_answer (Inl e)) (c\<lparr>wk_writes := ws\<rparr>))))"

definition fail_queued_writes :: "error \<Rightarrow> nat \<Rightarrow> (nat \<Rightarrow> socket_call list) \<Rightarrow> ws_channel \<Rightarrow> ws_channel" where
  "fail_queued_writes e i calls c = fail_queued (length (wk_writes c)) e i calls c"

definition is_write_call :: "socket_call \<Rightarrow> bool" where
  "is_write_call k = (case k of call_write t h \<Rightarrow> True | _ \<Rightarrow> False)"

text \<open>
  The callback takes the front of the queue, whatever it is, calls its handler, which makes the calls \<open>calls 0\<close>, and then
  starts the next write or fails the queue. Starting a write does not ask whether one is under way.
\<close>

definition ws_written :: "io_error option \<Rightarrow> (nat \<Rightarrow> socket_call list) \<Rightarrow> ws_channel \<Rightarrow> ws_channel" where
  "ws_written ec calls c =
     (let c0 = c\<lparr>wk_write_active := False, wk_stream_writes := wk_stream_writes c - 1\<rparr>
      in case wk_writes c of
           [] \<Rightarrow> c0\<lparr>wk_underflow := True\<rparr>
         | (t, h) # ws \<Rightarrow>
             let c1 = c0\<lparr>wk_writes := ws\<rparr>
             in case ec of
                  Some e \<Rightarrow> fail_queued_writes ws_closed_error 1 calls (do_calls (calls 0)
                    (ws_answer h (write_answer (Inl (transport_error write_failure ''WebSocket write'' e))) (c1\<lparr>wk_opened := False\<rparr>)))
                | None \<Rightarrow> start_write (do_calls (calls 0) (ws_answer h (write_answer (Inr ()))
                    (c1\<lparr>wk_reentered := (wk_reentered c \<or> list_ex is_write_call (calls 0))\<rparr>))))"

definition new_channel :: "web_socket_limits \<Rightarrow> ws_channel" where
  "new_channel limits =
     \<lparr>wk_limits = limits, wk_request = \<lparr>sr_host = [], sr_port = ''443'', sr_target = ''/ws'', sr_use_tls = True, sr_headers = []\<rparr>,
      wk_deadline = None, wk_stop_requested = False, wk_stop_callback = False, wk_timer_due = False, wk_cancel_due = False,
      wk_opening = False, wk_opened = False, wk_read_active = False, wk_write_active = False, wk_cancelled = False,
      wk_deadline_fired = False, wk_open_handler = None, wk_stages = [], wk_reads = [], wk_writes = [], wk_closes = [],
      wk_answers = [], wk_sent = [], wk_accepted = [], wk_submitted = [],
      wk_stream_writes = 0, wk_reentered = False, wk_underflow = False\<rparr>"

section \<open>Steps\<close>

inductive ws_step :: "ws_channel \<Rightarrow> ws_channel \<Rightarrow> bool" where
  calls: "ws_step c (do_call k c)"
| resolves: "wk_stages c = stage_resolve # ss \<Longrightarrow> ws_step c (ws_resolved ec (c\<lparr>wk_stages := ss\<rparr>))"
| connects: "wk_stages c = stage_connect # ss \<Longrightarrow> ws_step c (ws_connected ec (c\<lparr>wk_stages := ss\<rparr>))"
| secures: "wk_stages c = stage_tls # ss \<Longrightarrow> ws_step c (ws_tls ec (c\<lparr>wk_stages := ss\<rparr>))"
| shakes: "wk_stages c = stage_handshake # ss \<Longrightarrow> ws_step c (ws_handshake ec status (c\<lparr>wk_stages := ss\<rparr>))"
| expires: "wk_timer_due c \<Longrightarrow> ws_step c (ws_cancel_io (c\<lparr>wk_timer_due := False, wk_deadline_fired := True\<rparr>))"
| stops: "\<not> wk_stop_requested c \<Longrightarrow>
    ws_step c (c\<lparr>wk_stop_requested := True, wk_cancel_due := wk_stop_callback c, wk_stop_callback := False\<rparr>)"
| aborts: "wk_cancel_due c \<Longrightarrow> ws_step c (ws_cancel_io (c\<lparr>wk_cancel_due := False, wk_cancelled := True\<rparr>))"
| receives: "wk_reads c = h # hs \<Longrightarrow> ws_step c (ws_frame frame h (c\<lparr>wk_reads := hs\<rparr>))"
| sends: "wk_stream_writes c > 0 \<Longrightarrow> ws_step c (ws_written ec inline c)"
| ends: "wk_closes c = h # hs \<Longrightarrow> ws_step c (ws_close_done ec already h (c\<lparr>wk_closes := hs\<rparr>))"

inductive_cases ws_stepE: "ws_step c c'"

section \<open>The queue of writes\<close>

definition is_write_answer :: "channel_answer \<Rightarrow> bool" where
  "is_write_answer a = (case a of write_answer r \<Rightarrow> True | _ \<Rightarrow> False)"

definition answered_writes :: "ws_channel \<Rightarrow> nat multiset" where
  "answered_writes c = mset (map fst (filter (\<lambda>p. is_write_answer (snd p)) (wk_answers c)))"

definition queued_writes :: "ws_channel \<Rightarrow> nat multiset" where
  "queued_writes c = mset (map snd (wk_writes c))"

text \<open>The frames the stream has had and the ones still to come.\<close>

definition frame_order :: "ws_channel \<Rightarrow> string list" where
  "frame_order c = wk_sent c @ map fst (if wk_write_active c then tl (wk_writes c) else wk_writes c)"

definition queue_inv :: "ws_channel \<Rightarrow> bool" where
  "queue_inv c \<longleftrightarrow> answered_writes c + queued_writes c = mset (wk_submitted c) \<and> subseq (frame_order c) (wk_accepted c) \<and>
     (wk_write_active c \<longrightarrow> wk_writes c \<noteq> []) \<and> wk_stream_writes c = (if wk_write_active c then 1 else 0) \<and>
     \<not> wk_underflow c"

text \<open>The invariant holds as long as no handler of a finished write has made a write call.\<close>

definition channel_inv :: "ws_channel \<Rightarrow> bool" where
  "channel_inv c \<longleftrightarrow> \<not> wk_reentered c \<longrightarrow> queue_inv c"

text \<open>The part of the state the invariant is about; the other operations leave it as it is.\<close>

definition queue_view where
  "queue_view c = (answered_writes c, wk_writes c, wk_submitted c, wk_sent c, wk_accepted c, wk_write_active c, wk_stream_writes c,
     wk_reentered c, wk_underflow c)"

lemma queue_inv_view: "queue_view c' = queue_view c \<Longrightarrow> queue_inv c' = queue_inv c"
  by (simp add: queue_view_def queue_inv_def frame_order_def queued_writes_def)

lemma channel_inv_view: "queue_view c' = queue_view c \<Longrightarrow> channel_inv c' = channel_inv c"
  using queue_inv_view [of c' c] by (simp add: channel_inv_def) (simp add: queue_view_def)

lemma view_answer: "\<not> is_write_answer a \<Longrightarrow> queue_view (ws_answer h a c) = queue_view c"
  by (simp add: queue_view_def ws_answer_def answered_writes_def)

lemma view_update [simp]:
  "queue_view (c\<lparr>wk_opened := b\<rparr>) = queue_view c" "queue_view (c\<lparr>wk_opening := b\<rparr>) = queue_view c"
  "queue_view (c\<lparr>wk_timer_due := b\<rparr>) = queue_view c" "queue_view (c\<lparr>wk_stop_callback := b\<rparr>) = queue_view c"
  "queue_view (c\<lparr>wk_open_handler := ho\<rparr>) = queue_view c" "queue_view (c\<lparr>wk_cancelled := b\<rparr>) = queue_view c"
  "queue_view (c\<lparr>wk_deadline_fired := b\<rparr>) = queue_view c" "queue_view (c\<lparr>wk_deadline := d\<rparr>) = queue_view c"
  "queue_view (c\<lparr>wk_request := r\<rparr>) = queue_view c" "queue_view (c\<lparr>wk_stop_requested := b\<rparr>) = queue_view c"
  "queue_view (c\<lparr>wk_cancel_due := b\<rparr>) = queue_view c" "queue_view (c\<lparr>wk_stages := ss\<rparr>) = queue_view c"
  "queue_view (c\<lparr>wk_reads := hs\<rparr>) = queue_view c" "queue_view (c\<lparr>wk_closes := hs\<rparr>) = queue_view c"
  "queue_view (c\<lparr>wk_read_active := b\<rparr>) = queue_view c"
  by (simp_all add: queue_view_def answered_writes_def)

lemma view_cancel_io [simp]: "queue_view (ws_cancel_io c) = queue_view c"
  by (simp add: ws_cancel_io_def)

lemma view_finish_open [simp]: "queue_view (finish_open r c) = queue_view c"
  by (simp add: finish_open_def Let_def view_answer is_write_answer_def split: sum.split option.split)

lemma view_fail_open [simp]: "queue_view (fail_open code stage ec c) = queue_view c"
  by (simp add: fail_open_def)

lemma view_open [simp]: "queue_view (ws_open r d st h now later ok c) = queue_view c"
  by (simp add: ws_open_def Let_def view_answer is_write_answer_def)

lemma view_stages [simp]:
  "queue_view (ws_resolved ec c) = queue_view c" "queue_view (ws_connected ec c) = queue_view c"
  "queue_view (ws_tls ec c) = queue_view c" "queue_view (ws_handshake ec status c) = queue_view c"
  by (simp_all add: ws_resolved_def ws_connected_def ws_tls_def ws_handshake_def split: option.split)

lemma view_read [simp]:
  "queue_view (ws_read h c) = queue_view c" "queue_view (ws_frame frame h c) = queue_view c"
  by (simp_all add: ws_read_def ws_frame_def Let_def view_answer is_write_answer_def split: frame_read.split)

lemma view_close [simp]:
  "queue_view (ws_close h c) = queue_view c" "queue_view (ws_close_done ec already h c) = queue_view c"
  by (simp_all add: ws_close_def ws_close_done_def view_answer is_write_answer_def split: option.split)

lemma view_stop [simp]: "queue_view (ws_stop c) = queue_view c"
  by (simp add: ws_stop_def Let_def)

lemma view_call: "\<not> is_write_call k \<Longrightarrow> queue_view (do_call k c) = queue_view c"
  by (cases k) (simp_all add: is_write_call_def)

lemma view_calls: "\<not> list_ex is_write_call ks \<Longrightarrow> queue_view (do_calls ks c) = queue_view c"
  unfolding do_calls_def by (induction ks arbitrary: c) (simp_all add: view_call)

lemma answered_answer: "answered_writes (ws_answer h (write_answer r) c) = answered_writes c + {#h#}"
  by (simp add: answered_writes_def ws_answer_def is_write_answer_def)

lemma answer_kept [simp]:
  "wk_writes (ws_answer h a c) = wk_writes c" "wk_submitted (ws_answer h a c) = wk_submitted c"
  "wk_sent (ws_answer h a c) = wk_sent c" "wk_accepted (ws_answer h a c) = wk_accepted c"
  "wk_write_active (ws_answer h a c) = wk_write_active c" "wk_opened (ws_answer h a c) = wk_opened c"
  "wk_stream_writes (ws_answer h a c) = wk_stream_writes c" "wk_reentered (ws_answer h a c) = wk_reentered c"
  "wk_underflow (ws_answer h a c) = wk_underflow c" "wk_limits (ws_answer h a c) = wk_limits c"
  by (simp_all add: ws_answer_def)

lemma answered_update [simp]:
  "answered_writes (c\<lparr>wk_writes := ws\<rparr>) = answered_writes c" "answered_writes (c\<lparr>wk_write_active := b\<rparr>) = answered_writes c"
  "answered_writes (c\<lparr>wk_sent := ts\<rparr>) = answered_writes c" "answered_writes (c\<lparr>wk_accepted := ts\<rparr>) = answered_writes c"
  "answered_writes (c\<lparr>wk_submitted := hs\<rparr>) = answered_writes c" "answered_writes (c\<lparr>wk_opened := b\<rparr>) = answered_writes c"
  "answered_writes (c\<lparr>wk_stream_writes := n\<rparr>) = answered_writes c" "answered_writes (c\<lparr>wk_reentered := b\<rparr>) = answered_writes c"
  by (simp_all add: answered_writes_def)

text \<open>A call that is no open handshake cannot open the channel; the queue of a channel that is not open takes no writes.\<close>

lemma closed_call:
  "\<not> wk_opened c \<Longrightarrow> \<not> wk_opened (do_call k c) \<and> wk_writes (do_call k c) = wk_writes c"
  by (cases k)
    (auto simp: ws_open_def finish_open_def ws_cancel_io_def ws_read_def ws_write_def ws_close_def ws_stop_def ws_answer_def Let_def
      split: option.split)

lemma closed_calls: "\<not> wk_opened c \<Longrightarrow> \<not> wk_opened (do_calls ks c) \<and> wk_writes (do_calls ks c) = wk_writes c"
  unfolding do_calls_def by (induction ks arbitrary: c) (simp_all add: closed_call)

lemma fail_queued_empties:
  "\<not> wk_opened c \<Longrightarrow> n = length (wk_writes c) \<Longrightarrow> wk_writes (fail_queued n e i calls c) = []"
proof (induction n e i calls c rule: fail_queued.induct)
  case (2 n e i calls c)
  then obtain t h ws where w: "wk_writes c = (t, h) # ws"
    by (cases "wk_writes c") auto
  show ?case
    using 2 by (simp add: w closed_calls)
qed simp

lemma inv_start_write: "queue_inv c \<Longrightarrow> \<not> wk_write_active c \<Longrightarrow> queue_inv (start_write c)"
  by (cases "wk_writes c") (auto simp: queue_inv_def start_write_def frame_order_def queued_writes_def)

lemma inv_answer_write:
  "answered_writes c + queued_writes c + {#h#} = mset (wk_submitted c) \<Longrightarrow> subseq (frame_order c) (wk_accepted c) \<Longrightarrow>
   (wk_write_active c \<longrightarrow> wk_writes c \<noteq> []) \<Longrightarrow> wk_stream_writes c = (if wk_write_active c then 1 else 0) \<Longrightarrow>
   \<not> wk_underflow c \<Longrightarrow> queue_inv (ws_answer h (write_answer r) c)"
  by (cases "wk_write_active c") (simp_all add: queue_inv_def answered_answer frame_order_def queued_writes_def)

lemma inv_write:
  assumes "queue_inv c"
  shows "queue_inv (ws_write t h c)"
proof -
  define c0 where "c0 = c\<lparr>wk_submitted := wk_submitted c @ [h]\<rparr>"
  define c1 where "c1 = c0\<lparr>wk_writes := wk_writes c0 @ [(t, h)], wk_accepted := wk_accepted c0 @ [t]\<rparr>"
  have "queue_inv (ws_answer h (write_answer r) c0)" for r
    using assms by (cases "wk_write_active c"; intro inv_answer_write)
      (simp_all add: c0_def queue_inv_def frame_order_def queued_writes_def)
  moreover have "queue_inv c1"
    using assms by (auto simp: c1_def c0_def queue_inv_def frame_order_def queued_writes_def simp flip: append_assoc
        intro: list_emb_append_mono)
  ultimately show ?thesis
    using inv_start_write [of c1] unfolding ws_write_def Let_def c0_def [symmetric] c1_def [symmetric] by simp
qed

lemma inv_call: "queue_inv c \<Longrightarrow> queue_inv (do_call k c)"
  using queue_inv_view [OF view_call, of k c] by (cases k) (simp_all add: inv_write is_write_call_def)

lemma inv_calls: "queue_inv c \<Longrightarrow> queue_inv (do_calls ks c)"
  unfolding do_calls_def by (induction ks arbitrary: c) (simp_all add: inv_call)

text \<open>Taking the front of the queue of a channel with no write under way and answering it.\<close>

lemma inv_pop:
  assumes "queue_inv c" and "\<not> wk_write_active c" and "wk_writes c = (t, h) # ws"
  shows "queue_inv (ws_answer h (write_answer r) (c\<lparr>wk_writes := ws\<rparr>))"
proof (rule inv_answer_write)
  have "subseq (wk_sent c @ map fst ws) (wk_sent c @ t # map fst ws)"
    by (intro list_emb_append_mono list_emb_Cons subseq_order.refl)
  then show "subseq (frame_order (c\<lparr>wk_writes := ws\<rparr>)) (wk_accepted (c\<lparr>wk_writes := ws\<rparr>))"
    using assms subseq_order.trans by (fastforce simp: queue_inv_def frame_order_def)
qed (use assms in \<open>simp_all add: queue_inv_def queued_writes_def\<close>)

lemma reentered_call [simp]: "wk_reentered (do_call k c) = wk_reentered c"
  using view_call [of k c] by (cases "is_write_call k")
    (auto simp: queue_view_def is_write_call_def ws_write_def start_write_def Let_def split: socket_call.splits)

lemma reentered_calls [simp]: "wk_reentered (do_calls ks c) = wk_reentered c"
  unfolding do_calls_def by (induction ks arbitrary: c) simp_all

lemma idle_closed_call:
  "\<not> wk_opened c \<Longrightarrow> wk_write_active (do_call k c) = wk_write_active c"
  using view_call [of k c] by (cases "is_write_call k")
    (auto simp: queue_view_def is_write_call_def ws_write_def Let_def split: socket_call.splits)

lemma idle_closed_calls: "\<not> wk_opened c \<Longrightarrow> wk_write_active (do_calls ks c) = wk_write_active c"
  unfolding do_calls_def by (induction ks arbitrary: c) (simp_all add: idle_closed_call closed_call)

lemma inv_fail_queued:
  "queue_inv c \<Longrightarrow> \<not> wk_write_active c \<Longrightarrow> \<not> wk_opened c \<Longrightarrow>
   queue_inv (fail_queued n e i calls c) \<and> wk_reentered (fail_queued n e i calls c) = wk_reentered c"
proof (induction n e i calls c rule: fail_queued.induct)
  case (2 n e i calls c)
  then show ?case
    by (cases "wk_writes c") (auto simp: inv_calls inv_pop closed_calls idle_closed_calls)
qed simp

lemma inv_written:
  assumes "channel_inv c" and "wk_stream_writes c > 0"
  shows "channel_inv (ws_written ec calls c)"
proof (cases "wk_reentered c")
  case True
  have "wk_reentered (fail_queued n e i calls c) = wk_reentered c" for n e i c
    by (induction n e i calls c rule: fail_queued.induct) (auto split: list.split)
  then show ?thesis
    using True by (simp add: channel_inv_def ws_written_def fail_queued_writes_def start_write_def Let_def split: list.split option.split)
next
  case False
  then have inv: "queue_inv c" "wk_write_active c"
    using assms by (auto simp: channel_inv_def queue_inv_def split: if_splits)
  then obtain t h ws where w: "wk_writes c = (t, h) # ws"
    by (cases "wk_writes c") (auto simp: queue_inv_def)
  define c1 where "c1 = c\<lparr>wk_write_active := False, wk_stream_writes := wk_stream_writes c - 1, wk_writes := ws\<rparr>"
  have answered: "queue_inv (ws_answer h (write_answer r) (c1\<lparr>wk_opened := b\<rparr>))"
    "queue_inv (ws_answer h (write_answer r) (c1\<lparr>wk_reentered := b\<rparr>))" for r b
    using inv w by (intro inv_answer_write; simp add: c1_def queue_inv_def frame_order_def queued_writes_def)+
  show ?thesis
  proof (cases ec)
    case None
    define c2 where "c2 = ws_answer h (write_answer (Inr ())) (c1\<lparr>wk_reentered := list_ex is_write_call (calls 0)\<rparr>)"
    have "ws_written ec calls c = start_write (do_calls (calls 0) c2)"
      using False None by (simp add: ws_written_def w c1_def c2_def Let_def)
    moreover have "queue_inv (start_write (do_calls (calls 0) c2))" if "\<not> list_ex is_write_call (calls 0)"
      using view_calls [OF that, of c2] answered(2) inv_calls inv_start_write
      by (auto simp: c2_def queue_view_def c1_def)
    moreover have "wk_reentered (start_write (do_calls (calls 0) c2)) = list_ex is_write_call (calls 0)"
      by (simp add: c2_def start_write_def)
    ultimately show ?thesis
      by (simp add: channel_inv_def)
  next
    case (Some e)
    define c2 where "c2 = ws_answer h (write_answer (Inl (transport_error write_failure ''WebSocket write'' e))) (c1\<lparr>wk_opened := False\<rparr>)"
    have "ws_written ec calls c = fail_queued_writes ws_closed_error 1 calls (do_calls (calls 0) c2)"
      using Some by (simp add: ws_written_def w c1_def c2_def Let_def)
    moreover have "queue_inv c2" "\<not> wk_opened c2" "\<not> wk_write_active c2"
      using answered(1) by (auto simp: c2_def c1_def)
    ultimately show ?thesis
      by (simp add: channel_inv_def fail_queued_writes_def inv_fail_queued inv_calls closed_calls idle_closed_calls)
  qed
qed

lemma channel_inv_step: "ws_step c c' \<Longrightarrow> channel_inv c \<Longrightarrow> channel_inv c'"
proof (induction rule: ws_step.induct)
  case (calls c k)
  then show ?case
    by (simp add: channel_inv_def inv_call)
next
  case (sends c ec inline)
  then show ?case
    by (simp add: inv_written)
qed (erule channel_inv_view [THEN iffD2, rotated], simp)+

lemma limits_of_parts:
  "wk_limits (ws_answer h a c) = wk_limits c" "wk_limits (ws_cancel_io c) = wk_limits c"
  "wk_limits (start_write c) = wk_limits c"
  by (simp_all add: ws_answer_def ws_cancel_io_def start_write_def)

lemma limits_of_opening:
  "wk_limits (finish_open r c) = wk_limits c" "wk_limits (fail_open e g ec c) = wk_limits c"
  by (simp_all add: finish_open_def fail_open_def Let_def limits_of_parts split: option.split sum.split)

lemma limits_of_call: "wk_limits (do_call k c) = wk_limits c"
  by (cases k) (simp_all add: limits_of_parts limits_of_opening ws_open_def ws_read_def ws_write_def ws_close_def ws_stop_def Let_def)

lemma limits_of_calls: "wk_limits (do_calls ks c) = wk_limits c"
  unfolding do_calls_def by (induction ks arbitrary: c) (simp_all add: limits_of_call)

lemma limits_of_failing: "wk_limits (fail_queued n e i calls c) = wk_limits c"
  by (induction n e i calls c rule: fail_queued.induct) (auto simp: limits_of_parts limits_of_calls split: list.split)

lemma limits_kept: "ws_step c c' \<Longrightarrow> wk_limits c' = wk_limits c"
  by (induction rule: ws_step.induct)
    (simp_all add: limits_of_parts limits_of_opening limits_of_failing limits_of_call limits_of_calls fail_queued_writes_def
      ws_resolved_def ws_connected_def ws_tls_def ws_handshake_def ws_frame_def ws_written_def ws_close_done_def Let_def
      split: option.split frame_read.split list.split prod.split)

interpretation channel_machine: machine ws_step channel_inv wk_limits
  by unfold_locales (simp_all add: channel_inv_step limits_kept)

lemma channel_inv_new: "channel_inv (new_channel limits)"
  by (simp add: channel_inv_def queue_inv_def new_channel_def answered_writes_def queued_writes_def frame_order_def)

section \<open>A queue that nothing drives\<close>

text \<open>Frames are only added to those sent and accepted.\<close>

definition grows :: "ws_channel \<Rightarrow> ws_channel \<Rightarrow> bool" where
  "grows c c' \<longleftrightarrow> prefix (wk_sent c) (wk_sent c') \<and> prefix (wk_accepted c) (wk_accepted c')"

lemma grows_trans: "grows c c' \<Longrightarrow> grows c' c'' \<Longrightarrow> grows c c''"
  by (auto simp: grows_def)

lemma grows_refl [simp]: "grows c c"
  by (simp add: grows_def)

lemma grows_view: "queue_view c' = queue_view c \<Longrightarrow> grows c c'"
  by (simp add: queue_view_def grows_def)

lemma grows_start_write: "grows c (start_write c)"
  by (simp add: grows_def start_write_def)

lemma grows_call: "grows c (do_call k c)"
  using grows_view [OF view_call, of k c]
  by (cases k) (simp_all add: is_write_call_def, simp add: ws_write_def grows_def start_write_def Let_def)

lemma grows_calls: "grows c (do_calls ks c)"
  unfolding do_calls_def
proof (induction ks arbitrary: c)
  case (Cons k ks)
  show ?case
    using grows_trans [OF grows_call Cons.IH] by simp
qed simp

lemma grows_fail_queued: "grows c (fail_queued n e i calls c)"
proof (induction n e i calls c rule: fail_queued.induct)
  case (2 n e i calls c)
  show ?case
  proof (cases "wk_writes c")
    case (Cons w ws)
    have "grows c (do_calls ks (ws_answer h a (c\<lparr>wk_writes := ws\<rparr>)))" for ks h a
      by (rule grows_trans [OF _ grows_calls]) (simp add: grows_def)
    then show ?thesis
      using Cons grows_trans [OF _ "2.IH" [OF Cons prod.collapse]] by (cases w) simp
  qed simp
qed simp

lemma grows_written: "grows c (ws_written ec calls c)"
proof (cases "wk_writes c")
  case (Cons w ws)
  define c1 where "c1 = c\<lparr>wk_write_active := False, wk_stream_writes := wk_stream_writes c - 1, wk_writes := ws\<rparr>"
  have "grows c (do_calls ks (ws_answer h a (c1\<lparr>wk_opened := b\<rparr>)))" "grows c (do_calls ks (ws_answer h a (c1\<lparr>wk_reentered := b\<rparr>)))" for ks h a b
    by (rule grows_trans [OF _ grows_calls], simp add: grows_def c1_def)+
  then show ?thesis
    using Cons grows_trans [OF _ grows_start_write] grows_trans [OF _ grows_fail_queued]
    by (cases w) (simp add: ws_written_def fail_queued_writes_def Let_def c1_def split: option.split)
qed (simp add: ws_written_def grows_def)

lemma ws_step_view:
  assumes "ws_step c c'" and "wk_stream_writes c = 0"
  shows "queue_view c' = queue_view c \<or> (\<exists>t h. c' = ws_write t h c)"
  using assms
proof (induction rule: ws_step.induct)
  case (calls c k)
  then show ?case
    using view_call [of k c] by (cases k) (auto simp: is_write_call_def)
qed simp_all

lemma ws_step_grows: "ws_step c c' \<Longrightarrow> grows c c'"
proof (induction rule: ws_step.induct)
  case (calls c k)
  show ?case
    by (rule grows_call)
next
  case (sends c ec inline)
  show ?case
    by (rule grows_written)
qed (rule grows_view, simp)+

text \<open>
  A channel that has come from one with an idle queue: either nothing was accepted since and the queue is as it was, with
  every write since then answered at once, or the front of the queue has been sent next.
\<close>

definition undriven :: "ws_channel \<Rightarrow> string \<Rightarrow> ws_channel \<Rightarrow> bool" where
  "undriven c t c' \<longleftrightarrow>
     (if wk_accepted c' = wk_accepted c
      then wk_writes c' = wk_writes c \<and> wk_sent c' = wk_sent c \<and> wk_stream_writes c' = 0 \<and> \<not> wk_write_active c' \<and>
           answered_writes c' + mset (wk_submitted c) = answered_writes c + mset (wk_submitted c')
      else strict_prefix (wk_accepted c) (wk_accepted c') \<and> prefix (wk_sent c @ [t]) (wk_sent c'))"

lemma undriven_view: "queue_view c'' = queue_view c' \<Longrightarrow> undriven c t c'' = undriven c t c'"
  by (simp add: queue_view_def undriven_def)

lemma undriven_write:
  assumes "wk_writes c = (t, h) # ws" and "undriven c t c'" and "wk_accepted c' = wk_accepted c"
  shows "undriven c t (ws_write t' h' c')"
  using assms by (auto simp: undriven_def ws_write_def start_write_def Let_def answered_answer strict_prefix_def)

lemma undriven_step:
  assumes "ws_step c' c''" and "wk_writes c = (t, h) # ws" and "undriven c t c'"
  shows "undriven c t c''"
proof (cases "wk_accepted c' = wk_accepted c")
  case True
  then have "wk_stream_writes c' = 0"
    using assms(3) by (simp add: undriven_def)
  then show ?thesis
    using ws_step_view [OF assms(1)] undriven_view assms(3) undriven_write [OF assms(2,3) True] by blast
next
  case False
  then have "strict_prefix (wk_accepted c) (wk_accepted c'')" "prefix (wk_sent c @ [t]) (wk_sent c'')"
    using ws_step_grows [OF assms(1)] assms(3) prefix_order.less_le_trans prefix_order.trans
    by (fastforce simp: grows_def undriven_def)+
  then show ?thesis
    by (auto simp: undriven_def)
qed

lemma undriven_run:
  assumes "ws_step\<^sup>*\<^sup>* c c'" and "wk_stream_writes c = 0" and "\<not> wk_write_active c" and "wk_writes c = (t, h) # ws"
  shows "undriven c t c'"
  using assms(1)
proof (induction rule: rtranclp_induct)
  case base
  show ?case
    using assms(2-4) by (simp add: undriven_def)
next
  case (step c' c'')
  then show ?case
    using undriven_step assms(4) by blast
qed

section \<open>Properties\<close>

text \<open>
  C29. The writes of a channel, under any calls and any results of the stream, also when the channel is closed, cancelled and
  opened again, and with handlers that call the channel from inside its own callbacks, as long as the handler of
  a successful write does not itself write: every write call is answered or still in the queue, as often as it was made,
  so no handler is called twice; the frames given to the stream, followed by those still in the queue, are in the order of
  the calls that were accepted; at most one write is under way in the stream, and then its frame is at the front of the
  queue; and no callback of a write finds the queue empty. The handlers of the two WebSocket clients do not write.
\<close>

theorem channel_writes_accounted:
  assumes "ws_step\<^sup>*\<^sup>* (new_channel limits) c" and "\<not> wk_reentered c"
  shows "answered_writes c + queued_writes c = mset (wk_submitted c) \<and> subseq (frame_order c) (wk_accepted c) \<and>
    wk_stream_writes c = (if wk_write_active c then 1 else 0) \<and> (wk_write_active c \<longrightarrow> wk_writes c \<noteq> []) \<and> \<not> wk_underflow c"
  using channel_machine.run_inv [OF assms(1) channel_inv_new] assms(2) by (simp add: channel_inv_def queue_inv_def)

text \<open>
  What the condition excludes. A handler that writes from inside the callback of its own successful write finds no write
  under way, so that its call starts the front of the queue; the callback then starts the same frame again, and two writes
  of it are under way at once.
\<close>

theorem inline_write_starts_twice:
  assumes "wk_opened c" and "wk_writes c = (t, h) # ws" and "wk_stream_writes c = 1"
    and "calls 0 = [call_write t' h']" and "length t' \<le> sl_max_frame_bytes (wk_limits c)"
  shows "wk_stream_writes (ws_written None calls c) = 2 \<and>
    wk_sent (ws_written None calls c) = wk_sent c @ replicate 2 (fst (hd (ws @ [(t', h')])))"
  using assms by (simp add: numeral_2_eq_2 ws_written_def do_calls_def ws_write_def start_write_def ws_answer_def Let_def)

text \<open>A channel over plain sockets: two writes, a close while the first is under way, and the channel opened again.\<close>

definition sample_ws_request :: web_socket_request where
  "sample_ws_request = \<lparr>sr_host = ''ws.predict.fun'', sr_port = ''443'', sr_target = ''/ws'', sr_use_tls = False, sr_headers = []\<rparr>"

definition sample_ws_opened :: "nat \<Rightarrow> ws_channel \<Rightarrow> ws_channel" where
  "sample_ws_opened h c =
     (let c1 = ws_open sample_ws_request None False h 0 0 True c;
          c2 = ws_resolved None (c1\<lparr>wk_stages := []\<rparr>);
          c3 = ws_connected None (c2\<lparr>wk_stages := []\<rparr>)
      in ws_handshake None 101 (c3\<lparr>wk_stages := []\<rparr>))"

definition sample_ws_writing :: ws_channel where
  "sample_ws_writing =
     ws_write ''subscribe'' 2 (ws_write ''heartbeat'' 1 (sample_ws_opened 0 (new_channel default_web_socket_limits)))"

definition sample_ws_closing :: ws_channel where
  "sample_ws_closing = ws_written None (\<lambda>_. []) (ws_close 3 sample_ws_writing)"

definition sample_ws_closed :: ws_channel where
  "sample_ws_closed = ws_close_done None False 3 (sample_ws_closing\<lparr>wk_closes := []\<rparr>)"

lemma opened_steps:
  assumes "\<not> wk_opening c" and "\<not> wk_opened c" and "wk_stages c = []"
    and "sl_default_connect_timeout_ms (wk_limits c) = 15000"
  shows "ws_step\<^sup>*\<^sup>* c (sample_ws_opened h c)"
proof -
  define c1 where "c1 = ws_open sample_ws_request None False h 0 0 True c"
  define c2 where "c2 = ws_resolved None (c1\<lparr>wk_stages := []\<rparr>)"
  define c3 where "c3 = ws_connected None (c2\<lparr>wk_stages := []\<rparr>)"
  have secret: "\<not> target_contains_secret ''/ws''"
    by code_simp
  have "wk_stages c1 = [stage_resolve]"
    using assms secret by (simp add: c1_def ws_open_def sample_ws_request_def Let_def)
  moreover have "\<not> sr_use_tls (wk_request c1)"
    using assms secret by (simp add: c1_def ws_open_def sample_ws_request_def Let_def)
  ultimately have "wk_stages c2 = [stage_connect]" "wk_stages c3 = [stage_handshake]"
    by (simp_all add: c2_def c3_def ws_resolved_def ws_connected_def)
  have "ws_step c c1"
    using ws_step.calls [of c "call_open sample_ws_request None False h 0 0 True"] by (simp add: c1_def)
  moreover have "ws_step c1 c2"
    unfolding c2_def by (rule ws_step.resolves) fact
  moreover have "ws_step c2 c3"
    unfolding c3_def by (rule ws_step.connects) fact
  moreover have "ws_step c3 (ws_handshake None 101 (c3\<lparr>wk_stages := []\<rparr>))"
    by (rule ws_step.shakes) fact
  ultimately show ?thesis
    unfolding sample_ws_opened_def Let_def c1_def [symmetric] c2_def [symmetric] c3_def [symmetric]
    by (meson converse_rtranclp_into_rtranclp rtranclp.rtrancl_refl)
qed

lemma writes_steps: "ws_step\<^sup>*\<^sup>* c0 c \<Longrightarrow> ws_step\<^sup>*\<^sup>* c0 (ws_write t h c)"
  using ws_step.calls [of c "call_write t h"] by (auto intro: rtranclp.rtrancl_into_rtrancl)

lemma sample_ws_facts:
  "wk_stream_writes (ws_close 3 sample_ws_writing) > 0" "wk_closes sample_ws_closing = [3]"
  "\<not> wk_opening sample_ws_closed" "\<not> wk_opened sample_ws_closed" "wk_stages sample_ws_closed = []"
  "wk_limits sample_ws_closed = default_web_socket_limits"
  "wk_stages (new_channel default_web_socket_limits) = []"
  by code_simp+

lemma sample_ws_run: "ws_step\<^sup>*\<^sup>* (new_channel default_web_socket_limits) sample_ws_closed"
proof -
  have "ws_step\<^sup>*\<^sup>* (new_channel default_web_socket_limits) (sample_ws_opened 0 (new_channel default_web_socket_limits))"
    by (rule opened_steps) (simp_all add: new_channel_def default_web_socket_limits_def)
  then have "ws_step\<^sup>*\<^sup>* (new_channel default_web_socket_limits) sample_ws_writing"
    unfolding sample_ws_writing_def by (intro writes_steps)
  moreover have "ws_step sample_ws_writing (ws_close 3 sample_ws_writing)"
    using ws_step.calls [of sample_ws_writing "call_close 3"] by simp
  moreover have "ws_step (ws_close 3 sample_ws_writing) sample_ws_closing"
    unfolding sample_ws_closing_def by (rule ws_step.sends) (rule sample_ws_facts)
  moreover have "ws_step sample_ws_closing sample_ws_closed"
    unfolding sample_ws_closed_def by (rule ws_step.ends) (rule sample_ws_facts)
  ultimately show ?thesis
    by (meson rtranclp.rtrancl_into_rtrancl)
qed

definition sample_ws_reopened :: ws_channel where
  "sample_ws_reopened = ws_write ''login'' 5 (sample_ws_opened 4 sample_ws_closed)"

text \<open>
  C30. A write left in the queue of an idle channel is abandoned. When no write is under way and the queue is not empty, as after a
  close that overtakes a write, then whatever is called and reported after that, reads, closes, cancellations and opening the
  channel again included: until another write is accepted, the queue stays as it is, no frame is sent and none of the queued
  writes is answered (exactly the later, refused write calls are); and when a write is accepted, the frame that is sent first is
  the abandoned one, on whatever connection the channel then has.
\<close>

theorem queued_write_abandoned:
  assumes "ws_step\<^sup>*\<^sup>* c c'" and "wk_stream_writes c = 0" and "\<not> wk_write_active c" and "wk_writes c = (t, h) # ws"
  shows "if wk_accepted c' = wk_accepted c
    then wk_writes c' = wk_writes c \<and> wk_sent c' = wk_sent c \<and>
      answered_writes c' + mset (wk_submitted c) = answered_writes c + mset (wk_submitted c')
    else prefix (wk_sent c @ [t]) (wk_sent c')"
  using undriven_run [OF assms] by (simp add: undriven_def split: if_splits)

theorem queued_write_abandoned_witness:
  "ws_step\<^sup>*\<^sup>* (new_channel default_web_socket_limits) sample_ws_closed \<and> wk_writes sample_ws_closed = [(''subscribe'', 2)] \<and>
   wk_closes sample_ws_closed = [] \<and> wk_writes (sample_ws_opened 4 sample_ws_closed) = [(''subscribe'', 2)] \<and>
   prefix [''heartbeat'', ''subscribe''] (wk_sent sample_ws_reopened)"
proof -
  have closed: "wk_stream_writes sample_ws_closed = 0" "\<not> wk_write_active sample_ws_closed"
    "wk_writes sample_ws_closed = [(''subscribe'', 2)]" "wk_sent sample_ws_closed = [''heartbeat'']" "wk_closes sample_ws_closed = []"
    by code_simp+
  have later: "wk_accepted (sample_ws_opened 4 sample_ws_closed) = wk_accepted sample_ws_closed"
    "wk_accepted sample_ws_reopened \<noteq> wk_accepted sample_ws_closed"
    by code_simp+
  have opened: "ws_step\<^sup>*\<^sup>* sample_ws_closed (sample_ws_opened 4 sample_ws_closed)"
    by (intro opened_steps) (simp_all add: sample_ws_facts default_web_socket_limits_def)
  then have reopened: "ws_step\<^sup>*\<^sup>* sample_ws_closed sample_ws_reopened"
    unfolding sample_ws_reopened_def by (rule writes_steps)
  show ?thesis
    using queued_write_abandoned [OF opened closed(1-3)] queued_write_abandoned [OF reopened closed(1-3)] sample_ws_run closed later
    by simp
qed

theorem channel_writes_accounted_witness:
  "ws_step\<^sup>*\<^sup>* (new_channel default_web_socket_limits) sample_ws_closed \<and>
   answered_writes sample_ws_closed + queued_writes sample_ws_closed = {#1, 2#}"
proof -
  have "wk_submitted sample_ws_closed = [1, 2]" "\<not> wk_reentered sample_ws_closed"
    by code_simp+
  then show ?thesis
    using channel_writes_accounted [OF sample_ws_run] sample_ws_run by simp
qed

end
