(* ===== verification/Local_Signer.thy ===== *)
theory Local_Signer
  imports Order_Signing Chain_Transaction Auth
begin

text \<open>
  The local signer (\<^verbatim>\<open>src/local_signer.cpp\<close>, \<^verbatim>\<open>src/chain_local_transaction_signer.cpp\<close>): the private key's text, the text
  of a signature and the envelope of a personal message. The curve and the hash are parameters (\<open>curve\<close>); the erasure of
  key bytes is not visible in the results.
\<close>

section \<open>Keys and signatures\<close>

record ecdsa_signature =
  es_r :: bytes32
  es_s :: bytes32
  es_y_parity :: "8 word"

record 'k curve =
  cv_from_bytes :: "bytes \<Rightarrow> 'k option"
  cv_public_key :: "'k \<Rightarrow> bytes"
  cv_eth_address :: "bytes \<Rightarrow> string"
  cv_sign :: "'k \<Rightarrow> bytes32 \<Rightarrow> ecdsa_signature option"
  cv_keccak :: keccak

definition parse_private_key :: "string \<Rightarrow> bytes32 result" where
  "parse_private_key text =
     (let offset = (if length text = 66 \<and> take 2 text = ''0x'' then 2 else 0)
      in if length text - offset \<noteq> 64
         then Inl (mk_error invalid_field ''private key must contain exactly 32 bytes'' ''private_key'')
         else case decode_pairs (drop offset text) of
           None \<Rightarrow> Inl (mk_error invalid_field ''private key must be hexadecimal'' ''private_key'')
         | Some bs \<Rightarrow> Inr bs)"

definition signature_hex :: "ecdsa_signature \<Rightarrow> string" where
  "signature_hex s = ''0x'' @ hex_text (es_r s) @ hex_text (es_s s) @ hex_text [27 + es_y_parity s]"

record 'k local_signer =
  ls_private_key :: 'k
  ls_address :: evm_address

definition create_signer :: "'k curve \<Rightarrow> string \<Rightarrow> 'k local_signer result" where
  "create_signer cv text =
     bind_res (parse_private_key text) (\<lambda>decoded.
       case cv_from_bytes cv decoded of
         None \<Rightarrow> Inl (mk_error invalid_field ''private key is not valid'' ''private_key'')
       | Some key \<Rightarrow>
           bind_res (evm_parse (cv_eth_address cv (cv_public_key cv key))) (\<lambda>derived.
             Inr \<lparr>ls_private_key = key, ls_address = derived\<rparr>))"

definition local_sign_digest :: "'k curve \<Rightarrow> 'k local_signer \<Rightarrow> bytes32 \<Rightarrow> string result" where
  "local_sign_digest cv signer digest =
     (case cv_sign cv (ls_private_key signer) digest of
        None \<Rightarrow> Inl (mk_error protocol_error ''secp256k1 signing failed'' '''')
      | Some s \<Rightarrow> Inr (signature_hex s))"

definition personal_payload :: "bytes \<Rightarrow> bytes" where
  "personal_payload message =
     0x19 # string_bytes (''Ethereum Signed Message:'' @ [CHR 0x0A]) @ string_bytes (to_string (length message)) @ message"

definition sign_personal_message :: "'k curve \<Rightarrow> 'k local_signer \<Rightarrow> bytes \<Rightarrow> string result" where
  "sign_personal_message cv signer message =
     bind_res (cv_keccak cv (personal_payload message)) (local_sign_digest cv signer)"

definition sign_personal_message_32 :: "'k curve \<Rightarrow> 'k local_signer \<Rightarrow> bytes32 \<Rightarrow> string result" where
  "sign_personal_message_32 cv signer message = sign_personal_message cv signer message"

definition sign_local_transaction :: "'k curve \<Rightarrow> 'k local_signer \<Rightarrow> populated_transaction \<Rightarrow> raw_transaction result" where
  "sign_local_transaction cv signer t =
     (if px_from t \<noteq> ls_address signer
      then Inl (mk_error invalid_argument ''transaction sender does not match local signer'' ''transaction.from'')
      else sign_legacy_transaction (cv_keccak cv) (Some (local_sign_digest cv signer)) t)"

section \<open>What the signer's texts are\<close>

lemma hex_text_append: "hex_text (a @ b) = hex_text a @ hex_text b"
  by (induction a) auto

lemma signature_hex_encode: "signature_hex s = encode_hex (es_r s @ es_s s @ [27 + es_y_parity s])"
  by (simp add: signature_hex_def encode_hex_eq hex_text_append)

lemma private_key_bytes: "parse_private_key text = Inr bs \<Longrightarrow> length bs = 32"
proof -
  assume p: "parse_private_key text = Inr bs"
  define offset where "offset = (if length text = 66 \<and> take 2 text = ''0x'' then 2 else (0 :: nat))"
  have "length (drop offset text) = 64" "decode_pairs (drop offset text) = Some bs"
    using p unfolding parse_private_key_def Let_def offset_def [symmetric] by (auto split: if_splits option.splits)
  then show ?thesis
    using decode_pairs_eq [of "drop offset text"] length_hex_pairs [of "drop offset text" bs] by simp
qed

text \<open>A key's text is read the same with and without the prefix, in either case.\<close>

lemma private_key_round_trip: "length bs = 32 \<Longrightarrow> parse_private_key (hex_text bs) = Inr bs \<and> parse_private_key (''0x'' @ hex_text bs) = Inr bs"
  using decode_pairs_eq [of "hex_text bs"] by (simp add: parse_private_key_def)

lemma payload_length: "length (personal_payload m) = 26 + length (to_string (length m)) + length m"
  by (simp add: personal_payload_def string_bytes_def)

lemma to_string_length_mono: "m \<le> n \<Longrightarrow> length (to_string m) \<le> length (to_string n)"
proof (induction n arbitrary: m rule: to_string.induct)
  case (1 n)
  show ?case
  proof (cases "n < 10")
    case True
    then show ?thesis
      using 1(2) by (simp add: to_string.simps [of n] to_string.simps [of m])
  next
    case False
    have "m div 10 \<le> n div 10"
      using 1(2) by (simp add: div_le_mono)
    then show ?thesis
      using False 1(1) by (cases "m < 10") (simp_all add: to_string.simps [of n] to_string.simps [of m])
  qed
qed

lemma personal_payload_eq:
  assumes "personal_payload a = personal_payload b"
  shows "a = b"
proof -
  have "length a = length b"
  proof (rule ccontr)
    assume "length a \<noteq> length b"
    then have "length a < length b \<or> length b < length a"
      by linarith
    then show False
      using arg_cong [OF assms, of length] to_string_length_mono [of "length a" "length b"]
        to_string_length_mono [of "length b" "length a"] unfolding payload_length by linarith
  qed
  then show ?thesis
    using assms by (simp add: personal_payload_def)
qed

section \<open>Properties\<close>

lemma local_signature_text:
  assumes "local_sign_digest cv signer digest = Inr t"
    and "\<And>s. cv_sign cv (ls_private_key signer) digest = Some s \<Longrightarrow> length (es_r s) = 32 \<and> length (es_s s) = 32"
  obtains s where "t = encode_hex (es_r s @ es_s s @ [27 + es_y_parity s])" "length (es_r s) = 32" "length (es_s s) = 32"
    "cv_sign cv (ls_private_key signer) digest = Some s"
  using assms by (auto simp: local_sign_digest_def signature_hex_encode split: option.splits)

text \<open>
  Whatever the local signer signs is accepted downstream: with a curve whose signatures have 32-byte halves and a parity
  of zero or one, the text of a signature is lower-case hexadecimal that the order signing accepts unchanged, that the
  transaction encoder reads as the two halves and a recovery value of 27 or 28, and that is short enough for an order and
  for a proof of authentication under the default limits. Two personal messages with one payload are the same message.
\<close>

theorem local_signature_accepted:
  assumes "local_sign_digest cv signer digest = Inr t"
    and "\<And>s. cv_sign cv (ls_private_key signer) digest = Some s \<Longrightarrow>
      length (es_r s) = 32 \<and> length (es_s s) = 32 \<and> (es_y_parity s = 0 \<or> es_y_parity s = 1)"
  shows "validate_evm_signature t = Inr t \<and>
    (\<exists>s. cv_sign cv (ls_private_key signer) digest = Some s \<and> signature_bytes t = Inr (es_r s @ es_s s @ [27 + es_y_parity s])) \<and>
    t \<noteq> [] \<and> length t \<le> 200 \<and> length t \<le> al_max_signature_bytes default_auth_limits \<and>
    (personal_payload a = personal_payload b \<longleftrightarrow> a = b)"
proof -
  obtain s where t: "t = encode_hex (es_r s @ es_s s @ [27 + es_y_parity s])" and s: "length (es_r s) = 32" "length (es_s s) = 32"
    and k: "cv_sign cv (ls_private_key signer) digest = Some s"
    using local_signature_text [OF assms(1)] assms(2) by metis
  have "length t = 132"
    using s by (simp add: t encode_hex_eq)
  moreover have "validate_evm_signature t = Inr t"
    using s by (subst validate_signature_iff) (auto simp: t)
  moreover have "signature_bytes t = Inr (es_r s @ es_s s @ [27 + es_y_parity s])"
    using s assms(2) [OF k] by (auto simp: t signature_bytes_def)
  ultimately show ?thesis
    using k personal_payload_eq by (auto simp: default_auth_limits_def)
qed

text \<open>A curve for evaluation: every digest has one signature.\<close>

definition toy_curve :: "unit curve" where
  "toy_curve = \<lparr>cv_from_bytes = (\<lambda>_. Some ()), cv_public_key = (\<lambda>_. replicate 65 4),
     cv_eth_address = (\<lambda>_. ''0x'' @ concat (replicate 20 ''01'')),
     cv_sign = (\<lambda>_ _. Some \<lparr>es_r = replicate 32 1, es_s = replicate 32 2, es_y_parity = 1\<rparr>), cv_keccak = (\<lambda>_. Inr (replicate 32 3))\<rparr>"

definition toy_local_signer :: "unit local_signer" where
  "toy_local_signer = \<lparr>ls_private_key = (), ls_address = \<lparr>evm_bytes = replicate 20 1\<rparr>\<rparr>"

lemma toy_local_signer_created: "create_signer toy_curve (concat (replicate 32 ''0a'')) = Inr toy_local_signer"
  by code_simp

theorem local_signature_accepted_witness:
  "\<exists>t. local_sign_digest toy_curve toy_local_signer (replicate 32 3) = Inr t \<and> validate_evm_signature t = Inr t \<and>
     (personal_payload [1] = personal_payload [2] \<longleftrightarrow> [1] = [2 :: 8 word])"
proof -
  define t where "t = signature_hex \<lparr>es_r = replicate 32 1, es_s = replicate 32 2, es_y_parity = 1\<rparr>"
  have t: "local_sign_digest toy_curve toy_local_signer (replicate 32 3) = Inr t"
    by (simp add: local_sign_digest_def toy_curve_def t_def)
  have "length (es_r s) = 32 \<and> length (es_s s) = 32 \<and> (es_y_parity s = 0 \<or> es_y_parity s = 1)"
    if "cv_sign toy_curve (ls_private_key toy_local_signer) (replicate 32 3) = Some s" for s
    using that by (auto simp: toy_curve_def)
  from local_signature_accepted [OF t this, of "[1]" "[2]"] show ?thesis
    using t by blast
qed

end
