(* ===== verification/Rate_Limiter.thy ===== *)
theory Rate_Limiter
  imports Http_Types Machine
begin

text \<open>
  The token buckets of \<^verbatim>\<open>src/rate_limiter.cpp\<close>. Times are nanoseconds of the steady clock. The buckets count in
  \<^verbatim>\<open>double\<close>; its operations are the fields of \<open>double_ops\<close>, so what is proved does not depend on rounding, except
  where a law of the operations is named.
\<close>

section \<open>Buckets\<close>

record 'd double_ops =
  dop_of_nat :: "nat \<Rightarrow> 'd"
  dop_per_second :: "'d \<Rightarrow> 'd"
  dop_seconds :: "int \<Rightarrow> 'd"
  dop_refill :: "'d \<Rightarrow> 'd \<Rightarrow> 'd \<Rightarrow> 'd \<Rightarrow> 'd"
  dop_at_least_one :: "'d \<Rightarrow> bool"
  dop_until_one :: "'d \<Rightarrow> 'd \<Rightarrow> 'd"
  dop_nanoseconds :: "'d \<Rightarrow> int"
  dop_take_one :: "'d \<Rightarrow> 'd"

text \<open>
  In order: the conversion of a count, \<open>c / 60.0\<close>, the seconds of a duration, \<open>min c (t + e * r)\<close>, \<open>t >= 1.0\<close>,
  \<open>(1.0 - t) / r\<close>, the cast of seconds to a duration and \<open>max 0.0 (t - 1.0)\<close>.
\<close>

record 'd bucket =
  bk_capacity :: 'd
  bk_tokens :: 'd
  bk_tokens_per_second :: 'd
  bk_updated :: int
  bk_blocked_until :: int

record rate_limit_policy =
  rl_global_requests_per_minute :: nat
  rl_endpoint_requests_per_minute :: "(string \<times> nat) list"

record 'd rate_limiter =
  lim_global :: "'d bucket"
  lim_endpoints :: "string \<rightharpoonup> 'd bucket"
  lim_blocked_until :: "string \<rightharpoonup> int"

definition make_bucket :: "'d double_ops \<Rightarrow> int \<Rightarrow> nat \<Rightarrow> 'd bucket result" where
  "make_bucket f now requests =
     (if requests = 0 then Inl (mk_error invalid_argument ''rate limit must be positive'' '''')
      else let c = dop_of_nat f requests
           in Inr \<lparr>bk_capacity = c, bk_tokens = c, bk_tokens_per_second = dop_per_second f c, bk_updated = now, bk_blocked_until = 0\<rparr>)"

fun make_endpoints :: "'d double_ops \<Rightarrow> int \<Rightarrow> (string \<times> nat) list \<Rightarrow> (string \<rightharpoonup> 'd bucket) \<Rightarrow> (string \<rightharpoonup> 'd bucket) result" where
  "make_endpoints f now [] m = Inr m"
| "make_endpoints f now ((e, limit) # es) m =
     bind_res (make_bucket f now limit) (\<lambda>b. make_endpoints f now es (if m e = None then m(e \<mapsto> b) else m))"

text \<open>The exception of the constructor is the left case.\<close>

definition new_limiter :: "'d double_ops \<Rightarrow> int \<Rightarrow> rate_limit_policy \<Rightarrow> 'd rate_limiter result" where
  "new_limiter f now policy =
     bind_res (make_bucket f now (rl_global_requests_per_minute policy)) (\<lambda>g.
     bind_res (make_endpoints f now (rl_endpoint_requests_per_minute policy) (\<lambda>_. None)) (\<lambda>es.
       Inr \<lparr>lim_global = g, lim_endpoints = es, lim_blocked_until = (\<lambda>_. None)\<rparr>))"

definition eligibility :: "'d bucket \<Rightarrow> int \<Rightarrow> int" where
  "eligibility b now = max now (max (bk_updated b) (bk_blocked_until b))"

definition refilled :: "'d double_ops \<Rightarrow> 'd bucket \<Rightarrow> int \<Rightarrow> 'd bucket" where
  "refilled f b now =
     (let e = eligibility b now
      in if e > bk_updated b
         then b\<lparr>bk_tokens := dop_refill f (bk_capacity b) (bk_tokens b) (dop_seconds f (e - bk_updated b)) (bk_tokens_per_second b),
                bk_updated := e\<rparr>
         else b)"

definition wait_for :: "'d double_ops \<Rightarrow> 'd bucket \<Rightarrow> int \<Rightarrow> int \<times> 'd bucket" where
  "wait_for f b now =
     (let e = eligibility b now; b1 = refilled f b now
      in if dop_at_least_one f (bk_tokens b1) then (e - now, b1)
         else (e - now + dop_nanoseconds f (dop_until_one f (bk_tokens b1) (bk_tokens_per_second b1)), b1))"

definition consume_at :: "'d double_ops \<Rightarrow> 'd bucket \<Rightarrow> int \<Rightarrow> 'd bucket" where
  "consume_at f b when = (let b1 = snd (wait_for f b when) in b1\<lparr>bk_tokens := dop_take_one f (bk_tokens b1)\<rparr>)"

text \<open>Nanoseconds rounded up to milliseconds.\<close>

definition ceil_milliseconds :: "int \<Rightarrow> int" where
  "ceil_milliseconds ns = - ((- ns) div 1000000)"

definition reserve_limit :: "'d double_ops \<Rightarrow> string \<Rightarrow> int \<Rightarrow> 'd rate_limiter \<Rightarrow> int \<times> 'd rate_limiter" where
  "reserve_limit f endpoint now l =
     (let (global_delay, g1) = wait_for f (lim_global l) now;
          g2 = consume_at f g1 (now + global_delay);
          blocked = (case lim_blocked_until l endpoint of Some u \<Rightarrow> if u > now then u - now else 0 | None \<Rightarrow> 0)
      in case lim_endpoints l endpoint of
           None \<Rightarrow> (ceil_milliseconds (max global_delay blocked), l\<lparr>lim_global := g2\<rparr>)
         | Some b \<Rightarrow>
             let (w, b1) = wait_for f b now; endpoint_delay = max blocked w; b2 = consume_at f b1 (now + endpoint_delay)
             in (ceil_milliseconds (max global_delay endpoint_delay),
                 l\<lparr>lim_global := g2, lim_endpoints := (lim_endpoints l)(endpoint \<mapsto> b2)\<rparr>))"

definition penalize :: "string \<Rightarrow> int \<Rightarrow> int \<Rightarrow> bool \<Rightarrow> 'd rate_limiter \<Rightarrow> 'd rate_limiter" where
  "penalize endpoint now retry_after_ms global l =
     (let until = now + max 0 retry_after_ms * 1000000;
          l1 = (if global then l\<lparr>lim_global := (lim_global l)\<lparr>bk_blocked_until := max (bk_blocked_until (lim_global l)) until\<rparr>\<rparr> else l);
          old = (case lim_blocked_until l endpoint of Some u \<Rightarrow> u | None \<Rightarrow> 0);
          l2 = l1\<lparr>lim_blocked_until := (lim_blocked_until l1)(endpoint \<mapsto> max old until)\<rparr>
      in case lim_endpoints l2 endpoint of
           None \<Rightarrow> l2
         | Some b \<Rightarrow> l2\<lparr>lim_endpoints := (lim_endpoints l2)(endpoint \<mapsto> b\<lparr>bk_blocked_until := max (bk_blocked_until b) until\<rparr>)\<rparr>)"

section \<open>Penalties\<close>

text \<open>What an endpoint has been told to wait for, at least; nothing takes it back.\<close>

definition blocked_to :: "string \<Rightarrow> int \<Rightarrow> 'd rate_limiter \<Rightarrow> bool" where
  "blocked_to endpoint t l \<longleftrightarrow> (case lim_blocked_until l endpoint of Some u \<Rightarrow> t \<le> u | None \<Rightarrow> False)"

lemma penalize_blocks: "blocked_to endpoint (now + max 0 ms * 1000000) (penalize endpoint now ms global l)"
  by (auto simp: blocked_to_def penalize_def Let_def split: option.split)

lemma blocked_kept:
  assumes "blocked_to endpoint t l"
  shows "blocked_to endpoint t (penalize e now ms global l)" and "blocked_to endpoint t (snd (reserve_limit f e now l))"
  using assms
  by (auto simp: blocked_to_def penalize_def reserve_limit_def Let_def split: option.splits prod.splits)

lemma ceil_milliseconds_ge: "ns \<le> ceil_milliseconds ns * 1000000" "ceil_milliseconds ns * 1000000 < ns + 1000000"
  using div_mult_mod_eq [of "- ns" "1000000 :: int"] pos_mod_bound [of "1000000 :: int" "- ns"] pos_mod_sign [of "1000000 :: int" "- ns"]
  by (simp_all add: ceil_milliseconds_def)

lemma ceil_milliseconds_mono: "a \<le> b \<Longrightarrow> ceil_milliseconds a \<le> ceil_milliseconds b"
  by (simp add: ceil_milliseconds_def zdiv_mono1)

lemma reserve_waits:
  assumes "blocked_to endpoint t l" and "now < t"
  shows "t - now \<le> fst (reserve_limit f endpoint now l) * 1000000"
proof -
  obtain u where u: "lim_blocked_until l endpoint = Some u" "t \<le> u"
    using assms(1) by (auto simp: blocked_to_def split: option.splits)
  obtain g g1 where g: "wait_for f (lim_global l) now = (g, g1)"
    by fastforce
  have "\<exists>d. fst (reserve_limit f endpoint now l) = ceil_milliseconds d \<and> u - now \<le> d"
  proof (cases "lim_endpoints l endpoint")
    case None
    then show ?thesis
      using u assms(2) g by (intro exI [of _ "max g (u - now)"]) (simp add: reserve_limit_def)
  next
    case (Some b)
    obtain w b1 where w: "wait_for f b now = (w, b1)"
      by fastforce
    show ?thesis
      using u assms(2) g Some w by (intro exI [of _ "max g (max (u - now) w)"]) (simp add: reserve_limit_def Let_def)
  qed
  then obtain d where "fst (reserve_limit f endpoint now l) = ceil_milliseconds d" "u - now \<le> d"
    by blast
  then show ?thesis
    using ceil_milliseconds_ge(1) [of d] u(2) by linarith
qed

inductive limiter_step :: "'d double_ops \<Rightarrow> 'd rate_limiter \<Rightarrow> 'd rate_limiter \<Rightarrow> bool" for f where
  reserves: "limiter_step f l (snd (reserve_limit f e now l))"
| penalizes: "limiter_step f l (penalize e now ms global l)"

lemma capacity_kept:
  "bk_capacity (consume_at f b t) = bk_capacity b" "wait_for f b t = (d, b') \<Longrightarrow> bk_capacity b' = bk_capacity b"
  by (auto simp: consume_at_def wait_for_def refilled_def Let_def split: if_splits prod.splits)

interpretation limiter_machine: machine "limiter_step f" "blocked_to endpoint t" "\<lambda>l. bk_capacity (lim_global l)" for f endpoint t
proof
  fix l l'
  assume l: "limiter_step f l l'"
  show "blocked_to endpoint t l \<Longrightarrow> blocked_to endpoint t l'"
    using l by (auto elim!: limiter_step.cases simp: blocked_kept)
  show "bk_capacity (lim_global l') = bk_capacity (lim_global l)"
    using l by (auto elim!: limiter_step.cases simp: reserve_limit_def penalize_def Let_def capacity_kept
        split: option.splits prod.splits)
qed

text \<open>
  C22. A penalty holds: after an endpoint is penalised, and after any further reservations and penalties of any endpoints, a
  reservation of that endpoint before the penalty is over makes the caller wait at least until then, in whole milliseconds,
  whatever the floating-point state of the buckets.
\<close>

theorem penalty_respected:
  assumes "(limiter_step f)\<^sup>*\<^sup>* (penalize endpoint t ms global l) l'" and "now < t + max 0 ms * 1000000"
  shows "now + fst (reserve_limit f endpoint now l') * 1000000 \<ge> t + max 0 ms * 1000000"
  using reserve_waits [OF limiter_machine.run_inv [OF assms(1) penalize_blocks] assms(2), of f] by linarith

text \<open>The operations on exact rationals.\<close>

definition rat_ops :: "rat double_ops" where
  "rat_ops = \<lparr>dop_of_nat = of_nat, dop_per_second = (\<lambda>c. c / 60), dop_seconds = (\<lambda>ns. of_int ns / 1000000000),
     dop_refill = (\<lambda>c t e r. min c (t + e * r)), dop_at_least_one = (\<lambda>t. 1 \<le> t), dop_until_one = (\<lambda>t r. (1 - t) / r),
     dop_nanoseconds = (\<lambda>s. \<lfloor>s * 1000000000\<rfloor>), dop_take_one = (\<lambda>t. max 0 (t - 1))\<rparr>"

definition sample_limiter :: "rat rate_limiter" where
  "sample_limiter = \<lparr>lim_global = \<lparr>bk_capacity = 60, bk_tokens = 1, bk_tokens_per_second = 1, bk_updated = 0, bk_blocked_until = 0\<rparr>,
     lim_endpoints = (\<lambda>_. None), lim_blocked_until = (\<lambda>_. None)\<rparr>"

theorem penalty_respected_witness:
  "5000000 + fst (reserve_limit rat_ops ''orders'' 5000000 (penalize ''orders'' 0 1500 False sample_limiter)) * 1000000 \<ge> 1500000000"
  using penalty_respected [of rat_ops "''orders''" 0 1500 False sample_limiter, OF rtranclp.rtrancl_refl, of 5000000] by simp

text \<open>Two requests at one moment are spread: the second waits for its token.\<close>

lemma sample_budget:
  "(let (a, l1) = reserve_limit rat_ops ''tags'' 0 sample_limiter
    in (a, fst (reserve_limit rat_ops ''tags'' 0 l1))) = (0, 1000)"
  by code_simp

end
