(* ===== verification/Testnet_Tool.thy ===== *)
theory Testnet_Tool
  imports Approval_Runs Order_Amounts
begin

text \<open>
  \<^verbatim>\<open>tools/testnet_acceptance_support.cpp\<close>: the command line of the test network tool, the plan of a position
  operation, the confirmation phrases and the gates every write has to pass. Paths are their texts.
\<close>

section \<open>Data\<close>

datatype testnet_mode = mode_probe | mode_approve | mode_position_probe | mode_position_execute

datatype testnet_position_operation = position_split | position_merge | position_redeem | position_convert

record testnet_position_plan =
  tp_operation :: "testnet_position_operation option"
  tp_condition_id :: "bytes32 option"
  tp_neg_risk_on_chain_id :: "bytes32 option"
  tp_amount :: "uint256 option"
  tp_index_set :: "uint256 option"
  tp_token_ids :: "uint256 list"
  tp_is_neg_risk :: bool
  tp_is_yield_bearing :: bool

record testnet_options =
  tn_mode :: testnet_mode
  tn_owner :: evm_address
  tn_scope :: approval_scope
  tn_position :: "testnet_position_plan option"
  tn_endpoint :: rpc_endpoint
  tn_evidence_path :: string
  tn_secret_env_file :: string
  tn_approval_amount :: "uint256 option"
  tn_confirmation :: string
  tn_execute :: bool
  tn_help :: bool

definition empty_plan :: testnet_position_plan where
  "empty_plan = \<lparr>tp_operation = None, tp_condition_id = None, tp_neg_risk_on_chain_id = None, tp_amount = None,
     tp_index_set = None, tp_token_ids = [], tp_is_neg_risk = False, tp_is_yield_bearing = False\<rparr>"

definition default_testnet_options :: testnet_options where
  "default_testnet_options = \<lparr>tn_mode = mode_probe, tn_owner = evm_default,
     tn_scope = \<lparr>as_operation = approve_trade, as_is_neg_risk = False, as_is_yield_bearing = False, as_side = approve_buy\<rparr>,
     tn_position = None, tn_endpoint = default_rpc_endpoint bnb_testnet, tn_evidence_path = [], tn_secret_env_file = [],
     tn_approval_amount = None, tn_confirmation = [], tn_execute = False, tn_help = False\<rparr>"

record testnet_readiness =
  rn_gas_ready :: bool
  rn_collateral_ready :: bool
  rn_approval_total :: nat
  rn_approval_missing :: nat

definition fully_ready :: "testnet_readiness \<Rightarrow> bool" where
  "fully_ready r \<longleftrightarrow> rn_gas_ready r \<and> rn_collateral_ready r \<and> rn_approval_missing r = 0"

definition evaluate_readiness :: "uint256 \<Rightarrow> uint256 \<Rightarrow> approval_check list \<Rightarrow> testnet_readiness" where
  "evaluate_readiness native collateral approvals =
     \<lparr>rn_gas_ready = \<not> uint256_is_zero native, rn_collateral_ready = \<not> uint256_is_zero collateral,
      rn_approval_total = length approvals, rn_approval_missing = length (filter (\<lambda>a. \<not> ac_satisfied a) approvals)\<rparr>"

definition next_action :: "testnet_readiness \<Rightarrow> string" where
  "next_action r =
     (if \<not> rn_gas_ready r then ''fund native BNB testnet gas through an official BNB faucet''
      else if \<not> rn_collateral_ready r
      then ''obtain registered Predict BNB-testnet collateral through an official Predict channel, then rerun probe''
      else if rn_approval_missing r \<noteq> 0 then ''run the exact scoped approval shown by this probe''
      else ''run a read-only position probe for the exact market operation'')"

section \<open>Plans and phrases\<close>

definition bad_option :: "string \<Rightarrow> string \<Rightarrow> error" where
  "bad_option m f = mk_error invalid_argument m f"

definition scope_of :: "approval_operation \<Rightarrow> approval_trade_side \<Rightarrow> bool \<Rightarrow> approval_scope" where
  "scope_of operation side neg = \<lparr>as_operation = operation, as_is_neg_risk = neg, as_is_yield_bearing = False, as_side = side\<rparr>"

definition parse_scope :: "string \<Rightarrow> approval_scope result" where
  "parse_scope v =
     (if v = ''trade-buy'' then Inr (scope_of approve_trade approve_buy False)
      else if v = ''trade-sell'' then Inr (scope_of approve_trade approve_sell False)
      else if v = ''split'' then Inr (scope_of approve_split approve_both False)
      else if v = ''merge'' then Inr (scope_of approve_merge approve_both False)
      else if v = ''redeem'' then Inr (scope_of approve_redeem approve_both False)
      else if v = ''convert'' then Inr (scope_of approve_convert approve_both True)
      else Inl (bad_option ''unknown approval scope'' ''scope''))"

definition parse_position_operation :: "string \<Rightarrow> testnet_position_operation result" where
  "parse_position_operation v =
     (if v = ''split'' then Inr position_split else if v = ''merge'' then Inr position_merge
      else if v = ''redeem'' then Inr position_redeem else if v = ''convert'' then Inr position_convert
      else Inl (bad_option ''unknown position operation'' ''operation''))"

definition option_uint256 :: "string \<Rightarrow> string \<Rightarrow> uint256 result" where
  "option_uint256 v field =
     (case uint256_parse v of Inl _ \<Rightarrow> Inl (bad_option ''option requires a canonical uint256'' field) | Inr u \<Rightarrow> Inr u)"

definition position_approval_scope :: "testnet_position_operation \<Rightarrow> testnet_position_plan \<Rightarrow> approval_scope" where
  "position_approval_scope operation p =
     \<lparr>as_operation = (case operation of position_split \<Rightarrow> approve_split | position_merge \<Rightarrow> approve_merge
        | position_redeem \<Rightarrow> approve_redeem | position_convert \<Rightarrow> approve_convert),
      as_is_neg_risk = (if operation = position_convert then True else tp_is_neg_risk p),
      as_is_yield_bearing = tp_is_yield_bearing p, as_side = approve_both\<rparr>"

definition operation_name :: "testnet_position_operation \<Rightarrow> string" where
  "operation_name operation =
     (case operation of position_split \<Rightarrow> ''split'' | position_merge \<Rightarrow> ''merge'' | position_redeem \<Rightarrow> ''redeem''
      | position_convert \<Rightarrow> ''convert'')"

definition position_operation_code :: "testnet_position_operation \<Rightarrow> testnet_position_plan \<Rightarrow> string" where
  "position_operation_code operation p =
     operation_name operation @ (if operation = position_convert \<or> tp_is_neg_risk p then '':neg-risk'' else '':standard'') @
     (if tp_is_yield_bearing p then '':yield'' else '':regular'')"

definition approval_scope_code :: "approval_scope \<Rightarrow> string" where
  "approval_scope_code s =
     (case as_operation s of
        approve_trade \<Rightarrow> (if as_side s = approve_buy then ''trade-buy'' else if as_side s = approve_sell then ''trade-sell'' else ''trade-both'')
      | approve_split \<Rightarrow> ''split'' | approve_merge \<Rightarrow> ''merge'' | approve_redeem \<Rightarrow> ''redeem'' | approve_convert \<Rightarrow> ''convert'') @
     (if as_is_neg_risk s then '':neg-risk'' else '':standard'') @ (if as_is_yield_bearing s then '':yield'' else '':regular'')"

definition approval_confirmation :: "evm_address \<Rightarrow> approval_scope \<Rightarrow> uint256 option \<Rightarrow> string" where
  "approval_confirmation owner scope amount =
     ''APPROVE PREDICT BNB TESTNET 97 '' @ evm_to_string owner @ '' '' @ approval_scope_code scope @
     (case amount of None \<Rightarrow> [] | Some a \<Rightarrow> '' amount='' @ u256_text a)"

fun join_tokens :: "uint256 list \<Rightarrow> string" where
  "join_tokens [] = []"
| "join_tokens [t] = u256_text t"
| "join_tokens (t # u # ts) = u256_text t @ CHR '','' # join_tokens (u # ts)"

text \<open>The phrase of a plan with its operation; the identifiers that the plan has to have are read as they are.\<close>

definition position_confirmation :: "evm_address \<Rightarrow> testnet_position_operation \<Rightarrow> testnet_position_plan \<Rightarrow> string" where
  "position_confirmation owner operation p =
     ''EXECUTE PREDICT BNB TESTNET 97 '' @ evm_to_string owner @ '' '' @ position_operation_code operation p @ '' '' @
     encode_hex (if operation = position_convert then the (tp_neg_risk_on_chain_id p) else the (tp_condition_id p)) @ '' '' @
     (case tp_amount p of Some a \<Rightarrow> u256_text a | None \<Rightarrow> ''all'') @ '' '' @
     (case tp_index_set p of Some a \<Rightarrow> u256_text a | None \<Rightarrow> ''none'') @ '' '' @ join_tokens (tp_token_ids p)"

definition validate_position_plan :: "testnet_position_plan \<Rightarrow> testnet_position_operation result" where
  "validate_position_plan p =
     (case tp_operation p of
        None \<Rightarrow> Inl (bad_option ''position mode requires --operation'' ''operation'')
      | Some operation \<Rightarrow>
          let paired = (operation = position_split \<or> operation = position_merge) in
          guard_res (operation = position_convert \<and> tp_neg_risk_on_chain_id p = None)
            (bad_option ''convert requires --neg-risk-on-chain-id'' ''neg_risk_on_chain_id'')
          (guard_res (operation = position_convert \<and> (case tp_index_set p of None \<Rightarrow> True | Some i \<Rightarrow> uint256_is_zero i))
            (bad_option ''convert requires a positive --index-set'' ''index_set'')
          (guard_res (operation \<noteq> position_convert \<and> tp_condition_id p = None)
            (bad_option ''operation requires --condition-id'' ''condition_id'')
          (guard_res (operation \<noteq> position_redeem \<and> (case tp_amount p of None \<Rightarrow> True | Some a \<Rightarrow> uint256_is_zero a))
            (bad_option ''operation requires a positive --amount'' ''amount'')
          (guard_res (operation = position_redeem \<and>
              (case tp_index_set p of None \<Rightarrow> True | Some i \<Rightarrow> u256_text i \<noteq> ''1'' \<and> u256_text i \<noteq> ''2''))
            (bad_option ''redeem requires --index-set 1 or 2'' ''index_set'')
          (guard_res (operation = position_redeem \<and> tp_is_neg_risk p \<and> (case tp_amount p of None \<Rightarrow> True | Some a \<Rightarrow> uint256_is_zero a))
            (bad_option ''negative-risk redeem requires a positive --amount'' ''amount'')
          (guard_res (length (tp_token_ids p) < (if paired then 2 else 1))
            (bad_option ''operation requires token ids for balance evidence'' ''token_id'')
          (guard_res (paired \<and> length (tp_token_ids p) \<noteq> 2)
            (bad_option ''split and merge require exactly two token ids'' ''token_id'')
          (guard_res (operation = position_redeem \<and> length (tp_token_ids p) > 2)
            (bad_option ''redeem accepts at most two token ids'' ''token_id'')
          (guard_res (\<not> list_all (\<lambda>t. \<not> uint256_is_zero t) (tp_token_ids p))
            (bad_option ''token id must be positive'' ''token_id'')
          (guard_res (\<not> distinct (map u256_text (tp_token_ids p))) (bad_option ''token ids must be unique'' ''token_id'')
          (Inr operation))))))))))))"

text \<open>The comparison of canonical numbers by their texts.\<close>

definition at_least :: "uint256 \<Rightarrow> uint256 \<Rightarrow> bool" where
  "at_least available required =
     (let l = u256_text available; r = u256_text required
      in if length l \<noteq> length r then length l > length r else \<not> str_less l r)"

definition position_approval_satisfies_plan :: "testnet_position_plan \<Rightarrow> approval_check \<Rightarrow> bool" where
  "position_approval_satisfies_plan p check \<longleftrightarrow>
     ac_satisfied check \<or> ap_kind (ac_step check) = erc20_allowance_kind \<and>
       (case (tp_amount p, ac_allowance check) of (Some required, Some available) \<Rightarrow> at_least available required | _ \<Rightarrow> False)"

definition position_approvals_satisfy_plan :: "testnet_position_plan \<Rightarrow> approval_check list \<Rightarrow> bool" where
  "position_approvals_satisfy_plan p approvals = list_all (position_approval_satisfies_plan p) approvals"

section \<open>The write gates\<close>

definition validate_write_gate :: "testnet_options \<Rightarrow> bool result" where
  "validate_write_gate o' =
     guard_res (tn_mode o' \<noteq> mode_approve) (bad_option ''write gate is only valid in approve mode'' ''mode'')
     (guard_res (\<not> tn_execute o') (bad_option ''approve mode requires --execute'' ''execute'')
     (guard_res (evm_empty (tn_owner o')) (bad_option ''approve mode requires an owner'' ''owner'')
     (guard_res (tn_evidence_path o' = []) (bad_option ''approve mode requires --evidence'' ''evidence'')
     (guard_res (tn_confirmation o' \<noteq> approval_confirmation (tn_owner o') (tn_scope o') (tn_approval_amount o'))
       (bad_option ''confirmation phrase does not match owner and scope'' ''confirm'')
     (Inr True)))))"

definition validate_position_write_gate :: "testnet_options \<Rightarrow> bool result" where
  "validate_position_write_gate o' =
     guard_res (tn_mode o' \<noteq> mode_position_execute \<or> tn_position o' = None)
       (bad_option ''position write gate requires position-execute mode'' ''mode'')
     (guard_res (\<not> tn_execute o') (bad_option ''position-execute requires --execute'' ''execute'')
     (guard_res (tn_evidence_path o' = []) (bad_option ''position-execute requires --evidence'' ''evidence'')
     (guard_res (tn_confirmation o' \<noteq> position_confirmation (tn_owner o') (the (tp_operation (the (tn_position o')))) (the (tn_position o')))
       (bad_option ''confirmation phrase does not match the exact operation plan'' ''confirm'')
     (Inr True))))"

section \<open>Arguments\<close>

definition needs_position :: "string \<Rightarrow> string \<Rightarrow> testnet_options \<Rightarrow> (testnet_position_plan \<Rightarrow> testnet_position_plan result)
    \<Rightarrow> testnet_options result" where
  "needs_position flag field o' change =
     (case tn_position o' of
        None \<Rightarrow> Inl (bad_option (flag @ '' requires a position mode'') field)
      | Some p \<Rightarrow> bind_res (change p) (\<lambda>p'. Inr (o'\<lparr>tn_position := Some p'\<rparr>)))"

definition set_scope :: "string \<Rightarrow> testnet_options \<Rightarrow> testnet_options result" where
  "set_scope v o' =
     guard_res (tn_position o' \<noteq> None) (bad_option ''--scope is not valid for position operations'' ''scope'')
     (bind_res (parse_scope v) (\<lambda>s.
       Inr (o'\<lparr>tn_scope := s\<lparr>as_is_neg_risk := as_is_neg_risk s \<or> as_is_neg_risk (tn_scope o'),
                              as_is_yield_bearing := as_is_yield_bearing (tn_scope o')\<rparr>\<rparr>)))"

definition set_approval_amount :: "string \<Rightarrow> testnet_options \<Rightarrow> testnet_options result" where
  "set_approval_amount v o' =
     guard_res (tn_position o' \<noteq> None)
       (bad_option ''--approval-amount is not valid for position operations'' ''approval_amount'')
     (case option_uint256 v ''approval_amount'' of
        Inl _ \<Rightarrow> Inl (bad_option ''--approval-amount requires a positive uint256'' ''approval_amount'')
      | Inr a \<Rightarrow> if uint256_is_zero a
          then Inl (bad_option ''--approval-amount requires a positive uint256'' ''approval_amount'')
          else Inr (o'\<lparr>tn_approval_amount := Some a\<rparr>))"

definition apply_option :: "string \<Rightarrow> string \<Rightarrow> testnet_options \<Rightarrow> testnet_options result" where
  "apply_option flag v o' =
     (if flag = ''--owner'' then bind_res (evm_parse v) (\<lambda>a. Inr (o'\<lparr>tn_owner := a\<rparr>))
      else if flag = ''--scope'' then set_scope v o'
      else if flag = ''--operation''
      then needs_position flag ''operation'' o' (\<lambda>p. bind_res (parse_position_operation v) (\<lambda>x. Inr (p\<lparr>tp_operation := Some x\<rparr>)))
      else if flag = ''--condition-id''
      then needs_position flag ''condition_id'' o' (\<lambda>p. bind_res (decode_bytes32 v) (\<lambda>x. Inr (p\<lparr>tp_condition_id := Some x\<rparr>)))
      else if flag = ''--neg-risk-on-chain-id''
      then needs_position flag ''neg_risk_on_chain_id'' o'
             (\<lambda>p. bind_res (decode_bytes32 v) (\<lambda>x. Inr (p\<lparr>tp_neg_risk_on_chain_id := Some x\<rparr>)))
      else if flag = ''--amount''
      then needs_position flag ''amount'' o' (\<lambda>p. bind_res (option_uint256 v ''amount'') (\<lambda>x. Inr (p\<lparr>tp_amount := Some x\<rparr>)))
      else if flag = ''--approval-amount'' then set_approval_amount v o'
      else if flag = ''--index-set''
      then needs_position flag ''index_set'' o' (\<lambda>p. bind_res (option_uint256 v ''index_set'') (\<lambda>x. Inr (p\<lparr>tp_index_set := Some x\<rparr>)))
      else if flag = ''--token-id''
      then needs_position flag ''token_id'' o'
             (\<lambda>p. bind_res (option_uint256 v ''token_id'') (\<lambda>x. Inr (p\<lparr>tp_token_ids := tp_token_ids p @ [x]\<rparr>)))
      else if flag = ''--evidence'' then Inr (o'\<lparr>tn_evidence_path := v\<rparr>)
      else if flag = ''--secret-env-file'' then Inr (o'\<lparr>tn_secret_env_file := v\<rparr>)
      else if flag = ''--confirm'' then Inr (o'\<lparr>tn_confirmation := v\<rparr>)
      else if flag = ''--rpc-host'' then Inr (o'\<lparr>tn_endpoint := (tn_endpoint o')\<lparr>re_host := v\<rparr>\<rparr>)
      else if flag = ''--rpc-port'' then Inr (o'\<lparr>tn_endpoint := (tn_endpoint o')\<lparr>re_port := v\<rparr>\<rparr>)
      else if flag = ''--rpc-target'' then Inr (o'\<lparr>tn_endpoint := (tn_endpoint o')\<lparr>re_target := v\<rparr>\<rparr>)
      else Inl (bad_option ''unknown option'' flag))"

fun parse_flags :: "string list \<Rightarrow> testnet_options \<Rightarrow> testnet_options result" where
  "parse_flags [] o' = Inr o'"
| "parse_flags (flag # rest) o' =
     (if flag = ''--help'' \<or> flag = ''-h'' then parse_flags rest (o'\<lparr>tn_help := True\<rparr>)
      else if flag = ''--execute'' then parse_flags rest (o'\<lparr>tn_execute := True\<rparr>)
      else if flag = ''--neg-risk''
      then parse_flags rest (o'\<lparr>tn_scope := (tn_scope o')\<lparr>as_is_neg_risk := True\<rparr>,
             tn_position := map_option (\<lambda>p. p\<lparr>tp_is_neg_risk := True\<rparr>) (tn_position o')\<rparr>)
      else if flag = ''--yield-bearing''
      then parse_flags rest (o'\<lparr>tn_scope := (tn_scope o')\<lparr>as_is_yield_bearing := True\<rparr>,
             tn_position := map_option (\<lambda>p. p\<lparr>tp_is_yield_bearing := True\<rparr>) (tn_position o')\<rparr>)
      else case rest of
        [] \<Rightarrow> Inl (bad_option ''option requires a value'' flag)
      | v # others \<Rightarrow>
          if starts_with v ''--'' then Inl (bad_option ''option requires a value'' flag)
          else bind_res (apply_option flag v o') (parse_flags others))"

text \<open>The checks after the loop.\<close>

definition check_options :: "testnet_options \<Rightarrow> testnet_options result" where
  "check_options o' =
     (if tn_help o' then Inr o'
      else
        guard_res (evm_empty (tn_owner o')) (bad_option ''owner is required'' ''owner'')
        (guard_res (re_host (tn_endpoint o') = [] \<or> re_port (tn_endpoint o') = [] \<or> re_target (tn_endpoint o') = [])
          (bad_option ''RPC endpoint fields must not be empty'' ''rpc'')
        (guard_res (hd (re_target (tn_endpoint o')) \<noteq> CHR ''/'') (bad_option (''RPC target must start with '' @ [CHR 0x27] @ ''/'' @ [CHR 0x27]) ''rpc_target'')
        (guard_res (as_operation (tn_scope o') = approve_convert \<and> \<not> as_is_neg_risk (tn_scope o'))
          (bad_option ''convert requires --neg-risk'' ''scope'')
        (bind_res (case tn_position o' of
             None \<Rightarrow> Inr o'
           | Some p \<Rightarrow> bind_res (validate_position_plan p) (\<lambda>operation. Inr (o'\<lparr>tn_scope := position_approval_scope operation p\<rparr>))) (\<lambda>checked.
          guard_res (tn_secret_env_file checked \<noteq> [] \<and> tn_mode checked \<noteq> mode_approve \<and> tn_mode checked \<noteq> mode_position_execute)
            (bad_option ''--secret-env-file is valid only for write modes'' ''secret_env_file'')
          (Inr checked)))))))"

definition mode_options :: "string \<Rightarrow> testnet_options result" where
  "mode_options first =
     (if first = ''probe'' then Inr (default_testnet_options\<lparr>tn_mode := mode_probe\<rparr>)
      else if first = ''approve'' then Inr (default_testnet_options\<lparr>tn_mode := mode_approve\<rparr>)
      else if first = ''position-probe''
      then Inr (default_testnet_options\<lparr>tn_mode := mode_position_probe, tn_position := Some empty_plan\<rparr>)
      else if first = ''position-execute''
      then Inr (default_testnet_options\<lparr>tn_mode := mode_position_execute, tn_position := Some empty_plan\<rparr>)
      else Inl (bad_option ''first argument must be probe, approve, position-probe, or position-execute'' ''mode''))"

definition parse_testnet_arguments :: "string list \<Rightarrow> testnet_options result" where
  "parse_testnet_arguments arguments =
     (case arguments of
        [] \<Rightarrow> Inr default_testnet_options
      | first # rest \<Rightarrow>
          if first = ''--help'' \<or> first = ''-h'' then Inr (default_testnet_options\<lparr>tn_help := True\<rparr>)
          else bind_res (mode_options first) (\<lambda>o'. bind_res (parse_flags rest o') check_options))"

section \<open>What the arguments give\<close>

definition plan_wf :: "testnet_position_plan \<Rightarrow> bool" where
  "plan_wf p \<longleftrightarrow> pred_option uint256_wf (tp_amount p) \<and> pred_option uint256_wf (tp_index_set p) \<and>
     list_all uint256_wf (tp_token_ids p)"

text \<open>What one option, and a list of arguments, may change.\<close>

definition changed :: "string list \<Rightarrow> testnet_options \<Rightarrow> testnet_options \<Rightarrow> bool" where
  "changed args o' o'' \<longleftrightarrow> tn_mode o'' = tn_mode o' \<and>
     (tn_execute o'' \<longrightarrow> tn_execute o' \<or> ''--execute'' \<in> set args) \<and>
     (tn_evidence_path o'' = tn_evidence_path o' \<or> ''--evidence'' \<in> set args \<and> tn_evidence_path o'' \<in> set args) \<and>
     (tn_confirmation o'' = tn_confirmation o' \<or> ''--confirm'' \<in> set args \<and> tn_confirmation o'' \<in> set args) \<and>
     (pred_option plan_wf (tn_position o') \<longrightarrow> pred_option plan_wf (tn_position o''))"

lemma changed_refl: "changed args o' o'"
  by (simp add: changed_def)

lemma changedD:
  assumes "changed args o' o''"
  shows "tn_mode o'' = tn_mode o'" and "tn_execute o'' \<Longrightarrow> tn_execute o' \<or> ''--execute'' \<in> set args"
    and "tn_evidence_path o'' = tn_evidence_path o' \<or> ''--evidence'' \<in> set args \<and> tn_evidence_path o'' \<in> set args"
    and "tn_confirmation o'' = tn_confirmation o' \<or> ''--confirm'' \<in> set args \<and> tn_confirmation o'' \<in> set args"
    and "pred_option plan_wf (tn_position o') \<Longrightarrow> pred_option plan_wf (tn_position o'')"
  using assms by (simp_all add: changed_def)

lemma changed_trans:
  assumes a: "changed as o' o1" and b: "changed bs o1 o2" and sub: "set as \<subseteq> set cs" "set bs \<subseteq> set cs"
  shows "changed cs o' o2"
  unfolding changed_def
proof (intro conjI impI)
  show "tn_mode o2 = tn_mode o'"
    using changedD(1) [OF a] changedD(1) [OF b] by simp
  show "tn_execute o' \<or> ''--execute'' \<in> set cs" if "tn_execute o2"
    using changedD(2) [OF a] changedD(2) [OF b that] sub by auto
  show "tn_evidence_path o2 = tn_evidence_path o' \<or> ''--evidence'' \<in> set cs \<and> tn_evidence_path o2 \<in> set cs"
    using changedD(3) [OF a] changedD(3) [OF b] sub by auto
  show "tn_confirmation o2 = tn_confirmation o' \<or> ''--confirm'' \<in> set cs \<and> tn_confirmation o2 \<in> set cs"
    using changedD(4) [OF a] changedD(4) [OF b] sub by auto
  show "pred_option plan_wf (tn_position o2)" if "pred_option plan_wf (tn_position o')"
    using changedD(5) [OF b changedD(5) [OF a that]] .
qed

lemma option_uint256_wf: "option_uint256 v f = Inr u \<Longrightarrow> uint256_wf u"
  by (auto simp: option_uint256_def uint256_parse_wf split: sum.splits)

lemma needs_position_changed:
  assumes "needs_position flag field o' change = Inr o''" and "\<And>p p'. change p = Inr p' \<Longrightarrow> plan_wf p \<Longrightarrow> plan_wf p'"
  shows "changed args o' o''"
  using assms by (auto simp: needs_position_def changed_def res_simps split: option.splits)

lemma if_InrE: "(if b then x else y) = Inr z \<Longrightarrow> (b \<Longrightarrow> x = Inr z \<Longrightarrow> P) \<Longrightarrow> (y = Inr z \<Longrightarrow> P) \<Longrightarrow> P"
  by (cases b) simp_all

lemma set_scope_changed: "set_scope v o' = Inr o'' \<Longrightarrow> changed args o' o''"
  by (auto simp: set_scope_def res_simps changed_def)

lemma set_approval_amount_changed: "set_approval_amount v o' = Inr o'' \<Longrightarrow> changed args o' o''"
  by (auto simp: set_approval_amount_def res_simps changed_def split: sum.splits if_splits)

lemma plan_change_wf:
  "bind_res r (\<lambda>x. Inr (p\<lparr>tp_operation := Some x\<rparr>)) = Inr p' \<Longrightarrow> plan_wf p \<Longrightarrow> plan_wf p'"
  "bind_res s (\<lambda>x. Inr (p\<lparr>tp_condition_id := Some x\<rparr>)) = Inr p' \<Longrightarrow> plan_wf p \<Longrightarrow> plan_wf p'"
  "bind_res s (\<lambda>x. Inr (p\<lparr>tp_neg_risk_on_chain_id := Some x\<rparr>)) = Inr p' \<Longrightarrow> plan_wf p \<Longrightarrow> plan_wf p'"
  "bind_res (option_uint256 v f) (\<lambda>x. Inr (p\<lparr>tp_amount := Some x\<rparr>)) = Inr p' \<Longrightarrow> plan_wf p \<Longrightarrow> plan_wf p'"
  "bind_res (option_uint256 v f) (\<lambda>x. Inr (p\<lparr>tp_index_set := Some x\<rparr>)) = Inr p' \<Longrightarrow> plan_wf p \<Longrightarrow> plan_wf p'"
  "bind_res (option_uint256 v f) (\<lambda>x. Inr (p\<lparr>tp_token_ids := tp_token_ids p @ [x]\<rparr>)) = Inr p' \<Longrightarrow> plan_wf p \<Longrightarrow> plan_wf p'"
  by (auto simp: res_simps plan_wf_def option_uint256_wf)

lemma apply_option_changed:
  assumes "apply_option flag v o' = Inr o''"
  shows "changed [flag, v] o' o''"
  using assms unfolding apply_option_def
  by (elim if_InrE) (erule set_scope_changed | erule set_approval_amount_changed
      | (erule needs_position_changed, erule plan_change_wf, assumption)
      | fastforce simp: changed_def res_simps)+

lemma flag_changed:
  "changed [flag] o' (o'\<lparr>tn_help := True\<rparr>)" "changed [''--execute''] o' (o'\<lparr>tn_execute := True\<rparr>)"
  "changed [flag] o' (o'\<lparr>tn_scope := s, tn_position := map_option (\<lambda>p. p\<lparr>tp_is_neg_risk := True\<rparr>) (tn_position o')\<rparr>)"
  "changed [flag] o' (o'\<lparr>tn_scope := s, tn_position := map_option (\<lambda>p. p\<lparr>tp_is_yield_bearing := True\<rparr>) (tn_position o')\<rparr>)"
  by (auto simp: changed_def plan_wf_def pred_option_def map_option_case split: option.splits)

lemma parse_flags_changed: "parse_flags args o' = Inr o'' \<Longrightarrow> changed args o' o''"
proof (induction args o' rule: parse_flags.induct)
  case (2 flag rest o')
  have tail: "changed (flag # rest) o' o''" if "changed [flag] o' o1" "changed rest o1 o''" for o1
    by (rule changed_trans [OF that]) auto
  consider (asks) "flag = ''--help'' \<or> flag = ''-h''" | (execute) "flag = ''--execute''" | (neg) "flag = ''--neg-risk''"
    | (yield) "flag = ''--yield-bearing''" | (with_value) "\<not> (flag = ''--help'' \<or> flag = ''-h'')" "flag \<noteq> ''--execute''"
      "flag \<noteq> ''--neg-risk''" "flag \<noteq> ''--yield-bearing''"
    by blast
  then show ?case
  proof cases
    case asks
    then show ?thesis
      using 2(1) [OF asks] 2(6) tail [OF flag_changed(1)] by (simp only: parse_flags.simps if_True)
  next
    case execute
    then show ?thesis
      using 2(2) 2(6) tail [of "o'\<lparr>tn_execute := True\<rparr>"] flag_changed(2) by simp
  next
    case neg
    then show ?thesis
      using 2(3) 2(6) tail [OF flag_changed(3)] by simp
  next
    case yield
    then show ?thesis
      using 2(4) 2(6) tail [OF flag_changed(4)] by simp
  next
    case with_value
    obtain v others o1 where rest: "rest = v # others" "\<not> starts_with v ''--''" and o1: "apply_option flag v o' = Inr o1"
      "parse_flags others o1 = Inr o''"
      using 2(6) with_value by (auto simp: res_simps split: list.splits if_splits)
    have "changed others o1 o''"
      using 2(5) [OF with_value rest o1(2)] .
    then show ?thesis
      using changed_trans [OF apply_option_changed [OF o1(1)], of others o'' "flag # rest"] rest(1) by auto
  qed
qed (simp add: changed_refl)

lemma check_options_result:
  assumes "check_options o' = Inr o''" and "\<not> tn_help o''"
  shows "tn_mode o'' = tn_mode o'" and "tn_execute o'' = tn_execute o'" and "tn_evidence_path o'' = tn_evidence_path o'"
    and "tn_confirmation o'' = tn_confirmation o'" and "tn_position o'' = tn_position o'" and "\<not> evm_empty (tn_owner o'')"
    and "tn_position o'' = Some p \<Longrightarrow> validate_position_plan p = Inr (the (tp_operation p))"
proof -
  have plan: "validate_position_plan p = Inr x \<Longrightarrow> tp_operation p = Some x" for p x
    by (auto simp: validate_position_plan_def Let_def res_simps split: option.splits)
  show "tn_mode o'' = tn_mode o'" "tn_execute o'' = tn_execute o'" "tn_evidence_path o'' = tn_evidence_path o'"
    "tn_confirmation o'' = tn_confirmation o'" "tn_position o'' = tn_position o'" "\<not> evm_empty (tn_owner o'')"
    using assms by (auto simp: check_options_def res_simps split: if_splits option.splits)
  show "tn_position o'' = Some p \<Longrightarrow> validate_position_plan p = Inr (the (tp_operation p))"
    using assms plan by (auto simp: check_options_def res_simps split: if_splits option.splits)
qed

lemma mode_options_plain:
  "mode_options first = Inr o' \<Longrightarrow> \<not> tn_execute o' \<and> tn_evidence_path o' = [] \<and> tn_confirmation o' = [] \<and>
     pred_option plan_wf (tn_position o')"
  by (auto simp: mode_options_def default_testnet_options_def empty_plan_def plan_wf_def split: if_splits)

lemma parse_arguments_result:
  assumes "parse_testnet_arguments args = Inr o'" and "\<not> tn_help o'"
  shows "tn_execute o' \<Longrightarrow> ''--execute'' \<in> set args"
    and "tn_evidence_path o' = [] \<or> ''--evidence'' \<in> set args \<and> tn_evidence_path o' \<in> set args"
    and "tn_confirmation o' = [] \<or> ''--confirm'' \<in> set args \<and> tn_confirmation o' \<in> set args"
    and "tn_position o' = Some p \<Longrightarrow> plan_wf p \<and> validate_position_plan p = Inr (the (tp_operation p))"
    and "args \<noteq> [] \<Longrightarrow> \<not> evm_empty (tn_owner o')"
proof -
  have result: "(tn_execute o' \<longrightarrow> ''--execute'' \<in> set args) \<and>
      (tn_evidence_path o' = [] \<or> ''--evidence'' \<in> set args \<and> tn_evidence_path o' \<in> set args) \<and>
      (tn_confirmation o' = [] \<or> ''--confirm'' \<in> set args \<and> tn_confirmation o' \<in> set args) \<and>
      (tn_position o' = Some p \<longrightarrow> plan_wf p \<and> validate_position_plan p = Inr (the (tp_operation p))) \<and>
      (args \<noteq> [] \<longrightarrow> \<not> evm_empty (tn_owner o'))" for p
  proof (cases args)
    case Nil
    then show ?thesis
      using assms(1) by (auto simp: parse_testnet_arguments_def default_testnet_options_def)
  next
    case (Cons first rest)
    have first: "\<not> (first = ''--help'' \<or> first = ''-h'')"
      using assms by (auto simp: parse_testnet_arguments_def Cons)
    obtain o1 o2 where "mode_options first = Inr o1" and o2: "parse_flags rest o1 = Inr o2" "check_options o2 = Inr o'"
      using assms(1) first by (auto simp: parse_testnet_arguments_def Cons res_simps)
    then have o1: "\<not> tn_execute o1" "tn_evidence_path o1 = []" "tn_confirmation o1 = []" "pred_option plan_wf (tn_position o1)"
      using mode_options_plain by simp_all
    note c = changedD [OF parse_flags_changed [OF o2(1)]] and k = check_options_result [OF o2(2) assms(2)]
    have "pred_option plan_wf (tn_position o')"
      using c(5) [OF o1(4)] k(5) by simp
    then show ?thesis
      using c(2,3,4) k o1 by (auto simp: Cons)
  qed
  then show "tn_execute o' \<Longrightarrow> ''--execute'' \<in> set args"
    "tn_evidence_path o' = [] \<or> ''--evidence'' \<in> set args \<and> tn_evidence_path o' \<in> set args"
    "tn_confirmation o' = [] \<or> ''--confirm'' \<in> set args \<and> tn_confirmation o' \<in> set args"
    "tn_position o' = Some p \<Longrightarrow> plan_wf p \<and> validate_position_plan p = Inr (the (tp_operation p))"
    "args \<noteq> [] \<Longrightarrow> \<not> evm_empty (tn_owner o')"
    by blast+
qed

section \<open>Phrases determine plans\<close>

text \<open>The words of a phrase have no space in them.\<close>

definition word :: "string \<Rightarrow> bool" where
  "word w \<longleftrightarrow> CHR '' '' \<notin> set w"

lemma word_split: "a @ CHR '' '' # s = b @ CHR '' '' # t \<Longrightarrow> word a \<Longrightarrow> word b \<Longrightarrow> a = b \<and> s = t"
proof (induction a arbitrary: b)
  case Nil
  then show ?case
    by (cases b) (auto simp: word_def)
next
  case (Cons x a)
  then show ?case
    by (cases b) (auto simp: word_def)
qed

lemma word_hex: "word (''0x'' @ hex_text bs)"
  using list_all_hex_text [of bs] by (auto simp: word_def list_all_iff is_xdigit_def is_digit_def Let_def)

lemma number_digits: "uint256_wf u \<Longrightarrow> list_all is_digit (u256_text u) \<and> u256_text u \<noteq> []"
  using list_all_to_string [of "uint256_value u"] to_string_not_Nil [of "uint256_value u"] by (simp add: uint256_wf_def)

lemma word_number: "uint256_wf u \<Longrightarrow> word (u256_text u)"
  using number_digits [of u] by (auto simp: word_def list_all_iff is_digit_def)

lemma word_code: "word (position_operation_code operation p)"
  by (cases operation) (auto simp: word_def position_operation_code_def operation_name_def)

lemma optional_word: "pred_option uint256_wf x \<Longrightarrow> word d \<Longrightarrow> word (case x of Some a \<Rightarrow> u256_text a | None \<Rightarrow> d)"
  using word_number by (cases x) auto

lemma optional_number:
  assumes "pred_option uint256_wf x" and "pred_option uint256_wf y" and "d \<noteq> []" and "\<not> is_digit (hd d)"
    and "(case x of Some a \<Rightarrow> u256_text a | None \<Rightarrow> d) = (case y of Some a \<Rightarrow> u256_text a | None \<Rightarrow> d)"
  shows "x = y"
proof -
  have "u256_text u \<noteq> d" if "uint256_wf u" for u
    using number_digits [OF that] assms(3,4) by (cases d) auto
  then show ?thesis
    using assms(1,2,5) by (cases x; cases y) (auto simp: uint256.equality)
qed

lemma code_inj:
  "position_operation_code a p = position_operation_code b q \<Longrightarrow> a = b \<and>
     (a = position_convert \<or> tp_is_neg_risk p) = (b = position_convert \<or> tp_is_neg_risk q) \<and>
     tp_is_yield_bearing p = tp_is_yield_bearing q"
  by (cases a; cases b; cases "tp_is_neg_risk p"; cases "tp_is_neg_risk q"; cases "tp_is_yield_bearing p";
      cases "tp_is_yield_bearing q"; simp add: position_operation_code_def operation_name_def)

lemma comma_split: "a @ CHR '','' # s = b @ CHR '','' # t \<Longrightarrow> list_all is_digit a \<Longrightarrow> list_all is_digit b \<Longrightarrow> a = b \<and> s = t"
proof (induction a arbitrary: b)
  case Nil
  then show ?case
    by (cases b) (auto simp: is_digit_def)
next
  case (Cons x a)
  then show ?case
    by (cases b) (auto simp: is_digit_def)
qed

lemma join_tokens_cons: "ts \<noteq> [] \<Longrightarrow> join_tokens (t # ts) = u256_text t @ CHR '','' # join_tokens ts"
  by (cases ts) simp_all

lemma join_tokens_inj:
  "join_tokens ts = join_tokens us \<Longrightarrow> list_all uint256_wf ts \<Longrightarrow> list_all uint256_wf us \<Longrightarrow> ts = us"
proof (induction ts arbitrary: us)
  case Nil
  then show ?case
    by (cases us; cases "tl us") (fastforce dest: number_digits)+
next
  case (Cons t ts)
  then obtain u vs where us: "us = u # vs"
    using number_digits [of t] by (cases us; cases ts) (auto simp: join_tokens_cons)
  have d: "list_all is_digit (u256_text t)" "list_all is_digit (u256_text u)"
    using Cons(3,4) us number_digits by auto
  have comma: "w @ CHR '','' # s \<noteq> v" if "list_all is_digit v" for v w s
    using that by (auto simp: is_digit_def)
  show ?case
  proof (cases "ts = []"; cases "vs = []")
    assume "ts \<noteq> []" "vs \<noteq> []"
    then have "u256_text t = u256_text u \<and> join_tokens ts = join_tokens vs"
      using Cons(2) us d by (intro comma_split) (simp_all add: join_tokens_cons)
    then show ?thesis
      using Cons us by (simp add: uint256.equality)
  qed (use Cons(2) us comma [OF d(1)] comma [OF d(2)] in \<open>auto simp: join_tokens_cons uint256.equality\<close>)
qed

text \<open>What a position transaction is built from: for a conversion the market's identifier, and always negative risk.\<close>

definition planned_transaction where
  "planned_transaction p =
     (case tp_operation p of
        None \<Rightarrow> None
      | Some operation \<Rightarrow> Some (operation,
          if operation = position_convert then the (tp_neg_risk_on_chain_id p) else the (tp_condition_id p),
          operation = position_convert \<or> tp_is_neg_risk p, tp_is_yield_bearing p, tp_amount p, tp_index_set p, tp_token_ids p))"

text \<open>
  The transaction the tool sends for a plan (\<^verbatim>\<open>position_transaction\<close> of the tool) and the contract whose token balances it
  reads: the contract operations of \<^verbatim>\<open>Chain_Operations\<close> on the test network, called directly from the owner's account.
  The plan check has made the optional fields that an operation needs present.
\<close>

definition eoa_route :: route_options where
  "eoa_route = \<lparr>ru_route = route_eoa, ru_predict_account = None\<rparr>"

definition position_of_plan :: "testnet_position_plan \<Rightarrow> position_operation" where
  "position_of_plan p =
     \<lparr>po_condition_id = the (tp_condition_id p), po_amount = the (tp_amount p), po_is_neg_risk = tp_is_neg_risk p,
      po_is_yield_bearing = tp_is_yield_bearing p\<rparr>"

definition plan_transaction ::
    "keccak \<Rightarrow> testnet_position_operation \<Rightarrow> testnet_position_plan \<Rightarrow> unsigned_transaction result" where
  "plan_transaction keccak operation p =
     (case operation of
        position_split \<Rightarrow> split_transaction keccak bnb_testnet (position_of_plan p) eoa_route
      | position_merge \<Rightarrow> merge_transaction keccak bnb_testnet (position_of_plan p) eoa_route
      | position_redeem \<Rightarrow> redeem_transaction keccak bnb_testnet
          \<lparr>rd_condition_id = the (tp_condition_id p),
           rd_index_set = (if u256_text (the (tp_index_set p)) = ''1'' then 1 else 2),
           rd_is_neg_risk = tp_is_neg_risk p, rd_is_yield_bearing = tp_is_yield_bearing p, rd_amount = tp_amount p\<rparr> eoa_route
      | position_convert \<Rightarrow> convert_transaction keccak bnb_testnet
          \<lparr>cv_neg_risk_on_chain_id = the (tp_neg_risk_on_chain_id p), cv_index_set = the (tp_index_set p),
           cv_amount = the (tp_amount p), cv_is_yield_bearing = tp_is_yield_bearing p\<rparr> eoa_route)"

definition position_token_contract :: "testnet_position_operation \<Rightarrow> testnet_position_plan \<Rightarrow> evm_address result" where
  "position_token_contract operation p =
     bind_res (protocol_addresses bnb_testnet) (\<lambda>a.
       Inr (conditional_tokens a (operation = position_convert \<or> tp_is_neg_risk p) (tp_is_yield_bearing p)))"

lemma planned_transaction_built:
  assumes "planned_transaction p = planned_transaction q" and "tp_operation p = Some x"
  shows "tp_operation q = Some x \<and> plan_transaction keccak x p = plan_transaction keccak x q \<and>
    position_token_contract x p = position_token_contract x q \<and> tp_token_ids p = tp_token_ids q"
proof -
  have q: "tp_operation q = Some x"
    using assms by (auto simp: planned_transaction_def split: option.splits)
  then have "(if x = position_convert then the (tp_neg_risk_on_chain_id p) else the (tp_condition_id p)) =
      (if x = position_convert then the (tp_neg_risk_on_chain_id q) else the (tp_condition_id q))"
    "(x = position_convert \<or> tp_is_neg_risk p) = (x = position_convert \<or> tp_is_neg_risk q)"
    "tp_is_yield_bearing p = tp_is_yield_bearing q" "tp_amount p = tp_amount q" "tp_index_set p = tp_index_set q"
    "tp_token_ids p = tp_token_ids q"
    using assms by (simp_all add: planned_transaction_def)
  with q show ?thesis
    by (cases x) (simp_all add: plan_transaction_def position_of_plan_def position_token_contract_def)
qed

fun spaced :: "string list \<Rightarrow> string" where
  "spaced [] = []"
| "spaced [w] = w"
| "spaced (w # v # ws) = w @ CHR '' '' # spaced (v # ws)"

lemma spaced_inj:
  "spaced ws = spaced vs \<Longrightarrow> length ws = length vs \<Longrightarrow> list_all word ws \<Longrightarrow> list_all word vs \<Longrightarrow> ws = vs"
proof (induction ws arbitrary: vs rule: spaced.induct)
  case (2 w)
  then show ?case
    by (cases vs) auto
next
  case (3 w u ws)
  then obtain x y ys where vs: "vs = x # y # ys"
    by (cases vs; cases "tl vs") auto
  have "w = x \<and> spaced (u # ws) = spaced (y # ys)"
    using 3(2,4,5) vs by (intro word_split) simp_all
  then show ?case
    using 3(1) [of "y # ys"] 3(3-5) vs by simp
qed simp

definition phrase_words :: "evm_address \<Rightarrow> testnet_position_operation \<Rightarrow> testnet_position_plan \<Rightarrow> string list" where
  "phrase_words owner x p =
     [evm_to_string owner, position_operation_code x p,
      encode_hex (if x = position_convert then the (tp_neg_risk_on_chain_id p) else the (tp_condition_id p)),
      case tp_amount p of Some a \<Rightarrow> u256_text a | None \<Rightarrow> ''all'', case tp_index_set p of Some a \<Rightarrow> u256_text a | None \<Rightarrow> ''none'',
      join_tokens (tp_token_ids p)]"

lemma confirmation_words: "position_confirmation owner x p = ''EXECUTE PREDICT BNB TESTNET 97 '' @ spaced (phrase_words owner x p)"
  by (simp add: position_confirmation_def phrase_words_def)

lemma word_tokens: "list_all uint256_wf ts \<Longrightarrow> word (join_tokens ts)"
  by (induction ts rule: join_tokens.induct) (use word_number in \<open>auto simp: word_def\<close>)

lemma literals_ok:
  "''all'' \<noteq> []" "\<not> is_digit (hd ''all'')" "word ''all''" "''none'' \<noteq> []" "\<not> is_digit (hd ''none'')" "word ''none''"
  by (simp_all add: is_digit_def word_def)

lemma phrase_words_ok: "plan_wf p \<Longrightarrow> list_all word (phrase_words owner x p)"
  unfolding plan_wf_def phrase_words_def list.pred_inject evm_to_string_def encode_hex_eq
  by (simp only: word_hex word_code word_tokens optional_word literals_ok simp_thms list.pred_inject(1))

lemma evm_to_string_inj: "evm_to_string a = evm_to_string b \<Longrightarrow> a = b"
proof -
  assume "evm_to_string a = evm_to_string b"
  then have "hex_text (evm_bytes a) = hex_text (evm_bytes b)"
    by (simp add: evm_to_string_def)
  then have "evm_bytes a = evm_bytes b"
    by (metis hex_pairs_text option.inject)
  then show "a = b"
    by (cases a; cases b) simp
qed

lemma position_confirmation_inj:
  assumes "position_confirmation a x p = position_confirmation b y q" and "plan_wf p" and "plan_wf q"
    and "tp_operation p = Some x" and "tp_operation q = Some y"
  shows "a = b \<and> planned_transaction p = planned_transaction q"
proof -
  have "spaced (phrase_words a x p) = spaced (phrase_words b y q)"
    using assms(1) unfolding confirmation_words same_append_eq .
  moreover have "length (phrase_words a x p) = length (phrase_words b y q)"
    by (simp add: phrase_words_def)
  ultimately have "phrase_words a x p = phrase_words b y q"
    using phrase_words_ok assms(2,3) by (blast intro: spaced_inj)
  then have w: "evm_to_string a = evm_to_string b" "position_operation_code x p = position_operation_code y q"
    "(if x = position_convert then the (tp_neg_risk_on_chain_id p) else the (tp_condition_id p)) =
     (if y = position_convert then the (tp_neg_risk_on_chain_id q) else the (tp_condition_id q))"
    "(case tp_amount p of Some a \<Rightarrow> u256_text a | None \<Rightarrow> ''all'') = (case tp_amount q of Some a \<Rightarrow> u256_text a | None \<Rightarrow> ''all'')"
    "(case tp_index_set p of Some a \<Rightarrow> u256_text a | None \<Rightarrow> ''none'') = (case tp_index_set q of Some a \<Rightarrow> u256_text a | None \<Rightarrow> ''none'')"
    "join_tokens (tp_token_ids p) = join_tokens (tp_token_ids q)"
    unfolding phrase_words_def list.inject encode_hex_inj by blast+
  note wf = assms(2,3) [unfolded plan_wf_def]
  have "tp_amount p = tp_amount q" "tp_index_set p = tp_index_set q"
    using optional_number [OF _ _ literals_ok(1,2) w(4)] optional_number [OF _ _ literals_ok(4,5) w(5)] wf by blast+
  moreover have "tp_token_ids p = tp_token_ids q"
    using join_tokens_inj [OF w(6)] wf by blast
  moreover note code_inj [OF w(2)] w(3) evm_to_string_inj [OF w(1)]
  ultimately show ?thesis
    using assms(4,5) unfolding planned_transaction_def by auto
qed

section \<open>Properties\<close>

lemma position_gate_facts:
  assumes "parse_testnet_arguments args = Inr o'" and "\<not> tn_help o'" and "validate_position_write_gate o' = Inr True"
  obtains p x where "tn_position o' = Some p" "tp_operation p = Some x" "plan_wf p" "validate_position_plan p = Inr x"
    "tn_confirmation o' = position_confirmation (tn_owner o') x p"
proof -
  obtain p where p: "tn_position o' = Some p"
    using assms(3) by (auto simp: validate_position_write_gate_def res_simps)
  have v: "plan_wf p" "validate_position_plan p = Inr (the (tp_operation p))"
    using parse_arguments_result(4) [OF assms(1,2) p] by simp_all
  then obtain x where x: "tp_operation p = Some x"
    by (cases "tp_operation p") (auto simp: validate_position_plan_def)
  show ?thesis
    using that [OF p x v(1)] v(2) x assms(3) p by (simp add: validate_position_write_gate_def res_simps)
qed

text \<open>
  C40. The confirmation phrase of a position operation pins the transaction: two command lines that both parse and both
  pass the write gate with the same phrase have the same owner, the same operation, the same transaction (contract, call
  data and value, or the same refusal) and the same token balances to read, whatever other arguments they have and in
  whatever order; and the plan is one that the plan check accepts.
\<close>

theorem position_phrase_pins_plan:
  assumes "parse_testnet_arguments args = Inr o1" and "\<not> tn_help o1" and "validate_position_write_gate o1 = Inr True"
    and "parse_testnet_arguments args' = Inr o2" and "\<not> tn_help o2" and "validate_position_write_gate o2 = Inr True"
    and "tn_confirmation o1 = tn_confirmation o2"
  shows "\<exists>p q x. tn_position o1 = Some p \<and> tn_position o2 = Some q \<and> tn_owner o1 = tn_owner o2 \<and>
    validate_position_plan p = Inr x \<and> tp_operation p = Some x \<and> tp_operation q = Some x \<and>
    plan_transaction keccak x p = plan_transaction keccak x q \<and>
    position_token_contract x p = position_token_contract x q \<and> tp_token_ids p = tp_token_ids q"
proof -
  obtain p x where p: "tn_position o1 = Some p" "tp_operation p = Some x" "plan_wf p" "validate_position_plan p = Inr x"
    "tn_confirmation o1 = position_confirmation (tn_owner o1) x p"
    by (rule position_gate_facts [OF assms(1-3)])
  obtain q y where q: "tn_position o2 = Some q" "tp_operation q = Some y" "plan_wf q"
    "tn_confirmation o2 = position_confirmation (tn_owner o2) y q"
    by (rule position_gate_facts [OF assms(4-6)])
  have "position_confirmation (tn_owner o1) x p = position_confirmation (tn_owner o2) y q"
    using assms(7) p(5) q(4) by simp
  then have "tn_owner o1 = tn_owner o2" and "planned_transaction p = planned_transaction q"
    using position_confirmation_inj p(2,3) q(2,3) by blast+
  then show ?thesis
    using p(1,2,4) q(1) planned_transaction_built [OF _ p(2)] by blast
qed

text \<open>
  No write without the flags: a command line that parses and passes either write gate names an owner and holds
  \<^verbatim>\<open>--execute\<close>, \<^verbatim>\<open>--evidence\<close> with its path and \<^verbatim>\<open>--confirm\<close> with exactly the phrase of the approval or of the plan.
\<close>

theorem testnet_write_needs_flags:
  assumes "parse_testnet_arguments args = Inr o'" and "\<not> tn_help o'"
    and "validate_write_gate o' = Inr True \<or> validate_position_write_gate o' = Inr True"
  shows "''--execute'' \<in> set args \<and> ''--evidence'' \<in> set args \<and> tn_evidence_path o' \<in> set args \<and> ''--confirm'' \<in> set args \<and>
    \<not> evm_empty (tn_owner o') \<and>
    (approval_confirmation (tn_owner o') (tn_scope o') (tn_approval_amount o') \<in> set args \<or>
     (\<exists>p x. tn_position o' = Some p \<and> tp_operation p = Some x \<and> position_confirmation (tn_owner o') x p \<in> set args))"
proof -
  have gate: "tn_execute o'" "tn_evidence_path o' \<noteq> []"
    using assms(3) by (auto simp: validate_write_gate_def validate_position_write_gate_def res_simps)
  note r = parse_arguments_result [OF assms(1,2)]
  have args: "args \<noteq> []"
    using r(1) [OF gate(1)] by auto
  have confirm: "tn_confirmation o' \<noteq> [] \<Longrightarrow> ''--confirm'' \<in> set args \<and> tn_confirmation o' \<in> set args"
    using r(3) by blast
  have "''--confirm'' \<in> set args \<and>
    (approval_confirmation (tn_owner o') (tn_scope o') (tn_approval_amount o') \<in> set args \<or>
     (\<exists>p x. tn_position o' = Some p \<and> tp_operation p = Some x \<and> position_confirmation (tn_owner o') x p \<in> set args))"
    using assms(3)
  proof
    assume "validate_write_gate o' = Inr True"
    then have c: "tn_confirmation o' = approval_confirmation (tn_owner o') (tn_scope o') (tn_approval_amount o')"
      by (simp add: validate_write_gate_def res_simps)
    then have "tn_confirmation o' \<noteq> []"
      by (simp add: approval_confirmation_def)
    then show ?thesis
      using confirm unfolding c by blast
  next
    assume "validate_position_write_gate o' = Inr True"
    then obtain p x where p: "tn_position o' = Some p" "tp_operation p = Some x"
      and c: "tn_confirmation o' = position_confirmation (tn_owner o') x p"
      using position_gate_facts [OF assms(1,2)] by metis
    then have "tn_confirmation o' \<noteq> []"
      by (simp add: position_confirmation_def)
    then show ?thesis
      using confirm p unfolding c by blast
  qed
  then show ?thesis
    using r(1) [OF gate(1)] r(2) gate(2) r(5) [OF args] by blast
qed

definition sample_condition :: bytes32 where "sample_condition = replicate 32 7"

definition sample_arguments :: "string list" where
  "sample_arguments =
     [''position-execute'', ''--owner'', ''0x'' @ concat (replicate 20 ''01''), ''--operation'', ''split'', ''--condition-id'',
      encode_hex sample_condition, ''--amount'', ''1000'', ''--token-id'', ''5'', ''--token-id'', ''6'', ''--execute'',
      ''--evidence'', ''run.jsonl'', ''--confirm'',
      ''EXECUTE PREDICT BNB TESTNET 97 0x'' @ concat (replicate 20 ''01'') @ '' split:standard:regular '' @
        encode_hex sample_condition @ '' 1000 none 5,6'']"

definition sample_parsed :: testnet_options where
  "sample_parsed = (case parse_testnet_arguments sample_arguments of Inr o' \<Rightarrow> o' | Inl _ \<Rightarrow> default_testnet_options)"

lemma sample_parse:
  "parse_testnet_arguments sample_arguments = Inr sample_parsed" "\<not> tn_help sample_parsed"
  "validate_position_write_gate sample_parsed = Inr True"
  by code_simp+

theorem position_phrase_pins_plan_witness:
  "parse_testnet_arguments sample_arguments = Inr sample_parsed \<and> validate_position_write_gate sample_parsed = Inr True \<and>
   (\<exists>p x. tn_position sample_parsed = Some p \<and> validate_position_plan p = Inr x \<and> tp_operation p = Some x)"
  using position_phrase_pins_plan [OF sample_parse sample_parse refl] sample_parse by blast

theorem testnet_write_needs_flags_witness:
  "validate_position_write_gate sample_parsed = Inr True \<and> ''--execute'' \<in> set sample_arguments \<and>
   \<not> evm_empty (tn_owner sample_parsed)"
  using testnet_write_needs_flags [OF sample_parse(1,2) disjI2 [OF sample_parse(3)]] sample_parse by blast

text \<open>The texts of canonical numbers compare as the numbers: a check covers the plan when its allowance reaches the amount.\<close>

lemma at_least_value:
  assumes "uint256_wf a" and "uint256_wf b"
  shows "at_least a b \<longleftrightarrow> uint256_value b \<le> uint256_value a"
proof -
  define m n where "m = uint256_value a" and "n = uint256_value b"
  have t: "u256_text a = to_string m" "u256_text b = to_string n"
    using assms by (simp_all add: uint256_wf_def m_def n_def)
  have longer: "v < u" if "length (to_string v) < length (to_string u)" for u v
  proof -
    have "length (to_string (0 :: nat)) = 1"
      by code_simp
    then have "0 < u"
      using that to_string_not_Nil [of v] by (cases u) (auto simp: Suc_le_eq)
    then have "10 ^ (length (to_string u) - 1) \<le> u"
      using to_string_bounds(1) [of u] by simp
    moreover have "v < 10 ^ length (to_string v)"
      using digits_value_less [of "to_string v"] by simp
    moreover have "(10 :: nat) ^ length (to_string v) \<le> 10 ^ (length (to_string u) - 1)"
      using that by (intro power_increasing) simp_all
    ultimately show ?thesis
      by linarith
  qed
  show ?thesis
  proof (cases "length (to_string m)" "length (to_string n)" rule: linorder_cases)
    case equal
    then show ?thesis
      using str_less_digits [of "to_string m" "to_string n"] by (auto simp: at_least_def t m_def [symmetric] n_def [symmetric])
  qed (use longer [of m n] longer [of n m] in \<open>auto simp: at_least_def t m_def [symmetric] n_def [symmetric]\<close>)
qed

lemma approval_covers_plan:
  assumes "tp_amount p = Some amount" and "uint256_wf amount" and "ac_allowance check = Some a" and "uint256_wf a"
    and "ap_kind (ac_step check) = erc20_allowance_kind"
  shows "position_approval_satisfies_plan p check \<longleftrightarrow> ac_satisfied check \<or> uint256_value amount \<le> uint256_value a"
  using assms by (simp add: position_approval_satisfies_plan_def at_least_value)

end
