(* ===== verification/Testnet_Files.thy ===== *)
theory Testnet_Files
  imports Testnet_Tool
begin

text \<open>
  The two files the test network tool touches: the secret file it reads the private key from and the evidence file it
  appends one line per event to. The file system is a parameter: what the status, the size, the opening and the reading of
  the secret file gave. Erasing the buffers has no result and is left out.
\<close>

section \<open>The secret file\<close>

definition is_space :: "char \<Rightarrow> bool" where
  "is_space c \<longleftrightarrow> c \<in> {CHR '' '', CHR 0x09, CHR 0x0A, CHR 0x0B, CHR 0x0C, CHR 0x0D}"

definition trim_ascii :: "string \<Rightarrow> string" where
  "trim_ascii s = rev (dropWhile is_space (rev (dropWhile is_space s)))"

fun env_lines :: "string \<Rightarrow> string list" where
  "env_lines [] = [[]]"
| "env_lines (c # cs) =
     (if c = CHR 0x0A then [] # env_lines cs else (c # hd (env_lines cs)) # tl (env_lines cs))"

definition in_quotes :: "char \<Rightarrow> string \<Rightarrow> bool" where
  "in_quotes q v \<longleftrightarrow> hd v = q \<and> last v = q"

definition strip_quotes :: "string \<Rightarrow> string" where
  "strip_quotes v =
     (if length v \<ge> 2 \<and> (in_quotes (CHR 0x22) v \<or> in_quotes (CHR 0x27) v) then take (length v - 2) (drop 1 v) else v)"

definition strip_export :: "string \<Rightarrow> string" where
  "strip_export l = (if take 7 l = ''export '' then trim_ascii (drop 7 l) else l)"

definition env_entry :: "string \<Rightarrow> (string \<times> string) option" where
  "env_entry text =
     (let l = trim_ascii text in
      if l = [] \<or> hd l = CHR ''#'' then None
      else let l = strip_export l in
        if CHR ''='' \<notin> set l then None
        else Some (trim_ascii (takeWhile (\<lambda>c. c \<noteq> CHR ''='') l),
                   strip_quotes (trim_ascii (drop 1 (dropWhile (\<lambda>c. c \<noteq> CHR ''='') l)))))"

definition secret_error :: "string \<Rightarrow> error" where
  "secret_error message = mk_error invalid_argument message ''secret_env_file''"

definition key_name :: string where "key_name = ''PREDICTFUN_BNB_TESTNET_PRIVATE_KEY''"

definition owner_name :: string where "owner_name = ''PREDICTFUN_BNB_TESTNET_WALLET_ADDRESS''"

fun read_entries ::
    "(string \<times> string) option list \<Rightarrow> string option \<Rightarrow> evm_address option \<Rightarrow> (string option \<times> evm_address option) result" where
  "read_entries [] key declared = Inr (key, declared)"
| "read_entries (None # es) key declared = read_entries es key declared"
| "read_entries (Some (name, v) # es) key declared =
     (if name = key_name
      then if key \<noteq> None then Inl (secret_error ''duplicate testnet private key entry'')
           else read_entries es (Some v) declared
      else if name = owner_name
      then if declared \<noteq> None then Inl (secret_error ''duplicate testnet wallet address entry'')
           else case evm_parse v of
             Inl _ \<Rightarrow> Inl (secret_error ''testnet wallet address entry is malformed'')
           | Inr a \<Rightarrow> read_entries es key (Some a)
      else read_entries es key declared)"

definition read_key_contents :: "string \<Rightarrow> evm_address \<Rightarrow> string result" where
  "read_key_contents contents expected_owner =
     bind_res (read_entries (map env_entry (env_lines contents)) None None) (\<lambda>(key, declared).
       if key = None \<or> key = Some []
       then Inl (secret_error ''testnet private key entry is missing or empty'')
       else if declared \<noteq> None \<and> declared \<noteq> Some expected_owner
       then Inl (secret_error ''testnet wallet address does not match --owner'')
       else Inr (the key))"

record secret_file =
  sf_regular :: bool
  sf_size :: "nat option"
  sf_opens :: bool
  sf_contents :: "string option"

definition read_private_key_file :: "secret_file \<Rightarrow> evm_address \<Rightarrow> string result" where
  "read_private_key_file f expected_owner =
     (if \<not> sf_regular f
      then Inl (secret_error ''secret env file must be an existing regular non-symlink file'')
      else if sf_size f = None \<or> the (sf_size f) = 0 \<or> the (sf_size f) > 64 * 1024
      then Inl (secret_error ''secret env file has an invalid size'')
      else if \<not> sf_opens f then Inl (secret_error ''cannot open secret env file'')
      else case sf_contents f of
        None \<Rightarrow> Inl (secret_error ''cannot read secret env file'')
      | Some contents \<Rightarrow> read_key_contents contents expected_owner)"

text \<open>The values the lines of a file give a name, in their order.\<close>

definition values_of :: "string \<Rightarrow> (string \<times> string) option list \<Rightarrow> string list" where
  "values_of n es = concat (map (\<lambda>e. case e of Some (m, v) \<Rightarrow> if m = n then [v] else [] | None \<Rightarrow> []) es)"

lemma values_of_simps [simp]:
  "values_of n [] = []" "values_of n (None # es) = values_of n es"
  "values_of n (Some (m, v) # es) = (if m = n then v # values_of n es else values_of n es)"
  by (simp_all add: values_of_def)

lemma names_differ [simp]: "key_name \<noteq> owner_name" "owner_name \<noteq> key_name"
  by (simp_all add: key_name_def owner_name_def)

definition at_most :: "'a option \<Rightarrow> 'a list \<Rightarrow> 'a option \<Rightarrow> bool" where
  "at_most old vs new \<longleftrightarrow>
     (case vs of [] \<Rightarrow> new = old | [v] \<Rightarrow> old = None \<and> new = Some v | _ \<Rightarrow> False)"

lemma at_most_simps [simp]:
  "at_most old [] new \<longleftrightarrow> new = old" "at_most None (v # vs) new \<longleftrightarrow> at_most (Some v) vs new"
  "\<not> at_most (Some w) (v # vs) new"
  by (auto simp: at_most_def split: list.splits)

definition owners_read :: "evm_address option \<Rightarrow> string list \<Rightarrow> evm_address option \<Rightarrow> bool" where
  "owners_read declared vs d \<longleftrightarrow> (\<exists>as. map evm_parse vs = map Inr as \<and> at_most declared as d)"

lemma owners_read_simps [simp]:
  "owners_read declared [] d \<longleftrightarrow> d = declared"
  "owners_read (Some a) (v # vs) d \<longleftrightarrow> False"
  "evm_parse v = Inl e \<Longrightarrow> owners_read declared (v # vs) d \<longleftrightarrow> False"
  "evm_parse v = Inr a \<Longrightarrow> owners_read None (v # vs) d \<longleftrightarrow> owners_read (Some a) vs d"
  by (auto simp: owners_read_def Cons_eq_map_conv)

lemma read_entries_exact:
  "read_entries es key declared = Inr (k, d) \<longleftrightarrow>
     at_most key (values_of key_name es) k \<and> owners_read declared (values_of owner_name es) d"
proof (induction es key declared rule: read_entries.induct)
  case (3 name v es key declared)
  consider "name = key_name" | "name = owner_name" | "name \<noteq> key_name" "name \<noteq> owner_name"
    by blast
  then show ?case
  proof cases
    case 1
    then show ?thesis
      using "3.IH"(1) by (cases key) simp_all
  next
    case 2
    then show ?thesis
      using "3.IH"(2) by (cases declared; cases "evm_parse v") simp_all
  next
    case 3
    then show ?thesis
      using "3.IH"(3) by simp
  qed
qed auto

lemma one_value: "at_most None vs (Some w) \<longleftrightarrow> vs = [w]" "at_most None vs None \<longleftrightarrow> vs = []"
  by (auto simp: at_most_def split: list.splits)

lemma one_owner:
  "owners_read None vs None \<longleftrightarrow> vs = []" "owners_read None vs (Some a) \<longleftrightarrow> (\<exists>v. vs = [v] \<and> evm_parse v = Inr a)"
  by (auto simp: owners_read_def one_value map_eq_Cons_conv)

text \<open>
  The private key that the tool reads is the one entry of its name: reading the contents of a secret file gives a key
  exactly when one line and no other gives the key's name that value, the value is not empty, and the wallet address is
  given by no line, or by one line that parses to the owner of the command line.
\<close>

theorem secret_file_key_exact:
  "read_key_contents contents owner = Inr key \<longleftrightarrow>
     key \<noteq> [] \<and> values_of key_name (map env_entry (env_lines contents)) = [key] \<and>
     (values_of owner_name (map env_entry (env_lines contents)) = [] \<or>
      (\<exists>v. values_of owner_name (map env_entry (env_lines contents)) = [v] \<and> evm_parse v = Inr owner))"
proof -
  let ?es = "map env_entry (env_lines contents)"
  have "read_key_contents contents owner = Inr key \<longleftrightarrow>
      key \<noteq> [] \<and> (read_entries ?es None None = Inr (Some key, None) \<or> read_entries ?es None None = Inr (Some key, Some owner))"
    by (cases "read_entries ?es None None") (auto simp: read_key_contents_def res_simps split: prod.splits)
  then show ?thesis
    unfolding read_entries_exact one_value one_owner by blast
qed

section \<open>The evidence file\<close>

definition escape_char :: "char \<Rightarrow> string" where
  "escape_char c =
     (if c = CHR 0x5C then [CHR 0x5C, CHR 0x5C]
      else if c = CHR 0x22 then [CHR 0x5C, CHR 0x22]
      else if c = CHR 0x0A then [CHR 0x5C, CHR ''n'']
      else if c = CHR 0x0D then [CHR 0x5C, CHR ''r'']
      else if c = CHR 0x09 then [CHR 0x5C, CHR ''t'']
      else if of_char c \<ge> (0x20 :: nat) then [c] else [])"

definition json_escape :: "string \<Rightarrow> string" where
  "json_escape input = concat (map escape_char input)"

definition quote :: "string \<Rightarrow> string" where
  "quote s = CHR 0x22 # s @ [CHR 0x22]"

definition evidence_line :: "nat \<Rightarrow> string \<Rightarrow> string \<Rightarrow> string" where
  "evidence_line unix_milliseconds event fields' =
     CHR ''{'' # quote ''schema'' @ '':'' @ quote ''predictfun.testnet.acceptance.v1'' @ '','' @ quote ''timestamp_unix_ms'' @ '':'' @
     to_string unix_milliseconds @ '','' @ quote ''event'' @ '':'' @ quote (json_escape event) @
     (if fields' \<noteq> [] then CHR '','' # fields' else []) @ ''}'' @ [CHR 0x0A]"

text \<open>A JSON reader's view of the text after an opening quote: the characters up to the closing quote, and the rest.\<close>

fun read_json_string :: "string \<Rightarrow> (string \<times> string) option" where
  "read_json_string [] = None"
| "read_json_string (c # cs) =
     (if c = CHR 0x22 then Some ([], cs)
      else if of_char c < (0x20 :: nat) then None
      else if c \<noteq> CHR 0x5C then map_option (\<lambda>(s, r). (c # s, r)) (read_json_string cs)
      else case cs of
        [] \<Rightarrow> None
      | e # cs' \<Rightarrow>
          (if e = CHR 0x5C \<or> e = CHR 0x22 then map_option (\<lambda>(s, r). (e # s, r)) (read_json_string cs')
           else if e = CHR ''n'' then map_option (\<lambda>(s, r). (CHR 0x0A # s, r)) (read_json_string cs')
           else if e = CHR ''r'' then map_option (\<lambda>(s, r). (CHR 0x0D # s, r)) (read_json_string cs')
           else if e = CHR ''t'' then map_option (\<lambda>(s, r). (CHR 0x09 # s, r)) (read_json_string cs')
           else None))"

definition printable :: "char \<Rightarrow> bool" where
  "printable c \<longleftrightarrow> of_char c \<ge> (0x20 :: nat) \<or> c \<in> {CHR 0x0A, CHR 0x0D, CHR 0x09}"

lemma json_escape_simps [simp]: "json_escape [] = []" "json_escape (c # cs) = escape_char c @ json_escape cs"
  by (simp_all add: json_escape_def)

text \<open>
  A quoted evidence text reads back: whatever an error message, a step name or an event holds, a JSON reader that
  starts after the opening quote stops at the closing quote that the writer put and finds the text less the control
  characters the writer drops; so no text can end its field early or start another.
\<close>

theorem evidence_text_round_trip:
  "read_json_string (json_escape input @ CHR 0x22 # rest) = Some (filter printable input, rest)"
  by (induction input) (auto simp: escape_char_def printable_def)

end
