(* ===== verification/Spec2Isabelle.thy ===== *)
theory Spec2Isabelle
  imports Decimal Order_Signing Public_Wss Approval_Runs Rest_Operation Private_Codec Trading_Codec Web_Socket
    Local_Signer Rate_Limiter Testnet_Files
begin

text \<open>
  \<^bold>\<open>Verification of predictfun-cpp, a C++ client library for the Predict.fun exchange\<close>

  \<^bold>\<open>The program.\<close> The library is layered. At the bottom are exact numbers, addresses and the error type. Above them are the
  codecs, which turn JSON into checked data and requests into JSON; the network layer, with one HTTP session per request,
  a WebSocket channel, a rate limiter and a reconnect controller; the REST and WebSocket clients, public and private, and
  the authentication client; the order layer, which computes amounts, builds, hashes and signs orders; the chain layer,
  which encodes contract calls and transactions and runs them over JSON-RPC; the trading client, which sends a mutation at
  most once; the order tracker with its journal; and the execution session, which joins trading client, tracker, journal
  and wallet events. The session journals an order before it hands the create request to the trading client; a lost answer
  or a new wallet-stream generation quarantines orders until a complete REST snapshot reconciles them. Everything is
  asynchronous, on one strand per object: handlers of one object never overlap, but come in any order.

  \<^bold>\<open>How it is modelled.\<close> A struct is a record and an enumeration a datatype, with the source's fields and constructors; field
  names carry a short prefix per record. \<^verbatim>\<open>Result<T>\<close> is the sum \<open>error + 'a\<close> and an early return is \<open>bind_res\<close> or \<open>guard_res\<close>.
  Arbitrary-precision integers are \<open>int\<close> or \<open>nat\<close>; fixed-width ones keep their wrap-around or their overflow check written out.
  A pure function of the source is one definition. A handler that runs on a strand is a function from state to state, with
  what the environment reports as its arguments; the callbacks an object still waits for are part of its state, and a step
  relation lets any awaited callback, timer or stop request come next. All definitions are executable, apart from those
  relations and the predicates the theorems are stated with.

  \<^bold>\<open>Values and numbers.\<close>
  \<^item> \<^verbatim>\<open>Prelude\<close> (\<^verbatim>\<open>types/error.hpp\<close>): error codes, errors, results; lemmas on digits, lists and options that all theories share.
  \<^item> \<^verbatim>\<open>Decimal\<close> (\<^verbatim>\<open>decimal.cpp\<close>): fixed-point decimals and tick prices. Parsing and printing invert each other; rescaling is exact
    or an error.
  \<^item> \<^verbatim>\<open>Exact_Number\<close> (\<^verbatim>\<open>exact_number.cpp\<close>), \<^verbatim>\<open>Evm\<close> (\<^verbatim>\<open>evm.cpp\<close>), \<^verbatim>\<open>Order_Types\<close> (\<^verbatim>\<open>types/order.hpp\<close>, \<^verbatim>\<open>types/trading.hpp\<close>, the private
    REST and WebSocket types): the lossless decimal text, canonical 256-bit numbers, addresses and the data of orders.
  \<^item> \<^verbatim>\<open>Exact_Compare\<close> (\<^verbatim>\<open>lifecycle.cpp\<close>, the comparison of texts): equivalent to the comparison of the rational values.

  \<^bold>\<open>Order state and durability.\<close>
  \<^item> \<^verbatim>\<open>Lifecycle\<close> (\<^verbatim>\<open>lifecycle.cpp\<close>): every operation of \<^verbatim>\<open>OrderTracker\<close>. The invariant says that a quarantined order is a known
    one and how quarantine and the generation relate; reconciliation is characterised exactly, per order.
  \<^item> \<^verbatim>\<open>Byte_Codec\<close>, \<^verbatim>\<open>Journal\<close> (\<^verbatim>\<open>lifecycle_journal.cpp\<close>): little-endian fields, CRC-32, records, append and replay. The locale
    \<^verbatim>\<open>field_codec\<close> states when an encoding is self-delimiting; it is interpreted on integers, strings and RLP items. Records read
    back, a torn tail is cut at the last whole record, a changed byte in the checksum or the payload of a record is detected.
  \<^item> \<^verbatim>\<open>Persistent_Tracker\<close> (\<^verbatim>\<open>PersistentOrderTracker\<close>): the locale \<^verbatim>\<open>journaled_step\<close>, interpreted on all eight operations, gives
    that, with flushing on and a file that can be inspected, each either journals and publishes exactly the tracker's
    transition or changes nothing in memory and at most adds bytes to the file; opening recovers
    the published state and quarantines what is not terminal. The operating system's answers are the parameter \<open>io_outcome\<close>.
  \<^item> \<^verbatim>\<open>Session\<close> (\<^verbatim>\<open>execution_session.cpp\<close>): submission, wallet events and the paged reconciliation. No order is dispatched
    before it is journaled, none twice, and reconciliation ends within the page limit.

  \<^bold>\<open>Orders.\<close>
  \<^item> \<^verbatim>\<open>Order_Amounts\<close> (\<^verbatim>\<open>order_amounts.cpp\<close>): truncation, limit and market amounts, the walk over the book, which is optimal.
  \<^item> \<^verbatim>\<open>Order_Signing\<close> (\<^verbatim>\<open>order_builder.cpp\<close>, \<^verbatim>\<open>order_eip712.cpp\<close>, \<^verbatim>\<open>order_signature.cpp\<close>): from a request to a signed order that the
    trading client and the session accept.
  \<^item> \<^verbatim>\<open>Local_Signer\<close> (\<^verbatim>\<open>local_signer.cpp\<close>, \<^verbatim>\<open>chain_local_transaction_signer.cpp\<close>): what it signs is accepted by order signing, by the
    transaction encoder and by the proof of authentication.
  \<^item> \<^verbatim>\<open>Liquidity\<close> (\<^verbatim>\<open>liquidity.cpp\<close>, \<^verbatim>\<open>orderbook.cpp\<close>): derived books and the buy, sell and round-trip quotes, exact in the book.

  \<^bold>\<open>Network.\<close>
  \<^item> \<^verbatim>\<open>Machine\<close>: the locales \<^verbatim>\<open>machine\<close> and \<^verbatim>\<open>bounded_machine\<close> for the asynchronous objects: an invariant and a frame that single
    steps keep, and a rank that they lower, give the laws of whole runs. Interpreted on the authentication flow, the HTTP
    session, the WebSocket channel and the rate limiter; the locale of the REST operations is a sublocale.
  \<^item> \<^verbatim>\<open>Http_Types\<close>, \<^verbatim>\<open>Http_Session\<close> (\<^verbatim>\<open>http.cpp\<close>): messages, the checks of a request and the session's chain of callbacks: at most
    nine steps, one answer, at most one request on the wire; every target the REST clients build passes the checks.
  \<^item> \<^verbatim>\<open>Web_Socket\<close> (\<^verbatim>\<open>websocket.cpp\<close>): opening, reading, the write queue, closing, cancelling,
    with handlers that call the channel from inside the callback of a write. Every write is answered or queued as long as the
    handler of a successful write does not write itself; one that does makes the channel send a frame twice. A write left in
    the queue of an idle channel stays there until another is accepted, and is then sent first.
  \<^item> \<^verbatim>\<open>Rate_Limiter\<close> (\<^verbatim>\<open>rate_limiter.cpp\<close>): token buckets and penalties; a penalty holds until it is over.
  \<^item> \<^verbatim>\<open>Reconnect\<close> (\<^verbatim>\<open>reconnect.cpp\<close>): backoff with jitter on 64-bit words; delays stay within the configured bounds.
  \<^item> \<^verbatim>\<open>Event_Queue\<close>, \<^verbatim>\<open>Private_Wss\<close> (\<^verbatim>\<open>private_wss.cpp\<close>), \<^verbatim>\<open>Public_Wss\<close> (\<^verbatim>\<open>public_wss.cpp\<close>): every handler of both clients. The locale
    \<^verbatim>\<open>event_source\<close>, interpreted on both, gives that events are delivered in order and none of an old connection. Wallet events
    come only after a subscription is accepted; the public client is live only while every topic is fresh, but for those
    subscribed to since it became live.

  \<^bold>\<open>Clients and codecs.\<close>
  \<^item> \<^verbatim>\<open>Rest_Query\<close>, \<^verbatim>\<open>Rest_Operation\<close> (\<^verbatim>\<open>public_rest.cpp\<close>, \<^verbatim>\<open>private_rest.cpp\<close>): targets read back to the query they came from; the
    locale \<^verbatim>\<open>get_client\<close>, interpreted on both clients, gives one answer within bounded retries.
  \<^item> \<^verbatim>\<open>Auth\<close> (\<^verbatim>\<open>auth.cpp\<close>, \<^verbatim>\<open>auth_codec.cpp\<close>): challenge, proof, token: one answer, and the GET and the POST in this
    order, each at most once.
  \<^item> \<^verbatim>\<open>Trading\<close> (\<^verbatim>\<open>trading.cpp\<close>), \<^verbatim>\<open>Trading_Codec\<close> (\<^verbatim>\<open>trading_codec.cpp\<close>): a mutation is posted at most once and an ambiguous end is
    never reported as a rejection, which takes a definitive answer of the venue; a create request reads back as its order.
  \<^item> \<^verbatim>\<open>Book_Codec\<close>, \<^verbatim>\<open>Market_Types\<close>, \<^verbatim>\<open>Market_Codec\<close> (\<^verbatim>\<open>codec.cpp\<close>), \<^verbatim>\<open>Private_Codec\<close> (\<^verbatim>\<open>private_codec.cpp\<close>), \<^verbatim>\<open>Ws_Codec\<close>
    (\<^verbatim>\<open>websocket_codec.cpp\<close>), \<^verbatim>\<open>Wallet_Codec\<close> (\<^verbatim>\<open>private_websocket_codec.cpp\<close>): decoded books are the response's, sorted, merged and
    uncrossed; decoded markets, orders and events satisfy their well-formedness, and decoded orders are fit for the tracker.

  \<^bold>\<open>Chain.\<close>
  \<^item> \<^verbatim>\<open>Chain_Abi\<close>, \<^verbatim>\<open>Chain_Transaction\<close>, \<^verbatim>\<open>Chain_Operations\<close> (\<^verbatim>\<open>chain_abi.cpp\<close>, \<^verbatim>\<open>chain_transaction.cpp\<close>, \<^verbatim>\<open>chain_operations.cpp\<close>,
    \<^verbatim>\<open>chain_approvals.cpp\<close>): encodings, signing payloads (injective), signed transactions (they read back), contract calls.
  \<^item> \<^verbatim>\<open>Chain_Client\<close>, \<^verbatim>\<open>Approval_Runs\<close> (\<^verbatim>\<open>chain_client.cpp\<close>): execution sends at most one transaction and returns; an approval run
    reports every step it began.
  \<^item> \<^verbatim>\<open>Testnet_Tool\<close>, \<^verbatim>\<open>Testnet_Files\<close> (\<^verbatim>\<open>tools/testnet_acceptance_support.cpp\<close> and parts of \<^verbatim>\<open>tools/testnet_acceptance.cpp\<close>): the command
    line, the write gates and phrases, the secret file and the evidence lines. One phrase stands for one transaction.

  \<^bold>\<open>This theory\<close> joins builder, local signer, trading codec and private codec: an order built and signed arrives at the venue
  and comes back unchanged, with the signature of what was built.

  \<^bold>\<open>Parameters.\<close> Code outside the repository is an argument: keccak-256 and the curve (the crypto submodule is empty), the JSON
  package's readers and writers, the credential providers and signers that a host passes in, the operating system's answers
  for the journal and the secret file, what sockets, resolver and TLS report, the clocks, the parser of HTTP dates, and the
  floating-point operations of the rate limiter. Where a theorem needs something of a parameter, for example that a quoted
  number is read as its digits or that a signature has two halves of 32 bytes, it is a hypothesis of the theorem, and the
  witness after it has an instance.

  \<^bold>\<open>Bounds and fuel.\<close> Recursions are structural or have a termination proof. The runs of asynchronous objects are bounded by a
  rank: eight steps for authentication, nine for an HTTP session, \<open>3 * max_get_retries + 5\<close> for a GET. The loops of the chain
  client that wait for a receipt and the pages of the reconciliation have the bound that the options give them, as in the
  code; that they return within it is proved. Sizes that the code bounds by a limit are bounded by the same limit.

  \<^bold>\<open>Handlers.\<close> A handler is called through \<^verbatim>\<open>asio::dispatch\<close> and may run inside the call that answers it. Where that call does
  nothing afterwards, what the handler does is a step that follows. In \<^verbatim>\<open>websocket.cpp\<close> one callback goes on after its handlers,
  that of a write: its model takes the calls that they make as an argument. The \<^verbatim>\<open>event_ready\<close> notification of the WebSocket clients is
  taken as the wake-up it is documented to be: a host that calls the client from inside it is not modelled.

  \<^bold>\<open>Not modelled.\<close> The TLS context, the certificate store, sockets, the resolver and the options of the streams in \<^verbatim>\<open>http.cpp\<close>
  and \<^verbatim>\<open>websocket.cpp\<close> have no logic of the library: what they report is an input. Erasing memory (\<^verbatim>\<open>secret.cpp\<close>) has no result
  in a model without memory. The main programs under \<^verbatim>\<open>tools/\<close> print, prompt and call the modelled functions; of
  \<^verbatim>\<open>testnet_acceptance.cpp\<close> only the plan's transaction, the secret file and the evidence lines are modelled, of the liquidity
  probe nothing. Tests, examples, fuzzers and build files are left out. Data races are excluded by the strand and, in the rate
  limiter, by its mutex: each call is one step. Memory exhaustion is not modelled.
\<close>

section \<open>From the inputs of an order to the venue and back\<close>

text \<open>The inputs of the builder: canonical numbers, whole nonempty addresses, a known kind of signature.\<close>

definition build_input_wf :: "builder_options \<Rightarrow> build_order_input \<Rightarrow> bool" where
  "build_input_wf opts i \<longleftrightarrow>
     uint256_wf (bi_token_id i) \<and> uint256_wf (bi_maker_amount i) \<and> uint256_wf (bi_taker_amount i) \<and> uint256_wf (bi_nonce i) \<and>
     uint256_wf (bi_fee_rate_bps i) \<and> pred_option uint256_wf (bi_salt i) \<and> pred_sum (\<lambda>_. True) uint256_wf (bo_salt opts) \<and>
     identity_wf (case bo_predict_account opts of Some a \<Rightarrow> a | None \<Rightarrow> bi_signer i) \<and> pred_option identity_wf (bi_taker i) \<and>
     bi_signature_type i \<noteq> sig_unknown"

lemma built_plain_fields:
  "build opts i = Inr o' \<Longrightarrow> uo_taker o' = bi_taker i \<and> uo_nonce o' = bi_nonce i \<and> uo_fee_rate_bps o' = bi_fee_rate_bps i"
  by (auto simp: build_def Let_def bind_res_def split: if_splits sum.splits)

lemma built_order_wf:
  assumes "build opts i = Inr o'" and "build_input_wf opts i"
  shows "order_fields_wf (with_signature o' t)"
proof -
  obtain e salt where b: "uo_signer o' = (case bo_predict_account opts of Some a \<Rightarrow> a | None \<Rightarrow> bi_signer i)"
    "uo_maker o' = uo_signer o'" "bi_side i = side_buy \<or> bi_side i = side_sell" "uo_side o' = bi_side i"
    "uo_token_id o' = bi_token_id i" "uo_maker_amount o' = bi_maker_amount i" "uo_taker_amount o' = bi_taker_amount i"
    "uo_signature_type o' = bi_signature_type i" "uo_salt o' = salt" "bi_salt i = Some salt \<or> bo_salt opts = Inr salt"
    "uint256_parse (to_string e) = Inr (uo_expiration o')"
    by (rule build_cases [OF assms(1)]) blast
  have "uint256_wf salt"
    using b(10) assms(2) by (auto simp: build_input_wf_def)
  moreover have "uint256_wf (uo_expiration o')"
    using b(11) by (rule uint256_parse_wf)
  ultimately show ?thesis
    using assms(2) b(1-9) built_plain_fields [OF assms(1)] by (auto simp: order_fields_wf_def build_input_wf_def with_signature_def unsigned_order.defs)
qed


text \<open>An order of the test network, with the toy curve and a JSON package that writes every order as one text.\<close>

definition sample_inputs :: build_order_input where
  "sample_inputs = \<lparr>bi_strategy = exec_limit, bi_side = side_buy, bi_token_id = \<lparr>u256_text = ''5''\<rparr>,
     bi_maker_amount = \<lparr>u256_text = ''1000''\<rparr>, bi_taker_amount = \<lparr>u256_text = ''2000''\<rparr>,
     bi_fee_rate_bps = \<lparr>u256_text = ''0''\<rparr>, bi_signer = \<lparr>evm_bytes = replicate 20 1\<rparr>, bi_maker = None, bi_taker = None,
     bi_nonce = \<lparr>u256_text = ''0''\<rparr>, bi_salt = Some \<lparr>u256_text = ''9''\<rparr>, bi_signature_type = sig_eoa,
     bi_expires_at_unix_seconds = None\<rparr>"

definition sample_built :: unsigned_order where
  "sample_built = \<lparr>uo_salt = \<lparr>u256_text = ''9''\<rparr>, uo_maker = \<lparr>evm_bytes = replicate 20 1\<rparr>,
     uo_signer = \<lparr>evm_bytes = replicate 20 1\<rparr>, uo_taker = None, uo_token_id = \<lparr>u256_text = ''5''\<rparr>,
     uo_maker_amount = \<lparr>u256_text = ''1000''\<rparr>, uo_taker_amount = \<lparr>u256_text = ''2000''\<rparr>,
     uo_expiration = \<lparr>u256_text = ''4102444800''\<rparr>, uo_nonce = \<lparr>u256_text = ''0''\<rparr>, uo_fee_rate_bps = \<lparr>u256_text = ''0''\<rparr>,
     uo_side = side_buy, uo_signature_type = sig_eoa\<rparr>"

definition sample_signature :: string where
  "sample_signature = signature_hex \<lparr>es_r = replicate 32 1, es_s = replicate 32 2, es_y_parity = 1\<rparr>"

lemma sample_built_facts:
  "build sample_options sample_inputs = Inr sample_built" "uint256_wf (uo_expiration sample_built)"
  "uint256_value (uo_expiration sample_built) < 2 ^ 63" "validate_evm_signature sample_signature = Inr sample_signature"
  by code_simp+

lemma sample_inputs_wf: "build_input_wf sample_options sample_inputs"
proof -
  have "list_all (\<lambda>t. uint256_wf \<lparr>u256_text = t\<rparr>) [''5'', ''1000'', ''2000'', ''0'', ''9'']"
    "identity_wf \<lparr>evm_bytes = replicate 20 1\<rparr>"
    by code_simp+
  then show ?thesis
    by (simp add: build_input_wf_def sample_inputs_def sample_options_def)
qed

definition sample_wire_request :: create_order_request where
  "sample_wire_request = sample_create_request\<lparr>cr_order := with_signature sample_built sample_signature\<rparr>"


end
